(* ===== verification/Go_Base.thy ===== *)
theory Go_Base
  imports Main "HOL-Library.Sublist" "HOL-Library.List_Lexorder" "HOL-Library.Char_ord"
begin

text \<open>
  The prelude of the development: what the modelled Go code uses of its language and
  standard library, and the lemmas every component shares.

  Strings are lists of bytes, as Go's are (\<^typ>\<open>string\<close> is \<open>char list\<close>, and a
  \<^typ>\<open>char\<close> is a byte).  \<open>trim\<close> is \<open>strings.TrimSpace\<close>: it strips every UTF-8 encoding of
  a rune \<open>unicode.IsSpace\<close> accepts.  \<open>to_lower\<close> and \<open>equal_fold\<close> are \<open>strings.ToLower\<close> and
  \<open>strings.EqualFold\<close> on the ASCII letters; every word the code compares with is ASCII,
  and a letter outside ASCII is left as it is (the one place where Go folds more).
  A Go map is an association list read with \<^const>\<open>map_of\<close>; the code never depends on
  its iteration order except where it sorts the keys first (\<open>sorted_keys\<close>).
  An \<open>error\<close> result is \<^typ>\<open>'e option\<close> for a check and \<^typ>\<open>'e + 'a\<close> for a computation.
\<close>

named_theorems go_str \<open>facts about the string functions of the prelude\<close>
named_theorems loop_facts \<open>facts about the early-return loops of the prelude\<close>

section \<open>Bytes and strings\<close>

definition spaces :: "string list" where
  "spaces =
    [[CHR 0x20], [CHR 0x09], [CHR 0x0A], [CHR 0x0B], [CHR 0x0C], [CHR 0x0D],
     [CHR 0xC2, CHR 0x85], [CHR 0xC2, CHR 0xA0],
     [CHR 0xE1, CHR 0x9A, CHR 0x80],
     [CHR 0xE2, CHR 0x80, CHR 0x80], [CHR 0xE2, CHR 0x80, CHR 0x81],
     [CHR 0xE2, CHR 0x80, CHR 0x82], [CHR 0xE2, CHR 0x80, CHR 0x83],
     [CHR 0xE2, CHR 0x80, CHR 0x84], [CHR 0xE2, CHR 0x80, CHR 0x85],
     [CHR 0xE2, CHR 0x80, CHR 0x86], [CHR 0xE2, CHR 0x80, CHR 0x87],
     [CHR 0xE2, CHR 0x80, CHR 0x88], [CHR 0xE2, CHR 0x80, CHR 0x89],
     [CHR 0xE2, CHR 0x80, CHR 0x8A], [CHR 0xE2, CHR 0x80, CHR 0xA8],
     [CHR 0xE2, CHR 0x80, CHR 0xA9], [CHR 0xE2, CHR 0x80, CHR 0xAF],
     [CHR 0xE2, CHR 0x81, CHR 0x9F], [CHR 0xE3, CHR 0x80, CHR 0x80]]"

definition lead_of :: "string list \<Rightarrow> string \<Rightarrow> string option" where
  "lead_of ps s = find (\<lambda>p. p \<noteq> [] \<and> prefix p s) ps"

lemma lead_of_Some: "lead_of ps s = Some p \<Longrightarrow> p \<noteq> [] \<and> prefix p s \<and> p \<in> set ps"
  by (auto simp: lead_of_def find_Some_iff)

lemma lead_of_None: "lead_of ps s = None \<longleftrightarrow> (\<forall>p\<in>set ps. p \<noteq> [] \<longrightarrow> \<not> prefix p s)"
  by (auto simp: lead_of_def find_None_iff)

function strip_with :: "string list \<Rightarrow> string \<Rightarrow> string" where
  "strip_with ps s =
     (case lead_of ps s of None \<Rightarrow> s | Some p \<Rightarrow> strip_with ps (drop (length p) s))"
  by pat_completeness auto
termination
proof (relation "measure (\<lambda>(ps, s). length s)")
  show "wf (measure (\<lambda>(ps :: string list, s :: string). length s))" by simp
next
  fix ps :: "string list" and s p :: string
  assume "lead_of ps s = Some p"
  then have p: "p \<noteq> []" "prefix p s" using lead_of_Some by blast+
  then have "s \<noteq> []" by auto
  with p show "((ps, drop (length p) s), ps, s) \<in> measure (\<lambda>(ps, s). length s)"
    by (simp add: prefix_length_le)
qed

declare strip_with.simps [simp del]

lemma strip_with_lead: "lead_of ps (strip_with ps s) = None"
proof (induction ps s rule: strip_with.induct)
  case (1 ps s)
  then show ?case by (cases "lead_of ps s") (simp_all add: strip_with.simps [of ps s])
qed

lemma strip_with_id: "lead_of ps s = None \<Longrightarrow> strip_with ps s = s"
  by (simp add: strip_with.simps)

lemma strip_with_suffix: "suffix (strip_with ps s) s"
proof (induction ps s rule: strip_with.induct)
  case (1 ps s)
  show ?case
  proof (cases "lead_of ps s")
    case None
    then show ?thesis by (simp add: strip_with_id)
  next
    case (Some p)
    with "1.IH" have "suffix (strip_with ps (drop (length p) s)) (drop (length p) s)" by simp
    moreover have "suffix (drop (length p) s) s" by (rule suffix_drop)
    ultimately show ?thesis using Some
      by (simp add: strip_with.simps [of ps s])
  qed
qed

definition trim_left :: "string \<Rightarrow> string" where
  "trim_left s = strip_with spaces s"

definition trim_right :: "string \<Rightarrow> string" where
  "trim_right s = rev (strip_with (map rev spaces) (rev s))"

definition trim :: "string \<Rightarrow> string" where
  "trim s = trim_right (trim_left s)"

text \<open>
  Equations for evaluation: a printable ASCII byte at the edge is no space, and a lower-case letter
  differs from its upper case in one bit.
\<close>

fun plain_byte :: "char \<Rightarrow> bool" where
  "plain_byte (Char b0 b1 b2 b3 b4 b5 b6 b7) \<longleftrightarrow> \<not> b7 \<and> (b6 \<or> b5 \<and> (b0 \<or> b1 \<or> b2 \<or> b3 \<or> b4))"

lemma plain_byte_lead: "plain_byte c \<Longrightarrow> lead_of spaces (c # s) = None"
  "plain_byte c \<Longrightarrow> lead_of (map rev spaces) (c # s) = None"
  by (cases c; auto simp: lead_of_None spaces_def)+

lemma trim_left_code [code]:
  "trim_left s = (case s of [] \<Rightarrow> [] | c # r \<Rightarrow> if plain_byte c then c # r else strip_with spaces (c # r))"
  by (auto simp: trim_left_def strip_with_id plain_byte_lead lead_of_None split: list.split)

lemma trim_right_code [code]:
  "trim_right s = (case rev s of [] \<Rightarrow> [] | c # r \<Rightarrow> if plain_byte c then s else rev (strip_with (map rev spaces) (c # r)))"
  by (auto simp: trim_right_def strip_with_id plain_byte_lead lead_of_None split: list.split)

lemma trim_right_prefix: "prefix (trim_right s) s"
proof -
  have "suffix (strip_with (map rev spaces) (rev s)) (rev s)" by (rule strip_with_suffix)
  then show ?thesis by (simp add: trim_right_def suffix_to_prefix)
qed

lemma trim_right_idem [simp]: "trim_right (trim_right s) = trim_right s"
  by (simp add: trim_right_def strip_with_id strip_with_lead)

lemma trim_left_idem [simp]: "trim_left (trim_left s) = trim_left s"
  by (simp add: trim_left_def strip_with_id strip_with_lead)

lemma lead_of_prefix: "lead_of ps t = None \<Longrightarrow> prefix s t \<Longrightarrow> lead_of ps s = None"
  by (auto simp: lead_of_None dest: prefix_order.order_trans)

lemma trim_left_trim [simp]: "trim_left (trim s) = trim s"
proof -
  have "lead_of spaces (trim_left s) = None" by (simp add: trim_left_def strip_with_lead)
  then have "lead_of spaces (trim s) = None"
    unfolding trim_def by (rule lead_of_prefix) (rule trim_right_prefix)
  then show ?thesis by (simp add: trim_left_def strip_with_id)
qed

lemma trim_trim [simp, go_str]: "trim (trim s) = trim s"
proof -
  have "trim (trim s) = trim_right (trim s)" by (subst trim_def) simp
  also have "\<dots> = trim s" by (simp add: trim_def)
  finally show ?thesis .
qed

lemma trim_Nil [simp, go_str]: "trim [] = []"
proof -
  have "lead_of ps [] = None" for ps by (auto simp: lead_of_None)
  then show ?thesis by (simp add: trim_def trim_left_def trim_right_def strip_with_id)
qed

text \<open>A string that neither starts nor ends with a space is what \<open>TrimSpace\<close> leaves.\<close>

definition no_lead_space :: "string \<Rightarrow> bool" where
  "no_lead_space s \<longleftrightarrow> lead_of spaces s = None"

definition no_trail_space :: "string \<Rightarrow> bool" where
  "no_trail_space s \<longleftrightarrow> lead_of (map rev spaces) (rev s) = None"

lemma trim_id [go_str]: "no_lead_space s \<Longrightarrow> no_trail_space s \<Longrightarrow> trim s = s"
  by (simp add: trim_def trim_left_def trim_right_def no_lead_space_def no_trail_space_def
      strip_with_id)

lemma trim_edges: "no_lead_space (trim s) \<and> no_trail_space (trim s)"
proof
  show "no_lead_space (trim s)"
    unfolding no_lead_space_def trim_def
    by (rule lead_of_prefix [OF _ trim_right_prefix]) (simp add: trim_left_def strip_with_lead)
  show "no_trail_space (trim s)"
    by (simp add: no_trail_space_def trim_def trim_right_def strip_with_lead)
qed

lemma lead_of_append:
  assumes "lead_of ps s = None" and "\<forall>p\<in>set ps. length p \<le> length s"
  shows "lead_of ps (s @ t) = None"
  unfolding lead_of_None
proof (intro ballI impI notI)
  fix p assume p: "p \<in> set ps" "p \<noteq> []" "prefix p (s @ t)"
  with assms(2) have "prefix p s"
    by (meson prefix_length_prefix prefix_order.refl prefixI)
  with p assms(1) show False by (auto simp: lead_of_None)
qed

lemma spaces_length: "p \<in> set spaces \<Longrightarrow> p \<noteq> [] \<and> length p \<le> 3"
  by (auto simp: spaces_def)

text \<open>\<open>strings.ToLower\<close> and \<open>strings.EqualFold\<close> on the ASCII letters.\<close>

definition ascii_pairs :: "(char \<times> char) list" where
  "ascii_pairs = zip ''ABCDEFGHIJKLMNOPQRSTUVWXYZ'' ''abcdefghijklmnopqrstuvwxyz''"

definition lower_char :: "char \<Rightarrow> char" where
  "lower_char c = (case map_of ascii_pairs c of Some d \<Rightarrow> d | None \<Rightarrow> c)"

fun lower_bits :: "char \<Rightarrow> char" where
  "lower_bits (Char b0 b1 b2 b3 b4 b5 b6 b7) =
    (if b6 \<and> \<not> b5 \<and> \<not> b7 \<and> (b0 \<or> b1 \<or> b2 \<or> b3 \<or> b4) \<and> \<not> (b4 \<and> b3 \<and> (b2 \<or> b1 \<and> b0))
     then Char b0 b1 b2 b3 b4 True b6 b7 else Char b0 b1 b2 b3 b4 b5 b6 b7)"

lemma lower_chars_upper: "\<forall>c\<in>set ''ABCDEFGHIJKLMNOPQRSTUVWXYZ''. lower_char c = lower_bits c"
  by code_simp

lemma lower_bits_other: "lower_bits c \<noteq> c \<Longrightarrow> c \<in> set ''ABCDEFGHIJKLMNOPQRSTUVWXYZ''"
  by (cases c rule: lower_bits.cases, hypsubst)
    (rename_tac b0 b1 b2 b3 b4 b5 b6 b7, case_tac b0; case_tac b1; case_tac b2; case_tac b3; case_tac b4; simp split: if_splits)

lemma lower_char_bits [code]: "lower_char c = lower_bits c"
proof (cases "c \<in> set ''ABCDEFGHIJKLMNOPQRSTUVWXYZ''")
  case True
  then show ?thesis using lower_chars_upper by blast
next
  case False
  then have "map_of ascii_pairs c = None"
    by (auto simp: ascii_pairs_def map_of_eq_None_iff)
  then show ?thesis using lower_bits_other [of c] False by (simp add: lower_char_def) metis
qed

lemma ascii_pairs_snd: "(c, d) \<in> set ascii_pairs \<Longrightarrow> map_of ascii_pairs d = None"
  unfolding ascii_pairs_def by (simp, elim disjE; simp)

lemma lower_char_idem [simp]: "lower_char (lower_char c) = lower_char c"
proof (cases "map_of ascii_pairs c")
  case None
  then show ?thesis by (simp add: lower_char_def)
next
  case (Some d)
  then have "map_of ascii_pairs d = None" by (rule ascii_pairs_snd [OF map_of_SomeD])
  with Some show ?thesis by (simp add: lower_char_def)
qed

definition to_lower :: "string \<Rightarrow> string" where
  "to_lower s = map lower_char s"

lemma to_lower_idem [simp, go_str]: "to_lower (to_lower s) = to_lower s"
  by (simp add: to_lower_def)

lemma to_lower_Nil [simp]: "to_lower [] = []" and length_to_lower [simp]: "length (to_lower s) = length s"
  and to_lower_eq_Nil [simp]: "to_lower s = [] \<longleftrightarrow> s = []"
  by (simp_all add: to_lower_def)

definition equal_fold :: "string \<Rightarrow> string \<Rightarrow> bool" where
  "equal_fold a b \<longleftrightarrow> to_lower a = to_lower b"

lemma equal_fold_refl [simp]: "equal_fold a a"
  by (simp add: equal_fold_def)

lemma equal_fold_sym: "equal_fold a b \<Longrightarrow> equal_fold b a"
  by (simp add: equal_fold_def)

lemma equal_fold_trans: "equal_fold a b \<Longrightarrow> equal_fold b c \<Longrightarrow> equal_fold a c"
  by (simp add: equal_fold_def)

section \<open>Searching, splitting and joining strings\<close>

text \<open>\<open>strings.Index\<close> (\<open>None\<close> for \<open>-1\<close>), \<open>strings.Contains\<close>, \<open>strings.HasPrefix\<close>.\<close>

fun str_index :: "string \<Rightarrow> string \<Rightarrow> nat option" where
  "str_index p [] = (if p = [] then Some 0 else None)"
| "str_index p (c # s) = (if prefix p (c # s) then Some 0 else map_option Suc (str_index p s))"

definition contains :: "string \<Rightarrow> string \<Rightarrow> bool" where
  "contains s p \<longleftrightarrow> str_index p s \<noteq> None"

lemma str_index_Some: "str_index p s = Some i \<Longrightarrow> s = take i s @ p @ drop (i + length p) s \<and> i \<le> length s"
proof (induction p s arbitrary: i rule: str_index.induct)
  case (1 p)
  then show ?case by (simp split: if_splits)
next
  case (2 p c s)
  show ?case
  proof (cases "prefix p (c # s)")
    case True
    with "2.prems" have "i = 0" by simp
    moreover from True obtain zs where "c # s = p @ zs" by (auto elim: prefixE)
    ultimately show ?thesis by simp
  next
    case False
    with "2.prems" obtain j where j: "str_index p s = Some j" "i = Suc j" by auto
    from "2.IH" [OF False j(1)] j(2) show ?thesis by simp
  qed
qed

lemma str_index_append: "str_index p (a @ p @ b) \<noteq> None"
proof (induction a)
  case Nil
  have "prefix p (p @ b)" by simp
  then have "str_index p (p @ b) = Some 0" by (cases "p @ b") auto
  then show ?case by simp
next
  case (Cons x a)
  then show ?case by simp
qed

lemma contains_iff: "contains s p \<longleftrightarrow> (\<exists>a b. s = a @ p @ b)"
proof
  assume "contains s p"
  then obtain i where "str_index p s = Some i" by (auto simp: contains_def)
  then show "\<exists>a b. s = a @ p @ b" using str_index_Some by blast
next
  assume "\<exists>a b. s = a @ p @ b"
  then show "contains s p" using str_index_append by (auto simp: contains_def simp del: not_None_eq)
qed

lemma str_index_le:
  assumes "prefix p (drop i s)" and "i \<le> length s"
  shows "\<exists>j\<le>i. str_index p s = Some j"
  using assms
proof (induction i arbitrary: s)
  case 0
  then show ?case by (cases s) auto
next
  case (Suc i)
  then obtain c t where s: "s = c # t" by (cases s) auto
  with Suc have "\<exists>j\<le>i. str_index p t = Some j" by simp
  with s show ?case by auto
qed

text \<open>
  A separator that starts with a byte the part before it does not contain is found right
  after that part.
\<close>

lemma str_index_fresh: "c \<notin> set a \<Longrightarrow> str_index (c # p) (a @ c # p @ b) = Some (length a)"
  by (induction a) auto

definition contains_any :: "string \<Rightarrow> string \<Rightarrow> bool" where
  "contains_any s cs \<longleftrightarrow> (\<exists>c\<in>set s. c \<in> set cs)"

text \<open>\<open>strings.Split\<close> on one byte and \<open>strings.Join\<close>.\<close>

fun split_on :: "char \<Rightarrow> string \<Rightarrow> string list" where
  "split_on c [] = [[]]"
| "split_on c (x # xs) =
     (if x = c then [] # split_on c xs
      else (case split_on c xs of [] \<Rightarrow> [[x]] | y # ys \<Rightarrow> (x # y) # ys))"

fun str_join :: "string \<Rightarrow> string list \<Rightarrow> string" where
  "str_join sep [] = []"
| "str_join sep [x] = x"
| "str_join sep (x # y # ys) = x @ sep @ str_join sep (y # ys)"

lemma split_on_nonempty [simp]: "split_on c s \<noteq> []"
  by (induction s) (auto split: list.splits)

lemma str_join_Cons: "ys \<noteq> [] \<Longrightarrow> str_join sep (x # ys) = x @ sep @ str_join sep ys"
  by (cases ys) simp_all

lemma join_split [simp, go_str]: "str_join [c] (split_on c s) = s"
proof (induction s)
  case Nil
  then show ?case by simp
next
  case (Cons x s)
  show ?case
  proof (cases "x = c")
    case True
    then show ?thesis using Cons.IH by (simp add: str_join_Cons)
  next
    case False
    obtain y ys where ys: "split_on c s = y # ys" by (cases "split_on c s") simp_all
    with False have "split_on c (x # s) = (x # y) # ys" by simp
    moreover from Cons.IH ys have "str_join [c] (y # ys) = s" by simp
    ultimately show ?thesis by (cases ys) simp_all
  qed
qed

lemma split_on_fresh: "c \<notin> set s \<Longrightarrow> split_on c s = [s]"
  by (induction s) auto

lemma split_on_append: "split_on c (a @ c # b) = split_on c a @ split_on c b"
proof (induction a)
  case Nil
  then show ?case by simp
next
  case (Cons x a)
  show ?case
  proof (cases "x = c")
    case True
    with Cons show ?thesis by simp
  next
    case False
    obtain y ys where "split_on c a = y # ys" by (cases "split_on c a") simp_all
    with False Cons show ?thesis by simp
  qed
qed

lemma split_on_parts: "x \<in> set (split_on c s) \<Longrightarrow> c \<notin> set x"
  by (induction s arbitrary: x) (auto split: if_splits list.splits)

text \<open>\<open>%d\<close> of a count or a position.\<close>

definition digit_char :: "nat \<Rightarrow> char" where
  "digit_char d = ''0123456789'' ! (d mod 10)"

fun show_nat :: "nat \<Rightarrow> string" where
  "show_nat n = (if n < 10 then [digit_char n] else show_nat (n div 10) @ [digit_char (n mod 10)])"

declare show_nat.simps [simp del]

lemma show_nat_nonempty [simp]: "show_nat n \<noteq> []"
  by (subst show_nat.simps) simp

section \<open>Maps and early-return loops\<close>

lemma all_nat_split: "(\<forall>j. P j) \<longleftrightarrow> P 0 \<and> (\<forall>j. P (Suc j))"
  by (metis not0_implies_Suc)

lemma ex_nat_split: "(\<exists>j. P j) \<longleftrightarrow> P 0 \<or> (\<exists>j. P (Suc j))"
  by (metis not0_implies_Suc)

lemma find_append_case:
  "find P (xs @ ys) = (case find P xs of Some x \<Rightarrow> Some x | None \<Rightarrow> find P ys)"
  by (induction xs) auto

type_synonym 'v smap = "(string \<times> 'v) list"

definition sorted_keys :: "'v smap \<Rightarrow> string list" where
  "sorted_keys m = sort (remdups (map fst m))"

lemma set_sorted_keys [simp]: "set (sorted_keys m) = dom (map_of m)"
  by (simp add: sorted_keys_def dom_map_of_conv_image_fst)

lemma distinct_sorted_keys [simp]: "distinct (sorted_keys m)"
  by (simp add: sorted_keys_def)

text \<open>
  \<open>for ... { if err := check(x); err != nil { return err } }\<close>: the first element whose
  check fails decides.
\<close>

fun first_error :: "('a \<Rightarrow> 'e option) \<Rightarrow> 'a list \<Rightarrow> 'e option" where
  "first_error f [] = None"
| "first_error f (x # xs) = (case f x of Some e \<Rightarrow> Some e | None \<Rightarrow> first_error f xs)"

lemma first_error_None [loop_facts]: "first_error f xs = None \<longleftrightarrow> (\<forall>x\<in>set xs. f x = None)"
  by (induction xs) (auto split: option.splits)

lemma first_error_Some [loop_facts]: "first_error f xs = Some e \<Longrightarrow> \<exists>x\<in>set xs. f x = Some e"
  by (induction xs) (auto split: option.splits)

lemma first_error_cong [fundef_cong]:
  "xs = ys \<Longrightarrow> (\<And>x. x \<in> set ys \<Longrightarrow> f x = g x) \<Longrightarrow> first_error f xs = first_error g ys"
proof (induction xs arbitrary: ys)
  case (Cons x xs)
  then show ?case by (auto split: option.splits)
qed simp

lemma first_error_append:
  "first_error f (xs @ ys) = (case first_error f xs of Some e \<Rightarrow> Some e | None \<Rightarrow> first_error f ys)"
  by (induction xs) (auto split: option.splits)

lemma first_error_enumerate [loop_facts]:
  "first_error f (enumerate 0 xs) = None \<longleftrightarrow> (\<forall>i<length xs. f (i, xs ! i) = None)"
proof -
  have "(\<forall>x\<in>set (enumerate 0 xs). f x = None) \<longleftrightarrow> (\<forall>i<length xs. f (i, xs ! i) = None)"
  proof (intro iffI allI ballI impI)
    fix i assume "\<forall>x\<in>set (enumerate 0 xs). f x = None" and "i < length xs"
    moreover from \<open>i < length xs\<close> have "(i, xs ! i) \<in> set (enumerate 0 xs)"
      by (simp add: in_set_enumerate_eq)
    ultimately show "f (i, xs ! i) = None" by blast
  next
    fix x assume "\<forall>i<length xs. f (i, xs ! i) = None" and "x \<in> set (enumerate 0 xs)"
    then show "f x = None" by (cases x) (auto simp: in_set_enumerate_eq)
  qed
  then show ?thesis by (simp add: first_error_None)
qed

text \<open>Checks one after the other, as a sequence of \<open>if err != nil { return err }\<close>.\<close>

definition or_else :: "'e option \<Rightarrow> 'e option \<Rightarrow> 'e option" where
  "or_else a b = (case a of Some e \<Rightarrow> Some e | None \<Rightarrow> b)"

lemma or_else_None [simp]: "or_else a b = None \<longleftrightarrow> a = None \<and> b = None"
  by (auto simp: or_else_def split: option.splits)

lemma or_else_left [simp]: "or_else None b = b" "or_else (Some e) b = Some e"
  by (simp_all add: or_else_def)

text \<open>A loop that computes a list and returns on the first failure.\<close>

fun map_result :: "('a \<Rightarrow> 'e + 'b) \<Rightarrow> 'a list \<Rightarrow> 'e + 'b list" where
  "map_result f [] = Inr []"
| "map_result f (x # xs) =
     (case f x of Inl e \<Rightarrow> Inl e
      | Inr y \<Rightarrow> (case map_result f xs of Inl e \<Rightarrow> Inl e | Inr ys \<Rightarrow> Inr (y # ys)))"

lemma map_result_Inr [loop_facts]:
  "map_result f xs = Inr ys \<longleftrightarrow> list_all2 (\<lambda>x y. f x = Inr y) xs ys"
proof (induction xs arbitrary: ys)
  case Nil
  then show ?case by auto
next
  case (Cons x xs)
  then show ?case
    by (cases ys; cases "map_result f xs") (auto split: sum.splits simp flip: Cons.IH)
qed

lemma map_result_Inl [loop_facts]: "map_result f xs = Inl e \<Longrightarrow> \<exists>x\<in>set xs. f x = Inl e"
  by (induction xs) (auto split: sum.splits)

lemma map_result_total: "(\<And>x. x \<in> set xs \<Longrightarrow> \<exists>y. f x = Inr y) \<Longrightarrow> \<exists>ys. map_result f xs = Inr ys"
  by (induction xs) fastforce+

end
