(* ===== verification/Inbox_Store.thy ===== *)
theory Inbox_Store
  imports Go_Base
begin

text \<open>
  The queue of every agent (src/message.go, src/db/sqlite_inbox.go): one table of messages, a
  message's row id being its place in the queue.  As in the execution store, \<open>ms_faults\<close> lists the
  outcomes of the coming statements and an empty list means that none fails any more.  Times are
  not modelled.  What the inbox relies on is a locale, interpreted on the modelled table.
\<close>

datatype message_kind =
    KindInstruction | KindChat | KindApproval | KindDelegation | KindStop | KindObservation | KindOther string

datatype message_status =
    StatusBlank | StatusQueued | StatusRunning | StatusDone | StatusFailed | StatusStopped

record message =
  msg_id :: nat
  msg_agent :: nat
  msg_task :: string
  msg_sender :: string
  msg_sender_id :: string
  msg_kind :: message_kind
  msg_content :: string
  msg_status :: message_status
  msg_error :: string

definition message_open :: "message \<Rightarrow> bool" where
  "message_open m \<longleftrightarrow> msg_status m = StatusBlank \<or> msg_status m = StatusQueued"

definition is_new_run_kind :: "message_kind \<Rightarrow> bool" where
  "is_new_run_kind k \<longleftrightarrow> k = KindInstruction \<or> k = KindObservation"

datatype inbox_error = NoAgent | InboxFault string | NoSuchMessage nat

record inbox_table =
  ms_rows :: "message list"
  ms_faults :: "string option list"

definition statement :: "inbox_table \<Rightarrow> inbox_table \<times> inbox_error option" where
  "statement s =
    (case ms_faults s of [] \<Rightarrow> (s, None)
     | f # fs \<Rightarrow> (s\<lparr>ms_faults := fs\<rparr>, map_option InboxFault f))"

definition update_rows :: "(message \<Rightarrow> bool) \<Rightarrow> (message \<Rightarrow> message) \<Rightarrow> inbox_table \<Rightarrow> inbox_table" where
  "update_rows P f s = s\<lparr>ms_rows := map (\<lambda>m. if P m then f m else m) (ms_rows s)\<rparr>"

definition enqueue_message :: "message \<Rightarrow> inbox_table \<Rightarrow> inbox_table \<times> (inbox_error + nat)" where
  "enqueue_message m s =
    (if msg_agent m = 0 then (s, Inl NoAgent)
     else (case statement s of
             (s', Some e) \<Rightarrow> (s', Inl e)
           | (s', None) \<Rightarrow>
               (let i = Suc (length (ms_rows s'));
                    st = (if msg_status m = StatusBlank then StatusQueued else msg_status m)
                in (s'\<lparr>ms_rows := ms_rows s' @ [m\<lparr>msg_id := i, msg_status := st, msg_error := []\<rparr>]\<rparr>, Inr i))))"

definition agent_message :: "nat \<Rightarrow> inbox_table \<Rightarrow> inbox_table \<times> (inbox_error + message)" where
  "agent_message i s =
    (case statement s of
       (s', Some e) \<Rightarrow> (s', Inl e)
     | (s', None) \<Rightarrow>
         (s', (case find (\<lambda>m. msg_id m = i) (ms_rows s') of None \<Rightarrow> Inl (NoSuchMessage i) | Some m \<Rightarrow> Inr m)))"

text \<open>
  The claim: the lowest queued id, then an update guarded by the status, then the row is read.
\<close>

definition is_queued :: "nat \<Rightarrow> message \<Rightarrow> bool" where
  "is_queued a m \<longleftrightarrow> msg_agent m = a \<and> msg_status m = StatusQueued"

definition claim_next_message :: "nat \<Rightarrow> inbox_table \<Rightarrow> inbox_table \<times> (inbox_error + message option)" where
  "claim_next_message a s =
    (if a = 0 then (s, Inr None)
     else (case statement s of
       (s1, Some e) \<Rightarrow> (s1, Inl e)
     | (s1, None) \<Rightarrow>
      (case find (is_queued a) (ms_rows s1) of
         None \<Rightarrow> (s1, Inr None)
       | Some q \<Rightarrow>
        (case statement s1 of
           (s2, Some e) \<Rightarrow> (s2, Inl e)
         | (s2, None) \<Rightarrow>
            (let guard = (\<lambda>m. msg_id m = msg_id q \<and> msg_status m = StatusQueued) in
             if \<not> list_ex guard (ms_rows s2) then (s2, Inr None)
             else (case agent_message (msg_id q) (update_rows guard (\<lambda>m. m\<lparr>msg_status := StatusRunning\<rparr>) s2) of
                     (s3, Inl e) \<Rightarrow> (s3, Inl e)
                   | (s3, Inr m) \<Rightarrow> (s3, Inr (Some m))))))))"

definition finish_agent_message ::
  "nat \<Rightarrow> message_status \<Rightarrow> string \<Rightarrow> inbox_table \<Rightarrow> inbox_table \<times> inbox_error option" where
  "finish_agent_message i st err s =
    (case statement s of
       (s', Some e) \<Rightarrow> (s', Some e)
     | (s', None) \<Rightarrow>
         (update_rows (\<lambda>m. msg_id m = i)
            (\<lambda>m. m\<lparr>msg_status := (if st = StatusBlank then StatusDone else st), msg_error := err\<rparr>) s', None))"

definition requeue_running_messages :: "nat \<Rightarrow> inbox_table \<Rightarrow> inbox_table \<times> inbox_error option" where
  "requeue_running_messages a s =
    (if a = 0 then (s, None)
     else (case statement s of
             (s', Some e) \<Rightarrow> (s', Some e)
           | (s', None) \<Rightarrow>
               (update_rows (\<lambda>m. msg_agent m = a \<and> msg_status m = StatusRunning)
                  (\<lambda>m. m\<lparr>msg_status := StatusQueued\<rparr>) s', None)))"

definition requeue_message :: "nat \<Rightarrow> inbox_table \<Rightarrow> inbox_table \<times> inbox_error option" where
  "requeue_message i s =
    (if i = 0 then (s, None)
     else (case statement s of
             (s', Some e) \<Rightarrow> (s', Some e)
           | (s', None) \<Rightarrow>
               (update_rows (\<lambda>m. msg_id m = i \<and> msg_status m = StatusRunning)
                  (\<lambda>m. m\<lparr>msg_status := StatusQueued\<rparr>) s', None)))"

definition count_queued_messages :: "nat \<Rightarrow> inbox_table \<Rightarrow> inbox_table \<times> (inbox_error + nat)" where
  "count_queued_messages a s =
    (if a = 0 then (s, Inr 0)
     else (case statement s of
             (s', Some e) \<Rightarrow> (s', Inl e)
           | (s', None) \<Rightarrow> (s', Inr (length (filter (is_queued a) (ms_rows s'))))))"

definition count_messages_ahead :: "nat \<Rightarrow> nat \<Rightarrow> inbox_table \<Rightarrow> inbox_table \<times> (inbox_error + nat)" where
  "count_messages_ahead a i s =
    (if a = 0 \<or> i = 0 then (s, Inr 0)
     else (case statement s of
             (s', Some e) \<Rightarrow> (s', Inl e)
           | (s', None) \<Rightarrow>
               (s', Inr (length (filter (\<lambda>m. msg_agent m = a \<and> msg_id m < i \<and>
                          (msg_status m = StatusQueued \<or> msg_status m = StatusRunning)) (ms_rows s'))))))"

fun read_messages :: "nat list \<Rightarrow> inbox_table \<Rightarrow> inbox_table \<times> (inbox_error + message list)" where
  "read_messages [] s = (s, Inr [])"
| "read_messages (i # is) s =
    (case agent_message i s of
       (s', Inl e) \<Rightarrow> (s', Inl e)
     | (s', Inr m) \<Rightarrow>
         (case read_messages is s' of (s'', Inl e) \<Rightarrow> (s'', Inl e) | (s'', Inr ms) \<Rightarrow> (s'', Inr (m # ms))))"

text \<open>A limit of 0 (or less) is no limit.\<close>

definition list_agent_messages :: "nat \<Rightarrow> nat \<Rightarrow> inbox_table \<Rightarrow> inbox_table \<times> (inbox_error + message list)" where
  "list_agent_messages a limit s =
    (if a = 0 then (s, Inr [])
     else (case statement s of
             (s', Some e) \<Rightarrow> (s', Inl e)
           | (s', None) \<Rightarrow>
               (let ids = map msg_id (filter (\<lambda>m. msg_agent m = a) (ms_rows s'))
                in read_messages (if limit > 0 then take limit ids else ids) s')))"

section \<open>The queue of an agent\<close>

definition calm :: "inbox_table \<Rightarrow> bool" where
  "calm s \<longleftrightarrow> ms_faults s = []"

definition table_ok :: "inbox_table \<Rightarrow> bool" where
  "table_ok s \<longleftrightarrow> (\<forall>i<length (ms_rows s). msg_id (ms_rows s ! i) = Suc i)"

definition queue_of :: "inbox_table \<Rightarrow> nat \<Rightarrow> nat list" where
  "queue_of s a = map msg_id (filter (is_queued a) (ms_rows s))"

lemma statement_calm [simp]: "calm s \<Longrightarrow> statement s = (s, None)"
  by (simp add: statement_def calm_def)

lemma statement_rows: "statement s = (s', e) \<Longrightarrow> ms_rows s' = ms_rows s"
  by (auto simp: statement_def split: list.splits)

lemma statement_calm_after: "statement s = (s', e) \<Longrightarrow> calm s \<Longrightarrow> calm s'"
  by (auto simp: statement_def calm_def)

lemma calm_upd [simp]: "calm (s\<lparr>ms_rows := rs\<rparr>) \<longleftrightarrow> calm s" "calm (update_rows P f s) \<longleftrightarrow> calm s"
  by (simp_all add: calm_def update_rows_def)

lemma table_ok_nth: "table_ok s \<Longrightarrow> i < length (ms_rows s) \<Longrightarrow> msg_id (ms_rows s ! i) = Suc i"
  by (simp add: table_ok_def)

lemma table_ok_ids: "table_ok s \<Longrightarrow> m \<in> set (ms_rows s) \<Longrightarrow> 0 < msg_id m \<and> msg_id m \<le> length (ms_rows s)"
  using table_ok_nth by (fastforce simp: in_set_conv_nth)

lemma table_ok_unique:
  "table_ok s \<Longrightarrow> m \<in> set (ms_rows s) \<Longrightarrow> m' \<in> set (ms_rows s) \<Longrightarrow> msg_id m = msg_id m' \<Longrightarrow> m = m'"
  by (auto simp: in_set_conv_nth table_ok_nth)

lemma table_ok_update [simp]: "(\<And>m. msg_id (f m) = msg_id m) \<Longrightarrow> table_ok (update_rows P f s) \<longleftrightarrow> table_ok s"
  by (simp add: table_ok_def update_rows_def)

lemma table_ok_snoc:
  "table_ok s \<Longrightarrow> table_ok (s\<lparr>ms_rows := ms_rows s @ [m\<lparr>msg_id := Suc (length (ms_rows s)), msg_status := st, msg_error := e\<rparr>]\<rparr>)"
  by (simp add: table_ok_def nth_append)

lemma find_id:
  "table_ok s \<Longrightarrow> m \<in> set (ms_rows s) \<Longrightarrow> find (\<lambda>x. msg_id x = msg_id m) (ms_rows s) = Some m"
proof -
  assume ok: "table_ok s" and m: "m \<in> set (ms_rows s)"
  then obtain x where x: "find (\<lambda>x. msg_id x = msg_id m) (ms_rows s) = Some x"
    by (cases "find (\<lambda>x. msg_id x = msg_id m) (ms_rows s)") (auto simp: find_None_iff)
  then have "x \<in> set (ms_rows s)" "msg_id x = msg_id m" by (auto simp: find_Some_iff)
  with table_ok_unique [OF ok _ m] x show ?thesis by simp
qed

lemma queue_of_snoc:
  "queue_of (s\<lparr>ms_rows := ms_rows s @ [m]\<rparr>) a = queue_of s a @ (if is_queued a m then [msg_id m] else [])"
  by (simp add: queue_of_def)

lemma queue_of_statement: "statement s = (s', e) \<Longrightarrow> queue_of s' a = queue_of s a"
  using statement_rows [of s s' e] by (simp add: queue_of_def)

lemma enqueue_calm:
  assumes "calm s" and "msg_agent m \<noteq> 0" and "message_open m"
  shows "\<exists>s'. enqueue_message m s = (s', Inr (Suc (length (ms_rows s)))) \<and> calm s' \<and>
    (table_ok s \<longrightarrow> table_ok s') \<and>
    queue_of s' (msg_agent m) = queue_of s (msg_agent m) @ [Suc (length (ms_rows s))] \<and>
    (\<forall>b. b \<noteq> msg_agent m \<longrightarrow> queue_of s' b = queue_of s b)"
  using assms table_ok_snoc [where s = s and m = m]
  by (auto simp: enqueue_message_def Let_def queue_of_snoc is_queued_def message_open_def)

lemma queue_of_ids: "table_ok s \<Longrightarrow> i \<in> set (queue_of s a) \<Longrightarrow> 0 < i \<and> i \<le> length (ms_rows s)"
  using table_ok_ids by (auto simp: queue_of_def)

text \<open>An update of the row with one id, in a table whose ids are positions.\<close>

lemma update_at:
  assumes "table_ok s" and "ms_rows s = pre @ q # post" and "\<And>m. P m \<Longrightarrow> msg_id m = msg_id q"
  shows "ms_rows (update_rows P f s) = pre @ (if P q then f q else q) # post"
proof -
  have "\<not> P x" if "x \<in> set pre \<or> x \<in> set post" for x
  proof
    assume "P x"
    with assms have id: "msg_id x = msg_id q" by blast
    from that obtain k where k: "k < length (ms_rows s)" "k \<noteq> length pre" "ms_rows s ! k = x"
    proof
      assume "x \<in> set pre"
      then obtain k where "k < length pre" "pre ! k = x" by (auto simp: in_set_conv_nth)
      with assms(2) that [of k] show ?thesis by (simp add: nth_append)
    next
      assume "x \<in> set post"
      then obtain k where "k < length post" "post ! k = x" by (auto simp: in_set_conv_nth)
      with assms(2) that [of "Suc (length pre + k)"] show ?thesis by (simp add: nth_append)
    qed
    from table_ok_nth [OF assms(1) k(1)] k(3) have "msg_id x = Suc k" by simp
    moreover have "msg_id q = Suc (length pre)" using table_ok_nth [OF assms(1), of "length pre"] assms(2) by simp
    ultimately show False using id k(2) by simp
  qed
  then have "map (\<lambda>m. if P m then f m else m) pre = pre" "map (\<lambda>m. if P m then f m else m) post = post"
    by (auto intro: map_idI)
  then show ?thesis using assms(2) by (simp add: update_rows_def)
qed

lemma claim_empty: "calm s \<Longrightarrow> a \<noteq> 0 \<Longrightarrow> queue_of s a = [] \<Longrightarrow> claim_next_message a s = (s, Inr None)"
proof -
  assume c: "calm s" "a \<noteq> 0" and q: "queue_of s a = []"
  then have "find (is_queued a) (ms_rows s) = None" by (simp add: queue_of_def find_None_iff filter_empty_conv)
  with c show ?thesis by (simp add: claim_next_message_def)
qed

lemma claim_next:
  assumes c: "calm s" "a \<noteq> 0" and ok: "table_ok s" and q: "queue_of s a = i # rest"
  shows "\<exists>s' m. claim_next_message a s = (s', Inr (Some m)) \<and> msg_id m = i \<and> msg_agent m = a \<and>
    msg_status m = StatusRunning \<and> calm s' \<and> table_ok s' \<and> queue_of s' a = rest \<and>
    (\<forall>b. b \<noteq> a \<longrightarrow> queue_of s' b = queue_of s b)"
proof -
  have ne: "find (is_queued a) (ms_rows s) \<noteq> None"
  proof -
    have "filter (is_queued a) (ms_rows s) \<noteq> []" using q by (auto simp: queue_of_def)
    then show ?thesis by (auto simp: filter_empty_conv find_None_iff)
  qed
  then obtain m where m: "find (is_queued a) (ms_rows s) = Some m" by blast
  then obtain k where k: "k < length (ms_rows s)" "ms_rows s ! k = m" "is_queued a m" "\<forall>j<k. \<not> is_queued a (ms_rows s ! j)"
    by (auto simp: find_Some_iff)
  define pre where "pre = take k (ms_rows s)"
  define post where "post = drop (Suc k) (ms_rows s)"
  have split: "ms_rows s = pre @ m # post" using id_take_nth_drop [OF k(1)] k(2) by (simp add: pre_def post_def)
  have none: "filter (is_queued a) pre = []" using k(1,4) by (auto simp: pre_def filter_empty_conv in_set_conv_nth)
  have i: "msg_id m = i" and rest: "map msg_id (filter (is_queued a) post) = rest"
    using q k(3) none by (simp_all add: queue_of_def split)
  let ?P = "\<lambda>x. msg_id x = msg_id m \<and> msg_status x = StatusQueued"
  let ?m = "m\<lparr>msg_status := StatusRunning\<rparr>"
  let ?s = "update_rows ?P (\<lambda>m. m\<lparr>msg_status := StatusRunning\<rparr>) s"
  have P: "?P m" using k(3) by (simp add: is_queued_def)
  have rows: "ms_rows ?s = pre @ ?m # post"
    using update_at [OF ok split, of ?P "\<lambda>m. m\<lparr>msg_status := StatusRunning\<rparr>"] P by simp
  have ok': "table_ok ?s" using ok by simp
  have mem: "list_ex ?P (ms_rows s)" using P split by (simp add: list_ex_iff)
  have "find (\<lambda>x. msg_id x = msg_id ?m) (ms_rows ?s) = Some ?m"
    by (rule find_id [OF ok']) (simp add: rows)
  then have read: "agent_message (msg_id m) ?s = (?s, Inr ?m)" using c(1) by (simp add: agent_message_def)
  have "claim_next_message a s = (?s, Inr (Some ?m))"
    using c m mem read by (simp add: claim_next_message_def Let_def)
  moreover have "queue_of ?s a = rest" using none rest by (simp add: queue_of_def rows is_queued_def [of a ?m])
  moreover have "queue_of ?s b = queue_of s b" if "b \<noteq> a" for b
  proof -
    have "\<not> is_queued b m" "\<not> is_queued b ?m" using k(3) that by (auto simp: is_queued_def)
    then show ?thesis by (simp add: queue_of_def rows split)
  qed
  moreover have "msg_agent ?m = a" using k(3) by (simp add: is_queued_def)
  ultimately show ?thesis using i c(1) ok' by auto
qed

section \<open>First come, first served\<close>

text \<open>
  What the inbox relies on: a message put into an agent's queue waits behind the ones already
  there, a claim takes the first one, and neither touches another agent's queue.
\<close>

locale agent_queue =
  fixes put :: "'m \<Rightarrow> 's \<Rightarrow> 's \<times> ('e + nat)"
    and claim :: "nat \<Rightarrow> 's \<Rightarrow> 's \<times> ('e + 'm option)"
    and waiting :: "'s \<Rightarrow> nat \<Rightarrow> nat list"
    and ready :: "'s \<Rightarrow> bool"
    and ident :: "'m \<Rightarrow> nat"
    and owner :: "'m \<Rightarrow> nat"
    and unread :: "'m \<Rightarrow> bool"
  assumes put_last: "ready s \<Longrightarrow> owner m \<noteq> 0 \<Longrightarrow> unread m \<Longrightarrow>
      \<exists>s' i. put m s = (s', Inr i) \<and> ready s' \<and> waiting s' (owner m) = waiting s (owner m) @ [i]"
    and claim_none: "ready s \<Longrightarrow> a \<noteq> 0 \<Longrightarrow> waiting s a = [] \<Longrightarrow> claim a s = (s, Inr None)"
    and claim_first: "ready s \<Longrightarrow> a \<noteq> 0 \<Longrightarrow> waiting s a = i # rest \<Longrightarrow>
      \<exists>s' m. claim a s = (s', Inr (Some m)) \<and> ident m = i \<and> ready s' \<and> waiting s' a = rest"
begin

fun put_all :: "'m list \<Rightarrow> 's \<Rightarrow> 's \<times> nat list" where
  "put_all [] s = (s, [])"
| "put_all (m # ms) s =
    (case put m s of
       (s', Inl e) \<Rightarrow> put_all ms s'
     | (s', Inr i) \<Rightarrow> (case put_all ms s' of (s'', is) \<Rightarrow> (s'', i # is)))"

fun claim_all :: "nat \<Rightarrow> nat \<Rightarrow> 's \<Rightarrow> 's \<times> nat list" where
  "claim_all 0 a s = (s, [])"
| "claim_all (Suc n) a s =
    (case claim a s of
       (s', Inr (Some m)) \<Rightarrow> (case claim_all n a s' of (s'', is) \<Rightarrow> (s'', ident m # is))
     | (s', _) \<Rightarrow> (s', []))"

lemma put_all_waiting:
  "ready s \<Longrightarrow> a \<noteq> 0 \<Longrightarrow> \<forall>m\<in>set ms. owner m = a \<and> unread m \<Longrightarrow>
     ready (fst (put_all ms s)) \<and> length (snd (put_all ms s)) = length ms \<and>
     waiting (fst (put_all ms s)) a = waiting s a @ snd (put_all ms s)"
proof (induction ms arbitrary: s)
  case (Cons m ms)
  then obtain s' i where s': "put m s = (s', Inr i)" "ready s'" "waiting s' a = waiting s a @ [i]"
    using put_last [of s m] by auto
  with Cons.IH [OF s'(2)] Cons.prems show ?case by (auto split: prod.splits)
qed simp

lemma claim_all_order:
  "ready s \<Longrightarrow> a \<noteq> 0 \<Longrightarrow>
     snd (claim_all n a s) = take n (waiting s a) \<and> waiting (fst (claim_all n a s)) a = drop n (waiting s a)"
proof (induction n arbitrary: s)
  case (Suc n)
  show ?case
  proof (cases "waiting s a")
    case Nil
    with Suc.prems claim_none show ?thesis by simp
  next
    case (Cons i rest)
    with claim_first [OF Suc.prems] obtain s' m where
      "claim a s = (s', Inr (Some m))" "ident m = i" "ready s'" "waiting s' a = rest" by blast
    with Suc.IH [of s'] Suc.prems Cons show ?thesis by (auto split: prod.splits)
  qed
qed simp

lemma first_come_first_served:
  assumes "ready s" "a \<noteq> 0" "\<forall>m\<in>set ms. owner m = a \<and> unread m"
  shows "snd (claim_all n a (fst (put_all ms s))) = take n (waiting s a @ snd (put_all ms s))"
  using put_all_waiting [OF assms] claim_all_order [of "fst (put_all ms s)" a n] assms(2) by simp

end

interpretation inboxq: agent_queue enqueue_message claim_next_message queue_of "\<lambda>s. calm s \<and> table_ok s"
  msg_id msg_agent message_open
proof unfold_locales
  fix s a i rest assume s: "calm s \<and> table_ok s" and a: "a \<noteq> 0" and q: "queue_of s a = i # rest"
  from claim_next [OF _ a _ q] s show "\<exists>s' m. claim_next_message a s = (s', Inr (Some m)) \<and> msg_id m = i \<and>
      (calm s' \<and> table_ok s') \<and> queue_of s' a = rest" by blast
next
  fix s m assume "calm s \<and> table_ok s" "msg_agent m \<noteq> 0" "message_open m"
  with enqueue_calm [of s m] show "\<exists>s' i. enqueue_message m s = (s', Inr i) \<and> (calm s' \<and> table_ok s') \<and>
      queue_of s' (msg_agent m) = queue_of s (msg_agent m) @ [i]" by blast
qed (simp add: claim_empty)

end
