(* ===== verification/Agent_Inbox.thy ===== *)
theory Agent_Inbox
  imports Inbox_Store
begin

text \<open>
  The consumer of an agent's queue (src/inbox.go) as a machine of concurrent goroutines.  Every
  section the code runs under the inbox's lock, and every statement it sends to the store, is one
  step; goroutines are interleaved freely, handlers end with any outcome, and the drain of a
  graceful restart (\<open>paused\<close>) begins and ends at any time.  Agents are known by name; \<open>ident\<close> gives
  the row id of an agent.  A finished goroutine is removed.  The caller waiting for a message is
  its id in \<open>mc_waiters\<close>; the delivery of the outcome to it is not modelled.
\<close>

section \<open>The goroutines\<close>

datatype pc =
    PStart string                            \<comment> \<open>\<open>start\<close>: about to ask whether starts are held\<close>
  | PStart2 string                           \<comment> \<open>\<open>start\<close>: about to become the consumer\<close>
  | PReclaim string nat                      \<comment> \<open>\<open>drain\<close>, with the generation it was started at\<close>
  | PRequeueAll string nat
  | PClaim string nat
  | PHold string nat message
  | PRequeue string nat message
  | PTake string nat message                 \<comment> \<open>\<open>process\<close>: the waiter is taken\<close>
  | PCurrent string nat message bool
  | PHandle string nat message bool
  | PClear string nat message bool "string option \<times> bool"
  | PFinish string nat message bool "string option \<times> bool"
  | PDry string nat
  | PEnd string nat                          \<comment> \<open>\<open>endDrain\<close>\<close>

record machine =
  mc_store :: inbox_table
  mc_running :: "string \<Rightarrow> bool"
  mc_reclaim :: "string \<Rightarrow> bool"
  mc_gen :: "string \<Rightarrow> nat"
  mc_current :: "string \<Rightarrow> nat option"
  mc_waiters :: "nat list"
  mc_paused :: bool
  mc_held :: "string list"
  mc_threads :: "pc list"

text \<open>\<open>NewInbox\<close>, over a table an earlier process left, with the consumers the boot starts.\<close>

definition new_inbox :: "inbox_table \<Rightarrow> string list \<Rightarrow> machine" where
  "new_inbox s starts =
    \<lparr>mc_store = s, mc_running = (\<lambda>_. False), mc_reclaim = (\<lambda>_. False), mc_gen = (\<lambda>_. 0),
     mc_current = (\<lambda>_. None), mc_waiters = [], mc_paused = False, mc_held = [], mc_threads = map PStart starts\<rparr>"

section \<open>The sections under the lock\<close>

definition hold_while :: "bool \<Rightarrow> machine \<Rightarrow> machine" where
  "hold_while b m = m\<lparr>mc_paused := b\<rparr>"

definition inbox_enqueue ::
  "(string \<Rightarrow> nat) \<Rightarrow> string \<Rightarrow> message \<Rightarrow> bool \<Rightarrow> machine \<Rightarrow> machine \<times> (inbox_error + nat)" where
  "inbox_enqueue ident a msg waits m =
    (if ident a = 0 then (m, Inl NoAgent)
     else
       (let msg' = msg\<lparr>msg_agent := ident a,
                       msg_status := (if msg_status msg = StatusBlank then StatusQueued else msg_status msg)\<rparr>
        in (case enqueue_message msg' (mc_store m) of
              (s', Inl e) \<Rightarrow> (m\<lparr>mc_store := s'\<rparr>, Inl e)
            | (s', Inr i) \<Rightarrow>
                (m\<lparr>mc_store := s',
                   mc_waiters := (if waits then i # mc_waiters m else mc_waiters m),
                   mc_gen := (mc_gen m)(a := Suc (mc_gen m a))\<rparr>, Inr i))))"

definition hold_start :: "string \<Rightarrow> machine \<Rightarrow> machine \<times> bool" where
  "hold_start a m =
    (if \<not> mc_paused m then (m, False)
     else (m\<lparr>mc_held := List.insert a (mc_held m)\<rparr>, True))"

definition start_consumer :: "string \<Rightarrow> machine \<Rightarrow> machine \<times> nat option" where
  "start_consumer a m =
    (if mc_running m a then (m, None)
     else (m\<lparr>mc_running := (mc_running m)(a := True)\<rparr>, Some (mc_gen m a)))"

definition resume_paused :: "machine \<Rightarrow> machine \<times> string list" where
  "resume_paused m = (m\<lparr>mc_held := []\<rparr>, mc_held m)"

definition held_agents :: "machine \<Rightarrow> nat" where
  "held_agents m = length (mc_held m)"

definition take_reclaim :: "string \<Rightarrow> machine \<Rightarrow> machine \<times> bool" where
  "take_reclaim a m =
    (if mc_reclaim m a then (m, False) else (m\<lparr>mc_reclaim := (mc_reclaim m)(a := True)\<rparr>, True))"

definition take_waiter :: "nat \<Rightarrow> machine \<Rightarrow> machine \<times> bool" where
  "take_waiter i m = (m\<lparr>mc_waiters := filter (\<lambda>j. j \<noteq> i) (mc_waiters m)\<rparr>, i \<in> set (mc_waiters m))"

definition drop_waiter :: "nat \<Rightarrow> machine \<Rightarrow> machine" where
  "drop_waiter i m = fst (take_waiter i m)"

definition queue_is_dry :: "(string \<Rightarrow> nat) \<Rightarrow> string \<Rightarrow> machine \<Rightarrow> machine \<times> bool" where
  "queue_is_dry ident a m =
    (case count_queued_messages (ident a) (mc_store m) of
       (s', Inl e) \<Rightarrow> (m\<lparr>mc_store := s'\<rparr>, True)
     | (s', Inr n) \<Rightarrow> (m\<lparr>mc_store := s'\<rparr>, n = 0))"

definition end_drain :: "string \<Rightarrow> nat \<Rightarrow> machine \<Rightarrow> machine \<times> bool" where
  "end_drain a g m = (m\<lparr>mc_running := (mc_running m)(a := False)\<rparr>, mc_gen m a \<noteq> g)"

text \<open>What a processed message becomes, from the handler's error and whether it was cancelled.\<close>

definition finish_as :: "string option \<times> bool \<Rightarrow> message_status \<times> string" where
  "finish_as oc =
    (case oc of (Some e, True) \<Rightarrow> (StatusStopped, e)
     | (Some e, False) \<Rightarrow> (StatusFailed, e)
     | (None, _) \<Rightarrow> (StatusDone, []))"

definition inbox_stop :: "string \<Rightarrow> machine \<Rightarrow> bool" where
  "inbox_stop a m \<longleftrightarrow> mc_current m a \<noteq> None"

definition inbox_ahead :: "(string \<Rightarrow> nat) \<Rightarrow> string \<Rightarrow> nat \<Rightarrow> machine \<Rightarrow> machine \<times> nat" where
  "inbox_ahead ident a i m =
    (case count_messages_ahead (ident a) i (mc_store m) of
       (s', Inl e) \<Rightarrow> (m\<lparr>mc_store := s'\<rparr>, 0)
     | (s', Inr n) \<Rightarrow> (m\<lparr>mc_store := s'\<rparr>, n))"

section \<open>One step of a goroutine\<close>

definition set_store :: "machine \<Rightarrow> inbox_table \<times> 'x \<Rightarrow> machine" where
  "set_store m r = m\<lparr>mc_store := fst r\<rparr>"

fun thread_step :: "(string \<Rightarrow> nat) \<Rightarrow> string option \<times> bool \<Rightarrow> pc \<Rightarrow> machine \<Rightarrow> machine \<times> pc list" where
  "thread_step ident oc (PStart a) m =
    (case hold_start a m of (m', h) \<Rightarrow> (m', if h then [] else [PStart2 a]))"
| "thread_step ident oc (PStart2 a) m =
    (case start_consumer a m of (m', None) \<Rightarrow> (m', []) | (m', Some g) \<Rightarrow> (m', [PReclaim a g]))"
| "thread_step ident oc (PReclaim a g) m =
    (case take_reclaim a m of (m', first) \<Rightarrow> (m', [if first then PRequeueAll a g else PClaim a g]))"
| "thread_step ident oc (PRequeueAll a g) m =
    (set_store m (requeue_running_messages (ident a) (mc_store m)), [PClaim a g])"
| "thread_step ident oc (PClaim a g) m =
    (case claim_next_message (ident a) (mc_store m) of
       (s', Inr (Some msg)) \<Rightarrow>
         (m\<lparr>mc_store := s'\<rparr>, [if is_new_run_kind (msg_kind msg) then PHold a g msg else PTake a g msg])
     | (s', _) \<Rightarrow> (m\<lparr>mc_store := s'\<rparr>, [PEnd a g]))"
| "thread_step ident oc (PHold a g msg) m =
    (case hold_start a m of (m', h) \<Rightarrow> (m', [if h then PRequeue a g msg else PTake a g msg]))"
| "thread_step ident oc (PRequeue a g msg) m =
    (set_store m (requeue_message (msg_id msg) (mc_store m)), [PEnd a g])"
| "thread_step ident oc (PTake a g msg) m =
    (case take_waiter (msg_id msg) m of (m', w) \<Rightarrow> (m', [PCurrent a g msg w]))"
| "thread_step ident oc (PCurrent a g msg w) m =
    (m\<lparr>mc_current := (mc_current m)(a := Some (msg_id msg))\<rparr>, [PHandle a g msg w])"
| "thread_step ident oc (PHandle a g msg w) m = (m, [PClear a g msg w oc])"
| "thread_step ident oc (PClear a g msg w r) m =
    (m\<lparr>mc_current := (mc_current m)(a := None)\<rparr>, [PFinish a g msg w r])"
| "thread_step ident oc (PFinish a g msg w r) m =
    (set_store m (finish_agent_message (msg_id msg) (fst (finish_as r)) (snd (finish_as r)) (mc_store m)),
     [if w then PDry a g else PClaim a g])"
| "thread_step ident oc (PDry a g) m =
    (case queue_is_dry ident a m of (m', dry) \<Rightarrow> (m', [if dry then PEnd a g else PClaim a g]))"
| "thread_step ident oc (PEnd a g) m =
    (case end_drain a g m of (m', arrived) \<Rightarrow> (m', if arrived then [PStart a] else []))"

section \<open>The machine\<close>

datatype inbox_event =
    EvEnqueue string message bool
  | EvPause bool
  | EvResume
  | EvDropWaiter nat
  | EvRun nat "string option \<times> bool"

definition spawn :: "pc list \<Rightarrow> machine \<Rightarrow> machine" where
  "spawn ps m = m\<lparr>mc_threads := mc_threads m @ ps\<rparr>"

definition run_thread :: "(string \<Rightarrow> nat) \<Rightarrow> nat \<Rightarrow> string option \<times> bool \<Rightarrow> machine \<Rightarrow> machine" where
  "run_thread ident i oc m =
    (if i < length (mc_threads m)
     then (case thread_step ident oc (mc_threads m ! i) m of
             (m', ps) \<Rightarrow> m'\<lparr>mc_threads := take i (mc_threads m) @ ps @ drop (Suc i) (mc_threads m)\<rparr>)
     else m)"

fun inbox_step :: "(string \<Rightarrow> nat) \<Rightarrow> inbox_event \<Rightarrow> machine \<Rightarrow> machine" where
  "inbox_step ident (EvEnqueue a msg waits) m =
    (case inbox_enqueue ident a msg waits m of
       (m', Inl e) \<Rightarrow> m' | (m', Inr i) \<Rightarrow> spawn [PStart a] m')"
| "inbox_step ident (EvPause b) m = hold_while b m"
| "inbox_step ident EvResume m = (case resume_paused m of (m', as) \<Rightarrow> spawn (map PStart as) m')"
| "inbox_step ident (EvDropWaiter i) m = drop_waiter i m"
| "inbox_step ident (EvRun i oc) m = run_thread ident i oc m"

definition run_events :: "(string \<Rightarrow> nat) \<Rightarrow> inbox_event list \<Rightarrow> machine \<Rightarrow> machine" where
  "run_events ident evs m = foldl (\<lambda>m e. inbox_step ident e m) m evs"

text \<open>The states the machine reaches by events a guard allows.\<close>

inductive inbox_reach ::
  "(string \<Rightarrow> nat) \<Rightarrow> (inbox_event \<Rightarrow> machine \<Rightarrow> bool) \<Rightarrow> machine \<Rightarrow> machine \<Rightarrow> bool"
  for ident :: "string \<Rightarrow> nat" and allowed :: "inbox_event \<Rightarrow> machine \<Rightarrow> bool" and m0 :: machine where
  here: "inbox_reach ident allowed m0 m0"
| there: "inbox_reach ident allowed m0 m \<Longrightarrow> allowed e m \<Longrightarrow> inbox_reach ident allowed m0 (inbox_step ident e m)"

lemma run_events_reach:
  "inbox_reach ident (\<lambda>_ _. True) m0 m \<Longrightarrow> inbox_reach ident (\<lambda>_ _. True) m0 (run_events ident evs m)"
  unfolding run_events_def by (induction evs arbitrary: m) (auto intro: inbox_reach.there)

end
