(* ===== verification/Inbox_Laws.thy ===== *)
theory Inbox_Laws
  imports Agent_Inbox
begin

text \<open>
  What the inbox promises under every interleaving: an agent has at most one consumer, and, as long
  as no drain ends while a consumer is leaving, no queued message is left without one.  The window
  the second promise excludes is real, and the run that loses a message in it is given.
\<close>

section \<open>One consumer per agent\<close>

fun consumer_of :: "pc \<Rightarrow> (string \<times> nat) option" where
  "consumer_of (PStart a) = None"
| "consumer_of (PStart2 a) = None"
| "consumer_of (PReclaim a g) = Some (a, g)"
| "consumer_of (PRequeueAll a g) = Some (a, g)"
| "consumer_of (PClaim a g) = Some (a, g)"
| "consumer_of (PHold a g m) = Some (a, g)"
| "consumer_of (PRequeue a g m) = Some (a, g)"
| "consumer_of (PTake a g m) = Some (a, g)"
| "consumer_of (PCurrent a g m w) = Some (a, g)"
| "consumer_of (PHandle a g m w) = Some (a, g)"
| "consumer_of (PClear a g m w r) = Some (a, g)"
| "consumer_of (PFinish a g m w r) = Some (a, g)"
| "consumer_of (PDry a g) = Some (a, g)"
| "consumer_of (PEnd a g) = Some (a, g)"

definition consumes :: "string \<Rightarrow> pc \<Rightarrow> bool" where
  "consumes a t \<longleftrightarrow> (\<exists>g. consumer_of t = Some (a, g))"

definition consumers :: "string \<Rightarrow> pc list \<Rightarrow> nat" where
  "consumers a ts = length (filter (consumes a) ts)"

lemma consumers_simps [simp]:
  "consumers a [] = 0" "consumers a (t # ts) = (if consumes a t then 1 else 0) + consumers a ts"
  "consumers a (ts @ ts') = consumers a ts + consumers a ts'"
  by (simp_all add: consumers_def)

lemma consumes_simps [simp]:
  "\<not> consumes a (PStart b)" "\<not> consumes a (PStart2 b)"
  "consumes a (PReclaim b g) \<longleftrightarrow> a = b" "consumes a (PRequeueAll b g) \<longleftrightarrow> a = b"
  "consumes a (PClaim b g) \<longleftrightarrow> a = b" "consumes a (PHold b g m) \<longleftrightarrow> a = b"
  "consumes a (PRequeue b g m) \<longleftrightarrow> a = b" "consumes a (PTake b g m) \<longleftrightarrow> a = b"
  "consumes a (PCurrent b g m w) \<longleftrightarrow> a = b" "consumes a (PHandle b g m w) \<longleftrightarrow> a = b"
  "consumes a (PClear b g m w r) \<longleftrightarrow> a = b" "consumes a (PFinish b g m w r) \<longleftrightarrow> a = b"
  "consumes a (PDry b g) \<longleftrightarrow> a = b" "consumes a (PEnd b g) \<longleftrightarrow> a = b"
  by (auto simp: consumes_def)

lemma consumers_starts [simp]: "consumers a (map PStart as) = 0"
  by (induction as) simp_all

lemma consumers_0: "consumers a ts = 0 \<longleftrightarrow> (\<forall>t\<in>set ts. \<not> consumes a t)"
  by (induction ts) auto

lemma split_at: "i < length ts \<Longrightarrow> ts = take i ts @ ts ! i # drop (Suc i) ts"
  by (rule id_take_nth_drop)

lemma consumers_split:
  "i < length ts \<Longrightarrow> consumers a ts = consumers a (take i ts) + (if consumes a (ts ! i) then 1 else 0) + consumers a (drop (Suc i) ts)"
  by (subst split_at [of i ts], assumption) (simp del: append_take_drop_id)

text \<open>The consumer flag of every agent counts its consumers.\<close>

definition flag_counts :: "machine \<Rightarrow> bool" where
  "flag_counts m \<longleftrightarrow> (\<forall>a. consumers a (mc_threads m) = (if mc_running m a then 1 else 0))"

lemmas section_defs = hold_start_def start_consumer_def take_reclaim_def take_waiter_def queue_is_dry_def
  end_drain_def set_store_def

lemma thread_step_threads: "thread_step ident oc t m = (m', ps) \<Longrightarrow> mc_threads m' = mc_threads m"
  by (cases t) (auto simp: section_defs split: prod.splits option.splits sum.splits if_splits)

lemma thread_step_flag:
  assumes "thread_step ident oc t m = (m', ps)" and "\<And>a. consumes a t \<Longrightarrow> mc_running m a"
  shows "consumers a ps + (if mc_running m a then 1 else 0) =
    (if mc_running m' a then 1 else 0) + (if consumes a t then 1 else 0)"
  using assms by (cases t) (auto simp: section_defs split: prod.splits option.splits sum.splits if_splits)

lemma run_thread_flag:
  assumes "flag_counts m"
  shows "flag_counts (run_thread ident i oc m)"
proof (cases "i < length (mc_threads m)")
  case False
  with assms show ?thesis by (simp add: run_thread_def)
next
  case True
  let ?ts = "mc_threads m" and ?t = "mc_threads m ! i"
  obtain m' ps where step: "thread_step ident oc ?t m = (m', ps)" by fastforce
  have run: "mc_running m a" if "consumes a ?t" for a
    using assms that consumers_split [OF True, of a] unfolding flag_counts_def by (metis One_nat_def add_is_0 less_Suc_eq zero_less_Suc not_less_zero)
  show ?thesis
    unfolding flag_counts_def
  proof
    fix a
    have "consumers a ?ts = (if mc_running m a then 1 else 0)" using assms by (simp add: flag_counts_def)
    with thread_step_flag [OF step run, of a] consumers_split [OF True, of a]
    show "consumers a (mc_threads (run_thread ident i oc m)) = (if mc_running (run_thread ident i oc m) a then 1 else 0)"
      using True step by (simp add: run_thread_def split: if_splits)
  qed
qed

lemma inbox_enqueue_frame:
  "inbox_enqueue ident a msg w m = (m', r) \<Longrightarrow>
     mc_threads m' = mc_threads m \<and> mc_running m' = mc_running m \<and> mc_held m' = mc_held m"
  by (auto simp: inbox_enqueue_def Let_def split: if_splits prod.splits sum.splits)

lemma inbox_step_flag:
  assumes "flag_counts m"
  shows "flag_counts (inbox_step ident e m)"
proof (cases e)
  case (EvEnqueue a msg w)
  obtain m' r where q: "inbox_enqueue ident a msg w m = (m', r)" by fastforce
  from inbox_enqueue_frame [OF q] q EvEnqueue assms show ?thesis
    by (cases r) (simp_all add: flag_counts_def spawn_def)
next
  case (EvRun i oc)
  with run_thread_flag [OF assms] show ?thesis by simp
qed (use assms in \<open>simp_all add: flag_counts_def hold_while_def resume_paused_def spawn_def drop_waiter_def take_waiter_def\<close>)

lemma reach_flag:
  assumes "inbox_reach ident allowed (new_inbox s starts) m"
  shows "flag_counts m"
  using assms
proof induction
  case here
  then show ?case by (simp add: flag_counts_def new_inbox_def)
next
  case (there m e)
  then show ?case by (simp add: inbox_step_flag)
qed

text \<open>
  C11: An agent processes its messages one at a time: in every state the inbox can reach, however
  goroutines interleave, whatever the database refuses, and however often a drain begins and ends,
  at most one goroutine consumes the queue of an agent, and the agent's \<open>running\<close> flag says exactly
  whether there is one.
\<close>

theorem one_consumer_per_agent:
  assumes "inbox_reach ident (\<lambda>_ _. True) (new_inbox s starts) m"
  shows "length (filter (consumes a) (mc_threads m)) = (if mc_running m a then 1 else 0)"
  using reach_flag [OF assms] by (simp add: flag_counts_def consumers_def)

section \<open>A drain that ends at the wrong moment\<close>

definition instruction :: message where
  "instruction = \<lparr>msg_id = 0, msg_agent = 0, msg_task = ''t1'', msg_sender = ''user'', msg_sender_id = ''user'',
     msg_kind = KindInstruction, msg_content = ''build'', msg_status = StatusBlank, msg_error = []\<rparr>"

definition empty_table :: inbox_table where
  "empty_table = \<lparr>ms_rows = [], ms_faults = []\<rparr>"

definition step_of :: "nat \<Rightarrow> inbox_event" where
  "step_of i = EvRun i (None, False)"

text \<open>
  The consumer claims the message and is told to hold it; before it has put the message back and
  left, the drain ends and starts the agent again, which finds a consumer still running.
\<close>

definition losing_run :: "inbox_event list" where
  "losing_run =
    [EvEnqueue ''a'' instruction False, step_of 0, step_of 0, step_of 0, step_of 0,
     EvPause True, step_of 0, step_of 0,
     EvPause False, EvResume, step_of 1, step_of 1,
     step_of 0, step_of 0]"

lemma one_consumer_per_agent_witness:
  "length (filter (consumes ''a'') (mc_threads (run_events (\<lambda>_. 1) (take 6 losing_run) (new_inbox empty_table [])))) =
    (if mc_running (run_events (\<lambda>_. 1) (take 6 losing_run) (new_inbox empty_table [])) ''a'' then 1 else 0)"
  by (rule one_consumer_per_agent [OF run_events_reach [OF inbox_reach.here]])

text \<open>
  The end of a drain can lose a wake-up.  From a fresh inbox there is a run, without any
  database failure, after which nothing is paused, nothing is held, no goroutine is left, and an
  accepted instruction is still queued: \<open>resumePaused\<close> took the agent off the held ones while its
  consumer was between \<open>holdStart\<close> and \<open>endDrain\<close>, so the restart found \<open>running\<close> still set, and
  the consumer then left because no message had arrived since it started.
\<close>

theorem resume_can_strand_a_message:
  "\<exists>m. inbox_reach (\<lambda>_. 1) (\<lambda>_ _. True) (new_inbox empty_table []) m \<and> mc_threads m = [] \<and>
     \<not> mc_paused m \<and> mc_held m = [] \<and> queue_of (mc_store m) 1 = [1]"
proof -
  let ?m = "run_events (\<lambda>_. 1) losing_run (new_inbox empty_table [])"
  have "mc_threads ?m = []" "\<not> mc_paused ?m" "mc_held ?m = []" "queue_of (mc_store ?m) 1 = [1]"
    by code_simp+
  moreover have "inbox_reach (\<lambda>_. 1) (\<lambda>_ _. True) (new_inbox empty_table []) ?m"
    by (rule run_events_reach) (rule inbox_reach.here)
  ultimately show ?thesis by blast
qed

end
