(* ===== verification/Inbox_Wakeup.thy ===== *)
theory Inbox_Wakeup
  imports Inbox_Laws
begin

text \<open>
  No lost wake-up, when no drain ends while a consumer is putting a message back or leaving: a
  queued message always has a goroutine that will look at the queue, or its agent is held.
\<close>

section \<open>What the store's operations do to the queues\<close>

text \<open>Rows keep their agent and are never removed.\<close>

definition rows_kept :: "inbox_table \<Rightarrow> inbox_table \<Rightarrow> bool" where
  "rows_kept s s' \<longleftrightarrow>
     length (ms_rows s) \<le> length (ms_rows s') \<and>
     (\<forall>k<length (ms_rows s). msg_agent (ms_rows s' ! k) = msg_agent (ms_rows s ! k))"

definition carried :: "inbox_table \<Rightarrow> nat \<Rightarrow> nat \<Rightarrow> bool" where
  "carried s a i \<longleftrightarrow> 0 < i \<and> i \<le> length (ms_rows s) \<and> msg_agent (ms_rows s ! (i - 1)) = a"

lemma carried_kept: "carried s a i \<Longrightarrow> rows_kept s s' \<Longrightarrow> carried s' a i"
  by (auto simp: carried_def rows_kept_def)

lemma rows_kept_refl [simp]: "rows_kept s s"
  by (simp add: rows_kept_def)

lemma rows_kept_update [simp]:
  "(\<And>m. msg_agent (f m) = msg_agent m) \<Longrightarrow> rows_kept s (update_rows P f s)"
  by (simp add: rows_kept_def update_rows_def)

lemma queue_update_other:
  assumes "\<And>m. msg_id (f m) = msg_id m" "\<And>m. msg_agent (f m) = msg_agent m"
    and "\<And>m. m \<in> set (ms_rows s) \<Longrightarrow> P m \<Longrightarrow> msg_agent m \<noteq> b"
  shows "queue_of (update_rows P f s) b = queue_of s b"
proof -
  have "map msg_id (filter (is_queued b) (map (\<lambda>m. if P m then f m else m) ms)) = map msg_id (filter (is_queued b) ms)"
    if "set ms \<subseteq> set (ms_rows s)" for ms
    using that assms by (induction ms) (auto simp: is_queued_def)
  then show ?thesis by (simp add: queue_of_def update_rows_def)
qed

lemma queue_finish_subset:
  "set (queue_of (update_rows P (\<lambda>m. m\<lparr>msg_status := st, msg_error := e\<rparr>) s) b) \<subseteq> set (queue_of s b)"
  if "st \<noteq> StatusQueued" for st
  using that by (auto simp: queue_of_def update_rows_def is_queued_def)

lemma carried_row:
  "table_ok s \<Longrightarrow> carried s a i \<Longrightarrow> m \<in> set (ms_rows s) \<Longrightarrow> msg_id m = i \<Longrightarrow> msg_agent m = a"
  by (auto simp: carried_def in_set_conv_nth table_ok_nth)

lemma claim_carried:
  assumes "calm s" "a \<noteq> 0" "table_ok s" "claim_next_message a s = (s', Inr (Some m))"
  shows "carried s' a (msg_id m) \<and> rows_kept s s'"
proof -
  obtain i rest where q: "queue_of s a = i # rest"
    using assms claim_empty [of s a] by (cases "queue_of s a") auto
  have eq: "find (is_queued a) (ms_rows s) \<noteq> None"
    using assms by (auto simp: claim_next_message_def split: option.splits)
  then obtain q' where q': "find (is_queued a) (ms_rows s) = Some q'" by blast
  let ?P = "\<lambda>x. msg_id x = msg_id q' \<and> msg_status x = StatusQueued"
  let ?s = "update_rows ?P (\<lambda>m. m\<lparr>msg_status := StatusRunning\<rparr>) s"
  have s': "s' = ?s" using assms q' by (auto simp: claim_next_message_def agent_message_def Let_def split: if_splits option.splits)
  from claim_next [OF assms(1,2,3) q] assms(4) have m: "msg_id m = i" "msg_agent m = a" "table_ok s'" by auto
  have "m \<in> set (ms_rows s')"
    using assms q' by (auto simp: claim_next_message_def agent_message_def Let_def find_Some_iff split: if_splits option.splits)
  then obtain k where "k < length (ms_rows s')" "ms_rows s' ! k = m" by (auto simp: in_set_conv_nth)
  with table_ok_nth [OF m(3)] m(2) have "carried s' a (msg_id m)" by (auto simp: carried_def)
  with s' show ?thesis by simp
qed

section \<open>The invariant\<close>

definition queued :: "(string \<Rightarrow> nat) \<Rightarrow> machine \<Rightarrow> string \<Rightarrow> bool" where
  "queued ident m a \<longleftrightarrow> queue_of (mc_store m) (ident a) \<noteq> []"

fun message_of :: "pc \<Rightarrow> (string \<times> message) option" where
  "message_of (PHold a g m) = Some (a, m)"
| "message_of (PRequeue a g m) = Some (a, m)"
| "message_of (PTake a g m) = Some (a, m)"
| "message_of (PCurrent a g m w) = Some (a, m)"
| "message_of (PHandle a g m w) = Some (a, m)"
| "message_of (PClear a g m w r) = Some (a, m)"
| "message_of (PFinish a g m w r) = Some (a, m)"
| "message_of _ = None"

definition attended :: "(string \<Rightarrow> nat) \<Rightarrow> machine \<Rightarrow> string \<Rightarrow> bool" where
  "attended ident m a \<longleftrightarrow>
     (\<forall>g msg. PRequeue a g msg \<in> set (mc_threads m) \<longrightarrow> a \<in> set (mc_held m)) \<and>
     (\<forall>g. PEnd a g \<in> set (mc_threads m) \<longrightarrow> mc_gen m a = g \<longrightarrow> queued ident m a \<longrightarrow> a \<in> set (mc_held m)) \<and>
     (\<not> mc_running m a \<longrightarrow> queued ident m a \<longrightarrow>
        PStart a \<in> set (mc_threads m) \<or> PStart2 a \<in> set (mc_threads m) \<or> a \<in> set (mc_held m))"

definition well_kept :: "(string \<Rightarrow> nat) \<Rightarrow> machine \<Rightarrow> bool" where
  "well_kept ident m \<longleftrightarrow>
     flag_counts m \<and> calm (mc_store m) \<and> table_ok (mc_store m) \<and>
     (\<forall>t\<in>set (mc_threads m). \<forall>a g. consumer_of t = Some (a, g) \<longrightarrow> g \<le> mc_gen m a) \<and>
     (\<forall>t\<in>set (mc_threads m). \<forall>a msg. message_of t = Some (a, msg) \<longrightarrow> carried (mc_store m) (ident a) (msg_id msg)) \<and>
     (\<forall>a. attended ident m a)"

text \<open>The guard: no drain ends while a consumer is putting a message back or leaving.\<close>

fun leaving :: "pc \<Rightarrow> bool" where
  "leaving (PRequeue a g m) = True"
| "leaving (PEnd a g) = True"
| "leaving _ = False"

definition resume_clear :: "inbox_event \<Rightarrow> machine \<Rightarrow> bool" where
  "resume_clear e m \<longleftrightarrow> (e = EvResume \<longrightarrow> (\<forall>t\<in>set (mc_threads m). \<not> leaving t))"

fun agent_of :: "pc \<Rightarrow> string" where
  "agent_of (PStart a) = a"
| "agent_of (PStart2 a) = a"
| "agent_of (PReclaim a g) = a"
| "agent_of (PRequeueAll a g) = a"
| "agent_of (PClaim a g) = a"
| "agent_of (PHold a g m) = a"
| "agent_of (PRequeue a g m) = a"
| "agent_of (PTake a g m) = a"
| "agent_of (PCurrent a g m w) = a"
| "agent_of (PHandle a g m w) = a"
| "agent_of (PClear a g m w r) = a"
| "agent_of (PFinish a g m w r) = a"
| "agent_of (PDry a g) = a"
| "agent_of (PEnd a g) = a"

section \<open>One goroutine\<close>

lemma set_store_calm:
  "calm s \<Longrightarrow> calm (fst (requeue_running_messages a s)) \<and> (table_ok s \<longrightarrow> table_ok (fst (requeue_running_messages a s)))"
  "calm s \<Longrightarrow> calm (fst (requeue_message i s)) \<and> (table_ok s \<longrightarrow> table_ok (fst (requeue_message i s)))"
  "calm s \<Longrightarrow> calm (fst (finish_agent_message i st e s)) \<and> (table_ok s \<longrightarrow> table_ok (fst (finish_agent_message i st e s)))"
  by (auto simp: requeue_running_messages_def requeue_message_def finish_agent_message_def)

lemma claim_cases:
  assumes "calm s" "table_ok s" "a \<noteq> 0"
  obtains (none) "claim_next_message a s = (s, Inr None)" "queue_of s a = []"
  | (some) s' m rest where "claim_next_message a s = (s', Inr (Some m))" "calm s'" "table_ok s'"
      "rows_kept s s'" "carried s' a (msg_id m)" "queue_of s a = msg_id m # rest" "queue_of s' a = rest"
      "\<forall>b. b \<noteq> a \<longrightarrow> queue_of s' b = queue_of s b"
proof (cases "queue_of s a")
  case Nil
  show ?thesis
  proof (rule none)
    show "claim_next_message a s = (s, Inr None)"
      using assms(1,3) Nil claim_empty [of s a] by simp
  qed (rule Nil)
next
  case (Cons i rest)
  note a = assms(3)
  from claim_next [OF assms(1) a assms(2) Cons] obtain s' m where
    c: "claim_next_message a s = (s', Inr (Some m))" "msg_id m = i" "calm s'" "table_ok s'" "queue_of s' a = rest"
      "\<forall>b. b \<noteq> a \<longrightarrow> queue_of s' b = queue_of s b" by blast
  with claim_carried [OF assms(1) a assms(2) c(1)] Cons a show ?thesis by (intro some) auto
qed

text \<open>What a step of agent \<open>b\<close>'s goroutine leaves alone.\<close>

lemma thread_step_store:
  assumes step: "thread_step ident oc t m = (m', ps)"
    and c: "calm (mc_store m)" and ok: "table_ok (mc_store m)" and z: "\<And>a. ident a \<noteq> 0"
    and msg: "\<And>a msg. message_of t = Some (a, msg) \<Longrightarrow> carried (mc_store m) (ident a) (msg_id msg)"
  shows "calm (mc_store m') \<and> table_ok (mc_store m') \<and> rows_kept (mc_store m) (mc_store m') \<and>
    (\<forall>b. b \<noteq> ident (agent_of t) \<longrightarrow> queue_of (mc_store m') b \<noteq> [] \<longrightarrow> queue_of (mc_store m) b \<noteq> [])"
proof -
  have keep: "mc_store m' = mc_store m \<Longrightarrow> ?thesis" using c ok by simp
  show ?thesis
  proof (cases t)
    case (PRequeueAll a g)
    with step have m': "mc_store m' = fst (requeue_running_messages (ident a) (mc_store m))"
      by (auto simp: set_store_def)
    have "queue_of (mc_store m') b = queue_of (mc_store m) b" if "b \<noteq> ident a" for b
      unfolding m' using c that by (auto simp: requeue_running_messages_def intro: queue_update_other)
    moreover have "rows_kept (mc_store m) (mc_store m')"
      unfolding m' using c by (simp add: requeue_running_messages_def)
    ultimately show ?thesis using set_store_calm(1) [OF c] ok PRequeueAll m' by simp
  next
    case (PClaim a g)
    from c ok z show ?thesis
    proof (cases rule: claim_cases [of "mc_store m" "ident a"])
      case none
      with step PClaim c ok show ?thesis by simp
    next
      case (some s' x rest)
      with step PClaim have "mc_store m' = s'" by auto
      with some PClaim show ?thesis by simp
    qed
  next
    case (PRequeue a g x)
    with step have m': "mc_store m' = fst (requeue_message (msg_id x) (mc_store m))"
      by (auto simp: set_store_def)
    have "carried (mc_store m) (ident a) (msg_id x)" using msg PRequeue by simp
    then have "queue_of (mc_store m') b = queue_of (mc_store m) b" if "b \<noteq> ident a" for b
      unfolding m' using c that ok by (auto simp: requeue_message_def intro!: queue_update_other dest: carried_row)
    moreover have "rows_kept (mc_store m) (mc_store m')"
      unfolding m' using c by (simp add: requeue_message_def)
    ultimately show ?thesis using set_store_calm(2) [OF c] ok PRequeue m' by simp
  next
    case (PFinish a g x w r)
    with step have m': "mc_store m' =
        fst (finish_agent_message (msg_id x) (fst (finish_as r)) (snd (finish_as r)) (mc_store m))"
      by (auto simp: set_store_def)
    have "(if fst (finish_as r) = StatusBlank then StatusDone else fst (finish_as r)) \<noteq> StatusQueued"
      by (auto simp: finish_as_def split: prod.splits option.splits bool.splits)
    from queue_finish_subset [OF this]
    have "set (queue_of (mc_store m') b) \<subseteq> set (queue_of (mc_store m) b)" for b
      unfolding m' using c by (simp add: finish_agent_message_def)
    then have "queue_of (mc_store m') b \<noteq> [] \<longrightarrow> queue_of (mc_store m) b \<noteq> []" for b
      by (metis empty_subsetI set_empty subset_antisym)
    moreover have "rows_kept (mc_store m) (mc_store m')"
      unfolding m' using c by (simp add: finish_agent_message_def)
    ultimately show ?thesis using set_store_calm(3) [OF c] ok m' by simp
  next
    case (PDry a g)
    with step c have "mc_store m' = mc_store m"
      by (cases "ident a = 0") (auto simp: queue_is_dry_def count_queued_messages_def)
    then show ?thesis by (rule keep)
  qed (use step keep in \<open>auto simp: section_defs split: prod.splits option.splits if_splits\<close>)
qed

lemma thread_step_other:
  assumes "thread_step ident oc t m = (m', ps)" and "b \<noteq> agent_of t"
  shows "mc_running m' b = mc_running m b \<and> mc_gen m' b = mc_gen m b \<and> (b \<in> set (mc_held m') \<longleftrightarrow> b \<in> set (mc_held m))"
  using assms by (cases t) (auto simp: section_defs split: prod.splits option.splits sum.splits if_splits)

lemma thread_step_held:
  "thread_step ident oc t m = (m', ps) \<Longrightarrow> mc_gen m' = mc_gen m \<and> set (mc_held m) \<subseteq> set (mc_held m')"
  by (cases t) (auto simp: section_defs split: prod.splits option.splits sum.splits if_splits)

lemma thread_step_agent:
  "thread_step ident oc t m = (m', ps) \<Longrightarrow> p \<in> set ps \<Longrightarrow> agent_of p = agent_of t"
  by (cases t) (auto simp: section_defs split: prod.splits option.splits sum.splits if_splits)

lemma thread_step_gens:
  assumes "thread_step ident oc t m = (m', ps)" and "p \<in> set ps" and "consumer_of p = Some (a, g)"
    and "\<And>g. consumer_of t = Some (a, g) \<Longrightarrow> g \<le> mc_gen m a"
  shows "g \<le> mc_gen m' a"
  using assms by (cases t) (auto simp: section_defs split: prod.splits option.splits sum.splits if_splits)

lemma thread_step_messages:
  assumes step: "thread_step ident oc t m = (m', ps)" and p: "p \<in> set ps" "message_of p = Some (a, msg)"
    and c: "calm (mc_store m)" "table_ok (mc_store m)" "\<And>a. ident a \<noteq> 0"
    and carried: "\<And>a msg. message_of t = Some (a, msg) \<Longrightarrow> carried (mc_store m') (ident a) (msg_id msg)"
  shows "carried (mc_store m') (ident a) (msg_id msg)"
proof (cases t)
  case (PClaim b g)
  from c show ?thesis
  proof (cases rule: claim_cases [of "mc_store m" "ident b"])
    case none
    with step PClaim p show ?thesis by auto
  next
    case (some s' x rest)
    with step PClaim p show ?thesis by (auto split: if_splits)
  qed
qed (use step p carried in \<open>auto simp: section_defs split: prod.splits option.splits if_splits\<close>)

text \<open>
  The agent of the stepping goroutine stays attended.  A goroutine that is not leaving keeps the
  flag and will look at the queue; the others leave only when the queue is empty, when the agent
  is held, or when a newer message makes them start the agent again.
\<close>

lemma attended_running:
  "mc_running m a \<Longrightarrow> \<forall>u\<in>set (mc_threads m). leaving u \<longrightarrow> agent_of u \<noteq> a \<Longrightarrow> attended ident m a"
  by (fastforce simp: attended_def)

lemma leaving_consumes: "leaving u \<Longrightarrow> consumes (agent_of u) u"
  by (cases u) simp_all

lemma thread_step_running:
  "thread_step ident oc t m = (m', ps) \<Longrightarrow> consumes a t \<Longrightarrow> \<forall>g. t \<noteq> PEnd a g \<Longrightarrow> mc_running m' a = mc_running m a"
  by (cases t) (auto simp: section_defs split: prod.splits option.splits sum.splits if_splits)

text \<open>Which consumers' steps lead to leaving, and what is known then.\<close>

lemma thread_step_leaving:
  assumes step: "thread_step ident oc t m = (m', ps)" and u: "u \<in> set ps" "leaving u"
    and c: "calm (mc_store m)" "table_ok (mc_store m)" "\<And>a. ident a \<noteq> 0"
  shows "(\<exists>a g. u = PEnd a g \<and> m' = m \<and> \<not> queued ident m a) \<or>
    (\<exists>a g x. u = PRequeue a g x \<and> a \<in> set (mc_held m')) \<or>
    (\<exists>a g x. t = PRequeue a g x \<and> u = PEnd a g \<and> mc_held m' = mc_held m)"
proof (cases t)
  case (PClaim a g)
  from c show ?thesis
  proof (cases rule: claim_cases [of "mc_store m" "ident a"])
    case none
    with step PClaim u show ?thesis by (auto simp: queued_def)
  next
    case (some s' x rst)
    with step PClaim u show ?thesis by (auto split: if_splits)
  qed
next
  case (PDry a g)
  have "ident a \<noteq> 0 \<Longrightarrow> (length (filter (is_queued (ident a)) (ms_rows (mc_store m))) = 0 \<longleftrightarrow> \<not> queued ident m a)"
    by (simp add: queue_of_def queued_def)
  with step PDry c u show ?thesis
    by (cases "ident a = 0"; auto simp: queue_is_dry_def count_queued_messages_def queued_def split: if_splits)
qed (use step u in \<open>auto simp: section_defs split: prod.splits option.splits if_splits\<close>)

lemma start_attended:
  assumes step: "thread_step ident oc t m = (m', ps)" and t: "t = PStart a \<or> t = PStart2 a"
    and threads: "set (mc_threads m) = insert t rest" "set us = set ps \<union> rest"
    and none: "\<And>u. \<not> mc_running m a \<Longrightarrow> u \<in> rest \<Longrightarrow> \<not> consumes a u"
    and att: "attended ident m a"
  shows "attended ident (m'\<lparr>mc_threads := us\<rparr>) a"
proof (cases "t = PStart2 a \<and> \<not> mc_running m a")
  case True
  with step have m': "mc_running m' a" "ps = [PReclaim a (mc_gen m a)]" by (auto simp: start_consumer_def)
  have "\<forall>u\<in>rest. leaving u \<longrightarrow> agent_of u \<noteq> a" using none True leaving_consumes by blast
  with m' threads show ?thesis by (intro attended_running) auto
next
  case False
  consider "m' = m" "ps = [PStart2 a]" | "m' = m\<lparr>mc_held := List.insert a (mc_held m)\<rparr>" "ps = []"
    | "m' = m" "ps = []" "mc_running m a"
  proof (cases "t = PStart a")
    case True
    with step that(1,2) show ?thesis by (cases "mc_paused m") (simp_all add: hold_start_def)
  next
    case no: False
    with t False step that(3) show ?thesis by (simp add: start_consumer_def)
  qed
  then show ?thesis
  proof cases
    case 1
    with att threads t show ?thesis by (auto simp: attended_def queued_def)
  next
    case 2
    then show ?thesis by (simp add: attended_def queued_def)
  next
    case 3
    with att threads t show ?thesis by (auto simp: attended_def queued_def)
  qed
qed

lemma consumer_attended:
  assumes step: "thread_step ident oc t m = (m', ps)" and t: "consumes a t" "agent_of t = a" and run: "mc_running m a"
    and c: "calm (mc_store m)" "table_ok (mc_store m)" "\<And>a. ident a \<noteq> 0"
    and threads: "set (mc_threads m) = insert t rest" "set us = set ps \<union> rest"
    and alone: "\<And>u. u \<in> rest \<Longrightarrow> \<not> consumes a u"
    and att: "attended ident m a"
  shows "attended ident (m'\<lparr>mc_threads := us\<rparr>) a"
proof -
  have rest: "\<forall>u\<in>rest. leaving u \<longrightarrow> agent_of u \<noteq> a" using alone leaving_consumes by blast
  show ?thesis
  proof (cases "\<exists>g. t = PEnd a g")
    case True
    then obtain g where g: "t = PEnd a g" by blast
    with step have m': "m' = m\<lparr>mc_running := (mc_running m)(a := False)\<rparr>" "ps = (if mc_gen m a \<noteq> g then [PStart a] else [])"
      by (auto simp: end_drain_def)
    have "mc_gen m a = g \<longrightarrow> queued ident m a \<longrightarrow> a \<in> set (mc_held m)"
      using att threads g by (auto simp: attended_def)
    with threads rest m' show ?thesis by (fastforce simp: attended_def queued_def)
  next
    case False
    with thread_step_running [OF step t(1)] run have r: "mc_running m' a" by simp
    have ps: "agent_of p = a" if "p \<in> set ps" for p using thread_step_agent [OF step that] t(2) by simp
    have held: "a \<in> set (mc_held m')" if "t = PRequeue a g x" "mc_held m' = mc_held m" for g x
      using att threads that by (auto simp: attended_def)
    have new: "(\<forall>g x. PRequeue a g x \<in> set ps \<longrightarrow> a \<in> set (mc_held m')) \<and>
        (\<forall>g. PEnd a g \<in> set ps \<longrightarrow> queued ident m' a \<longrightarrow> a \<in> set (mc_held m'))"
      using thread_step_leaving [OF step _ _ c] held by fastforce
    have q: "queued ident (m'\<lparr>mc_threads := us\<rparr>) a \<longleftrightarrow> queued ident m' a" by (simp add: queued_def)
    show ?thesis unfolding attended_def q using new r rest threads by fastforce
  qed
qed

section \<open>Every step keeps the invariant\<close>

lemma run_thread_kept:
  assumes inj: "inj ident" and ids: "\<And>a. ident a \<noteq> 0" and w: "well_kept ident m"
  shows "well_kept ident (run_thread ident i oc m)"
proof (cases "i < length (mc_threads m)")
  case False
  with w show ?thesis by (simp add: run_thread_def)
next
  case True
  let ?t = "mc_threads m ! i"
  define rest where "rest = set (take i (mc_threads m)) \<union> set (drop (Suc i) (mc_threads m))"
  obtain m' ps where step: "thread_step ident oc ?t m = (m', ps)" by fastforce
  define us where "us = take i (mc_threads m) @ ps @ drop (Suc i) (mc_threads m)"
  have run: "run_thread ident i oc m = m'\<lparr>mc_threads := us\<rparr>" using True step by (simp add: run_thread_def us_def)
  have flag: "flag_counts m" and c: "calm (mc_store m)" "table_ok (mc_store m)" "\<And>a. ident a \<noteq> 0"
    and gens: "\<And>t a g. t \<in> set (mc_threads m) \<Longrightarrow> consumer_of t = Some (a, g) \<Longrightarrow> g \<le> mc_gen m a"
    and msgs: "\<And>t a x. t \<in> set (mc_threads m) \<Longrightarrow> message_of t = Some (a, x) \<Longrightarrow> carried (mc_store m) (ident a) (msg_id x)"
    and att: "\<And>a. attended ident m a"
    using w ids unfolding well_kept_def by blast+
  have t: "?t \<in> set (mc_threads m)" using True by simp
  have threads: "set (mc_threads m) = insert ?t rest" "set us = set ps \<union> rest"
  proof -
    show "set (mc_threads m) = insert ?t rest"
      by (subst split_at [OF True]) (simp add: rest_def del: append_take_drop_id)
    show "set us = set ps \<union> rest" by (auto simp: us_def rest_def)
  qed
  have count: "consumers a (mc_threads m) = (if mc_running m a then 1 else 0)" for a
    using flag by (simp add: flag_counts_def)
  have running: "mc_running m a" if "consumes a ?t" for a
    using count [of a] consumers_split [OF True, of a] that by (auto split: if_splits)
  have alone: "\<not> consumes a u" if "consumes a ?t" "u \<in> rest" for a u
  proof -
    have "consumers a (take i (mc_threads m)) = 0" "consumers a (drop (Suc i) (mc_threads m)) = 0"
      using count [of a] consumers_split [OF True, of a] that(1) by (auto split: if_splits)
    with that(2) show ?thesis by (auto simp: consumers_0 rest_def)
  qed
  have none: "\<not> consumes a u" if "\<not> mc_running m a" "u \<in> rest" for a u
  proof -
    have "consumers a (mc_threads m) = 0" using count [of a] that(1) by simp
    with that(2) threads(1) show ?thesis by (auto simp: consumers_0)
  qed
  have store: "calm (mc_store m')" "table_ok (mc_store m')" "rows_kept (mc_store m) (mc_store m')"
    "\<And>b. b \<noteq> ident (agent_of ?t) \<Longrightarrow> queue_of (mc_store m') b \<noteq> [] \<Longrightarrow> queue_of (mc_store m) b \<noteq> []"
    using thread_step_store [OF step c] msgs t by blast+
  have "attended ident (m'\<lparr>mc_threads := us\<rparr>) a" for a
  proof (cases "a = agent_of ?t")
    case own: True
    show ?thesis
    proof (cases "consumes a ?t")
      case True
      show ?thesis
        by (rule consumer_attended [OF step True own [symmetric] running [OF True] c threads _ att])
          (use alone True in blast)
    next
      case False
      with own have "?t = PStart a \<or> ?t = PStart2 a" by (cases ?t) auto
      then show ?thesis using start_attended [OF step _ threads none att] by blast
    qed
  next
    case other: False
    have "\<forall>p\<in>set ps. agent_of p \<noteq> a" using thread_step_agent [OF step] other by blast
    then have "PRequeue a g x \<notin> set ps" "PEnd a g \<notin> set ps" for g x by fastforce+
    moreover have "PStart a \<noteq> ?t" "PStart2 a \<noteq> ?t" using other by (metis agent_of.simps(1,2))+
    moreover have "ident a \<noteq> ident (agent_of ?t)" using other inj by (simp add: inj_eq)
    then have "queued ident (m'\<lparr>mc_threads := us\<rparr>) a \<Longrightarrow> queued ident m a" using store(4) by (simp add: queued_def)
    ultimately show ?thesis
      using att [of a] thread_step_other [OF step other] threads by (auto simp: attended_def)
  qed
  moreover have "flag_counts (m'\<lparr>mc_threads := us\<rparr>)" using run_thread_flag [OF flag, of ident i oc] run by simp
  moreover have "\<forall>u\<in>set us. \<forall>a g. consumer_of u = Some (a, g) \<longrightarrow> g \<le> mc_gen m' a"
    using thread_step_gens [OF step] thread_step_held [OF step] gens t threads by (metis Un_iff insert_iff)
  moreover have "\<forall>u\<in>set us. \<forall>a x. message_of u = Some (a, x) \<longrightarrow> carried (mc_store m') (ident a) (msg_id x)"
    using thread_step_messages [OF step _ _ c] carried_kept [OF _ store(3)] msgs t threads by (metis Un_iff insert_iff)
  ultimately show ?thesis using store(1,2) by (simp add: well_kept_def run)
qed

section \<open>Every event keeps the invariant\<close>

lemma enqueue_machine:
  assumes "inbox_enqueue ident a msg waits m = (m', r)" and "calm (mc_store m)" and "ident a \<noteq> 0"
  shows "\<exists>i. r = Inr i \<and> mc_gen m' = (mc_gen m)(a := Suc (mc_gen m a)) \<and> calm (mc_store m') \<and>
    (table_ok (mc_store m) \<longrightarrow> table_ok (mc_store m')) \<and> rows_kept (mc_store m) (mc_store m') \<and>
    (\<forall>b. b \<noteq> ident a \<longrightarrow> queue_of (mc_store m') b = queue_of (mc_store m) b)"
proof -
  define st where "st = (if msg_status msg = StatusBlank then StatusQueued else msg_status msg)"
  let ?m = "msg\<lparr>msg_agent := ident a, msg_status := st\<rparr>"
  let ?s = "mc_store m\<lparr>ms_rows := ms_rows (mc_store m) @
      [?m\<lparr>msg_id := Suc (length (ms_rows (mc_store m))), msg_status := st, msg_error := []\<rparr>]\<rparr>"
  have "st \<noteq> StatusBlank" by (simp add: st_def)
  then have "enqueue_message ?m (mc_store m) = (?s, Inr (Suc (length (ms_rows (mc_store m)))))"
    using assms(2,3) by (simp add: enqueue_message_def Let_def)
  with assms(1,3) have m': "mc_store m' = ?s" "mc_gen m' = (mc_gen m)(a := Suc (mc_gen m a))"
    "r = Inr (Suc (length (ms_rows (mc_store m))))"
    by (auto simp: inbox_enqueue_def Let_def st_def [symmetric])
  note s' = m'(1)
  have "table_ok (mc_store m) \<longrightarrow> table_ok (mc_store m')"
    unfolding s' using table_ok_snoc [where s = "mc_store m" and m = ?m and st = st and e = "[]"] by simp
  moreover have "rows_kept (mc_store m) (mc_store m')" by (simp add: s' rows_kept_def nth_append)
  moreover have "\<forall>b. b \<noteq> ident a \<longrightarrow> queue_of (mc_store m') b = queue_of (mc_store m) b"
    by (simp add: s' queue_of_snoc is_queued_def)
  ultimately show ?thesis using m' assms(2) by (simp add: s')
qed

lemma enqueue_kept:
  assumes inj: "inj ident" and ids: "\<And>a. ident a \<noteq> 0" and w: "well_kept ident m"
  shows "well_kept ident (inbox_step ident (EvEnqueue a msg waits) m)"
proof -
  obtain m' r where q: "inbox_enqueue ident a msg waits m = (m', r)" by fastforce
  have c: "calm (mc_store m)" and w': "flag_counts m" "table_ok (mc_store m)"
    "\<And>t b g. t \<in> set (mc_threads m) \<Longrightarrow> consumer_of t = Some (b, g) \<Longrightarrow> g \<le> mc_gen m b"
    "\<And>t b x. t \<in> set (mc_threads m) \<Longrightarrow> message_of t = Some (b, x) \<Longrightarrow> carried (mc_store m) (ident b) (msg_id x)"
    "\<And>b. attended ident m b"
    using w unfolding well_kept_def by blast+
  from enqueue_machine [OF q c ids] obtain i where m': "r = Inr i" "mc_gen m' = (mc_gen m)(a := Suc (mc_gen m a))"
    "calm (mc_store m')" "table_ok (mc_store m')" "rows_kept (mc_store m) (mc_store m')"
    "\<And>b. b \<noteq> ident a \<Longrightarrow> queue_of (mc_store m') b = queue_of (mc_store m) b" using w'(2) by blast
  note frame = inbox_enqueue_frame [OF q]
  have step: "inbox_step ident (EvEnqueue a msg waits) m = spawn [PStart a] m'" using q m'(1) by simp
  have end_old: "g \<noteq> Suc (mc_gen m a)" if "PEnd a g \<in> set (mc_threads m)" for g
    using w'(3) [OF that, of a g] by auto
  have "attended ident (spawn [PStart a] m') b" for b
  proof (cases "b = a")
    case True
    with w'(5) [of a] frame m'(2) end_old show ?thesis by (auto simp: attended_def spawn_def)
  next
    case False
    with inj m'(6) have "queued ident (spawn [PStart a] m') b \<longleftrightarrow> queued ident m b"
      by (simp add: queued_def spawn_def inj_eq)
    with False w'(5) [of b] frame m'(2) show ?thesis by (auto simp: attended_def spawn_def)
  qed
  moreover have "\<forall>t\<in>set (mc_threads (spawn [PStart a] m')). \<forall>b g. consumer_of t = Some (b, g) \<longrightarrow> g \<le> mc_gen m' b"
    using w'(3) frame m'(2) by (auto simp: spawn_def intro: le_SucI)
  moreover have "\<forall>t\<in>set (mc_threads (spawn [PStart a] m')). \<forall>b x. message_of t = Some (b, x) \<longrightarrow>
      carried (mc_store m') (ident b) (msg_id x)"
    using w'(4) frame carried_kept [OF _ m'(5)] by (auto simp: spawn_def)
  moreover have "flag_counts (spawn [PStart a] m')" using inbox_step_flag [OF w'(1), of ident "EvEnqueue a msg waits"] step by simp
  ultimately show ?thesis unfolding step using m'(3,4) by (simp add: well_kept_def spawn_def)
qed

lemma resume_kept:
  assumes w: "well_kept ident m" and clear: "\<forall>t\<in>set (mc_threads m). \<not> leaving t"
  shows "well_kept ident (inbox_step ident EvResume m)"
proof -
  have flag: "flag_counts (inbox_step ident EvResume m)"
    using w inbox_step_flag [of m ident EvResume] by (simp add: well_kept_def)
  have att: "attended ident m a" for a using w by (simp add: well_kept_def)
  have step: "inbox_step ident EvResume m = m\<lparr>mc_held := [], mc_threads := mc_threads m @ map PStart (mc_held m)\<rparr>"
    by (simp add: resume_paused_def spawn_def)
  have "attended ident (inbox_step ident EvResume m) a" for a
    using att [of a] clear unfolding step by (fastforce simp: attended_def queued_def)
  with flag w show ?thesis unfolding step well_kept_def by auto
qed

lemma step_kept:
  assumes inj: "inj ident" and ids: "\<And>a. ident a \<noteq> 0" and w: "well_kept ident m" and ok: "resume_clear e m"
  shows "well_kept ident (inbox_step ident e m)"
proof (cases e)
  case (EvEnqueue a msg waits)
  with enqueue_kept [OF inj ids w] show ?thesis by simp
next
  case EvResume
  with resume_kept [OF w] ok show ?thesis by (simp add: resume_clear_def)
next
  case (EvRun i oc)
  with run_thread_kept [OF inj ids w] show ?thesis by simp
qed (use w in \<open>simp_all add: well_kept_def flag_counts_def attended_def queued_def hold_while_def drop_waiter_def take_waiter_def\<close>)

lemma reach_kept:
  assumes "inj ident" "\<And>a. ident a \<noteq> 0" "calm s" "table_ok s"
    and starts: "\<And>a. queue_of s (ident a) \<noteq> [] \<Longrightarrow> a \<in> set starts"
    and reach: "inbox_reach ident resume_clear (new_inbox s starts) m"
  shows "well_kept ident m"
  using reach
proof induction
  case here
  from assms(3,4) starts show ?case
    by (auto simp: well_kept_def new_inbox_def flag_counts_def attended_def queued_def)
next
  case (there m e)
  then show ?case by (intro step_kept assms)
qed

text \<open>
  C10: No message is forgotten.  Over a database that answers, in every interleaving in which no
  drain ends while a consumer is putting a message back or leaving: when no goroutine of an agent
  is left and the agent is not held, its queue is empty.  (\<open>resume_can_strand_a_message\<close> shows that
  the condition on the end of a drain is needed.)
\<close>

theorem no_lost_wakeup:
  assumes "inj ident" "\<forall>a. ident a \<noteq> 0" "calm s" "table_ok s"
    and "\<forall>a. queue_of s (ident a) \<noteq> [] \<longrightarrow> a \<in> set starts"
    and "inbox_reach ident resume_clear (new_inbox s starts) m"
    and "a \<notin> set (mc_held m)" and "\<forall>t\<in>set (mc_threads m). agent_of t \<noteq> a"
  shows "queue_of (mc_store m) (ident a) = []"
proof -
  from assms have w: "well_kept ident m" by (intro reach_kept) auto
  have "\<not> consumes a t" if "agent_of t \<noteq> a" for t using that by (cases t) auto
  with assms(8) have "consumers a (mc_threads m) = 0" by (simp add: consumers_0)
  with w have "\<not> mc_running m a" by (auto simp: well_kept_def flag_counts_def split: if_splits)
  moreover have "attended ident m a" using w by (simp add: well_kept_def)
  ultimately show ?thesis using assms(7,8) by (fastforce simp: attended_def queued_def)
qed

section \<open>A drain that ends at a clear moment\<close>

text \<open>Row ids of agents, one per name, for the sample run.\<close>

fun name_id :: "string \<Rightarrow> nat" where
  "name_id [] = 1"
| "name_id (c # cs) = 256 * name_id cs + of_char c"

lemma name_id_pos: "0 < name_id a"
  by (induction a) auto

lemma digit_unique:
  fixes c d x y :: nat
  assumes "c < 256" "d < 256" "256 * x + c = 256 * y + d"
  shows "c = d \<and> x = y"
proof -
  have "(256 * x + c) mod 256 = (256 * y + d) mod 256" by (simp only: assms(3))
  with assms(1,2) have "c = d" by simp
  with assms(3) show ?thesis by simp
qed

lemma name_id_inj: "inj name_id"
proof (rule injI)
  show "a = b" if "name_id a = name_id b" for a b
    using that
  proof (induction a arbitrary: b)
    case Nil
    show ?case
    proof (cases b)
      case (Cons d ds)
      with Nil name_id_pos [of ds] show ?thesis by simp
    qed simp
  next
    case (Cons c cs)
    show ?case
    proof (cases b)
      case Nil
      with Cons.prems name_id_pos [of cs] show ?thesis by simp
    next
      case (Cons d ds)
      have "of_char c < (256 :: nat)" "of_char d < (256 :: nat)" by simp_all
      moreover from Cons.prems Cons have "256 * name_id cs + of_char c = 256 * name_id ds + of_char d" by simp
      ultimately have "of_char c = (of_char d :: nat) \<and> name_id cs = name_id ds" by (rule digit_unique)
      with Cons Cons.IH [of ds] show ?thesis by simp
    qed
  qed
qed

definition clear_run :: "inbox_event list" where
  "clear_run =
    [EvEnqueue ''a'' instruction False, step_of 0, step_of 0, step_of 0, step_of 0,
     EvPause True, step_of 0, step_of 0, step_of 0, step_of 0,
     EvPause False, EvResume] @ replicate 12 (step_of 0)"

fun clear_states :: "(string \<Rightarrow> nat) \<Rightarrow> inbox_event list \<Rightarrow> machine \<Rightarrow> bool" where
  "clear_states ident [] m = True"
| "clear_states ident (e # es) m = (resume_clear e m \<and> clear_states ident es (inbox_step ident e m))"

lemma clear_states_reach:
  "inbox_reach ident resume_clear m0 m \<Longrightarrow> clear_states ident es m \<Longrightarrow>
     inbox_reach ident resume_clear m0 (run_events ident es m)"
  unfolding run_events_def by (induction es arbitrary: m) (auto intro: inbox_reach.there)

text \<open>The sample run ends with its message processed and nobody held.\<close>

lemma clear_run_ends:
  "clear_states name_id clear_run (new_inbox empty_table [])"
  "mc_threads (run_events name_id clear_run (new_inbox empty_table [])) = []"
  "mc_held (run_events name_id clear_run (new_inbox empty_table [])) = []"
  by code_simp+

lemma empty_table_facts: "calm empty_table" "table_ok empty_table" "queue_of empty_table a = []"
  by (simp_all add: calm_def table_ok_def queue_of_def empty_table_def)

lemma no_lost_wakeup_witness:
  "queue_of (mc_store (run_events name_id clear_run (new_inbox empty_table []))) (name_id ''a'') = []"
proof (rule no_lost_wakeup [OF name_id_inj])
  show "inbox_reach name_id resume_clear (new_inbox empty_table [])
      (run_events name_id clear_run (new_inbox empty_table []))"
    by (rule clear_states_reach [OF inbox_reach.here clear_run_ends(1)])
qed (use name_id_pos in \<open>simp_all add: clear_run_ends empty_table_facts\<close>)

text \<open>
  C12: An agent's messages are processed in the order they were accepted, over a database that
  answers: after \<open>ms\<close> were enqueued behind what was waiting, the next \<open>n\<close> claims return the first
  \<open>n\<close> of the waiting ones followed by \<open>ms\<close>, and each enqueue was accepted.
\<close>

theorem messages_first_come_first_served:
  assumes "calm s" "table_ok s" "a \<noteq> 0" "\<forall>m\<in>set ms. msg_agent m = a \<and> message_open m"
  shows "length (snd (inboxq.put_all ms s)) = length ms \<and>
    snd (inboxq.claim_all n a (fst (inboxq.put_all ms s))) = take n (queue_of s a @ snd (inboxq.put_all ms s))"
  using inboxq.put_all_waiting [of s a ms] inboxq.first_come_first_served [of s a ms n] assms by simp

lemma messages_first_come_first_served_witness:
  "length (snd (inboxq.put_all [instruction\<lparr>msg_agent := 3\<rparr>, instruction\<lparr>msg_agent := 3\<rparr>] empty_table)) = 2 \<and>
    snd (inboxq.claim_all 5 3 (fst (inboxq.put_all [instruction\<lparr>msg_agent := 3\<rparr>, instruction\<lparr>msg_agent := 3\<rparr>] empty_table))) =
      queue_of empty_table 3 @ snd (inboxq.put_all [instruction\<lparr>msg_agent := 3\<rparr>, instruction\<lparr>msg_agent := 3\<rparr>] empty_table)"
proof -
  let ?ms = "[instruction\<lparr>msg_agent := 3\<rparr>, instruction\<lparr>msg_agent := 3\<rparr>]"
  show ?thesis
    using messages_first_come_first_served [of empty_table 3 ?ms 5]
    by (simp add: empty_table_facts instruction_def message_open_def)
qed

end
