(* ===== verification/World_Model.thy ===== *)
theory World_Model
  imports Go_Base
begin

text \<open>
  The World Model (src/asset.go, src/asset_mutator.go): the assets the runtime knows, in the
  order they were declared and by id.  \<open>AssetManager.Set\<close> writes the index only, so an asset set
  under an id that was never declared is read by \<open>Get\<close> and absent from \<open>List\<close>; a declared one is
  listed with its current record.  A nil manager is \<open>None\<close>.
\<close>

record asset =
  asset_id :: string
  asset_kind :: string
  asset_state :: string

record asset_manager =
  am_assets :: "asset list"
  am_by_id :: "asset smap"

datatype world_error = AssetManagerNotReady | AssetNotFound string

definition new_asset_manager :: asset_manager where
  "new_asset_manager = \<lparr>am_assets = [], am_by_id = []\<rparr>"

definition am_get :: "asset_manager \<Rightarrow> string \<Rightarrow> world_error + asset" where
  "am_get m i = (case map_of (am_by_id m) i of None \<Rightarrow> Inl (AssetNotFound i) | Some a \<Rightarrow> Inr a)"

definition am_set :: "string \<Rightarrow> asset \<Rightarrow> asset_manager \<Rightarrow> asset_manager" where
  "am_set i a m = m\<lparr>am_by_id := (i, a) # am_by_id m\<rparr>"

definition am_list :: "asset_manager \<Rightarrow> asset list" where
  "am_list m =
     map (\<lambda>a. case map_of (am_by_id m) (asset_id a) of Some cur \<Rightarrow> cur | None \<Rightarrow> a) (am_assets m)"

definition get_state :: "asset_manager option \<Rightarrow> string \<Rightarrow> world_error + string" where
  "get_state am i =
     (case am of None \<Rightarrow> Inl AssetManagerNotReady
      | Some m \<Rightarrow> (case am_get m i of Inl e \<Rightarrow> Inl e | Inr a \<Rightarrow> Inr (asset_state a)))"

definition set_state ::
  "asset_manager option \<Rightarrow> string \<Rightarrow> string \<Rightarrow> world_error + asset_manager option" where
  "set_state am i st =
     (case am of None \<Rightarrow> Inl AssetManagerNotReady
      | Some m \<Rightarrow> (case am_get m i of Inl e \<Rightarrow> Inl e
                  | Inr a \<Rightarrow> Inr (Some (am_set i (a\<lparr>asset_state := st\<rparr>) m))))"

lemma am_get_set: "am_get (am_set i a m) j = (if j = i then Inr a else am_get m j)"
  by (simp add: am_get_def am_set_def)

lemma set_state_get:
  "set_state am i st = Inr am' \<Longrightarrow> get_state am' i = Inr st"
  by (auto simp: set_state_def get_state_def am_get_set split: option.splits sum.splits)

lemma set_state_other:
  "set_state am i st = Inr am' \<Longrightarrow> j \<noteq> i \<Longrightarrow> get_state am' j = get_state am j"
  by (auto simp: set_state_def get_state_def am_get_set split: option.splits sum.splits)

end
