(* ===== verification/Capability.thy ===== *)
theory Capability
  imports World_Model
begin

text \<open>
  The capability factory (src/capability/capability.go) and what a capability declares about
  its call (src/capability/spec/spec.go).  A capability's \<open>Run\<close> is code of its own (many call
  services), so it is a field of the record: a function of the inputs and of the outside
  world (type \<open>'w\<close>, with the World Model), which returns both changed, its output and its
  error.  \<open>Declared\<close> and \<open>SystemCheck\<close> are optional interfaces: \<open>None\<close> for a capability that does
  not implement them.
\<close>

record field =
  f_name :: string
  f_aliases :: "string list"
  f_required :: bool
  f_description :: string
  f_kind :: string

type_synonym 'w outside = "asset_manager option \<times> 'w"

record 'w capability =
  cap_name :: string
  cap_provider :: string
  cap_declared :: "(field list \<times> field list) option"
  cap_checks_kind :: "string option"
  cap_run :: "string smap \<Rightarrow> 'w outside \<Rightarrow> 'w outside \<times> string smap \<times> string option"

record 'w factory =
  fac_list :: "'w capability list"
  fac_by_name :: "'w capability smap"

definition new_factory :: "'w factory" where
  "new_factory = \<lparr>fac_list = [], fac_by_name = []\<rparr>"

fun replace_first :: "string \<Rightarrow> 'w capability \<Rightarrow> 'w capability list \<Rightarrow> 'w capability list" where
  "replace_first n c [] = []"
| "replace_first n c (x # xs) =
     (if cap_name x = n then c # xs else x # replace_first n c xs)"

definition register :: "'w capability \<Rightarrow> 'w factory \<Rightarrow> 'w factory" where
  "register c f =
     (let n = cap_name c;
          cs = (if map_of (fac_by_name f) n \<noteq> None then replace_first n c (fac_list f)
                else fac_list f @ [c])
      in f\<lparr>fac_list := cs, fac_by_name := (n, c) # fac_by_name f\<rparr>)"

definition fac_get :: "'w factory \<Rightarrow> string \<Rightarrow> 'w capability option" where
  "fac_get f n = map_of (fac_by_name f) n"

definition fac_has :: "'w factory option \<Rightarrow> string \<Rightarrow> bool" where
  "fac_has f n = (case f of None \<Rightarrow> False | Some f' \<Rightarrow> map_of (fac_by_name f') n \<noteq> None)"

section \<open>What the clients of the factory rely on\<close>

text \<open>
  The registry's contract: a lookup finds exactly the capability last registered under that
  name, and the list names every capability once.
\<close>

locale capability_registry =
  fixes empty_reg :: 'r
    and reg :: "'w capability \<Rightarrow> 'r \<Rightarrow> 'r"
    and look :: "'r \<Rightarrow> string \<Rightarrow> 'w capability option"
    and all_caps :: "'r \<Rightarrow> 'w capability list"
    and ok :: "'r \<Rightarrow> bool"
  assumes ok_empty: "ok empty_reg"
    and ok_reg: "ok r \<Longrightarrow> ok (reg c r)"
    and look_empty: "look empty_reg n = None"
    and look_reg: "ok r \<Longrightarrow> look (reg c r) n = (if n = cap_name c then Some c else look r n)"
    and all_look: "ok r \<Longrightarrow> c \<in> set (all_caps r) \<longleftrightarrow> look r (cap_name c) = Some c"
    and look_named: "ok r \<Longrightarrow> look r n = Some c \<Longrightarrow> cap_name c = n"
    and all_distinct: "ok r \<Longrightarrow> distinct (map cap_name (all_caps r))"
begin

definition reg_all :: "'w capability list \<Rightarrow> 'r" where
  "reg_all cs = foldl (\<lambda>r c. reg c r) empty_reg cs"

lemma foldl_ok: "ok r \<Longrightarrow> ok (foldl (\<lambda>r c. reg c r) r cs)"
  by (induction cs arbitrary: r) (simp_all add: ok_reg)

lemma foldl_look:
  "ok r \<Longrightarrow> look (foldl (\<lambda>r c. reg c r) r cs) n =
     (case find (\<lambda>c. cap_name c = n) (rev cs) of Some c \<Rightarrow> Some c | None \<Rightarrow> look r n)"
proof (induction cs arbitrary: r)
  case Nil
  then show ?case by simp
next
  case (Cons c cs)
  then show ?case by (auto simp: ok_reg look_reg find_append_case split: option.splits)
qed

lemma reg_all_ok: "ok (reg_all cs)"
  by (simp add: reg_all_def foldl_ok ok_empty)

lemma reg_all_last_wins: "look (reg_all cs) n = find (\<lambda>c. cap_name c = n) (rev cs)"
  by (simp add: reg_all_def foldl_look ok_empty look_empty split: option.splits)

lemma reg_all_member:
  "c \<in> set (all_caps (reg_all cs)) \<longleftrightarrow> find (\<lambda>d. cap_name d = cap_name c) (rev cs) = Some c"
  by (simp add: all_look reg_all_ok reg_all_last_wins)

end

definition factory_ok :: "'w factory \<Rightarrow> bool" where
  "factory_ok f \<longleftrightarrow>
     distinct (map cap_name (fac_list f)) \<and>
     (\<forall>n c. fac_get f n = Some c \<longleftrightarrow> c \<in> set (fac_list f) \<and> cap_name c = n)"

lemma replace_first_names:
  "map cap_name (replace_first (cap_name c) c cs) = map cap_name cs"
  by (induction cs) auto

lemma replace_first_set:
  "distinct (map cap_name cs) \<Longrightarrow> \<exists>d\<in>set cs. cap_name d = cap_name c \<Longrightarrow>
   set (replace_first (cap_name c) c cs) = {d \<in> set cs. cap_name d \<noteq> cap_name c} \<union> {c}"
  by (induction cs) (auto simp: rev_image_eqI)

lemma register_ok: "factory_ok f \<Longrightarrow> factory_ok (register c f)"
proof -
  assume f: "factory_ok f"
  have get: "fac_get (register c f) n = (if n = cap_name c then Some c else fac_get f n)" for n
    by (simp add: fac_get_def register_def Let_def)
  show "factory_ok (register c f)"
  proof (cases "fac_get f (cap_name c)")
    case None
    with f have "\<forall>d\<in>set (fac_list f). cap_name d \<noteq> cap_name c"
      unfolding factory_ok_def by (metis option.distinct(1))
    moreover have "fac_list (register c f) = fac_list f @ [c]"
      using None by (simp add: register_def fac_get_def)
    ultimately show ?thesis using f get by (auto simp: factory_ok_def)
  next
    case (Some d)
    then have "fac_list (register c f) = replace_first (cap_name c) c (fac_list f)"
      by (simp add: register_def fac_get_def Let_def)
    moreover from Some f have "\<exists>d\<in>set (fac_list f). cap_name d = cap_name c"
      by (auto simp: factory_ok_def)
    ultimately show ?thesis using f get
      by (auto simp: factory_ok_def replace_first_names replace_first_set)
  qed
qed

interpretation fac: capability_registry new_factory register fac_get fac_list factory_ok
proof unfold_locales
  show "factory_ok new_factory" by (simp add: factory_ok_def new_factory_def fac_get_def)
  show "fac_get new_factory n = None" for n by (simp add: new_factory_def fac_get_def)
  show "factory_ok r \<Longrightarrow> fac_get (register c r) n = (if n = cap_name c then Some c else fac_get r n)"
    for r :: "'a factory" and c n by (simp add: fac_get_def register_def Let_def)
  show "factory_ok r \<Longrightarrow> factory_ok (register c r)" for r :: "'a factory" and c
    by (rule register_ok)
qed (simp_all add: factory_ok_def)

end
