(* ===== verification/Go_Json.thy ===== *)
theory Go_Json
  imports Go_Base
begin

text \<open>
  JSON documents as \<open>encoding/json\<close> decodes them: the raw text of a document is modelled by
  the value it denotes (a text that is not JSON has no value, so no model function sees it).
  An object keeps the order and the duplicates of its text, because Go's decoder gives both a
  meaning: into a struct a key matches its field with case folded and the last match wins,
  into a map a key is exact and the last one wins, and a \<open>null\<close> leaves a plain field as it was.
  \<open>show_json\<close> is \<open>json.Marshal\<close> of a decoded value: keys sorted, HTML characters escaped.
\<close>

datatype json =
    JNull
  | JBool bool
  | JNum string
  | JStr string
  | JArr "json list"
  | JObj "(string \<times> json) list"

section \<open>Reading an object\<close>

definition json_member :: "string \<Rightarrow> (string \<times> json) list \<Rightarrow> json option" where
  "json_member k kvs = map_of (rev kvs) k"

text \<open>A struct field of type \<open>string\<close>: \<open>None\<close> is the decoder's type error.\<close>

fun str_field_from :: "string \<Rightarrow> string \<Rightarrow> (string \<times> json) list \<Rightarrow> string option" where
  "str_field_from acc k [] = Some acc"
| "str_field_from acc k ((k', v) # kvs) =
     (if equal_fold k' k
      then (case v of JStr s \<Rightarrow> str_field_from s k kvs
            | JNull \<Rightarrow> str_field_from acc k kvs
            | _ \<Rightarrow> None)
      else str_field_from acc k kvs)"

definition str_field :: "string \<Rightarrow> (string \<times> json) list \<Rightarrow> string option" where
  "str_field k kvs = str_field_from [] k kvs"

text \<open>A struct field of type \<open>*bool\<close>: a \<open>null\<close> sets the pointer to nil.\<close>

fun bool_field_from :: "bool option \<Rightarrow> string \<Rightarrow> (string \<times> json) list \<Rightarrow> bool option option" where
  "bool_field_from acc k [] = Some acc"
| "bool_field_from acc k ((k', v) # kvs) =
     (if equal_fold k' k
      then (case v of JBool b \<Rightarrow> bool_field_from (Some b) k kvs
            | JNull \<Rightarrow> bool_field_from None k kvs
            | _ \<Rightarrow> None)
      else bool_field_from acc k kvs)"

definition bool_field :: "string \<Rightarrow> (string \<times> json) list \<Rightarrow> bool option option" where
  "bool_field k kvs = bool_field_from None k kvs"

text \<open>A struct field of type \<open>json.RawMessage\<close>: whatever the last match holds, \<open>null\<close> included.\<close>

definition raw_field :: "string \<Rightarrow> (string \<times> json) list \<Rightarrow> json option" where
  "raw_field k kvs = map_option snd (find (\<lambda>(k', v). equal_fold k' k) (rev kvs))"

text \<open>\<open>len(raw) == 0 || string(raw) == "null"\<close>.\<close>

definition raw_absent :: "json option \<Rightarrow> bool" where
  "raw_absent raw \<longleftrightarrow> raw = None \<or> raw = Some JNull"

lemma str_field_miss: "\<forall>(k', v)\<in>set kvs. \<not> equal_fold k' k \<Longrightarrow> str_field_from acc k kvs = Some acc"
  by (induction kvs) auto

lemma raw_field_Nil [simp]: "raw_field k [] = None"
  and str_field_Nil [simp]: "str_field k [] = Some []"
  and bool_field_Nil [simp]: "bool_field k [] = Some None"
  by (simp_all add: raw_field_def str_field_def bool_field_def)

section \<open>Writing a value\<close>

definition hex_digit :: "nat \<Rightarrow> char" where
  "hex_digit n = ''0123456789abcdef'' ! (n mod 16)"

definition esc_byte :: "char \<Rightarrow> string" where
  "esc_byte c =
    (if c = CHR 0x22 \<or> c = CHR 0x5C then [CHR 0x5C, c]
     else if c = CHR 0x08 then [CHR 0x5C, CHR ''b'']
     else if c = CHR 0x0C then [CHR 0x5C, CHR ''f'']
     else if c = CHR 0x0A then [CHR 0x5C, CHR ''n'']
     else if c = CHR 0x0D then [CHR 0x5C, CHR ''r'']
     else if c = CHR 0x09 then [CHR 0x5C, CHR ''t'']
     else if of_char c < (32 :: nat) \<or> c = CHR ''<'' \<or> c = CHR ''>'' \<or> c = CHR ''&''
       then [CHR 0x5C, CHR ''u'', CHR ''0'', CHR ''0'',
             hex_digit (of_char c div 16), hex_digit (of_char c mod 16)]
     else [c])"

fun esc_string :: "string \<Rightarrow> string" where
  "esc_string [] = []"
| "esc_string (c # cs) =
     (if c = CHR 0xE2 \<and> take 2 cs = [CHR 0x80, CHR 0xA8]
        then [CHR 0x5C] @ ''u2028'' @ esc_string (drop 2 cs)
      else if c = CHR 0xE2 \<and> take 2 cs = [CHR 0x80, CHR 0xA9]
        then [CHR 0x5C] @ ''u2029'' @ esc_string (drop 2 cs)
      else esc_byte c @ esc_string cs)"

definition quote_string :: "string \<Rightarrow> string" where
  "quote_string s = [CHR 0x22] @ esc_string s @ [CHR 0x22]"

text \<open>A Go map has one entry per key, and \<open>Marshal\<close> writes them in the order of their keys.\<close>

definition sorted_entries :: "(string \<times> 'a) list \<Rightarrow> (string \<times> 'a) list" where
  "sorted_entries kvs =
     map (\<lambda>k. (k, the (map_of (rev kvs) k))) (sorted_keys kvs)"

fun show_json :: "json \<Rightarrow> string" where
  "show_json JNull = ''null''"
| "show_json (JBool b) = (if b then ''true'' else ''false'')"
| "show_json (JNum n) = n"
| "show_json (JStr s) = quote_string s"
| "show_json (JArr xs) = ''['' @ str_join '','' (map show_json xs) @ '']''"
| "show_json (JObj kvs) =
     ''{'' @ str_join '',''
       (map (\<lambda>(k, t). quote_string k @ '':'' @ t)
          (sorted_entries (map (\<lambda>(k, v). (k, show_json v)) kvs))) @ ''}''"

lemma show_json_nonempty: "(\<And>n. j = JNum n \<Longrightarrow> n \<noteq> []) \<Longrightarrow> show_json j \<noteq> []"
  by (cases j) (auto simp: quote_string_def)

end
