(* ===== verification/Plan_Input.thy ===== *)
theory Plan_Input
  imports Go_Json
begin

text \<open>
  One value a plan step calls its capability with (src/plan_input.go): a literal, or a binding
  to an output of an earlier step (\<open>step:<name>.output.<key>\<close>) or to a World Model field
  (\<open>world_model:asset.<id>.kind|state\<close>).
\<close>

record step_input =
  si_literal :: string
  si_source :: string

definition literal_input :: "string \<Rightarrow> step_input" where
  "literal_input v = \<lparr>si_literal = v, si_source = []\<rparr>"

definition bound_input :: "string \<Rightarrow> step_input" where
  "bound_input src = \<lparr>si_literal = [], si_source = src\<rparr>"

definition is_binding :: "step_input \<Rightarrow> bool" where
  "is_binding i \<longleftrightarrow> trim (si_source i) \<noteq> []"

definition literal_inputs :: "string smap \<Rightarrow> step_input smap" where
  "literal_inputs m = map (\<lambda>(k, v). (k, literal_input v)) m"

section \<open>Reading and writing one input\<close>

datatype input_error =
    NeitherSourceNorValue
  | SourceNotString string
  | NamesNoSource
  | UnreadableSource string

definition json_value_kind :: "json \<Rightarrow> string" where
  "json_value_kind v =
    (case v of JNull \<Rightarrow> ''null'' | JStr _ \<Rightarrow> ''a string'' | JNum _ \<Rightarrow> ''a number''
     | JBool _ \<Rightarrow> ''a boolean'' | JObj _ \<Rightarrow> ''an object'' | JArr _ \<Rightarrow> ''an array'')"

definition set_literal :: "json \<Rightarrow> step_input" where
  "set_literal v =
    (case v of JNull \<Rightarrow> \<lparr>si_literal = [], si_source = []\<rparr>
     | JStr s \<Rightarrow> literal_input s
     | JNum n \<Rightarrow> literal_input n
     | JBool b \<Rightarrow> literal_input (if b then ''true'' else ''false'')
     | JObj _ \<Rightarrow> literal_input (show_json v)
     | JArr _ \<Rightarrow> literal_input (show_json v))"

definition from_object :: "(string \<times> json) list \<Rightarrow> input_error + step_input" where
  "from_object kvs =
    (case json_member ''source'' kvs of
       None \<Rightarrow> (case json_member ''value'' kvs of
                 None \<Rightarrow> Inl NeitherSourceNorValue
               | Some v \<Rightarrow> Inr (set_literal v))
     | Some src \<Rightarrow>
         (case src of
            JStr t \<Rightarrow> if trim t = [] then Inl NamesNoSource else Inr (bound_input (trim t))
          | _ \<Rightarrow> Inl (SourceNotString (json_value_kind src))))"

definition unmarshal_input :: "json \<Rightarrow> input_error + step_input" where
  "unmarshal_input v = (case v of JObj kvs \<Rightarrow> from_object kvs | _ \<Rightarrow> Inr (set_literal v))"

definition marshal_input :: "step_input \<Rightarrow> json" where
  "marshal_input i =
    (if is_binding i then JObj [(''source'', JStr (si_source i))] else JStr (si_literal i))"

text \<open>An input as the code builds them: a literal has no source, a binding's source is trimmed.\<close>

definition input_normal :: "step_input \<Rightarrow> bool" where
  "input_normal i \<longleftrightarrow> (si_source i = [] \<or> si_literal i = [] \<and> trim (si_source i) = si_source i)"

lemma is_binding_literal [simp]: "\<not> is_binding (literal_input v)"
  by (simp add: is_binding_def literal_input_def)

lemma is_binding_bound [simp]: "is_binding (bound_input v) \<longleftrightarrow> trim v \<noteq> []"
  by (simp add: is_binding_def bound_input_def)

lemma unmarshal_normal: "unmarshal_input v = Inr i \<Longrightarrow> input_normal i"
  by (auto simp: unmarshal_input_def from_object_def set_literal_def input_normal_def
      literal_input_def bound_input_def split: json.splits option.splits if_splits)

section \<open>The source of a binding\<close>

datatype input_source =
    SrcStep string string string   \<comment> \<open>raw text, step name, output key\<close>
  | SrcWorld string "string list"  \<comment> \<open>raw text, path\<close>

definition step_prefix :: string where "step_prefix = ''step:''"
definition world_prefix :: string where "world_prefix = ''world_model:''"
definition output_infix :: string where "output_infix = ''.output.''"
definition world_asset_root :: string where "world_asset_root = ''asset''"
definition world_field_state :: string where "world_field_state = ''state''"
definition world_field_kind :: string where "world_field_kind = ''kind''"

definition name_head :: "char \<Rightarrow> bool" where
  "name_head c \<longleftrightarrow> c \<in> set ''ABCDEFGHIJKLMNOPQRSTUVWXYZabcdefghijklmnopqrstuvwxyz0123456789''"

definition name_tail :: "char \<Rightarrow> bool" where
  "name_tail c \<longleftrightarrow> name_head c \<or> c = CHR ''_'' \<or> c = CHR ''-''"

definition step_name_ok :: "string \<Rightarrow> bool" where
  "step_name_ok s = (case s of [] \<Rightarrow> False | c # cs \<Rightarrow> name_head c \<and> list_all name_tail cs)"

text \<open>\<open>parseInputSource\<close>, its two cases as functions of the trimmed text.\<close>

definition read_step_source :: "string \<Rightarrow> input_error + input_source" where
  "read_step_source s =
    (let rest = drop (length step_prefix) s in
     case str_index output_infix rest of
       None \<Rightarrow> Inl (UnreadableSource s)
     | Some i \<Rightarrow>
         (let name = take i rest; key = drop (i + length output_infix) rest in
          if i = 0 then Inl (UnreadableSource s)
          else if \<not> step_name_ok name \<or> key = [] \<or> contains_any key [CHR ''.'', CHR '' '', CHR 0x09]
            then Inl (UnreadableSource s)
          else Inr (SrcStep s name key)))"

definition read_world_source :: "string \<Rightarrow> input_error + input_source" where
  "read_world_source s =
    (let path = split_on (CHR ''.'') (drop (length world_prefix) s) in
     if length path < 3 \<or> hd path \<noteq> world_asset_root then Inl (UnreadableSource s)
     else
       (let i = str_join ''.'' (butlast (tl path)); field = last path in
        if i = [] \<or> (field \<noteq> world_field_state \<and> field \<noteq> world_field_kind) then Inl (UnreadableSource s)
        else Inr (SrcWorld s path)))"

definition parse_input_source :: "string \<Rightarrow> input_error + input_source" where
  "parse_input_source raw =
    (let s = trim raw in
     if prefix step_prefix s then read_step_source s
     else if prefix world_prefix s then read_world_source s
     else Inl (UnreadableSource s))"

text \<open>The asset and the field a World Model path names.\<close>

definition path_asset :: "string list \<Rightarrow> string" where
  "path_asset path = str_join ''.'' (butlast (tl path))"

definition path_field :: "string list \<Rightarrow> string" where
  "path_field path = last path"

section \<open>The two readable forms, exactly\<close>

lemma name_head_dot [simp]: "\<not> name_head (CHR ''.'')"
  by (simp add: name_head_def)

lemma name_tail_dot [simp]: "\<not> name_tail (CHR ''.'')"
  by (simp add: name_tail_def)

lemma step_name_no_dot: "step_name_ok s \<Longrightarrow> CHR ''.'' \<notin> set s"
  by (auto simp: step_name_ok_def list_all_iff split: list.splits)

lemma step_name_nonempty: "step_name_ok s \<Longrightarrow> s \<noteq> []"
  by (auto simp: step_name_ok_def)

lemma world_not_step [simp]: "\<not> prefix step_prefix (world_prefix @ t)"
  by (simp add: step_prefix_def world_prefix_def)

lemma str_index_output:
  "CHR ''.'' \<notin> set n \<Longrightarrow> str_index output_infix (n @ output_infix @ k) = Some (length n)"
  unfolding output_infix_def using str_index_fresh [of "CHR ''.''" n "''output.''" k] by simp

lemma read_step_source_iff:
  "read_step_source (step_prefix @ rest) = Inr (SrcStep s n k) \<longleftrightarrow>
     s = step_prefix @ rest \<and> rest = n @ output_infix @ k \<and>
     step_name_ok n \<and> k \<noteq> [] \<and> \<not> contains_any k [CHR ''.'', CHR '' '', CHR 0x09]"
    (is "?parsed \<longleftrightarrow> ?form")
proof
  assume p: ?parsed
  then obtain i where i: "str_index output_infix rest = Some i"
    by (simp add: read_step_source_def Let_def split: option.splits)
  with p have n: "n = take i rest" and k: "k = drop (i + length output_infix) rest"
    and ok: "s = step_prefix @ rest \<and> step_name_ok n \<and> k \<noteq> [] \<and>
      \<not> contains_any k [CHR ''.'', CHR '' '', CHR 0x09]"
    by (auto simp: read_step_source_def Let_def split: if_splits)
  from str_index_Some [OF i] n k have "rest = n @ output_infix @ k" by simp
  with ok show ?form by blast
next
  assume f: ?form
  then have "str_index output_infix (n @ output_infix @ k) = Some (length n)"
    by (intro str_index_output step_name_no_dot) simp
  moreover from f have "n \<noteq> []" using step_name_nonempty by blast
  ultimately show ?parsed using f by (simp add: read_step_source_def Let_def)
qed

lemma read_step_not_world: "read_step_source s \<noteq> Inr (SrcWorld t path)"
  by (simp add: read_step_source_def Let_def split: option.splits)

lemma read_world_not_step: "read_world_source s \<noteq> Inr (SrcStep t n k)"
  by (simp add: read_world_source_def Let_def)

lemma parse_step_source:
  "parse_input_source raw = Inr (SrcStep s n k) \<longleftrightarrow>
     s = trim raw \<and> trim raw = step_prefix @ n @ output_infix @ k \<and>
     step_name_ok n \<and> k \<noteq> [] \<and> \<not> contains_any k [CHR ''.'', CHR '' '', CHR 0x09]"
proof (cases "prefix step_prefix (trim raw)")
  case True
  then obtain rest where "trim raw = step_prefix @ rest" by (auto elim: prefixE)
  then show ?thesis by (auto simp: parse_input_source_def read_step_source_iff)
next
  case False
  then have "trim raw \<noteq> step_prefix @ t" for t by auto
  with False show ?thesis by (simp add: parse_input_source_def read_world_not_step Let_def)
qed

lemma str_join_snoc: "xs \<noteq> [] \<Longrightarrow> str_join sep (xs @ [y]) = str_join sep xs @ sep @ y"
proof (induction xs)
  case (Cons x xs)
  then show ?case by (cases "xs = []") (simp_all add: str_join_Cons)
qed simp

lemma split_world_path:
  assumes "CHR ''.'' \<notin> set f"
  shows "split_on (CHR ''.'') (world_asset_root @ ''.'' @ i @ ''.'' @ f) =
    world_asset_root # split_on (CHR ''.'') i @ [f]"
proof -
  have "CHR ''.'' \<notin> set world_asset_root" by (simp add: world_asset_root_def)
  moreover have "split_on (CHR ''.'') (world_asset_root @ CHR ''.'' # (i @ CHR ''.'' # f)) =
    split_on (CHR ''.'') world_asset_root @ split_on (CHR ''.'') (i @ CHR ''.'' # f)"
    by (rule split_on_append)
  moreover have "split_on (CHR ''.'') (i @ CHR ''.'' # f) = split_on (CHR ''.'') i @ split_on (CHR ''.'') f"
    by (rule split_on_append)
  ultimately show ?thesis using assms by (simp add: split_on_fresh)
qed

lemma list_ends:
  assumes "3 \<le> length xs"
  shows "xs = hd xs # butlast (tl xs) @ [last xs]" and "butlast (tl xs) \<noteq> []"
proof -
  from assms obtain x y z zs where xs: "xs = x # y # z # zs"
    by (cases xs; cases "tl xs"; cases "tl (tl xs)") auto
  then show "butlast (tl xs) \<noteq> []" by simp
  have "tl xs \<noteq> []" using xs by simp
  then have "butlast (tl xs) @ [last (tl xs)] = tl xs" by simp
  with xs show "xs = hd xs # butlast (tl xs) @ [last xs]" by simp
qed

definition world_field :: "string \<Rightarrow> bool" where
  "world_field f \<longleftrightarrow> f = world_field_state \<or> f = world_field_kind"

lemma world_field_no_dot: "world_field f \<Longrightarrow> CHR ''.'' \<notin> set f"
  by (auto simp: world_field_def world_field_state_def world_field_kind_def)

lemma read_world_source_iff:
  "read_world_source (world_prefix @ rest) = Inr (SrcWorld s path) \<longleftrightarrow>
     s = world_prefix @ rest \<and> path = split_on (CHR ''.'') rest \<and>
     rest = world_asset_root @ ''.'' @ path_asset path @ ''.'' @ path_field path \<and>
     path_asset path \<noteq> [] \<and> world_field (path_field path)"
    (is "?parsed \<longleftrightarrow> ?form")
proof
  assume p: ?parsed
  then have path: "path = split_on (CHR ''.'') rest"
    and len: "3 \<le> length path" and hd: "hd path = world_asset_root"
    and ok: "s = world_prefix @ rest \<and> path_asset path \<noteq> [] \<and> world_field (path_field path)"
    by (simp_all add: read_world_source_def Let_def path_asset_def path_field_def world_field_def
        not_less split: if_splits)
  have "str_join ''.'' path = world_asset_root @ ''.'' @ path_asset path @ ''.'' @ path_field path"
    by (subst list_ends(1) [OF len])
      (simp add: str_join_Cons str_join_snoc list_ends(2) [OF len] path_asset_def path_field_def hd)
  then show ?form using path ok by simp
next
  assume f: ?form
  define a where "a = path_asset path"
  define fl where "fl = path_field path"
  from f have fl: "world_field fl" and a: "a \<noteq> []" and s: "s = world_prefix @ rest"
    and path': "path = split_on (CHR ''.'') rest"
    and rest: "rest = world_asset_root @ ''.'' @ a @ ''.'' @ fl"
    unfolding a_def fl_def by blast+
  from path' have path: "path = split_on (CHR ''.'') (world_asset_root @ ''.'' @ a @ ''.'' @ fl)"
    by (simp only: rest [symmetric])
  from path split_world_path [OF world_field_no_dot [OF fl], of a]
  have shape: "path = world_asset_root # split_on (CHR ''.'') a @ [fl]" by simp
  then have "\<not> length path < 3" and "hd path = world_asset_root"
    by (cases "split_on (CHR ''.'') a"; simp)+
  moreover from shape have "str_join ''.'' (butlast (tl path)) = a" and "last path = fl"
    by (simp_all add: butlast_append)
  moreover have "drop (length world_prefix) (world_prefix @ rest) = rest" by simp
  ultimately show ?parsed using a fl
    unfolding read_world_source_def Let_def world_field_def s path' [symmetric]
    by (simp add: path' [symmetric] del: drop_append)
qed

lemma parse_world_source:
  "parse_input_source raw = Inr (SrcWorld s path) \<longleftrightarrow>
     s = trim raw \<and> path_asset path \<noteq> [] \<and> world_field (path_field path) \<and>
     trim raw = world_prefix @ world_asset_root @ ''.'' @ path_asset path @ ''.'' @ path_field path \<and>
     path = split_on (CHR ''.'') (drop (length world_prefix) (trim raw))"
proof (cases "prefix world_prefix (trim raw)")
  case True
  then obtain rest where "trim raw = world_prefix @ rest" by (auto elim: prefixE)
  then show ?thesis by (auto simp: parse_input_source_def read_world_source_iff)
next
  case False
  then have "trim raw \<noteq> world_prefix @ t" for t by auto
  with False show ?thesis by (simp add: parse_input_source_def read_step_not_world Let_def)
qed

lemma parse_source_error: "parse_input_source raw = Inl e \<Longrightarrow> e = UnreadableSource (trim raw)"
  by (simp add: parse_input_source_def read_step_source_def read_world_source_def Let_def
      split: if_splits option.splits)

end
