(* ===== verification/Decision_Types.thy ===== *)
theory Decision_Types
  imports Capability Plan_Input
begin

text \<open>
  The values of one decision cycle (src/decision.go, src/action.go, the types of
  src/completion_contract.go): the planner's decision, the actions it plans, the record of an
  action that ran, and the errors of the run-time input resolution.  A Go error is a
  constructor with the values its message names.  The \<open>Action\<close> interface has three shapes here:
  a nil interface value, a \<open>NothingAction\<close> and a \<open>CapabilityAction\<close>.
\<close>

record cap_action =
  ca_name :: string
  ca_step_name :: string
  ca_inputs :: "step_input smap"
  ca_expected_effect :: string
  ca_evidence_refs :: "string list"

datatype action = NilAction | NothingAction string | CapAction cap_action

datatype resolve_error =
    BadSource input_error
  | StepMissingOutput string string "string list"
  | StepEmptyOutput string string
  | StepNotRun string
  | NoWorldModel "string list"
  | WorldReadError "string list" world_error
  | WorldNoField "string list" string

datatype action_error =
    FactoryNotReady
  | UnknownCapability string
  | InputError string resolve_error
  | CapabilityFailed string

record action_result =
  ar_capability :: string
  ar_step_name :: string
  ar_input :: "string smap"
  ar_output :: "string smap"
  ar_error :: "action_error option"
  ar_expected_effect :: string
  ar_evidence_refs :: "string list"
  ar_plan_step_id :: nat
  ar_execution_step_id :: nat

record evidence =
  ev_id :: string
  ev_source :: string
  ev_reference :: string
  ev_fact :: string

record need =
  need_type :: string
  need_description :: string
  need_options :: "string list"

record deliverable =
  dl_type :: string
  dl_concrete_type :: string
  dl_detail :: "(string \<times> json) list"

record presentation =
  pr_type :: string
  pr_content :: string

record criterion_check =
  ck_capability :: string
  ck_inputs :: "step_input smap"

record criterion_expect =
  ex_exists :: bool
  ex_field :: string
  ex_equals :: string

record criterion =
  cr_name :: string
  cr_requirement :: string
  cr_evidence :: string
  cr_check :: criterion_check
  cr_expect :: criterion_expect
  cr_raw :: json

text \<open>
  The input bag of a cycle, as far as executing the decision reads it: the task (its id) and
  the agent, nil or not, the cycle, and the steps of the plan that already ran.
\<close>

record decision_ctx =
  dc_task :: "string option"
  dc_agent :: "nat option"
  dc_cycle :: nat
  dc_step_outputs :: "action_result list"

record decision_origin =
  do_reason_turn :: nat
  do_input_message :: nat
  do_reply_message :: nat

definition origin_empty :: "decision_origin \<Rightarrow> bool" where
  "origin_empty og \<longleftrightarrow> do_reason_turn og = 0 \<and> do_input_message og = 0 \<and> do_reply_message og = 0"

record decision =
  d_type :: string
  d_reason :: string
  d_origin :: decision_origin
  d_evidence :: "evidence list"
  d_contract :: "criterion list"
  d_actions :: "action list"
  d_need :: need
  d_deliverables :: "deliverable list"
  d_presentation :: "presentation list"
  d_ctx :: decision_ctx

text \<open>\<open>capabilityStep\<close>: the only kind of action that carries inputs and lineage.\<close>

definition capability_step :: "action \<Rightarrow> cap_action option" where
  "capability_step a = (case a of CapAction s \<Rightarrow> Some s | _ \<Rightarrow> None)"

lemma capability_step_simps [simp]:
  "capability_step NilAction = None" "capability_step (NothingAction r) = None"
  "capability_step (CapAction s) = Some s"
  by (simp_all add: capability_step_def)

lemma capability_step_Some [simp]: "capability_step a = Some s \<longleftrightarrow> a = CapAction s"
  by (cases a) simp_all

datatype step_label = NamedStep string | StepAt nat

definition step_label :: "cap_action \<Rightarrow> nat \<Rightarrow> step_label" where
  "step_label s i = (let n = trim (ca_step_name s) in if n \<noteq> [] then NamedStep n else StepAt (Suc i))"

definition task_id_of :: "decision_ctx \<Rightarrow> string" where
  "task_id_of ctx = (case dc_task ctx of None \<Rightarrow> [] | Some t \<Rightarrow> t)"

definition agent_id_of :: "decision_ctx \<Rightarrow> nat" where
  "agent_id_of ctx = (case dc_agent ctx of None \<Rightarrow> 0 | Some a \<Rightarrow> a)"

end
