(* ===== verification/Decision_Rules.thy ===== *)
theory Decision_Rules
  imports Decision_Types
begin

text \<open>
  The type-specific requirements of a decision (src/decision_rules.go) and what a decision's
  type says about the run (src/decision.go).  A rule's detail text is a constructor with the
  values the text names.
\<close>

definition decision_plan :: string where "decision_plan = ''plan''"
definition decision_done :: string where "decision_done = ''done''"
definition decision_blocked :: string where "decision_blocked = ''blocked''"
definition decision_need_input :: string where "decision_need_input = ''need_input''"

definition task_status_completed :: string where "task_status_completed = ''completed''"
definition task_status_blocked :: string where "task_status_blocked = ''blocked''"
definition task_status_need_input :: string where "task_status_need_input = ''need_input''"

definition type_of :: "decision \<Rightarrow> string" where
  "type_of d = to_lower (trim (d_type d))"

definition is_done :: "decision \<Rightarrow> bool" where
  "is_done d \<longleftrightarrow> equal_fold (trim (d_type d)) decision_done"

definition concludes :: "decision \<Rightarrow> bool" where
  "concludes d \<longleftrightarrow> type_of d = decision_done \<or> type_of d = decision_blocked \<or> type_of d = decision_need_input"

definition task_status_for :: "decision \<Rightarrow> string" where
  "task_status_for d =
    (if type_of d = decision_blocked then task_status_blocked
     else if type_of d = decision_need_input then task_status_need_input
     else task_status_completed)"

section \<open>The rules\<close>

datatype rule_detail =
    PlanNoSteps
  | NoExpectedEffect step_label
  | UnknownEvidence step_label string "string list"
  | CarriesSteps nat string
  | CarriesNeed
  | NoEvidence
  | NoNeedDescription
  | AsksWorkerAuth
  | AsksInventedVerification
  | SingleOption
  | TooManyOptions nat
  | EmptyOption nat
  | RepeatedOption string

record decision_violation =
  dv_type :: string
  dv_rule :: string
  dv_detail :: rule_detail

definition plan_has_steps :: "decision \<Rightarrow> rule_detail option" where
  "plan_has_steps d = (if length (d_actions d) > 0 then None else Some PlanNoSteps)"

definition plan_steps_say_what_they_are_for :: "decision \<Rightarrow> rule_detail option" where
  "plan_steps_say_what_they_are_for d =
    first_error
      (\<lambda>(i, a). case capability_step a of None \<Rightarrow> None
        | Some s \<Rightarrow> if trim (ca_expected_effect s) = [] then Some (NoExpectedEffect (step_label s i)) else None)
      (enumerate 0 (d_actions d))"

definition known_evidence :: "evidence list \<Rightarrow> string list" where
  "known_evidence evs = filter (\<lambda>i. i \<noteq> []) (map (\<lambda>e. trim (ev_id e)) evs)"

definition plan_evidence_refs_exist :: "decision \<Rightarrow> rule_detail option" where
  "plan_evidence_refs_exist d =
    first_error
      (\<lambda>(i, a). case capability_step a of None \<Rightarrow> None
        | Some s \<Rightarrow>
            first_error
              (\<lambda>ref. if trim ref = [] \<or> trim ref \<in> set (known_evidence (d_evidence d)) then None
                     else Some (UnknownEvidence (step_label s i) (trim ref) (known_evidence (d_evidence d))))
              (ca_evidence_refs s))
      (enumerate 0 (d_actions d))"

definition no_steps :: "decision \<Rightarrow> rule_detail option" where
  "no_steps d =
    (if length (d_actions d) = 0 then None else Some (CarriesSteps (length (d_actions d)) (trim (d_type d))))"

definition no_need :: "decision \<Rightarrow> rule_detail option" where
  "no_need d =
    (if trim (need_type (d_need d)) = [] \<and> trim (need_description (d_need d)) = [] \<and>
        length (need_options (d_need d)) = 0
     then None else Some CarriesNeed)"

definition done_names_evidence :: "decision \<Rightarrow> rule_detail option" where
  "done_names_evidence d = (if length (d_evidence d) > 0 then None else Some NoEvidence)"

definition need_describes_what_is_missing :: "decision \<Rightarrow> rule_detail option" where
  "need_describes_what_is_missing d =
    (if trim (need_description (d_need d)) \<noteq> [] then None else Some NoNeedDescription)"

text \<open>The text rule on \<open>need\<close>: which words make a need a false gap (UTF-8 bytes).\<close>

definition need_false_gap_text :: "decision \<Rightarrow> string" where
  "need_false_gap_text d =
    to_lower (need_description (d_need d) @ [CHR 0x0A] @ d_reason d @
      concat (map (\<lambda>e. [CHR 0x0A] @ ev_fact e @ [CHR 0x0A] @ ev_reference e) (d_evidence d)))"

definition contains_any_fold :: "string \<Rightarrow> string list \<Rightarrow> bool" where
  "contains_any_fold s needles = list_ex (\<lambda>n. contains s (to_lower n)) needles"

definition permit_words :: "string list" where
  "permit_words =
    [''permit'',
     ''permission'',
     ''authorize'',
     [CHR 0xE6, CHR 0x8E, CHR 0x88, CHR 0xE6, CHR 0x9D, CHR 0x83],
     [CHR 0xE8, CHR 0xAE, CHR 0xB8, CHR 0xE5, CHR 0x8F, CHR 0xAF],
     [CHR 0xE7, CHR 0xBA, CHR 0xB3, CHR 0xE5, CHR 0x85, CHR 0xA5, CHR 0xE8, CHR 0xAE, CHR 0xB8, CHR 0xE5, CHR 0x8F, CHR 0xAF]]"

definition workspace_words :: "string list" where
  "workspace_words =
    [''workspace'',
     [CHR 0xE5, CHR 0xB7, CHR 0xA5, CHR 0xE4, CHR 0xBD, CHR 0x9C, CHR 0xE5, CHR 0x8C, CHR 0xBA],
     ''sandbox'']"

definition another_edit_words :: "string list" where
  "another_edit_words =
    [[CHR 0xE7, CHR 0xBC, CHR 0x96, CHR 0xE8, CHR 0xBE, CHR 0x91, CHR 0xE8, CHR 0x83, CHR 0xBD, CHR 0xE5, CHR 0x8A, CHR 0x9B],
     ''another edit capability'',
     ''add another edit'']"

definition proof_words :: "string list" where
  "proof_words =
    [''kind'',
     [CHR 0xE7, CHR 0xB1, CHR 0xBB, CHR 0xE5, CHR 0x9E, CHR 0x8B, CHR 0xE5, CHR 0x8C, CHR 0x96],
     [CHR 0xE9, CHR 0xAA, CHR 0x8C, CHR 0xE8, CHR 0xAF, CHR 0x81],
     [CHR 0xE9, CHR 0xAA, CHR 0x8C, CHR 0xE6, CHR 0x94, CHR 0xB6]]"

definition verifier_words :: "string list" where
  "verifier_words =
    [''verification capability'',
     ''acceptance capability'',
     [CHR 0xE9, CHR 0xAA, CHR 0x8C, CHR 0xE6, CHR 0x94, CHR 0xB6, CHR 0xE8, CHR 0x83, CHR 0xBD, CHR 0xE5, CHR 0x8A, CHR 0x9B],
     [CHR 0xE5, CHR 0x8A, CHR 0x9F, CHR 0xE8, CHR 0x83, CHR 0xBD, CHR 0xE9, CHR 0xAA, CHR 0x8C, CHR 0xE6, CHR 0x94, CHR 0xB6],
     [CHR 0xE6, CHR 0x9D, CHR 0x83, CHR 0xE5, CHR 0xA8, CHR 0x81, CHR 0xE9, CHR 0xAA, CHR 0x8C, CHR 0xE6, CHR 0x94, CHR 0xB6],
     [CHR 0xE7, CHR 0xB3, CHR 0xBB, CHR 0xE7, CHR 0xBB, CHR 0x9F, CHR 0xE9, CHR 0xAA, CHR 0x8C, CHR 0xE8, CHR 0xAF, CHR 0x81, CHR 0xE8, CHR 0xA7, CHR 0x84, CHR 0xE5, CHR 0x88, CHR 0x99],
     [CHR 0xE9, CHR 0xAA, CHR 0x8C, CHR 0xE8, CHR 0xAF, CHR 0x81, CHR 0xE8, CHR 0x83, CHR 0xBD, CHR 0xE5, CHR 0x8A, CHR 0x9B],
     ''add a kind'',
     ''invent a kind'',
     ''invent a tool'']"

definition asks_worker_workspace_auth :: "string \<Rightarrow> bool" where
  "asks_worker_workspace_auth blob =
    (let asks_permit = contains_any_fold blob permit_words;
         asks_workspace = contains_any_fold blob workspace_words;
         asks_code_edit = contains blob ''code_edit'';
         asks_another_edit = contains_any_fold blob another_edit_words
     in (asks_permit \<and> (asks_workspace \<or> asks_code_edit)) \<or> (asks_another_edit \<and> asks_workspace))"

definition asks_invented_verification_construct :: "string \<Rightarrow> bool" where
  "asks_invented_verification_construct blob =
    ((contains blob ''summary'' \<and> contains_any_fold blob proof_words) \<or>
     contains_any_fold blob verifier_words)"

definition need_not_ask_runtime_to_authorize_a_worker :: "decision \<Rightarrow> rule_detail option" where
  "need_not_ask_runtime_to_authorize_a_worker d =
    (let typ = to_lower (trim (need_type (d_need d))); blob = need_false_gap_text d in
     if typ \<noteq> ''capability'' \<and> typ \<noteq> ''permission'' \<and> typ \<noteq> ''approval'' then None
     else if asks_worker_workspace_auth blob then Some AsksWorkerAuth
     else if asks_invented_verification_construct blob then Some AsksInventedVerification
     else None)"

definition max_need_options :: nat where "max_need_options = 9"

fun check_options :: "nat \<Rightarrow> string list \<Rightarrow> string list \<Rightarrow> rule_detail option" where
  "check_options i seen [] = None"
| "check_options i seen (opt # opts) =
    (let text = trim opt in
     if text = [] then Some (EmptyOption i)
     else if text \<in> set seen then Some (RepeatedOption text)
     else check_options (Suc i) (text # seen) opts)"

definition need_options_are_choices :: "decision \<Rightarrow> rule_detail option" where
  "need_options_are_choices d =
    (let options = need_options (d_need d) in
     if length options = 0 then None
     else if length options < 2 then Some SingleOption
     else if length options > max_need_options then Some (TooManyOptions (length options))
     else check_options 0 [] options)"

definition decision_rules :: "(string \<times> (string \<times> (decision \<Rightarrow> rule_detail option)) list) list" where
  "decision_rules =
    [(decision_plan,
       [(''plan.not_empty'', plan_has_steps),
        (''plan.steps_say_what_they_are_for'', plan_steps_say_what_they_are_for),
        (''plan.evidence_refs_exist'', plan_evidence_refs_exist)]),
     (decision_done,
       [(''done.plan_empty'', no_steps),
        (''done.need_empty'', no_need),
        (''done.evidence_present'', done_names_evidence)]),
     (decision_blocked,
       [(''blocked.plan_empty'', no_steps),
        (''blocked.need_describes_what_is_missing'', need_describes_what_is_missing),
        (''blocked.need_not_runtime_worker_auth'', need_not_ask_runtime_to_authorize_a_worker),
        (''blocked.need_options_are_choices'', need_options_are_choices)]),
     (decision_need_input,
       [(''need_input.plan_empty'', no_steps),
        (''need_input.need_describes_what_is_missing'', need_describes_what_is_missing),
        (''need_input.need_not_runtime_worker_auth'', need_not_ask_runtime_to_authorize_a_worker),
        (''need_input.need_options_are_choices'', need_options_are_choices)])]"

definition rules_for :: "string \<Rightarrow> (string \<times> (decision \<Rightarrow> rule_detail option)) list" where
  "rules_for typ = (case map_of decision_rules typ of None \<Rightarrow> [] | Some rs \<Rightarrow> rs)"

definition validate_decision :: "decision \<Rightarrow> decision_violation option" where
  "validate_decision d =
    first_error
      (\<lambda>(name, check). case check d of None \<Rightarrow> None
        | Some detail \<Rightarrow> Some \<lparr>dv_type = d_type d, dv_rule = name, dv_detail = detail\<rparr>)
      (rules_for (type_of d))"

section \<open>What the rules demand\<close>

named_theorems decision_words \<open>the decision vocabulary, unfolded\<close>
lemmas [decision_words] = decision_plan_def decision_done_def decision_blocked_def decision_need_input_def

lemma rules_for_plan: "rules_for decision_plan =
    [(''plan.not_empty'', plan_has_steps),
     (''plan.steps_say_what_they_are_for'', plan_steps_say_what_they_are_for),
     (''plan.evidence_refs_exist'', plan_evidence_refs_exist)]"
  by (simp add: rules_for_def decision_rules_def)

lemma rules_for_done: "rules_for decision_done =
    [(''done.plan_empty'', no_steps), (''done.need_empty'', no_need),
     (''done.evidence_present'', done_names_evidence)]"
  by (simp add: rules_for_def decision_rules_def decision_words)

lemma rules_for_blocked: "rules_for decision_blocked =
    [(''blocked.plan_empty'', no_steps),
     (''blocked.need_describes_what_is_missing'', need_describes_what_is_missing),
     (''blocked.need_not_runtime_worker_auth'', need_not_ask_runtime_to_authorize_a_worker),
     (''blocked.need_options_are_choices'', need_options_are_choices)]"
  by (simp add: rules_for_def decision_rules_def decision_words)

lemma rules_for_need_input: "rules_for decision_need_input =
    [(''need_input.plan_empty'', no_steps),
     (''need_input.need_describes_what_is_missing'', need_describes_what_is_missing),
     (''need_input.need_not_runtime_worker_auth'', need_not_ask_runtime_to_authorize_a_worker),
     (''need_input.need_options_are_choices'', need_options_are_choices)]"
  by (simp add: rules_for_def decision_rules_def decision_words)

lemma validate_decision_None:
  "validate_decision d = None \<longleftrightarrow> (\<forall>(n, check)\<in>set (rules_for (type_of d)). check d = None)"
  by (auto simp: validate_decision_def first_error_None split: option.splits)

lemma each_step_check:
  assumes "\<And>s i. g s i = None \<longleftrightarrow> Q s"
  shows "first_error (\<lambda>(i, a). case capability_step a of None \<Rightarrow> None | Some s \<Rightarrow> g s i)
      (enumerate 0 as) = None \<longleftrightarrow> (\<forall>s. CapAction s \<in> set as \<longrightarrow> Q s)"
proof -
  have "(case capability_step a of None \<Rightarrow> None | Some s \<Rightarrow> g s i) = None \<longleftrightarrow> (\<forall>s. a = CapAction s \<longrightarrow> Q s)"
    for a i using assms by (cases a) simp_all
  then show ?thesis by (simp add: first_error_enumerate) (metis in_set_conv_nth)
qed

lemma steps_say_iff:
  "plan_steps_say_what_they_are_for d = None \<longleftrightarrow>
     (\<forall>s. CapAction s \<in> set (d_actions d) \<longrightarrow> trim (ca_expected_effect s) \<noteq> [])"
  unfolding plan_steps_say_what_they_are_for_def by (rule each_step_check) simp

lemma known_evidence_set: "set (known_evidence evs) = {trim (ev_id e) |e. e \<in> set evs} - {[]}"
  by (auto simp: known_evidence_def)

lemma check_options_iff:
  "check_options i seen opts = None \<longleftrightarrow>
     [] \<notin> trim ` set opts \<and> distinct (map trim opts) \<and> trim ` set opts \<inter> set seen = {}"
  by (induction opts arbitrary: i seen) (auto simp: Let_def)

lemma need_options_iff:
  "need_options_are_choices d = None \<longleftrightarrow>
     need_options (d_need d) = [] \<or>
     (2 \<le> length (need_options (d_need d)) \<and> length (need_options (d_need d)) \<le> max_need_options \<and>
      [] \<notin> trim ` set (need_options (d_need d)) \<and> distinct (map trim (need_options (d_need d))))"
  by (auto simp: need_options_are_choices_def Let_def check_options_iff)

lemma is_done_type: "is_done d \<longleftrightarrow> type_of d = decision_done"
proof -
  have "to_lower decision_done = decision_done"
    by (simp add: decision_done_def to_lower_def lower_char_def ascii_pairs_def)
  then show ?thesis by (simp add: is_done_def equal_fold_def type_of_def)
qed

lemma is_done_concludes: "is_done d \<Longrightarrow> concludes d"
  by (simp add: is_done_type concludes_def)

lemma plan_refs_iff:
  "plan_evidence_refs_exist d = None \<longleftrightarrow>
     (\<forall>s ref. CapAction s \<in> set (d_actions d) \<longrightarrow> ref \<in> set (ca_evidence_refs s) \<longrightarrow> trim ref \<noteq> [] \<longrightarrow>
        (\<exists>e\<in>set (d_evidence d). trim (ev_id e) = trim ref))"
proof -
  have known: "trim ref \<in> set (known_evidence (d_evidence d)) \<longleftrightarrow>
      trim ref \<noteq> [] \<and> (\<exists>e\<in>set (d_evidence d). trim (ev_id e) = trim ref)" for ref
    unfolding known_evidence_set by force
  have "plan_evidence_refs_exist d = None \<longleftrightarrow>
      (\<forall>s. CapAction s \<in> set (d_actions d) \<longrightarrow> (\<forall>ref\<in>set (ca_evidence_refs s). trim ref = [] \<or>
        (\<exists>e\<in>set (d_evidence d). trim (ev_id e) = trim ref)))"
    unfolding plan_evidence_refs_exist_def
    by (rule each_step_check) (auto simp: first_error_None known)
  then show ?thesis by blast
qed

lemma decision_types_distinct:
  "decision_plan \<noteq> decision_done" "decision_plan \<noteq> decision_blocked" "decision_plan \<noteq> decision_need_input"
  "decision_done \<noteq> decision_blocked" "decision_done \<noteq> decision_need_input"
  "decision_blocked \<noteq> decision_need_input"
  by (simp_all add: decision_words)

lemma rules_for_other:
  "typ \<notin> {decision_plan, decision_done, decision_blocked, decision_need_input} \<Longrightarrow> rules_for typ = []"
  by (simp add: rules_for_def decision_rules_def)

text \<open>
  C14: A decision passes the gate exactly when it meets the requirements of its type, the type
  read with case and surrounding space ignored: a plan has steps, each says what it is for and
  cites only evidence the decision carries; a done executes nothing, misses nothing and names
  evidence; a blocked or need_input executes nothing, says what is missing, is not one of the
  false gaps, and offers either no options or 2 to 9 distinct non-blank ones.  A type outside
  the vocabulary has no rule and passes.
\<close>

theorem validate_decision_iff:
  "validate_decision d = None \<longleftrightarrow>
    (if type_of d = decision_plan then
       d_actions d \<noteq> [] \<and>
       (\<forall>s. CapAction s \<in> set (d_actions d) \<longrightarrow> trim (ca_expected_effect s) \<noteq> []) \<and>
       (\<forall>s ref. CapAction s \<in> set (d_actions d) \<longrightarrow> ref \<in> set (ca_evidence_refs s) \<longrightarrow> trim ref \<noteq> [] \<longrightarrow>
          (\<exists>e\<in>set (d_evidence d). trim (ev_id e) = trim ref))
     else if type_of d = decision_done then
       d_actions d = [] \<and> d_evidence d \<noteq> [] \<and> trim (need_type (d_need d)) = [] \<and>
       trim (need_description (d_need d)) = [] \<and> need_options (d_need d) = []
     else if type_of d = decision_blocked \<or> type_of d = decision_need_input then
       d_actions d = [] \<and> trim (need_description (d_need d)) \<noteq> [] \<and>
       need_not_ask_runtime_to_authorize_a_worker d = None \<and>
       (need_options (d_need d) = [] \<or>
        (2 \<le> length (need_options (d_need d)) \<and> length (need_options (d_need d)) \<le> 9 \<and>
         [] \<notin> trim ` set (need_options (d_need d)) \<and> distinct (map trim (need_options (d_need d)))))
     else True)"
proof -
  consider "type_of d = decision_plan" | "type_of d = decision_done" | "type_of d = decision_blocked"
    | "type_of d = decision_need_input"
    | "type_of d \<notin> {decision_plan, decision_done, decision_blocked, decision_need_input}" by blast
  then show ?thesis
  proof cases
    case 1
    then show ?thesis
      by (simp add: validate_decision_None rules_for_plan steps_say_iff plan_refs_iff plan_has_steps_def)
  next
    case 2
    then show ?thesis
      by (auto simp: validate_decision_None rules_for_done no_steps_def no_need_def
          done_names_evidence_def decision_types_distinct decision_types_distinct [symmetric])
  next
    case 3
    then show ?thesis
      by (simp add: validate_decision_None rules_for_blocked no_steps_def need_describes_what_is_missing_def
          need_options_iff max_need_options_def decision_types_distinct [symmetric])
  next
    case 4
    then show ?thesis
      by (simp add: validate_decision_None rules_for_need_input no_steps_def need_describes_what_is_missing_def
          need_options_iff max_need_options_def decision_types_distinct [symmetric])
  next
    case 5
    then show ?thesis by (simp add: validate_decision_None rules_for_other)
  qed
qed

text \<open>A plan of one step that cites its evidence.\<close>

definition cited_plan :: decision where
  "cited_plan =
    \<lparr>d_type = '' Plan '', d_reason = [], d_origin = \<lparr>do_reason_turn = 0, do_input_message = 0, do_reply_message = 0\<rparr>,
     d_evidence = [\<lparr>ev_id = ''E1'', ev_source = ''task'', ev_reference = [], ev_fact = ''asked for''\<rparr>], d_contract = [],
     d_actions = [CapAction \<lparr>ca_name = ''build'', ca_step_name = ''build'', ca_inputs = [],
                    ca_expected_effect = ''an artifact'', ca_evidence_refs = ['' E1'']\<rparr>],
     d_need = \<lparr>need_type = [], need_description = [], need_options = []\<rparr>,
     d_deliverables = [], d_presentation = [],
     d_ctx = \<lparr>dc_task = None, dc_agent = None, dc_cycle = 1, dc_step_outputs = []\<rparr>\<rparr>"

theorem validate_decision_iff_witness:
  "validate_decision cited_plan = None \<and> type_of cited_plan = decision_plan"
proof -
  have t: "type_of cited_plan = decision_plan" and e: "trim '' E1'' = trim ''E1''" "trim ''an artifact'' \<noteq> []"
    by code_simp+
  then show ?thesis using validate_decision_iff [of cited_plan] by (auto simp: cited_plan_def)
qed

end
