(* ===== verification/Plan_Lineage.thy ===== *)
theory Plan_Lineage
  imports Decision_Types
begin

text \<open>
  Plan data lineage (src/plan_lineage.go): the static check of where each step input comes from,
  made before anything runs, and the resolution of the bindings while the plan runs.  The
  factory argument is the active capability factory, \<open>None\<close> before bootstrap.
\<close>

section \<open>What a capability declares\<close>

definition declared_fields_of :: "'w factory option \<Rightarrow> string \<Rightarrow> bool \<Rightarrow> field list option" where
  "declared_fields_of f name inputs =
    (case f of None \<Rightarrow> None
     | Some fac \<Rightarrow>
         (case fac_get fac (to_lower (trim name)) of None \<Rightarrow> None
          | Some c \<Rightarrow>
              (case cap_declared c of None \<Rightarrow> None
               | Some (ins, outs) \<Rightarrow> Some (if inputs then ins else outs))))"

definition declared_inputs_of :: "'w factory option \<Rightarrow> string \<Rightarrow> field list option" where
  "declared_inputs_of f name = declared_fields_of f name True"

definition declared_outputs_of :: "'w factory option \<Rightarrow> string \<Rightarrow> field list option" where
  "declared_outputs_of f name = declared_fields_of f name False"

definition field_matches :: "field \<Rightarrow> string \<Rightarrow> bool" where
  "field_matches fd name \<longleftrightarrow> f_name fd = name \<or> name \<in> set (f_aliases fd)"

definition field_accepts :: "field list \<Rightarrow> string \<Rightarrow> bool" where
  "field_accepts fds name = list_ex (\<lambda>fd. field_matches fd (trim name)) fds"

definition supplied_input :: "step_input smap \<Rightarrow> field \<Rightarrow> bool" where
  "supplied_input inputs fd = list_ex (\<lambda>(k, v). field_matches fd k) inputs"

section \<open>The static check\<close>

datatype lineage_error =
    UnusableStepName nat string
  | DuplicateStepName string nat nat
  | UndeclaredInput step_label string string
  | InputSourceError step_label string input_error
  | NoSuchStep step_label string string string
  | NotEarlier step_label string string nat nat
  | DeclaresNoOutputs step_label string string string
  | OutputNotReported step_label string string string
  | RequiredNotSupplied step_label string string

text \<open>The first loop: the steps' names, each with its 1-based position and its capability.\<close>

fun collect_names ::
  "nat \<Rightarrow> action list \<Rightarrow> (nat \<times> string) smap \<Rightarrow> lineage_error + (nat \<times> string) smap" where
  "collect_names i [] named = Inr named"
| "collect_names i (a # as) named =
    (case capability_step a of
       None \<Rightarrow> collect_names (Suc i) as named
     | Some s \<Rightarrow>
         (let name = trim (ca_step_name s) in
          if name = [] then collect_names (Suc i) as named
          else if \<not> step_name_ok name then Inl (UnusableStepName (Suc i) name)
          else (case map_of named name of
                  Some (at, c) \<Rightarrow> Inl (DuplicateStepName name at (Suc i))
                | None \<Rightarrow> collect_names (Suc i) as ((name, (Suc i, ca_name s)) # named))))"

definition check_declared_input ::
  "step_label \<Rightarrow> string \<Rightarrow> string \<Rightarrow> field list option \<Rightarrow> lineage_error option" where
  "check_declared_input label cap key declared =
    (case declared of None \<Rightarrow> None
     | Some fds \<Rightarrow> if field_accepts fds key then None else Some (UndeclaredInput label cap key))"

text \<open>The binding of one input, against the steps the plan names.\<close>

definition check_binding ::
  "'w factory option \<Rightarrow> (nat \<times> string) smap \<Rightarrow> step_label \<Rightarrow> nat \<Rightarrow> string \<Rightarrow> string \<Rightarrow> lineage_error option" where
  "check_binding f named label i key src =
    (case parse_input_source src of
       Inl e \<Rightarrow> Some (InputSourceError label key e)
     | Inr (SrcWorld _ _) \<Rightarrow> None
     | Inr (SrcStep _ st k) \<Rightarrow>
         (case map_of named st of
            None \<Rightarrow> Some (NoSuchStep label key st k)
          | Some (at, cap) \<Rightarrow>
              if at \<ge> Suc i then Some (NotEarlier label key st at (Suc i))
              else (case declared_outputs_of f cap of
                      None \<Rightarrow> Some (DeclaresNoOutputs label key st k)
                    | Some outs \<Rightarrow>
                        if field_accepts outs k then None
                        else Some (OutputNotReported label key st k))))"

definition check_input ::
  "'w factory option \<Rightarrow> (nat \<times> string) smap \<Rightarrow> nat \<Rightarrow> cap_action \<Rightarrow> string \<Rightarrow> lineage_error option" where
  "check_input f named i s key =
    (let label = step_label s i in
     case map_of (ca_inputs s) key of None \<Rightarrow> None
     | Some inp \<Rightarrow>
         or_else (check_declared_input label (ca_name s) key (declared_inputs_of f (ca_name s)))
           (if is_binding inp then check_binding f named label i key (si_source inp) else None))"

definition check_required :: "'w factory option \<Rightarrow> nat \<Rightarrow> cap_action \<Rightarrow> lineage_error option" where
  "check_required f i s =
    (case declared_inputs_of f (ca_name s) of None \<Rightarrow> None
     | Some fds \<Rightarrow>
         first_error
           (\<lambda>fd. if f_required fd \<and> \<not> supplied_input (ca_inputs s) fd
                 then Some (RequiredNotSupplied (step_label s i) (ca_name s) (f_name fd)) else None)
           fds)"

definition check_step ::
  "'w factory option \<Rightarrow> (nat \<times> string) smap \<Rightarrow> nat \<times> action \<Rightarrow> lineage_error option" where
  "check_step f named ia =
    (case capability_step (snd ia) of None \<Rightarrow> None
     | Some s \<Rightarrow>
         or_else (first_error (check_input f named (fst ia) s) (sorted_keys (ca_inputs s)))
           (check_required f (fst ia) s))"

definition validate_plan_lineage :: "'w factory option \<Rightarrow> action list \<Rightarrow> lineage_error option" where
  "validate_plan_lineage f as =
    (case collect_names 0 as [] of
       Inl e \<Rightarrow> Some e
     | Inr named \<Rightarrow> first_error (check_step f named) (enumerate 0 as))"

section \<open>Resolving a step's inputs while the plan runs\<close>

definition world_value :: "asset_manager option \<Rightarrow> string list \<Rightarrow> resolve_error + string" where
  "world_value am path =
    (case am of None \<Rightarrow> Inl (NoWorldModel path)
     | Some m \<Rightarrow>
         (case am_get m (path_asset path) of
            Inl e \<Rightarrow> Inl (WorldReadError path e)
          | Inr a \<Rightarrow>
              if path_field path = world_field_state then Inr (asset_state a)
              else if path_field path = world_field_kind then Inr (asset_kind a)
              else Inl (WorldNoField path (path_field path))))"

definition resolve_input_source ::
  "asset_manager option \<Rightarrow> action_result list \<Rightarrow> string \<Rightarrow> resolve_error + string" where
  "resolve_input_source am prior raw =
    (case parse_input_source raw of
       Inl e \<Rightarrow> Inl (BadSource e)
     | Inr (SrcWorld _ path) \<Rightarrow> world_value am path
     | Inr (SrcStep _ st k) \<Rightarrow>
         (case find (\<lambda>r. ar_step_name r = st) prior of
            None \<Rightarrow> Inl (StepNotRun st)
          | Some r \<Rightarrow>
              (case map_of (ar_output r) k of
                 None \<Rightarrow> Inl (StepMissingOutput st k (sorted_keys (ar_output r)))
               | Some v \<Rightarrow> if trim v = [] then Inl (StepEmptyOutput st k) else Inr v)))"

definition resolve_one ::
  "asset_manager option \<Rightarrow> action_result list \<Rightarrow> step_input smap \<Rightarrow> string
     \<Rightarrow> action_error + string \<times> string" where
  "resolve_one am prior inputs key =
    (case map_of inputs key of None \<Rightarrow> Inr (key, [])
     | Some inp \<Rightarrow>
         if \<not> is_binding inp then Inr (key, si_literal inp)
         else (case resolve_input_source am prior (si_source inp) of
                 Inl e \<Rightarrow> Inl (InputError key e)
               | Inr v \<Rightarrow> Inr (key, v)))"

definition resolve_step_inputs ::
  "asset_manager option \<Rightarrow> action_result list \<Rightarrow> step_input smap \<Rightarrow> action_error + string smap" where
  "resolve_step_inputs am prior inputs =
    map_result (resolve_one am prior inputs) (sorted_keys inputs)"

section \<open>What the static check means\<close>

text \<open>Step \<open>j\<close> of the plan calls a capability and is called \<open>n\<close>.\<close>

definition named_step :: "action list \<Rightarrow> nat \<Rightarrow> string \<Rightarrow> cap_action \<Rightarrow> bool" where
  "named_step as j n s \<longleftrightarrow> j < length as \<and> as ! j = CapAction s \<and> trim (ca_step_name s) = n \<and> n \<noteq> []"

definition names_ok :: "action list \<Rightarrow> bool" where
  "names_ok as \<longleftrightarrow>
     (\<forall>j n s. named_step as j n s \<longrightarrow> step_name_ok n) \<and>
     (\<forall>j k n s t. named_step as j n s \<longrightarrow> named_step as k n t \<longrightarrow> j = k)"

definition binding_ok :: "'w factory option \<Rightarrow> action list \<Rightarrow> nat \<Rightarrow> string \<Rightarrow> bool" where
  "binding_ok f as i src \<longleftrightarrow>
     (case parse_input_source src of
        Inl _ \<Rightarrow> False
      | Inr (SrcWorld _ _) \<Rightarrow> True
      | Inr (SrcStep _ st k) \<Rightarrow>
          \<exists>j t outs. j < i \<and> named_step as j st t \<and>
            declared_outputs_of f (ca_name t) = Some outs \<and> field_accepts outs k)"

definition step_ok :: "'w factory option \<Rightarrow> action list \<Rightarrow> nat \<Rightarrow> cap_action \<Rightarrow> bool" where
  "step_ok f as i s \<longleftrightarrow>
     (\<forall>k inp. map_of (ca_inputs s) k = Some inp \<longrightarrow>
        (\<forall>fds. declared_inputs_of f (ca_name s) = Some fds \<longrightarrow> field_accepts fds k) \<and>
        (is_binding inp \<longrightarrow> binding_ok f as i (si_source inp))) \<and>
     (\<forall>fds fd. declared_inputs_of f (ca_name s) = Some fds \<longrightarrow> fd \<in> set fds \<longrightarrow> f_required fd \<longrightarrow>
        supplied_input (ca_inputs s) fd)"

definition lineage_ok :: "'w factory option \<Rightarrow> action list \<Rightarrow> bool" where
  "lineage_ok f as \<longleftrightarrow>
     names_ok as \<and> (\<forall>i s. i < length as \<longrightarrow> as ! i = CapAction s \<longrightarrow> step_ok f as i s)"

lemma named_step_Nil [simp]: "\<not> named_step [] j n s"
  by (simp add: named_step_def)

lemma named_step_Cons:
  "named_step (a # as) j n s \<longleftrightarrow>
     (case j of 0 \<Rightarrow> a = CapAction s \<and> trim (ca_step_name s) = n \<and> n \<noteq> []
      | Suc j' \<Rightarrow> named_step as j' n s)"
  by (auto simp: named_step_def split: nat.splits)

lemma named_step_0 [simp]:
  "named_step (a # as) 0 n s \<longleftrightarrow> a = CapAction s \<and> trim (ca_step_name s) = n \<and> n \<noteq> []"
  and named_step_Suc [simp]: "named_step (a # as) (Suc j) n s \<longleftrightarrow> named_step as j n s"
  by (simp_all add: named_step_Cons)

lemma names_ok_Cons:
  "names_ok (a # as) \<longleftrightarrow> names_ok as \<and>
     (\<forall>s. a = CapAction s \<longrightarrow> trim (ca_step_name s) \<noteq> [] \<longrightarrow>
        step_name_ok (trim (ca_step_name s)) \<and>
        (\<forall>j t. \<not> named_step as j (trim (ca_step_name s)) t))"
    (is "?l \<longleftrightarrow> ?r")
proof
  assume l: ?l
  show ?r
  proof (intro conjI allI impI)
    show "names_ok as" unfolding names_ok_def
    proof (intro conjI allI impI)
      fix j n s assume "named_step as j n s"
      with l show "step_name_ok n" unfolding names_ok_def using named_step_Suc by blast
    next
      fix j k n s t assume "named_step as j n s" "named_step as k n t"
      then have "named_step (a # as) (Suc j) n s" "named_step (a # as) (Suc k) n t" by simp_all
      with l have "Suc j = Suc k" unfolding names_ok_def by blast
      then show "j = k" by simp
    qed
  next
    fix s assume s: "a = CapAction s" "trim (ca_step_name s) \<noteq> []"
    then have h: "named_step (a # as) 0 (trim (ca_step_name s)) s" by simp
    with l show "step_name_ok (trim (ca_step_name s))" unfolding names_ok_def by blast
    fix j t show "\<not> named_step as j (trim (ca_step_name s)) t"
    proof
      assume "named_step as j (trim (ca_step_name s)) t"
      then have "named_step (a # as) (Suc j) (trim (ca_step_name s)) t" by simp
      with h l have "0 = Suc j" unfolding names_ok_def by blast
      then show False by simp
    qed
  qed
next
  assume r: ?r
  then have ok: "named_step as j n s \<Longrightarrow> step_name_ok n"
    and uniq: "named_step as j n s \<Longrightarrow> named_step as k n t \<Longrightarrow> j = k" for j k n s t
    unfolding names_ok_def by blast+
  show ?l unfolding names_ok_def
  proof (intro conjI allI impI)
    fix j n s assume "named_step (a # as) j n s"
    with r ok show "step_name_ok n" by (cases j) auto
  next
    fix j k n s t assume "named_step (a # as) j n s" "named_step (a # as) k n t"
    with r uniq show "j = k" by (cases j; cases k) auto
  qed
qed

lemma collect_names_iff:
  "(\<exists>named'. collect_names i as named = Inr named') \<longleftrightarrow>
     names_ok as \<and> (\<forall>j n s. named_step as j n s \<longrightarrow> map_of named n = None)"
proof (induction as arbitrary: i named)
  case Nil
  then show ?case by (simp add: names_ok_def)
next
  case (Cons a as)
  show ?case
  proof (cases "\<exists>s. a = CapAction s \<and> trim (ca_step_name s) \<noteq> []")
    case False
    then have "collect_names i (a # as) named = collect_names (Suc i) as named"
      by (cases a) (auto simp: Let_def)
    moreover have "names_ok (a # as) \<longleftrightarrow> names_ok as" using False by (auto simp: names_ok_Cons)
    moreover have "(\<forall>j n s. named_step (a # as) j n s \<longrightarrow> map_of named n = None) \<longleftrightarrow>
        (\<forall>j n s. named_step as j n s \<longrightarrow> map_of named n = None)"
      using False by (subst all_nat_split) (simp, blast)
    ultimately show ?thesis by (simp only: Cons.IH)
  next
    case True
    then obtain s where a: "a = CapAction s" and n: "trim (ca_step_name s) \<noteq> []" by blast
    let ?n = "trim (ca_step_name s)"
    have step: "(\<forall>j n t. named_step (a # as) j n t \<longrightarrow> map_of named n = None) \<longleftrightarrow>
        map_of named ?n = None \<and> (\<forall>j n t. named_step as j n t \<longrightarrow> map_of named n = None)"
      using a n by (subst all_nat_split) auto
    show ?thesis
    proof (cases "step_name_ok ?n \<and> map_of named ?n = None")
      case False
      then show ?thesis using a n step by (auto simp: Let_def names_ok_Cons split: option.splits)
    next
      case ok: True
      then have "collect_names i (a # as) named =
          collect_names (Suc i) as ((?n, Suc i, ca_name s) # named)"
        using a n by (simp add: Let_def)
      moreover have "map_of ((?n, Suc i, ca_name s) # named) n = None \<longleftrightarrow> n \<noteq> ?n \<and> map_of named n = None"
        for n by simp
      then have "(\<forall>j n t. named_step as j n t \<longrightarrow> map_of ((?n, Suc i, ca_name s) # named) n = None) \<longleftrightarrow>
          (\<forall>j t. \<not> named_step as j ?n t) \<and> (\<forall>j n t. named_step as j n t \<longrightarrow> map_of named n = None)"
        by metis
      moreover have "names_ok (a # as) \<longleftrightarrow> names_ok as \<and> (\<forall>j t. \<not> named_step as j ?n t)"
        using a n ok by (simp add: names_ok_Cons)
      ultimately show ?thesis using step ok Cons.IH [of "Suc i" "(?n, Suc i, ca_name s) # named"]
        by simp
    qed
  qed
qed

lemma collect_names_value:
  "collect_names i as named = Inr named' \<Longrightarrow>
     map_of named' n = Some (at, c) \<longleftrightarrow>
       map_of named n = Some (at, c) \<or>
       (\<exists>j s. named_step as j n s \<and> at = Suc (i + j) \<and> c = ca_name s)"
proof (induction as arbitrary: i named)
  case Nil
  then show ?case by simp
next
  case (Cons a as)
  have ex: "(\<exists>j s. named_step (a # as) j n s \<and> at = Suc (i + j) \<and> c = ca_name s) \<longleftrightarrow>
      (\<exists>s. a = CapAction s \<and> trim (ca_step_name s) = n \<and> n \<noteq> [] \<and> at = Suc i \<and> c = ca_name s) \<or>
      (\<exists>j s. named_step as j n s \<and> at = Suc (Suc i + j) \<and> c = ca_name s)"
    by (subst ex_nat_split) auto
  show ?case
  proof (cases "\<exists>s. a = CapAction s \<and> trim (ca_step_name s) \<noteq> []")
    case False
    then have "collect_names i (a # as) named = collect_names (Suc i) as named"
      by (cases a) (auto simp: Let_def)
    with Cons.prems have "collect_names (Suc i) as named = Inr named'" by simp
    from Cons.IH [OF this] show ?thesis unfolding ex using False by auto
  next
    case True
    then obtain s where a: "a = CapAction s" and n: "trim (ca_step_name s) \<noteq> []" by blast
    from Cons.prems a n have fresh: "map_of named (trim (ca_step_name s)) = None"
      and rec: "collect_names (Suc i) as ((trim (ca_step_name s), Suc i, ca_name s) # named) = Inr named'"
      by (auto simp: Let_def split: if_splits option.splits)
    from Cons.IH [OF rec] show ?thesis unfolding ex using a n fresh by auto
  qed
qed

lemma check_binding_iff:
  assumes named: "collect_names 0 as [] = Inr named"
    and uniq: "names_ok as"
  shows "check_binding f named label i key src = None \<longleftrightarrow> binding_ok f as i src"
proof -
  have look: "map_of named st = Some (at, c) \<longleftrightarrow> (\<exists>j t. named_step as j st t \<and> at = Suc j \<and> c = ca_name t)"
    for st at c using collect_names_value [OF named, of st at c] by simp
  show ?thesis
  proof (cases "parse_input_source src")
    case (Inl e)
    then show ?thesis by (simp add: check_binding_def binding_ok_def)
  next
    case (Inr isrc)
    show ?thesis
    proof (cases isrc)
      case (SrcWorld x p)
      then show ?thesis using Inr by (simp add: check_binding_def binding_ok_def)
    next
      case (SrcStep x st k)
      show ?thesis
      proof (cases "map_of named st")
        case None
        then have "\<not> named_step as j st t" for j t using look [of st] by auto
        then show ?thesis using Inr SrcStep None by (simp add: check_binding_def binding_ok_def)
      next
        case (Some p)
        then obtain j t where st: "named_step as j st t" and p: "p = (Suc j, ca_name t)"
          using look [of st "fst p" "snd p"] by (cases p) auto
        have "named_step as j' st t' \<Longrightarrow> j' = j \<and> t' = t" for j' t'
        proof -
          assume n': "named_step as j' st t'"
          with st uniq have "j' = j" unfolding names_ok_def by blast
          with n' st show ?thesis by (simp add: named_step_def)
        qed
        then have "(\<exists>j' t' outs. j' < i \<and> named_step as j' st t' \<and>
              declared_outputs_of f (ca_name t') = Some outs \<and> field_accepts outs k) \<longleftrightarrow>
            j < i \<and> (\<exists>outs. declared_outputs_of f (ca_name t) = Some outs \<and> field_accepts outs k)"
          using st by blast
        then have "binding_ok f as i src \<longleftrightarrow> j < i \<and>
            (\<exists>outs. declared_outputs_of f (ca_name t) = Some outs \<and> field_accepts outs k)"
          by (simp add: binding_ok_def Inr SrcStep)
        then show ?thesis
          by (simp add: check_binding_def Inr SrcStep Some p split: option.splits)
      qed
    qed
  qed
qed

lemma check_step_iff:
  assumes "collect_names 0 as [] = Inr named" and "names_ok as"
  shows "check_step f named (i, CapAction s) = None \<longleftrightarrow> step_ok f as i s"
proof -
  have "check_input f named i s k = None \<longleftrightarrow>
    (\<forall>inp. map_of (ca_inputs s) k = Some inp \<longrightarrow>
      (\<forall>fds. declared_inputs_of f (ca_name s) = Some fds \<longrightarrow> field_accepts fds k) \<and>
      (is_binding inp \<longrightarrow> binding_ok f as i (si_source inp)))" for k
    by (auto simp: check_input_def check_declared_input_def Let_def check_binding_iff [OF assms]
        split: option.splits)
  moreover have "check_required f i s = None \<longleftrightarrow>
    (\<forall>fds fd. declared_inputs_of f (ca_name s) = Some fds \<longrightarrow> fd \<in> set fds \<longrightarrow> f_required fd \<longrightarrow>
       supplied_input (ca_inputs s) fd)"
    by (auto simp: check_required_def first_error_None split: option.splits)
  ultimately show ?thesis
    unfolding check_step_def step_ok_def
    by (auto simp: first_error_None) blast+
qed

lemma validate_plan_lineage_iff: "validate_plan_lineage f as = None \<longleftrightarrow> lineage_ok f as"
proof (cases "collect_names 0 as []")
  case (Inl e)
  then have "\<not> names_ok as" using collect_names_iff [of 0 as "[]"] by simp
  with Inl show ?thesis by (simp add: validate_plan_lineage_def lineage_ok_def)
next
  case (Inr named)
  then have ok: "names_ok as" using collect_names_iff [of 0 as "[]"] by auto
  have "check_step f named (i, a) = None \<longleftrightarrow> (\<forall>s. a = CapAction s \<longrightarrow> step_ok f as i s)" for i a
    using check_step_iff [OF Inr ok, of f i] by (cases a) (simp_all add: check_step_def)
  then show ?thesis using Inr ok
    by (auto simp: validate_plan_lineage_def lineage_ok_def first_error_enumerate)
qed

end
