(* ===== verification/Completion_Contract.thy ===== *)
theory Completion_Contract
  imports Plan_Lineage
begin

text \<open>
  The completion contract (src/completion_contract.go): a task's criteria as the planner
  writes them, read into records, and the check a contract passes before it is pinned
  (\<open>validateCompletionContract\<close>, src/verification.go).  Raw JSON is the decoded value
  (\<open>Go_Json\<close>).
\<close>

datatype parse_error =
    ContractShape
  | EmptyCriterion
  | CriterionShape
  | EvidenceShape
  | CheckShape
  | ExpectShape
  | CheckInput string input_error
  | ContractStep nat parse_error

section \<open>What a criterion says\<close>

definition judges :: "criterion_expect \<Rightarrow> bool" where
  "judges e \<longleftrightarrow> ex_exists e \<or> trim (ex_field e) \<noteq> [] \<or> trim (ex_equals e) \<noteq> []"

datatype expectation = ItExists | NoFact | BoundFieldIs string | FieldIs string string

definition describes :: "criterion_expect \<Rightarrow> expectation" where
  "describes e =
    (if ex_exists e then ItExists
     else if trim (ex_field e) = [] then
       (if trim (ex_equals e) = [] then NoFact else BoundFieldIs (ex_equals e))
     else FieldIs (ex_field e) (ex_equals e))"

definition has_check :: "criterion \<Rightarrow> bool" where
  "has_check c \<longleftrightarrow> trim (ck_capability (cr_check c)) \<noteq> []"

definition is_world :: "criterion \<Rightarrow> bool" where
  "is_world c \<longleftrightarrow> prefix world_prefix (trim (cr_evidence c))"

lemma judges_iff_describes: "judges e \<longleftrightarrow> describes e \<noteq> NoFact"
  by (auto simp: judges_def describes_def)

section \<open>Reading a contract\<close>

definition first_non_empty :: "string list \<Rightarrow> string" where
  "first_non_empty vals = (case find (\<lambda>v. trim v \<noteq> []) vals of None \<Rightarrow> [] | Some v \<Rightarrow> trim v)"

definition criterion_evidence_source :: "json option \<Rightarrow> parse_error + string" where
  "criterion_evidence_source raw =
    (if raw_absent raw then Inr []
     else (case the raw of
             JStr t \<Rightarrow> Inr (trim t)
           | JObj kvs \<Rightarrow> (case str_field ''source'' kvs of None \<Rightarrow> Inl EvidenceShape | Some t \<Rightarrow> Inr (trim t))
           | _ \<Rightarrow> Inl EvidenceShape))"

definition step_inputs_from_object :: "json option \<Rightarrow> parse_error + step_input smap" where
  "step_inputs_from_object raw =
    (if raw_absent raw then Inr []
     else (case the raw of
             JObj kvs \<Rightarrow>
               map_result
                 (\<lambda>(k, v). case unmarshal_input v of Inl e \<Rightarrow> Inl (CheckInput k e) | Inr i \<Rightarrow> Inr (k, i))
                 (sorted_entries kvs)
           | _ \<Rightarrow> Inl CheckShape))"

definition criterion_check_of :: "json option \<Rightarrow> parse_error + criterion_check" where
  "criterion_check_of raw =
    (if raw_absent raw then Inr \<lparr>ck_capability = [], ck_inputs = []\<rparr>
     else (case the raw of
             JObj kvs \<Rightarrow>
               (case str_field ''capability'' kvs of None \<Rightarrow> Inl CheckShape
                | Some c \<Rightarrow>
                    (case step_inputs_from_object (raw_field ''inputs'' kvs) of
                       Inl e \<Rightarrow> Inl e
                     | Inr ins \<Rightarrow> Inr \<lparr>ck_capability = to_lower (trim c), ck_inputs = ins\<rparr>))
           | _ \<Rightarrow> Inl CheckShape))"

definition criterion_expect_of :: "json option \<Rightarrow> parse_error + criterion_expect" where
  "criterion_expect_of raw =
    (if raw_absent raw then Inr \<lparr>ex_exists = False, ex_field = [], ex_equals = []\<rparr>
     else (case the raw of
             JObj kvs \<Rightarrow>
               (case (bool_field ''exists'' kvs, str_field ''field'' kvs, str_field ''equals'' kvs) of
                  (Some b, Some f, Some e) \<Rightarrow>
                    Inr \<lparr>ex_exists = (b = Some True), ex_field = trim f, ex_equals = trim e\<rparr>
                | _ \<Rightarrow> Inl ExpectShape)
           | _ \<Rightarrow> Inl ExpectShape))"

definition prose_criterion :: "string \<Rightarrow> json \<Rightarrow> criterion" where
  "prose_criterion t raw =
    \<lparr>cr_name = [], cr_requirement = trim t, cr_evidence = [],
     cr_check = \<lparr>ck_capability = [], ck_inputs = []\<rparr>,
     cr_expect = \<lparr>ex_exists = False, ex_field = [], ex_equals = []\<rparr>, cr_raw = raw\<rparr>"

text \<open>
  \<open>json.Unmarshal\<close> into a string accepts a string and \<open>null\<close>, so both read as prose; every
  other document is read as an object.
\<close>

definition parse_criterion :: "json \<Rightarrow> parse_error + criterion" where
  "parse_criterion v =
    (case v of
       JStr t \<Rightarrow> Inr (prose_criterion t v)
     | JNull \<Rightarrow> Inr (prose_criterion [] v)
     | JObj kvs \<Rightarrow>
         (case (str_field ''name'' kvs, str_field ''requirement'' kvs, str_field ''criterion'' kvs) of
            (Some n, Some r, Some c) \<Rightarrow>
              (case criterion_evidence_source (raw_field ''evidence'' kvs) of
                 Inl e \<Rightarrow> Inl e
               | Inr src \<Rightarrow>
                   (case criterion_check_of (raw_field ''check'' kvs) of
                      Inl e \<Rightarrow> Inl e
                    | Inr ck \<Rightarrow>
                        (case criterion_expect_of (raw_field ''expect'' kvs) of
                           Inl e \<Rightarrow> Inl e
                         | Inr ex \<Rightarrow>
                             Inr \<lparr>cr_name = trim n, cr_requirement = trim (first_non_empty [r, c]),
                                  cr_evidence = src, cr_check = ck, cr_expect = ex, cr_raw = v\<rparr>)))
          | _ \<Rightarrow> Inl CriterionShape)
     | _ \<Rightarrow> Inl CriterionShape)"

fun array_field_from :: "json list \<Rightarrow> string \<Rightarrow> (string \<times> json) list \<Rightarrow> json list option" where
  "array_field_from acc k [] = Some acc"
| "array_field_from acc k ((k', v) # kvs) =
     (if equal_fold k' k
      then (case v of JArr xs \<Rightarrow> array_field_from xs k kvs
            | JNull \<Rightarrow> array_field_from [] k kvs
            | _ \<Rightarrow> None)
      else array_field_from acc k kvs)"

definition contract_steps :: "json \<Rightarrow> json list option" where
  "contract_steps v =
    (case v of JArr xs \<Rightarrow> Some xs
     | JObj kvs \<Rightarrow> array_field_from [] ''steps'' kvs
     | _ \<Rightarrow> None)"

definition name_criterion :: "nat \<Rightarrow> criterion \<Rightarrow> criterion" where
  "name_criterion i c = (if trim (cr_name c) = [] then c\<lparr>cr_name := ''C'' @ show_nat (Suc i)\<rparr> else c)"

definition parse_completion_contract :: "json option \<Rightarrow> parse_error + criterion list" where
  "parse_completion_contract raw =
    (if raw_absent raw then Inr []
     else (case contract_steps (the raw) of
             None \<Rightarrow> Inl ContractShape
           | Some steps \<Rightarrow>
               map_result
                 (\<lambda>(i, v). case parse_criterion v of
                    Inl e \<Rightarrow> Inl (ContractStep (Suc i) e)
                  | Inr c \<Rightarrow> Inr (name_criterion i c))
                 (enumerate 0 steps)))"

section \<open>The check before a contract is pinned\<close>

datatype contract_label = NamedCriterion string | CriterionAt nat

datatype contract_error =
    SlotUnreadable contract_label input_error
  | SlotNoOutputs contract_label string string string
  | SlotNotReported contract_label string string string
  | NamesACheck contract_label

definition criterion_label :: "criterion \<Rightarrow> nat \<Rightarrow> contract_label" where
  "criterion_label c i = (if trim (cr_name c) \<noteq> [] then NamedCriterion (trim (cr_name c)) else CriterionAt (Suc i))"

text \<open>The first step of the plan that has the slot's name decides.\<close>

fun check_slot_against_plan ::
  "'w factory option \<Rightarrow> contract_label \<Rightarrow> string \<Rightarrow> string \<Rightarrow> action list \<Rightarrow> contract_error option" where
  "check_slot_against_plan f label st key [] = None"
| "check_slot_against_plan f label st key (a # as) =
    (case capability_step a of
       None \<Rightarrow> check_slot_against_plan f label st key as
     | Some s \<Rightarrow>
         if trim (ca_step_name s) \<noteq> st then check_slot_against_plan f label st key as
         else (case declared_outputs_of f (ca_name s) of
                 None \<Rightarrow> Some (SlotNoOutputs label st (ca_name s) key)
               | Some outs \<Rightarrow>
                   if field_accepts outs key then None
                   else Some (SlotNotReported label st (ca_name s) key)))"

definition validate_criterion ::
  "'w factory option \<Rightarrow> action list \<Rightarrow> nat \<times> criterion \<Rightarrow> contract_error option" where
  "validate_criterion f as ic =
    (let c = snd ic; label = criterion_label c (fst ic) in
     if trim (cr_evidence c) = [] then None
     else (case parse_input_source (cr_evidence c) of
             Inl e \<Rightarrow> Some (SlotUnreadable label e)
           | Inr src \<Rightarrow>
               or_else
                 (case src of SrcStep _ st key \<Rightarrow> check_slot_against_plan f label st key as
                  | SrcWorld _ _ \<Rightarrow> None)
                 (if has_check c then Some (NamesACheck label) else None)))"

definition validate_completion_contract ::
  "'w factory option \<Rightarrow> criterion list \<Rightarrow> action list \<Rightarrow> contract_error option" where
  "validate_completion_contract f contract as =
    first_error (validate_criterion f as) (enumerate 0 contract)"

section \<open>What the reader guarantees\<close>

lemma trim_first_non_empty [simp]: "trim (first_non_empty vals) = first_non_empty vals"
  by (auto simp: first_non_empty_def split: option.splits)

definition criterion_trimmed :: "criterion \<Rightarrow> bool" where
  "criterion_trimmed c \<longleftrightarrow>
     trim (cr_name c) = cr_name c \<and> trim (cr_requirement c) = cr_requirement c \<and>
     trim (cr_evidence c) = cr_evidence c \<and> trim (ex_field (cr_expect c)) = ex_field (cr_expect c) \<and>
     trim (ex_equals (cr_expect c)) = ex_equals (cr_expect c) \<and>
     to_lower (trim (ck_capability (cr_check c))) = ck_capability (cr_check c)"

lemma evidence_source_trimmed: "criterion_evidence_source raw = Inr s \<Longrightarrow> trim s = s"
  by (auto simp: criterion_evidence_source_def split: if_splits json.splits option.splits)

lemma expect_trimmed:
  "criterion_expect_of raw = Inr e \<Longrightarrow> trim (ex_field e) = ex_field e \<and> trim (ex_equals e) = ex_equals e"
  by (auto simp: criterion_expect_of_def split: if_splits json.splits option.splits)

lemma parse_criterion_raw: "parse_criterion v = Inr c \<Longrightarrow> cr_raw c = v"
  by (auto simp: parse_criterion_def prose_criterion_def split: json.splits option.splits sum.splits)

lemma parse_completion_contract_raw:
  assumes "parse_completion_contract (Some raw) = Inr cs" and "raw \<noteq> JNull"
  shows "\<exists>steps. contract_steps raw = Some steps \<and> map cr_raw cs = steps"
proof -
  from assms obtain steps where steps: "contract_steps raw = Some steps"
    and all: "list_all2 (\<lambda>iv c. (case iv of (i, v) \<Rightarrow> (case parse_criterion v of
        Inl e \<Rightarrow> Inl (ContractStep (Suc i) e) | Inr c \<Rightarrow> Inr (name_criterion i c))) = Inr c)
      (enumerate 0 steps) cs"
    by (auto simp: parse_completion_contract_def raw_absent_def map_result_Inr split: option.splits)
  have "list_all2 (\<lambda>iv c. cr_raw c = snd iv) (enumerate 0 steps) cs"
    using all
    by (rule list_all2_mono)
      (auto simp: name_criterion_def parse_criterion_raw split: sum.splits if_splits)
  then have "map cr_raw cs = map snd (enumerate 0 steps)"
    by (auto simp: list_all2_conv_all_nth nth_enumerate_eq intro: nth_equalityI)
  then show ?thesis using steps by simp
qed

lemma show_nat_trim: "n < 10 \<Longrightarrow> show_nat n = [digit_char n]"
  by (subst show_nat.simps) simp

lemma validate_contract_iff:
  "validate_completion_contract f cs as = None \<longleftrightarrow>
     (\<forall>i<length cs. validate_criterion f as (i, cs ! i) = None)"
  by (simp add: validate_completion_contract_def first_error_enumerate)

end
