(* ===== verification/Exec_Store.thy ===== *)
theory Exec_Store
  imports Decision_Rules Completion_Contract
begin

text \<open>
  The execution records and the contract and verdict tables (src/db/sqlite_execution.go,
  src/db/sqlite_verification.go, src/db/store_row_text.go, the row types of src/execution.go,
  src/completion_contract.go and src/verification.go, and the writers of src/store.go).

  A table is the list of its rows in insertion order; rows are never deleted, so the
  autoincrement id of a row is its position.  The unique keys are those of the schema
  (src/db/sqlite_store.go).  Every statement may fail for reasons of its own: \<open>st_faults\<close> lists
  the outcomes of the coming statements (\<open>None\<close> for one the database carries out), and an empty
  list means that no statement fails any more.  A nullable id column holds 0 for NULL.
  Timestamps and durations are not modelled.
\<close>

section \<open>Rows and tables\<close>

datatype store_error = MissingTaskID | UniqueViolation | DbFault string

datatype step_status = StepOk | StepFailed

record plan_row =
  pl_id :: nat
  pl_task :: string
  pl_agent :: nat
  pl_cycle :: nat
  pl_type :: string
  pl_reason :: string
  pl_evidence :: json
  pl_need :: json
  pl_step_count :: nat
  pl_hash :: string
  pl_reply :: nat
  pl_input :: nat
  pl_task_input :: nat
  pl_turn :: nat

record step_plan_row =
  sp_id :: nat
  sp_plan :: nat
  sp_idx :: nat
  sp_name :: string
  sp_capability :: string
  sp_input :: json
  sp_effect :: string
  sp_refs :: json

record step_row =
  es_id :: nat
  es_plan :: nat
  es_plan_step :: nat
  es_task :: string
  es_agent :: nat
  es_cycle :: nat
  es_idx :: nat
  es_name :: string
  es_capability :: string
  es_provider :: string
  es_status :: step_status
  es_input :: json
  es_output :: json
  es_error :: "action_error option"

record interaction_row =
  in_step :: nat
  in_seq :: nat
  in_kind :: string
  in_provider :: string
  in_turn :: nat

record plan_outcome =
  po_plan :: nat
  po_step :: nat
  po_status :: "step_status option"
  po_error :: "action_error option"
  po_planned :: nat
  po_executed :: nat

record contract_row =
  cc_task :: string
  cc_idx :: nat
  cc_plan :: nat
  cc_name :: string
  cc_criterion :: json

datatype verdict = Pass | Fail | Inconclusive

datatype judge_reason =
    NothingMustHold
  | NoEvidenceSlot
  | SlotNotReadable input_error
  | SlotIsTheField string string
  | NoWorldModelHere "string list"
  | NotInWorldModel string
  | WorldHasNoField string
  | InWorldModel
  | NothingProduced string
  | ReportedNo string string "string list"
  | ReportIsNotAFact
  | NoObjectKind string string
  | NoToolForKind string "string list"
  | NotAVerificationTool string
  | RuntimeHasNoCapability string
  | CheckUndeclared string string
  | CheckRequires string string
  | CheckInputError action_error
  | AuthorityFailed string
  | ObjectExists
  | ObjectNotThere
  | AuthorityAnswered
  | AnswerHasNo string "string list"
  | FieldAsSaid string string
  | FieldDiffers string string string

record verification =
  vf_id :: nat
  vf_task :: string
  vf_plan :: nat
  vf_cycle :: nat
  vf_criterion :: string
  vf_requirement :: string
  vf_method :: string
  vf_evidence :: json
  vf_expected :: expectation
  vf_observed :: string
  vf_result :: verdict
  vf_reason :: judge_reason

record store =
  st_plans :: "plan_row list"
  st_step_plans :: "step_plan_row list"
  st_steps :: "step_row list"
  st_interactions :: "interaction_row list"
  st_contracts :: "contract_row list"
  st_verdicts :: "verification list"
  st_faults :: "string option list"

definition empty_store :: store where
  "empty_store = \<lparr>st_plans = [], st_step_plans = [], st_steps = [], st_interactions = [],
     st_contracts = [], st_verdicts = [], st_faults = []\<rparr>"

text \<open>One statement sent to the database: the error it fails with, if it does.\<close>

definition db_call :: "store \<Rightarrow> store \<times> store_error option" where
  "db_call s =
    (case st_faults s of [] \<Rightarrow> (s, None)
     | f # fs \<Rightarrow> (s\<lparr>st_faults := fs\<rparr>, map_option DbFault f))"

definition or_json_object_text :: "json option \<Rightarrow> json" where
  "or_json_object_text t = (case t of Some (JObj kvs) \<Rightarrow> JObj kvs | _ \<Rightarrow> JObj [])"

text \<open>\<open>jsonObject\<close> and \<open>parseJSONObject\<close> (src/execution.go): a string map as a JSON column.\<close>

definition json_object :: "string smap \<Rightarrow> json" where
  "json_object m = JObj (map (\<lambda>k. (k, JStr (the (map_of m k)))) (sorted_keys m))"

definition parse_json_object :: "json \<Rightarrow> string smap" where
  "parse_json_object v =
    (case v of JObj kvs \<Rightarrow> map (\<lambda>(k, e). (k, case e of JStr t \<Rightarrow> t | _ \<Rightarrow> [])) (rev kvs) | _ \<Rightarrow> [])"

section \<open>The statements\<close>

definition create_execution_plan :: "plan_row \<Rightarrow> store \<Rightarrow> store \<times> (store_error + nat)" where
  "create_execution_plan p s =
    (if trim (pl_task p) = [] then (s, Inl MissingTaskID)
     else (case db_call s of
             (s', Some e) \<Rightarrow> (s', Inl e)
           | (s', None) \<Rightarrow>
               if pl_reply p \<noteq> 0 \<and> pl_reply p \<in> pl_reply ` set (st_plans s')
               then (s', Inl UniqueViolation)
               else (let i = Suc (length (st_plans s'))
                     in (s'\<lparr>st_plans := st_plans s' @ [p\<lparr>pl_id := i\<rparr>]\<rparr>, Inr i))))"

fun insert_step_plans :: "step_plan_row list \<Rightarrow> store \<Rightarrow> store \<times> store_error option" where
  "insert_step_plans [] s = (s, None)"
| "insert_step_plans (r # rs) s =
    (case db_call s of
       (s', Some e) \<Rightarrow> (s', Some e)
     | (s', None) \<Rightarrow>
         if (sp_plan r, sp_idx r) \<in> (\<lambda>x. (sp_plan x, sp_idx x)) ` set (st_step_plans s')
         then (s', Some UniqueViolation)
         else insert_step_plans rs
           (s'\<lparr>st_step_plans := st_step_plans s' @ [r\<lparr>sp_id := Suc (length (st_step_plans s'))\<rparr>]\<rparr>))"

text \<open>
  One transaction: begin, prepare, the inserts, commit; a rollback leaves the table as it was
  (the statements that were sent are gone from the outcomes).
\<close>

definition append_execution_step_plans :: "step_plan_row list \<Rightarrow> store \<Rightarrow> store \<times> store_error option" where
  "append_execution_step_plans rs s =
    (if rs = [] then (s, None)
     else (case db_call s of
       (s1, Some e) \<Rightarrow> (s1, Some e)
     | (s1, None) \<Rightarrow>
      (case db_call s1 of
         (s2, Some e) \<Rightarrow> (s2, Some e)
       | (s2, None) \<Rightarrow>
        (case insert_step_plans rs s2 of
           (s3, Some e) \<Rightarrow> (s3\<lparr>st_step_plans := st_step_plans s\<rparr>, Some e)
         | (s3, None) \<Rightarrow>
          (case db_call s3 of
             (s4, Some e) \<Rightarrow> (s4\<lparr>st_step_plans := st_step_plans s\<rparr>, Some e)
           | (s4, None) \<Rightarrow> (s4, None))))))"

definition append_execution_step :: "step_row \<Rightarrow> store \<Rightarrow> store \<times> (store_error + nat)" where
  "append_execution_step r s =
    (case db_call s of
       (s', Some e) \<Rightarrow> (s', Inl e)
     | (s', None) \<Rightarrow>
         (let i = Suc (length (st_steps s'))
          in (s'\<lparr>st_steps := st_steps s' @ [r\<lparr>es_id := i\<rparr>]\<rparr>, Inr i)))"

definition append_execution_step_interaction :: "interaction_row \<Rightarrow> store \<Rightarrow> store \<times> store_error option" where
  "append_execution_step_interaction r s =
    (case db_call s of
       (s', Some e) \<Rightarrow> (s', Some e)
     | (s', None) \<Rightarrow>
         if (in_step r, in_seq r) \<in> (\<lambda>x. (in_step x, in_seq x)) ` set (st_interactions s')
         then (s', Some UniqueViolation)
         else (s'\<lparr>st_interactions := st_interactions s' @ [r]\<rparr>, None))"

definition append_completion_contract :: "contract_row \<Rightarrow> store \<Rightarrow> store \<times> store_error option" where
  "append_completion_contract r s =
    (if trim (cc_task r) = [] then (s, Some MissingTaskID)
     else (case db_call s of
             (s', Some e) \<Rightarrow> (s', Some e)
           | (s', None) \<Rightarrow>
               if (cc_task r, cc_idx r) \<in> (\<lambda>x. (cc_task x, cc_idx x)) ` set (st_contracts s')
               then (s', None)
               else (s'\<lparr>st_contracts := st_contracts s' @
                        [r\<lparr>cc_criterion := or_json_object_text (Some (cc_criterion r))\<rparr>]\<rparr>, None)))"

definition append_verification :: "verification \<Rightarrow> store \<Rightarrow> store \<times> (store_error + nat)" where
  "append_verification v s =
    (case db_call s of
       (s', Some e) \<Rightarrow> (s', Inl e)
     | (s', None) \<Rightarrow>
         (let i = Suc (length (st_verdicts s'))
          in (s'\<lparr>st_verdicts := st_verdicts s' @
               [v\<lparr>vf_id := i, vf_evidence := or_json_object_text (Some (vf_evidence v))\<rparr>]\<rparr>, Inr i)))"

definition query :: "(store \<Rightarrow> 'a) \<Rightarrow> store \<Rightarrow> store \<times> (store_error + 'a)" where
  "query q s = (case db_call s of (s', Some e) \<Rightarrow> (s', Inl e) | (s', None) \<Rightarrow> (s', Inr (q s')))"

definition task_input_message_of :: "string \<Rightarrow> store \<Rightarrow> nat option" where
  "task_input_message_of t s =
    map_option pl_task_input (find (\<lambda>p. pl_task p = t \<and> pl_task_input p \<noteq> 0) (st_plans s))"

definition plans_of :: "string \<Rightarrow> store \<Rightarrow> plan_row list" where
  "plans_of t s = filter (\<lambda>p. pl_task p = t) (st_plans s)"

definition step_plan_of :: "nat \<Rightarrow> store \<Rightarrow> step_plan_row list" where
  "step_plan_of p s = sort_key sp_idx (filter (\<lambda>r. sp_plan r = p) (st_step_plans s))"

definition steps_of :: "nat \<Rightarrow> store \<Rightarrow> step_row list" where
  "steps_of p s = sort_key es_idx (filter (\<lambda>r. es_plan r = p) (st_steps s))"

definition interactions_of :: "nat \<Rightarrow> store \<Rightarrow> interaction_row list" where
  "interactions_of i s = sort_key in_seq (filter (\<lambda>r. in_step r = i) (st_interactions s))"

definition contract_of :: "string \<Rightarrow> store \<Rightarrow> contract_row list" where
  "contract_of t s = sort_key cc_idx (filter (\<lambda>r. cc_task r = t) (st_contracts s))"

definition verdicts_of :: "string \<Rightarrow> store \<Rightarrow> verification list" where
  "verdicts_of t s = filter (\<lambda>r. vf_task r = t) (st_verdicts s)"

definition task_input_message_id :: "string \<Rightarrow> store \<Rightarrow> store \<times> (store_error + nat option)" where
  "task_input_message_id t = query (task_input_message_of t)"

definition list_execution_plans :: "string \<Rightarrow> store \<Rightarrow> store \<times> (store_error + plan_row list)" where
  "list_execution_plans t = query (plans_of t)"

definition list_execution_step_plan :: "nat \<Rightarrow> store \<Rightarrow> store \<times> (store_error + step_plan_row list)" where
  "list_execution_step_plan p = query (step_plan_of p)"

definition list_execution_steps :: "nat \<Rightarrow> store \<Rightarrow> store \<times> (store_error + step_row list)" where
  "list_execution_steps p = query (steps_of p)"

definition list_execution_step_interactions :: "nat \<Rightarrow> store \<Rightarrow> store \<times> (store_error + interaction_row list)" where
  "list_execution_step_interactions i = query (interactions_of i)"

definition list_completion_contract :: "string \<Rightarrow> store \<Rightarrow> store \<times> (store_error + contract_row list)" where
  "list_completion_contract t = query (contract_of t)"

definition list_verifications :: "string \<Rightarrow> store \<Rightarrow> store \<times> (store_error + verification list)" where
  "list_verifications t = query (verdicts_of t)"

text \<open>\<open>ExecutionPlanOutcome\<close>: three queries; the flag says whether a step ran.\<close>

definition execution_plan_outcome :: "nat \<Rightarrow> store \<Rightarrow> store \<times> (store_error + plan_outcome \<times> bool)" where
  "execution_plan_outcome p s =
    (case query (\<lambda>x. length (filter (\<lambda>r. sp_plan r = p) (st_step_plans x))) s of
       (s1, Inl e) \<Rightarrow> (s1, Inl e)
     | (s1, Inr planned) \<Rightarrow>
        (case query (\<lambda>x. length (filter (\<lambda>r. es_plan r = p) (st_steps x))) s1 of
           (s2, Inl e) \<Rightarrow> (s2, Inl e)
         | (s2, Inr executed) \<Rightarrow>
            (case query (steps_of p) s2 of
               (s3, Inl e) \<Rightarrow> (s3, Inl e)
             | (s3, Inr rows) \<Rightarrow>
                 (s3, Inr (if rows = []
                    then (\<lparr>po_plan = p, po_step = 0, po_status = None, po_error = None,
                           po_planned = planned, po_executed = executed\<rparr>, False)
                    else (\<lparr>po_plan = p, po_step = es_id (last rows), po_status = Some (es_status (last rows)),
                           po_error = es_error (last rows), po_planned = planned, po_executed = executed\<rparr>, True))))))"

section \<open>The runtime's writers (src/store.go)\<close>

text \<open>The active store is nil or not; only the plan's failure is returned, the rest is best effort.\<close>

definition save_execution_plan ::
  "plan_row \<Rightarrow> step_plan_row list \<Rightarrow> store option
     \<Rightarrow> store option \<times> nat \<times> step_plan_row list \<times> store_error option" where
  "save_execution_plan p steps st =
    (case st of None \<Rightarrow> (None, 0, steps, None)
     | Some s \<Rightarrow>
        (case create_execution_plan p s of
           (s1, Inl e) \<Rightarrow> (Some s1, 0, [], Some e)
         | (s1, Inr i) \<Rightarrow>
            (case append_execution_step_plans (map (\<lambda>r. r\<lparr>sp_plan := i\<rparr>) steps) s1 of
               (s2, Some e) \<Rightarrow> (Some s2, i, [], Some e)
             | (s2, None) \<Rightarrow>
                (case list_execution_step_plan i s2 of
                   (s3, Inl e) \<Rightarrow> (Some s3, i, [], Some e)
                 | (s3, Inr saved) \<Rightarrow> (Some s3, i, saved, None)))))"

definition save_execution_step :: "step_row \<Rightarrow> store option \<Rightarrow> store option \<times> nat" where
  "save_execution_step r st =
    (case st of None \<Rightarrow> (None, 0)
     | Some s \<Rightarrow> (case append_execution_step r s of (s', Inl e) \<Rightarrow> (Some s', 0) | (s', Inr i) \<Rightarrow> (Some s', i)))"

definition save_execution_step_interaction :: "interaction_row \<Rightarrow> store option \<Rightarrow> store option" where
  "save_execution_step_interaction r st = map_option (\<lambda>s. fst (append_execution_step_interaction r s)) st"

definition save_verification :: "verification \<Rightarrow> store option \<Rightarrow> store option" where
  "save_verification v st = map_option (\<lambda>s. fst (append_verification v s)) st"

definition task_input_message_lookup :: "string \<Rightarrow> store option \<Rightarrow> store option \<times> nat option" where
  "task_input_message_lookup t st =
    (case st of None \<Rightarrow> (None, None)
     | Some s \<Rightarrow> (case task_input_message_id t s of
                    (s', Inl e) \<Rightarrow> (Some s', None)
                  | (s', Inr r) \<Rightarrow> (Some s', r)))"

section \<open>What the statements keep\<close>

text \<open>No statement fails any more.\<close>

definition quiet :: "store \<Rightarrow> bool" where
  "quiet s \<longleftrightarrow> st_faults s = []"

lemma db_call_quiet [simp]: "quiet s \<Longrightarrow> db_call s = (s, None)"
  by (simp add: db_call_def quiet_def)

lemma query_quiet [simp]: "quiet s \<Longrightarrow> query q s = (s, Inr (q s))"
  by (simp add: query_def)

lemma db_call_frame:
  assumes "db_call s = (s', r)"
  shows "\<exists>fs. s' = s\<lparr>st_faults := fs\<rparr>"
proof (cases "st_faults s")
  case Nil
  then have "s' = s\<lparr>st_faults := st_faults s\<rparr>" using assms by (simp add: db_call_def)
  then show ?thesis by blast
next
  case (Cons f fs)
  then have "s' = s\<lparr>st_faults := fs\<rparr>" using assms by (auto simp: db_call_def)
  then show ?thesis by blast
qed

lemma query_frame: "query q s = (s', r) \<Longrightarrow> \<exists>fs. s' = s\<lparr>st_faults := fs\<rparr>"
  by (auto simp: query_def split: prod.splits option.splits dest: db_call_frame)

text \<open>Row ids are positions, and the unique keys of the schema hold.\<close>

definition numbered :: "('r \<Rightarrow> nat) \<Rightarrow> 'r list \<Rightarrow> bool" where
  "numbered i rs \<longleftrightarrow> map i rs = [1..<Suc (length rs)]"

definition store_ok :: "store \<Rightarrow> bool" where
  "store_ok s \<longleftrightarrow>
     numbered pl_id (st_plans s) \<and> numbered sp_id (st_step_plans s) \<and>
     numbered es_id (st_steps s) \<and> numbered vf_id (st_verdicts s) \<and>
     distinct (filter (\<lambda>i. i \<noteq> 0) (map pl_reply (st_plans s))) \<and>
     distinct (map (\<lambda>r. (sp_plan r, sp_idx r)) (st_step_plans s)) \<and>
     distinct (map (\<lambda>r. (in_step r, in_seq r)) (st_interactions s)) \<and>
     distinct (map (\<lambda>r. (cc_task r, cc_idx r)) (st_contracts s))"

lemma numbered_snoc [simp]: "numbered i (rs @ [r]) \<longleftrightarrow> numbered i rs \<and> i r = Suc (length rs)"
  by (auto simp: numbered_def)

lemma numbered_Nil [simp]: "numbered i []"
  by (simp add: numbered_def)

lemma empty_store_ok: "store_ok empty_store"
  by (simp add: store_ok_def empty_store_def)

lemma store_ok_faults [simp]: "store_ok (s\<lparr>st_faults := fs\<rparr>) \<longleftrightarrow> store_ok s"
  by (simp add: store_ok_def)

lemma db_call_ok: "db_call s = (s', r) \<Longrightarrow> store_ok s' \<longleftrightarrow> store_ok s"
  using db_call_frame [of s s' r] by auto

lemma query_ok: "query q s = (s', r) \<Longrightarrow> store_ok s' \<longleftrightarrow> store_ok s"
  using query_frame [of q s s' r] by auto

text \<open>What a statement appends keeps the store well formed.\<close>

lemma store_ok_plan: "store_ok s \<Longrightarrow> (pl_reply p \<noteq> 0 \<Longrightarrow> pl_reply p \<notin> pl_reply ` set (st_plans s)) \<Longrightarrow>
    store_ok (s\<lparr>st_plans := st_plans s @ [p\<lparr>pl_id := Suc (length (st_plans s))\<rparr>]\<rparr>)"
  by (simp add: store_ok_def)

lemma store_ok_step: "store_ok s \<Longrightarrow> store_ok (s\<lparr>st_steps := st_steps s @ [r\<lparr>es_id := Suc (length (st_steps s))\<rparr>]\<rparr>)"
  by (simp add: store_ok_def)

lemma store_ok_interaction: "store_ok s \<Longrightarrow> (in_step r, in_seq r) \<notin> (\<lambda>x. (in_step x, in_seq x)) ` set (st_interactions s) \<Longrightarrow>
    store_ok (s\<lparr>st_interactions := st_interactions s @ [r]\<rparr>)"
  by (simp add: store_ok_def)

lemma store_ok_contract: "store_ok s \<Longrightarrow> (cc_task r, cc_idx r) \<notin> (\<lambda>x. (cc_task x, cc_idx x)) ` set (st_contracts s) \<Longrightarrow>
    store_ok (s\<lparr>st_contracts := st_contracts s @ [r\<lparr>cc_criterion := c\<rparr>]\<rparr>)"
  by (simp add: store_ok_def)

lemma store_ok_verdict: "store_ok s \<Longrightarrow>
    store_ok (s\<lparr>st_verdicts := st_verdicts s @ [v\<lparr>vf_id := Suc (length (st_verdicts s)), vf_evidence := e\<rparr>]\<rparr>)"
  by (simp add: store_ok_def)

lemma create_plan_ok:
  assumes "store_ok s" "create_execution_plan p s = (s', r)"
  shows "store_ok s'"
proof -
  obtain s1 e where d: "db_call s = (s1, e)" by fastforce
  with assms(1) have "store_ok s1" by (simp add: db_call_ok)
  with assms d show ?thesis
    by (auto simp: create_execution_plan_def Let_def intro: store_ok_plan split: if_splits option.splits)
qed

lemma insert_step_plans_ok: "store_ok s \<Longrightarrow> insert_step_plans rs s = (s', r) \<Longrightarrow> store_ok s'"
proof (induction rs s rule: insert_step_plans.induct)
  case (2 row rs s)
  obtain s1 e where d: "db_call s = (s1, e)" by fastforce
  have ok1: "store_ok s1" using db_call_ok [OF d] "2.prems"(1) by simp
  show ?case
  proof (cases "e = None \<and> (sp_plan row, sp_idx row) \<notin> (\<lambda>x. (sp_plan x, sp_idx x)) ` set (st_step_plans s1)")
    case True
    have "store_ok (s1\<lparr>st_step_plans := st_step_plans s1 @ [row\<lparr>sp_id := Suc (length (st_step_plans s1))\<rparr>]\<rparr>)"
      using ok1 True by (simp add: store_ok_def)
    with "2.IH" [OF d [symmetric]] "2.prems"(2) d True show ?thesis by simp
  next
    case False
    with "2.prems"(2) d ok1 show ?thesis by (auto split: option.splits)
  qed
qed simp

lemma insert_step_plans_frame:
  "insert_step_plans rs s = (s', r) \<Longrightarrow> \<exists>fs sps. s' = s\<lparr>st_faults := fs, st_step_plans := sps\<rparr>"
proof (induction rs s rule: insert_step_plans.induct)
  case (1 s)
  then have "s' = s\<lparr>st_faults := st_faults s, st_step_plans := st_step_plans s\<rparr>" by simp
  then show ?case by blast
next
  case (2 row rs s)
  obtain s1 e where d: "db_call s = (s1, e)" by fastforce
  then obtain fs where s1: "s1 = s\<lparr>st_faults := fs\<rparr>" using db_call_frame by blast
  show ?case
  proof (cases "e = None \<and> (sp_plan row, sp_idx row) \<notin> (\<lambda>x. (sp_plan x, sp_idx x)) ` set (st_step_plans s1)")
    case True
    with "2.IH" [OF d [symmetric]] "2.prems" d s1 show ?thesis by fastforce
  next
    case False
    with "2.prems" d have "s' = s1" by (auto split: option.splits)
    with s1 have "s' = s\<lparr>st_faults := fs, st_step_plans := st_step_plans s\<rparr>" by simp
    then show ?thesis by blast
  qed
qed

end
