(* ===== verification/Store_Laws.thy ===== *)
theory Store_Laws
  imports Exec_Store
begin

text \<open>
  What the store promises the runtime: every statement keeps the ids and the unique keys, a
  plan's steps are written all or not at all and read back in order, a JSON column returns the
  string map it was given, and a contract slot keeps the criterion that was written first.
  The last one is the contract of a locale, interpreted on the modelled table.
\<close>

section \<open>Every writer keeps the keys\<close>

definition same_but_step_plans :: "store \<Rightarrow> store \<Rightarrow> bool" where
  "same_but_step_plans s s' \<longleftrightarrow>
     st_plans s' = st_plans s \<and> st_steps s' = st_steps s \<and> st_interactions s' = st_interactions s \<and>
     st_contracts s' = st_contracts s \<and> st_verdicts s' = st_verdicts s"

lemma same_but_step_plans_refl [simp]: "same_but_step_plans s s"
  by (simp add: same_but_step_plans_def)

lemma same_but_step_plans_trans:
  "same_but_step_plans a b \<Longrightarrow> same_but_step_plans b c \<Longrightarrow> same_but_step_plans a c"
  by (simp add: same_but_step_plans_def)

lemma same_but_step_plans_upd [simp]:
  "same_but_step_plans a (b\<lparr>st_step_plans := x\<rparr>) \<longleftrightarrow> same_but_step_plans a b"
  by (simp add: same_but_step_plans_def)

lemma db_call_same: "db_call s = (s', r) \<Longrightarrow> same_but_step_plans s s'"
  by (auto simp: same_but_step_plans_def dest: db_call_frame)

lemma insert_step_plans_same: "insert_step_plans rs s = (s', r) \<Longrightarrow> same_but_step_plans s s'"
  by (auto simp: same_but_step_plans_def dest: insert_step_plans_frame)

lemma append_step_plans_frame:
  assumes "append_execution_step_plans rs s = (s', r)"
  shows "same_but_step_plans s s'"
proof -
  obtain s1 e1 where d1: "db_call s = (s1, e1)" by fastforce
  obtain s2 e2 where d2: "db_call s1 = (s2, e2)" by fastforce
  obtain s3 e3 where d3: "insert_step_plans rs s2 = (s3, e3)" by fastforce
  obtain s4 e4 where d4: "db_call s3 = (s4, e4)" by fastforce
  have f1: "same_but_step_plans s s1" using db_call_same [OF d1] .
  have f2: "same_but_step_plans s s2" using same_but_step_plans_trans [OF f1 db_call_same [OF d2]] .
  have f3: "same_but_step_plans s s3" using same_but_step_plans_trans [OF f2 insert_step_plans_same [OF d3]] .
  have f4: "same_but_step_plans s s4" using same_but_step_plans_trans [OF f3 db_call_same [OF d4]] .
  show ?thesis using assms d1 d2 d3 d4 f1 f2 f3 f4
    by (auto simp: append_execution_step_plans_def split: if_splits option.splits)
qed

lemma append_step_plans_fail:
  assumes "append_execution_step_plans rs s = (s', Some e)"
  shows "st_step_plans s' = st_step_plans s"
proof -
  have keep: "db_call x = (x', r) \<Longrightarrow> st_step_plans x' = st_step_plans x" for x x' r
    using db_call_frame [of x x' r] by auto
  from assms keep show ?thesis
    by (auto simp: append_execution_step_plans_def split: if_splits option.splits prod.splits)
qed

lemma append_step_plans_ok:
  assumes ok: "store_ok s" and a: "append_execution_step_plans rs s = (s', r)"
  shows "store_ok s'"
proof (cases r)
  case (Some e)
  then have "st_step_plans s' = st_step_plans s" using append_step_plans_fail a by simp
  with ok append_step_plans_frame [OF a] show ?thesis
    by (simp add: store_ok_def same_but_step_plans_def)
next
  case None
  show ?thesis
  proof (cases "rs = []")
    case True
    with a None ok show ?thesis by (simp add: append_execution_step_plans_def)
  next
    case False
    obtain s1 s2 s3 where d: "db_call s = (s1, None)" "db_call s1 = (s2, None)"
      "insert_step_plans rs s2 = (s3, None)" "db_call s3 = (s', None)"
      using a None False by (auto simp: append_execution_step_plans_def split: option.splits prod.splits)
    have "store_ok s2" using ok db_call_ok d by blast
    then have "store_ok s3" using insert_step_plans_ok d(3) by blast
    then show ?thesis using db_call_ok d(4) by blast
  qed
qed

lemma append_step_ok:
  assumes "store_ok s" "append_execution_step x s = (s', r)"
  shows "store_ok s'"
proof -
  obtain s1 e where d: "db_call s = (s1, e)" by fastforce
  with assms(1) have "store_ok s1" by (simp add: db_call_ok)
  with assms d show ?thesis
    by (auto simp: append_execution_step_def Let_def intro: store_ok_step split: if_splits option.splits)
qed

lemma append_interaction_ok:
  assumes "store_ok s" "append_execution_step_interaction x s = (s', r)"
  shows "store_ok s'"
proof -
  obtain s1 e where d: "db_call s = (s1, e)" by fastforce
  with assms(1) have "store_ok s1" by (simp add: db_call_ok)
  with assms d show ?thesis
    by (auto simp: append_execution_step_interaction_def Let_def intro: store_ok_interaction split: if_splits option.splits)
qed

lemma append_contract_ok:
  assumes "store_ok s" "append_completion_contract x s = (s', r)"
  shows "store_ok s'"
proof -
  obtain s1 e where d: "db_call s = (s1, e)" by fastforce
  with assms(1) have "store_ok s1" by (simp add: db_call_ok)
  with assms d show ?thesis
    by (auto simp: append_completion_contract_def Let_def intro: store_ok_contract split: if_splits option.splits)
qed

lemma append_verification_ok:
  assumes "store_ok s" "append_verification x s = (s', r)"
  shows "store_ok s'"
proof -
  obtain s1 e where d: "db_call s = (s1, e)" by fastforce
  with assms(1) have "store_ok s1" by (simp add: db_call_ok)
  with assms d show ?thesis
    by (auto simp: append_verification_def Let_def intro: store_ok_verdict split: if_splits option.splits)
qed

lemmas store_writers_ok = create_plan_ok append_step_plans_ok append_step_ok append_interaction_ok
  append_contract_ok append_verification_ok

section \<open>JSON columns\<close>

lemma json_object_round_trip: "map_of (parse_json_object (json_object m)) k = map_of m k"
proof -
  have e: "parse_json_object (json_object m) = map (\<lambda>k. (k, the (map_of m k))) (rev (sorted_keys m))"
    by (simp add: parse_json_object_def json_object_def rev_map)
  have "set (rev (sorted_keys m)) = dom (map_of m)" by simp
  then show ?thesis unfolding e by (simp only: map_of_map_keys)
qed

section \<open>A plan is written before its steps run\<close>

lemma insert_step_plans_quiet:
  assumes "quiet s"
    and "distinct (map (\<lambda>r. (sp_plan r, sp_idx r)) rs)"
    and "(\<lambda>r. (sp_plan r, sp_idx r)) ` set rs \<inter> (\<lambda>r. (sp_plan r, sp_idx r)) ` set (st_step_plans s) = {}"
  shows "\<exists>rs'. insert_step_plans rs s = (s\<lparr>st_step_plans := st_step_plans s @ rs'\<rparr>, None) \<and>
    length rs' = length rs \<and>
    (\<forall>i<length rs. rs' ! i = (rs ! i)\<lparr>sp_id := Suc (length (st_step_plans s) + i)\<rparr>)"
  using assms
proof (induction rs arbitrary: s)
  case (Cons r rs)
  let ?r = "r\<lparr>sp_id := Suc (length (st_step_plans s))\<rparr>"
  let ?s = "s\<lparr>st_step_plans := st_step_plans s @ [?r]\<rparr>"
  have "quiet ?s" using Cons.prems(1) by (simp add: quiet_def)
  moreover have "(\<lambda>r. (sp_plan r, sp_idx r)) ` set rs \<inter> (\<lambda>r. (sp_plan r, sp_idx r)) ` set (st_step_plans ?s) = {}"
    using Cons.prems(2,3) by auto
  ultimately obtain rs' where ih: "insert_step_plans rs ?s = (?s\<lparr>st_step_plans := st_step_plans ?s @ rs'\<rparr>, None)"
    "length rs' = length rs"
    "\<forall>i<length rs. rs' ! i = (rs ! i)\<lparr>sp_id := Suc (length (st_step_plans ?s) + i)\<rparr>"
    using Cons.IH [of ?s] Cons.prems(2) by auto
  have fresh: "(sp_plan r, sp_idx r) \<notin> (\<lambda>x. (sp_plan x, sp_idx x)) ` set (st_step_plans s)"
    using Cons.prems(3) by auto
  have "insert_step_plans (r # rs) s = insert_step_plans rs ?s"
    using Cons.prems(1) fresh by simp
  then have "insert_step_plans (r # rs) s = (s\<lparr>st_step_plans := st_step_plans s @ ?r # rs'\<rparr>, None)"
    using ih(1) by simp
  moreover have "\<forall>i<length (r # rs). (?r # rs') ! i = ((r # rs) ! i)\<lparr>sp_id := Suc (length (st_step_plans s) + i)\<rparr>"
    using ih(3) by (auto simp: nth_Cons split: nat.splits)
  ultimately show ?case using ih(2) by (intro exI [of _ "?r # rs'"]) simp
qed (auto simp: quiet_def intro!: exI [of _ "[]"])

text \<open>The steps of a plan as the table keeps them: the given rows, numbered from \<open>n\<close>.\<close>

definition stored_steps :: "nat \<Rightarrow> nat \<Rightarrow> step_plan_row list \<Rightarrow> step_plan_row list" where
  "stored_steps n p rs = map (\<lambda>(i, r). r\<lparr>sp_plan := p, sp_id := Suc (n + i)\<rparr>) (enumerate 0 rs)"

lemma length_stored_steps [simp]: "length (stored_steps n p rs) = length rs"
  by (simp add: stored_steps_def)

lemma nth_stored_steps [simp]:
  "i < length rs \<Longrightarrow> stored_steps n p rs ! i = (rs ! i)\<lparr>sp_plan := p, sp_id := Suc (n + i)\<rparr>"
  by (simp add: stored_steps_def nth_enumerate_eq)

lemma stored_steps_idx [simp]: "map sp_idx (stored_steps n p rs) = map sp_idx rs"
  by (rule nth_equalityI) simp_all

lemma stored_steps_plan: "r \<in> set (stored_steps n p rs) \<Longrightarrow> sp_plan r = p"
  by (auto simp: in_set_conv_nth)

lemma save_plan_quiet:
  assumes q: "quiet s" and task: "trim (pl_task p) \<noteq> []"
    and reply: "pl_reply p = 0 \<or> pl_reply p \<notin> pl_reply ` set (st_plans s)"
    and new: "\<forall>r\<in>set (st_step_plans s). sp_plan r \<le> length (st_plans s)"
    and idx: "sorted (map sp_idx rs)" "distinct (map sp_idx rs)"
  shows "save_execution_plan p rs (Some s) =
    (let i = Suc (length (st_plans s)); sps = stored_steps (length (st_step_plans s)) i rs
     in (Some (s\<lparr>st_plans := st_plans s @ [p\<lparr>pl_id := i\<rparr>], st_step_plans := st_step_plans s @ sps\<rparr>),
         i, sps, None))"
proof -
  define i where "i = Suc (length (st_plans s))"
  define s1 where "s1 = s\<lparr>st_plans := st_plans s @ [p\<lparr>pl_id := i\<rparr>]\<rparr>"
  define sps where "sps = stored_steps (length (st_step_plans s)) i rs"
  define rs1 where "rs1 = map (\<lambda>r. r\<lparr>sp_plan := i\<rparr>) rs"
  define s2 where "s2 = s1\<lparr>st_step_plans := st_step_plans s @ sps\<rparr>"
  have q1: "quiet s1" and q2: "quiet s2" using q by (simp_all add: quiet_def s1_def s2_def)
  have create: "create_execution_plan p s = (s1, Inr i)"
    using q task reply by (auto simp: create_execution_plan_def s1_def i_def Let_def)
  have no_i: "\<forall>r\<in>set (st_step_plans s). sp_plan r \<noteq> i" using new by (auto simp: i_def)
  have append: "append_execution_step_plans rs1 s1 = (s2, None)"
  proof (cases "rs = []")
    case True
    then show ?thesis by (simp add: append_execution_step_plans_def rs1_def s2_def sps_def stored_steps_def s1_def)
  next
    case False
    have "map (\<lambda>r. (sp_plan r, sp_idx r)) rs1 = map (Pair i) (map sp_idx rs)"
      by (simp add: rs1_def)
    moreover have "distinct (map (Pair i) (map sp_idx rs))"
      using idx(2) by (subst distinct_map) (simp add: inj_on_def)
    ultimately have "distinct (map (\<lambda>r. (sp_plan r, sp_idx r)) rs1)" by (simp only:)
    moreover have "(\<lambda>r. (sp_plan r, sp_idx r)) ` set rs1 \<inter> (\<lambda>r. (sp_plan r, sp_idx r)) ` set (st_step_plans s1) = {}"
      using no_i by (auto simp: rs1_def s1_def)
    ultimately obtain rs' where ins: "insert_step_plans rs1 s1 = (s1\<lparr>st_step_plans := st_step_plans s1 @ rs'\<rparr>, None)"
      and rs': "length rs' = length rs1"
        "\<forall>k<length rs1. rs' ! k = (rs1 ! k)\<lparr>sp_id := Suc (length (st_step_plans s1) + k)\<rparr>"
      using insert_step_plans_quiet [OF q1] by blast
    have "rs' = sps" by (rule nth_equalityI) (use rs' in \<open>auto simp: rs1_def sps_def s1_def\<close>)
    with ins have "insert_step_plans rs1 s1 = (s2, None)" by (simp add: s2_def s1_def)
    then show ?thesis using q1 q2 False by (simp add: append_execution_step_plans_def rs1_def)
  qed
  have "filter (\<lambda>r. sp_plan r = i) (st_step_plans s2) = sps"
    using no_i by (auto simp: s2_def sps_def filter_empty_conv dest: stored_steps_plan intro!: filter_True)
  then have "step_plan_of i s2 = sps"
    using idx(1) by (simp add: step_plan_of_def sort_key_id_if_sorted sps_def)
  then have "list_execution_step_plan i s2 = (s2, Inr sps)"
    using q2 by (simp add: list_execution_step_plan_def)
  then show ?thesis using create append
    by (simp add: save_execution_plan_def Let_def rs1_def [symmetric])
      (simp add: s2_def s1_def sps_def i_def)
qed

section \<open>A contract slot keeps its first criterion\<close>

text \<open>
  The pin contract: writing a row into a taken slot changes no row, writing it into a free one
  adds it after the others, and only a failing statement or an unusable row writes nothing.
\<close>

locale pin_table =
  fixes pin :: "'row \<Rightarrow> 's \<Rightarrow> 's \<times> 'e option"
    and pinned_rows :: "'s \<Rightarrow> 'row list"
    and as_stored :: "'row \<Rightarrow> 'row"
    and slot :: "'row \<Rightarrow> 'slot"
    and usable :: "'row \<Rightarrow> bool"
    and calm :: "'s \<Rightarrow> bool"
  assumes pin_taken: "slot r \<in> slot ` set (pinned_rows s) \<Longrightarrow> pinned_rows (fst (pin r s)) = pinned_rows s"
    and pin_adds: "pinned_rows (fst (pin r s)) = pinned_rows s \<or> pinned_rows (fst (pin r s)) = pinned_rows s @ [as_stored r]"
    and pin_free: "calm s \<Longrightarrow> usable r \<Longrightarrow> slot r \<notin> slot ` set (pinned_rows s) \<Longrightarrow>
       pinned_rows (fst (pin r s)) = pinned_rows s @ [as_stored r]"
    and pin_calm: "calm s \<Longrightarrow> calm (fst (pin r s))"
    and slot_stored: "slot (as_stored r) = slot r"
begin

definition pin_all :: "'row list \<Rightarrow> 's \<Rightarrow> 's" where
  "pin_all rs s = foldl (\<lambda>s r. fst (pin r s)) s rs"

lemma pin_all_Nil: "pin_all [] s = s" and pin_all_Cons: "pin_all (r # rs) s = pin_all rs (fst (pin r s))"
  by (simp_all add: pin_all_def)

lemma pin_all_keeps: "\<exists>extra. pinned_rows (pin_all rs s) = pinned_rows s @ extra"
proof (induction rs arbitrary: s)
  case (Cons r rs)
  from Cons.IH [of "fst (pin r s)"] pin_adds [of r s] show ?case by (auto simp: pin_all_Cons)
qed (simp add: pin_all_Nil)

lemma pin_all_taken:
  "slot ` set rs \<subseteq> slot ` set (pinned_rows s) \<Longrightarrow> pinned_rows (pin_all rs s) = pinned_rows s"
proof (induction rs arbitrary: s)
  case (Cons r rs)
  then have "pinned_rows (fst (pin r s)) = pinned_rows s" by (auto intro: pin_taken)
  with Cons show ?case by (simp add: pin_all_Cons)
qed (simp add: pin_all_Nil)

lemma pin_all_fresh:
  "calm s \<Longrightarrow> \<forall>r\<in>set rs. usable r \<Longrightarrow> distinct (map slot rs) \<Longrightarrow>
     slot ` set rs \<inter> slot ` set (pinned_rows s) = {} \<Longrightarrow>
     pinned_rows (pin_all rs s) = pinned_rows s @ map as_stored rs"
proof (induction rs arbitrary: s)
  case (Cons r rs)
  then have one: "pinned_rows (fst (pin r s)) = pinned_rows s @ [as_stored r]" by (intro pin_free) auto
  then have "pinned_rows (pin_all rs (fst (pin r s))) = (pinned_rows s @ [as_stored r]) @ map as_stored rs"
    using Cons.prems by (subst Cons.IH) (auto simp: pin_calm slot_stored)
  then show ?case by (simp add: pin_all_Cons)
qed (simp add: pin_all_Nil)

lemma pin_all_slots:
  "calm s \<Longrightarrow> \<forall>r\<in>set rs. usable r \<Longrightarrow> slot ` set rs \<subseteq> slot ` set (pinned_rows (pin_all rs s))"
proof (induction rs arbitrary: s)
  case (Cons r rs)
  let ?s = "fst (pin r s)"
  have "slot r \<in> slot ` set (pinned_rows ?s)"
  proof (cases "slot r \<in> slot ` set (pinned_rows s)")
    case True
    then show ?thesis by (simp add: pin_taken)
  next
    case False
    with Cons.prems show ?thesis by (simp add: pin_free slot_stored)
  qed
  moreover from pin_all_keeps [of rs ?s] have "set (pinned_rows ?s) \<subseteq> set (pinned_rows (pin_all rs ?s))" by auto
  ultimately have "slot r \<in> slot ` set (pinned_rows (pin_all rs ?s))" by blast
  with Cons show ?case by (simp add: pin_all_Cons pin_calm)
qed simp

text \<open>Pinning a contract twice is pinning it once.\<close>

lemma pin_all_again:
  "calm s \<Longrightarrow> \<forall>r\<in>set rs. usable r \<Longrightarrow> map slot rs' = map slot rs \<Longrightarrow>
     pinned_rows (pin_all rs' (pin_all rs s)) = pinned_rows (pin_all rs s)"
proof (rule pin_all_taken)
  assume "calm s" "\<forall>r\<in>set rs. usable r" "map slot rs' = map slot rs"
  moreover from this(3) have "slot ` set rs' = slot ` set rs" by (metis set_map)
  ultimately show "slot ` set rs' \<subseteq> slot ` set (pinned_rows (pin_all rs s))"
    using pin_all_slots [of s rs] by simp
qed

end

definition stored_criterion :: "contract_row \<Rightarrow> contract_row" where
  "stored_criterion r = r\<lparr>cc_criterion := or_json_object_text (Some (cc_criterion r))\<rparr>"

definition contract_slot :: "contract_row \<Rightarrow> string \<times> nat" where
  "contract_slot r = (cc_task r, cc_idx r)"

definition contract_usable :: "contract_row \<Rightarrow> bool" where
  "contract_usable r \<longleftrightarrow> trim (cc_task r) \<noteq> []"

lemma db_call_contracts: "db_call s = (s', r) \<Longrightarrow> st_contracts s' = st_contracts s"
  using db_call_frame [of s s' r] by auto

lemma append_contract_cases:
  "st_contracts (fst (append_completion_contract r s)) = st_contracts s \<or>
   st_contracts (fst (append_completion_contract r s)) = st_contracts s @ [stored_criterion r]"
  by (auto simp: append_completion_contract_def stored_criterion_def split: prod.splits option.splits
      dest: db_call_contracts)

lemma append_contract_taken:
  "contract_slot r \<in> contract_slot ` set (st_contracts s) \<Longrightarrow>
     st_contracts (fst (append_completion_contract r s)) = st_contracts s"
  by (auto simp: append_completion_contract_def contract_slot_def image_iff
      split: prod.splits option.splits dest!: db_call_contracts)

interpretation pins: pin_table append_completion_contract st_contracts stored_criterion contract_slot
  contract_usable quiet
proof unfold_locales
  show "contract_slot (stored_criterion r) = contract_slot r" for r
    by (simp add: contract_slot_def stored_criterion_def)
  show "quiet s \<Longrightarrow> quiet (fst (append_completion_contract r s))" for s r
    by (simp add: append_completion_contract_def) (simp add: quiet_def)
  show "quiet s \<Longrightarrow> contract_usable r \<Longrightarrow> contract_slot r \<notin> contract_slot ` set (st_contracts s) \<Longrightarrow>
      st_contracts (fst (append_completion_contract r s)) = st_contracts s @ [stored_criterion r]" for s r
    by (auto simp: append_completion_contract_def contract_usable_def contract_slot_def stored_criterion_def)
qed (simp_all add: append_contract_cases append_contract_taken)

end
