(* ===== verification/Capability_Action.thy ===== *)
theory Capability_Action
  imports Store_Laws
begin

text \<open>
  The runtime's state and the execution of one action (src/action.go and the fields of
  \<open>Runtime\<close>, src/runtime.go).  The globals the code reads through the active runtime
  (capability factory, World Model, store) are fields of the record.  \<open>rt_digest\<close> is the
  fingerprint of a plan's text (the first 16 hex digits of its SHA-256), and \<open>rt_turns\<close> reads
  the model turns of the sessions a step opened off the world the step left.
\<close>

record 'w rt =
  rt_factory :: "'w factory option"
  rt_caps :: "'w capability smap"
  rt_outside :: "'w outside"
  rt_store :: "store option"
  rt_digest :: "string \<Rightarrow> string"
  rt_turns :: "'w outside \<Rightarrow> (string \<times> nat) list"

definition capability_map :: "'w capability list \<Rightarrow> 'w capability smap" where
  "capability_map cs = rev (map (\<lambda>c. (cap_name c, c)) cs)"

definition set_capabilities :: "'w capability list \<Rightarrow> 'w rt \<Rightarrow> 'w rt" where
  "set_capabilities cs rt = rt\<lparr>rt_caps := capability_map cs\<rparr>"

definition provider_of :: "'w rt \<Rightarrow> string \<Rightarrow> string" where
  "provider_of rt c =
    (case map_of (rt_caps rt) (to_lower (trim c)) of None \<Rightarrow> [] | Some cap \<Rightarrow> cap_provider cap)"

section \<open>The call of a capability\<close>

definition task_id_key :: string where "task_id_key = ''task_id''"

text \<open>A missing key and an empty value are the same to a Go map read.\<close>

definition smap_get :: "string smap \<Rightarrow> string \<Rightarrow> string" where
  "smap_get m k = (case map_of m k of None \<Rightarrow> [] | Some v \<Rightarrow> v)"

definition fill_task_id :: "'w factory option \<Rightarrow> string \<Rightarrow> string option \<Rightarrow> string smap \<Rightarrow> string smap" where
  "fill_task_id f name task inp =
    (case task of None \<Rightarrow> inp
     | Some t \<Rightarrow>
         if trim t = [] \<or> smap_get inp task_id_key \<noteq> [] then inp
         else (case declared_inputs_of f name of None \<Rightarrow> inp
               | Some fds \<Rightarrow> if field_accepts fds task_id_key then (task_id_key, t) # inp else inp))"

definition result_of :: "string \<Rightarrow> action_result" where
  "result_of c =
    \<lparr>ar_capability = c, ar_step_name = [], ar_input = [], ar_output = [], ar_error = None,
     ar_expected_effect = [], ar_evidence_refs = [], ar_plan_step_id = 0, ar_execution_step_id = 0\<rparr>"

definition nothing_execute :: "string \<Rightarrow> action_result" where
  "nothing_execute reason =
    (let r = trim reason in
     if r \<noteq> [] then (result_of ''nothing'')\<lparr>ar_output := [(''reason'', r)]\<rparr> else result_of ''nothing'')"

definition capability_execute ::
  "'w factory option \<Rightarrow> 'w outside \<Rightarrow> decision_ctx \<Rightarrow> cap_action
     \<Rightarrow> 'w outside \<times> action_result \<times> action_error option" where
  "capability_execute f w ctx a =
    (let name = to_lower (trim (ca_name a));
         rec = (result_of name)\<lparr>ar_step_name := trim (ca_step_name a),
                  ar_expected_effect := ca_expected_effect a, ar_evidence_refs := ca_evidence_refs a\<rparr>
     in (case f of None \<Rightarrow> (w, rec, Some FactoryNotReady)
         | Some fac \<Rightarrow>
           (case fac_get fac name of None \<Rightarrow> (w, rec, Some (UnknownCapability (ca_name a)))
            | Some cap \<Rightarrow>
              (case resolve_step_inputs (fst w) (dc_step_outputs ctx) (ca_inputs a) of
                 Inl e \<Rightarrow> (w, rec\<lparr>ar_error := Some e\<rparr>, Some e)
               | Inr resolved \<Rightarrow>
                   (let inp = fill_task_id f name (dc_task ctx) resolved in
                    case cap_run cap inp w of
                      (w', out, err) \<Rightarrow>
                        (w', rec\<lparr>ar_input := inp, ar_output := out\<rparr>, map_option CapabilityFailed err))))))"

definition execute_action ::
  "'w factory option \<Rightarrow> 'w outside \<Rightarrow> decision_ctx \<Rightarrow> action
     \<Rightarrow> 'w outside \<times> action_result \<times> action_error option" where
  "execute_action f w ctx a =
    (case a of CapAction s \<Rightarrow> capability_execute f w ctx s
     | NothingAction r \<Rightarrow> (w, nothing_execute r, None)
     | NilAction \<Rightarrow> (w, result_of [], None))"

section \<open>What an execution reports\<close>

lemma fill_task_id_other: "k \<noteq> task_id_key \<Longrightarrow> map_of (fill_task_id f name task inp) k = map_of inp k"
  by (auto simp: fill_task_id_def split: option.splits)

lemma fill_task_id_keeps: "smap_get inp task_id_key \<noteq> [] \<Longrightarrow> fill_task_id f name task inp = inp"
  by (auto simp: fill_task_id_def split: option.splits)

lemma capability_execute_names:
  "capability_execute f w ctx a = (w', r, e) \<Longrightarrow>
     ar_capability r = to_lower (trim (ca_name a)) \<and> ar_step_name r = trim (ca_step_name a)"
  by (auto simp: capability_execute_def Let_def result_of_def split: option.splits sum.splits prod.splits)

lemma capability_execute_error:
  "capability_execute f w ctx a = (w', r, Some e) \<Longrightarrow>
     (case e of FactoryNotReady \<Rightarrow> f = None \<and> w' = w
      | UnknownCapability n \<Rightarrow> n = ca_name a \<and> w' = w
      | InputError k re \<Rightarrow> w' = w \<and> resolve_step_inputs (fst w) (dc_step_outputs ctx) (ca_inputs a) = Inl e
      | CapabilityFailed m \<Rightarrow> True)"
  by (auto simp: capability_execute_def Let_def resolve_step_inputs_def split: option.splits sum.splits prod.splits
      action_error.splits dest!: map_result_Inl) (auto simp: resolve_one_def split: option.splits if_splits sum.splits)

lemma execute_action_step_name:
  "execute_action f w ctx a = (w', r, e) \<Longrightarrow>
     ar_step_name r = (case a of CapAction s \<Rightarrow> trim (ca_step_name s) | _ \<Rightarrow> [])"
  by (auto simp: execute_action_def nothing_execute_def result_of_def Let_def dest: capability_execute_names
      split: action.splits if_splits)

lemma capability_execute_known:
  assumes "f = Some fac" "fac_get fac (to_lower (trim (ca_name a))) = Some cap"
    and "resolve_step_inputs (fst w) (dc_step_outputs ctx) (ca_inputs a) = Inr resolved"
  shows "capability_execute f w ctx a =
    (let inp = fill_task_id f (to_lower (trim (ca_name a))) (dc_task ctx) resolved;
         (w', out, err) = cap_run cap inp w
     in (w', (result_of (to_lower (trim (ca_name a))))\<lparr>ar_step_name := trim (ca_step_name a),
               ar_expected_effect := ca_expected_effect a, ar_evidence_refs := ca_evidence_refs a,
               ar_input := inp, ar_output := out\<rparr>, map_option CapabilityFailed err))"
  using assms by (simp add: capability_execute_def Let_def split: prod.splits)

end
