(* ===== verification/Verification.thy ===== *)
theory Verification
  imports Capability_Action
begin

text \<open>
  Contract-driven verification (src/verification.go) and the pinned contract it reads
  (src/completion_contract.go): a \<open>done\<close> is accepted when every pinned criterion is confirmed by
  an authoritative source, the World Model or the one system tool that checks the object's kind.
\<close>

section \<open>Pinning and reading a contract\<close>

definition pin_row :: "string \<Rightarrow> nat \<Rightarrow> nat \<times> criterion \<Rightarrow> contract_row" where
  "pin_row t plan ic =
    \<lparr>cc_task = t, cc_idx = Suc (fst ic), cc_plan = plan, cc_name = cr_name (snd ic), cc_criterion = cr_raw (snd ic)\<rparr>"

text \<open>The rows are written one after the other; a failing row is reported and the loop goes on.\<close>

definition pin_completion_contract :: "decision \<Rightarrow> nat \<Rightarrow> store option \<Rightarrow> store option" where
  "pin_completion_contract d plan st =
    (case dc_task (d_ctx d) of None \<Rightarrow> st
     | Some t \<Rightarrow>
         if trim t = [] \<or> d_contract d = [] then st
         else map_option
           (\<lambda>s. foldl (\<lambda>s r. fst (append_completion_contract r s)) s
                  (map (pin_row t plan) (enumerate 0 (d_contract d)))) st)"

datatype accept_error = ContractUnreadable parse_error | NoVerificationStore | PinFailed string store_error

text \<open>The contract an accepted task comes with: the first row that fails ends the loop.\<close>

fun pin_rows :: "contract_row list \<Rightarrow> store \<Rightarrow> store \<times> accept_error option" where
  "pin_rows [] s = (s, None)"
| "pin_rows (r # rs) s =
    (case append_completion_contract r s of
       (s', Some e) \<Rightarrow> (s', Some (PinFailed (cc_name r) e))
     | (s', None) \<Rightarrow> pin_rows rs s')"

definition pin_accepted_contract ::
  "string \<Rightarrow> json option \<Rightarrow> store option \<Rightarrow> store option \<times> accept_error option" where
  "pin_accepted_contract task raw st =
    (let t = trim task in
     if t = [] \<or> raw_absent raw then (st, None)
     else (case parse_completion_contract raw of
             Inl e \<Rightarrow> (st, Some (ContractUnreadable e))
           | Inr cs \<Rightarrow>
               if cs = [] then (st, None)
               else (case st of None \<Rightarrow> (None, Some NoVerificationStore)
                     | Some s \<Rightarrow>
                         (case pin_rows (map (pin_row t 0) (enumerate 0 cs)) s of
                            (s', e) \<Rightarrow> (Some s', e)))))"

definition read_pinned :: "contract_row \<Rightarrow> criterion option" where
  "read_pinned row =
    (case parse_criterion (cc_criterion row) of Inl _ \<Rightarrow> None
     | Inr c \<Rightarrow> Some (if trim (cr_name c) = [] then c\<lparr>cr_name := cc_name row\<rparr> else c))"

definition pinned_completion_contract :: "string \<Rightarrow> store option \<Rightarrow> store option \<times> criterion list" where
  "pinned_completion_contract task st =
    (case st of None \<Rightarrow> (None, [])
     | Some s \<Rightarrow>
         if trim task = [] then (Some s, [])
         else (case list_completion_contract task s of
                 (s', Inl e) \<Rightarrow> (Some s', [])
               | (s', Inr rows) \<Rightarrow> (Some s', List.map_filter read_pinned rows)))"

definition completion_contract_json :: "string \<Rightarrow> store option \<Rightarrow> store option \<times> json option" where
  "completion_contract_json task st =
    (case pinned_completion_contract task st of
       (st', cs) \<Rightarrow> (st', if cs = [] then None else Some (JArr (map cr_raw cs))))"

section \<open>Which tool checks which kind\<close>

definition output_kind :: "'w factory option \<Rightarrow> string \<Rightarrow> string \<Rightarrow> string" where
  "output_kind f producer key =
    (case declared_outputs_of f producer of None \<Rightarrow> []
     | Some outs \<Rightarrow> (case find (\<lambda>fd. field_accepts [fd] key) outs of None \<Rightarrow> []
                     | Some fd \<Rightarrow> to_lower (trim (f_kind fd))))"

fun input_for_kind_from :: "string \<Rightarrow> string \<Rightarrow> string \<Rightarrow> field list \<Rightarrow> string" where
  "input_for_kind_from first kind key [] = first"
| "input_for_kind_from first kind key (fd # fds) =
    (if to_lower (trim (f_kind fd)) \<noteq> kind then input_for_kind_from first kind key fds
     else if field_accepts [fd] key then f_name fd
     else input_for_kind_from (if first = [] then f_name fd else first) kind key fds)"

definition input_for_kind :: "field list \<Rightarrow> string \<Rightarrow> string \<Rightarrow> string" where
  "input_for_kind ins kind key = input_for_kind_from [] (to_lower (trim kind)) (to_lower (trim key)) ins"

text \<open>The input a capability would take the object in, when it is a system check of the kind.\<close>

definition tool_candidate :: "string \<Rightarrow> string \<Rightarrow> 'w capability \<Rightarrow> (string \<times> string) option" where
  "tool_candidate kind key c =
    (case cap_checks_kind c of None \<Rightarrow> None
     | Some k \<Rightarrow>
         if to_lower (trim k) \<noteq> kind then None
         else (case cap_declared c of None \<Rightarrow> None
               | Some (ins, outs) \<Rightarrow>
                   (let inp = input_for_kind ins kind key in
                    if inp = [] then None else Some (cap_name c, inp))))"

definition tool_for_kind :: "'w factory option \<Rightarrow> string \<Rightarrow> string \<Rightarrow> (string \<times> string) option" where
  "tool_for_kind f kind key =
    (let k = to_lower (trim kind) in
     if k = [] then None
     else (case f of None \<Rightarrow> None
           | Some fac \<Rightarrow> (case List.map_filter (tool_candidate k key) (fac_list fac) of
                            [t] \<Rightarrow> Some t
                          | _ \<Rightarrow> None)))"

definition is_verification_tool :: "'w factory option \<Rightarrow> string \<Rightarrow> bool" where
  "is_verification_tool f name =
    (case f of None \<Rightarrow> False
     | Some fac \<Rightarrow> (case fac_get fac (to_lower (trim name)) of None \<Rightarrow> False
                    | Some c \<Rightarrow> cap_checks_kind c \<noteq> None))"

definition verification_tool_names :: "'w factory option \<Rightarrow> string list" where
  "verification_tool_names f =
    (case f of None \<Rightarrow> []
     | Some fac \<Rightarrow> sort (map cap_name (filter (\<lambda>c. cap_checks_kind c \<noteq> None) (fac_list fac))))"

section \<open>Judging one criterion\<close>

definition matches :: "string \<Rightarrow> string \<Rightarrow> bool" where
  "matches observed expected \<longleftrightarrow> equal_fold (trim observed) (trim expected)"

definition evidence_json :: "string \<Rightarrow> string \<Rightarrow> json" where
  "evidence_json slot reference = JObj [(''reference'', JStr reference), (''slot'', JStr (trim slot))]"

definition asset_from_path :: "string list \<Rightarrow> string" where
  "asset_from_path path = (if length path < 2 then str_join ''.'' path else str_join ''.'' (butlast (tl path)))"

definition world_fact :: "asset_manager option \<Rightarrow> string list \<Rightarrow> judge_reason + string option" where
  "world_fact am path =
    (case am of None \<Rightarrow> Inl (NoWorldModelHere path)
     | Some m \<Rightarrow>
         (case am_get m (path_asset path) of
            Inl e \<Rightarrow> Inr None
          | Inr a \<Rightarrow>
              if path_field path = world_field_state then Inr (Some (asset_state a))
              else if path_field path = world_field_kind then Inr (Some (asset_kind a))
              else Inl (WorldHasNoField (path_field path))))"

definition step_output_by_name :: "action_result list \<Rightarrow> string \<Rightarrow> action_result option" where
  "step_output_by_name prior name = find (\<lambda>r. ar_step_name r = name) prior"

record verification_ask =
  va_capability :: string
  va_method :: string
  va_inputs :: "step_input smap"

definition authority_for ::
  "'w factory option \<Rightarrow> criterion \<Rightarrow> action_result \<Rightarrow> string \<Rightarrow> judge_reason + verification_ask" where
  "authority_for f c producer key =
    (let kind = output_kind f (ar_capability producer) key in
     if kind = [] then Inl (NoObjectKind (ar_capability producer) key)
     else (case tool_for_kind f kind key of
             None \<Rightarrow> Inl (NoToolForKind kind (verification_tool_names f))
           | Some (cap, inp) \<Rightarrow>
               Inr \<lparr>va_capability = cap, va_method = ''kind:'' @ kind,
                    va_inputs = [(inp, bound_input (cr_evidence c))]\<rparr>))"

definition check_ask_inputs :: "string \<Rightarrow> step_input smap \<Rightarrow> field list option \<Rightarrow> judge_reason option" where
  "check_ask_inputs name ins declared =
    (case declared of None \<Rightarrow> None
     | Some fds \<Rightarrow>
         or_else
           (first_error (\<lambda>k. if field_accepts fds k then None else Some (CheckUndeclared name k)) (sorted_keys ins))
           (first_error (\<lambda>fd. if f_required fd \<and> \<not> supplied_input ins fd then Some (CheckRequires name (f_name fd))
                              else None) fds))"

definition ask_authority ::
  "'w rt \<Rightarrow> decision_ctx \<Rightarrow> verification_ask \<Rightarrow> action_result list \<Rightarrow> 'w outside \<times> (judge_reason + string smap)" where
  "ask_authority rt ctx ask prior =
    (let name = to_lower (trim (va_capability ask)); w = rt_outside rt; f = rt_factory rt in
     if \<not> is_verification_tool f name then (w, Inl (NotAVerificationTool name))
     else (case map_of (rt_caps rt) name of None \<Rightarrow> (w, Inl (RuntimeHasNoCapability name))
           | Some reader \<Rightarrow>
             (case check_ask_inputs name (va_inputs ask) (declared_inputs_of f name) of
                Some e \<Rightarrow> (w, Inl e)
              | None \<Rightarrow>
                (case resolve_step_inputs (fst w) prior (va_inputs ask) of
                   Inl e \<Rightarrow> (w, Inl (CheckInputError e))
                 | Inr vals \<Rightarrow>
                   (case cap_run reader (fill_task_id f name (dc_task ctx) vals) w of
                      (w', out, None) \<Rightarrow> (w', Inr out)
                    | (w', out, Some e) \<Rightarrow> (w', Inl (AuthorityFailed e)))))))"

text \<open>A verdict as the judge gives it: the result, why, what was observed and by which method.\<close>

type_synonym judgement = "verdict \<times> judge_reason \<times> string \<times> string"

definition method_none :: string where "method_none = ''-''"

definition world_model_method :: string where "world_model_method = ''world_model''"

definition verify_world_criterion :: "asset_manager option \<Rightarrow> string list \<Rightarrow> criterion_expect \<Rightarrow> judgement" where
  "verify_world_criterion am path expect =
    (let field = path_field path in
     if ex_field expect \<noteq> [] \<and> \<not> matches (ex_field expect) field
     then (Inconclusive, SlotIsTheField (ex_field expect) field, [], method_none)
     else (case world_fact am path of
             Inl e \<Rightarrow> (Inconclusive, e, [], world_model_method)
           | Inr None \<Rightarrow> (Fail, NotInWorldModel (asset_from_path path), [], world_model_method)
           | Inr (Some value) \<Rightarrow>
               (let observed = field @ ''='' @ value in
                if ex_exists expect then (Pass, InWorldModel, observed, world_model_method)
                else if matches value (ex_equals expect)
                  then (Pass, FieldAsSaid field (ex_equals expect), observed, world_model_method)
                else (Fail, FieldDiffers field value (ex_equals expect), observed, world_model_method))))"

text \<open>What the answer of an authoritative source says about the criterion.\<close>

definition judge_answer :: "criterion_expect \<Rightarrow> string \<Rightarrow> string smap \<Rightarrow> verdict \<times> judge_reason \<times> string" where
  "judge_answer expect reference answer =
    (if ex_exists expect then
       (case map_of answer ''exists'' of
          Some ex \<Rightarrow> if matches ex ''true'' then (Pass, ObjectExists, ex) else (Fail, ObjectNotThere, ex)
        | None \<Rightarrow> (Pass, AuthorityAnswered, reference))
     else
       (let observed = trim (smap_get answer (ex_field expect)) in
        if observed = [] then (Inconclusive, AnswerHasNo (ex_field expect) (sorted_keys answer), reference)
        else if matches observed (ex_equals expect) then (Pass, FieldAsSaid (ex_field expect) (ex_equals expect), observed)
        else (Fail, FieldDiffers (ex_field expect) observed (ex_equals expect), observed)))"

text \<open>The reference the producer reported, once there is one, is also kept as evidence.\<close>

definition verify_step_criterion ::
  "'w rt \<Rightarrow> decision_ctx \<Rightarrow> string \<Rightarrow> string \<Rightarrow> criterion \<Rightarrow> action_result list
     \<Rightarrow> 'w outside \<times> string \<times> judgement" where
  "verify_step_criterion rt ctx st key c prior =
    (let w = rt_outside rt in
     case step_output_by_name prior st of
       None \<Rightarrow> (w, [], Inconclusive, NothingProduced st, [], method_none)
     | Some producer \<Rightarrow>
         (let reference = trim (smap_get (ar_output producer) key) in
          if reference = []
          then (w, [], Inconclusive, ReportedNo st key (sorted_keys (ar_output producer)), [], method_none)
          else if \<not> ex_exists (cr_expect c) \<and> ex_field (cr_expect c) = []
          then (w, reference, Inconclusive, ReportIsNotAFact, reference, method_none)
          else (case authority_for (rt_factory rt) c producer key of
                  Inl e \<Rightarrow> (w, reference, Inconclusive, e, reference, method_none)
                | Inr ask \<Rightarrow>
                    (case ask_authority rt ctx ask prior of
                       (w', Inl e) \<Rightarrow> (w', reference, Inconclusive, e, reference, va_method ask)
                     | (w', Inr answer) \<Rightarrow>
                         (case judge_answer (cr_expect c) reference answer of
                            (v, r, observed) \<Rightarrow> (w', reference, v, r, observed, va_method ask))))))"

definition judge_criterion ::
  "'w rt \<Rightarrow> decision_ctx \<Rightarrow> criterion \<Rightarrow> action_result list \<Rightarrow> 'w outside \<times> string \<times> judgement" where
  "judge_criterion rt ctx c prior =
    (let w = rt_outside rt in
     if \<not> judges (cr_expect c) then (w, [], Inconclusive, NothingMustHold, [], method_none)
     else if trim (cr_evidence c) = [] then (w, [], Inconclusive, NoEvidenceSlot, [], method_none)
     else (case parse_input_source (cr_evidence c) of
             Inl e \<Rightarrow> (w, [], Inconclusive, SlotNotReadable e, [], method_none)
           | Inr (SrcWorld _ path) \<Rightarrow> (w, [], verify_world_criterion (fst w) path (cr_expect c))
           | Inr (SrcStep _ st key) \<Rightarrow> verify_step_criterion rt ctx st key c prior))"

definition verify_criterion ::
  "'w rt \<Rightarrow> decision_ctx \<Rightarrow> nat \<Rightarrow> criterion \<Rightarrow> action_result list \<Rightarrow> 'w outside \<times> verification" where
  "verify_criterion rt ctx plan c prior =
    (case judge_criterion rt ctx c prior of
       (w', reference, v, reason, observed, meth) \<Rightarrow>
         (w', \<lparr>vf_id = 0, vf_task = task_id_of ctx, vf_plan = plan, vf_cycle = dc_cycle ctx,
               vf_criterion = cr_name c, vf_requirement = cr_requirement c, vf_method = meth,
               vf_evidence = evidence_json (cr_evidence c) reference, vf_expected = describes (cr_expect c),
               vf_observed = observed, vf_result = v, vf_reason = reason\<rparr>))"

section \<open>Judging a done\<close>

text \<open>\<open>taskStepOutputs\<close>: the last successful record of every step name, in order of first appearance.\<close>

fun put_output :: "action_result \<Rightarrow> action_result list \<Rightarrow> action_result list" where
  "put_output r [] = [r]"
| "put_output r (x # xs) = (if ar_step_name x = ar_step_name r then r # xs else x # put_output r xs)"

definition add_step_row :: "action_result list \<Rightarrow> step_row \<Rightarrow> action_result list" where
  "add_step_row out row =
    (let name = trim (es_name row) in
     if name = [] \<or> es_status row \<noteq> StepOk then out
     else put_output ((result_of (es_capability row))\<lparr>ar_step_name := name,
                        ar_output := parse_json_object (es_output row)\<rparr>) out)"

fun collect_outputs :: "plan_row list \<Rightarrow> action_result list \<Rightarrow> store \<Rightarrow> store \<times> action_result list" where
  "collect_outputs [] out s = (s, out)"
| "collect_outputs (p # ps) out s =
    (case list_execution_steps (pl_id p) s of
       (s', Inl e) \<Rightarrow> collect_outputs ps out s'
     | (s', Inr rows) \<Rightarrow> collect_outputs ps (foldl add_step_row out rows) s')"

definition task_step_outputs :: "string \<Rightarrow> store option \<Rightarrow> store option \<times> action_result list" where
  "task_step_outputs task st =
    (case st of None \<Rightarrow> (None, [])
     | Some s \<Rightarrow>
         if trim task = [] then (Some s, [])
         else (case list_execution_plans task s of
                 (s', Inl e) \<Rightarrow> (Some s', [])
               | (s', Inr plans) \<Rightarrow> (case collect_outputs plans [] s' of (s'', out) \<Rightarrow> (Some s'', out))))"

datatype verification_error = NoContract | NotHeldUp nat nat "verification list"

fun verify_all ::
  "'w rt \<Rightarrow> decision_ctx \<Rightarrow> nat \<Rightarrow> criterion list \<Rightarrow> action_result list \<Rightarrow> 'w rt \<times> verification list" where
  "verify_all rt ctx plan [] prior = (rt, [])"
| "verify_all rt ctx plan (c # cs) prior =
    (case verify_criterion rt ctx plan c prior of
       (w', v) \<Rightarrow>
         (case verify_all (rt\<lparr>rt_outside := w', rt_store := save_verification v (rt_store rt)\<rparr>) ctx plan cs prior of
            (rt', vs) \<Rightarrow> (rt', v # vs)))"

definition verify_done :: "'w rt \<Rightarrow> decision_ctx \<Rightarrow> nat \<Rightarrow> 'w rt \<times> verification_error option" where
  "verify_done rt ctx plan =
    (case pinned_completion_contract (task_id_of ctx) (rt_store rt) of
       (st1, criteria) \<Rightarrow>
         (let rt1 = rt\<lparr>rt_store := st1\<rparr> in
          if criteria = [] then (rt1, Some NoContract)
          else (case task_step_outputs (task_id_of ctx) st1 of
                  (st2, prior) \<Rightarrow>
                    (case verify_all (rt1\<lparr>rt_store := st2\<rparr>) ctx plan criteria prior of
                       (rt2, verdicts) \<Rightarrow>
                         (let unverified = length (filter (\<lambda>v. vf_result v \<noteq> Pass) verdicts) in
                          (rt2, if unverified = 0 then None
                                else Some (NotHeldUp unverified (length verdicts) verdicts)))))))"

end
