(* ===== verification/Verification_Laws.thy ===== *)
theory Verification_Laws
  imports Verification
begin

text \<open>
  What an accepted \<open>done\<close> means: every pinned criterion was confirmed by the World Model or by
  the answer of the one registered system tool that checks the kind of the object, read through
  the runtime's own capabilities.  A step's own report never decides.
\<close>

section \<open>What confirms a criterion\<close>

definition answer_holds :: "criterion_expect \<Rightarrow> string smap \<Rightarrow> bool" where
  "answer_holds e answer \<longleftrightarrow>
     (if ex_exists e then (case map_of answer ''exists'' of None \<Rightarrow> True | Some x \<Rightarrow> matches x ''true'')
      else trim (smap_get answer (ex_field e)) \<noteq> [] \<and> matches (smap_get answer (ex_field e)) (ex_equals e))"

definition world_confirms :: "asset_manager option \<Rightarrow> criterion \<Rightarrow> bool" where
  "world_confirms am c \<longleftrightarrow>
     (\<exists>s path v. parse_input_source (cr_evidence c) = Inr (SrcWorld s path) \<and> world_value am path = Inr v \<and>
        (ex_field (cr_expect c) = [] \<or> matches (ex_field (cr_expect c)) (path_field path)) \<and>
        (ex_exists (cr_expect c) \<or> matches v (ex_equals (cr_expect c))))"

text \<open>
  The step the criterion binds reported a reference, one system tool checks its kind, and that
  tool, called with the reference, gave an answer in which the expected fact holds.
\<close>

definition authority_confirms ::
  "'w rt \<Rightarrow> decision_ctx \<Rightarrow> action_result list \<Rightarrow> criterion \<Rightarrow> bool" where
  "authority_confirms rt ctx prior c \<longleftrightarrow>
     (\<exists>s st key producer tool inp reader w' answer.
        parse_input_source (cr_evidence c) = Inr (SrcStep s st key) \<and>
        step_output_by_name prior st = Some producer \<and>
        trim (smap_get (ar_output producer) key) \<noteq> [] \<and>
        tool_for_kind (rt_factory rt) (output_kind (rt_factory rt) (ar_capability producer) key) key = Some (tool, inp) \<and>
        is_verification_tool (rt_factory rt) (to_lower (trim tool)) \<and>
        map_of (rt_caps rt) (to_lower (trim tool)) = Some reader \<and>
        cap_run reader
          (fill_task_id (rt_factory rt) (to_lower (trim tool)) (dc_task ctx)
             [(inp, smap_get (ar_output producer) key)]) (rt_outside rt) = (w', answer, None) \<and>
        answer_holds (cr_expect c) answer)"

definition confirmed :: "'w rt \<Rightarrow> decision_ctx \<Rightarrow> action_result list \<Rightarrow> criterion \<Rightarrow> bool" where
  "confirmed rt ctx prior c \<longleftrightarrow>
     judges (cr_expect c) \<and> (world_confirms (fst (rt_outside rt)) c \<or> authority_confirms rt ctx prior c)"

lemma matches_trim [simp]: "matches (trim a) b \<longleftrightarrow> matches a b"
  by (simp add: matches_def)

lemma judge_answer_pass: "fst (judge_answer e ref answer) = Pass \<longleftrightarrow> answer_holds e answer"
  by (simp add: judge_answer_def answer_holds_def Let_def split: option.splits)

lemma judge_answer_Pass: "judge_answer e ref answer = (Pass, r, obs) \<Longrightarrow> answer_holds e answer"
  using judge_answer_pass [of e ref answer] by simp

lemma world_pass:
  assumes "fst (verify_world_criterion am path e) = Pass"
  shows "\<exists>v. world_value am path = Inr v \<and> (ex_field e = [] \<or> matches (ex_field e) (path_field path)) \<and>
    (ex_exists e \<or> matches v (ex_equals e))"
  using assms
  by (auto simp: verify_world_criterion_def world_fact_def world_value_def Let_def
      split: if_splits option.splits sum.splits)

lemma tool_candidate_check:
  "tool_candidate k key c = Some (n, inp) \<Longrightarrow> cap_name c = n \<and> cap_checks_kind c \<noteq> None \<and> inp \<noteq> []"
  by (auto simp: tool_candidate_def Let_def split: option.splits if_splits)

lemma tool_for_kind_unique:
  assumes "tool_for_kind (Some fac) kind key = Some t"
  shows "\<exists>!c. c \<in> set (fac_list fac) \<and> tool_candidate (to_lower (trim kind)) key c \<noteq> None"
proof -
  let ?g = "tool_candidate (to_lower (trim kind)) key"
  from assms have one: "List.map_filter ?g (fac_list fac) = [t]"
    by (auto simp: tool_for_kind_def Let_def split: if_splits list.splits)
  then have "map (the \<circ> ?g) (filter (\<lambda>c. ?g c \<noteq> None) (fac_list fac)) = [t]"
    by (simp add: List.map_filter_def)
  then obtain c where c: "filter (\<lambda>c. ?g c \<noteq> None) (fac_list fac) = [c]"
    by (auto simp: map_eq_Cons_conv)
  have "d \<in> set (fac_list fac) \<and> ?g d \<noteq> None \<longleftrightarrow> d = c" for d
    using arg_cong [OF c, of set] by auto
  then show ?thesis by auto
qed

lemma single_bound_resolves:
  assumes "parse_input_source src = Inr (SrcStep s st key)"
    and "step_output_by_name prior st = Some producer"
    and "trim (smap_get (ar_output producer) key) \<noteq> []"
  shows "resolve_step_inputs am prior [(inp, bound_input src)] = Inr [(inp, smap_get (ar_output producer) key)]"
proof -
  obtain v where v: "map_of (ar_output producer) key = Some v" "trim v \<noteq> []"
    using assms(3) by (auto simp: smap_get_def split: option.splits)
  have "trim src \<noteq> []"
    using assms(1) by (auto simp: parse_step_source step_prefix_def)
  then have b: "is_binding (bound_input src)" by simp
  have src: "si_source (bound_input src) = src" by (simp add: bound_input_def)
  have "resolve_input_source am prior src = Inr v"
    using assms(1,2) v by (simp add: resolve_input_source_def step_output_by_name_def)
  moreover have "sorted_keys [(inp, bound_input src)] = [inp]" by (simp add: sorted_keys_def)
  ultimately show ?thesis using b v
    by (simp add: resolve_step_inputs_def resolve_one_def src smap_get_def)
qed

lemma ask_answers:
  assumes "ask_authority rt ctx ask prior = (w', Inr answer)"
  shows "\<exists>reader vals. is_verification_tool (rt_factory rt) (to_lower (trim (va_capability ask))) \<and>
     map_of (rt_caps rt) (to_lower (trim (va_capability ask))) = Some reader \<and>
     resolve_step_inputs (fst (rt_outside rt)) prior (va_inputs ask) = Inr vals \<and>
     cap_run reader (fill_task_id (rt_factory rt) (to_lower (trim (va_capability ask))) (dc_task ctx) vals)
       (rt_outside rt) = (w', answer, None)"
  using assms
  by (auto simp: ask_authority_def Let_def split: if_splits option.splits sum.splits prod.splits)

lemma step_pass:
  assumes src: "parse_input_source (cr_evidence c) = Inr (SrcStep s st key)"
    and pass: "verify_step_criterion rt ctx st key c prior = (w', ref, Pass, reason, observed, meth)"
  shows "authority_confirms rt ctx prior c"
proof -
  from pass obtain producer where p: "step_output_by_name prior st = Some producer"
    and ref: "trim (smap_get (ar_output producer) key) \<noteq> []"
    by (auto simp: verify_step_criterion_def Let_def split: option.splits if_splits)
  from pass p ref obtain ask answer where ask: "authority_for (rt_factory rt) c producer key = Inr ask"
    and ans: "ask_authority rt ctx ask prior = (w', Inr answer)"
    and holds: "answer_holds (cr_expect c) answer"
    by (auto simp: verify_step_criterion_def Let_def dest: judge_answer_Pass
        split: if_splits sum.splits prod.splits)
  from ask obtain tool inp where
    tool: "tool_for_kind (rt_factory rt) (output_kind (rt_factory rt) (ar_capability producer) key) key = Some (tool, inp)"
    and a: "va_capability ask = tool" "va_inputs ask = [(inp, bound_input (cr_evidence c))]"
    by (auto simp: authority_for_def Let_def split: if_splits option.splits)
  from ask_answers [OF ans] single_bound_resolves [OF src p ref] a src p ref tool holds
  show ?thesis unfolding authority_confirms_def by (auto simp del: matches_trim)
qed

lemma verdict_pass:
  assumes "verify_criterion rt ctx plan c prior = (w', v)" and "vf_result v = Pass"
  shows "confirmed rt ctx prior c"
proof -
  obtain w'' ref vd reason observed meth where
    j: "judge_criterion rt ctx c prior = (w'', ref, vd, reason, observed, meth)" by (metis prod_cases6)
  with assms have pass: "vd = Pass" by (auto simp: verify_criterion_def)
  from j pass have judges: "judges (cr_expect c)" and ev: "trim (cr_evidence c) \<noteq> []"
    by (auto simp: judge_criterion_def Let_def split: if_splits)
  from j pass judges ev obtain src where src: "parse_input_source (cr_evidence c) = Inr src"
    by (auto simp: judge_criterion_def Let_def split: sum.splits)
  show ?thesis
  proof (cases src)
    case (SrcWorld s path)
    with j pass judges ev src have "fst (verify_world_criterion (fst (rt_outside rt)) path (cr_expect c)) = Pass"
      by (auto simp: judge_criterion_def Let_def)
    from world_pass [OF this] src SrcWorld judges show ?thesis
      unfolding confirmed_def world_confirms_def by blast
  next
    case (SrcStep s st key)
    with j pass judges ev src have
      "verify_step_criterion rt ctx st key c prior = (w'', ref, Pass, reason, observed, meth)"
      by (simp add: judge_criterion_def Let_def)
    from step_pass [OF _ this] src SrcStep judges show ?thesis unfolding confirmed_def by blast
  qed
qed

section \<open>The verdicts of one done\<close>

text \<open>
  The runtime when the criterion at a position is judged: the tools asked for the criteria before it have
  run, one after the other, and their verdicts were kept; nothing else happened since the judgement began.
\<close>

primrec judging :: "'w rt \<Rightarrow> decision_ctx \<Rightarrow> nat \<Rightarrow> criterion list \<Rightarrow> action_result list \<Rightarrow> nat \<Rightarrow> 'w rt" where
  "judging rt ctx plan cs prior 0 = rt"
| "judging rt ctx plan cs prior (Suc i) =
    (let rt_i = judging rt ctx plan cs prior i in
     case verify_criterion rt_i ctx plan (cs ! i) prior of
       (w, v) \<Rightarrow> rt_i\<lparr>rt_outside := w, rt_store := save_verification v (rt_store rt_i)\<rparr>)"

lemma judging_Cons:
  "verify_criterion rt ctx plan c prior = (w, v) \<Longrightarrow>
    judging rt ctx plan (c # cs) prior (Suc i) =
      judging (rt\<lparr>rt_outside := w, rt_store := save_verification v (rt_store rt)\<rparr>) ctx plan cs prior i"
  by (induction i) (simp_all add: Let_def)

lemma verify_all_judging:
  assumes "verify_all rt ctx plan cs prior = (rt', vs)"
  shows "rt' = judging rt ctx plan cs prior (length cs) \<and> length vs = length cs \<and>
    (\<forall>i<length cs. snd (verify_criterion (judging rt ctx plan cs prior i) ctx plan (cs ! i) prior) = vs ! i)"
  using assms
proof (induction cs arbitrary: rt vs)
  case (Cons c cs)
  obtain w v where v: "verify_criterion rt ctx plan c prior = (w, v)" by fastforce
  let ?rt = "rt\<lparr>rt_outside := w, rt_store := save_verification v (rt_store rt)\<rparr>"
  obtain vs' where rest: "verify_all ?rt ctx plan cs prior = (rt', vs')" and vs: "vs = v # vs'"
    using Cons.prems v by (auto split: prod.splits)
  note ih = Cons.IH [OF rest] and shift = judging_Cons [OF v, of cs]
  have "snd (verify_criterion (judging rt ctx plan (c # cs) prior i) ctx plan ((c # cs) ! i) prior) = vs ! i"
    if "i < length (c # cs)" for i
    using that ih v vs by (cases i) (simp_all add: shift del: judging.simps(2))
  with ih vs show ?case by (simp add: shift del: judging.simps(2))
qed simp

text \<open>A step of the task reported this output, under its name, and succeeded.\<close>

definition reported_by :: "store option \<Rightarrow> string \<Rightarrow> action_result \<Rightarrow> bool" where
  "reported_by st t a \<longleftrightarrow>
     (\<exists>s p row. st = Some s \<and> p \<in> set (st_plans s) \<and> pl_task p = t \<and> row \<in> set (st_steps s) \<and> es_plan row = pl_id p \<and>
        es_status row = StepOk \<and> ar_step_name a = trim (es_name row) \<and> ar_step_name a \<noteq> [] \<and>
        ar_capability a = es_capability row \<and> ar_output a = parse_json_object (es_output row))"

lemma put_output_subset: "set (put_output r out) \<subseteq> insert r (set out)"
  by (induction out) auto

lemma query_rows:
  "query q s = (s', r) \<Longrightarrow> st_plans s' = st_plans s \<and> st_steps s' = st_steps s \<and> st_contracts s' = st_contracts s \<and>
     (\<forall>rows. r = Inr rows \<longrightarrow> rows = q s')"
  by (auto simp: query_def db_call_def split: prod.splits option.splits list.splits)

lemma add_row_subset: "set (add_step_row out row) \<subseteq> set out \<union> set (add_step_row [] row)"
proof (cases "trim (es_name row) = [] \<or> es_status row \<noteq> StepOk")
  case False
  let ?r = "(result_of (es_capability row))\<lparr>ar_step_name := trim (es_name row), ar_output := parse_json_object (es_output row)\<rparr>"
  have "add_step_row out row = put_output ?r out" "add_step_row [] row = [?r]" using False by (simp_all add: add_step_row_def)
  with put_output_subset [of ?r out] show ?thesis by simp
qed (simp add: add_step_row_def)

lemma add_rows_reported:
  "\<forall>a\<in>set out. P a \<Longrightarrow> \<forall>row\<in>set rows. \<forall>a\<in>set (add_step_row [] row). P a \<Longrightarrow> \<forall>a\<in>set (foldl add_step_row out rows). P a"
proof (induction rows arbitrary: out)
  case (Cons row rows)
  have "\<forall>a\<in>set (add_step_row out row). P a"
    using Cons.prems add_row_subset [of out row] by auto
  from Cons.IH [OF this] Cons.prems(2) show ?case by simp
qed simp

lemma reported_same:
  "st_plans s' = st_plans s \<Longrightarrow> st_steps s' = st_steps s \<Longrightarrow> reported_by (Some s') t a = reported_by (Some s) t a"
  by (simp add: reported_by_def)

lemma collect_reported:
  assumes "collect_outputs ps out s = (s', out')" "\<forall>a\<in>set out. reported_by (Some s) t a" "\<forall>p\<in>set ps. p \<in> set (st_plans s) \<and> pl_task p = t"
  shows "\<forall>a\<in>set out'. reported_by (Some s) t a"
  using assms
proof (induction ps arbitrary: out s)
  case (Cons p ps)
  obtain s1 r where q: "list_execution_steps (pl_id p) s = (s1, r)" by fastforce
  note rows = query_rows [OF q [unfolded list_execution_steps_def]]
  have same: "reported_by (Some s1) t a = reported_by (Some s) t a" for a using rows by (intro reported_same) simp_all
  show ?case
  proof (cases r)
    case (Inl e)
    with Cons.prems q have "collect_outputs ps out s1 = (s', out')" by simp
    from Cons.IH [OF this] Cons.prems(2,3) rows have "\<forall>a\<in>set out'. reported_by (Some s1) t a" unfolding same by simp
    then show ?thesis unfolding same .
  next
    case (Inr rs)
    have "\<forall>row\<in>set rs. \<forall>a\<in>set (add_step_row [] row). reported_by (Some s) t a"
      using Cons.prems(3) rows Inr
      by (auto simp: reported_by_def steps_of_def add_step_row_def Let_def result_of_def split: if_splits)
    from add_rows_reported [OF Cons.prems(2) this]
    have "\<forall>a\<in>set (foldl add_step_row out rs). reported_by (Some s1) t a" unfolding same by blast
    moreover have "collect_outputs ps (foldl add_step_row out rs) s1 = (s', out')" using Cons.prems(1) q Inr by simp
    moreover have "\<forall>p\<in>set ps. p \<in> set (st_plans s1) \<and> pl_task p = t" using Cons.prems(3) rows by simp
    ultimately have "\<forall>a\<in>set out'. reported_by (Some s1) t a" using Cons.IH by blast
    then show ?thesis unfolding same .
  qed
qed simp

lemma outputs_reported:
  assumes "task_step_outputs t st = (st', out)" shows "\<forall>a\<in>set out. reported_by st t a"
proof (cases "st = None \<or> trim t = []")
  case False
  then obtain s where s: "st = Some s" "trim t \<noteq> []" by auto
  obtain s1 r where q: "list_execution_plans t s = (s1, r)" by fastforce
  note rows = query_rows [OF q [unfolded list_execution_plans_def]]
  have same: "reported_by (Some s1) t a = reported_by (Some s) t a" for a using rows by (intro reported_same) simp_all
  show ?thesis
  proof (cases r)
    case (Inr ps)
    obtain s2 o2 where c: "collect_outputs ps [] s1 = (s2, o2)" by fastforce
    have "\<forall>p\<in>set ps. p \<in> set (st_plans s1) \<and> pl_task p = t" using rows Inr by (auto simp: plans_of_def)
    from collect_reported [OF c _ this] have "\<forall>a\<in>set o2. reported_by (Some s1) t a" by simp
    moreover have "out = o2" using assms s q Inr c by (simp add: task_step_outputs_def)
    ultimately show ?thesis using same s(1) by simp
  qed (use assms s q in \<open>simp add: task_step_outputs_def\<close>)
qed (use assms in \<open>auto simp: task_step_outputs_def split: option.splits\<close>)

text \<open>
  What it takes to accept a \<open>done\<close>: the contract pinned for its task is not empty, and each of its criteria is
  confirmed in the runtime it was judged in, with the outputs the steps of that task have on record.
\<close>

definition contract_confirmed :: "'w rt \<Rightarrow> decision_ctx \<Rightarrow> nat \<Rightarrow> 'w rt \<Rightarrow> bool" where
  "contract_confirmed rt ctx plan rt' \<longleftrightarrow>
     (\<exists>st1 cs st2 prior.
        pinned_completion_contract (task_id_of ctx) (rt_store rt) = (st1, cs) \<and> cs \<noteq> [] \<and>
        task_step_outputs (task_id_of ctx) st1 = (st2, prior) \<and> (\<forall>a\<in>set prior. reported_by (rt_store rt) (task_id_of ctx) a) \<and>
        (\<forall>i<length cs. confirmed (judging (rt\<lparr>rt_store := st2\<rparr>) ctx plan cs prior i) ctx prior (cs ! i)) \<and>
        rt' = judging (rt\<lparr>rt_store := st2\<rparr>) ctx plan cs prior (length cs))"

lemma pinned_rows:
  "pinned_completion_contract t st = (st', cs) \<Longrightarrow> reported_by st' u a = reported_by st u a"
proof (cases "st = None \<or> trim t = []")
  case False
  assume p: "pinned_completion_contract t st = (st', cs)"
  obtain s where s: "st = Some s" using False by auto
  obtain s1 r where q: "list_completion_contract t s = (s1, r)" by fastforce
  have "st' = Some s1" using p False s q by (cases r) (simp_all add: pinned_completion_contract_def)
  with s query_rows [OF q [unfolded list_completion_contract_def]] show ?thesis using reported_same [of s1 s] by simp
qed (auto simp: pinned_completion_contract_def split: option.splits)

lemma verify_done_confirmed:
  assumes "verify_done rt ctx plan = (rt', None)" shows "contract_confirmed rt ctx plan rt'"
proof -
  obtain st1 cs where p: "pinned_completion_contract (task_id_of ctx) (rt_store rt) = (st1, cs)" by fastforce
  obtain st2 prior where o: "task_step_outputs (task_id_of ctx) st1 = (st2, prior)" by fastforce
  let ?rt = "rt\<lparr>rt_store := st2\<rparr>"
  obtain rt2 vs where a: "verify_all ?rt ctx plan cs prior = (rt2, vs)" by fastforce
  from assms p o a have cs: "cs \<noteq> []" and pass: "\<forall>v\<in>set vs. vf_result v = Pass" and rt': "rt' = rt2"
    by (auto simp: verify_done_def Let_def filter_empty_conv split: if_splits)
  note all = verify_all_judging [OF a]
  have "confirmed (judging ?rt ctx plan cs prior i) ctx prior (cs ! i)" if "i < length cs" for i
  proof -
    have "vf_result (vs ! i) = Pass" using pass all that by simp
    with all that show ?thesis
      by (cases "verify_criterion (judging ?rt ctx plan cs prior i) ctx plan (cs ! i) prior") (auto simp: verdict_pass)
  qed
  moreover have "\<forall>a\<in>set prior. reported_by (rt_store rt) (task_id_of ctx) a" using outputs_reported [OF o] pinned_rows [OF p] by simp
  ultimately show ?thesis unfolding contract_confirmed_def using p o cs all rt' by blast
qed

lemma accepted_criterion:
  fixes rt :: "'w rt"
  assumes "verify_done rt ctx plan = (rt', None)" "c \<in> set (snd (pinned_completion_contract (task_id_of ctx) (rt_store rt)))"
  shows "\<exists>(rt_c :: 'w rt) prior. confirmed rt_c ctx prior c"
proof -
  obtain st1 cs st2 prior where "pinned_completion_contract (task_id_of ctx) (rt_store rt) = (st1, cs)"
    "\<forall>i<length cs. confirmed (judging (rt\<lparr>rt_store := st2\<rparr>) ctx plan cs prior i) ctx prior (cs ! i)"
    using verify_done_confirmed [OF assms(1)] unfolding contract_confirmed_def by blast
  moreover from this(1) assms(2) obtain i where "i < length cs" "cs ! i = c" by (auto simp: in_set_conv_nth)
  ultimately show ?thesis by blast
qed

text \<open>
  C1: When verification lets a \<open>done\<close> pass, the task had pinned a contract and every criterion of
  it was confirmed in the very state it was judged in: by the value the World Model has there, or by
  the answer the one system tool registered for the object's kind gives there, asked with the reference
  that a recorded, successful step of this task reported.  That state is the runtime the judgement began
  with, after the tools asked for the criteria before; the last of these states is the runtime
  verification leaves.  A task without a pinned contract is never accepted, and no criterion passes on a
  step's own report.
\<close>

theorem verify_done_sound:
  assumes "verify_done rt ctx plan = (rt', None)"
  shows "\<exists>st1 cs st2 prior.
    pinned_completion_contract (task_id_of ctx) (rt_store rt) = (st1, cs) \<and> cs \<noteq> [] \<and>
    task_step_outputs (task_id_of ctx) st1 = (st2, prior) \<and> (\<forall>a\<in>set prior. reported_by (rt_store rt) (task_id_of ctx) a) \<and>
    (\<forall>i<length cs. confirmed (judging (rt\<lparr>rt_store := st2\<rparr>) ctx plan cs prior i) ctx prior (cs ! i)) \<and>
    rt' = judging (rt\<lparr>rt_store := st2\<rparr>) ctx plan cs prior (length cs)"
  using verify_done_confirmed [OF assms] unfolding contract_confirmed_def .

text \<open>A runtime with one producer and one system tool, and a task whose contract binds its output.\<close>

definition sample_build :: "unit capability" where
  "sample_build = \<lparr>cap_name = ''build'', cap_provider = ''cursor'',
     cap_declared = Some ([\<lparr>f_name = ''task'', f_aliases = [], f_required = False, f_description = [], f_kind = []\<rparr>],
       [\<lparr>f_name = ''artifact_id'', f_aliases = [], f_required = False, f_description = [], f_kind = ''artifact''\<rparr>]),
     cap_checks_kind = None, cap_run = (\<lambda>inp w. (w, [(''artifact_id'', ''a1'')], None))\<rparr>"

definition sample_check :: "unit capability" where
  "sample_check = \<lparr>cap_name = ''artifact_check'', cap_provider = ''autonomy'',
     cap_declared = Some ([\<lparr>f_name = ''artifact_id'', f_aliases = [], f_required = True, f_description = [], f_kind = ''artifact''\<rparr>],
       [\<lparr>f_name = ''status'', f_aliases = [], f_required = False, f_description = [], f_kind = []\<rparr>]),
     cap_checks_kind = Some ''artifact'',
     cap_run = (\<lambda>inp w. (w, [(''status'', if map_of inp ''artifact_id'' = Some ''a1'' then ''published'' else ''absent'')], None))\<rparr>"

definition sample_contract :: json where
  "sample_contract = JObj [(''name'', JStr ''C1''),
     (''evidence'', JObj [(''source'', JStr ''step:build.output.artifact_id'')]),
     (''expect'', JObj [(''field'', JStr ''status''), (''equals'', JStr ''Published'')])]"

definition sample_store :: store where
  "sample_store = empty_store\<lparr>
     st_plans := [\<lparr>pl_id = 1, pl_task = ''t1'', pl_agent = 1, pl_cycle = 1, pl_type = ''plan'', pl_reason = [],
       pl_evidence = JArr [], pl_need = JObj [], pl_step_count = 1, pl_hash = [], pl_reply = 0, pl_input = 0,
       pl_task_input = 0, pl_turn = 0\<rparr>],
     st_steps := [\<lparr>es_id = 1, es_plan = 1, es_plan_step = 1, es_task = ''t1'', es_agent = 1, es_cycle = 1,
       es_idx = 1, es_name = ''build'', es_capability = ''build'', es_provider = ''cursor'', es_status = StepOk,
       es_input = JObj [], es_output = JObj [(''artifact_id'', JStr ''a1'')], es_error = None\<rparr>],
     st_contracts := [\<lparr>cc_task = ''t1'', cc_idx = 1, cc_plan = 1, cc_name = ''C1'', cc_criterion = sample_contract\<rparr>]\<rparr>"

definition sample_rt :: "unit rt" where
  "sample_rt = \<lparr>rt_factory = Some (register sample_check (register sample_build new_factory)),
     rt_caps = capability_map [sample_build, sample_check], rt_outside = (None, ()), rt_store = Some sample_store,
     rt_digest = (\<lambda>t. t), rt_turns = (\<lambda>w. [])\<rparr>"

definition sample_ctx :: decision_ctx where
  "sample_ctx = \<lparr>dc_task = Some ''t1'', dc_agent = Some 1, dc_cycle = 2, dc_step_outputs = []\<rparr>"

theorem verify_done_sound_witness:
  "snd (verify_done sample_rt sample_ctx 2) = None \<and>
   (\<exists>cs st2 prior. snd (pinned_completion_contract ''t1'' (rt_store sample_rt)) = cs \<and> length cs = 1 \<and>
      (\<forall>a\<in>set prior. reported_by (rt_store sample_rt) ''t1'' a) \<and>
      confirmed (sample_rt\<lparr>rt_store := st2\<rparr>) sample_ctx prior (hd cs))"
proof -
  have ok: "snd (verify_done sample_rt sample_ctx 2) = None" by code_simp
  then have "verify_done sample_rt sample_ctx 2 = (fst (verify_done sample_rt sample_ctx 2), None)"
    by (simp add: prod_eq_iff)
  from verify_done_sound [OF this] obtain st1 cs st2 prior where
    p: "pinned_completion_contract ''t1'' (rt_store sample_rt) = (st1, cs)" "cs \<noteq> []" "\<forall>a\<in>set prior. reported_by (rt_store sample_rt) ''t1'' a"
    "\<forall>i<length cs. confirmed (judging (sample_rt\<lparr>rt_store := st2\<rparr>) sample_ctx 2 cs prior i) sample_ctx prior (cs ! i)"
    by (auto simp: sample_ctx_def task_id_of_def)
  have "length (snd (pinned_completion_contract ''t1'' (rt_store sample_rt))) = 1" by code_simp
  moreover have "confirmed (sample_rt\<lparr>rt_store := st2\<rparr>) sample_ctx prior (hd cs)"
    using p(2) p(4) [rule_format, of 0] by (simp add: hd_conv_nth)
  ultimately show ?thesis using ok p(1,3) by auto
qed

end
