(* ===== verification/Contract_Laws.thy ===== *)
theory Contract_Laws
  imports Verification_Laws
begin

text \<open>
  The standard a task is judged by: pinned once, read back as the planner wrote it, never
  rewritten by a later answer (\<open>pinCompletionContract\<close>, \<open>pinAcceptedContract\<close> and
  \<open>pinnedCompletionContract\<close>, over the table's contract of \<open>Store_Laws\<close>).
\<close>

definition contract_rows :: "string \<Rightarrow> nat \<Rightarrow> criterion list \<Rightarrow> contract_row list" where
  "contract_rows t plan cs = map (pin_row t plan) (enumerate 0 cs)"

lemma length_contract_rows [simp]: "length (contract_rows t plan cs) = length cs"
  by (simp add: contract_rows_def)

lemma nth_contract_rows [simp]: "i < length cs \<Longrightarrow> contract_rows t plan cs ! i = pin_row t plan (i, cs ! i)"
  by (simp add: contract_rows_def nth_enumerate_eq)

lemma contract_rows_slots: "map contract_slot (contract_rows t plan cs) = map (Pair t) [1..<Suc (length cs)]"
  by (rule nth_equalityI) (simp_all add: contract_slot_def pin_row_def del: upt_Suc)

lemma contract_rows_usable: "trim t \<noteq> [] \<Longrightarrow> \<forall>r\<in>set (contract_rows t plan cs). contract_usable r"
  by (auto simp: contract_rows_def contract_usable_def pin_row_def)

lemma pin_contract_all:
  "dc_task (d_ctx d) = Some t \<Longrightarrow> trim t \<noteq> [] \<Longrightarrow>
     pin_completion_contract d plan (Some s) = Some (pins.pin_all (contract_rows t plan (d_contract d)) s)"
  by (cases "d_contract d = []")
    (simp_all add: pin_completion_contract_def pins.pin_all_def contract_rows_def)

lemma pin_contract_none:
  "dc_task (d_ctx d) = None \<or> (\<exists>t. dc_task (d_ctx d) = Some t \<and> trim t = []) \<Longrightarrow>
     pin_completion_contract d plan st = st"
  by (auto simp: pin_completion_contract_def)

lemma pin_all_quiet: "quiet s \<Longrightarrow> quiet (pins.pin_all rs s)"
proof (induction rs arbitrary: s)
  case (Cons r rs)
  from pins.pin_calm [OF Cons.prems, of r] Cons.IH show ?case by (simp add: pins.pin_all_Cons)
qed (simp add: pins.pin_all_Nil)

text \<open>
  The criteria a task pinned first are the ones it keeps.  A later answer of the same task
  that restates its contract, with no more criteria than the first one had, leaves the contract
  table exactly as it was, whatever the restated criteria say; and no answer at all removes or
  changes a row that is already there.
\<close>

theorem pin_first_wins:
  assumes task: "dc_task (d_ctx d) = Some t" "dc_task (d_ctx d') = Some t"
  shows "(\<exists>extra. st_contracts (the (pin_completion_contract d' p' (Some s))) = st_contracts s @ extra) \<and>
    (quiet s \<and> length (d_contract d') \<le> length (d_contract d) \<longrightarrow>
      st_contracts (the (pin_completion_contract d' p' (pin_completion_contract d p (Some s)))) =
      st_contracts (the (pin_completion_contract d p (Some s))))"
proof (cases "trim t = []")
  case True
  with task show ?thesis by (simp add: pin_contract_none)
next
  case False
  let ?rs = "contract_rows t p (d_contract d)" and ?rs' = "contract_rows t p' (d_contract d')"
  have "st_contracts (pins.pin_all ?rs' (pins.pin_all ?rs s)) = st_contracts (pins.pin_all ?rs s)"
    if q: "quiet s" and len: "length (d_contract d') \<le> length (d_contract d)"
  proof (rule pins.pin_all_taken)
    have "set (map contract_slot ?rs') \<subseteq> set (map contract_slot ?rs)"
      unfolding contract_rows_slots set_map set_upt by (rule image_mono) (use len in auto)
    then show "contract_slot ` set ?rs' \<subseteq> contract_slot ` set (st_contracts (pins.pin_all ?rs s))"
      unfolding set_map
      by (rule subset_trans [OF _ pins.pin_all_slots [OF q contract_rows_usable [OF False]]])
  qed
  moreover have "\<exists>extra. st_contracts (pins.pin_all ?rs' s) = st_contracts s @ extra"
    by (rule pins.pin_all_keeps)
  ultimately show ?thesis by (simp add: pin_contract_all task False)
qed

section \<open>What verification reads is what was pinned\<close>

lemma read_pinned_object:
  assumes "parse_criterion (JObj kvs) = Inr c0" and "c = name_criterion i c0"
    and "cc_criterion row = JObj kvs" and "cc_name row = cr_name c"
  shows "read_pinned row = Some c"
  using assms by (auto simp: read_pinned_def name_criterion_def)

lemma parsed_steps:
  assumes "parse_completion_contract (Some raw) = Inr cs" and "raw \<noteq> JNull"
  shows "\<exists>steps. contract_steps raw = Some steps \<and> length cs = length steps \<and>
    (\<forall>i<length cs. \<exists>c0. parse_criterion (steps ! i) = Inr c0 \<and> cs ! i = name_criterion i c0)"
proof -
  from assms obtain steps where steps: "contract_steps raw = Some steps"
    and all: "list_all2 (\<lambda>iv c. (case iv of (i, v) \<Rightarrow> (case parse_criterion v of
        Inl e \<Rightarrow> Inl (ContractStep (Suc i) e) | Inr c \<Rightarrow> Inr (name_criterion i c))) = Inr c)
      (enumerate 0 steps) cs"
    by (auto simp: parse_completion_contract_def raw_absent_def map_result_Inr split: option.splits)
  have "\<exists>c0. parse_criterion (steps ! i) = Inr c0 \<and> cs ! i = name_criterion i c0" if "i < length cs" for i
    using list_all2_nthD2 [OF all that] that list_all2_lengthD [OF all]
    by (auto simp: nth_enumerate_eq split: sum.splits)
  with steps list_all2_lengthD [OF all] show ?thesis by simp
qed

lemma name_criterion_raw [simp]: "cr_raw (name_criterion i c) = cr_raw c"
  by (simp add: name_criterion_def)

lemma pinned_rows_read:
  assumes q: "quiet s" and t: "trim t \<noteq> []" and new: "\<forall>r\<in>set (st_contracts s). cc_task r \<noteq> t"
  shows "snd (pinned_completion_contract t (Some (pins.pin_all (contract_rows t plan cs) s))) =
    List.map_filter read_pinned (map stored_criterion (contract_rows t plan cs))"
proof -
  let ?rs = "contract_rows t plan cs"
  have "distinct (map (Pair t) [1..<Suc (length cs)])" by (simp add: distinct_map inj_on_def del: upt_Suc)
  then have d: "distinct (map contract_slot ?rs)" by (simp only: contract_rows_slots)
  have "contract_slot ` set ?rs \<inter> contract_slot ` set (st_contracts s) = {}"
    using new by (auto simp: contract_rows_def contract_slot_def pin_row_def)
  from pins.pin_all_fresh [OF q contract_rows_usable [OF t] d this]
  have rows: "st_contracts (pins.pin_all ?rs s) = st_contracts s @ map stored_criterion ?rs" .
  have "filter (\<lambda>r. cc_task r = t) (map stored_criterion ?rs) = map stored_criterion ?rs"
    by (rule filter_True) (auto simp: contract_rows_def stored_criterion_def pin_row_def)
  with new have f: "filter (\<lambda>r. cc_task r = t) (st_contracts (pins.pin_all ?rs s)) = map stored_criterion ?rs"
    by (simp add: rows filter_empty_conv)
  have "map cc_idx (map stored_criterion ?rs) = [1..<Suc (length cs)]"
    by (rule nth_equalityI) (simp_all add: stored_criterion_def pin_row_def del: upt_Suc)
  then have "sorted (map cc_idx (map stored_criterion ?rs))" by (simp only: sorted_upt)
  then have "contract_of t (pins.pin_all ?rs s) = map stored_criterion ?rs"
    by (simp add: contract_of_def f sort_key_id_if_sorted)
  with q t show ?thesis
    by (simp add: pinned_completion_contract_def list_completion_contract_def pin_all_quiet)
qed

lemma map_filter_nth:
  "length xs = length ys \<Longrightarrow> (\<And>i. i < length xs \<Longrightarrow> f (xs ! i) = Some (ys ! i)) \<Longrightarrow> List.map_filter f xs = ys"
proof (induction xs ys rule: list_induct2)
  case (Cons x xs y ys)
  from Cons.prems [of 0] have "f x = Some y" by simp
  moreover have "List.map_filter f xs = ys"
  proof (rule Cons.IH)
    fix i assume "i < length xs"
    with Cons.prems [of "Suc i"] show "f (xs ! i) = Some (ys ! i)" by simp
  qed
  ultimately show ?case by (simp add: List.map_filter_simps)
qed (simp add: List.map_filter_simps)

text \<open>
  C13: A contract written as objects is pinned and read back without loss: for a task that had
  none, what verification later judges is criterion for criterion the list the parser made of the
  planner's answer, the names it filled in included.
\<close>

theorem contract_round_trip:
  assumes parsed: "parse_completion_contract (Some raw) = Inr (d_contract d)"
    and objects: "\<forall>c\<in>set (d_contract d). \<exists>kvs. cr_raw c = JObj kvs"
    and task: "dc_task (d_ctx d) = Some t" "trim t \<noteq> []"
    and new: "quiet s" "\<forall>r\<in>set (st_contracts s). cc_task r \<noteq> t"
  shows "snd (pinned_completion_contract t (pin_completion_contract d plan (Some s))) = d_contract d"
proof -
  let ?cs = "d_contract d"
  have "List.map_filter read_pinned (map stored_criterion (contract_rows t plan ?cs)) = ?cs"
  proof (rule map_filter_nth)
    fix i assume "i < length (map stored_criterion (contract_rows t plan ?cs))"
    then have i: "i < length ?cs" by simp
    then have "raw \<noteq> JNull" using parsed by (auto simp: parse_completion_contract_def raw_absent_def)
    from parsed_steps [OF parsed this] i obtain v c0 where
      c0: "parse_criterion v = Inr c0" "?cs ! i = name_criterion i c0" by blast
    from c0 have "cr_raw (?cs ! i) = v" by (simp add: parse_criterion_raw)
    with objects i obtain kvs where v: "v = JObj kvs" by (metis nth_mem)
    from read_pinned_object [OF c0(1) [unfolded v] c0(2), of "stored_criterion (pin_row t plan (i, ?cs ! i))"]
      \<open>cr_raw (?cs ! i) = v\<close> v i
    show "read_pinned (map stored_criterion (contract_rows t plan ?cs) ! i) = Some (?cs ! i)"
      by (simp add: stored_criterion_def pin_row_def or_json_object_text_def)
  qed simp
  with pinned_rows_read [OF new(1) task(2) new(2)] show ?thesis by (simp add: pin_contract_all task)
qed

section \<open>A criterion written as prose\<close>

text \<open>The column keeps objects only: the words of a prose criterion are not stored.\<close>

definition blank_criterion :: "string \<Rightarrow> criterion" where
  "blank_criterion n =
    \<lparr>cr_name = n, cr_requirement = [], cr_evidence = [], cr_check = \<lparr>ck_capability = [], ck_inputs = []\<rparr>,
     cr_expect = \<lparr>ex_exists = False, ex_field = [], ex_equals = []\<rparr>, cr_raw = JObj []\<rparr>"

lemma prose_read_back:
  assumes "cr_raw c = JStr w"
  shows "read_pinned (stored_criterion (pin_row t plan (i, c))) = Some (blank_criterion (cr_name c))"
proof -
  have "parse_criterion (JObj []) = Inr (blank_criterion [])"
    by (simp add: parse_criterion_def criterion_evidence_source_def criterion_check_of_def
        criterion_expect_of_def raw_absent_def first_non_empty_def blank_criterion_def)
  then show ?thesis using assms
    by (simp add: read_pinned_def stored_criterion_def pin_row_def or_json_object_text_def blank_criterion_def)
qed

text \<open>
  A contract with a criterion written as a plain string can never be met: what the task keeps
  of that criterion is an empty object, its words are gone from the record, and no \<open>done\<close> of the
  task is accepted, whatever ran and whatever the authoritative sources say.
\<close>

theorem prose_contract_never_accepted:
  assumes c: "c \<in> set (d_contract d)" "cr_raw c = JStr w"
    and task: "dc_task (d_ctx d) = Some t" "trim t \<noteq> []"
    and new: "quiet s" "\<forall>r\<in>set (st_contracts s). cc_task r \<noteq> t"
    and rt: "rt_store rt = pin_completion_contract d plan (Some s)" "task_id_of ctx = t"
  shows "snd (verify_done rt ctx p) \<noteq> None \<and>
    blank_criterion (cr_name c) \<in> set (snd (pinned_completion_contract t (rt_store rt)))"
proof -
  from c(1) obtain i where i: "i < length (d_contract d)" "d_contract d ! i = c" by (auto simp: in_set_conv_nth)
  let ?rows = "map stored_criterion (contract_rows t plan (d_contract d))"
  from i have "?rows ! i = stored_criterion (pin_row t plan (i, c))" "i < length ?rows" by simp_all
  then have "stored_criterion (pin_row t plan (i, c)) \<in> set ?rows" by (metis nth_mem)
  with prose_read_back [OF c(2), of t plan i] have "blank_criterion (cr_name c) \<in> set (List.map_filter read_pinned ?rows)"
    by (force simp: List.map_filter_def image_iff)
  with pinned_rows_read [OF new(1) task(2) new(2)]
  have blank: "blank_criterion (cr_name c) \<in> set (snd (pinned_completion_contract t (rt_store rt)))"
    by (simp add: rt(1) pin_contract_all task)
  have "\<not> judges (cr_expect (blank_criterion (cr_name c)))" by (simp add: judges_def blank_criterion_def)
  then have "\<not> confirmed rt' ctx prior (blank_criterion (cr_name c))" for rt' :: "'a rt" and prior
    by (simp add: confirmed_def)
  with accepted_criterion [of rt ctx p "fst (verify_done rt ctx p)"] blank rt(2)
  have "snd (verify_done rt ctx p) \<noteq> None" by (metis prod.collapse)
  with blank show ?thesis by blast
qed

section \<open>Concrete contracts\<close>

definition sample_decision :: "criterion list \<Rightarrow> decision" where
  "sample_decision cs =
    \<lparr>d_type = ''plan'', d_reason = [], d_origin = \<lparr>do_reason_turn = 0, do_input_message = 0, do_reply_message = 0\<rparr>,
     d_evidence = [], d_contract = cs, d_actions = [], d_need = \<lparr>need_type = [], need_description = [], need_options = []\<rparr>,
     d_deliverables = [], d_presentation = [], d_ctx = sample_ctx\<rparr>"

definition sample_criteria :: "criterion list" where
  "sample_criteria = (case parse_completion_contract (Some (JArr [sample_contract])) of Inl e \<Rightarrow> [] | Inr cs \<Rightarrow> cs)"

lemma sample_parsed: "parse_completion_contract (Some (JArr [sample_contract])) = Inr sample_criteria"
  by code_simp

lemma empty_quiet [simp]: "quiet empty_store" and empty_contracts [simp]: "st_contracts empty_store = []"
  by (simp_all add: quiet_def empty_store_def)

lemma sample_decision_simps [simp]:
  "d_contract (sample_decision cs) = cs" "dc_task (d_ctx (sample_decision cs)) = Some ''t1''"
  by (simp_all add: sample_decision_def sample_ctx_def)

lemma sample_task [simp]: "trim ''t1'' = ''t1''"
  by code_simp

theorem pin_first_wins_witness:
  "st_contracts (the (pin_completion_contract (sample_decision [prose_criterion ''easier'' (JStr ''easier'')]) 2
      (pin_completion_contract (sample_decision sample_criteria) 1 (Some empty_store)))) =
   st_contracts (the (pin_completion_contract (sample_decision sample_criteria) 1 (Some empty_store)))"
proof -
  have "length sample_criteria = 1" by code_simp
  then show ?thesis
    using pin_first_wins [of "sample_decision sample_criteria" "''t1''"
        "sample_decision [prose_criterion ''easier'' (JStr ''easier'')]" 2 empty_store 1] by simp
qed

theorem contract_round_trip_witness:
  "snd (pinned_completion_contract ''t1''
      (pin_completion_contract (sample_decision sample_criteria) 1 (Some empty_store))) = sample_criteria"
proof -
  have "list_all (\<lambda>c. case cr_raw c of JObj _ \<Rightarrow> True | _ \<Rightarrow> False) sample_criteria" by code_simp
  then have "\<forall>c\<in>set sample_criteria. \<exists>kvs. cr_raw c = JObj kvs"
    unfolding list_all_iff
  proof (intro ballI)
    fix c assume "\<forall>c\<in>set sample_criteria. case cr_raw c of JObj _ \<Rightarrow> True | _ \<Rightarrow> False" "c \<in> set sample_criteria"
    then show "\<exists>kvs. cr_raw c = JObj kvs" by (cases "cr_raw c") auto
  qed
  then show ?thesis
    using contract_round_trip [of "JArr [sample_contract]" "sample_decision sample_criteria" "''t1''" empty_store 1]
      sample_parsed by simp
qed

definition prose_rt :: "unit rt" where
  "prose_rt = sample_rt\<lparr>rt_store := pin_completion_contract
     (sample_decision [prose_criterion ''tests pass'' (JStr ''tests pass'')]) 1 (Some empty_store)\<rparr>"

theorem prose_contract_never_accepted_witness:
  "snd (verify_done prose_rt sample_ctx 1) \<noteq> None \<and>
   blank_criterion [] \<in> set (snd (pinned_completion_contract ''t1'' (rt_store prose_rt)))"
  using prose_contract_never_accepted [of "prose_criterion ''tests pass'' (JStr ''tests pass'')"
      "sample_decision [prose_criterion ''tests pass'' (JStr ''tests pass'')]" "''tests pass''" "''t1''"
      empty_store prose_rt 1 sample_ctx 1]
  by (simp add: prose_criterion_def prose_rt_def sample_ctx_def task_id_of_def)

end
