(* ===== verification/Runtime_Exec.thy ===== *)
theory Runtime_Exec
  imports Contract_Laws
begin

text \<open>
  The runtime's execution of a decision (src/runtime.go): the checks before anything runs, the
  plan written before its steps, the steps one after the other with each record kept, and the
  judgement of a \<open>done\<close>.  JSON texts of a plan are the values they denote; the plan's fingerprint
  is taken of their text.
\<close>

section \<open>What a plan row and its steps say\<close>

definition planned_capability :: "action \<Rightarrow> string" where
  "planned_capability a = (case a of CapAction s \<Rightarrow> to_lower (trim (ca_name s)) | _ \<Rightarrow> [])"

definition planned_name :: "action \<Rightarrow> string" where
  "planned_name a = (case a of CapAction s \<Rightarrow> trim (ca_step_name s) | _ \<Rightarrow> [])"

definition planned_input :: "action \<Rightarrow> json" where
  "planned_input a =
    (case capability_step a of None \<Rightarrow> JObj []
     | Some s \<Rightarrow> JObj (map (\<lambda>k. (k, marshal_input (the (map_of (ca_inputs s) k)))) (sorted_keys (ca_inputs s))))"

definition planned_expected_effect :: "action \<Rightarrow> string" where
  "planned_expected_effect a = (case a of CapAction s \<Rightarrow> ca_expected_effect s | _ \<Rightarrow> [])"

definition planned_evidence_refs :: "action \<Rightarrow> json" where
  "planned_evidence_refs a = (case a of CapAction s \<Rightarrow> JArr (map JStr (ca_evidence_refs s)) | _ \<Rightarrow> JArr [])"

definition json_evidence :: "evidence \<Rightarrow> json" where
  "json_evidence e = JObj [(''id'', JStr (ev_id e)), (''source'', JStr (ev_source e)),
     (''reference'', JStr (ev_reference e)), (''fact'', JStr (ev_fact e))]"

definition json_need :: "need \<Rightarrow> json" where
  "json_need n =
    (if trim (need_type n) = [] \<and> trim (need_description n) = [] then JObj []
     else JObj ([(''type'', JStr (need_type n)), (''description'', JStr (need_description n))] @
            (if need_options n = [] then [] else [(''options'', JArr (map JStr (need_options n)))])))"

text \<open>The non-nil actions of a plan with their 0-based positions.\<close>

definition planned_actions :: "action list \<Rightarrow> (nat \<times> action) list" where
  "planned_actions as = filter (\<lambda>(i, a). a \<noteq> NilAction) (enumerate 0 as)"

definition plan_hash :: "(string \<Rightarrow> string) \<Rightarrow> action list \<Rightarrow> string" where
  "plan_hash digest as =
    digest (concat (map (\<lambda>(i, a). show_nat (Suc i) @ ''|'' @ planned_capability a @ ''|'' @
                                   show_json (planned_input a) @ ''|'') (planned_actions as)))"

definition plan_step_id :: "step_plan_row list \<Rightarrow> nat \<Rightarrow> nat" where
  "plan_step_id planned i = (case find (\<lambda>r. sp_idx r = Suc i) planned of None \<Rightarrow> 0 | Some r \<Rightarrow> sp_id r)"

section \<open>Recording\<close>

definition plan_row_of :: "'w rt \<Rightarrow> decision \<Rightarrow> nat \<Rightarrow> plan_row" where
  "plan_row_of rt d task_input =
    \<lparr>pl_id = 0, pl_task = task_id_of (d_ctx d), pl_agent = agent_id_of (d_ctx d), pl_cycle = dc_cycle (d_ctx d),
     pl_type = trim (d_type d), pl_reason = d_reason d, pl_evidence = JArr (map json_evidence (d_evidence d)),
     pl_need = json_need (d_need d), pl_step_count = length (d_actions d),
     pl_hash = plan_hash (rt_digest rt) (d_actions d), pl_reply = do_reply_message (d_origin d),
     pl_input = do_input_message (d_origin d), pl_task_input = task_input, pl_turn = do_reason_turn (d_origin d)\<rparr>"

definition step_plan_rows :: "action list \<Rightarrow> step_plan_row list" where
  "step_plan_rows as =
    map (\<lambda>(i, a). \<lparr>sp_id = 0, sp_plan = 0, sp_idx = Suc i, sp_name = planned_name a,
                   sp_capability = planned_capability a, sp_input = planned_input a,
                   sp_effect = planned_expected_effect a, sp_refs = planned_evidence_refs a\<rparr>) (planned_actions as)"

definition record_plan :: "'w rt \<Rightarrow> decision \<Rightarrow> 'w rt \<times> nat \<times> step_plan_row list \<times> store_error option" where
  "record_plan rt d =
    (let task = task_id_of (d_ctx d); input = do_input_message (d_origin d);
         (st1, task_input) =
           (if task = [] then (rt_store rt, 0)
            else (case task_input_message_lookup task (rt_store rt) of
                    (st', Some i) \<Rightarrow> (st', i) | (st', None) \<Rightarrow> (st', input)));
         (st2, plan_id, saved, err) = save_execution_plan (plan_row_of rt d task_input) (step_plan_rows (d_actions d)) st1
     in (rt\<lparr>rt_store := st2\<rparr>, plan_id, (if err = None then saved else []), err))"

fun save_interactions :: "nat \<Rightarrow> nat \<Rightarrow> (string \<times> nat) list \<Rightarrow> store option \<Rightarrow> store option" where
  "save_interactions step seq [] st = st"
| "save_interactions step seq ((provider, turn) # ts) st =
     save_interactions step (Suc seq) ts
       (save_execution_step_interaction
          \<lparr>in_step = step, in_seq = Suc seq, in_kind = ''llm'', in_provider = provider, in_turn = turn\<rparr> st)"

definition step_row_of ::
  "'w rt \<Rightarrow> decision \<Rightarrow> nat \<Rightarrow> step_plan_row list \<Rightarrow> nat \<Rightarrow> action_result \<Rightarrow> action_error option \<Rightarrow> step_row" where
  "step_row_of rt d plan_id planned i rec err =
    \<lparr>es_id = 0, es_plan = plan_id, es_plan_step = plan_step_id planned i, es_task = task_id_of (d_ctx d),
     es_agent = agent_id_of (d_ctx d), es_cycle = dc_cycle (d_ctx d), es_idx = Suc i,
     es_name = trim (ar_step_name rec), es_capability = ar_capability rec,
     es_provider = provider_of rt (ar_capability rec), es_status = (if err = None then StepOk else StepFailed),
     es_input = json_object (ar_input rec), es_output = json_object (ar_output rec), es_error = ar_error rec\<rparr>"

definition record_step ::
  "'w rt \<Rightarrow> decision \<Rightarrow> nat \<Rightarrow> step_plan_row list \<Rightarrow> nat \<Rightarrow> action_result \<Rightarrow> action_error option \<Rightarrow> 'w rt \<times> nat" where
  "record_step rt d plan_id planned i rec err =
    (if plan_id = 0 then (rt, 0)
     else (case save_execution_step (step_row_of rt d plan_id planned i rec err) (rt_store rt) of
             (st', step_id) \<Rightarrow>
               if step_id = 0 then (rt\<lparr>rt_store := st'\<rparr>, 0)
               else (rt\<lparr>rt_store := save_interactions step_id 0 (rt_turns rt (rt_outside rt)) st'\<rparr>, step_id)))"

section \<open>Executing a decision\<close>

datatype exec_error =
    BadDecision decision_violation
  | BadLineage lineage_error
  | BadContract contract_error
  | RecordFailed store_error
  | DoneRefused verification_error
  | StepError action_error

datatype run_message =
    NoMessage
  | ErrorMessage exec_error
  | NothingToExecute string
  | ActionFailed nat nat string action_error
  | ExecutedActions nat "string list"

record run_result =
  rr_message :: run_message
  rr_actions :: "action_result list"
  rr_error :: "exec_error option"

definition failed_result :: "exec_error \<Rightarrow> run_result" where
  "failed_result e = \<lparr>rr_message = ErrorMessage e, rr_actions = [], rr_error = Some e\<rparr>"

definition check_before_run :: "'w rt \<Rightarrow> decision \<Rightarrow> exec_error option" where
  "check_before_run rt d =
    or_else (map_option BadDecision (validate_decision d))
      (or_else (map_option BadLineage (validate_plan_lineage (rt_factory rt) (d_actions d)))
        (if dc_cycle (d_ctx d) = 1
         then map_option BadContract (validate_completion_contract (rt_factory rt) (d_contract d) (d_actions d))
         else None))"

text \<open>
  The loop over the actions: \<open>results\<close> are the records so far, which later bindings read.  The
  first error ends it, with the failing record kept.
\<close>

fun run_actions ::
  "'w rt \<Rightarrow> decision \<Rightarrow> nat \<Rightarrow> step_plan_row list \<Rightarrow> (nat \<times> action) list \<Rightarrow> action_result list
     \<Rightarrow> 'w rt \<times> action_result list \<times> (nat \<times> action_result \<times> action_error) option" where
  "run_actions rt d plan_id planned [] results = (rt, results, None)"
| "run_actions rt d plan_id planned ((i, a) # as) results =
    (if a = NilAction then run_actions rt d plan_id planned as results
     else (case execute_action (rt_factory rt) (rt_outside rt) ((d_ctx d)\<lparr>dc_step_outputs := results\<rparr>) a of
             (w', rec0, err) \<Rightarrow>
               (let rec = rec0\<lparr>ar_error := err, ar_plan_step_id := plan_step_id planned i\<rparr>;
                    (rt', step_id) = record_step (rt\<lparr>rt_outside := w'\<rparr>) d plan_id planned i rec err;
                    rec' = rec\<lparr>ar_execution_step_id := step_id\<rparr>
                in (case err of None \<Rightarrow> run_actions rt' d plan_id planned as (results @ [rec'])
                    | Some e \<Rightarrow> (rt', results @ [rec'], Some (i, rec', e))))))"

definition execute_recorded ::
  "'w rt \<Rightarrow> decision \<Rightarrow> nat \<Rightarrow> step_plan_row list \<Rightarrow> 'w rt \<times> run_result \<times> exec_error option" where
  "execute_recorded rt d plan_id planned =
    (if d_actions d = [] then
       (case (if is_done d then verify_done rt (d_ctx d) plan_id else (rt, None)) of
          (rt', Some e) \<Rightarrow> (rt', failed_result (DoneRefused e), Some (DoneRefused e))
        | (rt', None) \<Rightarrow>
            (rt', \<lparr>rr_message = NothingToExecute (d_type d), rr_actions = [], rr_error = None\<rparr>, None))
     else
       (case run_actions rt d plan_id planned (enumerate 0 (d_actions d)) [] of
          (rt', results, Some (i, rec, e)) \<Rightarrow>
            (rt', \<lparr>rr_message = ActionFailed (Suc i) (length (d_actions d)) (ar_capability rec) e,
                   rr_actions = results, rr_error = Some (StepError e)\<rparr>, Some (StepError e))
        | (rt', results, None) \<Rightarrow>
            (rt', \<lparr>rr_message = ExecutedActions (length results) (map ar_capability results),
                   rr_actions = results, rr_error = None\<rparr>, None)))"

definition pin_at_first_cycle :: "'w rt \<Rightarrow> decision \<Rightarrow> nat \<Rightarrow> 'w rt" where
  "pin_at_first_cycle rt d plan_id =
    (if dc_cycle (d_ctx d) = 1 then rt\<lparr>rt_store := pin_completion_contract d plan_id (rt_store rt)\<rparr> else rt)"

definition execute_plan ::
  "'w rt \<Rightarrow> decision \<Rightarrow> nat \<Rightarrow> step_plan_row list \<Rightarrow> 'w rt \<times> run_result \<times> exec_error option" where
  "execute_plan rt d plan_id planned =
    (if plan_id \<noteq> 0 then execute_recorded rt d plan_id planned
     else (case check_before_run rt d of
             Some e \<Rightarrow> (rt, failed_result e, Some e)
           | None \<Rightarrow>
               (case record_plan rt d of
                  (rt1, pid, saved, Some e) \<Rightarrow>
                    (rt1, \<lparr>rr_message = NoMessage, rr_actions = [], rr_error = Some (RecordFailed e)\<rparr>,
                     Some (RecordFailed e))
                | (rt1, pid, saved, None) \<Rightarrow> execute_recorded (pin_at_first_cycle rt1 d pid) d pid saved)))"

definition execute :: "'w rt \<Rightarrow> decision \<Rightarrow> 'w rt \<times> run_result \<times> exec_error option" where
  "execute rt d = execute_plan rt d 0 []"

definition execute_approved ::
  "'w rt \<Rightarrow> decision \<Rightarrow> nat \<Rightarrow> step_plan_row list \<Rightarrow> 'w rt \<times> run_result \<times> exec_error option" where
  "execute_approved rt d plan_id planned = execute_plan rt d plan_id planned"

definition record_plan_only :: "'w rt \<Rightarrow> decision \<Rightarrow> 'w rt \<times> nat \<times> step_plan_row list \<times> exec_error option" where
  "record_plan_only rt d =
    (case check_before_run rt d of
       Some e \<Rightarrow> (rt, 0, [], Some e)
     | None \<Rightarrow>
         (case record_plan rt d of
            (rt1, pid, saved, Some e) \<Rightarrow> (rt1, pid, [], Some (RecordFailed e))
          | (rt1, pid, saved, None) \<Rightarrow> (pin_at_first_cycle rt1 d pid, pid, saved, None)))"

end
