(* ===== verification/Runtime_Laws.thy ===== *)
theory Runtime_Laws
  imports Runtime_Exec
begin

text \<open>
  What executing a decision guarantees: a refused decision leaves no trace, nothing runs without
  its plan on record, the steps that ran are the plan's first ones with the failure last, every
  step that ran has its row, and a plan whose lineage was checked never asks for an output of a
  step that did not run.
\<close>

section \<open>The loop over the actions\<close>

lemma record_step_frame:
  "record_step rt d p planned i r err = (rt', n) \<Longrightarrow> rt' = rt\<lparr>rt_store := rt_store rt'\<rparr>"
  by (auto simp: record_step_def split: if_splits prod.splits)

lemma record_step_frame_simps:
  assumes "record_step rt d p planned i r err = (rt', n)"
  shows "rt_factory rt' = rt_factory rt" "rt_caps rt' = rt_caps rt" "rt_outside rt' = rt_outside rt"
    "rt_digest rt' = rt_digest rt" "rt_turns rt' = rt_turns rt"
  by (subst record_step_frame [OF assms], simp)+

definition real_actions :: "(nat \<times> action) list \<Rightarrow> (nat \<times> action) list" where
  "real_actions ias = filter (\<lambda>(i, a). a \<noteq> NilAction) ias"

lemma real_actions_simps [simp]:
  "real_actions [] = []"
  "real_actions ((i, a) # ias) = (if a = NilAction then real_actions ias else (i, a) # real_actions ias)"
  by (simp_all add: real_actions_def)

lemma planned_actions_real: "planned_actions as = real_actions (enumerate 0 as)"
  by (simp add: planned_actions_def real_actions_def)

text \<open>One real step of the loop, with the record it appends.\<close>

lemma run_actions_step:
  assumes "a \<noteq> NilAction"
  obtains w' rec0 err rt1 step_id rec where
    "execute_action (rt_factory rt) (rt_outside rt) ((d_ctx d)\<lparr>dc_step_outputs := results\<rparr>) a = (w', rec0, err)"
    "record_step (rt\<lparr>rt_outside := w'\<rparr>) d p planned i (rec0\<lparr>ar_error := err, ar_plan_step_id := plan_step_id planned i\<rparr>) err
       = (rt1, step_id)"
    "rec = rec0\<lparr>ar_error := err, ar_plan_step_id := plan_step_id planned i, ar_execution_step_id := step_id\<rparr>"
    "run_actions rt d p planned ((i, a) # ias) results =
       (case err of None \<Rightarrow> run_actions rt1 d p planned ias (results @ [rec])
        | Some e \<Rightarrow> (rt1, results @ [rec], Some (i, rec, e)))"
    "ar_step_name rec = planned_name a" "ar_error rec = err" "ar_plan_step_id rec = plan_step_id planned i"
    "rt_factory rt1 = rt_factory rt"
proof -
  obtain w' rec0 err where x:
    "execute_action (rt_factory rt) (rt_outside rt) ((d_ctx d)\<lparr>dc_step_outputs := results\<rparr>) a = (w', rec0, err)"
    by (metis prod_cases3)
  obtain rt1 step_id where r: "record_step (rt\<lparr>rt_outside := w'\<rparr>) d p planned i
      (rec0\<lparr>ar_error := err, ar_plan_step_id := plan_step_id planned i\<rparr>) err = (rt1, step_id)" by fastforce
  show ?thesis
    by (rule that [OF x r refl])
      (use assms x r in \<open>auto simp: Let_def record_step_frame_simps [OF r] planned_name_def
        execute_action_step_name [OF x] split: action.splits\<close>)
qed

text \<open>What the records of a run say, against the real actions it was given.\<close>

definition records_match ::
  "step_plan_row list \<Rightarrow> (nat \<times> action) list \<Rightarrow> action_result list \<Rightarrow> bool \<Rightarrow> bool" where
  "records_match planned real new failed \<longleftrightarrow>
     length new \<le> length real \<and>
     (\<forall>k<length new. ar_step_name (new ! k) = planned_name (snd (real ! k)) \<and>
        ar_plan_step_id (new ! k) = plan_step_id planned (fst (real ! k)) \<and>
        (ar_error (new ! k) \<noteq> None \<longleftrightarrow> failed \<and> Suc k = length new))"

lemma records_match_Nil [simp]: "records_match planned real [] failed"
  by (simp add: records_match_def)

lemma records_match_Cons:
  "ar_step_name r = planned_name a \<Longrightarrow> ar_plan_step_id r = plan_step_id planned i \<Longrightarrow>
   (ar_error r \<noteq> None \<longleftrightarrow> failed \<and> new = []) \<Longrightarrow> records_match planned real new failed \<Longrightarrow>
   records_match planned ((i, a) # real) (r # new) failed"
  by (auto simp: records_match_def nth_Cons split: nat.splits)

lemma run_actions_records:
  assumes "run_actions rt d p planned ias results = (rt', results', stop)"
  shows "\<exists>new. results' = results @ new \<and> rt_factory rt' = rt_factory rt \<and>
    records_match planned (real_actions ias) new (stop \<noteq> None) \<and>
    (stop = None \<longrightarrow> length new = length (real_actions ias)) \<and> (stop \<noteq> None \<longrightarrow> new \<noteq> [])"
  using assms
proof (induction ias arbitrary: rt results)
  case (Cons ia ias)
  obtain i a where ia: "ia = (i, a)" by fastforce
  show ?case
  proof (cases "a = NilAction")
    case True
    with Cons ia show ?thesis by simp
  next
    case False
    obtain w' rec0 err rt1 step_id rec where step:
      "run_actions rt d p planned ((i, a) # ias) results =
       (case err of None \<Rightarrow> run_actions rt1 d p planned ias (results @ [rec])
        | Some e \<Rightarrow> (rt1, results @ [rec], Some (i, rec, e)))"
      "ar_step_name rec = planned_name a" "ar_error rec = err" "ar_plan_step_id rec = plan_step_id planned i"
      "rt_factory rt1 = rt_factory rt"
      by (rule run_actions_step [OF False, where rt = rt and d = d and results = results and p = p and planned = planned
          and i = i and ias = ias]) blast
    show ?thesis
    proof (cases err)
      case None
      with Cons.prems ia step(1) have "run_actions rt1 d p planned ias (results @ [rec]) = (rt', results', stop)" by simp
      from Cons.IH [OF this] obtain new where new: "results' = (results @ [rec]) @ new" "rt_factory rt' = rt_factory rt1"
        "records_match planned (real_actions ias) new (stop \<noteq> None)"
        "stop = None \<longrightarrow> length new = length (real_actions ias)" "stop \<noteq> None \<longrightarrow> new \<noteq> []" by blast
      have "records_match planned ((i, a) # real_actions ias) (rec # new) (stop \<noteq> None)"
        by (rule records_match_Cons) (use new step None in auto)
      with new step ia False show ?thesis by (intro exI [of _ "rec # new"]) simp
    next
      case (Some e)
      with Cons.prems ia step(1) have e: "rt' = rt1" "results' = results @ [rec]" "stop = Some (i, rec, e)" by auto
      have "records_match planned ((i, a) # real_actions ias) [rec] (stop \<noteq> None)"
        by (rule records_match_Cons) (use e step Some in auto)
      with e step ia False show ?thesis by (intro exI [of _ "[rec]"]) simp
    qed
  qed
qed simp

text \<open>Where a failed run stopped: the failing action, and the records its bindings read.\<close>

lemma run_actions_stop:
  assumes "run_actions rt d p planned ias results = (rt', results', Some (i, r, e))"
  shows "\<exists>pre post a w w' prior r0. ias = pre @ (i, a) # post \<and> a \<noteq> NilAction \<and>
    results' = prior @ [r] \<and>
    map ar_step_name prior = map ar_step_name results @ map (planned_name \<circ> snd) (real_actions pre) \<and>
    execute_action (rt_factory rt) w ((d_ctx d)\<lparr>dc_step_outputs := prior\<rparr>) a = (w', r0, Some e)"
  using assms
proof (induction ias arbitrary: rt results)
  case (Cons ia ias)
  obtain j a where ia: "ia = (j, a)" by fastforce
  show ?case
  proof (cases "a = NilAction")
    case True
    with Cons.prems ia have "run_actions rt d p planned ias results = (rt', results', Some (i, r, e))" by simp
    from Cons.IH [OF this] obtain pre post a' w w' prior r0 where
      ih: "ias = pre @ (i, a') # post" "a' \<noteq> NilAction" "results' = prior @ [r]"
        "map ar_step_name prior = map ar_step_name results @ map (planned_name \<circ> snd) (real_actions pre)"
        "execute_action (rt_factory rt) w ((d_ctx d)\<lparr>dc_step_outputs := prior\<rparr>) a' = (w', r0, Some e)" by blast
    have "ia # ias = (ia # pre) @ (i, a') # post" and "real_actions (ia # pre) = real_actions pre"
      using ih(1) ia True by simp_all
    with ih show ?thesis by metis
  next
    case False
    obtain w' rec0 err rt1 step_id rec where step:
      "execute_action (rt_factory rt) (rt_outside rt) ((d_ctx d)\<lparr>dc_step_outputs := results\<rparr>) a = (w', rec0, err)"
      "run_actions rt d p planned ((j, a) # ias) results =
       (case err of None \<Rightarrow> run_actions rt1 d p planned ias (results @ [rec])
        | Some e \<Rightarrow> (rt1, results @ [rec], Some (j, rec, e)))"
      "ar_step_name rec = planned_name a" "rt_factory rt1 = rt_factory rt"
      by (rule run_actions_step [OF False, where rt = rt and d = d and results = results and p = p and planned = planned
          and i = j and ias = ias]) blast
    show ?thesis
    proof (cases err)
      case None
      with Cons.prems ia step(2) have
        "run_actions rt1 d p planned ias (results @ [rec]) = (rt', results', Some (i, r, e))" by simp
      from Cons.IH [OF this] obtain pre post a' w w' prior r0 where
        ih: "ias = pre @ (i, a') # post" "a' \<noteq> NilAction" "results' = prior @ [r]"
          "map ar_step_name prior = map ar_step_name (results @ [rec]) @ map (planned_name \<circ> snd) (real_actions pre)"
          "execute_action (rt_factory rt1) w ((d_ctx d)\<lparr>dc_step_outputs := prior\<rparr>) a' = (w', r0, Some e)" by blast
      have "ia # ias = (ia # pre) @ (i, a') # post" and
        "map ar_step_name prior = map ar_step_name results @ map (planned_name \<circ> snd) (real_actions (ia # pre))" and
        "execute_action (rt_factory rt) w ((d_ctx d)\<lparr>dc_step_outputs := prior\<rparr>) a' = (w', r0, Some e)"
        using ih ia False step(3,4) by simp_all
      with ih(2,3) show ?thesis by blast
    next
      case (Some e')
      with Cons.prems ia step(2) have e: "i = j" "results' = results @ [r]" "e' = e" by auto
      have "ia # ias = [] @ (i, a) # ias" and
        "map ar_step_name results = map ar_step_name results @ map (planned_name \<circ> snd) (real_actions [])" and
        "execute_action (rt_factory rt) (rt_outside rt) ((d_ctx d)\<lparr>dc_step_outputs := results\<rparr>) a = (w', rec0, Some e)"
        using step(1) Some e ia by simp_all
      with False e(2) show ?thesis by blast
    qed
  qed
qed simp

section \<open>Execution\<close>

text \<open>
  A decision the checks refuse (its type's rules, the plan's data lineage, and on the first
  cycle its completion contract) runs nothing and writes nothing: the runtime's whole state is
  what it was, no action is reported, and the refusal is the result.  This holds for the plan
  that is only put on record for approval as well.
\<close>

theorem refused_decision_changes_nothing:
  assumes "validate_decision d \<noteq> None \<or> validate_plan_lineage (rt_factory rt) (d_actions d) \<noteq> None \<or>
    dc_cycle (d_ctx d) = 1 \<and> validate_completion_contract (rt_factory rt) (d_contract d) (d_actions d) \<noteq> None"
  shows "\<exists>e. execute rt d = (rt, failed_result e, Some e) \<and> record_plan_only rt d = (rt, 0, [], Some e) \<and>
    rr_actions (failed_result e) = []"
proof -
  from assms obtain e where "check_before_run rt d = Some e"
    by (cases "check_before_run rt d") (auto simp: check_before_run_def)
  then show ?thesis by (simp add: execute_def execute_plan_def record_plan_only_def failed_result_def)
qed

text \<open>
  C9: The actions a recorded plan reports are its first real ones, in order and under their plan's
  names and step ids; an error, when there is one, is in the last of them and ends the run, and
  without one every action of the plan ran.
\<close>

theorem execution_stops_at_first_failure:
  assumes "execute_recorded rt d p planned = (rt', res, err)" and "d_actions d \<noteq> []"
  shows "records_match planned (planned_actions (d_actions d)) (rr_actions res) (err \<noteq> None) \<and>
    (err = None \<longrightarrow> length (rr_actions res) = length (planned_actions (d_actions d))) \<and>
    (err \<noteq> None \<longrightarrow> rr_actions res \<noteq> [])"
proof -
  obtain rt2 results stop where run:
    "run_actions rt d p planned (enumerate 0 (d_actions d)) [] = (rt2, results, stop)" by (metis prod_cases3)
  with assms have "rr_actions res = results" "err \<noteq> None \<longleftrightarrow> stop \<noteq> None"
    by (auto simp: execute_recorded_def split: option.splits)
  with run_actions_records [OF run] show ?thesis by (auto simp: planned_actions_real)
qed

section \<open>The bindings of a checked plan\<close>

lemma resolve_one_error:
  "resolve_one am prior ins k = Inl x \<Longrightarrow>
     \<exists>inp e. x = InputError k e \<and> map_of ins k = Some inp \<and> is_binding inp \<and>
       resolve_input_source am prior (si_source inp) = Inl e"
  by (cases "map_of ins k") (auto simp: resolve_one_def split: if_splits sum.splits)

lemma execute_action_input_error:
  assumes "execute_action f w ctx a = (w', r, Some (InputError k e))"
  shows "\<exists>s inp. a = CapAction s \<and> map_of (ca_inputs s) k = Some inp \<and> is_binding inp \<and>
    resolve_input_source (fst w) (dc_step_outputs ctx) (si_source inp) = Inl e"
proof -
  from assms obtain s where s: "a = CapAction s" and c: "capability_execute f w ctx s = (w', r, Some (InputError k e))"
    by (auto simp: execute_action_def split: action.splits)
  from capability_execute_error [OF c] have "resolve_step_inputs (fst w) (dc_step_outputs ctx) (ca_inputs s) = Inl (InputError k e)"
    by simp
  then obtain k' where "resolve_one (fst w) (dc_step_outputs ctx) (ca_inputs s) k' = Inl (InputError k e)"
    unfolding resolve_step_inputs_def by (blast dest: map_result_Inl)
  from resolve_one_error [OF this] s show ?thesis by auto
qed

text \<open>The plan promises the output: a step of that name declares the key among its outputs.\<close>

definition promised :: "'w factory option \<Rightarrow> action list \<Rightarrow> string \<Rightarrow> string \<Rightarrow> bool" where
  "promised f as st key \<longleftrightarrow>
     (\<exists>j t outs. named_step as j st t \<and> declared_outputs_of f (ca_name t) = Some outs \<and> field_accepts outs key)"

lemma checked_binding_error:
  assumes ok: "binding_ok f as i src" and e: "resolve_input_source am prior src = Inl e"
    and ran: "\<And>j st t. j < i \<Longrightarrow> named_step as j st t \<Longrightarrow> st \<in> set (map ar_step_name prior)"
  shows "(\<exists>st key ks. (e = StepMissingOutput st key ks \<or> e = StepEmptyOutput st key) \<and> promised f as st key) \<or>
    (\<exists>path. e = NoWorldModel path \<and> am = None) \<or> (\<exists>path we. e = WorldReadError path we)"
proof (cases "parse_input_source src")
  case (Inl x)
  with ok show ?thesis by (simp add: binding_ok_def)
next
  case (Inr isrc)
  show ?thesis
  proof (cases isrc)
    case (SrcWorld x path)
    with Inr have "world_field (path_field path)" using parse_world_source [of src x path] by blast
    with e Inr SrcWorld show ?thesis
      by (auto simp: resolve_input_source_def world_value_def world_field_def split: option.splits sum.splits if_splits)
  next
    case (SrcStep x st key)
    with ok Inr have "\<exists>j t outs. j < i \<and> named_step as j st t \<and>
        declared_outputs_of f (ca_name t) = Some outs \<and> field_accepts outs key" by (simp add: binding_ok_def)
    then obtain j t outs where j: "j < i" "named_step as j st t"
      "declared_outputs_of f (ca_name t) = Some outs" "field_accepts outs key" by blast
    then have "promised f as st key" unfolding promised_def by blast
    moreover from ran [OF j(1,2)] have "find (\<lambda>r. ar_step_name r = st) prior \<noteq> None"
      by (auto simp: find_None_iff simp del: not_None_eq)
    ultimately show ?thesis using e Inr SrcStep
      by (auto simp: resolve_input_source_def split: option.splits if_splits)
  qed
qed

lemma real_actions_names:
  "named_step as j st t \<Longrightarrow> j < i \<Longrightarrow> i \<le> length as \<Longrightarrow>
     st \<in> set (map (planned_name \<circ> snd) (real_actions (take i (enumerate 0 as))))"
proof -
  assume n: "named_step as j st t" and j: "j < i" "i \<le> length as"
  then have "(j, CapAction t) \<in> set (take i (enumerate 0 as))"
    by (auto simp: named_step_def in_set_conv_nth nth_enumerate_eq intro!: exI [of _ j])
  then have "(j, CapAction t) \<in> set (real_actions (take i (enumerate 0 as)))" by (simp add: real_actions_def)
  moreover have "planned_name (CapAction t) = st" using n by (simp add: named_step_def planned_name_def)
  ultimately show ?thesis by force
qed

text \<open>
  C6: A plan whose data lineage was checked never fails on an unreadable source, on a step that did
  not run or does not exist, or on a World Model field that is not one.  When a binding of it
  fails while it runs, it is because a step that declared the output did not report it (or
  reported it blank), or because the World Model is absent or has no such asset.
\<close>

theorem checked_plan_binding_errors:
  assumes checked: "validate_plan_lineage (rt_factory rt) (d_actions d) = None"
    and run: "execute_recorded rt d p planned = (rt', res, Some (StepError (InputError k e)))"
  shows "(\<exists>st key ks. (e = StepMissingOutput st key ks \<or> e = StepEmptyOutput st key) \<and>
       promised (rt_factory rt) (d_actions d) st key) \<or>
    (\<exists>path. e = NoWorldModel path) \<or> (\<exists>path we. e = WorldReadError path we)"
proof -
  let ?as = "d_actions d"
  from run obtain rt2 results i r where
    "run_actions rt d p planned (enumerate 0 ?as) [] = (rt2, results, Some (i, r, InputError k e))"
    by (auto simp: execute_recorded_def split: if_splits prod.splits option.splits)
  from run_actions_stop [OF this] obtain pre post a w w' prior r0 where
    split: "enumerate 0 ?as = pre @ (i, a) # post"
    and prior: "map ar_step_name prior = map (planned_name \<circ> snd) (real_actions pre)"
    and exec: "execute_action (rt_factory rt) w ((d_ctx d)\<lparr>dc_step_outputs := prior\<rparr>) a = (w', r0, Some (InputError k e))"
    by auto
  define n where "n = length pre"
  from split have n: "n < length ?as" by (metis n_def length_append length_enumerate less_add_Suc1 list.size(4) add_Suc_right)
  have at: "enumerate 0 ?as ! n = (i, a)" by (simp add: split n_def)
  with n have i: "i = n" and a: "?as ! n = a" by (auto simp: nth_enumerate_eq)
  have pre: "pre = take n (enumerate 0 ?as)" by (simp add: split n_def)
  from execute_action_input_error [OF exec] obtain s inp where
    s: "a = CapAction s" "map_of (ca_inputs s) k = Some inp" "is_binding inp"
      "resolve_input_source (fst w) prior (si_source inp) = Inl e" by auto
  from checked have "lineage_ok (rt_factory rt) ?as" by (simp add: validate_plan_lineage_iff)
  with n a s have "step_ok (rt_factory rt) ?as n s" by (simp add: lineage_ok_def)
  with s have "binding_ok (rt_factory rt) ?as n (si_source inp)" unfolding step_ok_def by blast
  moreover have "st \<in> set (map ar_step_name prior)" if "j < n" "named_step ?as j st t" for j st t
    unfolding prior pre using real_actions_names [OF that(2,1)] n by simp
  ultimately show ?thesis using checked_binding_error [OF _ s(4)] by blast
qed

section \<open>A concrete plan\<close>

text \<open>Two steps: a build, and a check of the artifact the build reports.\<close>

definition sample_steps :: "action list" where
  "sample_steps =
    [CapAction \<lparr>ca_name = ''build'', ca_step_name = ''build'', ca_inputs = [(''task'', literal_input ''make'')],
                ca_expected_effect = ''an artifact'', ca_evidence_refs = []\<rparr>,
     NilAction,
     CapAction \<lparr>ca_name = ''artifact_check'', ca_step_name = ''check'',
                ca_inputs = [(''artifact_id'', bound_input ''step:build.output.artifact_id'')],
                ca_expected_effect = ''a status'', ca_evidence_refs = []\<rparr>]"

definition sample_plan :: decision where
  "sample_plan = (sample_decision [])\<lparr>d_actions := sample_steps\<rparr>"

text \<open>A build that declares its artifact and does not report it.\<close>

definition silent_build :: "unit capability" where
  "silent_build = sample_build\<lparr>cap_run := (\<lambda>inp w. (w, [], None))\<rparr>"

definition silent_rt :: "unit rt" where
  "silent_rt = sample_rt\<lparr>rt_factory := Some (register silent_build (register sample_check new_factory))\<rparr>"

theorem refused_decision_changes_nothing_witness:
  "\<exists>e. execute sample_rt (sample_decision []) = (sample_rt, failed_result e, Some e) \<and>
     record_plan_only sample_rt (sample_decision []) = (sample_rt, 0, [], Some e) \<and>
     rr_actions (failed_result e) = []"
proof -
  have "validate_decision (sample_decision []) \<noteq> None" by code_simp
  then show ?thesis by (intro refused_decision_changes_nothing) simp
qed

definition sample_run :: "unit rt \<Rightarrow> unit rt \<times> run_result \<times> exec_error option" where
  "sample_run rt = execute_recorded rt sample_plan 2 []"

lemma sample_run_eq: "execute_recorded rt sample_plan 2 [] = (fst (sample_run rt), fst (snd (sample_run rt)), snd (snd (sample_run rt)))"
  by (simp add: sample_run_def)

lemma sample_plan_actions: "d_actions sample_plan = sample_steps" "sample_steps \<noteq> []"
  by (simp_all add: sample_plan_def sample_steps_def)

theorem execution_stops_at_first_failure_witness:
  "length (rr_actions (fst (snd (sample_run sample_rt)))) = 2 \<and>
   records_match [] (planned_actions sample_steps) (rr_actions (fst (snd (sample_run sample_rt)))) False"
proof -
  have "snd (snd (sample_run sample_rt)) = None" and "length (planned_actions sample_steps) = 2" by code_simp+
  then show ?thesis
    using execution_stops_at_first_failure [OF sample_run_eq [of sample_rt]] by (simp add: sample_plan_actions)
qed

theorem checked_plan_binding_errors_witness:
  "promised (rt_factory silent_rt) sample_steps ''build'' ''artifact_id''"
proof -
  have ok: "validate_plan_lineage (rt_factory silent_rt) (d_actions sample_plan) = None" by code_simp
  have err: "snd (snd (sample_run silent_rt)) =
    Some (StepError (InputError ''artifact_id'' (StepMissingOutput ''build'' ''artifact_id'' [])))" by code_simp
  show ?thesis
    using checked_plan_binding_errors [OF ok sample_run_eq [of silent_rt, unfolded err]]
    by (simp add: sample_plan_actions)
qed

end
