(* ===== verification/Runtime_Records.thy ===== *)
theory Runtime_Records
  imports Runtime_Laws
begin

text \<open>
  The record a run leaves: with a database that carries out its statements, every step that ran
  has one row, the rows say what the runtime reports, and the plan's outcome read back from them
  is the run's outcome.
\<close>

definition row_of_record ::
  "decision \<Rightarrow> nat \<Rightarrow> step_plan_row list \<Rightarrow> nat \<Rightarrow> action_result \<Rightarrow> step_row \<Rightarrow> bool" where
  "row_of_record d p planned i rec row \<longleftrightarrow>
     es_id row = ar_execution_step_id rec \<and> es_plan row = p \<and> es_plan_step row = plan_step_id planned i \<and>
     es_task row = task_id_of (d_ctx d) \<and> es_cycle row = dc_cycle (d_ctx d) \<and> es_idx row = Suc i \<and>
     es_name row = trim (ar_step_name rec) \<and> es_capability row = ar_capability rec \<and>
     es_status row = (if ar_error rec = None then StepOk else StepFailed) \<and> es_error row = ar_error rec \<and>
     es_input row = json_object (ar_input rec) \<and> es_output row = json_object (ar_output rec)"

lemma save_interactions_frame:
  "quiet s \<Longrightarrow> \<exists>s'. save_interactions n k ts (Some s) = Some s' \<and> quiet s' \<and>
     st_steps s' = st_steps s \<and> st_plans s' = st_plans s \<and> st_step_plans s' = st_step_plans s"
proof (induction ts arbitrary: k s)
  case (Cons t ts)
  obtain provider turn where t: "t = (provider, turn)" by fastforce
  let ?s = "fst (append_execution_step_interaction
    \<lparr>in_step = n, in_seq = Suc k, in_kind = ''llm'', in_provider = provider, in_turn = turn\<rparr> s)"
  have "quiet ?s" and "st_steps ?s = st_steps s" "st_plans ?s = st_plans s" "st_step_plans ?s = st_step_plans s"
    using Cons.prems by (simp_all add: append_execution_step_interaction_def) (simp add: quiet_def)
  with Cons.IH [of ?s "Suc k"] t show ?case by (simp add: save_execution_step_interaction_def)
qed simp

lemma record_step_quiet:
  assumes "rt_store rt = Some s" and "quiet s" and "p \<noteq> 0"
  shows "\<exists>rt' s'. record_step rt d p planned i rec err = (rt', Suc (length (st_steps s))) \<and>
    rt_store rt' = Some s' \<and> quiet s' \<and> st_step_plans s' = st_step_plans s \<and> st_plans s' = st_plans s \<and>
    st_steps s' = st_steps s @ [(step_row_of rt d p planned i rec err)\<lparr>es_id := Suc (length (st_steps s))\<rparr>]"
proof -
  let ?row = "step_row_of rt d p planned i rec err"
  let ?s = "s\<lparr>st_steps := st_steps s @ [?row\<lparr>es_id := Suc (length (st_steps s))\<rparr>]\<rparr>"
  have q: "quiet ?s" using assms(2) by (simp add: quiet_def)
  have "save_execution_step ?row (rt_store rt) = (Some ?s, Suc (length (st_steps s)))"
    using assms by (simp add: save_execution_step_def append_execution_step_def Let_def)
  then show ?thesis using save_interactions_frame [OF q, of "Suc (length (st_steps s))" 0 "rt_turns rt (rt_outside rt)"] assms(3)
    by (auto simp: record_step_def)
qed

lemma run_actions_rows:
  assumes "run_actions rt d p planned ias results = (rt', results', stop)"
    and "rt_store rt = Some s" and "quiet s" and "p \<noteq> 0"
  shows "\<exists>s' new rows. rt_store rt' = Some s' \<and> quiet s' \<and> results' = results @ new \<and>
    st_steps s' = st_steps s @ rows \<and> st_step_plans s' = st_step_plans s \<and> st_plans s' = st_plans s \<and>
    length rows = length new \<and>
    (\<forall>k<length new. row_of_record d p planned (fst (real_actions ias ! k)) (new ! k) (rows ! k))"
  using assms(1-3)
proof (induction ias arbitrary: rt results s)
  case (Cons ia ias)
  obtain i a where ia: "ia = (i, a)" by fastforce
  show ?case
  proof (cases "a = NilAction")
    case True
    with Cons ia show ?thesis by simp
  next
    case False
    obtain w' rec0 err rt1 step_id rec where step:
      "record_step (rt\<lparr>rt_outside := w'\<rparr>) d p planned i (rec0\<lparr>ar_error := err, ar_plan_step_id := plan_step_id planned i\<rparr>) err
       = (rt1, step_id)"
      "rec = rec0\<lparr>ar_error := err, ar_plan_step_id := plan_step_id planned i, ar_execution_step_id := step_id\<rparr>"
      "run_actions rt d p planned ((i, a) # ias) results =
       (case err of None \<Rightarrow> run_actions rt1 d p planned ias (results @ [rec])
        | Some e \<Rightarrow> (rt1, results @ [rec], Some (i, rec, e)))"
      by (rule run_actions_step [OF False, where rt = rt and d = d and results = results and p = p and planned = planned
          and i = i and ias = ias]) blast
    let ?rec1 = "rec0\<lparr>ar_error := err, ar_plan_step_id := plan_step_id planned i\<rparr>"
    let ?row = "(step_row_of (rt\<lparr>rt_outside := w'\<rparr>) d p planned i ?rec1 err)\<lparr>es_id := Suc (length (st_steps s))\<rparr>"
    have "rt_store (rt\<lparr>rt_outside := w'\<rparr>) = Some s" using Cons.prems(2) by simp
    from record_step_quiet [OF this Cons.prems(3) assms(4), of d planned i ?rec1 err] step(1) obtain s1 where
      s1: "step_id = Suc (length (st_steps s))" "rt_store rt1 = Some s1" "quiet s1"
        "st_step_plans s1 = st_step_plans s" "st_plans s1 = st_plans s" "st_steps s1 = st_steps s @ [?row]" by auto
    have row: "row_of_record d p planned i rec ?row"
      by (simp add: row_of_record_def step_row_of_def step(2) s1(1))
    show ?thesis
    proof (cases err)
      case None
      with Cons.prems(1) ia step(3) have "run_actions rt1 d p planned ias (results @ [rec]) = (rt', results', stop)" by simp
      from Cons.IH [OF this s1(2,3)] obtain s' new rows where
        ih: "rt_store rt' = Some s'" "quiet s'" "results' = (results @ [rec]) @ new"
          "st_steps s' = st_steps s1 @ rows" "st_step_plans s' = st_step_plans s1" "st_plans s' = st_plans s1"
          "length rows = length new"
          "\<forall>k<length new. row_of_record d p planned (fst (real_actions ias ! k)) (new ! k) (rows ! k)" by blast
      have "\<forall>k<length (rec # new).
          row_of_record d p planned (fst (real_actions (ia # ias) ! k)) ((rec # new) ! k) ((?row # rows) ! k)"
        using row ih(8) ia False by (auto simp: nth_Cons split: nat.splits)
      moreover have "st_steps s' = st_steps s @ (?row # rows)" using ih(4) s1(6) by simp
      ultimately show ?thesis using ih s1
        by (intro exI [of _ s'] exI [of _ "rec # new"] exI [of _ "?row # rows"]) simp
    next
      case (Some e)
      with Cons.prems(1) ia step(3) have e: "rt' = rt1" "results' = results @ [rec]" by auto
      then show ?thesis using s1 row ia False
        by (intro exI [of _ s1] exI [of _ "[rec]"] exI [of _ "[?row]"]) simp
    qed
  qed
qed auto

text \<open>
  C8: With a database that carries out its statements, executing a recorded plan appends exactly
  one row per step that ran, in order; the row of a step has the plan's id, the step's planned row,
  its 1-based place in the plan, its name, its status and error, the input it was called with and
  the output it reported, and the report names that row's id.
\<close>

theorem every_executed_step_is_recorded:
  assumes "rt_store rt = Some s" and "quiet s" and "p \<noteq> 0" and "d_actions d \<noteq> []"
    and "execute_recorded rt d p planned = (rt', res, err)"
  shows "\<exists>s' rows. rt_store rt' = Some s' \<and> st_steps s' = st_steps s @ rows \<and>
    length rows = length (rr_actions res) \<and>
    (\<forall>k<length rows. row_of_record d p planned (fst (planned_actions (d_actions d) ! k)) (rr_actions res ! k) (rows ! k))"
proof -
  obtain rt2 results stop where run:
    "run_actions rt d p planned (enumerate 0 (d_actions d)) [] = (rt2, results, stop)" by (metis prod_cases3)
  with assms(4,5) have "rt' = rt2" "rr_actions res = results"
    by (auto simp: execute_recorded_def split: option.splits)
  with run_actions_rows [OF run assms(1-3)] show ?thesis by (auto simp: planned_actions_real)
qed

section \<open>The outcome read back\<close>

lemma real_actions_sorted: "sorted (map fst (real_actions (enumerate n as)))"
proof -
  have "sorted (map fst (enumerate n as))" by simp
  then show ?thesis unfolding real_actions_def by (rule sorted_filter)
qed

lemma sorted_take_map: "sorted (map f xs) \<Longrightarrow> n \<le> length xs \<Longrightarrow> sorted (map f (take n xs))"
  by (simp add: take_map [symmetric] sorted_wrt_take)

text \<open>The rows of a plan that had none before it ran, as the step query lists them.\<close>

lemma recorded_run_rows:
  assumes st: "rt_store rt = Some s" "quiet s" and p: "p \<noteq> 0" "d_actions d \<noteq> []"
    and new: "\<forall>r\<in>set (st_steps s). es_plan r \<noteq> p"
    and run: "execute_recorded rt d p planned = (rt', res, err)"
  shows "\<exists>s' rows. rt_store rt' = Some s' \<and> quiet s' \<and> st_step_plans s' = st_step_plans s \<and>
    steps_of p s' = rows \<and> filter (\<lambda>x. es_plan x = p) (st_steps s') = rows \<and> length rows = length (rr_actions res) \<and>
    length rows \<le> length (planned_actions (d_actions d)) \<and>
    (\<forall>k<length rows. row_of_record d p planned (fst (planned_actions (d_actions d) ! k)) (rr_actions res ! k) (rows ! k)) \<and>
    (rr_actions res \<noteq> [] \<longrightarrow> (ar_error (last (rr_actions res)) = None \<longleftrightarrow> err = None))"
proof -
  obtain rt2 results stop where r:
    "run_actions rt d p planned (enumerate 0 (d_actions d)) [] = (rt2, results, stop)" by (metis prod_cases3)
  have eq: "rt' = rt2" "rr_actions res = results" "err = None \<longleftrightarrow> stop = None"
    using r run p(2) by (auto simp: execute_recorded_def split: option.splits)
  let ?real = "real_actions (enumerate 0 (d_actions d))"
  from run_actions_rows [OF r st p(1)] obtain s' rows where
    s': "rt_store rt2 = Some s'" "quiet s'" "st_steps s' = st_steps s @ rows" "st_step_plans s' = st_step_plans s"
      "length rows = length results"
      "\<forall>k<length results. row_of_record d p planned (fst (?real ! k)) (results ! k) (rows ! k)" by auto
  from run_actions_records [OF r] have rec: "records_match planned ?real results (stop \<noteq> None)" by auto
  have plan: "\<forall>x\<in>set rows. es_plan x = p" using s'(5,6) by (auto simp: in_set_conv_nth row_of_record_def)
  have "map es_idx rows = map (\<lambda>x. Suc (fst x)) (take (length rows) ?real)"
    by (rule nth_equalityI) (use s' rec in \<open>auto simp: row_of_record_def records_match_def\<close>)
  moreover have "sorted (map (\<lambda>x. Suc (fst x)) ?real)"
    using real_actions_sorted [of 0 "d_actions d"] by (simp add: sorted_iff_nth_mono)
  ultimately have sorted: "sorted (map es_idx rows)"
    using rec s'(5) by (simp add: sorted_take_map records_match_def)
  have f: "filter (\<lambda>x. es_plan x = p) (st_steps s') = rows"
    using new plan by (simp add: s'(3) filter_empty_conv)
  then have steps: "steps_of p s' = rows" using sorted by (simp add: steps_of_def sort_key_id_if_sorted)
  have err: "ar_error (last results) = None \<longleftrightarrow> err = None" if "results \<noteq> []"
  proof -
    from that have n: "length results - 1 < length results" and "Suc (length results - 1) = length results" by simp_all
    from rec have "\<forall>k<length results. (ar_error (results ! k) = None \<longleftrightarrow> \<not> (stop \<noteq> None \<and> Suc k = length results))"
      unfolding records_match_def by blast
    with n \<open>Suc (length results - 1) = length results\<close>
    have "ar_error (results ! (length results - 1)) = None \<longleftrightarrow> stop = None" by blast
    with that eq(3) show ?thesis by (simp add: last_conv_nth)
  qed
  with s' eq f steps rec show ?thesis
    by (intro exI [of _ s'] exI [of _ rows]) (simp add: planned_actions_real records_match_def)
qed

text \<open>
  C7: The outcome of a plan is derived, not stored: for a plan id that had no step row yet, what
  the outcome query answers after the run is the number of planned rows, the number of steps that
  ran, and the status and error of the last of them, failed exactly when the run failed.
\<close>

theorem outcome_read_back:
  assumes st: "rt_store rt = Some s" "quiet s" and p: "p \<noteq> 0" "d_actions d \<noteq> []"
    and new: "\<forall>r\<in>set (st_steps s). es_plan r \<noteq> p"
    and run: "execute_recorded rt d p planned = (rt', res, err)" and some: "rr_actions res \<noteq> []"
  shows "\<exists>s'. rt_store rt' = Some s' \<and> snd (execution_plan_outcome p s') =
    Inr (\<lparr>po_plan = p, po_step = ar_execution_step_id (last (rr_actions res)),
          po_status = Some (if err = None then StepOk else StepFailed),
          po_error = ar_error (last (rr_actions res)),
          po_planned = length (step_plan_of p s), po_executed = length (rr_actions res)\<rparr>, True)"
proof -
  obtain s' rows where
    s': "rt_store rt' = Some s'" "quiet s'" "st_step_plans s' = st_step_plans s" "steps_of p s' = rows"
      "filter (\<lambda>x. es_plan x = p) (st_steps s') = rows" "length rows = length (rr_actions res)"
    and row: "\<forall>k<length rows. row_of_record d p planned (fst (planned_actions (d_actions d) ! k)) (rr_actions res ! k) (rows ! k)"
    and err': "rr_actions res \<noteq> [] \<longrightarrow> (ar_error (last (rr_actions res)) = None \<longleftrightarrow> err = None)"
    using recorded_run_rows [OF st p new run] by (elim exE conjE) (rule that)
  from err' some have err: "ar_error (last (rr_actions res)) = None \<longleftrightarrow> err = None" by (rule mp)
  let ?n = "length rows - 1"
  have n: "?n < length rows" "rows \<noteq> []" using some s'(6) by auto
  have last: "last rows = rows ! ?n" "last (rr_actions res) = rr_actions res ! ?n"
    using n some s'(6) by (simp_all add: last_conv_nth)
  have "row_of_record d p planned (fst (planned_actions (d_actions d) ! ?n)) (last (rr_actions res)) (last rows)"
    using row n last by simp
  moreover have "length (filter (\<lambda>x. sp_plan x = p) (st_step_plans s')) = length (step_plan_of p s)"
    by (simp add: s'(3) step_plan_of_def)
  ultimately have "snd (execution_plan_outcome p s') =
      Inr (\<lparr>po_plan = p, po_step = ar_execution_step_id (last (rr_actions res)),
          po_status = Some (if err = None then StepOk else StepFailed),
          po_error = ar_error (last (rr_actions res)),
          po_planned = length (step_plan_of p s), po_executed = length (rr_actions res)\<rparr>, True)"
    using s'(2,4,5,6) n(2) err unfolding execution_plan_outcome_def row_of_record_def
    by (simp del: One_nat_def)
  with s'(1) show ?thesis by blast
qed

section \<open>The plan before its steps\<close>

lemma db_call_parts:
  "db_call s = (s', r) \<Longrightarrow> st_steps s' = st_steps s \<and> st_step_plans s' = st_step_plans s"
  using db_call_frame [of s s' r] by auto

lemma create_plan_parts:
  "create_execution_plan p s = (s', r) \<Longrightarrow> st_steps s' = st_steps s \<and> st_step_plans s' = st_step_plans s"
  by (auto simp: create_execution_plan_def Let_def dest: db_call_parts split: if_splits prod.splits option.splits)

lemma query_parts:
  "query q s = (s', r) \<Longrightarrow> st_steps s' = st_steps s \<and> st_step_plans s' = st_step_plans s"
  using query_frame [of q s s' r] by auto

lemma insert_step_plans_count:
  "insert_step_plans rs s = (s', None) \<Longrightarrow> length (st_step_plans s') = length (st_step_plans s) + length rs"
proof (induction rs s rule: insert_step_plans.induct)
  case (2 r rs s)
  obtain s1 e where d: "db_call s = (s1, e)" by fastforce
  from "2.prems" d have e: "e = None" and fresh: "(sp_plan r, sp_idx r) \<notin> (\<lambda>x. (sp_plan x, sp_idx x)) ` set (st_step_plans s1)"
    by (auto split: option.splits if_splits)
  with "2.prems" d have "insert_step_plans rs
      (s1\<lparr>st_step_plans := st_step_plans s1 @ [r\<lparr>sp_id := Suc (length (st_step_plans s1))\<rparr>]\<rparr>) = (s', None)" by simp
  from "2.IH" [OF d [symmetric] e fresh this] db_call_parts [OF d] show ?case by simp
qed simp

lemma append_step_plans_count:
  assumes "append_execution_step_plans rs s = (s', r)"
  shows "st_steps s' = st_steps s \<and>
    length (st_step_plans s') = length (st_step_plans s) + (if r = None then length rs else 0)"
proof
  from append_step_plans_frame [OF assms] show "st_steps s' = st_steps s" by (simp add: same_but_step_plans_def)
  show "length (st_step_plans s') = length (st_step_plans s) + (if r = None then length rs else 0)"
  proof (cases r)
    case (Some e)
    with append_step_plans_fail assms show ?thesis by simp
  next
    case None
    show ?thesis
    proof (cases "rs = []")
      case True
      with assms None show ?thesis by (simp add: append_execution_step_plans_def)
    next
      case False
      obtain s1 s2 s3 where d: "db_call s = (s1, None)" "db_call s1 = (s2, None)"
        "insert_step_plans rs s2 = (s3, None)" "db_call s3 = (s', None)"
        using assms None False by (auto simp: append_execution_step_plans_def split: option.splits prod.splits)
      from db_call_parts [OF d(1)] db_call_parts [OF d(2)] insert_step_plans_count [OF d(3)] db_call_parts [OF d(4)] None
      show ?thesis by simp
    qed
  qed
qed

lemma save_plan_all_or_none:
  assumes "save_execution_plan p rs (Some s) = (st', i, saved, r)"
  shows "\<exists>s'. st' = Some s' \<and> st_steps s' = st_steps s \<and>
    (length (st_step_plans s') = length (st_step_plans s) \<or>
     length (st_step_plans s') = length (st_step_plans s) + length rs) \<and>
    (r = None \<longrightarrow> length (st_step_plans s') = length (st_step_plans s) + length rs)"
proof -
  obtain s1 c where c: "create_execution_plan p s = (s1, c)" by fastforce
  note c' = create_plan_parts [OF c]
  show ?thesis
  proof (cases c)
    case (Inl e)
    with c c' assms show ?thesis by (auto simp: save_execution_plan_def)
  next
    case (Inr n)
    obtain s2 a where a: "append_execution_step_plans (map (\<lambda>r. r\<lparr>sp_plan := n\<rparr>) rs) s1 = (s2, a)" by fastforce
    note a' = append_step_plans_count [OF a]
    obtain s3 l where l: "list_execution_step_plan n s2 = (s3, l)" by fastforce
    note l' = query_parts [OF l [unfolded list_execution_step_plan_def]]
    show ?thesis using assms c c' a a' l l' Inr
      by (auto simp: save_execution_plan_def split: option.splits sum.splits)
  qed
qed

lemma lookup_parts:
  "task_input_message_lookup t (Some s) = (st', r) \<Longrightarrow>
     \<exists>s'. st' = Some s' \<and> st_steps s' = st_steps s \<and> st_step_plans s' = st_step_plans s"
  by (auto simp: task_input_message_lookup_def task_input_message_id_def dest: query_parts
      split: prod.splits sum.splits)

lemma record_plan_parts:
  assumes "rt_store rt = Some s" and "record_plan rt d = (rt1, pid, saved, r)"
  shows "\<exists>s'. rt1 = rt\<lparr>rt_store := Some s'\<rparr> \<and> st_steps s' = st_steps s \<and>
    (length (st_step_plans s') = length (st_step_plans s) \<or>
     length (st_step_plans s') = length (st_step_plans s) + length (step_plan_rows (d_actions d))) \<and>
    (r = None \<longrightarrow> length (st_step_plans s') = length (st_step_plans s) + length (step_plan_rows (d_actions d)))"
proof -
  obtain st1 n where st1: "(if task_id_of (d_ctx d) = [] then (rt_store rt, 0)
      else (case task_input_message_lookup (task_id_of (d_ctx d)) (rt_store rt) of
              (st', Some i) \<Rightarrow> (st', i) | (st', None) \<Rightarrow> (st', do_input_message (d_origin d)))) = (st1, n)" by fastforce
  have "\<exists>s1. st1 = Some s1 \<and> st_steps s1 = st_steps s \<and> st_step_plans s1 = st_step_plans s"
    using st1 by (auto simp: assms(1) dest: lookup_parts split: if_splits prod.splits option.splits)
  then obtain s1 where s1: "st1 = Some s1" "st_steps s1 = st_steps s" "st_step_plans s1 = st_step_plans s" by blast
  obtain st2 i sv e where save: "save_execution_plan (plan_row_of rt d n) (step_plan_rows (d_actions d)) (Some s1)
      = (st2, i, sv, e)" by (metis prod_cases4)
  from save_plan_all_or_none [OF save] obtain s2 where s2: "st2 = Some s2" "st_steps s2 = st_steps s1"
    "length (st_step_plans s2) = length (st_step_plans s1) \<or>
     length (st_step_plans s2) = length (st_step_plans s1) + length (step_plan_rows (d_actions d))"
    "e = None \<longrightarrow> length (st_step_plans s2) = length (st_step_plans s1) + length (step_plan_rows (d_actions d))" by blast
  have "rt1 = rt\<lparr>rt_store := Some s2\<rparr>" "r = e"
    using assms(2) st1 s1(1) save s2(1) by (simp_all add: record_plan_def Let_def)
  with s1 s2 show ?thesis by auto
qed

text \<open>
  Nothing executes without its plan on record.  Whichever statement of writing the plan fails,
  the failure is the run's error, no action ran (the outside is untouched), no executed step was
  recorded, and the steps of the plan are in the table of planned steps all or not at all.
\<close>

theorem unrecorded_plan_runs_nothing:
  assumes st: "rt_store rt = Some s" and ok: "check_before_run rt d = None"
    and rec: "record_plan rt d = (rt1, pid, saved, Some e)"
  shows "\<exists>res s'. execute rt d = (rt1, res, Some (RecordFailed e)) \<and> rr_actions res = [] \<and>
    rt_outside rt1 = rt_outside rt \<and> rt_store rt1 = Some s' \<and> st_steps s' = st_steps s \<and>
    (length (st_step_plans s') = length (st_step_plans s) \<or>
     length (st_step_plans s') = length (st_step_plans s) + length (planned_actions (d_actions d)))"
proof -
  from record_plan_parts [OF st rec] obtain s' where
    "rt1 = rt\<lparr>rt_store := Some s'\<rparr>" "st_steps s' = st_steps s"
    "length (st_step_plans s') = length (st_step_plans s) \<or>
     length (st_step_plans s') = length (st_step_plans s) + length (step_plan_rows (d_actions d))" by blast
  moreover have "execute rt d = (rt1, \<lparr>rr_message = NoMessage, rr_actions = [], rr_error = Some (RecordFailed e)\<rparr>,
      Some (RecordFailed e))"
    using ok rec by (simp add: execute_def execute_plan_def)
  ultimately show ?thesis by (auto simp: step_plan_rows_def)
qed

lemma find_by_key:
  "distinct (map f xs) \<Longrightarrow> k < length xs \<Longrightarrow> f (xs ! k) = v \<Longrightarrow> find (\<lambda>x. f x = v) xs = Some (xs ! k)"
proof (induction xs arbitrary: k)
  case (Cons x xs)
  show ?case
  proof (cases k)
    case 0
    with Cons.prems show ?thesis by simp
  next
    case (Suc j)
    with Cons.prems have "v \<in> f ` set xs" by (auto intro!: imageI nth_mem)
    with Cons.prems have "f x \<noteq> v" by auto
    with Cons Suc show ?thesis by simp
  qed
qed simp

text \<open>
  What goes on record is the plan: with a database that carries out its statements and a reply
  no other plan came from, the rows written before anything runs are one per real action, in
  order, with the action's name, capability, input and 1-based place, all under the new plan's id,
  and every action's record will point at its own planned row.
\<close>

theorem recorded_plan_is_the_plan:
  assumes st: "rt_store rt = Some s" "quiet s"
    and task: "trim (task_id_of (d_ctx d)) \<noteq> []"
    and reply: "do_reply_message (d_origin d) = 0 \<or> do_reply_message (d_origin d) \<notin> pl_reply ` set (st_plans s)"
    and old: "\<forall>r\<in>set (st_step_plans s). sp_plan r \<le> length (st_plans s)"
  shows "\<exists>rt1 saved. record_plan rt d = (rt1, Suc (length (st_plans s)), saved, None) \<and>
    length saved = length (planned_actions (d_actions d)) \<and>
    (\<forall>k<length saved. sp_plan (saved ! k) = Suc (length (st_plans s)) \<and>
       sp_idx (saved ! k) = Suc (fst (planned_actions (d_actions d) ! k)) \<and>
       sp_name (saved ! k) = planned_name (snd (planned_actions (d_actions d) ! k)) \<and>
       sp_capability (saved ! k) = planned_capability (snd (planned_actions (d_actions d) ! k)) \<and>
       sp_input (saved ! k) = planned_input (snd (planned_actions (d_actions d) ! k)) \<and>
       plan_step_id saved (fst (planned_actions (d_actions d) ! k)) = sp_id (saved ! k))"
proof -
  let ?as = "d_actions d" and ?p = "Suc (length (st_plans s))"
  let ?rows = "step_plan_rows ?as"
  let ?saved = "stored_steps (length (st_step_plans s)) ?p ?rows"
  have idx: "map sp_idx ?rows = map (\<lambda>x. Suc (fst x)) (planned_actions ?as)"
    by (auto simp: step_plan_rows_def)
  have "map fst (enumerate 0 ?as) = [0..<length ?as]" by simp
  then have "distinct (map fst (planned_actions ?as))" unfolding planned_actions_def
    by (metis distinct_map_filter distinct_upt)
  then have dist: "distinct (map sp_idx ?rows)" by (simp add: idx distinct_map inj_on_def)
  have "sorted (map fst (planned_actions ?as))"
    using real_actions_sorted by (simp add: planned_actions_real)
  then have sorted: "sorted (map sp_idx ?rows)" by (simp add: idx sorted_iff_nth_mono)
  have lookup: "task_input_message_lookup (task_id_of (d_ctx d)) (Some s) =
      (Some s, task_input_message_of (task_id_of (d_ctx d)) s)"
    using st by (simp add: task_input_message_lookup_def task_input_message_id_def)
  have save: "save_execution_plan (plan_row_of rt d n) ?rows (Some s) =
      (let i = ?p in (Some (s\<lparr>st_plans := st_plans s @ [(plan_row_of rt d n)\<lparr>pl_id := i\<rparr>],
         st_step_plans := st_step_plans s @ ?saved\<rparr>), i, ?saved, None))" for n
    using save_plan_quiet [OF st(2) _ _ old sorted dist, of "plan_row_of rt d n"] task reply
    by (simp add: plan_row_of_def Let_def)
  have rec: "\<exists>rt1. record_plan rt d = (rt1, ?p, ?saved, None)"
    using lookup st task save by (auto simp: record_plan_def Let_def split: option.splits)
  have len: "length ?saved = length (planned_actions ?as)" by (simp add: step_plan_rows_def)
  have nth: "?saved ! k = (?rows ! k)\<lparr>sp_plan := ?p, sp_id := Suc (length (st_step_plans s) + k)\<rparr>"
    if "k < length ?saved" for k using that by simp
  have "plan_step_id ?saved (fst (planned_actions ?as ! k)) = sp_id (?saved ! k)" if k: "k < length ?saved" for k
  proof -
    have "distinct (map sp_idx ?saved)" using dist by simp
    moreover have at: "sp_idx (?saved ! k) = Suc (fst (planned_actions ?as ! k))"
      using k by (simp add: step_plan_rows_def split: prod.splits)
    ultimately have "find (\<lambda>r. sp_idx r = Suc (fst (planned_actions ?as ! k))) ?saved = Some (?saved ! k)"
      by (intro find_by_key) (use k in auto)
    then show ?thesis by (simp add: plan_step_id_def)
  qed
  with rec len show ?thesis
    by (auto simp: step_plan_rows_def split: prod.splits)
qed

section \<open>The record of a concrete run\<close>

lemma sample_store_quiet: "rt_store sample_rt = Some sample_store" "quiet sample_store"
  by (simp_all add: sample_rt_def sample_store_def quiet_def empty_store_def)

theorem every_executed_step_is_recorded_witness:
  "\<exists>s' rows. rt_store (fst (sample_run sample_rt)) = Some s' \<and> st_steps s' = st_steps sample_store @ rows \<and>
     length rows = 2"
proof -
  have "length (rr_actions (fst (snd (sample_run sample_rt)))) = 2" by code_simp
  then show ?thesis
    using every_executed_step_is_recorded [OF sample_store_quiet _ _ sample_run_eq [of sample_rt]]
    by (auto simp: sample_plan_actions)
qed

theorem outcome_read_back_witness:
  "\<exists>s' o'. rt_store (fst (sample_run silent_rt)) = Some s' \<and>
     snd (execution_plan_outcome 2 s') = Inr (o', True) \<and> po_status o' = Some StepFailed \<and> po_executed o' = 2"
proof -
  have st: "rt_store silent_rt = Some sample_store" by (simp add: silent_rt_def sample_store_quiet)
  have new: "\<forall>r\<in>set (st_steps sample_store). es_plan r \<noteq> 2" by (simp add: sample_store_def)
  have "length (rr_actions (fst (snd (sample_run silent_rt)))) = 2" and "snd (snd (sample_run silent_rt)) \<noteq> None"
    by code_simp+
  then show ?thesis
    using outcome_read_back [OF st sample_store_quiet(2) _ _ new sample_run_eq [of silent_rt]]
    by (fastforce simp: sample_plan_actions)
qed

text \<open>The first statement of the write fails, or none does.\<close>

definition fresh_rt :: "string option list \<Rightarrow> unit rt" where
  "fresh_rt faults = sample_rt\<lparr>rt_store := Some (empty_store\<lparr>st_faults := faults\<rparr>)\<rparr>"

theorem unrecorded_plan_runs_nothing_witness:
  "\<exists>rt1 res s'. execute (fresh_rt [None, None, Some ''disk full'']) sample_plan = (rt1, res, Some (RecordFailed (DbFault ''disk full''))) \<and>
     rr_actions res = [] \<and> rt_store rt1 = Some s' \<and> st_steps s' = []"
proof -
  let ?rt = "fresh_rt [None, None, Some ''disk full'']"
  have ok: "check_before_run ?rt sample_plan = None" by code_simp
  have "snd (snd (snd (record_plan ?rt sample_plan))) = Some (DbFault ''disk full'')" by code_simp
  then obtain rt1 pid saved where rec: "record_plan ?rt sample_plan = (rt1, pid, saved, Some (DbFault ''disk full''))"
    by (metis prod.collapse)
  have st: "rt_store ?rt = Some (empty_store\<lparr>st_faults := [None, None, Some ''disk full'']\<rparr>)" by (simp add: fresh_rt_def)
  from unrecorded_plan_runs_nothing [OF st ok rec] show ?thesis by (auto simp: empty_store_def)
qed

theorem recorded_plan_is_the_plan_witness:
  "\<exists>rt1 saved. record_plan (fresh_rt []) sample_plan = (rt1, 1, saved, None) \<and> length saved = 2 \<and>
     plan_step_id saved 2 = sp_id (saved ! 1)"
proof -
  have st: "rt_store (fresh_rt []) = Some empty_store" "quiet empty_store"
    by (simp_all add: fresh_rt_def) (simp add: empty_store_def)
  have ctx: "d_ctx sample_plan = sample_ctx" "do_reply_message (d_origin sample_plan) = 0"
    by (simp_all add: sample_plan_def sample_decision_def)
  have acts: "map fst (planned_actions sample_steps) = [0, 2]" by code_simp
  then have len: "length (planned_actions sample_steps) = 2" by (metis length_map length_Cons list.size(3) numeral_2_eq_2)
  from acts len have at: "fst (planned_actions sample_steps ! 1) = 2"
    by (metis nth_map one_less_numeral_iff semiring_norm(76) nth_Cons_0 nth_Cons_Suc One_nat_def)
  have task: "trim (task_id_of (d_ctx sample_plan)) \<noteq> []"
    by (simp add: ctx sample_ctx_def task_id_of_def)
  obtain rt1 saved where r: "record_plan (fresh_rt []) sample_plan = (rt1, 1, saved, None)"
    "length saved = length (planned_actions sample_steps)"
    "\<forall>k<length saved. plan_step_id saved (fst (planned_actions sample_steps ! k)) = sp_id (saved ! k)"
    using recorded_plan_is_the_plan [OF st task] ctx(2) by (auto simp: sample_plan_actions empty_store_def)
  then have "plan_step_id saved 2 = sp_id (saved ! 1)" using at len by (metis one_less_numeral_iff semiring_norm(76))
  with r len show ?thesis by auto
qed

end
