(* ===== verification/Task_Store.thy ===== *)
theory Task_Store
  imports Decision_Rules "HOL-Library.AList"
begin

text \<open>
  A task and its row (src/task.go, the task statements of src/db/sqlite_store.go and
  src/db/sqlite_query.go, \<open>persistTask\<close> of src/store.go), why a run was stopped
  (src/stop_reason.go), and how a run marks its task stopped or failed (src/autonomy.go).
  The rows are listed oldest first, the order \<open>ListTasks\<close> reads them in.  As in the other
  tables, \<open>tk_faults\<close> lists the outcomes of the coming statements.  Creation and update times
  are not modelled.
\<close>

section \<open>Tasks\<close>

definition status_running :: string where "status_running = ''running''"
definition status_pending :: string where "status_pending = ''pending''"
definition status_unverified :: string where "status_unverified = ''unverified''"
definition status_error :: string where "status_error = ''error''"
definition status_awaiting_approval :: string where "status_awaiting_approval = ''awaiting_approval''"
definition status_stopped :: string where "status_stopped = ''stopped''"

lemmas status_words = status_running_def status_pending_def status_unverified_def status_error_def
  status_awaiting_approval_def status_stopped_def task_status_completed_def task_status_blocked_def
  task_status_need_input_def

record task =
  tk_id :: string
  tk_description :: string
  tk_domain :: string
  tk_goal :: string
  tk_status :: string
  tk_error :: string
  tk_agent :: nat
  tk_context :: "string smap"

definition bare_task :: "string \<Rightarrow> task" where
  "bare_task i = \<lparr>tk_id = i, tk_description = [], tk_domain = [], tk_goal = [], tk_status = [], tk_error = [],
     tk_agent = 0, tk_context = []\<rparr>"

definition task_domains :: "string list" where
  "task_domains = [''software_development'', ''ai'', ''web'', ''mobile'', ''desktop'', ''server'']"

text \<open>\<open>ConvertToTaskDomain\<close>: an unknown domain is the default one and an error.\<close>

definition convert_to_task_domain :: "string \<Rightarrow> string \<times> string option" where
  "convert_to_task_domain d =
    (if d \<in> set task_domains then (d, None) else (''software_development'', Some d))"

section \<open>The rows\<close>

record task_table =
  tk_rows :: "task list"
  tk_faults :: "string option list"

datatype task_error = EmptyTaskID | TaskDbFault string

definition task_call :: "task_table \<Rightarrow> task_table \<times> task_error option" where
  "task_call s =
    (case tk_faults s of [] \<Rightarrow> (s, None) | f # fs \<Rightarrow> (s\<lparr>tk_faults := fs\<rparr>, map_option TaskDbFault f))"

text \<open>\<open>taskContextRefJSON\<close> leaves out the references without an id.\<close>

definition context_ref :: "string smap \<Rightarrow> string smap" where
  "context_ref m = filter (\<lambda>(k, v). v \<noteq> []) m"

text \<open>A write that names no goal, context or agent keeps the row's own.\<close>

definition merge_task :: "task \<Rightarrow> task \<Rightarrow> task" where
  "merge_task old t =
    t\<lparr>tk_goal := (if tk_goal t = [] then tk_goal old else tk_goal t),
      tk_context := (if context_ref (tk_context t) = [] then tk_context old else context_ref (tk_context t)),
      tk_agent := (if tk_agent t = 0 then tk_agent old else tk_agent t)\<rparr>"

fun upsert_row :: "task \<Rightarrow> task list \<Rightarrow> task list" where
  "upsert_row t [] = [t\<lparr>tk_context := context_ref (tk_context t)\<rparr>]"
| "upsert_row t (r # rs) = (if tk_id r = tk_id t then merge_task r t # rs else r # upsert_row t rs)"

definition upsert_task :: "task \<Rightarrow> task_table \<Rightarrow> task_table \<times> task_error option" where
  "upsert_task t s =
    (case task_call s of
       (s', Some e) \<Rightarrow> (s', Some e)
     | (s', None) \<Rightarrow> (s'\<lparr>tk_rows := upsert_row t (tk_rows s')\<rparr>, None))"

definition get_task :: "string \<Rightarrow> task_table \<Rightarrow> task_table \<times> (task_error + task option)" where
  "get_task i s =
    (if i = [] then (s, Inl EmptyTaskID)
     else (case task_call s of
             (s', Some e) \<Rightarrow> (s', Inl e)
           | (s', None) \<Rightarrow> (s', Inr (find (\<lambda>r. tk_id r = i) (tk_rows s')))))"

definition list_tasks :: "task_table \<Rightarrow> task_table \<times> (task_error + task list)" where
  "list_tasks s =
    (case task_call s of (s', Some e) \<Rightarrow> (s', Inl e) | (s', None) \<Rightarrow> (s', Inr (tk_rows s')))"

text \<open>A failed write is printed and forgotten; without a store there is nothing to write.\<close>

definition persist_task :: "task \<Rightarrow> task_table option \<Rightarrow> task_table option" where
  "persist_task t ts = map_option (\<lambda>s. fst (upsert_task t s)) ts"

definition task_row :: "string \<Rightarrow> task_table \<Rightarrow> task option" where
  "task_row i s = find (\<lambda>r. tk_id r = i) (tk_rows s)"

section \<open>Why a run is stopped\<close>

record stop_reason =
  sr_by :: string
  sr_request :: string
  sr_deployment :: string
  sr_version :: string

definition stopped_by_user :: string where "stopped_by_user = ''user''"
definition stopped_by_runtime :: string where "stopped_by_runtime = ''runtime''"
definition runtime_stop_marker :: string where "runtime_stop_marker = ''stopped by the runtime''"

definition is_runtime_stop_record :: "task option \<Rightarrow> bool" where
  "is_runtime_stop_record t =
    (case t of None \<Rightarrow> False
     | Some t \<Rightarrow> tk_status t = status_stopped \<and> contains (tk_error t) runtime_stop_marker)"

text \<open>The reasons of the tasks being stopped, newest entry first.\<close>

type_synonym stop_reasons = "stop_reason smap"

definition set_stop_reason :: "string \<Rightarrow> stop_reason \<Rightarrow> stop_reasons \<Rightarrow> stop_reasons" where
  "set_stop_reason t r m = (if trim t = [] then m else AList.update t r m)"

definition clear_stop_reason :: "string \<Rightarrow> stop_reasons \<Rightarrow> stop_reasons" where
  "clear_stop_reason t m = (if trim t = [] then m else AList.delete t m)"

definition stop_reason_of :: "string \<Rightarrow> stop_reasons \<Rightarrow> stop_reason option" where
  "stop_reason_of t m = map_of m t"

definition is_runtime_stop :: "stop_reason \<Rightarrow> bool" where
  "is_runtime_stop r \<longleftrightarrow> sr_by r = stopped_by_runtime"

definition stop_message :: "stop_reason \<Rightarrow> string" where
  "stop_message r =
    (if \<not> is_runtime_stop r then ''the user stopped the task''
     else if trim (sr_request r) = [] then ''the runtime stopped the task while shutting down''
     else ''the runtime stopped the task for a restart (requestId='' @ sr_request r @
       (if trim (sr_deployment r) = [] then [] else '', deployment='' @ trim (sr_deployment r)) @
       (if trim (sr_version r) = [] then [] else '', version='' @ trim (sr_version r)) @ '')'')"

definition stop_error_text :: "stop_reason \<Rightarrow> string" where
  "stop_error_text r =
    (if \<not> is_runtime_stop r then ''stopped''
     else if trim (sr_request r) = [] then ''stopped by the runtime while shutting down''
     else ''stopped by the runtime for a restart (requestId='' @ sr_request r @ '')'')"

section \<open>How a run leaves its task\<close>

definition mark_stopped :: "stop_reasons \<Rightarrow> task \<Rightarrow> task_table option \<Rightarrow> task \<times> task_table option" where
  "mark_stopped reasons t ts =
    (if tk_status t \<noteq> status_running \<and> tk_status t \<noteq> status_pending \<and> tk_status t \<noteq> [] then (t, ts)
     else (let t' = t\<lparr>tk_status := status_stopped,
                      tk_error := (case stop_reason_of (tk_id t) reasons of
                                     None \<Rightarrow> ''stopped'' | Some r \<Rightarrow> stop_error_text r)\<rparr>
           in (t', persist_task t' ts)))"

definition fail_task :: "string option \<Rightarrow> task \<Rightarrow> task_table option \<Rightarrow> task \<times> task_table option" where
  "fail_task err t ts =
    (let t' = t\<lparr>tk_status := status_error, tk_error := (case err of None \<Rightarrow> tk_error t | Some e \<Rightarrow> e)\<rparr> in (t', persist_task t' ts))"

section \<open>Reading a row back\<close>

lemma upsert_row_find: "find (\<lambda>r. tk_id r = i) (upsert_row t rs) =
    (if i = tk_id t
     then Some (case find (\<lambda>r. tk_id r = tk_id t) rs of None \<Rightarrow> t\<lparr>tk_context := context_ref (tk_context t)\<rparr>
                | Some r \<Rightarrow> merge_task r t)
     else find (\<lambda>r. tk_id r = i) rs)"
  by (induction rs) (auto simp: merge_task_def)

definition task_calm :: "task_table \<Rightarrow> bool" where
  "task_calm s \<longleftrightarrow> tk_faults s = []"

lemma task_call_calm [simp]: "task_calm s \<Longrightarrow> task_call s = (s, None)"
  by (simp add: task_call_def task_calm_def)

lemma task_calm_rows [simp]: "task_calm (s\<lparr>tk_rows := rs\<rparr>) \<longleftrightarrow> task_calm s"
  by (simp add: task_calm_def)

lemma upsert_calm: "task_calm s \<Longrightarrow> upsert_task t s = (s\<lparr>tk_rows := upsert_row t (tk_rows s)\<rparr>, None)"
  by (simp add: upsert_task_def)

lemma get_task_calm: "task_calm s \<Longrightarrow> i \<noteq> [] \<Longrightarrow> get_task i s = (s, Inr (task_row i s))"
  by (simp add: get_task_def task_row_def)

text \<open>What a write settles, whatever the row said before.\<close>

lemma task_row_upsert:
  assumes "task_calm s"
  shows "\<exists>r. task_row (tk_id t) (fst (upsert_task t s)) = Some r \<and> tk_status r = tk_status t \<and>
    tk_error r = tk_error t \<and> tk_id r = tk_id t \<and> tk_description r = tk_description t \<and>
    (tk_agent t \<noteq> 0 \<longrightarrow> tk_agent r = tk_agent t)"
  using assms by (auto simp: upsert_calm task_row_def upsert_row_find merge_task_def split: option.splits)

lemma task_row_upsert_other:
  "task_calm s \<Longrightarrow> i \<noteq> tk_id t \<Longrightarrow> task_row i (fst (upsert_task t s)) = task_row i s"
  by (simp add: upsert_calm task_row_def upsert_row_find)

lemma task_calm_upsert: "task_calm s \<Longrightarrow> task_calm (fst (upsert_task t s))"
  by (simp add: upsert_calm)

text \<open>The ids of the rows stay distinct: a task has one row.\<close>

lemma upsert_row_ids: "set (map tk_id (upsert_row t rs)) = insert (tk_id t) (set (map tk_id rs))"
  by (induction rs) (auto simp: merge_task_def)

lemma upsert_row_distinct: "distinct (map tk_id rs) \<Longrightarrow> distinct (map tk_id (upsert_row t rs))"
proof (induction rs)
  case (Cons r rs)
  then show ?case using upsert_row_ids [of t rs] by (auto simp: merge_task_def)
qed simp

section \<open>What a stop record says\<close>

lemma contains_prefix: "contains (p @ s) p"
proof (cases "p @ s")
  case (Cons c cs)
  then have "prefix p (c # cs)" by (metis prefixI)
  with Cons show ?thesis by (simp add: contains_def)
qed (simp add: contains_def)

lemma mark_stopped_record:
  assumes "tk_status t = status_running \<or> tk_status t = status_pending \<or> tk_status t = []"
  shows "is_runtime_stop_record (Some (fst (mark_stopped reasons t ts))) =
    (case stop_reason_of (tk_id t) reasons of None \<Rightarrow> False | Some r \<Rightarrow> is_runtime_stop r)"
proof -
  have user: "\<not> contains ''stopped'' runtime_stop_marker" by code_simp
  have shut: "contains ''stopped by the runtime while shutting down'' runtime_stop_marker" by code_simp
  have cut: "contains (''stopped by the runtime for a restart (requestId='' @ x) runtime_stop_marker" for x
    using contains_prefix [of runtime_stop_marker "'' for a restart (requestId='' @ x"]
    by (simp add: runtime_stop_marker_def)
  have "mark_stopped reasons t ts = (let t' = t\<lparr>tk_status := status_stopped,
      tk_error := (case stop_reason_of (tk_id t) reasons of None \<Rightarrow> ''stopped'' | Some r \<Rightarrow> stop_error_text r)\<rparr>
    in (t', persist_task t' ts))"
    using assms by (auto simp: mark_stopped_def)
  then show ?thesis
    using user shut cut [of "sr_request r @ '')''" for r]
    by (auto simp: is_runtime_stop_record_def Let_def stop_error_text_def split: option.splits)
qed

text \<open>
  A row marked stopped is read as the runtime's own stop exactly when the reason recorded for
  the task says the runtime stopped it; a stop nobody recorded a reason for, or a person's, is not.
\<close>

theorem stop_record_says_who:
  assumes "tk_status t = status_running \<or> tk_status t = status_pending \<or> tk_status t = []"
  shows "is_runtime_stop_record (Some (fst (mark_stopped reasons t ts))) =
    (case stop_reason_of (tk_id t) reasons of None \<Rightarrow> False | Some r \<Rightarrow> is_runtime_stop r)"
  by (rule mark_stopped_record [OF assms])

lemma stop_record_says_who_witness:
  "is_runtime_stop_record (Some (fst (mark_stopped
     (set_stop_reason ''t1'' \<lparr>sr_by = ''runtime'', sr_request = ''r7'', sr_deployment = [], sr_version = []\<rparr> [])
     ((bare_task ''t1'')\<lparr>tk_status := ''running''\<rparr>) None)))"
  by (subst stop_record_says_who)
    (simp_all add: bare_task_def status_words set_stop_reason_def stop_reason_of_def is_runtime_stop_def
      stopped_by_runtime_def trim_def trim_left_def, code_simp)

end
