(* ===== verification/Go_Utf8.thy ===== *)
theory Go_Utf8
  imports Go_Base
begin

text \<open>UTF-8 as Go's \<open>unicode/utf8\<close> reads and writes it.\<close>

text \<open>
  \<open>utf8.ValidString\<close>: for a leading byte, how many continuation bytes follow and between which
  values the first of them lies.
\<close>

definition utf8_lead :: "nat \<Rightarrow> (nat \<times> nat \<times> nat) option" where
  "utf8_lead b =
    (if b < 0x80 then Some (0, 0, 0)
     else if 0xC2 \<le> b \<and> b \<le> 0xDF then Some (1, 0x80, 0xBF)
     else if b = 0xE0 then Some (2, 0xA0, 0xBF)
     else if b = 0xED then Some (2, 0x80, 0x9F)
     else if 0xE1 \<le> b \<and> b \<le> 0xEF then Some (2, 0x80, 0xBF)
     else if b = 0xF0 then Some (3, 0x90, 0xBF)
     else if 0xF1 \<le> b \<and> b \<le> 0xF3 then Some (3, 0x80, 0xBF)
     else if b = 0xF4 then Some (3, 0x80, 0x8F)
     else None)"

definition utf8_tail :: "nat \<Rightarrow> nat \<Rightarrow> nat list \<Rightarrow> bool" where
  "utf8_tail lo hi bs =
    (case bs of [] \<Rightarrow> True
     | b # rest \<Rightarrow> lo \<le> b \<and> b \<le> hi \<and> list_all (\<lambda>x. 0x80 \<le> x \<and> x \<le> 0xBF) rest)"

function utf8_valid :: "string \<Rightarrow> bool" where
  "utf8_valid [] = True"
| "utf8_valid (c # cs) =
    (case utf8_lead (of_char c) of
       None \<Rightarrow> False
     | Some (k, lo, hi) \<Rightarrow>
         k \<le> length cs \<and> utf8_tail lo hi (map of_char (take k cs)) \<and> utf8_valid (drop k cs))"
  by pat_completeness auto
termination by (relation "measure length") auto

text \<open>The bytes of a code point, and of \<open>utf8.RuneError\<close>.\<close>

definition byte :: "nat \<Rightarrow> char" where "byte n = char_of n"

text \<open>A code equation of remainders only, so that evaluation needs no bit operation.\<close>

lemma byte_code [code]:
  "byte n = Char (n mod 2 = 1) (n div 2 mod 2 = 1) (n div 4 mod 2 = 1) (n div 8 mod 2 = 1)
     (n div 16 mod 2 = 1) (n div 32 mod 2 = 1) (n div 64 mod 2 = 1) (n div 128 mod 2 = 1)"
  by (simp add: byte_def char_of_def bit_iff_odd odd_iff_mod_2_eq_one)

definition encode_rune :: "nat \<Rightarrow> string" where
  "encode_rune n =
    (if n < 0x80 then [byte n]
     else if n < 0x800 then [byte (0xC0 + n div 64), byte (0x80 + n mod 64)]
     else if n < 0x10000 then [byte (0xE0 + n div 4096), byte (0x80 + n div 64 mod 64), byte (0x80 + n mod 64)]
     else [byte (0xF0 + n div 262144), byte (0x80 + n div 4096 mod 64), byte (0x80 + n div 64 mod 64), byte (0x80 + n mod 64)])"

definition rune_error :: string where "rune_error = [CHR 0xEF, CHR 0xBF, CHR 0xBD]"

text \<open>How many bytes the rune at the front takes, when it is one.\<close>

definition rune_length :: "string \<Rightarrow> nat option" where
  "rune_length s =
    (case s of [] \<Rightarrow> None
     | c # cs \<Rightarrow>
        (case utf8_lead (of_char c) of
           None \<Rightarrow> None
         | Some (k, lo, hi) \<Rightarrow>
             if k \<le> length cs \<and> utf8_tail lo hi (map of_char (take k cs)) then Some (Suc k) else None))"

end
