(* ===== verification/Task_Record.thy ===== *)
theory Task_Record
  imports Runtime_Records Task_Store Go_Utf8
begin

text \<open>
  The task's own record read back for the run that continues it (src/task_record.go), with the
  progress of a plan's steps it shares with the task detail (\<open>planStepProgress\<close>, src/api_service.go).
  A JSON text is the value it denotes; times and durations are not modelled.  The two texts the
  note is put together from are files, hence parameters.
\<close>

section \<open>Text\<close>

function cut_to_valid :: "string \<Rightarrow> string" where
  "cut_to_valid s = (if s = [] \<or> utf8_valid s then s else cut_to_valid (butlast s))"
  by pat_completeness auto
termination by (relation "measure length") auto

declare cut_to_valid.simps [simp del]

definition ellipsis :: string where "ellipsis = [CHR 0xE2, CHR 0x80, CHR 0xA6]"

definition clip_text :: "string \<Rightarrow> nat \<Rightarrow> string" where
  "clip_text s limit =
    (let text = trim s in
     if limit = 0 \<or> length text \<le> limit then text
     else trim (cut_to_valid (take limit text)) @ ellipsis)"

text \<open>\<open>strings.TrimRight(s, "\\n")\<close>.\<close>

definition trim_newlines :: "string \<Rightarrow> string" where
  "trim_newlines s = rev (dropWhile (\<lambda>c. c = CHR 0x0A) (rev s))"

section \<open>The progress of a plan's steps\<close>

record step_progress =
  sg_idx :: nat
  sg_name :: string
  sg_capability :: string
  sg_effect :: string
  sg_status :: string
  sg_planned_input :: "json option"
  sg_input :: "json option"
  sg_output :: "json option"
  sg_error :: "action_error option"

definition step_status_text :: "step_status \<Rightarrow> string" where
  "step_status_text s = (case s of StepOk \<Rightarrow> ''ok'' | StepFailed \<Rightarrow> ''failed'')"

definition step_pending :: string where "step_pending = ''pending''"

definition raw_json :: "json \<Rightarrow> json option" where
  "raw_json v = (case v of JNull \<Rightarrow> None | JObj [] \<Rightarrow> None | _ \<Rightarrow> Some v)"

definition fill_executed :: "step_row \<Rightarrow> step_progress \<Rightarrow> step_progress" where
  "fill_executed r p =
    p\<lparr>sg_status := step_status_text (es_status r), sg_input := raw_json (es_input r),
      sg_output := raw_json (es_output r), sg_error := es_error r,
      sg_capability := (if sg_capability p = [] then es_capability r else sg_capability p),
      sg_name := (if sg_name p = [] then es_name r else sg_name p)\<rparr>"

definition planned_item :: "step_plan_row \<Rightarrow> step_progress" where
  "planned_item p =
    \<lparr>sg_idx = sp_idx p, sg_name = sp_name p, sg_capability = sp_capability p, sg_effect = sp_effect p,
     sg_status = step_pending, sg_planned_input = raw_json (sp_input p), sg_input = None, sg_output = None,
     sg_error = None\<rparr>"

definition unplanned_item :: "step_row \<Rightarrow> step_progress" where
  "unplanned_item r =
    \<lparr>sg_idx = es_idx r, sg_name = es_name r, sg_capability = es_capability r, sg_effect = [],
     sg_status = step_pending, sg_planned_input = None, sg_input = None, sg_output = None, sg_error = None\<rparr>"

text \<open>The executed row of a planned step: by its plan step, else by its position; the last wins.\<close>

definition executed_row :: "step_row list \<Rightarrow> step_plan_row \<Rightarrow> step_row option" where
  "executed_row executed p =
    (case find (\<lambda>r. es_plan_step r \<noteq> 0 \<and> es_plan_step r = sp_id p) (rev executed) of
       Some r \<Rightarrow> Some r
     | None \<Rightarrow> find (\<lambda>r. es_idx r = sp_idx p) (rev executed))"

definition plan_step_progress :: "step_plan_row list \<Rightarrow> step_row list \<Rightarrow> step_progress list" where
  "plan_step_progress planned executed =
    (let seen = map es_id (List.map_filter (executed_row executed) planned) in
     map (\<lambda>p. case executed_row executed p of None \<Rightarrow> planned_item p | Some r \<Rightarrow> fill_executed r (planned_item p)) planned @
     map (\<lambda>r. fill_executed r (unplanned_item r)) (filter (\<lambda>r. es_id r \<notin> set seen) executed))"

section \<open>A round\<close>

record round_step =
  rs_idx :: nat
  rs_name :: string
  rs_capability :: string
  rs_status :: string
  rs_input :: "json option"
  rs_output :: "json option"
  rs_error :: "action_error option"
  rs_effect :: string

record task_round =
  tr_plan :: nat
  tr_cycle :: nat
  tr_decision :: string
  tr_reason :: string
  tr_status :: string
  tr_error :: "action_error option"
  tr_need :: "json option"
  tr_steps :: "round_step list"

definition round_limit :: nat where "round_limit = 8"
definition reason_limit :: nat where "reason_limit = 1200"
definition verdict_limit :: nat where "verdict_limit = 12"

text \<open>The newest \<open>n\<close> of a list in order.\<close>

definition newest :: "nat \<Rightarrow> 'x list \<Rightarrow> 'x list" where
  "newest n xs = drop (length xs - n) xs"

definition round_step_of :: "step_progress \<Rightarrow> round_step" where
  "round_step_of s =
    \<lparr>rs_idx = sg_idx s, rs_name = sg_name s, rs_capability = sg_capability s, rs_status = sg_status s,
     rs_input = (if sg_input s = None then sg_planned_input s else sg_input s), rs_output = sg_output s,
     rs_error = sg_error s, rs_effect = sg_effect s\<rparr>"

definition rows_or_none :: "store_error + 'x list \<Rightarrow> 'x list" where
  "rows_or_none r = (case r of Inl e \<Rightarrow> [] | Inr rows \<Rightarrow> rows)"

definition read_round :: "plan_row \<Rightarrow> store \<Rightarrow> store \<times> task_round" where
  "read_round p s =
    (let (s1, outcome) = execution_plan_outcome (pl_id p) s;
         (s2, planned) = list_execution_step_plan (pl_id p) s1;
         (s3, executed) = list_execution_steps (pl_id p) s2;
         (status, err) =
           (case outcome of
              Inr (po, True) \<Rightarrow>
                ((case po_status po of None \<Rightarrow> [] | Some st \<Rightarrow> step_status_text st), po_error po)
            | _ \<Rightarrow> (''planned'', None))
     in (s3, \<lparr>tr_plan = pl_id p, tr_cycle = pl_cycle p, tr_decision = pl_type p,
              tr_reason = clip_text (pl_reason p) reason_limit, tr_status = status, tr_error = err,
              tr_need = raw_json (pl_need p),
              tr_steps = map round_step_of (plan_step_progress (rows_or_none planned) (rows_or_none executed))\<rparr>))"

fun task_rounds :: "plan_row list \<Rightarrow> store \<Rightarrow> store \<times> task_round list" where
  "task_rounds [] s = (s, [])"
| "task_rounds (p # ps) s =
    (let (s1, r) = read_round p s; (s2, rs) = task_rounds ps s1 in (s2, r # rs))"

section \<open>Where the task stands\<close>

record task_verdict =
  tv_criterion :: string
  tv_result :: verdict
  tv_method :: string
  tv_expected :: expectation
  tv_observed :: string
  tv_reason :: judge_reason
  tv_cycle :: nat

definition task_verdict_of :: "verification \<Rightarrow> task_verdict" where
  "task_verdict_of v =
    \<lparr>tv_criterion = vf_criterion v, tv_result = vf_result v, tv_method = vf_method v,
     tv_expected = vf_expected v, tv_observed = vf_observed v, tv_reason = vf_reason v, tv_cycle = vf_cycle v\<rparr>"

definition task_verdicts :: "string \<Rightarrow> store \<Rightarrow> store \<times> task_verdict list" where
  "task_verdicts t s =
    (case list_verifications t s of
       (s', Inl e) \<Rightarrow> (s', [])
     | (s', Inr vs) \<Rightarrow> (s', map task_verdict_of (newest verdict_limit vs)))"

text \<open>The name a criterion goes by: its own, or its position.\<close>

definition criterion_name :: "nat \<Rightarrow> criterion \<Rightarrow> string" where
  "criterion_name i c = (if trim (cr_name c) = [] then ''C'' @ show_nat (Suc i) else trim (cr_name c))"

definition open_criteria :: "string \<Rightarrow> store \<Rightarrow> store \<times> string list" where
  "open_criteria t s =
    (case pinned_completion_contract t (Some s) of
       (st1, contract) \<Rightarrow>
         (let s1 = the st1 in
          if contract = [] then (s1, [])
          else (case task_verdicts t s1 of
                  (s2, vs) \<Rightarrow>
                    (let passed = map tv_criterion (filter (\<lambda>v. tv_result v = Pass) vs) in
                     (s2, filter (\<lambda>n. n \<notin> set passed) (map (\<lambda>(i, c). criterion_name i c) (enumerate 0 contract)))))))"

record interruption =
  ir_reason :: string
  ir_step :: nat
  ir_next :: string

definition task_interruption :: "string \<Rightarrow> task_round \<Rightarrow> task_table option \<Rightarrow> task_table option \<times> interruption option" where
  "task_interruption t newest_round ts =
    (case ts of
       None \<Rightarrow> (None, None)
     | Some s \<Rightarrow>
         (case get_task t s of
            (s', Inl e) \<Rightarrow> (Some s', None)
          | (s', Inr row) \<Rightarrow>
              (Some s',
               (if \<not> is_runtime_stop_record row then None
                else (case find (\<lambda>st. equal_fold (trim (rs_status st)) step_pending) (tr_steps newest_round) of
                        None \<Rightarrow> Some \<lparr>ir_reason = trim (tk_error (the row)), ir_step = 0, ir_next = []\<rparr>
                      | Some st \<Rightarrow> Some \<lparr>ir_reason = trim (tk_error (the row)), ir_step = rs_idx st,
                                        ir_next = rs_name st\<rparr>)))))"

record task_state =
  te_last :: task_round
  te_verdicts :: "task_verdict list"
  te_open :: "string list"
  te_interrupted :: "interruption option"

record task_briefing =
  tb_note :: string
  tb_state :: task_state
  tb_rounds :: "task_round list"

text \<open>
  The briefing over the execution store and the task table; \<open>note\<close> and \<open>extra\<close> are the texts of
  the two note files (empty when a file cannot be read).
\<close>

definition read_briefing ::
  "string \<Rightarrow> string \<Rightarrow> string \<Rightarrow> store option \<Rightarrow> task_table option
     \<Rightarrow> store option \<times> task_table option \<times> task_briefing option" where
  "read_briefing note extra t st ts =
    (if trim t = [] then (st, ts, None)
     else (case st of None \<Rightarrow> (st, ts, None)
     | Some s \<Rightarrow>
       (case list_execution_plans t s of
          (s1, Inl e) \<Rightarrow> (Some s1, ts, None)
        | (s1, Inr plans) \<Rightarrow>
          (if plans = [] then (Some s1, ts, None)
           else (let (s2, rounds) = task_rounds (newest round_limit plans) s1;
                     (s3, verdicts) = task_verdicts t s2;
                     (s4, open') = open_criteria t s3;
                     (ts', cut) = task_interruption t (last rounds) ts
                 in (Some s4, ts',
                     Some \<lparr>tb_note = trim note @ (if cut = None then [] else trim_newlines extra),
                           tb_state = \<lparr>te_last = last rounds, te_verdicts = verdicts, te_open = open',
                                       te_interrupted = cut\<rparr>,
                           tb_rounds = rounds\<rparr>))))))"

end
