(* ===== verification/Go_Numbers.thy ===== *)
theory Go_Numbers
  imports Go_Base
begin

text \<open>
  Integers as the code reads and computes them on a 64-bit build: \<open>strconv.Atoi\<close>, and
  \<open>time.Duration\<close>, an \<open>int64\<close> of nanoseconds whose arithmetic wraps.
\<close>

definition digit_value :: "char \<Rightarrow> nat option" where
  "digit_value c = (let n = of_char c in if 48 \<le> n \<and> n \<le> 57 then Some (n - 48) else None)"

fun digits_value :: "nat \<Rightarrow> string \<Rightarrow> nat option" where
  "digits_value acc [] = Some acc"
| "digits_value acc (c # cs) =
    (case digit_value c of None \<Rightarrow> None | Some d \<Rightarrow> digits_value (10 * acc + d) cs)"

text \<open>\<open>strconv.Atoi\<close> of a 64-bit build: an optional sign, digits, and a value that fits.\<close>

definition atoi :: "string \<Rightarrow> int option" where
  "atoi s =
    (let (neg, ds) = (case s of c # cs \<Rightarrow> if c = CHR ''-'' then (True, cs) else if c = CHR ''+'' then (False, cs) else (False, s)
                      | [] \<Rightarrow> (False, []))
     in if ds = [] then None
        else (case digits_value 0 ds of None \<Rightarrow> None
              | Some n \<Rightarrow> let v = (if neg then - int n else int n)
                          in if - (2 ^ 63) \<le> v \<and> v < 2 ^ 63 then Some v else None))"

lemma digit_value_char: "d < 10 \<Longrightarrow> digit_value (digit_char d) = Some d"
proof -
  have "list_all (\<lambda>d. digit_value (digit_char d) = Some d) [0, 1, 2, 3, 4, 5, 6, 7, 8, 9]" by code_simp
  moreover assume "d < 10"
  then have "d \<in> {0, 1, 2, 3, 4, 5, 6, 7, 8, 9}" by auto
  ultimately show ?thesis by auto
qed

lemma digits_value_snoc:
  "digits_value acc (cs @ [c]) =
    (case digits_value acc cs of None \<Rightarrow> None | Some n \<Rightarrow> (case digit_value c of None \<Rightarrow> None | Some d \<Rightarrow> Some (10 * n + d)))"
  by (induction cs arbitrary: acc) (auto split: option.split)

lemma digits_value_show: "digits_value 0 (show_nat n) = Some n"
proof (induction n rule: show_nat.induct)
  case (1 n)
  then show ?case
    by (subst show_nat.simps) (auto simp: digits_value_snoc digit_value_char)
qed

lemma digits_value_digits: "digits_value acc cs = Some n \<Longrightarrow> c \<in> set cs \<Longrightarrow> digit_value c \<noteq> None"
  by (induction cs arbitrary: acc) (auto split: option.splits)

lemma show_nat_digits: "c \<in> set (show_nat n) \<Longrightarrow> digit_value c \<noteq> None"
  using digits_value_digits [OF digits_value_show] by blast

lemma atoi_show_nat: "n < 2 ^ 63 \<Longrightarrow> atoi (show_nat n) = Some (int n)"
proof -
  assume "n < 2 ^ 63"
  moreover obtain c cs where s: "show_nat n = c # cs" by (cases "show_nat n") auto
  then have "digit_value c \<noteq> None" using show_nat_digits [of c n] by simp
  then have "c \<noteq> CHR ''-''" "c \<noteq> CHR ''+''" by (auto simp: digit_value_def)
  ultimately show ?thesis using s digits_value_show [of n] by (simp add: atoi_def Let_def)
qed

section \<open>Durations\<close>

definition wrap64 :: "int \<Rightarrow> int" where
  "wrap64 z = (z + 2 ^ 63) mod 2 ^ 64 - 2 ^ 63"

lemma wrap64_id: "- (2 ^ 63) \<le> z \<Longrightarrow> z < 2 ^ 63 \<Longrightarrow> wrap64 z = z"
  by (simp add: wrap64_def)

lemma wrap64_bounds: "- (2 ^ 63) \<le> wrap64 z \<and> wrap64 z < 2 ^ 63"
  by (simp add: wrap64_def)

definition second :: int where "second = 1000000000"
definition minute :: int where "minute = 60 * second"

text \<open>
  An input of seconds, as the capabilities read it: absent it is the fallback, otherwise a positive
  count, clamped to a minimum and a maximum of which zero is none.  The product is an \<open>int64\<close>.
\<close>

definition clamp :: "int \<Rightarrow> int \<Rightarrow> int \<Rightarrow> int" where
  "clamp lo hi d =
    (let d1 = (if lo > 0 \<and> d < lo then lo else d) in if hi > 0 \<and> d1 > hi then hi else d1)"

definition read_seconds :: "string \<Rightarrow> int \<Rightarrow> int \<Rightarrow> int \<Rightarrow> int option" where
  "read_seconds raw fallback lo hi =
    (let v = trim raw in
     if v = [] then Some fallback
     else (case atoi v of
             None \<Rightarrow> None
           | Some n \<Rightarrow> if n \<le> 0 then None else Some (clamp lo hi (wrap64 (n * second)))))"

lemma clamp_bounds: "0 < hi \<Longrightarrow> lo \<le> hi \<Longrightarrow> clamp lo hi d \<le> hi \<and> (0 < lo \<longrightarrow> lo \<le> clamp lo hi d)"
  by (auto simp: clamp_def Let_def)

text \<open>\<open>strconv.Itoa\<close>.\<close>

definition show_int :: "int \<Rightarrow> string" where
  "show_int z = (if z < 0 then CHR ''-'' # show_nat (nat (- z)) else show_nat (nat z))"

section \<open>Texts of a map\<close>

definition show_bool :: "bool \<Rightarrow> string" where
  "show_bool b = (if b then ''true'' else ''false'')"

definition text_at :: "string smap \<Rightarrow> string \<Rightarrow> string" where
  "text_at m k = (case map_of m k of None \<Rightarrow> [] | Some v \<Rightarrow> v)"

definition first_trimmed :: "string list \<Rightarrow> string" where
  "first_trimmed vals = (case find (\<lambda>v. trim v \<noteq> []) vals of None \<Rightarrow> [] | Some v \<Rightarrow> trim v)"

lemma first_trimmed_trim [simp]: "trim (first_trimmed vs) = first_trimmed vs"
  by (auto simp: first_trimmed_def split: option.splits)

lemma first_trimmed_Nil: "first_trimmed vs = [] \<longleftrightarrow> (\<forall>v\<in>set vs. trim v = [])"
  by (auto simp: first_trimmed_def find_None_iff find_Some_iff split: option.splits)

end
