(* ===== verification/Run_Loop.thy ===== *)
theory Run_Loop
  imports Task_Record Inbox_Store Go_Numbers
begin

text \<open>
  One run of a task (src/autonomy.go): the message that starts it, the decision loop
  \<open>runLoop\<close>, the confirmation gate (\<open>needsPlanApproval\<close>, src/agent_init.go), the chat turn
  (src/chat_mode.go) and what a stop does (\<open>stopTask\<close>, src/api_service.go).

  The planner is a language model: \<open>su_decide\<close> answers from the cycle, the results so far, the
  input and the briefing.  A cancellation of the run is seen by the checks of its context:
  \<open>Some n\<close> lets \<open>n\<close> more checks pass, \<open>None\<close> is a context nobody cancels.  An execution that was
  dispatched runs to its end even when the loop leaves first; panics of a worker are not modelled.
\<close>

section \<open>The state\<close>

record planner =
  pa_id :: nat
  pa_name :: string
  pa_task :: "string option"
  pa_session :: bool
  pa_requires :: bool
  pa_pending :: "(decision \<times> nat \<times> step_plan_row list) option"
  pa_approved :: bool

record 'w app =
  ap_rt :: "'w rt"
  ap_tasks :: "task_table option"
  ap_reasons :: stop_reasons
  ap_inflight :: "string list"

record surroundings =
  su_decide :: "nat \<Rightarrow> run_result list \<Rightarrow> string \<Rightarrow> task_briefing option \<Rightarrow> string + decision"
  su_error_text :: "exec_error \<Rightarrow> string"
  su_note :: string
  su_cut_note :: string
  su_chat_guard :: "string + string"
  su_say :: "string \<Rightarrow> string option"

type_synonym ctx = "nat option"

definition ctx_check :: "ctx \<Rightarrow> ctx \<times> bool" where
  "ctx_check c = (case c of None \<Rightarrow> (None, False) | Some 0 \<Rightarrow> (Some 0, True) | Some (Suc n) \<Rightarrow> (Some n, False))"

datatype run_error =
    RunStopped
  | DecideFailed string
  | ApprovalNotRecorded exec_error
  | CycleFailed exec_error
  | BudgetSpent nat string
  | UnknownTask string
  | NoSession
  | SayFailed string

definition budget_text :: "nat \<Rightarrow> string \<Rightarrow> string" where
  "budget_text n typ =
    ''cycle budget exhausted ('' @ show_nat n @ ''): last decision ('' @ typ @ '') did not conclude the task''"

fun run_error_text :: "surroundings \<Rightarrow> run_error \<Rightarrow> string" where
  "run_error_text su RunStopped = ''stopped: context canceled''"
| "run_error_text su (DecideFailed e) = ''decide: '' @ e"
| "run_error_text su (ApprovalNotRecorded e) = ''record plan for approval: '' @ su_error_text su e"
| "run_error_text su (CycleFailed e) = su_error_text su e"
| "run_error_text su (BudgetSpent n typ) = budget_text n typ"
| "run_error_text su (UnknownTask t) = ''instruction for an unknown task: '' @ t"
| "run_error_text su NoSession = ''delegated message for an agent with no session''"
| "run_error_text su (SayFailed e) = e"

section \<open>The cycle budget\<close>

definition default_max_steps :: nat where "default_max_steps = 10"

definition max_steps :: "string \<Rightarrow> int \<Rightarrow> nat" where
  "max_steps env configured =
    (case (if trim env \<noteq> [] then atoi (trim env) else None) of
       Some n \<Rightarrow> if n > 0 then nat n else if configured > 0 then nat configured else default_max_steps
     | None \<Rightarrow> if configured > 0 then nat configured else default_max_steps)"

section \<open>The gate\<close>

definition needs_plan_approval :: "planner \<Rightarrow> decision \<Rightarrow> bool" where
  "needs_plan_approval a d \<longleftrightarrow>
     pa_requires a \<and> \<not> pa_approved a \<and> equal_fold (trim (d_type d)) decision_plan"

text \<open>The decision as \<open>decide\<close> returns it: with the cycle's input bag as its context.\<close>

definition agent_decide ::
  "surroundings \<Rightarrow> planner \<Rightarrow> nat \<Rightarrow> run_result list \<Rightarrow> string \<Rightarrow> task_briefing option \<Rightarrow> string + decision" where
  "agent_decide su a cycle history inp brief =
    (case su_decide su cycle history inp brief of
       Inl e \<Rightarrow> Inl e
     | Inr d \<Rightarrow> Inr (d\<lparr>d_ctx := \<lparr>dc_task = pa_task a, dc_agent = Some (pa_id a), dc_cycle = cycle,
                                  dc_step_outputs = []\<rparr>\<rparr>))"

section \<open>The loop\<close>

record 'w run =
  rn_app :: "'w app"
  rn_agent :: planner
  rn_task :: task
  rn_ctx :: ctx

definition app_persist :: "task \<Rightarrow> 'w app \<Rightarrow> 'w app" where
  "app_persist t app = app\<lparr>ap_tasks := persist_task t (ap_tasks app)\<rparr>"

definition run_persist :: "task \<Rightarrow> 'w run \<Rightarrow> 'w run" where
  "run_persist t r = r\<lparr>rn_task := t, rn_app := app_persist t (rn_app r)\<rparr>"

definition run_mark_stopped :: "'w run \<Rightarrow> 'w run" where
  "run_mark_stopped r =
    (case mark_stopped (ap_reasons (rn_app r)) (rn_task r) (ap_tasks (rn_app r)) of
       (t, ts) \<Rightarrow> r\<lparr>rn_task := t, rn_app := (rn_app r)\<lparr>ap_tasks := ts\<rparr>\<rparr>)"

definition run_fail :: "surroundings \<Rightarrow> run_error \<Rightarrow> 'w run \<Rightarrow> 'w run" where
  "run_fail su e r =
    (case fail_task (Some (run_error_text su e)) (rn_task r) (ap_tasks (rn_app r)) of
       (t, ts) \<Rightarrow> r\<lparr>rn_task := t, rn_app := (rn_app r)\<lparr>ap_tasks := ts\<rparr>\<rparr>)"

text \<open>The end of the loop: \<open>d\<close> is the last decision (none before the first), \<open>err\<close> the last cycle's error.\<close>

definition last_type :: "decision option \<Rightarrow> string" where
  "last_type d =
    (let t = (case d of None \<Rightarrow> [] | Some d \<Rightarrow> trim (d_type d)) in if t = [] then ''none'' else t)"

definition finish_run ::
  "surroundings \<Rightarrow> nat \<Rightarrow> decision option \<Rightarrow> exec_error option \<Rightarrow> 'w run \<Rightarrow> 'w run \<times> run_error option" where
  "finish_run su budget d err r0 =
    (case ctx_check (rn_ctx r0) of
       (c, True) \<Rightarrow> (run_mark_stopped (r0\<lparr>rn_ctx := c\<rparr>), Some RunStopped)
     | (c, False) \<Rightarrow>
        (let r = r0\<lparr>rn_ctx := c\<rparr>; t = rn_task r in
         if tk_status t = status_running \<or> tk_status t = status_pending then
           (case err of
              Some e \<Rightarrow>
                if (case d of None \<Rightarrow> False | Some d \<Rightarrow> is_done d)
                then (run_persist (t\<lparr>tk_status := status_unverified, tk_error := su_error_text su e\<rparr>) r, Some (CycleFailed e))
                else (run_fail su (CycleFailed e) r, Some (CycleFailed e))
            | None \<Rightarrow>
                (case d of
                   None \<Rightarrow> (run_fail su (BudgetSpent budget (last_type d)) r, Some (BudgetSpent budget (last_type d)))
                 | Some dec \<Rightarrow>
                     if concludes dec then (run_persist (t\<lparr>tk_status := task_status_for dec\<rparr>) r, None)
                     else (run_fail su (BudgetSpent budget (last_type d)) r, Some (BudgetSpent budget (last_type d)))))
         else (r, map_option CycleFailed err)))"

text \<open>The run pauses on a plan that has to be confirmed.\<close>

definition pause_run :: "surroundings \<Rightarrow> decision \<Rightarrow> 'w run \<Rightarrow> 'w run \<times> run_error option" where
  "pause_run su d r =
    (case record_plan_only (ap_rt (rn_app r)) d of
       (rt', pid, saved, Some e) \<Rightarrow>
         (run_fail su (ApprovalNotRecorded e) (r\<lparr>rn_app := (rn_app r)\<lparr>ap_rt := rt'\<rparr>\<rparr>), Some (ApprovalNotRecorded e))
     | (rt', pid, saved, None) \<Rightarrow>
         (let r' = r\<lparr>rn_app := (rn_app r)\<lparr>ap_rt := rt'\<rparr>, rn_agent := (rn_agent r)\<lparr>pa_pending := Some (d, pid, saved)\<rparr>\<rparr>
          in (run_persist ((rn_task r')\<lparr>tk_status := status_awaiting_approval, tk_error := []\<rparr>) r', None)))"

text \<open>A worker's result joins the history with the error the execution returned.\<close>

definition delivered :: "run_result \<Rightarrow> exec_error option \<Rightarrow> run_result" where
  "delivered res e = (case e of None \<Rightarrow> res | Some _ \<Rightarrow> res\<lparr>rr_error := e\<rparr>)"

text \<open>
  One turn of the loop: the run is over, or the next cycle starts with this one's decision, error
  and result.
\<close>

datatype 'w turn =
    RunOver "'w run" "run_error option"
  | NextCycle decision "exec_error option" run_result "'w run"

definition run_over :: "'w run \<times> run_error option \<Rightarrow> 'w turn" where
  "run_over x = RunOver (fst x) (snd x)"

text \<open>The loop waits for the worker's result, or for the cancellation of the run.\<close>

definition observe_result ::
  "surroundings \<Rightarrow> nat \<Rightarrow> decision \<Rightarrow> 'w rt \<times> run_result \<times> exec_error option \<Rightarrow> 'w run \<Rightarrow> 'w turn" where
  "observe_result su budget dec ex r =
    (case ex of (rt', res, e) \<Rightarrow>
      (let r1 = r\<lparr>rn_app := (rn_app r)\<lparr>ap_rt := rt'\<rparr>\<rparr>; result = delivered res e in
       case ctx_check (rn_ctx r1) of
         (c, True) \<Rightarrow> RunOver (run_mark_stopped (r1\<lparr>rn_ctx := c\<rparr>)) (Some RunStopped)
       | (c, False) \<Rightarrow>
           (let r2 = r1\<lparr>rn_ctx := c\<rparr> in
            if concludes dec \<and> rr_error result = None
            then run_over (finish_run su budget (Some dec) (rr_error result) r2)
            else NextCycle dec (rr_error result) result r2)))"

text \<open>The plan the user confirmed is taken off the agent and executed as it was recorded.\<close>

definition approved_cycle ::
  "surroundings \<Rightarrow> nat \<Rightarrow> nat \<Rightarrow> exec_error option \<Rightarrow> decision \<times> nat \<times> step_plan_row list \<Rightarrow> 'w run \<Rightarrow> 'w turn" where
  "approved_cycle su budget cycle err p r =
    (case p of (dec, pid, planned) \<Rightarrow>
      (let r1 = r\<lparr>rn_agent := (rn_agent r)\<lparr>pa_pending := None, pa_approved := False\<rparr>\<rparr> in
       if budget < cycle then run_over (finish_run su budget (Some dec) err r1)
       else observe_result su budget dec (execute_approved (ap_rt (rn_app r1)) dec pid planned) r1))"

definition planned_cycle ::
  "surroundings \<Rightarrow> nat \<Rightarrow> string \<Rightarrow> task_briefing option \<Rightarrow> nat \<Rightarrow> decision option \<Rightarrow> exec_error option
     \<Rightarrow> run_result list \<Rightarrow> 'w run \<Rightarrow> 'w turn" where
  "planned_cycle su budget inp brief cycle d err history r =
    (if budget < cycle then run_over (finish_run su budget d err r)
     else (case agent_decide su (rn_agent r) cycle history inp brief of
             Inl e \<Rightarrow>
               (case ctx_check (rn_ctx r) of
                  (c, True) \<Rightarrow> RunOver (run_mark_stopped (r\<lparr>rn_ctx := c\<rparr>)) (Some RunStopped)
                | (c, False) \<Rightarrow> RunOver (run_fail su (DecideFailed e) (r\<lparr>rn_ctx := c\<rparr>)) (Some (DecideFailed e)))
           | Inr dec \<Rightarrow>
               if needs_plan_approval (rn_agent r) dec then run_over (pause_run su dec r)
               else observe_result su budget dec (execute (ap_rt (rn_app r)) dec) r))"

definition run_turn ::
  "surroundings \<Rightarrow> nat \<Rightarrow> string \<Rightarrow> task_briefing option \<Rightarrow> nat \<Rightarrow> decision option \<Rightarrow> exec_error option
     \<Rightarrow> run_result list \<Rightarrow> 'w run \<Rightarrow> 'w turn" where
  "run_turn su budget inp brief cycles d err history r =
    (case ctx_check (rn_ctx r) of
       (c, True) \<Rightarrow> RunOver (run_mark_stopped (r\<lparr>rn_ctx := c\<rparr>)) (Some RunStopped)
     | (c, False) \<Rightarrow>
         (case (if pa_approved (rn_agent r) then pa_pending (rn_agent r) else None) of
            Some p \<Rightarrow> approved_cycle su budget (Suc cycles) err p (r\<lparr>rn_ctx := c\<rparr>)
          | None \<Rightarrow> planned_cycle su budget inp brief (Suc cycles) d err history (r\<lparr>rn_ctx := c\<rparr>)))"

text \<open>Past the budget no cycle follows, so the loop ends.\<close>

lemma run_turn_next: "run_turn su budget inp brief cycles d err history r = NextCycle d' err' res r' \<Longrightarrow> cycles < budget"
  by (auto simp: run_turn_def approved_cycle_def planned_cycle_def run_over_def Let_def
      split: prod.splits bool.splits option.splits if_splits)

function run_cycles ::
  "surroundings \<Rightarrow> nat \<Rightarrow> string \<Rightarrow> task_briefing option \<Rightarrow> nat \<Rightarrow> decision option \<Rightarrow> exec_error option
     \<Rightarrow> run_result list \<Rightarrow> 'w run \<Rightarrow> 'w run \<times> run_error option" where
  "run_cycles su budget inp brief cycles d err history r =
    (case run_turn su budget inp brief cycles d err history r of
       RunOver r' e \<Rightarrow> (r', e)
     | NextCycle d' err' res r' \<Rightarrow>
         run_cycles su budget inp brief (Suc cycles) (Some d') err' (history @ [res]) r')"
  by pat_completeness auto
termination
  by (relation "measure (\<lambda>(su, budget, inp, brief, cycles, rest). budget - cycles)")
    (auto dest: run_turn_next)

declare run_cycles.simps [simp del]

text \<open>The briefing is read once, when the run starts.\<close>

definition run_briefing :: "surroundings \<Rightarrow> string \<Rightarrow> 'w app \<Rightarrow> 'w app \<times> task_briefing option" where
  "run_briefing su t app =
    (case read_briefing (su_note su) (su_cut_note su) t (rt_store (ap_rt app)) (ap_tasks app) of
       (st, ts, b) \<Rightarrow> (app\<lparr>ap_rt := (ap_rt app)\<lparr>rt_store := st\<rparr>, ap_tasks := ts\<rparr>, b))"

definition run_loop :: "surroundings \<Rightarrow> nat \<Rightarrow> string \<Rightarrow> 'w run \<Rightarrow> 'w run \<times> run_error option" where
  "run_loop su budget inp r =
    (case run_briefing su (tk_id (rn_task r)) (rn_app r) of
       (app', brief) \<Rightarrow> run_cycles su budget inp brief 0 None None [] (r\<lparr>rn_app := app'\<rparr>))"

end
