(* ===== verification/Message_Run.thy ===== *)
theory Message_Run
  imports Run_Loop
begin

text \<open>
  What the inbox's handler does with one message (\<open>processMessage\<close> and its cases, src/autonomy.go,
  src/chat_mode.go), and the stop of a running task (\<open>stopTask\<close>, src/api_service.go).  A deferred
  call runs when its function returns, the last deferred first.
\<close>

definition task_for_message :: "message \<Rightarrow> 'w app \<Rightarrow> 'w app \<times> task option" where
  "task_for_message msg app =
    (if trim (msg_task msg) = [] then (app, None)
     else (case ap_tasks app of
             None \<Rightarrow> (app, Some (bare_task (msg_task msg)))
           | Some s \<Rightarrow>
               (case get_task (msg_task msg) s of
                  (s', Inr (Some t)) \<Rightarrow> (app\<lparr>ap_tasks := Some s'\<rparr>, Some t)
                | (s', _) \<Rightarrow> (app\<lparr>ap_tasks := Some s'\<rparr>, Some (bare_task (msg_task msg))))))"

text \<open>The registry of running tasks.\<close>

definition enter_flight :: "string \<Rightarrow> 'w app \<Rightarrow> 'w app" where
  "enter_flight t app = app\<lparr>ap_inflight := List.insert t (ap_inflight app)\<rparr>"

definition leave_flight :: "string \<Rightarrow> 'w app \<Rightarrow> 'w app" where
  "leave_flight t app =
    app\<lparr>ap_inflight := filter (\<lambda>x. x \<noteq> t) (ap_inflight app), ap_reasons := clear_stop_reason t (ap_reasons app)\<rparr>"

text \<open>Up to the loop: the task is marked running, the pending plan is released by a confirmation.\<close>

definition begin_instruction :: "message \<Rightarrow> planner \<Rightarrow> task \<Rightarrow> 'w app \<Rightarrow> 'w app \<times> planner \<times> task" where
  "begin_instruction msg a t app =
    (let t' = t\<lparr>tk_status := status_running, tk_agent := pa_id a\<rparr>;
         a' = a\<lparr>pa_session := True,
                pa_approved := (if msg_kind msg = KindApproval \<and> pa_pending a \<noteq> None then True else pa_approved a)\<rparr>
     in (enter_flight (tk_id t') (app_persist t' app), a', t'))"

definition process_instruction ::
  "surroundings \<Rightarrow> nat \<Rightarrow> message \<Rightarrow> planner \<Rightarrow> ctx \<Rightarrow> 'w app \<Rightarrow> 'w app \<times> planner \<times> run_error option" where
  "process_instruction su budget msg a c app =
    (case task_for_message msg app of
       (app0, None) \<Rightarrow> (app0, a, Some (UnknownTask (msg_task msg)))
     | (app0, Some t) \<Rightarrow>
         (case begin_instruction msg a t app0 of
            (app1, a', t') \<Rightarrow>
              (case run_loop su budget (msg_content msg) \<lparr>rn_app = app1, rn_agent = a', rn_task = t', rn_ctx = c\<rparr> of
                 (r, e) \<Rightarrow> (leave_flight (tk_id t') (rn_app r), rn_agent r, e))))"

text \<open>
  A chat turn: the planner is asked once and nothing is executed; the task's status and error are
  put back, or, when the turn was cancelled, the task is marked stopped.
\<close>

definition chat_input :: "surroundings \<Rightarrow> string \<Rightarrow> string + string" where
  "chat_input su user =
    (case su_chat_guard su of
       Inl e \<Rightarrow> Inl (''chat mode prompt: '' @ e)
     | Inr guard \<Rightarrow> Inr (trim guard @ [CHR 0x0A, CHR 0x0A] @ ''User: '' @ trim user))"

definition end_chat :: "task \<Rightarrow> ctx \<Rightarrow> 'w app \<Rightarrow> 'w app" where
  "end_chat t c app =
    (if snd (ctx_check c) then app\<lparr>ap_tasks := snd (mark_stopped (ap_reasons app) t (ap_tasks app))\<rparr>
     else app_persist t app)"

definition process_chat ::
  "surroundings \<Rightarrow> message \<Rightarrow> planner \<Rightarrow> ctx \<Rightarrow> 'w app \<Rightarrow> 'w app \<times> planner \<times> run_error option" where
  "process_chat su msg a c app =
    (case task_for_message msg app of
       (app0, None) \<Rightarrow> (app0, a, Some (UnknownTask (msg_task msg)))
     | (app0, Some t) \<Rightarrow>
         (let app1 = enter_flight (tk_id t) app0;
              (app2, brief) = run_briefing su (tk_id t) app1;
              err = (case chat_input su (msg_content msg) of
                       Inl e \<Rightarrow> Some (SayFailed e)
                     | Inr inp \<Rightarrow> (case agent_decide su a 1 [] inp brief of Inl e \<Rightarrow> Some (SayFailed e) | Inr _ \<Rightarrow> None))
          in (end_chat t c (leave_flight (tk_id t) app2), a\<lparr>pa_session := True\<rparr>, err)))"

definition process_message ::
  "surroundings \<Rightarrow> nat \<Rightarrow> message \<Rightarrow> planner \<Rightarrow> ctx \<Rightarrow> 'w app \<Rightarrow> 'w app \<times> planner \<times> run_error option" where
  "process_message su budget msg a c app =
    (case msg_kind msg of
       KindStop \<Rightarrow> (app, a, None)
     | KindDelegation \<Rightarrow>
         (app, a, if \<not> pa_session a then Some NoSession else map_option SayFailed (su_say su (msg_content msg)))
     | KindChat \<Rightarrow> process_chat su msg a c app
     | _ \<Rightarrow> process_instruction su budget msg a c app)"

section \<open>Stopping a task\<close>

datatype stop_error = StoreNotReady | StopReadFailed task_error | TaskNotFound | TaskNotRunning

text \<open>
  The stop of a task in flight: the reason is recorded, the run cancelled, a stop message handed
  to the task's agent, and the row marked.
\<close>

definition stop_message_for :: "string \<Rightarrow> stop_reason \<Rightarrow> message" where
  "stop_message_for t r =
    \<lparr>msg_id = 0, msg_agent = 0, msg_task = t, msg_sender = ''system'', msg_sender_id = ''runtime'', msg_kind = KindStop,
     msg_content = stop_message r, msg_status = StatusBlank, msg_error = []\<rparr>"

definition stop_task :: "string \<Rightarrow> stop_reason \<Rightarrow> 'w app \<Rightarrow> 'w app \<times> (stop_error + message)" where
  "stop_task tid reason app =
    (case ap_tasks app of
       None \<Rightarrow> (app, Inl StoreNotReady)
     | Some s \<Rightarrow>
         (let t = trim tid in
          case get_task t s of
            (s', Inl e) \<Rightarrow> (app\<lparr>ap_tasks := Some s'\<rparr>, Inl (StopReadFailed e))
          | (s', Inr None) \<Rightarrow> (app\<lparr>ap_tasks := Some s'\<rparr>, Inl TaskNotFound)
          | (s', Inr (Some stored)) \<Rightarrow>
              if t \<notin> set (ap_inflight app) then (app\<lparr>ap_tasks := Some s'\<rparr>, Inl TaskNotRunning)
              else (let reasons = set_stop_reason t reason (ap_reasons app);
                        ts = snd (mark_stopped reasons stored (Some s'))
                    in (app\<lparr>ap_tasks := ts, ap_reasons := reasons\<rparr>, Inr (stop_message_for t reason)))))"

end
