(* ===== verification/Store_Views.thy ===== *)
theory Store_Views
  imports Runtime_Records
begin

text \<open>
  What an execution leaves alone in the store, under any sequence of database failures.  A view is
  a part of the store; a locale says which tables it does not look at, and what the runtime does
  to those tables keeps the view.  The plans and the executed steps are the two views.
\<close>

definition view :: "(store \<Rightarrow> 'v list) \<Rightarrow> store option \<Rightarrow> 'v list" where
  "view V st = (case st of None \<Rightarrow> [] | Some s \<Rightarrow> V s)"

lemma view_simps [simp]: "view V None = []" "view V (Some s) = V s"
  by (simp_all add: view_def)

section \<open>A view that does not look at verdicts and contracts\<close>

locale side_view =
  fixes V :: "store \<Rightarrow> 'v list"
  assumes faults: "V (s\<lparr>st_faults := fs\<rparr>) = V s"
    and contracts: "V (s\<lparr>st_contracts := cs\<rparr>) = V s"
    and verdicts: "V (s\<lparr>st_verdicts := vs\<rparr>) = V s"
begin

lemma db_call_view: "db_call s = (s', r) \<Longrightarrow> V s' = V s"
  by (auto simp: db_call_def faults split: list.splits)

lemma query_view: "query q s = (s', r) \<Longrightarrow> V s' = V s"
  by (auto simp: query_def dest: db_call_view split: prod.splits option.splits)

lemma append_contract_view: "append_completion_contract r s = (s', e) \<Longrightarrow> V s' = V s"
  by (auto simp: append_completion_contract_def contracts dest: db_call_view split: if_splits prod.splits option.splits)

lemma append_verification_view: "append_verification v s = (s', e) \<Longrightarrow> V s' = V s"
  by (auto simp: append_verification_def verdicts Let_def dest: db_call_view split: if_splits prod.splits option.splits)

lemma save_verification_view [simp]: "view V (save_verification v st) = view V st"
proof (cases st)
  case (Some s)
  obtain s' e where "append_verification v s = (s', e)" by fastforce
  with append_verification_view [OF this] Some show ?thesis by (simp add: save_verification_def)
qed (simp add: save_verification_def)

lemma pinned_contract_view: "pinned_completion_contract t st = (st', cs) \<Longrightarrow> view V st' = view V st"
  by (auto simp: pinned_completion_contract_def list_completion_contract_def dest: query_view
      split: option.splits if_splits prod.splits sum.splits)

lemma collect_outputs_view: "collect_outputs ps out s = (s', out') \<Longrightarrow> V s' = V s"
proof (induction ps arbitrary: out s)
  case (Cons p ps)
  obtain s1 rows where q: "list_execution_steps (pl_id p) s = (s1, rows)" by fastforce
  with Cons.prems obtain out1 where "collect_outputs ps out1 s1 = (s', out')" by (auto split: sum.splits)
  with Cons.IH q show ?case by (auto simp: list_execution_steps_def dest: query_view)
qed simp

lemma task_outputs_view: "task_step_outputs t st = (st', out) \<Longrightarrow> view V st' = view V st"
  by (auto simp: task_step_outputs_def list_execution_plans_def dest!: query_view collect_outputs_view
      split: option.splits if_splits prod.splits sum.splits)

lemma verify_all_view: "verify_all rt ctx plan cs prior = (rt', vs) \<Longrightarrow> view V (rt_store rt') = view V (rt_store rt)"
proof (induction cs arbitrary: rt vs)
  case (Cons c cs)
  then show ?case by (fastforce split: prod.splits)
qed simp

lemma verify_done_view: "verify_done rt ctx plan = (rt', e) \<Longrightarrow> view V (rt_store rt') = view V (rt_store rt)"
  by (fastforce simp: verify_done_def Let_def dest: pinned_contract_view task_outputs_view verify_all_view
      split: prod.splits if_splits)

lemma pin_rows_view: "V (foldl (\<lambda>s r. fst (append_completion_contract r s)) s rows) = V s"
proof (induction rows arbitrary: s)
  case (Cons r rows)
  obtain s' e where "append_completion_contract r s = (s', e)" by fastforce
  with append_contract_view [OF this] Cons show ?case by simp
qed simp

lemma pin_view [simp]: "view V (rt_store (pin_at_first_cycle rt d pid)) = view V (rt_store rt)"
  by (cases "rt_store rt") (auto simp: pin_at_first_cycle_def pin_completion_contract_def pin_rows_view split: option.splits)

lemma execute_done_view:
  "d_actions d = [] \<Longrightarrow> execute_recorded rt d pid planned = (rt', res, e) \<Longrightarrow> view V (rt_store rt') = view V (rt_store rt)"
  by (auto simp: execute_recorded_def dest: verify_done_view split: if_splits prod.splits option.splits)

end

section \<open>A view that does not look at the executed steps either\<close>

locale step_view = side_view +
  assumes steps: "V (s\<lparr>st_steps := rs\<rparr>) = V s"
    and interactions: "V (s\<lparr>st_interactions := is\<rparr>) = V s"
begin

lemma append_step_view: "append_execution_step r s = (s', e) \<Longrightarrow> V s' = V s"
  by (auto simp: append_execution_step_def steps Let_def dest: db_call_view split: prod.splits option.splits)

lemma append_interaction_view: "append_execution_step_interaction r s = (s', e) \<Longrightarrow> V s' = V s"
  by (auto simp: append_execution_step_interaction_def interactions dest: db_call_view
      split: if_splits prod.splits option.splits)

lemma save_step_view: "save_execution_step r st = (st', i) \<Longrightarrow> view V st' = view V st"
  by (auto simp: save_execution_step_def dest: append_step_view split: option.splits prod.splits sum.splits)

lemma save_interactions_view: "view V (save_interactions n k ts st) = view V st"
proof (induction ts arbitrary: k st)
  case (Cons t ts)
  have "view V (save_execution_step_interaction r st) = view V st" for r
  proof (cases st)
    case (Some s)
    obtain s' e where "append_execution_step_interaction r s = (s', e)" by fastforce
    with append_interaction_view [OF this] Some show ?thesis by (simp add: save_execution_step_interaction_def)
  qed (simp add: save_execution_step_interaction_def)
  with Cons show ?case by (cases t) simp
qed simp

lemma record_step_view: "record_step rt d pid planned i rec err = (rt', n) \<Longrightarrow> view V (rt_store rt') = view V (rt_store rt)"
  by (auto simp: record_step_def save_interactions_view dest: save_step_view split: if_splits prod.splits)

lemma run_actions_view:
  "run_actions rt d pid planned ias results = (rt', results', stop) \<Longrightarrow> view V (rt_store rt') = view V (rt_store rt)"
proof (induction ias arbitrary: rt results)
  case (Cons ia ias)
  obtain i a where ia: "ia = (i, a)" by fastforce
  show ?case
  proof (cases "a = NilAction")
    case True
    with Cons ia show ?thesis by simp
  next
    case False
    obtain w' rec0 err rt1 step_id rec where step:
      "record_step (rt\<lparr>rt_outside := w'\<rparr>) d pid planned i (rec0\<lparr>ar_error := err, ar_plan_step_id := plan_step_id planned i\<rparr>) err
       = (rt1, step_id)"
      "rec = rec0\<lparr>ar_error := err, ar_plan_step_id := plan_step_id planned i, ar_execution_step_id := step_id\<rparr>"
      "run_actions rt d pid planned ((i, a) # ias) results =
       (case err of None \<Rightarrow> run_actions rt1 d pid planned ias (results @ [rec])
        | Some e \<Rightarrow> (rt1, results @ [rec], Some (i, rec, e)))"
      by (rule run_actions_step [OF False, where rt = rt and d = d and results = results and p = pid and planned = planned
          and i = i and ias = ias]) blast
    from record_step_view [OF step(1)] have "view V (rt_store rt1) = view V (rt_store rt)" by simp
    with Cons.IH [of rt1 "results @ [rec]"] Cons.prems step(3) ia show ?thesis by (cases err) auto
  qed
qed simp

lemma execute_recorded_view:
  "execute_recorded rt d pid planned = (rt', res, e) \<Longrightarrow> view V (rt_store rt') = view V (rt_store rt)"
proof (cases "d_actions d = []")
  case False
  assume r: "execute_recorded rt d pid planned = (rt', res, e)"
  obtain rt1 results stop where a: "run_actions rt d pid planned (enumerate 0 (d_actions d)) [] = (rt1, results, stop)"
    by (metis prod_cases3)
  with r False have "rt' = rt1" by (auto simp: execute_recorded_def split: option.splits)
  with run_actions_view [OF a] show ?thesis by simp
qed (rule execute_done_view)

end

interpretation plans: step_view st_plans by unfold_locales simp_all

interpretation ran: side_view st_steps by unfold_locales simp_all

section \<open>What one execution adds\<close>

definition plans_at :: "'w rt \<Rightarrow> plan_row list" where
  "plans_at rt = view st_plans (rt_store rt)"

definition steps_at :: "'w rt \<Rightarrow> step_row list" where
  "steps_at rt = view st_steps (rt_store rt)"

lemma create_plan_count: "create_execution_plan p s = (s', r) \<Longrightarrow> length (st_plans s') \<le> Suc (length (st_plans s))"
  by (auto simp: create_execution_plan_def Let_def dest: plans.db_call_view split: if_splits prod.splits option.splits)

lemma append_step_plans_plans: "append_execution_step_plans rs s = (s', e) \<Longrightarrow> st_plans s' = st_plans s"
  using append_step_plans_frame [of rs s s' e] by (simp add: same_but_step_plans_def)

lemma save_plan_count:
  assumes "save_execution_plan p rs st = (st', i, saved, e)"
  shows "length (view st_plans st') \<le> Suc (length (view st_plans st)) \<and> view st_steps st' = view st_steps st"
proof (cases st)
  case (Some s)
  obtain s1 c where c: "create_execution_plan p s = (s1, c)" by fastforce
  note c' = create_plan_parts [OF c] create_plan_count [OF c]
  show ?thesis
  proof (cases c)
    case (Inl x)
    with assms Some c c' show ?thesis by (auto simp: save_execution_plan_def)
  next
    case (Inr n)
    obtain s2 a where a: "append_execution_step_plans (map (\<lambda>r. r\<lparr>sp_plan := n\<rparr>) rs) s1 = (s2, a)" by fastforce
    obtain s3 l where l: "list_execution_step_plan n s2 = (s3, l)" by fastforce
    note l' = query_parts [OF l [unfolded list_execution_step_plan_def]] plans.query_view [OF l [unfolded list_execution_step_plan_def]]
    from assms Some c Inr a l c' append_step_plans_count [OF a] append_step_plans_plans [OF a] l'
    show ?thesis by (auto simp: save_execution_plan_def split: option.splits sum.splits)
  qed
qed (use assms in \<open>simp add: save_execution_plan_def\<close>)

lemma record_plan_count:
  assumes "record_plan rt d = (rt', pid, saved, e)"
  shows "length (plans_at rt') \<le> Suc (length (plans_at rt)) \<and> steps_at rt' = steps_at rt"
proof -
  obtain st1 n where st1: "(if task_id_of (d_ctx d) = [] then (rt_store rt, 0)
      else (case task_input_message_lookup (task_id_of (d_ctx d)) (rt_store rt) of
              (st', Some i) \<Rightarrow> (st', i) | (st', None) \<Rightarrow> (st', do_input_message (d_origin d)))) = (st1, n)" by fastforce
  have "view st_plans st1 = view st_plans (rt_store rt) \<and> view st_steps st1 = view st_steps (rt_store rt)"
    using st1 by (auto simp: task_input_message_lookup_def task_input_message_id_def
        dest: plans.query_view ran.query_view split: if_splits option.splits prod.splits sum.splits)
  moreover obtain st2 i sv e' where save: "save_execution_plan (plan_row_of rt d n) (step_plan_rows (d_actions d)) st1
      = (st2, i, sv, e')" by (metis prod_cases4)
  moreover have "rt' = rt\<lparr>rt_store := st2\<rparr>" using assms st1 save by (simp add: record_plan_def Let_def)
  ultimately show ?thesis using save_plan_count [OF save] by (simp add: plans_at_def steps_at_def)
qed

lemma record_plan_only_count:
  assumes "record_plan_only rt d = (rt', pid, saved, e)"
  shows "length (plans_at rt') \<le> Suc (length (plans_at rt)) \<and> steps_at rt' = steps_at rt"
proof -
  obtain rt1 p sv r where rec: "record_plan rt d = (rt1, p, sv, r)" by (metis prod_cases4)
  from record_plan_count [OF rec] assms rec show ?thesis
    by (auto simp: record_plan_only_def plans_at_def steps_at_def split: option.splits)
qed

lemma execute_count:
  assumes "execute rt d = (rt', res, e)"
  shows "length (plans_at rt') \<le> Suc (length (plans_at rt))"
proof (cases "check_before_run rt d")
  case None
  obtain rt1 p sv r where rec: "record_plan rt d = (rt1, p, sv, r)" by (metis prod_cases4)
  show ?thesis
  proof (cases r)
    case None
    with assms rec \<open>check_before_run rt d = None\<close> have "execute_recorded (pin_at_first_cycle rt1 d p) d p sv = (rt', res, e)"
      by (simp add: execute_def execute_plan_def)
    from plans.execute_recorded_view [OF this] record_plan_count [OF rec] show ?thesis by (simp add: plans_at_def)
  next
    case (Some x)
    with assms rec record_plan_count [OF rec] \<open>check_before_run rt d = None\<close> show ?thesis
      by (auto simp: execute_def execute_plan_def)
  qed
qed (use assms in \<open>simp add: execute_def execute_plan_def\<close>)

lemma execute_approved_count:
  "execute_approved rt d pid planned = (rt', res, e) \<Longrightarrow> length (plans_at rt') \<le> Suc (length (plans_at rt))"
proof (cases "pid = 0")
  case True
  assume a: "execute_approved rt d pid planned = (rt', res, e)"
  with True have "execute rt d = (rt', res, e)" by (simp add: execute_approved_def execute_def execute_plan_def)
  then show ?thesis by (rule execute_count)
next
  case False
  assume a: "execute_approved rt d pid planned = (rt', res, e)"
  with False have "execute_recorded rt d pid planned = (rt', res, e)" by (simp add: execute_approved_def execute_plan_def)
  from plans.execute_recorded_view [OF this] show ?thesis by (simp add: plans_at_def)
qed

text \<open>A checked decision of another type than \<open>plan\<close> has no steps, so its execution runs none.\<close>

lemma checked_conclusion_no_steps:
  assumes "validate_decision d = None" and "concludes d"
  shows "d_actions d = []"
proof -
  have "no_steps d = None"
    using assms by (auto simp: validate_decision_None concludes_def rules_for_done rules_for_blocked rules_for_need_input)
  then show ?thesis by (simp add: no_steps_def split: if_splits)
qed

lemma execute_conclusion_steps:
  assumes "execute rt d = (rt', res, e)" and "concludes d"
  shows "steps_at rt' = steps_at rt"
proof (cases "check_before_run rt d")
  case None
  then have "validate_decision d = None" by (simp add: check_before_run_def or_else_def split: option.splits)
  then have no: "d_actions d = []" using assms(2) by (rule checked_conclusion_no_steps)
  obtain rt1 p sv r where rec: "record_plan rt d = (rt1, p, sv, r)" by (metis prod_cases4)
  show ?thesis
  proof (cases r)
    case None
    with assms(1) rec \<open>check_before_run rt d = None\<close> have "execute_recorded (pin_at_first_cycle rt1 d p) d p sv = (rt', res, e)"
      by (simp add: execute_def execute_plan_def)
    from ran.execute_done_view [OF no this] record_plan_count [OF rec] show ?thesis by (simp add: steps_at_def)
  next
    case (Some x)
    with assms(1) rec record_plan_count [OF rec] \<open>check_before_run rt d = None\<close> show ?thesis
      by (auto simp: execute_def execute_plan_def)
  qed
qed (use assms in \<open>simp add: execute_def execute_plan_def\<close>)

end
