(* ===== verification/Run_Laws.thy ===== *)
theory Run_Laws
  imports Message_Run Store_Views
begin

text \<open>
  What a run promises: how much it may do, how it may end, and that nothing is carried out before
  it was confirmed.  What every cycle keeps is proved once, in a locale, for any property of the
  runtime and the planner.
\<close>

section \<open>What every cycle keeps\<close>

lemma run_marks [simp]:
  "ap_rt (rn_app (run_mark_stopped r)) = ap_rt (rn_app r)" "rn_agent (run_mark_stopped r) = rn_agent r"
  "ap_rt (rn_app (run_fail su e r)) = ap_rt (rn_app r)" "rn_agent (run_fail su e r) = rn_agent r"
  "ap_rt (rn_app (run_persist t r)) = ap_rt (rn_app r)" "rn_agent (run_persist t r) = rn_agent r"
  by (simp_all add: run_mark_stopped_def run_fail_def run_persist_def app_persist_def split: prod.splits)

lemma finish_run_rt [simp]:
  "ap_rt (rn_app (fst (finish_run su n d err r))) = ap_rt (rn_app r)"
  "rn_agent (fst (finish_run su n d err r)) = rn_agent r"
  by (auto simp: finish_run_def Let_def split: prod.splits bool.splits option.splits)

locale cycle_invariant =
  fixes su :: surroundings
    and I :: "nat \<Rightarrow> 'w rt \<Rightarrow> planner \<Rightarrow> bool"
  assumes released: "I n rt a \<Longrightarrow> pa_approved a \<Longrightarrow> pa_pending a = Some (d, pid, planned) \<Longrightarrow>
      I (Suc n) (fst (execute_approved rt d pid planned)) (a\<lparr>pa_pending := None, pa_approved := False\<rparr>)"
    and cleared: "I n rt a \<Longrightarrow> pa_approved a \<Longrightarrow> I n rt (a\<lparr>pa_pending := None, pa_approved := False\<rparr>)"
    and decided: "I n rt a \<Longrightarrow> agent_decide su a (Suc c) history inp brief = Inr d \<Longrightarrow> \<not> needs_plan_approval a d \<Longrightarrow>
      I (Suc n) (fst (execute rt d)) a"
    and paused: "I n rt a \<Longrightarrow> agent_decide su a (Suc c) history inp brief = Inr d \<Longrightarrow> needs_plan_approval a d \<Longrightarrow>
      record_plan_only rt d = (rt', pid, saved, e) \<Longrightarrow>
      I (Suc n) rt' (if e = None then a\<lparr>pa_pending := Some (d, pid, saved)\<rparr> else a)"
begin

definition holds :: "nat \<Rightarrow> 'w run \<Rightarrow> bool" where
  "holds n r \<longleftrightarrow> I n (ap_rt (rn_app r)) (rn_agent r)"

lemma holds_marks [simp]:
  "holds n (run_mark_stopped r) \<longleftrightarrow> holds n r" "holds n (run_fail su' e r) \<longleftrightarrow> holds n r"
  "holds n (run_persist t r) \<longleftrightarrow> holds n r" "holds n (r\<lparr>rn_ctx := c\<rparr>) \<longleftrightarrow> holds n r"
  "holds n (fst (finish_run su' b d err r)) \<longleftrightarrow> holds n r"
  by (simp_all add: holds_def)

lemma holds_pause:
  assumes "holds n r" "agent_decide su (rn_agent r) (Suc c) history inp brief = Inr d" "needs_plan_approval (rn_agent r) d"
  shows "holds (Suc n) (fst (pause_run su d r))"
proof -
  obtain rt' pid saved e where p: "record_plan_only (ap_rt (rn_app r)) d = (rt', pid, saved, e)" by (metis prod_cases4)
  with paused [OF assms(1) [unfolded holds_def] assms(2,3) p] show ?thesis
    by (cases e) (simp_all add: pause_run_def Let_def holds_def)
qed

definition turn_holds :: "nat \<Rightarrow> 'w turn \<Rightarrow> bool" where
  "turn_holds n t = (case t of RunOver r e \<Rightarrow> holds n r | NextCycle d err res r \<Rightarrow> holds n r)"

lemma turn_holds_simps [simp]:
  "turn_holds n (RunOver r e) = holds n r" "turn_holds n (NextCycle d err res r) = holds n r"
  "turn_holds n (run_over x) = holds n (fst x)"
  by (simp_all add: turn_holds_def run_over_def)

lemma holds_observe:
  "holds n (r\<lparr>rn_app := (rn_app r)\<lparr>ap_rt := fst ex\<rparr>\<rparr>) \<Longrightarrow> turn_holds n (observe_result su b dec ex r)"
  by (auto simp: observe_result_def Let_def split: prod.splits bool.splits)

lemma holds_approved:
  assumes "holds n r" "pa_approved (rn_agent r)" "pa_pending (rn_agent r) = Some p"
  shows "turn_holds (if budget < cycle then n else Suc n) (approved_cycle su budget cycle err p r)"
proof -
  obtain dec pid planned where p: "p = (dec, pid, planned)" by (metis prod_cases3)
  have "holds n (r\<lparr>rn_agent := (rn_agent r)\<lparr>pa_pending := None, pa_approved := False\<rparr>\<rparr>)"
    using assms cleared by (simp add: holds_def)
  moreover have "I (Suc n) (fst (execute_approved (ap_rt (rn_app r)) dec pid planned))
      ((rn_agent r)\<lparr>pa_pending := None, pa_approved := False\<rparr>)"
    using assms released p by (simp add: holds_def)
  ultimately show ?thesis
    using p by (auto simp: approved_cycle_def Let_def holds_def intro: holds_observe [unfolded holds_def])
qed

lemma holds_planned:
  assumes "holds n r"
  shows "turn_holds n (planned_cycle su budget inp brief (Suc c) d err history r) \<or>
    c < budget \<and> turn_holds (Suc n) (planned_cycle su budget inp brief (Suc c) d err history r)"
proof (cases "budget < Suc c")
  case True
  with assms show ?thesis by (simp add: planned_cycle_def)
next
  case False
  then have c: "c < budget" by simp
  show ?thesis
  proof (cases "agent_decide su (rn_agent r) (Suc c) history inp brief")
    case (Inl e)
    with assms False show ?thesis by (auto simp: planned_cycle_def split: prod.splits bool.splits)
  next
    case (Inr dec)
    show ?thesis
    proof (cases "needs_plan_approval (rn_agent r) dec")
      case True
      from holds_pause [OF assms Inr True] c False Inr True show ?thesis by (simp add: planned_cycle_def)
    next
      case no: False
      from decided [OF assms [unfolded holds_def] Inr no]
      have "turn_holds (Suc n) (observe_result su budget dec (execute (ap_rt (rn_app r)) dec) r)"
        by (intro holds_observe) (simp add: holds_def)
      with c False Inr no show ?thesis by (simp add: planned_cycle_def)
    qed
  qed
qed

lemma holds_turn:
  assumes "holds n r"
  shows "turn_holds n (run_turn su budget inp brief c d err history r) \<or>
    c < budget \<and> turn_holds (Suc n) (run_turn su budget inp brief c d err history r)"
proof (cases "ctx_check (rn_ctx r)")
  case (Pair x stop)
  let ?r = "r\<lparr>rn_ctx := x\<rparr>"
  have r: "holds n ?r" using assms by simp
  show ?thesis
  proof (cases stop)
    case True
    with Pair r show ?thesis by (simp add: run_turn_def)
  next
    case False
    show ?thesis
    proof (cases "if pa_approved (rn_agent r) then pa_pending (rn_agent r) else None")
      case None
      with holds_planned [OF r, of budget inp brief c d err history] Pair False show ?thesis by (simp add: run_turn_def)
    next
      case (Some p)
      then have "pa_approved (rn_agent ?r)" "pa_pending (rn_agent ?r) = Some p" by (auto split: if_splits)
      from holds_approved [OF r this, of budget "Suc c" err] Pair False Some show ?thesis
        by (auto simp: run_turn_def split: if_splits)
    qed
  qed
qed

lemma cycles_keep:
  "holds n r \<Longrightarrow> \<exists>m \<le> n + (budget - c). holds m (fst (run_cycles su budget inp brief c d err history r))"
proof (induction "budget - c" arbitrary: c d err history r n rule: less_induct)
  case less
  let ?t = "run_turn su budget inp brief c d err history r"
  from holds_turn [OF less.prems] have t: "turn_holds n ?t \<or> c < budget \<and> turn_holds (Suc n) ?t" .
  show ?case
  proof (cases ?t)
    case (RunOver r' e)
    with t show ?thesis
    proof (elim disjE)
      assume "turn_holds n ?t"
      with RunOver show ?thesis by (intro exI [of _ n]) (simp add: run_cycles.simps)
    next
      assume "c < budget \<and> turn_holds (Suc n) ?t"
      then have "Suc n \<le> n + (budget - c)" "holds (Suc n) r'" using RunOver by auto
      with RunOver show ?thesis by (intro exI [of _ "Suc n"]) (simp add: run_cycles.simps)
    qed
  next
    case (NextCycle d' err' res r')
    from run_turn_next [OF this] have c: "c < budget" .
    from t NextCycle have "holds n r' \<or> holds (Suc n) r'" by auto
    then obtain k where k: "k \<le> Suc n" "holds k r'" by (metis le_SucI order_refl)
    have "budget - Suc c < budget - c" using c by simp
    from less.hyps [OF this k(2)] obtain m where
      "m \<le> k + (budget - Suc c)" "holds m (fst (run_cycles su budget inp brief (Suc c) (Some d') err' (history @ [res]) r'))" by blast
    with NextCycle k c show ?thesis by (intro exI [of _ m]) (auto simp: run_cycles.simps [of su budget inp brief c])
  qed
qed

end

section \<open>The cycle budget\<close>

text \<open>Each cycle writes at most one plan.\<close>

interpretation plan_count: cycle_invariant su "\<lambda>n rt a. length (plans_at rt) \<le> n + k" for su k
proof unfold_locales
  fix n rt a d pid planned
  assume "length (plans_at rt) \<le> n + k"
  moreover obtain rt' res e where "execute_approved rt d pid planned = (rt', res, e)" by (metis prod_cases3)
  ultimately show "length (plans_at (fst (execute_approved rt d pid planned))) \<le> Suc n + k"
    using execute_approved_count by fastforce
next
  fix n rt a d
  assume "length (plans_at rt) \<le> n + k"
  moreover obtain rt' res e where "execute rt d = (rt', res, e)" by (metis prod_cases3)
  ultimately show "length (plans_at (fst (execute rt d))) \<le> Suc n + k" using execute_count by fastforce
next
  fix n rt a d rt' pid saved e
  assume "length (plans_at rt) \<le> n + k" "record_plan_only rt d = (rt', pid, saved, e)"
  then show "length (plans_at rt') \<le> Suc n + k" using record_plan_only_count by fastforce
qed

lemma query_plans: "query q s = (s', r) \<Longrightarrow> st_plans s' = st_plans s \<and> st_steps s' = st_steps s"
  using plans.query_view ran.query_view by blast

lemma outcome_plans: "execution_plan_outcome p s = (s', r) \<Longrightarrow> st_plans s' = st_plans s \<and> st_steps s' = st_steps s"
  by (auto simp: execution_plan_outcome_def dest!: query_plans split: prod.splits sum.splits if_splits)

lemma task_rounds_plans: "task_rounds ps s = (s', rs) \<Longrightarrow> st_plans s' = st_plans s \<and> st_steps s' = st_steps s"
proof (induction ps arbitrary: s rs)
  case (Cons p ps)
  obtain s1 r where r: "read_round p s = (s1, r)" by fastforce
  then have "st_plans s1 = st_plans s \<and> st_steps s1 = st_steps s"
    by (auto simp: read_round_def Let_def list_execution_step_plan_def list_execution_steps_def
        dest!: query_plans outcome_plans split: prod.splits)
  with Cons r show ?case by (auto simp: Let_def split: prod.splits)
qed simp

lemma task_verdicts_plans: "task_verdicts t s = (s', vs) \<Longrightarrow> st_plans s' = st_plans s \<and> st_steps s' = st_steps s"
  by (auto simp: task_verdicts_def list_verifications_def dest!: query_plans split: prod.splits sum.splits)

lemma open_criteria_plans: "open_criteria t s = (s', ns) \<Longrightarrow> st_plans s' = st_plans s \<and> st_steps s' = st_steps s"
proof -
  assume o: "open_criteria t s = (s', ns)"
  obtain st1 cs where p: "pinned_completion_contract t (Some s) = (st1, cs)" by fastforce
  then obtain s1 where s1: "st1 = Some s1"
    by (auto simp: pinned_completion_contract_def split: if_splits prod.splits sum.splits)
  from plans.pinned_contract_view [OF p] ran.pinned_contract_view [OF p] s1
  have "st_plans s1 = st_plans s \<and> st_steps s1 = st_steps s" by simp
  with o p s1 show ?thesis
    by (auto simp: open_criteria_def Let_def dest!: task_verdicts_plans split: if_splits prod.splits)
qed

lemma run_briefing_views:
  assumes "run_briefing su t app = (app', b)"
  shows "plans_at (ap_rt app') = plans_at (ap_rt app) \<and> steps_at (ap_rt app') = steps_at (ap_rt app)"
proof -
  obtain st ts where b: "read_briefing (su_note su) (su_cut_note su) t (rt_store (ap_rt app)) (ap_tasks app) = (st, ts, b)"
    and app': "app' = app\<lparr>ap_rt := (ap_rt app)\<lparr>rt_store := st\<rparr>, ap_tasks := ts\<rparr>"
    using assms by (auto simp: run_briefing_def split: prod.splits)
  have "view st_plans st = view st_plans (rt_store (ap_rt app)) \<and> view st_steps st = view st_steps (rt_store (ap_rt app))"
    using b by (auto simp: read_briefing_def Let_def list_execution_plans_def
        dest!: query_plans task_rounds_plans task_verdicts_plans open_criteria_plans
        split: if_splits option.splits prod.splits sum.splits)
  with app' show ?thesis by (simp add: plans_at_def steps_at_def)
qed

text \<open>
  C5: A run is bounded by its budget: whatever the planner answers, whatever fails and whenever it is
  cancelled, one run of a task writes at most as many plans as the budget has cycles.
\<close>

theorem run_within_budget:
  "length (plans_at (ap_rt (rn_app (fst (run_loop su budget inp r))))) \<le> length (plans_at (ap_rt (rn_app r))) + budget"
proof -
  obtain app' b where b: "run_briefing su (tk_id (rn_task r)) (rn_app r) = (app', b)" by fastforce
  let ?k = "length (plans_at (ap_rt (rn_app r)))"
  let ?final = "fst (run_cycles su budget inp b 0 None None [] (r\<lparr>rn_app := app'\<rparr>))"
  have "plan_count.holds ?k 0 (r\<lparr>rn_app := app'\<rparr>)"
    using run_briefing_views [OF b] by (simp add: plan_count.holds_def)
  from plan_count.cycles_keep [OF this] obtain m where m: "m \<le> 0 + (budget - 0)" "plan_count.holds ?k m ?final" by blast
  from m b show ?thesis by (simp add: run_loop_def plan_count.holds_def)
qed

section \<open>Nothing is carried out before it is confirmed\<close>

lemma needs_approval_plan: "needs_plan_approval a d \<longleftrightarrow> pa_requires a \<and> \<not> pa_approved a \<and> type_of d = decision_plan"
proof -
  have "to_lower decision_plan = decision_plan" by code_simp
  then show ?thesis by (simp add: needs_plan_approval_def equal_fold_def type_of_def)
qed

text \<open>The planner answers in the vocabulary of the decision types.\<close>

definition speaks_the_vocabulary :: "surroundings \<Rightarrow> bool" where
  "speaks_the_vocabulary su \<longleftrightarrow>
     (\<forall>c h i b d. su_decide su c h i b = Inr d \<longrightarrow> type_of d = decision_plan \<or> concludes d)"

lemma decided_type:
  "speaks_the_vocabulary su \<Longrightarrow> agent_decide su a c h i b = Inr d \<Longrightarrow> type_of d = decision_plan \<or> concludes d"
  by (auto simp: speaks_the_vocabulary_def agent_decide_def type_of_def concludes_def split: sum.splits) metis

text \<open>
  What the system tools keep of the outside.  \<open>Q\<close> is any property of it; nothing is asked of the other
  capabilities, so a run that keeps every such property has called none of them.
\<close>

definition tools_keep :: "'w factory option \<Rightarrow> 'w capability smap \<Rightarrow> ('w outside \<Rightarrow> bool) \<Rightarrow> bool" where
  "tools_keep f caps Q \<longleftrightarrow>
     (\<forall>name c inp w. is_verification_tool f name \<longrightarrow> map_of caps name = Some c \<longrightarrow> Q w \<longrightarrow> Q (fst (cap_run c inp w)))"

definition untouched :: "('w outside \<Rightarrow> bool) \<Rightarrow> 'w rt \<Rightarrow> bool" where
  "untouched Q rt \<longleftrightarrow> tools_keep (rt_factory rt) (rt_caps rt) Q \<and> Q (rt_outside rt)"

lemma untouched_upd [simp]:
  "untouched Q (rt\<lparr>rt_store := st\<rparr>) = untouched Q rt"
  "untouched Q (rt\<lparr>rt_outside := w, rt_store := st\<rparr>) \<longleftrightarrow> tools_keep (rt_factory rt) (rt_caps rt) Q \<and> Q w"
  by (simp_all add: untouched_def)

lemma ask_keeps:
  assumes "ask_authority rt ctx ask prior = (w', r)" "untouched Q rt" shows "Q w'"
proof -
  let ?n = "to_lower (trim (va_capability ask))"
  have before: "Q (rt_outside rt)" using assms(2) by (simp add: untouched_def)
  have called: "Q w2" if "is_verification_tool (rt_factory rt) ?n" "map_of (rt_caps rt) ?n = Some c"
    "cap_run c inp (rt_outside rt) = (w2, out, e)" for c inp w2 out e
    using assms(2) that unfolding untouched_def tools_keep_def by (metis fst_conv)
  show ?thesis using assms(1) before
    by (auto simp: ask_authority_def Let_def split: if_splits option.splits sum.splits prod.splits dest: called)
qed

lemma criterion_keeps:
  assumes "verify_criterion rt ctx plan c prior = (w', v)" "untouched Q rt" shows "Q w'"
proof (rule ccontr)
  assume no: "\<not> Q w'"
  have "Q (rt_outside rt)" using assms(2) by (simp add: untouched_def)
  with assms(1) no obtain s st key ref j where "verify_step_criterion rt ctx st key c prior = (w', ref, j)"
    by (auto simp: verify_criterion_def judge_criterion_def Let_def split: if_splits sum.splits prod.splits input_source.splits)
  with no \<open>Q (rt_outside rt)\<close> obtain ask r where "ask_authority rt ctx ask prior = (w', r)"
    by (auto simp: verify_step_criterion_def Let_def split: if_splits option.splits sum.splits prod.splits)
  with ask_keeps assms(2) no show False by blast
qed

lemma verify_all_keeps: "verify_all rt ctx plan cs prior = (rt', vs) \<Longrightarrow> untouched Q rt \<Longrightarrow> untouched Q rt'"
proof (induction cs arbitrary: rt vs)
  case (Cons c cs)
  obtain w v where v: "verify_criterion rt ctx plan c prior = (w, v)" by fastforce
  let ?rt = "rt\<lparr>rt_outside := w, rt_store := save_verification v (rt_store rt)\<rparr>"
  obtain vs' where "verify_all ?rt ctx plan cs prior = (rt', vs')" using Cons.prems(1) v by (auto split: prod.splits)
  moreover have "untouched Q ?rt" using criterion_keeps [OF v Cons.prems(2)] Cons.prems(2) by (simp add: untouched_def)
  ultimately show ?case by (rule Cons.IH)
qed simp

lemma verify_done_keeps: "verify_done rt ctx plan = (rt', e) \<Longrightarrow> untouched Q rt \<Longrightarrow> untouched Q rt'"
  by (auto simp: verify_done_def Let_def dest!: verify_all_keeps [where Q = Q] split: prod.splits if_splits)

lemma record_plan_keeps: "record_plan rt d = (rt', pid, saved, e) \<Longrightarrow> untouched Q rt' = untouched Q rt"
  by (auto simp: record_plan_def Let_def split: prod.splits)

lemma pin_keeps [simp]: "untouched Q (pin_at_first_cycle rt d pid) = untouched Q rt"
  by (simp add: pin_at_first_cycle_def)

lemma record_plan_only_keeps: "record_plan_only rt d = (rt', pid, saved, e) \<Longrightarrow> untouched Q rt' = untouched Q rt"
  by (auto simp: record_plan_only_def dest: record_plan_keeps [where Q = Q] split: option.splits prod.splits)

lemma conclusion_keeps:
  assumes "execute rt d = (rt', res, e)" "concludes d" "untouched Q rt" shows "untouched Q rt'"
proof (cases "check_before_run rt d")
  case None
  then have "validate_decision d = None" by (simp add: check_before_run_def or_else_def split: option.splits)
  then have no: "d_actions d = []" using assms(2) by (rule checked_conclusion_no_steps)
  obtain rt1 p sv r where rec: "record_plan rt d = (rt1, p, sv, r)" by (metis prod_cases4)
  with assms(3) have 1: "untouched Q (pin_at_first_cycle rt1 d p)" by (simp add: record_plan_keeps)
  then have "untouched Q rt2" if "execute_recorded (pin_at_first_cycle rt1 d p) d p sv = (rt2, res2, e2)" for rt2 res2 e2
    using that no by (auto simp: execute_recorded_def dest: verify_done_keeps split: if_splits prod.splits option.splits)
  with 1 assms(1) rec None show ?thesis by (auto simp: execute_def execute_plan_def split: option.splits)
qed (use assms in \<open>simp add: execute_def execute_plan_def\<close>)

interpretation gate: cycle_invariant su
  "\<lambda>n rt a. speaks_the_vocabulary su \<and> pa_requires a \<and> \<not> pa_approved a \<and> steps_at rt = S \<and> untouched Q rt" for su S Q
proof unfold_locales
  fix n rt a c history inp brief d
  assume I: "speaks_the_vocabulary su \<and> pa_requires a \<and> \<not> pa_approved a \<and> steps_at rt = S \<and> untouched Q rt"
    and d: "agent_decide su a (Suc c) history inp brief = Inr d" "\<not> needs_plan_approval a d"
  then have c: "concludes d" using decided_type [OF _ d(1)] by (auto simp: needs_approval_plan)
  obtain rt' res e where x: "execute rt d = (rt', res, e)" by (metis prod_cases3)
  from execute_conclusion_steps [OF x c] conclusion_keeps [OF x c] I x
  show "speaks_the_vocabulary su \<and> pa_requires a \<and> \<not> pa_approved a \<and> steps_at (fst (execute rt d)) = S \<and> untouched Q (fst (execute rt d))"
    by simp
next
  fix n rt a c history inp brief d rt' pid saved e
  assume "speaks_the_vocabulary su \<and> pa_requires a \<and> \<not> pa_approved a \<and> steps_at rt = S \<and> untouched Q rt"
    and "record_plan_only rt d = (rt', pid, saved, e)"
  then show "speaks_the_vocabulary su \<and> pa_requires (if e = None then a\<lparr>pa_pending := Some (d, pid, saved)\<rparr> else a) \<and>
      \<not> pa_approved (if e = None then a\<lparr>pa_pending := Some (d, pid, saved)\<rparr> else a) \<and> steps_at rt' = S \<and> untouched Q rt'"
    by (auto simp: record_plan_only_keeps dest: record_plan_only_count)
qed auto

lemma briefing_keeps: "run_briefing su t app = (app', b) \<Longrightarrow> untouched Q (ap_rt app') = untouched Q (ap_rt app)"
  by (auto simp: run_briefing_def split: prod.splits)

text \<open>
  C3: An agent that must have its plan confirmed executes nothing in a run nobody confirmed.  The planner
  is taken to answer with one of the four decision types.  Whatever the run does, whatever fails in the
  database and however often the planner answers, no capability but the system tools a \<open>done\<close> is judged
  with is called: every property of the outside that those tools keep holds after the run as before,
  whatever the other capabilities would do to it.  No executed step is recorded, and the agent is still
  unconfirmed.
\<close>

theorem nothing_runs_unconfirmed:
  assumes "speaks_the_vocabulary su" and "pa_requires (rn_agent r)" and "\<not> pa_approved (rn_agent r)"
    and tools: "\<And>name c i w. is_verification_tool (rt_factory (ap_rt (rn_app r))) name \<Longrightarrow>
      map_of (rt_caps (ap_rt (rn_app r))) name = Some c \<Longrightarrow> Q w \<Longrightarrow> Q (fst (cap_run c i w))"
    and before: "Q (rt_outside (ap_rt (rn_app r)))"
  shows "Q (rt_outside (ap_rt (rn_app (fst (run_loop su budget inp r))))) \<and>
    steps_at (ap_rt (rn_app (fst (run_loop su budget inp r)))) = steps_at (ap_rt (rn_app r)) \<and>
    \<not> pa_approved (rn_agent (fst (run_loop su budget inp r)))"
proof -
  obtain app' b where b: "run_briefing su (tk_id (rn_task r)) (rn_app r) = (app', b)" by fastforce
  let ?S = "steps_at (ap_rt (rn_app r))"
  let ?final = "fst (run_cycles su budget inp b 0 None None [] (r\<lparr>rn_app := app'\<rparr>))"
  have "untouched Q (ap_rt (rn_app r))" using tools before by (simp add: untouched_def tools_keep_def)
  then have "gate.holds su ?S Q 0 (r\<lparr>rn_app := app'\<rparr>)"
    using run_briefing_views [OF b] briefing_keeps [OF b] assms(1-3) unfolding gate.holds_def by simp
  from gate.cycles_keep [OF this] obtain m where "gate.holds su ?S Q m ?final" by blast
  with b show ?thesis unfolding gate.holds_def by (simp add: run_loop_def untouched_def)
qed

section \<open>What an agent waits for\<close>

text \<open>An agent pauses on plans only, so a run never leaves it waiting for a conclusion.\<close>

definition paused_on_plan :: "planner \<Rightarrow> bool" where
  "paused_on_plan a \<longleftrightarrow> (case pa_pending a of None \<Rightarrow> True | Some (d, _) \<Rightarrow> \<not> concludes d)"

lemma plan_concludes_not: "type_of d = decision_plan \<Longrightarrow> \<not> concludes d"
proof -
  assume t: "type_of d = decision_plan"
  have "decision_plan \<noteq> decision_done" "decision_plan \<noteq> decision_blocked" "decision_plan \<noteq> decision_need_input" by code_simp+
  with t show ?thesis by (auto simp: concludes_def type_of_def)
qed

interpretation pauses: cycle_invariant su "\<lambda>n rt a. paused_on_plan a" for su
  by unfold_locales (auto simp: paused_on_plan_def needs_approval_plan dest: plan_concludes_not)

lemma run_pauses_on_plans:
  assumes "paused_on_plan (rn_agent r)" shows "paused_on_plan (rn_agent (fst (run_loop su budget inp r)))"
proof -
  obtain app' b where b: "run_briefing su (tk_id (rn_task r)) (rn_app r) = (app', b)" by fastforce
  have "pauses.holds 0 (r\<lparr>rn_app := app'\<rparr>)" using assms by (simp add: pauses.holds_def)
  from pauses.cycles_keep [OF this, of budget 0 su inp b] b show ?thesis by (auto simp: pauses.holds_def run_loop_def)
qed

end
