(* ===== verification/Run_Outcome.thy ===== *)
theory Run_Outcome
  imports Run_Laws
begin

text \<open>
  How a run ends: what the task's row says, that a task completes only on a \<open>done\<close> that was verified,
  and what a continued run and a chat turn are told about the stop of the round before.
\<close>

section \<open>The last turn\<close>

lemma run_over_iff [simp]: "run_over x = RunOver r e \<longleftrightarrow> x = (r, e)"
  by (auto simp: run_over_def)

lemma run_cycles_last:
  assumes "run_cycles su budget inp brief c d err history r = (r', e)" and "R d err r"
    and "\<And>c d err history r d' err' res r'. R d err r \<Longrightarrow>
      run_turn su budget inp brief c d err history r = NextCycle d' err' res r' \<Longrightarrow> R (Some d') err' r'"
  shows "\<exists>c d err history r0. R d err r0 \<and> run_turn su budget inp brief c d err history r0 = RunOver r' e"
  using assms(1,2)
proof (induction "budget - c" arbitrary: c d err history r rule: less_induct)
  case less
  show ?case
  proof (cases "run_turn su budget inp brief c d err history r")
    case (RunOver r1 e1)
    with less.prems(1) have "r1 = r'" "e1 = e" by (simp_all add: run_cycles.simps [of su budget inp brief c])
    with RunOver less.prems(2) show ?thesis by blast
  next
    case (NextCycle d1 err1 res r1)
    from run_turn_next [OF this] have "budget - Suc c < budget - c" by simp
    moreover have "run_cycles su budget inp brief (Suc c) (Some d1) err1 (history @ [res]) r1 = (r', e)"
      using less.prems(1) NextCycle by (simp add: run_cycles.simps [of su budget inp brief c])
    ultimately show ?thesis using assms(3) [OF less.prems(2) NextCycle] by (rule less.hyps)
  qed
qed

lemma observe_next:
  "observe_result su budget dec ex r = NextCycle d' err' res r' \<Longrightarrow>
     d' = dec \<and> \<not> (concludes dec \<and> err' = None) \<and> err' = rr_error res \<and> rn_task r' = rn_task r \<and>
     rn_agent r' = rn_agent r \<and> ap_tasks (rn_app r') = ap_tasks (rn_app r) \<and> ap_reasons (rn_app r') = ap_reasons (rn_app r)"
  by (auto simp: observe_result_def run_over_def Let_def split: prod.splits bool.splits if_splits)

lemma turn_next:
  assumes "run_turn su budget inp brief c d err history r = NextCycle d' err' res r'"
  shows "\<not> (concludes d' \<and> err' = None) \<and> rn_task r' = rn_task r \<and> ap_tasks (rn_app r') = ap_tasks (rn_app r) \<and>
    ap_reasons (rn_app r') = ap_reasons (rn_app r) \<and> pa_task (rn_agent r') = pa_task (rn_agent r) \<and>
    (pa_pending (rn_agent r') = None \<or> pa_pending (rn_agent r') = pa_pending (rn_agent r))"
  using assms
  by (auto simp: run_turn_def approved_cycle_def planned_cycle_def run_over_def Let_def
      dest!: observe_next split: prod.splits bool.splits option.splits if_splits sum.splits)

section \<open>What the row says at the end\<close>

definition stop_text :: "stop_reasons \<Rightarrow> string \<Rightarrow> string" where
  "stop_text reasons t = (case stop_reason_of t reasons of None \<Rightarrow> ''stopped'' | Some r \<Rightarrow> stop_error_text r)"

definition ended_as :: "surroundings \<Rightarrow> stop_reasons \<Rightarrow> task \<Rightarrow> run_error option \<Rightarrow> bool" where
  "ended_as su reasons t e =
    (case e of
       None \<Rightarrow> tk_status t \<in> {task_status_completed, task_status_blocked, task_status_need_input, status_awaiting_approval}
     | Some x \<Rightarrow>
         if x = RunStopped then tk_status t = status_stopped \<and> tk_error t = stop_text reasons (tk_id t)
         else (tk_status t = status_error \<or> tk_status t = status_unverified) \<and> tk_error t = run_error_text su x)"

definition row_says :: "task_table \<Rightarrow> task \<Rightarrow> bool" where
  "row_says s t \<longleftrightarrow> task_calm s \<and>
     (case task_row (tk_id t) s of None \<Rightarrow> False
      | Some row \<Rightarrow> tk_status row = tk_status t \<and> tk_error row = tk_error t)"

text \<open>The run of one task, still running, over a database that answers.\<close>

definition under_way :: "stop_reasons \<Rightarrow> task \<Rightarrow> 'w run \<Rightarrow> bool" where
  "under_way rs t r \<longleftrightarrow> rn_task r = t \<and> tk_status t = status_running \<and> ap_reasons (rn_app r) = rs \<and> (\<exists>s. ap_tasks (rn_app r) = Some s \<and> task_calm s)"

definition told :: "task \<Rightarrow> 'w run \<Rightarrow> bool" where
  "told t r \<longleftrightarrow> tk_id (rn_task r) = tk_id t \<and> (\<exists>s. ap_tasks (rn_app r) = Some s \<and> row_says s (rn_task r))"

lemma row_says_upsert: "task_calm s \<Longrightarrow> row_says (fst (upsert_task t s)) t"
  using task_row_upsert [of s t] task_calm_upsert [of s t] by (auto simp: row_says_def)

lemma told_persist: "under_way rs t r \<Longrightarrow> tk_id t' = tk_id t \<Longrightarrow> told t (run_persist t' r)"
  using row_says_upsert by (auto simp: told_def under_way_def run_persist_def app_persist_def persist_task_def)

lemma under_way_upd [simp]:
  "under_way rs t (r\<lparr>rn_ctx := c\<rparr>) \<longleftrightarrow> under_way rs t r" "under_way rs t (r\<lparr>rn_agent := a\<rparr>) \<longleftrightarrow> under_way rs t r"
  "under_way rs t (r\<lparr>rn_app := (rn_app r)\<lparr>ap_rt := rt\<rparr>\<rparr>) \<longleftrightarrow> under_way rs t r"
  by (simp_all add: under_way_def)

lemma told_stopped:
  assumes "under_way rs t r"
  shows "told t (run_mark_stopped r) \<and> ended_as su rs (rn_task (run_mark_stopped r)) (Some RunStopped)"
proof -
  from assms obtain s where s: "rn_task r = t" "tk_status t = status_running" "ap_reasons (rn_app r) = rs" "ap_tasks (rn_app r) = Some s" "task_calm s"
    by (auto simp: under_way_def)
  let ?t = "t\<lparr>tk_status := status_stopped, tk_error := (case stop_reason_of (tk_id t) (ap_reasons (rn_app r)) of
      None \<Rightarrow> ''stopped'' | Some r \<Rightarrow> stop_error_text r)\<rparr>"
  have "run_mark_stopped r = run_persist ?t r"
    using s by (simp add: run_mark_stopped_def mark_stopped_def run_persist_def app_persist_def Let_def)
  with told_persist [OF assms, of ?t] s show ?thesis
    by (simp add: run_persist_def ended_as_def stop_text_def)
qed

lemma told_fail:
  assumes "under_way rs t r"
  shows "told t (run_fail su x r) \<and> (x \<noteq> RunStopped \<longrightarrow> ended_as su rs (rn_task (run_fail su x r)) (Some x))"
proof -
  let ?t = "(rn_task r)\<lparr>tk_status := status_error, tk_error := run_error_text su x\<rparr>"
  have "run_fail su x r = run_persist ?t r"
    by (simp add: run_fail_def fail_task_def run_persist_def app_persist_def Let_def)
  with told_persist [OF assms, of ?t] assms show ?thesis by (simp add: run_persist_def under_way_def ended_as_def)
qed

lemma status_for_concluding:
  "concludes d \<Longrightarrow> task_status_for d = task_status_completed \<or> task_status_for d = task_status_blocked \<or>
     task_status_for d = task_status_need_input"
  by (auto simp: task_status_for_def)

lemma finish_told:
  assumes "under_way rs t r" and "finish_run su budget d err r = (r', e)"
  shows "told t r' \<and> ended_as su rs (rn_task r') e"
proof -
  obtain c stop where c: "ctx_check (rn_ctx r) = (c, stop)" by fastforce
  let ?r = "r\<lparr>rn_ctx := c\<rparr>"
  have r: "under_way rs t ?r" "rn_task r = t" "tk_status t = status_running" using assms(1) by (auto simp: under_way_def)
  show ?thesis
  proof (cases stop)
    case True
    with c assms(2) told_stopped [OF r(1)] show ?thesis by (auto simp: finish_run_def ended_as_def Let_def)
  next
    case False
    show ?thesis
    proof (cases err)
      case (Some x)
      have u: "told t (run_persist (t\<lparr>tk_status := status_unverified, tk_error := su_error_text su x\<rparr>) ?r)"
        by (rule told_persist [OF r(1)]) simp
      have s: "rn_task (run_persist (t\<lparr>tk_status := status_unverified, tk_error := su_error_text su x\<rparr>) ?r) =
          t\<lparr>tk_status := status_unverified, tk_error := su_error_text su x\<rparr>" by (simp add: run_persist_def)
      from Some False c assms(2) r(2,3) u s told_fail [OF r(1), of su "CycleFailed x"] show ?thesis
        by (auto simp: finish_run_def ended_as_def Let_def split: if_splits option.splits)
    next
      case None
      show ?thesis
      proof (cases "case d of None \<Rightarrow> False | Some dec \<Rightarrow> concludes dec")
        case True
        then obtain dec where dec: "d = Some dec" "concludes dec" by (auto split: option.splits)
        have u: "told t (run_persist (t\<lparr>tk_status := task_status_for dec\<rparr>) ?r)"
          by (rule told_persist [OF r(1)]) simp
        have s: "rn_task (run_persist (t\<lparr>tk_status := task_status_for dec\<rparr>) ?r) = t\<lparr>tk_status := task_status_for dec\<rparr>"
          by (simp add: run_persist_def)
        from None False c assms(2) r(2,3) dec u s status_for_concluding [OF dec(2)] show ?thesis
          by (auto simp: finish_run_def ended_as_def Let_def)
      next
        case False
        with None \<open>\<not> stop\<close> c assms(2) r(2,3) told_fail [OF r(1), of su "BudgetSpent budget (last_type d)"] show ?thesis
          by (auto simp: finish_run_def ended_as_def Let_def split: option.splits)
      qed
    qed
  qed
qed

lemma pause_told:
  assumes "under_way rs t r" and "pause_run su dec r = (r', e)"
  shows "told t r' \<and> ended_as su rs (rn_task r') e"
proof -
  obtain rt' pid saved x where p: "record_plan_only (ap_rt (rn_app r)) dec = (rt', pid, saved, x)" by (metis prod_cases4)
  show ?thesis
  proof (cases x)
    case (Some y)
    have "under_way rs t (r\<lparr>rn_app := (rn_app r)\<lparr>ap_rt := rt'\<rparr>\<rparr>)" using assms(1) by simp
    from told_fail [OF this, of su "ApprovalNotRecorded y"] Some p assms(2) show ?thesis
      by (auto simp: pause_run_def ended_as_def)
  next
    case None
    let ?r = "r\<lparr>rn_app := (rn_app r)\<lparr>ap_rt := rt'\<rparr>, rn_agent := (rn_agent r)\<lparr>pa_pending := Some (dec, pid, saved)\<rparr>\<rparr>"
    let ?t = "t\<lparr>tk_status := status_awaiting_approval, tk_error := []\<rparr>"
    have u: "under_way rs t ?r" "rn_task r = t" using assms(1) by (simp_all add: under_way_def)
    have "told t (run_persist ?t ?r)" by (rule told_persist [OF u(1)]) simp
    with None p assms(2) u(2) show ?thesis by (auto simp: pause_run_def Let_def ended_as_def run_persist_def)
  qed
qed

lemma observe_told:
  assumes "under_way rs t r" and "observe_result su budget dec ex r = RunOver r' e"
  shows "told t r' \<and> ended_as su rs (rn_task r') e"
proof -
  obtain rt' res x where ex: "ex = (rt', res, x)" by (metis prod_cases3)
  let ?r = "r\<lparr>rn_app := (rn_app r)\<lparr>ap_rt := rt'\<rparr>\<rparr>"
  obtain c stop where c: "ctx_check (rn_ctx r) = (c, stop)" by fastforce
  have u: "under_way rs t (?r\<lparr>rn_ctx := c\<rparr>)" using assms(1) by (simp add: under_way_def)
  show ?thesis
  proof (cases stop)
    case True
    with assms(2) ex c told_stopped [OF u] show ?thesis by (auto simp: observe_result_def Let_def ended_as_def)
  next
    case False
    let ?f = "finish_run su budget (Some dec) (rr_error (delivered res x)) (?r\<lparr>rn_ctx := c\<rparr>)"
    have "?f = (r', e)" using False assms(2) ex c
      by (auto simp: observe_result_def Let_def split: if_splits)
    with finish_told [OF u this] show ?thesis by simp
  qed
qed

lemma turn_told:
  assumes "under_way rs t r" and "run_turn su budget inp brief c d err history r = RunOver r' e"
  shows "told t r' \<and> ended_as su rs (rn_task r') e"
proof -
  obtain x stop where x: "ctx_check (rn_ctx r) = (x, stop)" by fastforce
  have u: "under_way rs t (r\<lparr>rn_ctx := x\<rparr>)" using assms(1) by simp
  show ?thesis
  proof (cases stop)
    case True
    with assms(2) x told_stopped [OF u] show ?thesis by (auto simp: run_turn_def ended_as_def)
  next
    case False
    show ?thesis
    proof (cases "if pa_approved (rn_agent r) then pa_pending (rn_agent r) else None")
      case (Some p)
      obtain dec pid planned where p: "p = (dec, pid, planned)" by (metis prod_cases3)
      let ?r = "r\<lparr>rn_ctx := x, rn_agent := (rn_agent (r\<lparr>rn_ctx := x\<rparr>))\<lparr>pa_pending := None, pa_approved := False\<rparr>\<rparr>"
      have u': "under_way rs t ?r" using assms(1) by (simp add: under_way_def)
      from assms(2) x False Some p have o: "(if budget < Suc c then run_over (finish_run su budget (Some dec) err ?r)
           else observe_result su budget dec (execute_approved (ap_rt (rn_app ?r)) dec pid planned) ?r) = RunOver r' e"
        by (simp add: run_turn_def approved_cycle_def Let_def split: if_splits)
      show ?thesis
      proof (cases "budget < Suc c")
        case True
        with o finish_told [OF u', of su budget "Some dec" err] show ?thesis by simp
      next
        case False
        with o observe_told [OF u'] show ?thesis by simp
      qed
    next
      case None
      let ?r = "r\<lparr>rn_ctx := x\<rparr>"
      from assms(2) x False None have o: "planned_cycle su budget inp brief (Suc c) d err history ?r = RunOver r' e"
        by (simp add: run_turn_def)
      show ?thesis
      proof (cases "budget < Suc c")
        case True
        with o finish_told [OF u, of su budget d err] show ?thesis by (simp add: planned_cycle_def)
      next
        case go: False
        show ?thesis
        proof (cases "agent_decide su (rn_agent ?r) (Suc c) history inp brief")
          case (Inl y)
          obtain x2 stop2 where x2: "ctx_check (rn_ctx ?r) = (x2, stop2)" by fastforce
          have "under_way rs t (?r\<lparr>rn_ctx := x2\<rparr>)" using assms(1) by (simp add: under_way_def)
          from told_stopped [OF this] told_fail [OF this, of su "DecideFailed y"] o go Inl x2 show ?thesis
            by (cases stop2) (auto simp: planned_cycle_def ended_as_def)
        next
          case (Inr dec)
          with o go pause_told [OF u, of su dec] observe_told [OF u] show ?thesis
            by (auto simp: planned_cycle_def split: if_splits)
        qed
      qed
    qed
  qed
qed

lemma cycles_told:
  assumes "under_way rs t r" and "run_cycles su budget inp brief c d err history r = (r', e)"
  shows "told t r' \<and> ended_as su rs (rn_task r') e"
proof -
  have keep: "under_way rs t r'" if "under_way rs t r" "run_turn su budget inp brief c d err history r = NextCycle d' err' res r'"
    for c d err history r d' err' res r'
    using that(1) turn_next [OF that(2)] by (simp add: under_way_def)
  have "\<exists>c d err history r0. under_way rs t r0 \<and> run_turn su budget inp brief c d err history r0 = RunOver r' e"
    by (rule run_cycles_last [where R = "\<lambda>d err r. under_way rs t r", OF assms(2) assms(1)]) (rule keep)
  then show ?thesis using turn_told by blast
qed

lemma interruption_calm:
  "task_interruption t last' ts = (ts', ir) \<Longrightarrow> ts = Some s \<Longrightarrow> task_calm s \<Longrightarrow> trim t \<noteq> [] \<Longrightarrow>
     ts' = Some s \<and> (\<not> is_runtime_stop_record (task_row t s) \<longrightarrow> ir = None)"
proof -
  assume a: "task_interruption t last' ts = (ts', ir)" "ts = Some s" "task_calm s" "trim t \<noteq> []"
  then have "get_task t s = (s, Inr (task_row t s))" by (intro get_task_calm) auto
  with a show ?thesis by (auto simp: task_interruption_def)
qed

lemma briefing_tasks:
  assumes "read_briefing note extra t st (Some s) = (st', ts', b)" and "task_calm s"
  shows "ts' = Some s \<and> (\<forall>x. b = Some x \<longrightarrow> \<not> is_runtime_stop_record (task_row t s) \<longrightarrow> te_interrupted (tb_state x) = None)"
proof (cases "trim t = []")
  case True
  with assms(1) show ?thesis by (simp add: read_briefing_def)
next
  case False
  show ?thesis
    using assms(1) False interruption_calm [OF _ refl assms(2) False]
    by (auto simp: read_briefing_def Let_def split: option.splits prod.splits sum.splits if_splits)
qed

text \<open>
  C4: A run's outcome is on its task's row: over a task table that answers, when a run of a running
  task is over, the row says the status and error the run ended with; a run that returned no error
  left it completed, blocked, needing input or awaiting approval; a cancelled one left it stopped,
  with the words of the reason recorded for the stop; and any other left it in error or unverified,
  with the text of the error it returned.
\<close>

theorem run_outcome_on_the_row:
  assumes "tk_status (rn_task r) = status_running" and "ap_tasks (rn_app r) = Some s" and "task_calm s"
    and run: "run_loop su budget inp r = (r', e)"
  shows "\<exists>s' row. ap_tasks (rn_app r') = Some s' \<and> task_row (tk_id (rn_task r)) s' = Some row \<and>
    tk_status row = tk_status (rn_task r') \<and> tk_error row = tk_error (rn_task r') \<and> ended_as su (ap_reasons (rn_app r)) (rn_task r') e"
proof -
  obtain st ts b where b: "read_briefing (su_note su) (su_cut_note su) (tk_id (rn_task r)) (rt_store (ap_rt (rn_app r))) (Some s)
      = (st, ts, b)" by (metis prod_cases3)
  let ?app = "(rn_app r)\<lparr>ap_rt := (ap_rt (rn_app r))\<lparr>rt_store := st\<rparr>, ap_tasks := ts\<rparr>"
  have "under_way (ap_reasons (rn_app r)) (rn_task r) (r\<lparr>rn_app := ?app\<rparr>)"
    using briefing_tasks [OF b assms(3)] assms(1,3) by (simp add: under_way_def)
  moreover have "run_cycles su budget inp b 0 None None [] (r\<lparr>rn_app := ?app\<rparr>) = (r', e)"
    using run b assms(2) by (simp add: run_loop_def run_briefing_def)
  ultimately have "told (rn_task r) r' \<and> ended_as su (ap_reasons (rn_app r)) (rn_task r') e" by (rule cycles_told)
  then show ?thesis by (auto simp: told_def row_says_def split: option.splits)
qed

section \<open>A task completes only when it was verified\<close>

lemma execute_done_verified:
  assumes "execute rt d = (rt', res, None)" and "is_done d"
  shows "\<exists>rt1 pid. verify_done rt1 (d_ctx d) pid = (rt', None)"
proof -
  have chk: "check_before_run rt d = None"
    using assms(1) by (auto simp: execute_def execute_plan_def split: option.splits)
  then have "validate_decision d = None" by (simp add: check_before_run_def or_else_def split: option.splits)
  then have no: "d_actions d = []" using is_done_concludes [OF assms(2)] by (rule checked_conclusion_no_steps)
  obtain rt1 p sv r where rec: "record_plan rt d = (rt1, p, sv, r)" by (metis prod_cases4)
  with assms(1) chk have "execute_recorded (pin_at_first_cycle rt1 d p) d p sv = (rt', res, None)"
    by (auto simp: execute_def execute_plan_def split: option.splits)
  with no assms(2) have "verify_done (pin_at_first_cycle rt1 d p) (d_ctx d) p = (rt', None)"
    by (auto simp: execute_recorded_def split: prod.splits option.splits)
  then show ?thesis by blast
qed

text \<open>The run of a task of an agent that paused on nothing but plans, with no concluded cycle behind it.\<close>

definition may_complete :: "string \<Rightarrow> string option \<Rightarrow> decision option \<Rightarrow> exec_error option \<Rightarrow> 'w run \<Rightarrow> bool" where
  "may_complete i t d err r \<longleftrightarrow> tk_id (rn_task r) = i \<and> pa_task (rn_agent r) = t \<and> tk_status (rn_task r) = status_running \<and>
     paused_on_plan (rn_agent r) \<and>
     (case d of None \<Rightarrow> True | Some x \<Rightarrow> \<not> (concludes x \<and> err = None))"

lemma may_complete_next:
  assumes "may_complete i t d err r" and "run_turn su budget inp brief c d err history r = NextCycle d' err' res r'"
  shows "may_complete i t (Some d') err' r'"
  using assms(1) turn_next [OF assms(2)] by (auto simp: may_complete_def paused_on_plan_def split: option.splits)

definition not_completed :: "'w run \<Rightarrow> bool" where
  "not_completed r \<longleftrightarrow> tk_status (rn_task r) \<noteq> task_status_completed"

lemma stopped_not_completed: "tk_status (rn_task r) = status_running \<Longrightarrow> not_completed (run_mark_stopped r)"
  by (simp add: not_completed_def run_mark_stopped_def mark_stopped_def Let_def status_words)

lemma fail_not_completed [simp]: "not_completed (run_fail su e r)"
  by (simp add: not_completed_def run_fail_def fail_task_def Let_def status_words)

lemma pause_not_completed: "pause_run su dec r = (r', e) \<Longrightarrow> tk_status (rn_task r) = status_running \<Longrightarrow> not_completed r'"
  by (auto simp: pause_run_def Let_def run_persist_def not_completed_def status_words run_fail_def fail_task_def
      split: prod.splits option.splits)

lemma completed_done: "concludes dec \<Longrightarrow> task_status_for dec = task_status_completed \<Longrightarrow> is_done dec"
proof -
  have "to_lower decision_done = decision_done" by code_simp
  then show "concludes dec \<Longrightarrow> task_status_for dec = task_status_completed \<Longrightarrow> is_done dec"
    by (auto simp: concludes_def task_status_for_def is_done_def equal_fold_def type_of_def status_words split: if_splits)
qed

lemma finish_completed:
  assumes f: "finish_run su budget d err r = (r', e)" and run: "tk_status (rn_task r) = status_running"
    and c: "\<not> not_completed r'"
  shows "\<exists>dec. d = Some dec \<and> err = None \<and> concludes dec \<and> is_done dec \<and> ap_rt (rn_app r') = ap_rt (rn_app r)"
proof -
  obtain x stop where x: "ctx_check (rn_ctx r) = (x, stop)" by fastforce
  have "\<not> stop" using f x c stopped_not_completed [of "r\<lparr>rn_ctx := x\<rparr>"] run by (auto simp: finish_run_def)
  moreover have "err = None"
    using f x c run \<open>\<not> stop\<close>
    by (cases err) (auto simp: finish_run_def Let_def run_persist_def not_completed_def status_words
        dest: sym split: if_splits option.splits, auto simp: run_fail_def fail_task_def Let_def status_words)
  ultimately obtain dec where "d = Some dec" "concludes dec" "r' = run_persist ((rn_task r)\<lparr>tk_status := task_status_for dec\<rparr>) (r\<lparr>rn_ctx := x\<rparr>)"
    using f x c run by (auto simp: finish_run_def Let_def split: option.splits if_splits)
  with \<open>err = None\<close> c completed_done [of dec] show ?thesis by (auto simp: not_completed_def run_persist_def app_persist_def)
qed

lemma observe_completed:
  assumes "observe_result su budget dec ex r = RunOver r' e" "tk_status (rn_task r) = status_running" "\<not> not_completed r'"
  shows "is_done dec \<and> (\<exists>res. ex = (ap_rt (rn_app r'), res, None))"
proof -
  obtain rt' res x where ex: "ex = (rt', res, x)" by (metis prod_cases3)
  let ?r = "r\<lparr>rn_app := (rn_app r)\<lparr>ap_rt := rt'\<rparr>\<rparr>"
  obtain c stop where c: "ctx_check (rn_ctx r) = (c, stop)" by fastforce
  have "tk_status (rn_task (?r\<lparr>rn_ctx := c\<rparr>)) = status_running" using assms(2) by simp
  from stopped_not_completed [OF this] assms(1,3) ex c have go: "\<not> stop" by (auto simp: observe_result_def Let_def)
  have fin: "finish_run su budget (Some dec) (rr_error (delivered res x)) (?r\<lparr>rn_ctx := c\<rparr>) = (r', e)"
    using go assms(1) ex c by (auto simp: observe_result_def Let_def split: if_splits)
  from finish_completed [OF fin _ assms(3)] assms(2) have "is_done dec" "rr_error (delivered res x) = None" "ap_rt (rn_app r') = rt'"
    by auto
  then show ?thesis using ex by (cases x) (auto simp: delivered_def)
qed

lemma turn_completed:
  assumes m: "may_complete i t d err r" and run: "run_turn su budget inp brief c d err history r = RunOver r' e"
    and done': "\<not> not_completed r'"
  shows "\<exists>dec rt res. is_done dec \<and> dc_task (d_ctx dec) = t \<and> execute rt dec = (ap_rt (rn_app r'), res, None)"
proof -
  obtain x stop where x: "ctx_check (rn_ctx r) = (x, stop)" by fastforce
  let ?r = "r\<lparr>rn_ctx := x\<rparr>"
  have st: "tk_status (rn_task ?r) = status_running" using m by (simp add: may_complete_def)
  have go: "\<not> stop" using run x done' stopped_not_completed [OF st] by (auto simp: run_turn_def)
  show ?thesis
  proof (cases "if pa_approved (rn_agent r) then pa_pending (rn_agent r) else None")
    case (Some p)
    obtain dec pid planned where p: "p = (dec, pid, planned)" by (metis prod_cases3)
    let ?r' = "?r\<lparr>rn_agent := (rn_agent ?r)\<lparr>pa_pending := None, pa_approved := False\<rparr>\<rparr>"
    have nc: "\<not> concludes dec" using m Some p by (auto simp: may_complete_def paused_on_plan_def split: if_splits)
    have st': "tk_status (rn_task ?r') = status_running" using st by simp
    from run x go Some p have "(if budget < Suc c then run_over (finish_run su budget (Some dec) err ?r')
        else observe_result su budget dec (execute_approved (ap_rt (rn_app ?r')) dec pid planned) ?r') = RunOver r' e"
      by (simp add: run_turn_def approved_cycle_def Let_def split: if_splits)
    then have "is_done dec"
      using finish_completed [OF _ st' done', of su budget "Some dec" err e] observe_completed [OF _ st' done']
      by (auto split: if_splits)
    with nc is_done_concludes show ?thesis by blast
  next
    case None
    with run x go have o: "planned_cycle su budget inp brief (Suc c) d err history ?r = RunOver r' e"
      by (simp add: run_turn_def)
    have "\<not> budget < Suc c"
    proof
      assume "budget < Suc c"
      with o have "finish_run su budget d err ?r = (r', e)" by (simp add: planned_cycle_def)
      from finish_completed [OF this st done'] m show False by (auto simp: may_complete_def)
    qed
    with o show ?thesis
    proof (cases "agent_decide su (rn_agent ?r) (Suc c) history inp brief")
      case (Inl y)
      obtain x2 stop2 where x2: "ctx_check (rn_ctx ?r) = (x2, stop2)" by fastforce
      have "tk_status (rn_task (?r\<lparr>rn_ctx := x2\<rparr>)) = status_running" using st by simp
      from stopped_not_completed [OF this] o \<open>\<not> budget < Suc c\<close> Inl x2 done' show ?thesis
        by (cases stop2) (auto simp: planned_cycle_def)
    next
      case (Inr dec)
      show ?thesis
      proof (cases "needs_plan_approval (rn_agent ?r) dec")
        case True
        with o \<open>\<not> budget < Suc c\<close> Inr have "pause_run su dec ?r = (r', e)" by (simp add: planned_cycle_def)
        from pause_not_completed [OF this st] done' show ?thesis by simp
      next
        case False
        with o \<open>\<not> budget < Suc c\<close> Inr
        have "observe_result su budget dec (execute (ap_rt (rn_app ?r)) dec) ?r = RunOver r' e" by (simp add: planned_cycle_def)
        from observe_completed [OF this st done'] obtain res where
          "is_done dec" "execute (ap_rt (rn_app ?r)) dec = (ap_rt (rn_app r'), res, None)" by blast
        moreover have "dc_task (d_ctx dec) = t"
          using Inr m by (auto simp: agent_decide_def may_complete_def task_id_of_def split: sum.splits)
        ultimately show ?thesis by blast
      qed
    qed
  qed
qed

lemma finish_same_task: "finish_run su budget d err r = (r', e) \<Longrightarrow> tk_id (rn_task r') = tk_id (rn_task r)"
  by (auto simp: finish_run_def Let_def run_mark_stopped_def mark_stopped_def run_fail_def fail_task_def run_persist_def
      split: prod.splits bool.splits if_splits option.splits)

lemma turn_same_task:
  assumes "run_turn su budget inp brief c d err history r = RunOver r' e" shows "tk_id (rn_task r') = tk_id (rn_task r)"
proof -
  have mark: "tk_id (rn_task (run_mark_stopped r)) = tk_id (rn_task r)" "tk_id (rn_task (run_fail su x r)) = tk_id (rn_task r)" for x and r :: "'a run"
    by (simp_all add: run_mark_stopped_def mark_stopped_def run_fail_def fail_task_def Let_def split: prod.split)
  have pause: "pause_run su dec r = (r', e) \<Longrightarrow> tk_id (rn_task r') = tk_id (rn_task r)" for dec and r :: "'a run"
    by (auto simp: pause_run_def Let_def run_persist_def mark split: prod.splits option.splits)
  have observe: "observe_result su budget dec ex r = RunOver r' e \<Longrightarrow> tk_id (rn_task r') = tk_id (rn_task r)" for dec ex and r :: "'a run"
    by (auto simp: observe_result_def Let_def mark dest!: finish_same_task split: prod.splits bool.splits if_splits)
  show ?thesis using assms
    by (auto simp: run_turn_def approved_cycle_def planned_cycle_def Let_def mark
        dest!: finish_same_task observe pause split: prod.splits bool.splits option.splits if_splits sum.splits)
qed

text \<open>
  C2: A task is marked completed only when its goal was verified.  If a run of a running task, by the
  agent paired with it, that waits for the confirmation of nothing but a plan, leaves the task completed,
  then it is that task, and the last thing the runtime did was to accept a \<open>done\<close> of it: the contract
  pinned for the id of the completed task is not empty, and each of its criteria was confirmed in the
  state it was judged in, by the World Model or by the system tool for its object asked with a reference
  a recorded step of the task reported; the state verification left is the one the run ended with.
\<close>

theorem completed_means_verified:
  assumes "tk_status (rn_task r) = status_running" and "paused_on_plan (rn_agent r)"
    and paired: "pa_task (rn_agent r) = Some (tk_id (rn_task r))"
    and run: "run_loop su budget inp r = (r', e)" and completed: "tk_status (rn_task r') = task_status_completed"
  shows "tk_id (rn_task r') = tk_id (rn_task r) \<and>
    (\<exists>rt ctx plan st1 cs st2 prior. dc_task ctx = Some (tk_id (rn_task r)) \<and>
       verify_done rt ctx plan = (ap_rt (rn_app r'), None) \<and>
       pinned_completion_contract (tk_id (rn_task r)) (rt_store rt) = (st1, cs) \<and> cs \<noteq> [] \<and>
       task_step_outputs (tk_id (rn_task r)) st1 = (st2, prior) \<and> (\<forall>a\<in>set prior. reported_by (rt_store rt) (tk_id (rn_task r)) a) \<and>
       (\<forall>i<length cs. confirmed (judging (rt\<lparr>rt_store := st2\<rparr>) ctx plan cs prior i) ctx prior (cs ! i)) \<and>
       ap_rt (rn_app r') = judging (rt\<lparr>rt_store := st2\<rparr>) ctx plan cs prior (length cs))"
proof -
  let ?i = "tk_id (rn_task r)"
  obtain app' b where b: "run_briefing su ?i (rn_app r) = (app', b)" by fastforce
  with run have cyc: "run_cycles su budget inp b 0 None None [] (r\<lparr>rn_app := app'\<rparr>) = (r', e)" by (simp add: run_loop_def)
  have "may_complete ?i (Some ?i) None None (r\<lparr>rn_app := app'\<rparr>)" using assms(1-3) by (simp add: may_complete_def)
  then have "\<exists>c d err history r0. may_complete ?i (Some ?i) d err r0 \<and> run_turn su budget inp b c d err history r0 = RunOver r' e"
    by (rule run_cycles_last [where R = "may_complete ?i (Some ?i)", OF cyc]) (rule may_complete_next)
  then obtain c d err history r0 where r0: "may_complete ?i (Some ?i) d err r0" "run_turn su budget inp b c d err history r0 = RunOver r' e"
    by blast
  have id: "tk_id (rn_task r') = ?i" using turn_same_task [OF r0(2)] r0(1) by (simp add: may_complete_def)
  have "\<not> not_completed r'" using completed by (simp add: not_completed_def)
  with turn_completed [OF r0] obtain dec rt res where dec: "is_done dec" "dc_task (d_ctx dec) = Some ?i"
    "execute rt dec = (ap_rt (rn_app r'), res, None)" by blast
  from execute_done_verified [OF dec(3,1)] obtain rt1 pid where v: "verify_done rt1 (d_ctx dec) pid = (ap_rt (rn_app r'), None)" by blast
  from verify_done_confirmed [OF v] dec(2) have "contract_confirmed rt1 (d_ctx dec) pid (ap_rt (rn_app r'))" "task_id_of (d_ctx dec) = ?i"
    by (simp_all add: task_id_of_def)
  with v dec(2) id show ?thesis unfolding contract_confirmed_def by metis
qed

section \<open>What a continued run is told\<close>

text \<open>
  The run that continues a round the runtime cut is not told so.  The briefing names an
  interruption only when the task's row is a stop of the runtime, but it is read after the run has
  marked that row running: over a task table that answers, no briefing of an instruction's run ever
  names one.
\<close>

theorem continued_run_not_told_of_the_cut:
  assumes "ap_tasks app = Some s" and "task_calm s"
    and "begin_instruction msg a t app = (app', a', t')"
    and "run_briefing su (tk_id t') app' = (app'', Some b)"
  shows "te_interrupted (tb_state b) = None"
proof -
  let ?t = "t\<lparr>tk_status := status_running, tk_agent := pa_id a\<rparr>"
  let ?s = "fst (upsert_task ?t s)"
  have b: "t' = ?t" "ap_tasks app' = Some ?s"
    using assms(1,3) by (auto simp: begin_instruction_def Let_def enter_flight_def app_persist_def persist_task_def)
  obtain st ts x where r: "read_briefing (su_note su) (su_cut_note su) (tk_id t') (rt_store (ap_rt app')) (Some ?s) = (st, ts, x)"
    by (metis prod_cases3)
  with assms(4) b have x: "x = Some b" by (simp add: run_briefing_def)
  have "\<not> is_runtime_stop_record (task_row (tk_id t') ?s)"
    using task_row_upsert [OF assms(2), of ?t] b(1) by (auto simp: is_runtime_stop_record_def status_words)
  with briefing_tasks [OF r task_calm_upsert [OF assms(2)]] x show ?thesis by simp
qed

text \<open>
  A chat turn the runtime cuts is recorded as the user's stop.  The reason of the stop is cleared
  before the row is marked: when a chat turn of a task that has not started is cancelled, its row is
  marked stopped and does not read as a stop of the runtime, whatever reason was recorded.
\<close>

theorem cut_chat_blames_the_user:
  assumes "ap_tasks app = Some s" "task_calm s" and "trim (msg_task msg) \<noteq> []"
    and "task_row (msg_task msg) s = Some t" "tk_status t = status_pending" and "snd (ctx_check c)"
    and "process_chat su msg a c app = (app', a', e)"
  shows "\<exists>s' row. ap_tasks app' = Some s' \<and> task_row (msg_task msg) s' = Some row \<and>
    tk_status row = status_stopped \<and> tk_error row = ''stopped'' \<and> \<not> is_runtime_stop_record (Some row)"
proof -
  have ne: "msg_task msg \<noteq> []" using assms(3) by auto
  have id: "tk_id t = msg_task msg" using assms(4) by (auto simp: task_row_def find_Some_iff)
  have read: "task_for_message msg app = (app\<lparr>ap_tasks := Some s\<rparr>, Some t)"
    using assms(1-4) ne by (simp add: task_for_message_def get_task_calm)
  let ?app1 = "enter_flight (tk_id t) (app\<lparr>ap_tasks := Some s\<rparr>)"
  obtain app2 brief where b: "run_briefing su (tk_id t) ?app1 = (app2, brief)" by fastforce
  have tasks: "ap_tasks app2 = Some s" "ap_reasons app2 = ap_reasons app"
    using b briefing_tasks [OF _ assms(2)]
    by (auto simp: run_briefing_def enter_flight_def split: prod.splits)
  have "app' = end_chat t c (leave_flight (tk_id t) app2)"
    using assms(7) read b by (simp add: process_chat_def Let_def)
  moreover have "stop_reason_of (tk_id t) (clear_stop_reason (tk_id t) (ap_reasons app)) = None"
    using assms(3) id by (simp add: clear_stop_reason_def stop_reason_of_def delete_conv)
  ultimately have "ap_tasks app' = persist_task (t\<lparr>tk_status := status_stopped, tk_error := ''stopped''\<rparr>) (Some s)"
    using assms(5,6) tasks by (simp add: end_chat_def leave_flight_def mark_stopped_def Let_def)
  then obtain row where row: "ap_tasks app' = Some (fst (upsert_task (t\<lparr>tk_status := status_stopped, tk_error := ''stopped''\<rparr>) s))"
    "task_row (msg_task msg) (fst (upsert_task (t\<lparr>tk_status := status_stopped, tk_error := ''stopped''\<rparr>) s)) = Some row"
    "tk_status row = status_stopped" "tk_error row = ''stopped''"
    using task_row_upsert [OF assms(2), of "t\<lparr>tk_status := status_stopped, tk_error := ''stopped''\<rparr>"] id
    by (auto simp: persist_task_def)
  moreover have "\<not> contains ''stopped'' runtime_stop_marker" by code_simp
  ultimately show ?thesis by (auto simp: is_runtime_stop_record_def)
qed

end
