(* ===== verification/Task_Record_Laws.thy ===== *)
theory Task_Record_Laws
  imports Task_Record
begin

text \<open>
  What the record tells the run that continues a task: each step as it ran or was left, the
  criteria no recent verdict confirmed, and why the runtime cut the last round.
\<close>

section \<open>Clipped text\<close>

lemma cut_to_valid_prefix: "prefix (cut_to_valid s) s"
proof (induction s rule: cut_to_valid.induct)
  case (1 s)
  show ?case
  proof (cases "s = [] \<or> utf8_valid s")
    case True
    then show ?thesis by (simp add: cut_to_valid.simps)
  next
    case False
    with 1 have "prefix (cut_to_valid (butlast s)) (butlast s)" by simp
    moreover have "prefix (butlast s) s" by (simp add: prefixeq_butlast)
    ultimately show ?thesis using False by (subst cut_to_valid.simps) (simp add: prefix_order.trans)
  qed
qed

lemma cut_to_valid_ok: "utf8_valid (cut_to_valid s)"
  by (induction s rule: cut_to_valid.induct) (subst cut_to_valid.simps, auto)

lemma cut_to_valid_keeps: "prefix p s \<Longrightarrow> utf8_valid p \<Longrightarrow> prefix p (cut_to_valid s)"
proof (induction s rule: cut_to_valid.induct)
  case (1 s)
  show ?case
  proof (cases "s = [] \<or> utf8_valid s")
    case True
    with 1 show ?thesis by (simp add: cut_to_valid.simps)
  next
    case False
    with 1 have "p \<noteq> s" by auto
    with \<open>prefix p s\<close> have "prefix p (butlast s)"
      by (metis append_butlast_last_id False prefix_snoc)
    with 1 False show ?thesis by (subst cut_to_valid.simps) simp
  qed
qed

lemma trim_length: "length (trim s) \<le> length s"
  using prefix_length_le [OF trim_right_prefix [of "trim_left s"]]
    suffix_length_le [OF strip_with_suffix [of spaces s]]
  by (simp add: trim_def trim_left_def)

text \<open>
  A text of the briefing longer than its limit is cut to the longest prefix of at most that
  many bytes that is valid UTF-8, and marked with an ellipsis; so the text is bounded and no
  character of it is cut in half.
\<close>

theorem clip_text_bounds:
  assumes "0 < limit" and "limit < length (trim s)"
  shows "\<exists>cut. clip_text s limit = trim cut @ ellipsis \<and> utf8_valid cut \<and> prefix cut (trim s) \<and>
    length cut \<le> limit \<and> length (clip_text s limit) \<le> limit + 3 \<and>
    (\<forall>p. prefix p (trim s) \<and> length p \<le> limit \<and> utf8_valid p \<longrightarrow> prefix p cut)"
proof -
  let ?t = "take limit (trim s)"
  let ?cut = "cut_to_valid ?t"
  have pre: "prefix ?cut ?t" "length ?t = limit" using assms by (simp_all add: cut_to_valid_prefix)
  then have len: "length ?cut \<le> limit" using prefix_length_le by fastforce
  have "prefix ?cut (trim s)" using pre(1) take_is_prefix prefix_order.trans by blast
  moreover have clip: "clip_text s limit = trim ?cut @ ellipsis" using assms by (simp add: clip_text_def Let_def)
  moreover have "length (clip_text s limit) \<le> limit + 3"
    using trim_length [of ?cut] len by (simp add: clip ellipsis_def)
  moreover have "prefix p ?cut" if "prefix p (trim s)" "length p \<le> limit" "utf8_valid p" for p
  proof (rule cut_to_valid_keeps [OF _ that(3)])
    from that(1,2) show "prefix p ?t" by (metis append_eq_conv_conj prefix_def take_all take_append)
  qed
  ultimately show ?thesis using len cut_to_valid_ok by blast
qed

lemma clip_text_bounds_witness:
  "length (clip_text ''abc'' 2) \<le> 5 \<and> clip_text [CHR 0x61, CHR 0xC3, CHR 0xA9] 2 = ''a'' @ ellipsis"
proof
  have "trim ''abc'' = ''abc''" by code_simp
  then show "length (clip_text ''abc'' 2) \<le> 5" using clip_text_bounds [of 2 "''abc''"] by auto
  show "clip_text [CHR 0x61, CHR 0xC3, CHR 0xA9] 2 = ''a'' @ ellipsis" by code_simp
qed

section \<open>A round tells what ran\<close>

lemma planned_actions_distinct: "distinct (map fst (planned_actions as))"
proof -
  have "map fst (enumerate 0 as) = [0..<length as]" by simp
  then show ?thesis unfolding planned_actions_def by (metis distinct_map_filter distinct_upt)
qed

lemma find_Some_in: "find P xs = Some x \<Longrightarrow> x \<in> set xs \<and> P x"
  by (induction xs) (auto split: if_splits)

lemma executed_row_here:
  assumes "k < length rows" "es_plan_step (rows ! k) = sp_id p" "sp_id p \<noteq> 0"
    and "\<And>j. j < length rows \<Longrightarrow> es_plan_step (rows ! j) = sp_id p \<Longrightarrow> j = k"
  shows "executed_row rows p = Some (rows ! k)"
proof -
  let ?P = "\<lambda>r. es_plan_step r \<noteq> 0 \<and> es_plan_step r = sp_id p"
  have "rows ! k \<in> set (rev rows)" "?P (rows ! k)" using assms(1-3) by simp_all
  then have "find ?P (rev rows) \<noteq> None" by (auto simp: find_None_iff)
  then obtain r where r: "find ?P (rev rows) = Some r" by blast
  then have "r \<in> set rows" "es_plan_step r = sp_id p" by (auto dest: find_Some_in)
  with assms(4) have "r = rows ! k" by (auto simp: in_set_conv_nth)
  with r show ?thesis by (simp add: executed_row_def)
qed

lemma executed_row_none:
  assumes "\<And>r. r \<in> set rows \<Longrightarrow> es_plan_step r \<noteq> sp_id p \<and> es_idx r \<noteq> sp_idx p"
  shows "executed_row rows p = None"
proof -
  have "find (\<lambda>r. es_plan_step r \<noteq> 0 \<and> es_plan_step r = sp_id p) (rev rows) = None"
    "find (\<lambda>r. es_idx r = sp_idx p) (rev rows) = None"
    using assms by (auto simp: find_None_iff)
  then show ?thesis by (simp add: executed_row_def)
qed

lemma task_round_quiet:
  assumes "quiet s"
  shows "tr_steps (snd (read_round plan s)) =
    map round_step_of (plan_step_progress (step_plan_of (pl_id plan) s) (steps_of (pl_id plan) s))"
  using assms by (simp add: read_round_def execution_plan_outcome_def list_execution_step_plan_def
      list_execution_steps_def rows_or_none_def Let_def split: if_splits)

text \<open>
  C15: The record of a round shows the run as it was: over a database that answers, after a recorded
  plan executed, the round lists every planned step in order, with the status, error and output
  reported for the steps that ran, and \<open>pending\<close> with the plan's own input for those that did not.
\<close>

theorem round_tells_the_run:
  assumes st: "rt_store rt = Some s" "quiet s" and p: "pl_id plan \<noteq> 0" "d_actions d \<noteq> []"
    and new: "\<forall>r\<in>set (st_steps s). es_plan r \<noteq> pl_id plan"
    and planned: "step_plan_of (pl_id plan) s = planned"
      "map sp_idx planned = map (\<lambda>x. Suc (fst x)) (planned_actions (d_actions d))"
      "distinct (map sp_id planned)" "0 \<notin> set (map sp_id planned)"
    and run: "execute_recorded rt d (pl_id plan) planned = (rt', res, err)"
  shows "\<exists>s'. rt_store rt' = Some s' \<and> length (tr_steps (snd (read_round plan s'))) = length planned \<and>
    (\<forall>k<length planned.
       rs_idx (tr_steps (snd (read_round plan s')) ! k) = sp_idx (planned ! k) \<and>
       (if k < length (rr_actions res)
        then rs_status (tr_steps (snd (read_round plan s')) ! k) =
               (if ar_error (rr_actions res ! k) = None then ''ok'' else ''failed'') \<and>
             rs_error (tr_steps (snd (read_round plan s')) ! k) = ar_error (rr_actions res ! k) \<and>
             rs_output (tr_steps (snd (read_round plan s')) ! k) = raw_json (json_object (ar_output (rr_actions res ! k)))
        else rs_status (tr_steps (snd (read_round plan s')) ! k) = ''pending'' \<and>
             rs_input (tr_steps (snd (read_round plan s')) ! k) = raw_json (sp_input (planned ! k))))"
proof -
  let ?p = "pl_id plan" and ?acts = "planned_actions (d_actions d)"
  obtain s' rows where s': "rt_store rt' = Some s'" "quiet s'" "st_step_plans s' = st_step_plans s" "steps_of ?p s' = rows"
      "length rows = length (rr_actions res)" "length rows \<le> length ?acts"
    and row: "\<forall>k<length rows. row_of_record d ?p planned (fst (?acts ! k)) (rr_actions res ! k) (rows ! k)"
    using recorded_run_rows [OF st p new run] by (elim exE conjE) (rule that)
  have len: "length planned = length ?acts" using planned(2) by (metis length_map)
  have idx: "sp_idx (planned ! k) = Suc (fst (?acts ! k))" if "k < length planned" for k
    using planned(2) that len by (metis nth_map)
  have dist: "distinct (map sp_idx planned)"
    using planned_actions_distinct [of "d_actions d"] by (simp add: planned(2) distinct_map inj_on_def)
  have step_id: "plan_step_id planned (fst (?acts ! k)) = sp_id (planned ! k)" if "k < length planned" for k
    using find_by_key [OF dist that idx [OF that]] by (simp add: plan_step_id_def)
  have pstep: "es_plan_step (rows ! k) = sp_id (planned ! k)" "es_idx (rows ! k) = sp_idx (planned ! k)"
    if "k < length rows" for k
    using row that step_id idx s'(6) len by (simp_all add: row_of_record_def)
  have ran: "executed_row rows (planned ! k) = Some (rows ! k)" if "k < length rows" for k
  proof (rule executed_row_here [OF that])
    show "es_plan_step (rows ! k) = sp_id (planned ! k)" using pstep that by simp
    show "sp_id (planned ! k) \<noteq> 0" using planned(4) that s'(6) len by (metis imageI image_set length_map nth_mem order_less_le_trans)
    show "j = k" if "j < length rows" "es_plan_step (rows ! j) = sp_id (planned ! k)" for j
      using planned(3) pstep(1) [OF that(1)] that \<open>k < length rows\<close> s'(6) len
      by (metis (no_types) distinct_conv_nth length_map nth_map order_less_le_trans)
  qed
  have left: "executed_row rows (planned ! k) = None" if "length rows \<le> k" "k < length planned" for k
  proof (rule executed_row_none)
    fix r assume "r \<in> set rows"
    then obtain j where j: "j < length rows" "r = rows ! j" by (auto simp: in_set_conv_nth)
    with that have jk: "j < length planned" "j \<noteq> k" using s'(6) len by auto
    then have "sp_id (planned ! j) \<noteq> sp_id (planned ! k)" "sp_idx (planned ! j) \<noteq> sp_idx (planned ! k)"
      using planned(3) dist that(2) by (metis (no_types) distinct_conv_nth length_map nth_map)+
    with pstep j show "es_plan_step r \<noteq> sp_id (planned ! k) \<and> es_idx r \<noteq> sp_idx (planned ! k)" by simp
  qed
  have seen: "filter (\<lambda>r. es_id r \<notin> set (map es_id (List.map_filter (executed_row rows) planned))) rows = []"
  proof -
    have "rows ! k \<in> set (List.map_filter (executed_row rows) planned)" if "k < length rows" for k
    proof -
      have "planned ! k \<in> set planned" using that s'(6) len by simp
      with ran [OF that] show ?thesis by (force simp: List.map_filter_def)
    qed
    then show ?thesis by (force simp: filter_empty_conv in_set_conv_nth)
  qed
  have plan': "step_plan_of ?p s' = planned" using planned(1) s'(3) by (simp add: step_plan_of_def)
  have steps: "tr_steps (snd (read_round plan s')) = map (\<lambda>p. round_step_of
      (case executed_row rows p of None \<Rightarrow> planned_item p | Some r \<Rightarrow> fill_executed r (planned_item p))) planned"
    using task_round_quiet [OF s'(2), of plan] seen
    by (simp add: plan' s'(4) plan_step_progress_def Let_def comp_def)
  have at: "tr_steps (snd (read_round plan s')) ! k = round_step_of
      (case executed_row rows (planned ! k) of None \<Rightarrow> planned_item (planned ! k)
       | Some r \<Rightarrow> fill_executed r (planned_item (planned ! k)))" if "k < length planned" for k
    using that by (simp add: steps)
  have one: "rs_idx (tr_steps (snd (read_round plan s')) ! k) = sp_idx (planned ! k) \<and>
       (if k < length (rr_actions res)
        then rs_status (tr_steps (snd (read_round plan s')) ! k) =
               (if ar_error (rr_actions res ! k) = None then ''ok'' else ''failed'') \<and>
             rs_error (tr_steps (snd (read_round plan s')) ! k) = ar_error (rr_actions res ! k) \<and>
             rs_output (tr_steps (snd (read_round plan s')) ! k) = raw_json (json_object (ar_output (rr_actions res ! k)))
        else rs_status (tr_steps (snd (read_round plan s')) ! k) = ''pending'' \<and>
             rs_input (tr_steps (snd (read_round plan s')) ! k) = raw_json (sp_input (planned ! k)))"
    if k: "k < length planned" for k
  proof (cases "k < length rows")
    case True
    with row s'(5) have "row_of_record d ?p planned (fst (?acts ! k)) (rr_actions res ! k) (rows ! k)" by simp
    with True s'(5) ran [OF True] at [OF k] show ?thesis
      by (simp add: row_of_record_def round_step_of_def fill_executed_def planned_item_def step_status_text_def)
  next
    case False
    with s'(5) left [OF _ k] at [OF k] show ?thesis
      by (simp add: round_step_of_def planned_item_def step_pending_def)
  qed
  have "length (tr_steps (snd (read_round plan s'))) = length planned" by (simp add: steps)
  with s'(1) one show ?thesis by blast
qed

section \<open>What is still open\<close>

text \<open>The names of the criteria some verdict of a list confirmed.\<close>

definition passed_names :: "verification list \<Rightarrow> string list" where
  "passed_names vs = map vf_criterion (filter (\<lambda>v. vf_result v = Pass) vs)"

definition contract_names :: "string \<Rightarrow> store \<Rightarrow> string list" where
  "contract_names t s =
    map (\<lambda>(i, c). criterion_name i c) (enumerate 0 (snd (pinned_completion_contract t (Some s))))"

lemma pinned_quiet: "quiet s \<Longrightarrow> fst (pinned_completion_contract t (Some s)) = Some s"
  by (simp add: pinned_completion_contract_def list_completion_contract_def)

lemma open_criteria_quiet:
  assumes "quiet s"
  shows "open_criteria t s =
    (s, filter (\<lambda>n. n \<notin> set (passed_names (newest verdict_limit (verdicts_of t s)))) (contract_names t s))"
proof -
  obtain cs where c: "pinned_completion_contract t (Some s) = (Some s, cs)"
    using pinned_quiet [OF assms, of t] by (metis prod.collapse)
  have "task_verdicts t s = (s, map task_verdict_of (newest verdict_limit (verdicts_of t s)))"
    using assms by (simp add: task_verdicts_def list_verifications_def)
  moreover have "map tv_criterion (filter (\<lambda>v. tv_result v = Pass) (map task_verdict_of vs)) = passed_names vs" for vs
    by (simp add: passed_names_def filter_map comp_def task_verdict_of_def)
  ultimately show ?thesis by (simp add: open_criteria_def c contract_names_def Let_def del: set_map set_filter)
qed

text \<open>
  For a task with at most twelve verdicts, what the briefing calls open is exactly the pinned
  contract's criteria that no verdict has passed, in the contract's order.
\<close>

theorem open_criteria_are_unconfirmed:
  assumes "quiet s" and "length (verdicts_of t s) \<le> 12"
  shows "snd (open_criteria t s) =
    filter (\<lambda>n. \<not> list_ex (\<lambda>v. vf_criterion v = n \<and> vf_result v = Pass) (verdicts_of t s)) (contract_names t s)"
proof -
  have "newest verdict_limit (verdicts_of t s) = verdicts_of t s"
    using assms(2) by (simp add: newest_def verdict_limit_def)
  moreover have "n \<notin> set (passed_names vs) \<longleftrightarrow> \<not> list_ex (\<lambda>v. vf_criterion v = n \<and> vf_result v = Pass) vs" for n vs
    by (auto simp: passed_names_def list_ex_iff)
  ultimately show ?thesis using open_criteria_quiet [OF assms(1), of t] by simp
qed

definition criterion_text :: "string \<Rightarrow> json" where
  "criterion_text n = JObj [(''name'', JStr n), (''requirement'', JStr ''holds'')]"

definition passed_verdict :: "string \<Rightarrow> verification" where
  "passed_verdict n =
    \<lparr>vf_id = 0, vf_task = ''t1'', vf_plan = 1, vf_cycle = 1, vf_criterion = n, vf_requirement = ''holds'',
     vf_method = [], vf_evidence = JObj [], vf_expected = ItExists, vf_observed = ''true'', vf_result = Pass,
     vf_reason = ObjectExists\<rparr>"

text \<open>A contract of the given criteria, each judged once and passed.\<close>

definition all_passed :: "string list \<Rightarrow> store" where
  "all_passed ns =
    foldl (\<lambda>s n. fst (append_verification (passed_verdict n) s))
      (the (fst (pin_accepted_contract ''t1'' (Some (JArr (map criterion_text ns))) (Some empty_store)))) ns"

definition thirteen :: "string list" where
  "thirteen = map (\<lambda>c. [c]) ''abcdefghijklm''"

lemma open_criteria_are_unconfirmed_witness:
  "snd (open_criteria ''t1'' (all_passed [''a'', ''b''])) = []"
proof -
  have "quiet (all_passed [''a'', ''b''])" unfolding quiet_def by code_simp
  moreover have "length (verdicts_of ''t1'' (all_passed [''a'', ''b''])) \<le> 12" by code_simp
  ultimately have "snd (open_criteria ''t1'' (all_passed [''a'', ''b''])) =
      filter (\<lambda>n. \<not> list_ex (\<lambda>v. vf_criterion v = n \<and> vf_result v = Pass) (verdicts_of ''t1'' (all_passed [''a'', ''b''])))
        (contract_names ''t1'' (all_passed [''a'', ''b'']))"
    by (rule open_criteria_are_unconfirmed)
  also have "\<dots> = []" by code_simp
  finally show ?thesis .
qed

definition wide_store :: store where
  "wide_store = empty_store\<lparr>st_contracts := map (\<lambda>(i, n). \<lparr>cc_task = ''t1'', cc_idx = Suc i, cc_plan = 0, cc_name = n,
     cc_criterion = criterion_text n\<rparr>) (enumerate 0 thirteen)\<rparr>"

lemma append_passed:
  "quiet s \<Longrightarrow> \<exists>s'. foldl (\<lambda>s n. fst (append_verification (passed_verdict n) s)) s ns = s' \<and> quiet s' \<and>
     st_contracts s' = st_contracts s \<and>
     (\<exists>vs. verdicts_of ''t1'' s' = verdicts_of ''t1'' s @ vs \<and> map vf_criterion vs = ns \<and> (\<forall>v\<in>set vs. vf_result v = Pass))"
proof (induction ns arbitrary: s)
  case (Cons n ns)
  let ?v = "(passed_verdict n)\<lparr>vf_id := Suc (length (st_verdicts s)), vf_evidence := or_json_object_text (Some (JObj []))\<rparr>"
  let ?s = "s\<lparr>st_verdicts := st_verdicts s @ [?v]\<rparr>"
  have v: "vf_task ?v = ''t1''" "vf_criterion ?v = n" "vf_result ?v = Pass" by (simp_all add: passed_verdict_def)
  have "trim (vf_task (passed_verdict n)) \<noteq> []" by (simp add: passed_verdict_def)
  then have a: "fst (append_verification (passed_verdict n) s) = ?s"
    using Cons.prems by (simp add: append_verification_def Let_def passed_verdict_def)
  have q: "quiet ?s" using Cons.prems by (simp add: quiet_def)
  from Cons.IH [OF q] obtain vs where ih:
    "quiet (foldl (\<lambda>s n. fst (append_verification (passed_verdict n) s)) ?s ns)"
    "st_contracts (foldl (\<lambda>s n. fst (append_verification (passed_verdict n) s)) ?s ns) = st_contracts ?s"
    "verdicts_of ''t1'' (foldl (\<lambda>s n. fst (append_verification (passed_verdict n) s)) ?s ns) = verdicts_of ''t1'' ?s @ vs"
    "map vf_criterion vs = ns" "\<forall>v\<in>set vs. vf_result v = Pass" by blast
  have "verdicts_of ''t1'' ?s = verdicts_of ''t1'' s @ [?v]" using v by (simp add: verdicts_of_def)
  with ih v show ?case by (simp add: a)
qed (simp add: exI [of _ "[]"])

lemma wide_names: "contract_names ''t1'' wide_store = thirteen"
  by code_simp

lemma wide_pinned:
  "pin_accepted_contract ''t1'' (Some (JArr (map criterion_text thirteen))) (Some empty_store) = (Some wide_store, None)"
  by code_simp

lemma contract_names_cong: "quiet s \<Longrightarrow> quiet s' \<Longrightarrow> st_contracts s = st_contracts s' \<Longrightarrow> contract_names t s = contract_names t s'"
  by (simp add: contract_names_def pinned_completion_contract_def list_completion_contract_def contract_of_def)

text \<open>
  With more verdicts the briefing can call a confirmed criterion open: a contract of thirteen
  criteria, each judged once and passed, is reported with its first criterion open, because only
  the twelve newest verdicts are read.
\<close>

theorem passed_criterion_reported_open:
  "quiet (all_passed thirteen) \<and>
   list_all (\<lambda>n. list_ex (\<lambda>v. vf_criterion v = n \<and> vf_result v = Pass) (verdicts_of ''t1'' (all_passed thirteen)))
     (contract_names ''t1'' (all_passed thirteen)) \<and>
   snd (open_criteria ''t1'' (all_passed thirteen)) = [''a'']"
proof -
  let ?s = "all_passed thirteen"
  have all: "?s = foldl (\<lambda>s n. fst (append_verification (passed_verdict n) s)) wide_store thirteen"
    by (simp add: all_passed_def wide_pinned)
  have q: "quiet wide_store" "verdicts_of ''t1'' wide_store = []"
    by (simp_all add: wide_store_def verdicts_of_def) (simp_all add: empty_store_def quiet_def)
  from append_passed [OF q(1), of thirteen] q(2) obtain vs where s: "quiet ?s" "st_contracts ?s = st_contracts wide_store"
    "verdicts_of ''t1'' ?s = vs" "map vf_criterion vs = thirteen" "\<forall>v\<in>set vs. vf_result v = Pass"
    unfolding all by auto
  have names: "contract_names ''t1'' ?s = thirteen" using contract_names_cong [OF s(1) q(1) s(2)] wide_names by simp
  have "filter (\<lambda>v. vf_result v = Pass) (newest 12 vs) = newest 12 vs"
    using s(5) by (auto simp: newest_def filter_id_conv dest: in_set_dropD)
  then have "passed_names (newest 12 vs) = newest 12 thirteen"
    by (simp add: passed_names_def newest_def s(4) [symmetric] drop_map)
  moreover have "filter (\<lambda>n. n \<notin> set (newest 12 thirteen)) thirteen = [''a'']" by code_simp
  ultimately have "snd (open_criteria ''t1'' ?s) = [''a'']"
    using open_criteria_quiet [OF s(1), of "''t1''"] by (simp add: names s(3) verdict_limit_def)
  moreover have "n \<in> vf_criterion ` set vs" if "n \<in> set thirteen" for n using that s(4) by (metis image_set)
  then have "list_all (\<lambda>n. list_ex (\<lambda>v. vf_criterion v = n \<and> vf_result v = Pass) vs) thirteen"
    using s(5) by (fastforce simp: list_all_iff list_ex_iff)
  ultimately show ?thesis using s(1,3) names by simp
qed

section \<open>The round of a concrete run\<close>

definition round_plan :: plan_row where
  "round_plan = \<lparr>pl_id = 2, pl_task = ''t1'', pl_agent = 1, pl_cycle = 2, pl_type = ''plan'', pl_reason = [],
     pl_evidence = JArr [], pl_need = JObj [], pl_step_count = 3, pl_hash = [], pl_reply = 0, pl_input = 0,
     pl_task_input = 0, pl_turn = 0\<rparr>"

definition round_planned :: "step_plan_row list" where
  "round_planned =
    [\<lparr>sp_id = 1, sp_plan = 2, sp_idx = 1, sp_name = ''build'', sp_capability = ''build'', sp_input = JObj [], sp_effect = [], sp_refs = JArr []\<rparr>,
     \<lparr>sp_id = 2, sp_plan = 2, sp_idx = 3, sp_name = ''check'', sp_capability = ''check'', sp_input = JObj [], sp_effect = [], sp_refs = JArr []\<rparr>]"

definition round_rt :: "unit rt" where
  "round_rt = silent_rt\<lparr>rt_store := Some (sample_store\<lparr>st_step_plans := round_planned\<rparr>)\<rparr>"

definition round_run :: "unit rt \<times> run_result \<times> exec_error option" where
  "round_run = execute_recorded round_rt sample_plan 2 round_planned"

lemma round_tells_the_run_witness:
  "\<exists>s'. rt_store (fst round_run) = Some s' \<and> rs_status (tr_steps (snd (read_round round_plan s')) ! 1) = ''failed''"
proof -
  let ?s = "sample_store\<lparr>st_step_plans := round_planned\<rparr>"
  have st: "rt_store round_rt = Some ?s" "quiet ?s"
    by (simp_all add: round_rt_def) (simp add: sample_store_def quiet_def empty_store_def)
  have p: "pl_id round_plan = 2" "pl_id round_plan \<noteq> 0" "d_actions sample_plan \<noteq> []"
    by (simp_all add: round_plan_def sample_plan_actions)
  have new: "\<forall>r\<in>set (st_steps ?s). es_plan r \<noteq> pl_id round_plan" by (simp add: sample_store_def round_plan_def)
  have planned: "step_plan_of (pl_id round_plan) ?s = round_planned"
    by (simp add: step_plan_of_def round_plan_def round_planned_def)
  have idx: "map sp_idx round_planned = map (\<lambda>x. Suc (fst x)) (planned_actions (d_actions sample_plan))" by code_simp
  have ids: "distinct (map sp_id round_planned)" "0 \<notin> set (map sp_id round_planned)" by (simp_all add: round_planned_def)
  have run: "execute_recorded round_rt sample_plan (pl_id round_plan) round_planned =
      (fst round_run, fst (snd round_run), snd (snd round_run))" by (simp add: round_run_def p(1))
  have "length (rr_actions (fst (snd round_run))) = 2" "ar_error (rr_actions (fst (snd round_run)) ! 1) \<noteq> None"
    "length round_planned = 2" by code_simp+
  with round_tells_the_run [OF st p(2,3) new planned idx ids run] show ?thesis by auto
qed

end
