(* ===== verification/Run_Samples.thy ===== *)
theory Run_Samples
  imports Run_Outcome Task_Record_Laws
begin

text \<open>
  Concrete runs on which the promises of a run are seen to apply.
\<close>

definition done_answer :: decision where
  "done_answer = (sample_decision [])\<lparr>d_type := ''done'',
     d_evidence := [\<lparr>ev_id = ''e1'', ev_source = ''step'', ev_reference = ''build'', ev_fact = ''artifact a1''\<rparr>]\<rparr>"

definition sample_su :: "(nat \<Rightarrow> run_result list \<Rightarrow> string \<Rightarrow> task_briefing option \<Rightarrow> string + decision) \<Rightarrow> surroundings" where
  "sample_su f = \<lparr>su_decide = f, su_error_text = (\<lambda>_. ''failed''), su_note = ''note'', su_cut_note = ''cut'',
     su_chat_guard = Inr ''chat'', su_say = (\<lambda>_. None)\<rparr>"

definition sample_agent :: planner where
  "sample_agent = \<lparr>pa_id = 1, pa_name = ''agent-1'', pa_task = Some ''t1'', pa_session = True, pa_requires = False,
     pa_pending = None, pa_approved = False\<rparr>"

definition sample_task :: task where
  "sample_task = (bare_task ''t1'')\<lparr>tk_status := ''running'', tk_agent := 1\<rparr>"

definition sample_table :: task_table where
  "sample_table = \<lparr>tk_rows = [sample_task], tk_faults = []\<rparr>"

definition sample_app :: "unit app" where
  "sample_app = \<lparr>ap_rt = sample_rt, ap_tasks = Some sample_table, ap_reasons = [], ap_inflight = []\<rparr>"

definition sample_start :: "unit run" where
  "sample_start = \<lparr>rn_app = sample_app, rn_agent = sample_agent, rn_task = sample_task, rn_ctx = None\<rparr>"

definition done_run :: "unit run \<times> run_error option" where
  "done_run = run_loop (sample_su (\<lambda>_ _ _ _. Inr done_answer)) 3 ''go'' sample_start"

lemma done_run_completes: "tk_status (rn_task (fst done_run)) = task_status_completed"
  by code_simp

lemma start_facts: "tk_status (rn_task sample_start) = status_running" "ap_tasks (rn_app sample_start) = Some sample_table"
    "task_calm sample_table" "pa_pending (rn_agent sample_start) = None" "pa_task (rn_agent sample_start) = Some ''t1''"
    "tk_id (rn_task sample_start) = ''t1''"
  by (simp_all add: sample_start_def sample_task_def sample_app_def sample_table_def task_calm_def status_words
      sample_agent_def bare_task_def)

lemma run_outcome_on_the_row_witness:
  "\<exists>s' row. ap_tasks (rn_app (fst done_run)) = Some s' \<and> task_row ''t1'' s' = Some row \<and> tk_status row = ''completed''"
proof -
  have "run_loop (sample_su (\<lambda>_ _ _ _. Inr done_answer)) 3 ''go'' sample_start = (fst done_run, snd done_run)"
    by (simp add: done_run_def)
  from run_outcome_on_the_row [OF start_facts(1-3) this] show ?thesis
    using done_run_completes by (auto simp: start_facts(6) status_words)
qed

lemma completed_means_verified_witness:
  "\<exists>rt ctx plan st1 cs. verify_done rt ctx plan = (ap_rt (rn_app (fst done_run)), None) \<and> dc_task ctx = Some ''t1'' \<and>
     pinned_completion_contract ''t1'' (rt_store rt) = (st1, cs) \<and> cs \<noteq> [] \<and> tk_id (rn_task (fst done_run)) = ''t1''"
proof -
  have run: "run_loop (sample_su (\<lambda>_ _ _ _. Inr done_answer)) 3 ''go'' sample_start = (fst done_run, snd done_run)"
    by (simp add: done_run_def)
  have "paused_on_plan (rn_agent sample_start)" by (simp add: paused_on_plan_def start_facts(4))
  from completed_means_verified [OF start_facts(1) this _ run done_run_completes] show ?thesis
    by (auto simp: start_facts(5,6))
qed

section \<open>A run that waits for its confirmation\<close>

definition waiting_start :: "unit run" where
  "waiting_start = sample_start\<lparr>rn_agent := sample_agent\<lparr>pa_requires := True\<rparr>\<rparr>"

definition waiting_run :: "unit run \<times> run_error option" where
  "waiting_run = run_loop (sample_su (\<lambda>_ _ _ _. Inr sample_plan)) 3 ''go'' waiting_start"

text \<open>In this runtime the build counts its calls; the run that waits for its confirmation makes none.\<close>

definition counting_build :: "nat capability" where
  "counting_build = \<lparr>cap_name = ''build'', cap_provider = ''cursor'',
     cap_declared = Some ([\<lparr>f_name = ''task'', f_aliases = [], f_required = False, f_description = [], f_kind = []\<rparr>],
       [\<lparr>f_name = ''artifact_id'', f_aliases = [], f_required = False, f_description = [], f_kind = ''artifact''\<rparr>]),
     cap_checks_kind = None, cap_run = (\<lambda>inp w. ((fst w, Suc (snd w)), [(''artifact_id'', ''a1'')], None))\<rparr>"

definition counting_rt :: "nat rt" where
  "counting_rt = \<lparr>rt_factory = Some (register counting_build new_factory), rt_caps = capability_map [counting_build],
     rt_outside = (None, 0), rt_store = Some empty_store, rt_digest = (\<lambda>t. t), rt_turns = (\<lambda>w. [])\<rparr>"

definition counting_start :: "bool \<Rightarrow> nat run" where
  "counting_start approval =
    \<lparr>rn_app = \<lparr>ap_rt = counting_rt, ap_tasks = Some sample_table, ap_reasons = [], ap_inflight = []\<rparr>,
     rn_agent = sample_agent\<lparr>pa_requires := approval\<rparr>, rn_task = sample_task, rn_ctx = None\<rparr>"

definition counting_run :: "bool \<Rightarrow> nat run \<times> run_error option" where
  "counting_run approval = run_loop (sample_su (\<lambda>_ _ _ _. Inr sample_plan)) 2 ''go'' (counting_start approval)"

lemma counted: "rt_outside (ap_rt (rn_app (fst (counting_run False)))) = (None, 2)" by code_simp

lemma nothing_runs_unconfirmed_witness:
  "snd (rt_outside (ap_rt (rn_app (fst (counting_run True))))) = 0 \<and>
   tk_status (rn_task (fst (counting_run True))) = status_awaiting_approval"
proof
  have "type_of sample_plan = decision_plan" by code_simp
  then have v: "speaks_the_vocabulary (sample_su (\<lambda>_ _ _ _. Inr sample_plan))"
    by (simp add: speaks_the_vocabulary_def sample_su_def)
  have a: "pa_requires (rn_agent (counting_start True))" "\<not> pa_approved (rn_agent (counting_start True))"
    by (simp_all add: counting_start_def sample_agent_def)
  have rt: "ap_rt (rn_app (counting_start True)) = counting_rt" by (simp add: counting_start_def)
  have "\<not> is_verification_tool (rt_factory counting_rt) name" for name
    by (simp add: counting_rt_def is_verification_tool_def counting_build_def fac_get_def register_def new_factory_def Let_def
        split: option.split)
  with nothing_runs_unconfirmed [OF v a, where Q = "\<lambda>w. snd w = 0", of 2 "''go''"]
  show "snd (rt_outside (ap_rt (rn_app (fst (counting_run True))))) = 0"
    by (simp add: rt counting_run_def) (simp add: counting_rt_def)
  show "tk_status (rn_task (fst (counting_run True))) = status_awaiting_approval" by code_simp
qed

section \<open>A round the runtime cut\<close>

definition cut_reason :: stop_reason where
  "cut_reason = \<lparr>sr_by = ''runtime'', sr_request = ''r7'', sr_deployment = [], sr_version = []\<rparr>"

definition cut_task :: task where
  "cut_task = sample_task\<lparr>tk_status := ''stopped'', tk_error := stop_error_text cut_reason\<rparr>"

definition cut_app :: "unit app" where
  "cut_app = sample_app\<lparr>ap_tasks := Some \<lparr>tk_rows = [cut_task], tk_faults = []\<rparr>\<rparr>"

definition go_message :: message where
  "go_message = \<lparr>msg_id = 1, msg_agent = 1, msg_task = ''t1'', msg_sender = ''user'', msg_sender_id = ''user'',
     msg_kind = KindInstruction, msg_content = ''go on'', msg_status = StatusRunning, msg_error = []\<rparr>"

definition brief_of :: "'w app \<times> task_briefing option \<Rightarrow> interruption option" where
  "brief_of x = (case snd x of None \<Rightarrow> None | Some b \<Rightarrow> te_interrupted (tb_state b))"

text \<open>Before the run starts the record names the cut; the run's own briefing does not.\<close>

lemma continued_run_not_told_of_the_cut_witness:
  "brief_of (run_briefing (sample_su (\<lambda>_ _ _ _. Inl ''no'')) ''t1'' cut_app) \<noteq> None \<and>
   snd (run_briefing (sample_su (\<lambda>_ _ _ _. Inl ''no'')) ''t1'' (fst (begin_instruction go_message sample_agent cut_task cut_app))) \<noteq> None \<and>
   brief_of (run_briefing (sample_su (\<lambda>_ _ _ _. Inl ''no'')) ''t1'' (fst (begin_instruction go_message sample_agent cut_task cut_app))) = None"
proof -
  let ?su = "sample_su (\<lambda>_ _ _ _. Inl ''no'')"
  let ?app = "fst (begin_instruction go_message sample_agent cut_task cut_app)"
  have first: "brief_of (run_briefing ?su ''t1'' cut_app) \<noteq> None" by code_simp
  have some: "snd (run_briefing ?su ''t1'' ?app) \<noteq> None" by code_simp
  then obtain app' b where b: "run_briefing ?su ''t1'' ?app = (app', Some b)"
    by (cases "run_briefing ?su ''t1'' ?app") auto
  obtain a' t' where t': "begin_instruction go_message sample_agent cut_task cut_app = (?app, a', t')" "tk_id t' = ''t1''"
    by (auto simp: begin_instruction_def Let_def cut_task_def sample_task_def bare_task_def)
  have "te_interrupted (tb_state b) = None"
    by (rule continued_run_not_told_of_the_cut [OF _ _ t'(1), of "\<lparr>tk_rows = [cut_task], tk_faults = []\<rparr>"])
      (use b t'(2) in \<open>simp_all add: cut_app_def task_calm_def\<close>)
  with first some b show ?thesis by (simp add: brief_of_def)
qed

definition pending_app :: "unit app" where
  "pending_app = sample_app\<lparr>ap_tasks := Some \<lparr>tk_rows = [sample_task\<lparr>tk_status := ''pending''\<rparr>], tk_faults = []\<rparr>,
     ap_reasons := [(''t1'', cut_reason)]\<rparr>"

lemma cut_chat_blames_the_user_witness:
  "\<exists>s' row. ap_tasks (fst (process_chat (sample_su (\<lambda>_ _ _ _. Inl ''no'')) go_message sample_agent (Some 0) pending_app)) = Some s' \<and>
     task_row ''t1'' s' = Some row \<and> tk_error row = ''stopped'' \<and> is_runtime_stop cut_reason"
proof -
  let ?x = "process_chat (sample_su (\<lambda>_ _ _ _. Inl ''no'')) go_message sample_agent (Some 0) pending_app"
  have p: "ap_tasks pending_app = Some \<lparr>tk_rows = [sample_task\<lparr>tk_status := ''pending''\<rparr>], tk_faults = []\<rparr>"
    "task_calm \<lparr>tk_rows = [sample_task\<lparr>tk_status := ''pending''\<rparr>], tk_faults = []\<rparr>"
    "trim (msg_task go_message) \<noteq> []"
    "task_row (msg_task go_message) \<lparr>tk_rows = [sample_task\<lparr>tk_status := ''pending''\<rparr>], tk_faults = []\<rparr> =
       Some (sample_task\<lparr>tk_status := ''pending''\<rparr>)"
    "tk_status (sample_task\<lparr>tk_status := ''pending''\<rparr>) = status_pending" "snd (ctx_check (Some 0))"
    by (simp_all add: pending_app_def task_calm_def go_message_def task_row_def sample_task_def bare_task_def
        status_words ctx_check_def)
  have "?x = (fst ?x, fst (snd ?x), snd (snd ?x))" by simp
  from cut_chat_blames_the_user [OF p this] show ?thesis
    by (auto simp: go_message_def is_runtime_stop_def cut_reason_def stopped_by_runtime_def)
qed

end
