(* ===== verification/Go_Text.thy ===== *)
theory Go_Text
  imports Go_Base
begin

text \<open>
  More of Go's \<open>strings\<close>: what the readers of URLs, repositories, log texts and prompts use.
\<close>

definition slash :: char where "slash = CHR 0x2F"
definition comma :: char where "comma = CHR 0x2C"

text \<open>\<open>strings.TrimPrefix\<close>, \<open>strings.TrimSuffix\<close>, \<open>strings.Trim\<close> of slashes.\<close>

definition trim_prefix :: "string \<Rightarrow> string \<Rightarrow> string" where
  "trim_prefix x s = (if prefix x s then drop (length x) s else s)"

definition trim_suffix :: "string \<Rightarrow> string \<Rightarrow> string" where
  "trim_suffix x s = (if suffix x s then take (length s - length x) s else s)"

definition trim_slashes :: "string \<Rightarrow> string" where
  "trim_slashes s = rev (dropWhile (\<lambda>c. c = slash) (rev (dropWhile (\<lambda>c. c = slash) s)))"

text \<open>\<open>strings.TrimLeft\<close> and \<open>strings.TrimRight\<close> of slashes.\<close>

definition drop_slashes :: "string \<Rightarrow> string" where
  "drop_slashes s = dropWhile (\<lambda>c. c = CHR ''/'') s"

definition cut_slashes :: "string \<Rightarrow> string" where
  "cut_slashes s = rev (drop_slashes (rev s))"

text \<open>\<open>strings.IndexAny\<close> as the cut it is used for: the text before the first of the bytes.\<close>

definition before_any :: "string \<Rightarrow> string \<Rightarrow> string" where
  "before_any cs s = takeWhile (\<lambda>c. c \<notin> set cs) s"

definition after_any :: "string \<Rightarrow> string \<Rightarrow> string" where
  "after_any cs s = (if list_ex (\<lambda>c. c \<in> set cs) s then drop 1 (dropWhile (\<lambda>c. c \<notin> set cs) s) else s)"

text \<open>\<open>strings.LastIndexByte\<close>.\<close>

definition last_index :: "char \<Rightarrow> string \<Rightarrow> nat option" where
  "last_index c s = (if c \<in> set s then Some (length s - 1 - length (takeWhile (\<lambda>x. x \<noteq> c) (rev s))) else None)"

text \<open>\<open>strings.Fields\<close>: a word, and the words of a text; \<open>n\<close> bounds the words that may be left.\<close>

fun first_word :: "string \<Rightarrow> string \<times> string" where
  "first_word [] = ([], [])"
| "first_word (c # cs) =
    (if lead_of spaces (c # cs) \<noteq> None then ([], c # cs) else (case first_word cs of (w, r) \<Rightarrow> (c # w, r)))"

fun words_upto :: "nat \<Rightarrow> string \<Rightarrow> string list" where
  "words_upto 0 s = []"
| "words_upto (Suc n) s =
    (case first_word (trim_left s) of (w, r) \<Rightarrow> if w = [] then [] else w # words_upto n r)"

definition go_fields :: "string \<Rightarrow> string list" where "go_fields s = words_upto (length s) s"

text \<open>\<open>strings.ReplaceAll\<close> of a text that is not empty; \<open>n\<close> bytes of a match are still to be skipped.\<close>

fun replace_from :: "string \<Rightarrow> string \<Rightarrow> nat \<Rightarrow> string \<Rightarrow> string" where
  "replace_from k v n [] = []"
| "replace_from k v (Suc n) (c # s) = replace_from k v n s"
| "replace_from k v 0 (c # s) =
    (if prefix k (c # s) then v @ replace_from k v (length k - 1) s else c # replace_from k v 0 s)"

definition replace_all :: "string \<Rightarrow> string \<Rightarrow> string \<Rightarrow> string" where
  "replace_all s k v = replace_from k v 0 s"

end
