(* ===== verification/Git_Repos.thy ===== *)
theory Git_Repos
  imports Go_Text
begin

text \<open>
  The repositories an account may touch (src/githubauth/repos.go): how a repository is named, how a
  list of them is read from a text, and the allowlist.  The URL parser of the standard library is
  the parameter \<open>up\<close>, from a URL to its path, \<open>None\<close> when the text is no URL; nothing is assumed
  of it.
\<close>

section \<open>The code\<close>

text \<open>\<open>strings.FieldsFunc\<close>.\<close>

fun split_by :: "(char \<Rightarrow> bool) \<Rightarrow> string \<Rightarrow> string list" where
  "split_by P [] = [[]]"
| "split_by P (x # xs) =
     (if P x then [] # split_by P xs
      else (case split_by P xs of [] \<Rightarrow> [[x]] | y # ys \<Rightarrow> (x # y) # ys))"

definition fields_by :: "(char \<Rightarrow> bool) \<Rightarrow> string \<Rightarrow> string list" where
  "fields_by P s = filter (\<lambda>f. f \<noteq> []) (split_by P s)"

type_synonym url_path = "string \<Rightarrow> string option"

definition repo_from_url :: "url_path \<Rightarrow> string \<Rightarrow> string" where
  "repo_from_url up raw =
    (let s = trim raw in
     if prefix ''git@'' s
     then (case str_index '':'' s of Some i \<Rightarrow> trim_suffix ''.git'' (drop (Suc i) s) | None \<Rightarrow> [])
     else (case up s of None \<Rightarrow> [] | Some p \<Rightarrow> trim_slashes (trim_suffix ''.git'' p)))"

definition owner_and_name :: "string \<Rightarrow> string" where
  "owner_and_name s =
    (case str_index [slash] s of
       None \<Rightarrow> []
     | Some i \<Rightarrow>
         if 0 < i then
           (let owner = take i s; name = takeWhile (\<lambda>c. c \<noteq> slash) (drop (Suc i) s)
            in if owner \<noteq> [] \<and> name \<noteq> [] then owner @ slash # name else [])
         else [])"

definition normalize_repo :: "url_path \<Rightarrow> string \<Rightarrow> string" where
  "normalize_repo up raw =
    (if trim raw = [] then []
     else (let s0 = trim_suffix ''.git'' (trim raw);
               s1 = (if contains s0 ''://'' \<or> prefix ''git@'' s0 then repo_from_url up s0 else s0)
           in owner_and_name (trim_slashes s1)))"

definition is_repo_separator :: "char \<Rightarrow> bool" where
  "is_repo_separator c \<longleftrightarrow> c \<in> set [comma, CHR 0x3B, CHR 0x0A, CHR 0x20]"

text \<open>The loop keeps the first of the repositories that differ in case only.\<close>

fun keep_repos :: "url_path \<Rightarrow> string list \<Rightarrow> string list \<Rightarrow> string list" where
  "keep_repos up seen [] = []"
| "keep_repos up seen (p # ps) =
    (let r = normalize_repo up p in
     if r = [] \<or> to_lower r \<in> set seen then keep_repos up seen ps
     else r # keep_repos up (to_lower r # seen) ps)"

definition parse_repos :: "url_path \<Rightarrow> string \<Rightarrow> string list" where
  "parse_repos up raw = keep_repos up [] (fields_by is_repo_separator raw)"

definition repo_name :: "url_path \<Rightarrow> string \<Rightarrow> string" where
  "repo_name up owner_name =
    (let r = normalize_repo up owner_name in
     if slash \<in> set r then rev (takeWhile (\<lambda>c. c \<noteq> slash) (rev r)) else r)"

definition allows :: "url_path \<Rightarrow> string list \<Rightarrow> string \<Rightarrow> bool" where
  "allows up allowlist repo =
    (let want = normalize_repo up repo in
     if want = [] then allowlist = []
     else if allowlist = [] then True
     else list_ex (\<lambda>a. equal_fold (normalize_repo up a) want) allowlist)"

text \<open>The two directions of the stored column (src/accounts.go).\<close>

definition encode_git_repos :: "url_path \<Rightarrow> string list \<Rightarrow> string" where
  "encode_git_repos up repos = str_join [comma] (parse_repos up (str_join [comma] repos))"

definition decode_git_repos :: "url_path \<Rightarrow> string \<Rightarrow> string list" where
  "decode_git_repos up raw = parse_repos up raw"

section \<open>What is kept\<close>

text \<open>A repository that is its own normal form, and survives the separators.\<close>

definition plain_repo :: "string \<Rightarrow> bool" where
  "plain_repo r \<longleftrightarrow> list_all (\<lambda>c. \<not> is_repo_separator c) r \<and> trim r = r \<and>
     \<not> suffix ''.git'' r \<and> \<not> contains r ''://'' \<and> \<not> prefix ''git@'' r"

lemma str_index_slash: "str_index [slash] s = Some i \<Longrightarrow> slash \<notin> set (take i s) \<and> i < length s \<and> s ! i = slash"
proof (induction s arbitrary: i)
  case (Cons c s)
  then show ?case by (cases "c = slash"; cases i) (auto split: if_splits)
qed simp

lemma owner_and_name_shape:
  assumes "owner_and_name s \<noteq> []"
  shows "\<exists>owner name. owner_and_name s = owner @ slash # name \<and> owner \<noteq> [] \<and> name \<noteq> [] \<and>
    slash \<notin> set owner \<and> slash \<notin> set name"
proof -
  obtain i where i: "str_index [slash] s = Some i" using assms by (cases "str_index [slash] s") (simp_all add: owner_and_name_def)
  let ?owner = "take i s" and ?name = "takeWhile (\<lambda>c. c \<noteq> slash) (drop (Suc i) s)"
  have "owner_and_name s = ?owner @ slash # ?name" "?owner \<noteq> []" "?name \<noteq> []"
    using assms i by (simp_all add: owner_and_name_def Let_def split: if_splits)
  moreover have "slash \<notin> set ?owner" using str_index_slash [OF i] by simp
  moreover have "slash \<notin> set ?name" by (auto dest: set_takeWhileD)
  ultimately show ?thesis by blast
qed

lemma normalize_repo_shape:
  assumes "normalize_repo up raw \<noteq> []"
  shows "\<exists>owner name. normalize_repo up raw = owner @ slash # name \<and> owner \<noteq> [] \<and> name \<noteq> [] \<and>
    slash \<notin> set owner \<and> slash \<notin> set name"
proof -
  obtain s where "normalize_repo up raw = owner_and_name s"
    using assms unfolding normalize_repo_def Let_def by (metis (no_types, lifting))
  then show ?thesis using owner_and_name_shape [of s] assms by simp
qed

lemma owner_and_name_id:
  assumes "owner \<noteq> []" "name \<noteq> []" "slash \<notin> set owner" "slash \<notin> set name"
  shows "owner_and_name (owner @ slash # name) = owner @ slash # name"
proof -
  have "str_index [slash] (owner @ slash # name) = Some (length owner)"
    using str_index_fresh [OF assms(3), of "[]" name] by simp
  moreover have "takeWhile (\<lambda>c. c \<noteq> slash) name = name" using assms(4) by (induction name) auto
  ultimately show ?thesis using assms(1,2) by (simp del: takeWhile_eq_all_conv takeWhile_eq_Nil_iff add: owner_and_name_def Let_def)
qed

lemma drop_slashes_id: "s = [] \<or> hd s \<noteq> slash \<Longrightarrow> dropWhile (\<lambda>c. c = slash) s = s"
  by (cases s) auto

lemma trim_slashes_id: "hd s \<noteq> slash \<Longrightarrow> last s \<noteq> slash \<Longrightarrow> trim_slashes s = s"
  by (cases "s = []") (simp_all add: trim_slashes_def drop_slashes_id hd_rev)

lemma normalize_plain:
  assumes plain: "plain_repo r" and r: "r = owner @ slash # name" "owner \<noteq> []" "name \<noteq> []"
    and fresh: "slash \<notin> set owner" "slash \<notin> set name"
  shows "normalize_repo up r = r"
proof -
  have "hd r \<noteq> slash" using r(1,2) fresh(1) by (metis hd_append2 hd_in_set)
  moreover have "last r \<noteq> slash" using r(1,3) fresh(2) by (metis last_ConsR last_appendR last_in_set list.distinct(1))
  ultimately have "trim_slashes r = r" by (rule trim_slashes_id)
  moreover have "owner_and_name r = r" using owner_and_name_id [OF r(2,3) fresh] r(1) by simp
  moreover have "trim_suffix ''.git'' r = r" "trim r = r" "\<not> contains r ''://''" "\<not> prefix ''git@'' r"
    using plain by (simp_all add: plain_repo_def trim_suffix_def)
  ultimately show ?thesis using r(1) by (simp add: normalize_repo_def Let_def)
qed

lemma keep_repos_shape:
  "set (keep_repos up seen ps) \<subseteq> {r. \<exists>p. normalize_repo up p = r \<and> r \<noteq> []} \<and>
   to_lower ` set (keep_repos up seen ps) \<inter> set seen = {} \<and> distinct (map to_lower (keep_repos up seen ps))"
proof (induction ps arbitrary: seen)
  case (Cons p ps)
  let ?r = "normalize_repo up p"
  from Cons [of seen] Cons [of "to_lower ?r # seen"] show ?case by (auto simp: Let_def image_iff)
qed simp

lemma keep_repos_id:
  "(\<And>r. r \<in> set rs \<Longrightarrow> r \<noteq> [] \<and> normalize_repo up r = r) \<Longrightarrow> distinct (map to_lower rs) \<Longrightarrow>
   to_lower ` set rs \<inter> set seen = {} \<Longrightarrow> keep_repos up seen rs = rs"
proof (induction rs arbitrary: seen)
  case (Cons r rs)
  have r: "normalize_repo up r = r" "r \<noteq> []" using Cons.prems(1) [of r] by auto
  have "keep_repos up (to_lower r # seen) rs = rs" using Cons.prems by (intro Cons.IH) auto
  then show ?case using r Cons.prems(3) by (simp add: Let_def)
qed simp

lemma split_by_fresh: "list_all (\<lambda>c. \<not> P c) s \<Longrightarrow> split_by P s = [s]"
  by (induction s) auto

lemma split_by_step: "list_all (\<lambda>c. \<not> P c) a \<Longrightarrow> P c \<Longrightarrow> split_by P (a @ c # b) = a # split_by P b"
  by (induction a) auto

lemma fields_by_join:
  "list_all (\<lambda>r. r \<noteq> [] \<and> list_all (\<lambda>c. \<not> P c) r) rs \<Longrightarrow> P c \<Longrightarrow> fields_by P (str_join [c] rs) = rs"
proof (induction rs rule: induct_list012)
  case 1
  then show ?case by (simp add: fields_by_def)
next
  case (2 x)
  then show ?case by (simp add: fields_by_def split_by_fresh)
next
  case (3 x y ys)
  then have "split_by P (str_join [c] (x # y # ys)) = x # split_by P (str_join [c] (y # ys))"
    by (simp add: split_by_step)
  with 3 show ?case by (simp add: fields_by_def)
qed

text \<open>
  The list of repositories an account is stored with is read back as it was parsed, in order,
  provided no name in it still looks like a URL or ends in \<open>.git\<close>.
\<close>

theorem repo_list_round_trip:
  assumes "list_all plain_repo (parse_repos up (str_join [comma] repos))"
  shows "decode_git_repos up (encode_git_repos up repos) = parse_repos up (str_join [comma] repos)"
proof -
  let ?rs = "parse_repos up (str_join [comma] repos)"
  have shape: "r \<noteq> [] \<and> normalize_repo up r = r" if "r \<in> set ?rs" for r
  proof -
    from that obtain p where p: "normalize_repo up p = r" "r \<noteq> []"
      using keep_repos_shape [of up "[]"] by (auto simp: parse_repos_def)
    moreover have "plain_repo r" using assms that by (simp add: list_all_iff)
    ultimately show ?thesis using normalize_repo_shape [of up p] normalize_plain [of r] by blast
  qed
  have "list_all (\<lambda>r. r \<noteq> [] \<and> list_all (\<lambda>c. \<not> is_repo_separator c) r) ?rs"
    using assms shape by (auto simp: list_all_iff plain_repo_def)
  then have "fields_by is_repo_separator (str_join [comma] ?rs) = ?rs"
    by (rule fields_by_join) (simp add: is_repo_separator_def)
  moreover have "keep_repos up [] ?rs = ?rs"
    using shape keep_repos_shape [of up "[]" "fields_by is_repo_separator (str_join [comma] repos)"]
    by (intro keep_repos_id) (simp_all add: parse_repos_def)
  ultimately show ?thesis by (simp add: decode_git_repos_def encode_git_repos_def parse_repos_def [of up "str_join [comma] ?rs" for up])
qed

lemma repo_list_round_trip_witness:
  "decode_git_repos (\<lambda>_. None) (encode_git_repos (\<lambda>_. None) [''Acme/api.git'', '' acme/API '', ''git@github.com:acme/web.git''])
     = [''Acme/api'', ''acme/web'']"
proof -
  have p: "parse_repos (\<lambda>_. None) (str_join [comma] [''Acme/api.git'', '' acme/API '', ''git@github.com:acme/web.git''])
      = [''Acme/api'', ''acme/web'']" by code_simp
  moreover have "list_all plain_repo [''Acme/api'', ''acme/web'']" by code_simp
  ultimately show ?thesis using repo_list_round_trip [of "\<lambda>_. None"] by metis
qed

text \<open>
  Without that proviso it need not be: the suffix is taken off once per reading, so a repository
  whose name ends in \<open>.git\<close> twice is stored as one and read back as another.
\<close>

lemma repo_not_read_back:
  "parse_repos up ''acme/api.git.git'' = [''acme/api.git''] \<and>
   decode_git_repos up (encode_git_repos up [''acme/api.git.git'']) = [''acme/api'']"
  by code_simp

end
