(* ===== verification/Accounts.thy ===== *)
theory Accounts
  imports Git_Repos "HOL-Library.Product_Lexorder"
begin

text \<open>
  The pool of provider accounts (src/accounts.go, src/accounts_service.go, src/db/sqlite_accounts.go):
  what a row is normalised to, the table with its two unique keys and its statements, and the
  operations of the pool.  A row keeps the repositories as one text, an account as a list.
  As in the other tables \<open>at_faults\<close> lists the outcomes of the coming statements.  The random part
  of a new id and the time of a creation are arguments; the update time is not modelled.
\<close>

section \<open>Harnesses\<close>

definition harness_cursor :: string where "harness_cursor = ''cursor''"
definition harness_cline :: string where "harness_cline = ''cline''"
definition harness_codex :: string where "harness_codex = ''codex''"
definition harness_claude :: string where "harness_claude = ''claude''"
definition harness_deepseek :: string where "harness_deepseek = ''deepseek''"

lemmas harness_words = harness_cursor_def harness_cline_def harness_codex_def harness_claude_def harness_deepseek_def

definition account_harnesses :: "string list" where
  "account_harnesses = [harness_cursor, harness_cline, harness_codex, harness_claude, harness_deepseek]"

definition normalize_harness :: "string \<Rightarrow> string" where
  "normalize_harness h =
    (let w = to_lower (trim h) in
     if w = harness_cursor \<or> w = ''cursor_sdk'' then harness_cursor
     else if w = harness_cline \<or> w = ''cline_sdk'' then harness_cline
     else if w = harness_codex \<or> w = ''codex_sdk'' then harness_codex
     else if w = harness_claude \<or> w = ''claude_code'' then harness_claude
     else if w = harness_deepseek then harness_deepseek
     else [])"

definition default_vendor_for :: "string \<Rightarrow> string" where
  "default_vendor_for h =
    (let n = normalize_harness h in
     if n = harness_cursor then ''cursor''
     else if n = harness_codex then ''openai''
     else if n = harness_claude then ''anthropic''
     else ''deepseek'')"

section \<open>Paths\<close>

text \<open>\<open>filepath.Clean\<close> and \<open>filepath.IsAbs\<close> of a path of a Unix system.\<close>

definition is_abs :: "string \<Rightarrow> bool" where
  "is_abs p \<longleftrightarrow> prefix [slash] p"

fun clean_parts :: "bool \<Rightarrow> string list \<Rightarrow> string list \<Rightarrow> string list" where
  "clean_parts rooted stack [] = rev stack"
| "clean_parts rooted stack (x # xs) =
    (if x = [] \<or> x = ''.'' then clean_parts rooted stack xs
     else if x = ''..'' then
       (if stack \<noteq> [] \<and> hd stack \<noteq> ''..'' then clean_parts rooted (tl stack) xs
        else if rooted then clean_parts rooted stack xs
        else clean_parts rooted (x # stack) xs)
     else clean_parts rooted (x # stack) xs)"

definition clean_path :: "string \<Rightarrow> string" where
  "clean_path p =
    (let out = (if is_abs p then [slash] else []) @ str_join [slash] (clean_parts (is_abs p) [] (split_on slash p))
     in if out = [] then ''.'' else out)"

section \<open>Accounts\<close>

record 'r account_of =
  ac_id :: string
  ac_harness :: string
  ac_vendor :: string
  ac_label :: string
  ac_api_key :: string
  ac_base_url :: string
  ac_model :: string
  ac_root :: string
  ac_repos :: 'r
  ac_git_token :: string
  ac_enabled :: bool
  ac_default :: bool
  ac_created :: nat

type_synonym account = "string list account_of"
type_synonym account_row = "string account_of"

definition with_repos :: "'s \<Rightarrow> 'r account_of \<Rightarrow> 's account_of" where
  "with_repos rs a =
    \<lparr>ac_id = ac_id a, ac_harness = ac_harness a, ac_vendor = ac_vendor a, ac_label = ac_label a,
     ac_api_key = ac_api_key a, ac_base_url = ac_base_url a, ac_model = ac_model a, ac_root = ac_root a,
     ac_repos = rs, ac_git_token = ac_git_token a, ac_enabled = ac_enabled a, ac_default = ac_default a,
     ac_created = ac_created a\<rparr>"

datatype account_error =
    UnknownHarness
  | LabelRequired
  | RootRequired
  | RootNotAbsolute string
  | RootClaimed string string string
  | AccountNotFound string
  | AccountDbFault string
  | AccountKeyTaken

definition new_account_id :: "string \<Rightarrow> string" where
  "new_account_id fresh = ''acct-'' @ fresh"

text \<open>A creation time of 0 is one that was not set.\<close>

definition normalize_account :: "url_path \<Rightarrow> string \<Rightarrow> nat \<Rightarrow> account \<Rightarrow> account_error + account" where
  "normalize_account up fresh now a =
    (let harness = normalize_harness (ac_harness a); label = trim (ac_label a); root = trim (ac_root a);
         clean = clean_path root in
     if harness = [] then Inl UnknownHarness
     else if label = [] then Inl LabelRequired
     else if root = [] then Inl RootRequired
     else if \<not> is_abs clean then Inl (RootNotAbsolute clean)
     else Inr
       \<lparr>ac_id = (if trim (ac_id a) = [] then new_account_id fresh else trim (ac_id a)),
        ac_harness = harness,
        ac_vendor = (if trim (ac_vendor a) = [] then default_vendor_for harness else trim (ac_vendor a)),
        ac_label = label, ac_api_key = trim (ac_api_key a), ac_base_url = trim (ac_base_url a),
        ac_model = trim (ac_model a), ac_root = clean,
        ac_repos = parse_repos up (str_join [comma] (ac_repos a)),
        ac_git_token = trim (ac_git_token a), ac_enabled = ac_enabled a, ac_default = ac_default a,
        ac_created = (if ac_created a = 0 then now else ac_created a)\<rparr>)"

definition mask_api_key :: "string \<Rightarrow> string" where
  "mask_api_key key =
    (let raw = trim key in
     if raw = [] then []
     else if length raw \<le> 8 then concat (replicate 4 [CHR 0xE2, CHR 0x80, CHR 0xA2])
     else take 4 raw @ [CHR 0xE2, CHR 0x80, CHR 0xA6] @ drop (length raw - 4) raw)"

section \<open>The table\<close>

record account_table =
  at_rows :: "account_row list"
  at_faults :: "string option list"

definition account_call :: "account_table \<Rightarrow> account_table \<times> account_error option" where
  "account_call s =
    (case at_faults s of [] \<Rightarrow> (s, None) | f # fs \<Rightarrow> (s\<lparr>at_faults := fs\<rparr>, map_option AccountDbFault f))"

definition scan_account :: "url_path \<Rightarrow> account_row \<Rightarrow> account" where
  "scan_account up r = with_repos (decode_git_repos up (ac_repos r)) r"

definition row_of_account :: "url_path \<Rightarrow> account \<Rightarrow> account_row" where
  "row_of_account up a = with_repos (encode_git_repos up (ac_repos a)) a"

record account_filter =
  af_harness :: string
  af_vendor :: string
  af_enabled :: "bool option"

definition account_where :: "account_filter \<Rightarrow> account_row \<Rightarrow> bool" where
  "account_where f r \<longleftrightarrow>
    (trim (af_harness f) = [] \<or> ac_harness r = trim (af_harness f)) \<and>
    (trim (af_vendor f) = [] \<or> ac_vendor r = trim (af_vendor f)) \<and>
    (case af_enabled f of None \<Rightarrow> True | Some b \<Rightarrow> ac_enabled r = b)"

text \<open>The pool's order: by harness, vendor, the default first, then as created.\<close>

definition pool_order :: "account_row \<Rightarrow> string \<times> string \<times> bool \<times> nat" where
  "pool_order r = (ac_harness r, ac_vendor r, \<not> ac_default r, ac_created r)"

definition list_accounts ::
  "url_path \<Rightarrow> account_filter \<Rightarrow> account_table \<Rightarrow> account_table \<times> (account_error + account list)" where
  "list_accounts up f s =
    (case account_call s of
       (s', Some e) \<Rightarrow> (s', Inl e)
     | (s', None) \<Rightarrow> (s', Inr (map (scan_account up) (sort_key pool_order (filter (account_where f) (at_rows s'))))))"

definition get_account :: "url_path \<Rightarrow> string \<Rightarrow> account_table \<Rightarrow> account_table \<times> (account_error + account option)" where
  "get_account up i s =
    (case account_call s of
       (s', Some e) \<Rightarrow> (s', Inl e)
     | (s', None) \<Rightarrow> (s', Inr (map_option (scan_account up) (find (\<lambda>r. ac_id r = trim i) (at_rows s')))))"

definition ensure_workspace_root_free :: "string \<Rightarrow> string \<Rightarrow> account_table \<Rightarrow> account_table \<times> account_error option" where
  "ensure_workspace_root_free root i s =
    (case account_call s of
       (s', Some e) \<Rightarrow> (s', Some e)
     | (s', None) \<Rightarrow>
         (s', map_option (\<lambda>r. RootClaimed root (ac_id r) (ac_label r))
                (find (\<lambda>r. ac_root r = root \<and> ac_id r \<noteq> i) (at_rows s'))))"

definition clear_defaults :: "(account_row \<Rightarrow> bool) \<Rightarrow> account_row list \<Rightarrow> account_row list" where
  "clear_defaults P rs = map (\<lambda>r. if P r then r\<lparr>ac_default := False\<rparr> else r) rs"

text \<open>
  A transaction that fails at a statement, or at its commit, leaves the rows as they were; \<open>n\<close>
  statements follow one another.
\<close>

fun statements :: "nat \<Rightarrow> account_table \<Rightarrow> account_table \<times> account_error option" where
  "statements 0 s = (s, None)"
| "statements (Suc n) s = (case account_call s of (s', Some e) \<Rightarrow> (s', Some e) | (s', None) \<Rightarrow> statements n s')"

text \<open>
  \<open>CreateAccount\<close>: the first account of a harness is its default.  The transaction begins, counts
  the defaults, clears them when the new account is one, inserts and commits.
\<close>

definition create_account ::
  "url_path \<Rightarrow> string \<Rightarrow> nat \<Rightarrow> account \<Rightarrow> account_table \<Rightarrow> account_table \<times> (account_error + account)" where
  "create_account up fresh now a0 s0 =
    (case normalize_account up fresh now a0 of
       Inl e \<Rightarrow> (s0, Inl e)
     | Inr a1 \<Rightarrow>
        (case ensure_workspace_root_free (ac_root a1) (ac_id a1) s0 of
           (s, Some e) \<Rightarrow> (s, Inl e)
         | (s, None) \<Rightarrow>
            (let siblings = length (filter (\<lambda>r. ac_harness r = ac_harness a1 \<and> ac_default r) (at_rows s));
                 a = (if \<not> ac_default a1 \<and> siblings = 0 then a1\<lparr>ac_default := True\<rparr> else a1);
                 cleared = (if ac_default a then clear_defaults (\<lambda>r. ac_harness r = ac_harness a) (at_rows s) else at_rows s);
                 taken = list_ex (\<lambda>r. ac_id r = ac_id a \<or> ac_root r = ac_root a) (at_rows s)
             in (case statements (if ac_default a then 4 else 3) s of
                   (s', Some e) \<Rightarrow> (s', Inl e)
                 | (s', None) \<Rightarrow>
                     if taken then (s', Inl AccountKeyTaken)
                     else (case account_call s' of
                             (s'', Some e) \<Rightarrow> (s'', Inl e)
                           | (s'', None) \<Rightarrow> (s''\<lparr>at_rows := cleared @ [row_of_account up a]\<rparr>, Inr a))))))"

record account_patch =
  pt_harness :: "string option"
  pt_vendor :: "string option"
  pt_label :: "string option"
  pt_api_key :: "string option"
  pt_base_url :: "string option"
  pt_model :: "string option"
  pt_root :: "string option"
  pt_repos :: "string list option"
  pt_git_token :: "string option"
  pt_enabled :: "bool option"
  pt_default :: "bool option"

definition patched :: "'x option \<Rightarrow> 'x \<Rightarrow> 'x" where
  "patched p x = (case p of None \<Rightarrow> x | Some y \<Rightarrow> y)"

definition apply_patch :: "account_patch \<Rightarrow> account \<Rightarrow> account" where
  "apply_patch p a =
    a\<lparr>ac_harness := patched (pt_harness p) (ac_harness a), ac_vendor := patched (pt_vendor p) (ac_vendor a),
      ac_label := patched (pt_label p) (ac_label a), ac_api_key := patched (pt_api_key p) (ac_api_key a),
      ac_base_url := patched (pt_base_url p) (ac_base_url a), ac_model := patched (pt_model p) (ac_model a),
      ac_root := patched (pt_root p) (ac_root a), ac_repos := patched (pt_repos p) (ac_repos a),
      ac_git_token := patched (pt_git_token p) (ac_git_token a), ac_enabled := patched (pt_enabled p) (ac_enabled a),
      ac_default := patched (pt_default p) (ac_default a)\<rparr>"

definition update_account ::
  "url_path \<Rightarrow> string \<Rightarrow> nat \<Rightarrow> string \<Rightarrow> account_patch \<Rightarrow> account_table \<Rightarrow> account_table \<times> (account_error + account)" where
  "update_account up fresh now i patch s0 =
    (case get_account up i s0 of
       (s1, Inl e) \<Rightarrow> (s1, Inl e)
     | (s1, Inr None) \<Rightarrow> (s1, Inl (AccountNotFound (trim i)))
     | (s1, Inr (Some current)) \<Rightarrow>
        (case normalize_account up fresh now (apply_patch patch current) of
           Inl e \<Rightarrow> (s1, Inl e)
         | Inr next0 \<Rightarrow>
            (case ensure_workspace_root_free (ac_root next0) (ac_id next0) s1 of
               (s, Some e) \<Rightarrow> (s, Inl e)
             | (s, None) \<Rightarrow>
                (let nxt = next0\<lparr>ac_created := ac_created current\<rparr>;
                     cleared = (if ac_default nxt
                                then clear_defaults (\<lambda>r. ac_harness r = ac_harness nxt \<and> ac_id r \<noteq> ac_id nxt) (at_rows s)
                                else at_rows s);
                     row = row_of_account up nxt;
                     taken = list_ex (\<lambda>r. ac_id r \<noteq> ac_id nxt \<and> ac_root r = ac_root nxt) (at_rows s)
                 in (case statements (if ac_default nxt then 3 else 2) s of
                       (s', Some e) \<Rightarrow> (s', Inl e)
                     | (s', None) \<Rightarrow>
                         if taken then (s', Inl AccountKeyTaken)
                         else (case account_call s' of
                                 (s'', Some e) \<Rightarrow> (s'', Inl e)
                               | (s'', None) \<Rightarrow>
                                   (s''\<lparr>at_rows := map (\<lambda>r. if ac_id r = ac_id nxt then row\<lparr>ac_created := ac_created r\<rparr> else r) cleared\<rparr>,
                                    Inr nxt)))))))"

definition delete_account :: "string \<Rightarrow> account_table \<Rightarrow> account_table \<times> account_error option" where
  "delete_account i s =
    (case account_call s of
       (s', Some e) \<Rightarrow> (s', Some e)
     | (s', None) \<Rightarrow> (s'\<lparr>at_rows := filter (\<lambda>r. ac_id r \<noteq> trim i) (at_rows s')\<rparr>, None))"

section \<open>The pool's doors\<close>

text \<open>What a door takes: the texts of a form, with the empty text for \<open>leave it\<close> on an edit.\<close>

record account_input =
  ai_harness :: string
  ai_vendor :: string
  ai_label :: string
  ai_api_key :: string
  ai_base_url :: string
  ai_model :: string
  ai_root :: string
  ai_repos :: "string list option"
  ai_git_token :: string
  ai_enabled :: "bool option"
  ai_default :: "bool option"

record account_view =
  av_account :: account
  av_key :: string
  av_has_key :: bool
  av_token :: string
  av_has_token :: bool

definition view_account :: "account \<Rightarrow> account_view" where
  "view_account a =
    \<lparr>av_account = a, av_key = mask_api_key (ac_api_key a), av_has_key = (trim (ac_api_key a) \<noteq> []),
     av_token = mask_api_key (ac_git_token a), av_has_token = (trim (ac_git_token a) \<noteq> [])\<rparr>"

definition add_account ::
  "url_path \<Rightarrow> string \<Rightarrow> nat \<Rightarrow> account_input \<Rightarrow> account_table \<Rightarrow> account_table \<times> (account_error + account_view)" where
  "add_account up fresh now inp s =
    (case create_account up fresh now
       \<lparr>ac_id = [], ac_harness = ai_harness inp, ac_vendor = ai_vendor inp, ac_label = ai_label inp,
        ac_api_key = ai_api_key inp, ac_base_url = ai_base_url inp, ac_model = ai_model inp, ac_root = ai_root inp,
        ac_repos = patched (ai_repos inp) [], ac_git_token = ai_git_token inp,
        ac_enabled = patched (ai_enabled inp) True, ac_default = patched (ai_default inp) False, ac_created = 0\<rparr> s of
       (s', Inl e) \<Rightarrow> (s', Inl e)
     | (s', Inr a) \<Rightarrow> (s', Inr (view_account a)))"

definition edited :: "string \<Rightarrow> string option" where
  "edited v = (if v = [] then None else Some v)"

definition edit_account ::
  "url_path \<Rightarrow> string \<Rightarrow> nat \<Rightarrow> string \<Rightarrow> account_input \<Rightarrow> account_table \<Rightarrow> account_table \<times> (account_error + account_view)" where
  "edit_account up fresh now i inp s =
    (case update_account up fresh now i
       \<lparr>pt_harness = edited (ai_harness inp), pt_vendor = edited (ai_vendor inp), pt_label = edited (ai_label inp),
        pt_api_key = edited (ai_api_key inp), pt_base_url = edited (ai_base_url inp), pt_model = edited (ai_model inp),
        pt_root = edited (ai_root inp), pt_repos = ai_repos inp, pt_git_token = edited (ai_git_token inp),
        pt_enabled = ai_enabled inp, pt_default = ai_default inp\<rparr> s of
       (s', Inl e) \<Rightarrow> (s', Inl e)
     | (s', Inr a) \<Rightarrow> (s', Inr (view_account a)))"

definition account_views ::
  "url_path \<Rightarrow> account_filter \<Rightarrow> account_table \<Rightarrow> account_table \<times> (account_error + account_view list)" where
  "account_views up f s =
    (case list_accounts up f s of (s', Inl e) \<Rightarrow> (s', Inl e) | (s', Inr as) \<Rightarrow> (s', Inr (map view_account as)))"

definition default_account ::
  "url_path \<Rightarrow> string \<Rightarrow> account_table \<Rightarrow> account_table \<times> (account_error + account option)" where
  "default_account up backend s =
    (case list_accounts up \<lparr>af_harness = backend, af_vendor = [], af_enabled = Some True\<rparr> s of
       (s', Inl e) \<Rightarrow> (s', Inl e)
     | (s', Inr pool) \<Rightarrow>
         (s', Inr (case find ac_default pool of
                     Some a \<Rightarrow> Some a
                   | None \<Rightarrow> (case pool of [] \<Rightarrow> None | a # _ \<Rightarrow> Some a))))"

end
