(* ===== verification/Agents.thy ===== *)
theory Agents
  imports Run_Loop Accounts
begin

text \<open>
  The agents (src/agent.go, src/agent_init.go, src/agent_resume.go, the agent statements of
  src/db/sqlite_store.go and src/db/sqlite_query.go): an agent, its row, the factory that holds the
  agents of this process, and how a task finds the agent it is paired with.

  The factory's map is the list of its agents, each under its name.  A loop over the map takes the
  agents in the list's order; what is proved of \<open>for_task\<close> does not depend on it.  A task an agent
  holds is named by its id.  The directory an agent is given is the argument \<open>wd\<close>: the file system
  answers with it.  The provider session and the prompts sent on it are not modelled.
\<close>

section \<open>Agents\<close>

definition lifecycle_ephemeral :: string where "lifecycle_ephemeral = ''ephemeral''"
definition lifecycle_persistent :: string where "lifecycle_persistent = ''persistent''"
definition role_planner :: string where "role_planner = ''planner''"
definition role_worker :: string where "role_worker = ''worker''"
definition state_running :: string where "state_running = ''running''"
definition state_idle :: string where "state_idle = ''idle''"
definition backend_local :: string where "backend_local = ''local''"

lemmas agent_words = lifecycle_ephemeral_def lifecycle_persistent_def role_planner_def role_worker_def
  state_running_def state_idle_def backend_local_def

text \<open>What an agent is allowed to be run on; the delegating agent is passed beside it.\<close>

record runtime_policy =
  rp_backend :: string
  rp_model :: string
  rp_extends :: "bool option"

text \<open>The credentials of the account an agent runs on.\<close>

record creds =
  cr_harness :: string
  cr_vendor :: string
  cr_api_key :: string
  cr_base_url :: string
  cr_model :: string
  cr_git_token :: string
  cr_git_repos :: "string list"

definition no_creds :: creds where
  "no_creds = \<lparr>cr_harness = [], cr_vendor = [], cr_api_key = [], cr_base_url = [], cr_model = [], cr_git_token = [],
     cr_git_repos = []\<rparr>"

record agent =
  ag_id :: nat
  ag_name :: string
  ag_state :: string
  ag_lifecycle :: string
  ag_backend :: string
  ag_provider :: string
  ag_model :: string
  ag_account :: string
  ag_label :: string
  ag_creds :: creds
  ag_workspace :: string
  ag_workspace_chosen :: bool
  ag_deleted :: bool
  ag_role :: string
  ag_purpose :: string
  ag_policy :: runtime_policy
  ag_prompt :: string
  ag_requires :: bool
  ag_pending :: "(decision \<times> nat \<times> step_plan_row list) option"
  ag_approved :: bool
  ag_task :: "string option"
  ag_context :: string
  ag_llm_agent :: string
  ag_frame_sent :: bool
  ag_role_prompt :: string
  ag_session_round :: int
  ag_llm :: bool

definition zero_agent :: agent where
  "zero_agent =
    \<lparr>ag_id = 0, ag_name = [], ag_state = [], ag_lifecycle = [], ag_backend = [], ag_provider = [], ag_model = [],
     ag_account = [], ag_label = [], ag_creds = no_creds, ag_workspace = [], ag_workspace_chosen = False, ag_deleted = False, ag_role = [], ag_purpose = [],
     ag_policy = \<lparr>rp_backend = [], rp_model = [], rp_extends = None\<rparr>, ag_prompt = [], ag_requires = False,
     ag_pending = None, ag_approved = False, ag_task = None, ag_context = [], ag_llm_agent = [], ag_frame_sent = False, ag_role_prompt = [],
     ag_session_round = 0, ag_llm = False\<rparr>"

definition is_ephemeral :: "agent \<Rightarrow> bool" where
  "is_ephemeral a \<longleftrightarrow> ag_lifecycle a = [] \<or> ag_lifecycle a = lifecycle_ephemeral"

definition is_running :: "agent \<Rightarrow> bool" where
  "is_running a \<longleftrightarrow> ag_state a = state_running"

text \<open>The agent a run of the decision loop works with.\<close>

definition planner_of :: "agent \<Rightarrow> planner" where
  "planner_of a =
    \<lparr>pa_id = ag_id a, pa_name = ag_name a, pa_task = ag_task a, pa_session = False, pa_requires = ag_requires a,
     pa_pending = ag_pending a, pa_approved = ag_approved a\<rparr>"

section \<open>The rows\<close>

record agent_row =
  gr_id :: nat
  gr_name :: string
  gr_state :: string
  gr_lifecycle :: string
  gr_task :: string
  gr_context :: string
  gr_llm_agent :: string
  gr_provider :: string
  gr_model :: string
  gr_account :: string
  gr_deleted :: bool

text \<open>\<open>gt_seq\<close> is the last id handed out.\<close>

record agent_table =
  gt_rows :: "agent_row list"
  gt_seq :: nat
  gt_faults :: "string option list"

datatype agent_error = EmptyAgentID | AgentDbFault string | AgentTaskRead task_error | NoFactory | AdoptFailed nat

definition agent_call :: "agent_table \<Rightarrow> agent_table \<times> agent_error option" where
  "agent_call s =
    (case gt_faults s of [] \<Rightarrow> (s, None) | f # fs \<Rightarrow> (s\<lparr>gt_faults := fs\<rparr>, map_option AgentDbFault f))"

definition row_of_agent :: "agent \<Rightarrow> agent_row" where
  "row_of_agent a =
    \<lparr>gr_id = ag_id a, gr_name = ag_name a, gr_state = ag_state a,
     gr_lifecycle = (if ag_lifecycle a = [] then lifecycle_ephemeral else ag_lifecycle a),
     gr_task = (case ag_task a of None \<Rightarrow> [] | Some t \<Rightarrow> t), gr_context = ag_context a, gr_llm_agent = ag_llm_agent a,
     gr_provider = ag_provider a, gr_model = ag_model a, gr_account = ag_account a, gr_deleted = False\<rparr>"

definition scan_agent :: "agent_row \<Rightarrow> agent" where
  "scan_agent r =
    zero_agent\<lparr>ag_id := gr_id r, ag_name := gr_name r, ag_state := gr_state r, ag_lifecycle := gr_lifecycle r,
      ag_task := (if gr_task r = [] then None else Some (gr_task r)), ag_context := gr_context r,
      ag_llm_agent := gr_llm_agent r, ag_provider := gr_provider r, ag_model := gr_model r,
      ag_account := gr_account r, ag_deleted := gr_deleted r\<rparr>"

definition agent_name_for :: "nat \<Rightarrow> string" where
  "agent_name_for i = ''agent-'' @ show_nat i"

fun replace_agent_row :: "agent_row \<Rightarrow> agent_row list \<Rightarrow> agent_row list" where
  "replace_agent_row r [] = [r]"
| "replace_agent_row r (q # qs) = (if gr_id q = gr_id r then r # qs else q # replace_agent_row r qs)"

text \<open>
  A new agent is inserted without a name, under the id the table hands out, and named after it; any
  other write replaces the agent's row, which is then not deleted any more.
\<close>

definition upsert_agent :: "agent \<Rightarrow> agent_table \<Rightarrow> agent_table \<times> agent \<times> agent_error option" where
  "upsert_agent a s =
    (if ag_id a = 0 then
       (case agent_call s of
          (s', Some e) \<Rightarrow> (s', a, Some e)
        | (s', None) \<Rightarrow>
            (let i = Suc (gt_seq s'); a' = a\<lparr>ag_id := i, ag_name := agent_name_for i\<rparr>;
                 r = (row_of_agent a')\<lparr>gr_name := []\<rparr>;
                 s1 = s'\<lparr>gt_rows := gt_rows s' @ [r], gt_seq := i\<rparr>
             in (case agent_call s1 of
                   (s2, Some e) \<Rightarrow> (s2, a', Some e)
                 | (s2, None) \<Rightarrow>
                     (s2\<lparr>gt_rows := map (\<lambda>q. if gr_id q = i then q\<lparr>gr_name := ag_name a'\<rparr> else q) (gt_rows s2)\<rparr>, a', None))))
     else
       (case agent_call s of
          (s', Some e) \<Rightarrow> (s', a, Some e)
        | (s', None) \<Rightarrow>
            (s'\<lparr>gt_rows := replace_agent_row (row_of_agent a) (gt_rows s'), gt_seq := max (gt_seq s') (ag_id a)\<rparr>, a, None)))"

definition get_agent :: "nat \<Rightarrow> agent_table \<Rightarrow> agent_table \<times> (agent_error + agent option)" where
  "get_agent i s =
    (if i = 0 then (s, Inl EmptyAgentID)
     else (case agent_call s of
             (s', Some e) \<Rightarrow> (s', Inl e)
           | (s', None) \<Rightarrow> (s', Inr (map_option scan_agent (find (\<lambda>r. gr_id r = i) (gt_rows s'))))))"

definition list_agents :: "agent_table \<Rightarrow> agent_table \<times> (agent_error + agent list)" where
  "list_agents s =
    (case agent_call s of
       (s', Some e) \<Rightarrow> (s', Inl e)
     | (s', None) \<Rightarrow> (s', Inr (map scan_agent (gt_rows s'))))"

definition soft_delete_agent :: "nat \<Rightarrow> agent_table \<Rightarrow> agent_table \<times> agent_error option" where
  "soft_delete_agent i s =
    (case agent_call s of
       (s', Some e) \<Rightarrow> (s', Some e)
     | (s', None) \<Rightarrow>
         (s'\<lparr>gt_rows := map (\<lambda>r. if gr_id r = i \<and> \<not> gr_deleted r
                                then r\<lparr>gr_deleted := True, gr_state := ''deleted''\<rparr> else r) (gt_rows s')\<rparr>, None))"

section \<open>The factory\<close>

text \<open>The agents of this process beside the tables they are recorded in; \<open>NewAgentFactory\<close>.\<close>

record office =
  of_agents :: "agent list"
  of_next :: nat
  of_rows :: "agent_table option"
  of_tasks :: "task_table option"

definition new_agent_factory :: "agent_table option \<Rightarrow> task_table option \<Rightarrow> office" where
  "new_agent_factory rows tasks = \<lparr>of_agents = [], of_next = 9999, of_rows = rows, of_tasks = tasks\<rparr>"

definition persist_agent :: "agent \<Rightarrow> office \<Rightarrow> office \<times> agent" where
  "persist_agent a w =
    (case of_rows w of
       None \<Rightarrow> (w, a)
     | Some s \<Rightarrow> (case upsert_agent a s of (s', a', _) \<Rightarrow> (w\<lparr>of_rows := Some s'\<rparr>, a')))"

definition office_persist_task :: "task \<Rightarrow> office \<Rightarrow> office" where
  "office_persist_task t w = w\<lparr>of_tasks := persist_task t (of_tasks w)\<rparr>"

definition factory_get :: "string \<Rightarrow> office \<Rightarrow> agent option" where
  "factory_get n w = find (\<lambda>a. ag_name a = n) (of_agents w)"

definition factory_delete :: "string \<Rightarrow> office \<Rightarrow> office" where
  "factory_delete n w = w\<lparr>of_agents := filter (\<lambda>a. ag_name a \<noteq> n) (of_agents w)\<rparr>"

text \<open>The handle of a held agent changes.\<close>

definition put_agent :: "agent \<Rightarrow> office \<Rightarrow> office" where
  "put_agent a w = w\<lparr>of_agents := map (\<lambda>b. if ag_name b = ag_name a then a else b) (of_agents w)\<rparr>"

definition number_agent :: "agent \<Rightarrow> office \<Rightarrow> office \<times> agent" where
  "number_agent a w =
    (if ag_id a = 0 then (w\<lparr>of_next := Suc (of_next w)\<rparr>, a\<lparr>ag_id := Suc (of_next w)\<rparr>) else (w, a))"

definition name_agent :: "agent \<Rightarrow> agent" where
  "name_agent a = (if ag_name a = [] then a\<lparr>ag_name := agent_name_for (ag_id a)\<rparr> else a)"

definition new_agent :: "(string \<Rightarrow> string) \<Rightarrow> office \<Rightarrow> office \<times> agent" where
  "new_agent wd w0 =
    (case persist_agent (zero_agent\<lparr>ag_state := state_idle, ag_lifecycle := lifecycle_persistent, ag_backend := backend_local\<rparr>) w0 of
       (w1, a1) \<Rightarrow>
         (case number_agent a1 w1 of
            (w2, a2) \<Rightarrow>
              (let a3 = name_agent a2
               in (case factory_get (ag_name a3) w2 of
                     Some b \<Rightarrow> (w2, b)
                   | None \<Rightarrow>
                       (let a4 = a3\<lparr>ag_workspace := wd (ag_name a3)\<rparr>
                        in (w2\<lparr>of_agents := of_agents w2 @ [a4]\<rparr>, a4))))))"

text \<open>A task is paired with an agent: both rows are written.\<close>

definition pair_task :: "agent \<Rightarrow> task \<Rightarrow> office \<Rightarrow> office \<times> agent \<times> task" where
  "pair_task a t w =
    (let a' = a\<lparr>ag_task := Some (tk_id t)\<rparr>; t' = t\<lparr>tk_agent := ag_id a\<rparr>;
         (w', a'') = persist_agent a' (office_persist_task t' (put_agent a' w))
     in (w', a'', t'))"

definition create_agent :: "(string \<Rightarrow> string) \<Rightarrow> task option \<Rightarrow> office \<Rightarrow> office \<times> agent \<times> task option" where
  "create_agent wd t w =
    (case new_agent wd w of
       (w1, a1) \<Rightarrow>
         (let a = a1\<lparr>ag_role := role_planner\<rparr>
          in (case t of
                None \<Rightarrow> (put_agent a w1, a, None)
              | Some t \<Rightarrow> (case pair_task a t w1 of (w2, a2, t2) \<Rightarrow> (w2, a2, Some t2)))))"

definition plans_for :: "string \<Rightarrow> agent \<Rightarrow> bool" where
  "plans_for t a \<longleftrightarrow> ag_role a = role_planner \<and> ag_task a = Some t"

definition for_task :: "string \<Rightarrow> office \<Rightarrow> agent option" where
  "for_task t w = (if trim t = [] then None else find (plans_for (trim t)) (of_agents w))"

text \<open>The idle specialist with the lowest id.\<close>

definition idle_for :: "string \<Rightarrow> string \<Rightarrow> string \<Rightarrow> agent \<Rightarrow> bool" where
  "idle_for t purpose ws a \<longleftrightarrow>
    ag_role a = role_worker \<and> \<not> is_ephemeral a \<and> \<not> is_running a \<and> trim (ag_purpose a) = purpose \<and>
    ag_task a = Some t \<and> (ws = [] \<or> trim (ag_workspace a) = ws)"

definition lower_id :: "agent option \<Rightarrow> agent \<Rightarrow> agent option" where
  "lower_id best a = (case best of None \<Rightarrow> Some a | Some b \<Rightarrow> if ag_id a < ag_id b then Some a else Some b)"

definition idle_worker :: "string \<Rightarrow> string \<Rightarrow> string \<Rightarrow> office \<Rightarrow> agent option" where
  "idle_worker t purpose ws w =
    (if trim t = [] \<or> trim purpose = [] then None
     else foldl lower_id None (filter (idle_for (trim t) (trim purpose) (trim ws)) (of_agents w)))"

definition for_initialization :: "office \<Rightarrow> agent option" where
  "for_initialization w = find (\<lambda>a. ag_task a = None \<and> ag_role a = role_planner) (of_agents w)"

definition adopt :: "(string \<Rightarrow> string) \<Rightarrow> agent \<Rightarrow> office \<Rightarrow> office \<times> agent" where
  "adopt wd a0 w =
    (let a = name_agent a0
     in (case factory_get (ag_name a) w of
           Some b \<Rightarrow> (w, b)
         | None \<Rightarrow>
             (let a' = (if ag_workspace a = [] then a\<lparr>ag_workspace := wd (ag_name a)\<rparr> else a)
              in (w\<lparr>of_agents := of_agents w @ [a']\<rparr>, a'))))"

definition set_agent_state :: "string \<Rightarrow> agent \<Rightarrow> office \<Rightarrow> office \<times> agent" where
  "set_agent_state st a w =
    (let a' = a\<lparr>ag_state := st\<rparr> in persist_agent a' (put_agent a' w))"

definition start_agent :: "agent \<Rightarrow> office \<Rightarrow> office \<times> agent" where
  "start_agent = set_agent_state state_running"

definition stop_agent :: "agent \<Rightarrow> office \<Rightarrow> office \<times> agent" where
  "stop_agent = set_agent_state state_idle"

text \<open>The end of an agent: a throwaway one is deleted, any other keeps its row and its handle.\<close>

definition close_agent :: "agent \<Rightarrow> office \<Rightarrow> office" where
  "close_agent a w =
    (case stop_agent a w of
       (w1, a1) \<Rightarrow>
         if is_ephemeral a1
         then factory_delete (ag_name a1) (w1\<lparr>of_rows := map_option (\<lambda>s. fst (soft_delete_agent (ag_id a1) s)) (of_rows w1)\<rparr>)
         else fst (persist_agent a1 w1))"

section \<open>Initialisation\<close>

record init_options =
  io_role :: string
  io_purpose :: string
  io_workspace :: string
  io_model :: string
  io_prompt :: string
  io_requires :: bool

definition initialized :: "init_options \<Rightarrow> agent \<Rightarrow> agent" where
  "initialized opts a =
    (let a1 = a\<lparr>ag_role := (if trim (io_role opts) = [] then role_planner else io_role opts),
                ag_purpose := trim (io_purpose opts)\<rparr>;
         a2 = (if trim (io_workspace opts) = [] then a1 else a1\<lparr>ag_workspace := trim (io_workspace opts)\<rparr>);
         a3 = (if trim (io_model opts) = [] then a2
               else a2\<lparr>ag_policy := (ag_policy a2)\<lparr>rp_model := trim (io_model opts)\<rparr>, ag_model := trim (io_model opts)\<rparr>)
     in a3\<lparr>ag_prompt := trim (io_prompt opts)\<rparr>)"

definition initialize :: "(string \<Rightarrow> string) \<Rightarrow> init_options \<Rightarrow> office \<Rightarrow> office \<times> agent" where
  "initialize wd opts w =
    (case new_agent wd w of
       (w1, a1) \<Rightarrow>
         (case persist_agent (initialized opts a1) (put_agent (initialized opts a1) w1) of
            (w2, a2) \<Rightarrow>
              (let a3 = a2\<lparr>ag_requires := io_requires opts\<rparr> in persist_agent a3 (put_agent a3 w2))))"

section \<open>The agent a task is continued by\<close>

definition restored_agent :: "agent \<Rightarrow> task \<Rightarrow> agent" where
  "restored_agent stored t =
    zero_agent\<lparr>ag_id := ag_id stored, ag_name := ag_name stored, ag_state := state_idle,
      ag_lifecycle := lifecycle_persistent, ag_provider := ag_provider stored, ag_model := ag_model stored,
      ag_llm_agent := ag_llm_agent stored, ag_task := Some (tk_id t), ag_role := role_planner\<rparr>"

definition stored_agent_for_task :: "task \<Rightarrow> office \<Rightarrow> office \<times> (agent_error + agent option)" where
  "stored_agent_for_task t w =
    (case of_rows w of
       None \<Rightarrow> (w, Inr None)
     | Some rows \<Rightarrow>
        if trim (tk_id t) = [] then (w, Inr None)
        else
          (case (if tk_agent t \<noteq> 0 then (w, Inr (tk_agent t))
                 else (case of_tasks w of
                         None \<Rightarrow> (w, Inr 0)
                       | Some ts \<Rightarrow>
                           (case get_task (tk_id t) ts of
                              (ts', Inl e) \<Rightarrow> (w\<lparr>of_tasks := Some ts'\<rparr>, Inl (AgentTaskRead e))
                            | (ts', Inr None) \<Rightarrow> (w\<lparr>of_tasks := Some ts'\<rparr>, Inr 0)
                            | (ts', Inr (Some row)) \<Rightarrow> (w\<lparr>of_tasks := Some ts'\<rparr>, Inr (tk_agent row))))) of
             (w1, Inl e) \<Rightarrow> (w1, Inl e)
           | (w1, Inr i) \<Rightarrow>
               if i = 0 then (w1, Inr None)
               else (case get_agent i rows of
                       (rows', Inl e) \<Rightarrow> (w1\<lparr>of_rows := Some rows'\<rparr>, Inl e)
                     | (rows', Inr None) \<Rightarrow> (w1\<lparr>of_rows := Some rows'\<rparr>, Inr None)
                     | (rows', Inr (Some a)) \<Rightarrow>
                         (w1\<lparr>of_rows := Some rows'\<rparr>, Inr (if ag_deleted a then None else Some a)))))"

definition resume_agent_for_task ::
  "(string \<Rightarrow> string) \<Rightarrow> task \<Rightarrow> office \<Rightarrow> office \<times> task \<times> (agent_error + agent)" where
  "resume_agent_for_task wd t w =
    (case for_task (tk_id t) w of
       Some a \<Rightarrow> (let a' = a\<lparr>ag_task := Some (tk_id t)\<rparr> in (put_agent a' w, t, Inr a'))
     | None \<Rightarrow>
        (case stored_agent_for_task t w of
           (w1, Inl e) \<Rightarrow> (w1, t, Inl e)
         | (w1, Inr None) \<Rightarrow>
             (case for_initialization w1 of
                Some a \<Rightarrow> (case pair_task a t w1 of (w2, a2, t2) \<Rightarrow> (w2, t2, Inr a2))
              | None \<Rightarrow>
                  (case create_agent wd (Some t) w1 of (w2, a2, t2) \<Rightarrow> (w2, the t2, Inr a2)))
         | (w1, Inr (Some stored)) \<Rightarrow>
             (let t' = t\<lparr>tk_agent := ag_id stored\<rparr>
              in (case adopt wd (restored_agent stored t') w1 of (w2, a) \<Rightarrow> (w2, t', Inr a)))))"

end
