(* ===== verification/Graceful.thy ===== *)
theory Graceful
  imports Message_Run Agents
begin

text \<open>
  The graceful restart (src/graceful.go): the drain a restart notice begins, what the platform is
  told, the shutdown, and the runs a new process picks up.

  Times are counted in an unspecified unit.  \<open>pd\<close> is \<open>time.ParseDuration\<close>: nothing is assumed of
  it.  While the shutdown waits, the runs in flight go on: one tick of that is the argument \<open>tick\<close>,
  and the grace of the shutdown is a number of ticks.  When a message was started and created is
  the argument \<open>at\<close>, with 0 for a time that was not set.
\<close>

section \<open>The drain\<close>

record restart_notice =
  rs_service :: string
  rs_request :: string
  rs_deployment :: string
  rs_version :: string
  rs_message :: string

definition no_notice :: restart_notice where
  "no_notice = \<lparr>rs_service = [], rs_request = [], rs_deployment = [], rs_version = [], rs_message = []\<rparr>"

definition default_drain_timeout :: int where "default_drain_timeout = 600000"
definition default_shutdown_grace :: int where "default_shutdown_grace = 10000"
definition default_resume_max_age :: int where "default_resume_max_age = 86400000"

definition drain_timeout :: "(string \<Rightarrow> int option) \<Rightarrow> string \<Rightarrow> int" where
  "drain_timeout pd env =
    (if trim env = [] then default_drain_timeout
     else (case pd (trim env) of None \<Rightarrow> default_drain_timeout | Some d \<Rightarrow> d))"

definition shutdown_grace :: "(string \<Rightarrow> int option) \<Rightarrow> string \<Rightarrow> int" where
  "shutdown_grace pd env =
    (if trim env = [] then default_shutdown_grace
     else (case pd (trim env) of None \<Rightarrow> default_shutdown_grace | Some d \<Rightarrow> if d < 0 then 0 else d))"

definition resume_max_age :: "(string \<Rightarrow> int option) \<Rightarrow> string \<Rightarrow> int" where
  "resume_max_age pd env =
    (if trim env = [] then default_resume_max_age
     else (case pd (trim env) of None \<Rightarrow> default_resume_max_age | Some d \<Rightarrow> if d \<le> 0 then 0 else d))"

text \<open>\<open>dr_armed\<close> says that the timer of the drain is set.\<close>

record drain =
  dr_active :: bool
  dr_notice :: restart_notice
  dr_began :: int
  dr_timeout :: int
  dr_armed :: bool

definition new_restart_drain :: "int \<Rightarrow> drain" where
  "new_restart_drain timeout =
    \<lparr>dr_active = False, dr_notice = no_notice, dr_began = 0, dr_timeout = timeout, dr_armed = False\<rparr>"

definition drain_begin :: "restart_notice \<Rightarrow> bool \<Rightarrow> int \<Rightarrow> drain \<Rightarrow> drain" where
  "drain_begin n wait_for_platform now d =
    d\<lparr>dr_active := True, dr_notice := n, dr_began := now, dr_armed := (wait_for_platform \<and> dr_timeout d > 0)\<rparr>"

text \<open>The answer says whether the held agents are resumed.\<close>

definition drain_finish :: "drain \<Rightarrow> drain \<times> bool" where
  "drain_finish d = (if \<not> dr_active d then (d, False) else (d\<lparr>dr_active := False, dr_armed := False\<rparr>, True))"

text \<open>The timer fires only while it is set.\<close>

definition drain_expire :: "drain \<Rightarrow> drain \<times> bool" where
  "drain_expire d = (if dr_armed d then drain_finish (d\<lparr>dr_armed := False\<rparr>) else (d, False))"

definition drain_stop :: "drain \<Rightarrow> drain" where
  "drain_stop d = d\<lparr>dr_active := False, dr_armed := False\<rparr>"

definition drain_paused :: "drain option \<Rightarrow> bool" where
  "drain_paused d = (case d of None \<Rightarrow> False | Some d \<Rightarrow> dr_active d)"

definition drain_current :: "drain option \<Rightarrow> restart_notice" where
  "drain_current d = (case d of None \<Rightarrow> no_notice | Some d \<Rightarrow> dr_notice d)"

section \<open>What the platform is told\<close>

record restart_status =
  ss_can_restart :: bool
  ss_can_deploy :: bool
  ss_ready :: bool
  ss_draining :: bool
  ss_running :: nat
  ss_tasks :: "string list"
  ss_held :: nat
  ss_reason :: string
  ss_notice :: "restart_notice option"
  ss_notified :: "int option"
  ss_deadline :: "int option"

definition running_task_ids :: "string list \<Rightarrow> string list" where
  "running_task_ids inflight = sort (remdups (filter (\<lambda>i. trim i \<noteq> []) inflight))"

definition drain_fill :: "drain option \<Rightarrow> restart_status \<Rightarrow> restart_status" where
  "drain_fill d st =
    (case d of None \<Rightarrow> st
     | Some d \<Rightarrow>
         if \<not> dr_active d then st\<lparr>ss_draining := False\<rparr>
         else st\<lparr>ss_draining := True, ss_notice := Some (dr_notice d), ss_notified := Some (dr_began d),
                ss_deadline := (if dr_timeout d > 0 then Some (dr_began d + dr_timeout d) else ss_deadline st)\<rparr>)"

definition restart_reason :: "restart_status \<Rightarrow> string" where
  "restart_reason st =
    (if ss_running st > 0 then
       (if ss_draining st then show_nat (ss_running st) @ '' run(s) in flight; new instructions are held until the restart''
        else show_nat (ss_running st) @ '' run(s) in flight'')
     else if ss_draining st then
       (if ss_held st > 0 then ''no run in flight; '' @ show_nat (ss_held st) @ '' held instruction(s) start in the next process''
        else ''no run in flight; safe to restart'')
     else ''no run in flight; restart not announced'')"

definition restart_status :: "drain option \<Rightarrow> string list \<Rightarrow> nat \<Rightarrow> restart_status" where
  "restart_status d inflight held =
    (let tasks = running_task_ids inflight;
         st = drain_fill d
           \<lparr>ss_can_restart = False, ss_can_deploy = False, ss_ready = False, ss_draining = False, ss_running = length tasks,
            ss_tasks = tasks, ss_held = held, ss_reason = [], ss_notice = None, ss_notified = None, ss_deadline = None\<rparr>;
         can = (ss_running st = 0);
         st' = st\<lparr>ss_can_restart := can, ss_can_deploy := can, ss_ready := can\<rparr>
     in st'\<lparr>ss_reason := restart_reason st'\<rparr>)"

definition restart_notify :: "restart_notice \<Rightarrow> int \<Rightarrow> drain \<Rightarrow> string list \<Rightarrow> nat \<Rightarrow> drain \<times> restart_status" where
  "restart_notify n now d inflight held =
    (let d' = drain_begin n True now d in (d', restart_status (Some d') inflight held))"

section \<open>The shutdown\<close>

fun first_non_empty :: "string list \<Rightarrow> string" where
  "first_non_empty [] = []"
| "first_non_empty (v # vs) = (if trim v \<noteq> [] then v else first_non_empty vs)"

text \<open>The wait ends when no run is in flight, or when the grace is used up.\<close>

fun wait_for_idle_runs :: "('w app \<Rightarrow> 'w app) \<Rightarrow> nat \<Rightarrow> 'w app \<Rightarrow> 'w app \<times> nat \<times> bool" where
  "wait_for_idle_runs tick grace app =
    (if running_task_ids (ap_inflight app) = [] then (app, grace, True)
     else (case grace of 0 \<Rightarrow> (app, 0, False) | Suc g \<Rightarrow> wait_for_idle_runs tick g (tick app)))"

declare wait_for_idle_runs.simps [simp del]

text \<open>Every run still in flight is stopped for the same reason; the answer counts the stops.\<close>

fun stop_tasks :: "stop_reason \<Rightarrow> string list \<Rightarrow> 'w app \<Rightarrow> 'w app \<times> nat" where
  "stop_tasks r [] app = (app, 0)"
| "stop_tasks r (t # ts) app =
    (case stop_task t r app of
       (app', Inl e) \<Rightarrow> stop_tasks r ts app'
     | (app', Inr _) \<Rightarrow> (case stop_tasks r ts app' of (app'', n) \<Rightarrow> (app'', Suc n)))"

definition shutdown_reason :: "restart_notice \<Rightarrow> stop_reason" where
  "shutdown_reason announced =
    \<lparr>sr_by = stopped_by_runtime, sr_request = trim (rs_request announced), sr_deployment = trim (rs_deployment announced),
     sr_version = trim (rs_version announced)\<rparr>"

definition shutdown_notice :: "restart_notice \<Rightarrow> restart_notice" where
  "shutdown_notice announced =
    announced\<lparr>rs_request := first_non_empty [rs_request announced, ''shutdown''], rs_message := ''autonomy is shutting down''\<rparr>"

definition shutdown :: "('w app \<Rightarrow> 'w app) \<Rightarrow> nat \<Rightarrow> int \<Rightarrow> drain \<Rightarrow> 'w app \<Rightarrow> drain \<times> 'w app" where
  "shutdown tick grace now d app =
    (let announced = dr_notice d; d' = drain_begin (shutdown_notice announced) False now d in
     case wait_for_idle_runs tick grace app of
       (app1, g, True) \<Rightarrow> (d', app1)
     | (app1, g, False) \<Rightarrow>
        (case stop_tasks (shutdown_reason announced) (running_task_ids (ap_inflight app1)) app1 of
           (app2, stopped) \<Rightarrow>
             if stopped = 0 then (d', app2) else (d', fst (wait_for_idle_runs tick g app2))))"

section \<open>What a new process picks up\<close>

definition resumable_after_cut :: "task \<Rightarrow> bool" where
  "resumable_after_cut t \<longleftrightarrow>
    tk_status t = status_pending \<or> tk_status t = status_running \<or>
    (tk_status t = status_stopped \<and> is_runtime_stop_record (Some t))"

definition cut_candidate :: "string \<Rightarrow> message \<Rightarrow> bool" where
  "cut_candidate t m \<longleftrightarrow> msg_status m = StatusRunning \<and> \<not> (t \<noteq> [] \<and> msg_task m \<noteq> [] \<and> msg_task m \<noteq> t)"

definition cut_time :: "(nat \<Rightarrow> int \<times> int) \<Rightarrow> message \<Rightarrow> int" where
  "cut_time at m = (let (started, created) = at (msg_id m) in if started = 0 then created else started)"

definition later_time :: "int option \<Rightarrow> int \<Rightarrow> int option" where
  "later_time best t = (case best of None \<Rightarrow> Some t | Some b \<Rightarrow> if b < t then Some t else Some b)"

definition interrupted_run_since ::
  "(nat \<Rightarrow> int \<times> int) \<Rightarrow> nat \<Rightarrow> string \<Rightarrow> inbox_table \<Rightarrow> inbox_table \<times> int option" where
  "interrupted_run_since at a t s =
    (case list_agent_messages a 0 s of
       (s', Inl e) \<Rightarrow> (s', None)
     | (s', Inr ms) \<Rightarrow> (s', foldl later_time None (map (cut_time at) (filter (cut_candidate t) ms))))"

definition resume_interrupted_enabled :: "string \<Rightarrow> bool" where
  "resume_interrupted_enabled env \<longleftrightarrow> to_lower (trim env) \<notin> set [''0'', ''false'', ''no'', ''off'']"

text \<open>
  The state of a booting process: the agents and their tables, the queue, and the consumers started,
  each with the task it was started for.
\<close>

record boot =
  bt_office :: office
  bt_inbox :: inbox_table
  bt_started :: "(string \<times> string) list"

definition start_for :: "(string \<Rightarrow> string) \<Rightarrow> task \<Rightarrow> boot \<Rightarrow> boot" where
  "start_for wd t b =
    (case resume_agent_for_task wd t (bt_office b) of
       (w, _, Inl e) \<Rightarrow> b\<lparr>bt_office := w\<rparr>
     | (w, _, Inr a) \<Rightarrow> b\<lparr>bt_office := w, bt_started := bt_started b @ [(tk_id t, ag_name a)]\<rparr>)"

text \<open>An instruction accepted and never started, by an agent that was not cut in a run.\<close>

definition resume_accepted :: "(string \<Rightarrow> string) \<Rightarrow> task \<Rightarrow> boot \<Rightarrow> boot" where
  "resume_accepted wd t b =
    (if tk_agent t = 0 then b
     else if tk_status t \<noteq> status_pending \<and> tk_status t \<noteq> status_running then b
     else (case count_queued_messages (tk_agent t) (bt_inbox b) of
             (s1, Inl e) \<Rightarrow> b\<lparr>bt_inbox := s1\<rparr>
           | (s1, Inr queued) \<Rightarrow>
               if queued = 0 then b\<lparr>bt_inbox := s1\<rparr>
               else (case list_agent_messages (tk_agent t) 0 s1 of
                       (s2, Inl e) \<Rightarrow> b\<lparr>bt_inbox := s2\<rparr>
                     | (s2, Inr ms) \<Rightarrow>
                         if list_ex (\<lambda>m. msg_status m = StatusRunning) ms then b\<lparr>bt_inbox := s2\<rparr>
                         else start_for wd t (b\<lparr>bt_inbox := s2\<rparr>))))"

definition resume_interrupted ::
  "(string \<Rightarrow> string) \<Rightarrow> (nat \<Rightarrow> int \<times> int) \<Rightarrow> int \<Rightarrow> int \<Rightarrow> task \<Rightarrow> boot \<Rightarrow> boot" where
  "resume_interrupted wd at now max_age t b =
    (if tk_agent t = 0 \<or> \<not> resumable_after_cut t then b
     else (case interrupted_run_since at (tk_agent t) (tk_id t) (bt_inbox b) of
             (s, None) \<Rightarrow> b\<lparr>bt_inbox := s\<rparr>
           | (s, Some cut_at) \<Rightarrow>
               if max_age > 0 \<and> now - cut_at > max_age then b\<lparr>bt_inbox := s\<rparr>
               else start_for wd t (b\<lparr>bt_inbox := s\<rparr>)))"

text \<open>Both loops read the tasks first; without an answer nothing is resumed.\<close>

definition over_tasks :: "(task \<Rightarrow> boot \<Rightarrow> boot) \<Rightarrow> boot \<Rightarrow> boot" where
  "over_tasks f b =
    (case of_tasks (bt_office b) of
       None \<Rightarrow> b
     | Some ts \<Rightarrow>
         (case list_tasks ts of
            (ts', Inl e) \<Rightarrow> b\<lparr>bt_office := (bt_office b)\<lparr>of_tasks := Some ts'\<rparr>\<rparr>
          | (ts', Inr rows) \<Rightarrow> fold f rows (b\<lparr>bt_office := (bt_office b)\<lparr>of_tasks := Some ts'\<rparr>\<rparr>)))"

definition resume_accepted_instructions :: "(string \<Rightarrow> string) \<Rightarrow> boot \<Rightarrow> boot" where
  "resume_accepted_instructions wd = over_tasks (resume_accepted wd)"

definition resume_interrupted_runs ::
  "(string \<Rightarrow> string) \<Rightarrow> (nat \<Rightarrow> int \<times> int) \<Rightarrow> int \<Rightarrow> (string \<Rightarrow> int option) \<Rightarrow> string \<Rightarrow> string \<Rightarrow> boot \<Rightarrow> boot" where
  "resume_interrupted_runs wd at now pd enabled_env age_env b =
    (if \<not> resume_interrupted_enabled enabled_env then b
     else over_tasks (resume_interrupted wd at now (resume_max_age pd age_env)) b)"

end
