(* ===== verification/Agent_Runtime.thy ===== *)
theory Agent_Runtime
  imports Agents
begin

text \<open>
  What an agent is run on (src/agent_runtime.go, src/agent_account.go, src/worker_account.go,
  src/llmbackend/backend.go): whose account it bills, on which backend and model, and how the agent
  takes the account over.  \<open>env\<close> holds the two environment variables that are read;
  \<open>md\<close> is the default model of each registered harness, and \<open>wd\<close> the directory an agent is given
  under a root.
\<close>

record runtime_env =
  en_backend :: string
  en_extends :: string

definition default_backend :: "runtime_env \<Rightarrow> string" where
  "default_backend env =
    (let w = to_lower (trim (en_backend env)) in
     if w = harness_cline \<or> w = ''cline_sdk'' then harness_cline
     else if w = harness_codex \<or> w = ''codex_sdk'' then harness_codex
     else if w = harness_claude \<or> w = ''claude_code'' then harness_claude
     else if w = harness_deepseek then harness_deepseek
     else harness_cursor)"

definition requested_backend :: "runtime_env \<Rightarrow> string \<Rightarrow> string" where
  "requested_backend env requested =
    (let b = to_lower (trim requested) in if b = [] \<or> b = harness_cursor then default_backend env else b)"

definition provider_for :: "string \<Rightarrow> string" where
  "provider_for backend = (if backend = backend_local then [] else backend)"

definition worker_extends_planner :: "runtime_env \<Rightarrow> bool option \<Rightarrow> bool" where
  "worker_extends_planner env choice =
    (case choice of
       Some b \<Rightarrow> b
     | None \<Rightarrow> to_lower (trim (en_extends env)) \<notin> set [''0'', ''off'', ''false'', ''no''])"

definition effective_backend :: "runtime_env \<Rightarrow> agent \<Rightarrow> string" where
  "effective_backend env a =
    (if ag_backend a = [] \<or> ag_backend a = backend_local then default_backend env else ag_backend a)"

section \<open>Whose account\<close>

datatype runtime_error =
    NoAccountStore
  | AccountRead account_error
  | AccountGone string string
  | AccountDisabled string string
  | EmptyPool string

datatype account_why = LocalOnly | Recorded string string | Inherited string string | PoolDefault string | PoolFirst string

type_synonym account_choice = "runtime_error + (account option \<times> account_why)"

text \<open>The recorded account, or else the pool's: its default, or its first enabled one.\<close>

definition recorded_account :: "url_path \<Rightarrow> agent \<Rightarrow> account_table \<Rightarrow> account_table \<times> account_choice" where
  "recorded_account up a s =
    (case get_account up (trim (ag_account a)) s of
       (s', Inl e) \<Rightarrow> (s', Inl (AccountRead e))
     | (s', Inr None) \<Rightarrow> (s', Inl (AccountGone (trim (ag_account a)) (ag_name a)))
     | (s', Inr (Some ac)) \<Rightarrow>
         (s', if ac_enabled ac then Inr (Some ac, Recorded (ac_id ac) (ag_name a))
              else Inl (AccountDisabled (ac_id ac) (ac_label ac))))"

definition pool_account :: "url_path \<Rightarrow> string \<Rightarrow> account_table \<Rightarrow> account_table \<times> account_choice" where
  "pool_account up harness s =
    (case list_accounts up \<lparr>af_harness = harness, af_vendor = [], af_enabled = Some True\<rparr> s of
       (s', Inl e) \<Rightarrow> (s', Inl (AccountRead e))
     | (s', Inr pool) \<Rightarrow>
         (s', case pool of
                [] \<Rightarrow> Inl (EmptyPool harness)
              | first # _ \<Rightarrow>
                  (case find ac_default pool of
                     Some ac \<Rightarrow> Inr (Some ac, PoolDefault harness)
                   | None \<Rightarrow> Inr (Some first, PoolFirst harness))))"

text \<open>
  The delegating agent is asked with an empty policy, so it delegates to nobody: \<open>own_account\<close> is
  the function for such an agent.
\<close>

definition own_account ::
  "runtime_env \<Rightarrow> url_path \<Rightarrow> agent \<Rightarrow> string \<Rightarrow> account_table option \<Rightarrow> account_table option \<times> account_choice" where
  "own_account env up a requested pool =
    (if requested_backend env requested = backend_local then (pool, Inr (None, LocalOnly))
     else (case pool of
             None \<Rightarrow> (None, Inl NoAccountStore)
           | Some s \<Rightarrow>
               if trim (ag_account a) \<noteq> [] then map_prod Some id (recorded_account up a s)
               else map_prod Some id (pool_account up (requested_backend env requested) s)))"

definition account_for_agent ::
  "runtime_env \<Rightarrow> url_path \<Rightarrow> agent \<Rightarrow> runtime_policy \<Rightarrow> agent option \<Rightarrow> account_table option
     \<Rightarrow> account_table option \<times> account_choice" where
  "account_for_agent env up a policy delegating pool =
    (case delegating of
       Some d \<Rightarrow>
         if requested_backend env (rp_backend policy) \<noteq> backend_local \<and> pool \<noteq> None \<and> trim (ag_account a) = [] \<and>
            ag_role a = role_worker \<and> worker_extends_planner env (rp_extends policy)
         then (case own_account env up d [] pool of
                 (pool', Inl e) \<Rightarrow> (pool', Inl e)
               | (pool', Inr (Some ac, _)) \<Rightarrow> (pool', Inr (Some ac, Inherited (ag_name d) (ac_id ac)))
               | (pool', Inr (None, _)) \<Rightarrow> own_account env up a (rp_backend policy) pool')
         else own_account env up a (rp_backend policy) pool
     | None \<Rightarrow> own_account env up a (rp_backend policy) pool)"

section \<open>The plan\<close>

record runtime_plan =
  pl_account :: "account option"
  pl_backend :: string
  pl_provider :: string
  pl_model :: string

definition plan_model :: "(string \<Rightarrow> string) \<Rightarrow> agent \<Rightarrow> runtime_policy \<Rightarrow> account option \<Rightarrow> string \<Rightarrow> string" where
  "plan_model md a policy ac backend =
    (let own = trim (ag_model a); acm = (case ac of None \<Rightarrow> [] | Some x \<Rightarrow> trim (ac_model x)) in
     if own \<noteq> [] \<and> (ac = None \<or> own \<noteq> acm) then own
     else if acm \<noteq> [] then acm
     else if trim (rp_model policy) \<noteq> [] then trim (rp_model policy)
     else md backend)"

definition assign_agent_runtime ::
  "runtime_env \<Rightarrow> url_path \<Rightarrow> (string \<Rightarrow> string) \<Rightarrow> agent \<Rightarrow> runtime_policy \<Rightarrow> agent option \<Rightarrow> account_table option
     \<Rightarrow> account_table option \<times> (runtime_error + runtime_plan)" where
  "assign_agent_runtime env up md a policy delegating pool =
    (case account_for_agent env up a policy delegating pool of
       (pool', Inl e) \<Rightarrow> (pool', Inl e)
     | (pool', Inr (ac, why)) \<Rightarrow>
         (let backend = (case ac of
                           Some x \<Rightarrow> if ac_harness x \<noteq> [] then ac_harness x else requested_backend env (rp_backend policy)
                         | None \<Rightarrow> requested_backend env (rp_backend policy))
          in (pool', Inr \<lparr>pl_account = ac, pl_backend = backend, pl_provider = provider_for backend,
                          pl_model = plan_model md a policy ac backend\<rparr>)))"

definition adopt_account :: "(string \<Rightarrow> string \<Rightarrow> string) \<Rightarrow> account \<Rightarrow> agent \<Rightarrow> agent" where
  "adopt_account wd ac a =
    (let a1 = a\<lparr>ag_account := ac_id ac, ag_label := ac_label ac,
                ag_creds := \<lparr>cr_harness = ac_harness ac, cr_vendor = ac_vendor ac, cr_api_key = ac_api_key ac,
                             cr_base_url = ac_base_url ac, cr_model = ac_model ac, cr_git_token = ac_git_token ac,
                             cr_git_repos = ac_repos ac\<rparr>,
                ag_backend := (if ac_harness ac \<noteq> [] then ac_harness ac else ag_backend a),
                ag_model := (if ac_model ac \<noteq> [] then ac_model ac else ag_model a)\<rparr>
     in if trim (ac_root ac) \<noteq> [] \<and> trim (ag_name a) \<noteq> [] \<and> \<not> ag_workspace_chosen a
        then a1\<lparr>ag_workspace := wd (trim (ac_root ac)) (ag_name a)\<rparr> else a1)"

definition apply_agent_runtime :: "(string \<Rightarrow> string \<Rightarrow> string) \<Rightarrow> runtime_plan \<Rightarrow> agent \<Rightarrow> agent" where
  "apply_agent_runtime wd p a =
    (let a1 = (case pl_account p of None \<Rightarrow> a | Some ac \<Rightarrow> adopt_account wd ac a);
         a2 = (if pl_backend p \<noteq> [] then a1\<lparr>ag_backend := pl_backend p, ag_provider := pl_provider p\<rparr> else a1)
     in if pl_model p \<noteq> [] then a2\<lparr>ag_model := pl_model p, ag_creds := (ag_creds a2)\<lparr>cr_model := pl_model p\<rparr>\<rparr> else a2)"

definition account_summary :: "agent \<Rightarrow> string" where
  "account_summary a =
    (if ag_account a = [] then []
     else if ag_label a = [] then ag_account a
     else if ag_backend a = [] \<or> ag_backend a = backend_local then ag_account a @ '' ('' @ ag_label a @ '')''
     else ag_account a @ '' ('' @ ag_backend a @ ''/'' @ ag_label a @ '')'')"

section \<open>An agent is run on an account it may bill\<close>

definition in_pool :: "url_path \<Rightarrow> account \<Rightarrow> account_table option \<Rightarrow> bool" where
  "in_pool up ac pool \<longleftrightarrow> (\<exists>s r. pool = Some s \<and> r \<in> set (at_rows s) \<and> ac = scan_account up r)"

lemma pool_rows_call: "account_call s = (s', e) \<Longrightarrow> at_rows s' = at_rows s"
  by (auto simp: account_call_def split: list.splits)

lemma find_in_set: "find P xs = Some x \<Longrightarrow> x \<in> set xs \<and> P x"
  by (auto simp: find_Some_iff)

lemma scan_account_fields [simp]:
  "ac_id (scan_account up r) = ac_id r" "ac_harness (scan_account up r) = ac_harness r"
  "ac_enabled (scan_account up r) = ac_enabled r" "ac_default (scan_account up r) = ac_default r"
  by (simp_all add: scan_account_def with_repos_def)

lemma in_poolI: "r \<in> set (at_rows s) \<Longrightarrow> in_pool up (scan_account up r) (Some s)"
  by (auto simp: in_pool_def)

lemma recorded_account_Inr:
  "recorded_account up a s = (s', Inr (Some ac, why)) \<Longrightarrow>
     ac_enabled ac \<and> in_pool up ac (Some s) \<and> ac_id ac = trim (ag_account a)"
  by (auto simp: recorded_account_def get_account_def dest!: pool_rows_call find_in_set
      split: prod.splits option.splits sum.splits if_splits intro: in_poolI)

lemma pool_account_Inr:
  assumes "pool_account up h s = (s', Inr (Some ac, why))"
  shows "ac_enabled ac \<and> in_pool up ac (Some s) \<and> (trim h \<noteq> [] \<longrightarrow> ac_harness ac = trim h)"
proof -
  let ?f = "\<lparr>af_harness = h, af_vendor = [], af_enabled = Some True\<rparr>"
  obtain s1 pool where l: "list_accounts up ?f s = (s1, Inr pool)"
    using assms by (auto simp: pool_account_def split: prod.splits sum.splits)
  then have pool: "pool = map (scan_account up) (sort_key pool_order (filter (account_where ?f) (at_rows s)))"
    using pool_rows_call by (fastforce simp: list_accounts_def split: prod.splits option.splits)
  have "ac \<in> set pool"
    using assms l by (auto simp: pool_account_def dest: find_in_set split: list.splits option.splits if_splits)
  then obtain r where "r \<in> set (at_rows s)" "account_where ?f r" "ac = scan_account up r" by (auto simp: pool)
  then show ?thesis by (auto simp: account_where_def intro: in_poolI)
qed

lemma own_account_Inr:
  assumes "own_account env up a req pool = (pool', Inr (Some ac, why))"
  shows "ac_enabled ac \<and> in_pool up ac pool \<and> (if trim (ag_account a) \<noteq> [] then ac_id ac = trim (ag_account a)
    else trim (requested_backend env req) \<noteq> [] \<longrightarrow> ac_harness ac = trim (requested_backend env req))"
proof -
  obtain s where s: "pool = Some s" using assms by (cases pool) (auto simp: own_account_def split: if_splits)
  show ?thesis
  proof (cases "trim (ag_account a) \<noteq> []")
    case True
    then obtain s' where "recorded_account up a s = (s', Inr (Some ac, why))"
      using assms s by (cases "recorded_account up a s") (auto simp: own_account_def split: if_splits)
    from recorded_account_Inr [OF this] True s show ?thesis by simp
  next
    case False
    then obtain s' where "pool_account up (requested_backend env req) s = (s', Inr (Some ac, why))"
      using assms s by (cases "pool_account up (requested_backend env req) s") (auto simp: own_account_def split: if_splits)
    from pool_account_Inr [OF this] False s show ?thesis by simp
  qed
qed

lemma own_account_local:
  "own_account env up a req pool = (pool', Inr (None, why)) \<Longrightarrow> requested_backend env req = backend_local"
  by (auto simp: own_account_def recorded_account_def pool_account_def map_prod_def
      split: if_splits option.splits prod.splits sum.splits list.splits)

lemma default_backend_known: "default_backend env \<in> set account_harnesses"
  by (simp add: default_backend_def account_harnesses_def Let_def)

text \<open>
  C19: An agent is only ever run on an account it may bill.  When the runtime plan of an agent names
  an account, it is an enabled account of the pool; when the agent's row records one, it is that
  one; when a worker extends its planner, it is the one its planner resolves to; and the backend of
  the plan is the account's own harness.
\<close>

theorem plan_bills_what_it_may:
  assumes "assign_agent_runtime env up md a policy delegating pool = (pool', Inr p)" and "pl_account p = Some ac"
    and "\<And>s r. pool = Some s \<Longrightarrow> r \<in> set (at_rows s) \<Longrightarrow> ac_harness r \<noteq> []"
  shows "ac_enabled ac \<and> in_pool up ac pool \<and> (trim (ag_account a) \<noteq> [] \<longrightarrow> ac_id ac = trim (ag_account a)) \<and>
    pl_backend p = ac_harness ac"
proof -
  obtain why where acc: "account_for_agent env up a policy delegating pool = (pool', Inr (Some ac, why))"
    using assms(1,2) by (auto simp: assign_agent_runtime_def Let_def split: prod.splits sum.splits)
  have facts: "ac_enabled ac \<and> in_pool up ac pool \<and> (trim (ag_account a) \<noteq> [] \<longrightarrow> ac_id ac = trim (ag_account a))"
  proof (cases "\<exists>d pool1 why1. delegating = Some d \<and> trim (ag_account a) = [] \<and>
      own_account env up d [] pool = (pool1, Inr (Some ac, why1))")
    case True
    then obtain d pool1 why1 where "trim (ag_account a) = []" "own_account env up d [] pool = (pool1, Inr (Some ac, why1))" by blast
    then show ?thesis using own_account_Inr by fastforce
  next
    case False
    have "requested_backend env [] \<noteq> backend_local"
      using default_backend_known [of env]
      by (auto simp: requested_backend_def account_harnesses_def harness_words backend_local_def)
    then have none: "own_account env up d [] q \<noteq> (q', Inr (None, w))" for d q q' w
      using own_account_local by blast
    have "\<exists>pool1 why1. own_account env up a (rp_backend policy) pool = (pool1, Inr (Some ac, why1))"
      using acc False none by (auto simp: account_for_agent_def split: option.splits if_splits prod.splits sum.splits)
    then show ?thesis using own_account_Inr by (fastforce split: if_splits)
  qed
  moreover have "ac_harness ac \<noteq> []" using facts assms(3) by (auto simp: in_pool_def)
  ultimately show ?thesis using assms(1,2) acc by (auto simp: assign_agent_runtime_def Let_def)
qed

end
