(* ===== verification/Accounts_Laws.thy ===== *)
theory Accounts_Laws
  imports Accounts
begin

text \<open>
  What the operations of the account pool keep, under every failure of the database: one row per
  id and per workspace root, normalised rows, and at most one default account per harness.
\<close>

section \<open>The invariant\<close>

definition row_ok :: "account_row \<Rightarrow> bool" where
  "row_ok r \<longleftrightarrow> ac_id r \<noteq> [] \<and> trim (ac_id r) = ac_id r \<and> ac_harness r \<in> set account_harnesses \<and>
     ac_vendor r \<noteq> [] \<and> ac_label r \<noteq> [] \<and> trim (ac_label r) = ac_label r \<and> is_abs (ac_root r)"

definition one_default :: "account_row list \<Rightarrow> bool" where
  "one_default rs \<longleftrightarrow> distinct (map ac_harness (filter ac_default rs))"

definition accounts_ok :: "account_row list \<Rightarrow> bool" where
  "accounts_ok rs \<longleftrightarrow> distinct (map ac_id rs) \<and> distinct (map ac_root rs) \<and> list_all row_ok rs \<and> one_default rs"

named_theorems pool_rows \<open>how the statements of the pool leave the rows\<close>

lemma account_call_rows [pool_rows]: "account_call s = (s', e) \<Longrightarrow> at_rows s' = at_rows s"
  by (auto simp: account_call_def split: list.splits)

lemma statements_rows [pool_rows]: "statements n s = (s', e) \<Longrightarrow> at_rows s' = at_rows s"
  by (induction n arbitrary: s) (auto dest!: account_call_rows split: prod.splits option.splits)

lemma get_account_rows [pool_rows]: "get_account up i s = (s', r) \<Longrightarrow> at_rows s' = at_rows s"
  by (auto simp: get_account_def dest!: account_call_rows split: prod.splits option.splits)

lemma root_free_rows [pool_rows]: "ensure_workspace_root_free root i s = (s', r) \<Longrightarrow> at_rows s' = at_rows s"
  by (auto simp: ensure_workspace_root_free_def dest!: account_call_rows split: prod.splits option.splits)

lemma with_repos_fields [simp]:
  "ac_id (with_repos x a) = ac_id a" "ac_harness (with_repos x a) = ac_harness a" "ac_vendor (with_repos x a) = ac_vendor a"
  "ac_label (with_repos x a) = ac_label a" "ac_root (with_repos x a) = ac_root a" "ac_default (with_repos x a) = ac_default a"
  "ac_enabled (with_repos x a) = ac_enabled a" "ac_created (with_repos x a) = ac_created a" "ac_model (with_repos x a) = ac_model a"
  "ac_repos (with_repos x a) = x"
  by (simp_all add: with_repos_def)

lemma clear_defaults_fields [simp]:
  "map ac_id (clear_defaults P rs) = map ac_id rs" "map ac_root (clear_defaults P rs) = map ac_root rs"
  "length (clear_defaults P rs) = length rs"
  by (simp_all add: clear_defaults_def)

lemma row_ok_update [simp]: "row_ok (r\<lparr>ac_default := b\<rparr>) = row_ok r" "row_ok (r\<lparr>ac_created := n\<rparr>) = row_ok r"
  by (simp_all add: row_ok_def)

lemma clear_defaults_row_ok [simp]: "list_all row_ok (clear_defaults P rs) = list_all row_ok rs"
  by (induction rs) (simp_all add: clear_defaults_def)

lemma clear_defaults_append: "clear_defaults P (xs @ ys) = clear_defaults P xs @ clear_defaults P ys"
  and clear_defaults_Cons: "clear_defaults P (x # ys) = (if P x then x\<lparr>ac_default := False\<rparr> else x) # clear_defaults P ys"
  by (simp_all add: clear_defaults_def)

lemma default_cleared: "filter ac_default (clear_defaults P rs) = filter (\<lambda>r. ac_default r \<and> \<not> P r) rs"
  by (induction rs) (simp_all add: clear_defaults_def)

lemma cleared_default: "x \<in> set (clear_defaults P rs) \<Longrightarrow> ac_default x \<Longrightarrow> \<not> P x"
  by (auto simp: clear_defaults_def)

lemma distinct_harness_filter: "distinct (map ac_harness (filter ac_default rs)) \<Longrightarrow>
    distinct (map ac_harness (filter (\<lambda>r. ac_default r \<and> Q r) rs))"
  using distinct_map_filter [of ac_harness "filter ac_default rs" Q] by (simp add: conj_commute)

lemma default_vendor_nonempty: "default_vendor_for h \<noteq> []"
  by (simp add: default_vendor_for_def Let_def)

lemma normalize_harness_known: "normalize_harness h = [] \<or> normalize_harness h \<in> set account_harnesses"
  by (simp add: normalize_harness_def account_harnesses_def Let_def)

lemma normalize_account_row_ok:
  assumes "normalize_account up fresh now a = Inr b" and "trim (new_account_id fresh) = new_account_id fresh"
  shows "row_ok (with_repos x b)"
  using assms normalize_harness_known [of "ac_harness a"] default_vendor_nonempty [of "normalize_harness (ac_harness a)"]
  by (auto simp: normalize_account_def row_ok_def new_account_id_def Let_def split: if_splits)

lemma normalize_account_id: "normalize_account up fresh now a = Inr b \<Longrightarrow> trim (ac_id a) \<noteq> [] \<Longrightarrow> ac_id b = trim (ac_id a)"
  by (auto simp: normalize_account_def Let_def split: if_splits)

section \<open>Every operation keeps it\<close>

lemma row_of_account_fields [simp]:
  "ac_id (row_of_account up a) = ac_id a" "ac_root (row_of_account up a) = ac_root a"
  "ac_harness (row_of_account up a) = ac_harness a" "ac_default (row_of_account up a) = ac_default a"
  by (simp_all add: row_of_account_def)

lemma row_ok_with_repos [simp]: "row_ok (with_repos x (a\<lparr>ac_default := b\<rparr>)) = row_ok (with_repos x a)"
  "row_ok (with_repos x (a\<lparr>ac_created := n\<rparr>)) = row_ok (with_repos x a)"
  by (simp_all add: row_ok_def)

lemma insert_ok:
  assumes ok: "accounts_ok rs" and row: "row_ok r"
    and free: "\<not> list_ex (\<lambda>q. ac_id q = ac_id r \<or> ac_root q = ac_root r) rs"
  shows "accounts_ok ((if ac_default r then clear_defaults (\<lambda>q. ac_harness q = ac_harness r) rs else rs) @ [r])"
    (is "accounts_ok (?rs @ [r])")
proof -
  have "one_default (?rs @ [r])"
    using ok distinct_harness_filter [of rs "\<lambda>q. ac_harness q \<noteq> ac_harness r"]
    by (auto simp: accounts_ok_def one_default_def default_cleared dest: cleared_default)
  moreover have "map ac_id ?rs = map ac_id rs" "map ac_root ?rs = map ac_root rs" "list_all row_ok ?rs = list_all row_ok rs"
    by simp_all
  moreover have "ac_id r \<notin> set (map ac_id rs)" "ac_root r \<notin> set (map ac_root rs)" using free by (auto simp: list_ex_iff)
  ultimately show ?thesis using ok row
    unfolding accounts_ok_def map_append distinct_append list_all_append by (simp del: set_map)
qed

lemma create_account_ok:
  assumes "accounts_ok (at_rows s)" and "trim (new_account_id fresh) = new_account_id fresh"
  shows "accounts_ok (at_rows (fst (create_account up fresh now a s)))"
proof (cases "normalize_account up fresh now a")
  case (Inl e)
  then show ?thesis using assms by (simp add: create_account_def)
next
  case (Inr b)
  obtain s1 e1 where s1: "ensure_workspace_root_free (ac_root b) (ac_id b) s = (s1, e1)" by fastforce
  define c where "c = (if \<not> ac_default b \<and> length (filter (\<lambda>r. ac_harness r = ac_harness b \<and> ac_default r) (at_rows s1)) = 0
    then b\<lparr>ac_default := True\<rparr> else b)"
  obtain s2 e2 where s2: "statements (if ac_default c then 4 else 3) s1 = (s2, e2)" by fastforce
  obtain s3 e3 where s3: "account_call s2 = (s3, e3)" by fastforce
  have rows: "at_rows s1 = at_rows s" "at_rows s2 = at_rows s" "at_rows s3 = at_rows s"
    using pool_rows(4) [OF s1] pool_rows(2) [OF s2] pool_rows(1) [OF s3] by simp_all
  have ok: "row_ok (row_of_account up c)"
    using normalize_account_row_ok [OF Inr assms(2)] by (simp add: row_of_account_def c_def)
  have created: "create_account up fresh now a s =
      (case e1 of Some e \<Rightarrow> (s1, Inl e) | None \<Rightarrow> (case e2 of Some e \<Rightarrow> (s2, Inl e) | None \<Rightarrow>
        if list_ex (\<lambda>r. ac_id r = ac_id c \<or> ac_root r = ac_root c) (at_rows s) then (s2, Inl AccountKeyTaken)
        else (case e3 of Some e \<Rightarrow> (s3, Inl e) | None \<Rightarrow>
          (s3\<lparr>at_rows := (if ac_default c then clear_defaults (\<lambda>r. ac_harness r = ac_harness c) (at_rows s) else at_rows s)
             @ [row_of_account up c]\<rparr>, Inr c))))"
    using Inr s1 s2 s3 rows(1) unfolding create_account_def Let_def c_def by (simp split: option.splits)
  show ?thesis
    using insert_ok [OF assms(1) ok] assms(1) rows unfolding created by (auto split: option.splits)
qed

lemma replace_ok:
  assumes ok: "accounts_ok rs" and row: "row_ok r"
    and free: "\<not> list_ex (\<lambda>q. ac_id q \<noteq> ac_id r \<and> ac_root q = ac_root r) rs"
  shows "accounts_ok (map (\<lambda>q. if ac_id q = ac_id r then r\<lparr>ac_created := ac_created q\<rparr> else q)
    (if ac_default r then clear_defaults (\<lambda>q. ac_harness q = ac_harness r \<and> ac_id q \<noteq> ac_id r) rs else rs))"
    (is "accounts_ok (map ?put ?rs)")
proof (cases "ac_id r \<in> set (map ac_id rs)")
  case True
  then obtain pre q post where split: "rs = pre @ q # post" "ac_id q = ac_id r" by (auto dest: split_list)
  let ?P = "\<lambda>q. ac_harness q = ac_harness r \<and> ac_id q \<noteq> ac_id r"
  define C where "C = (\<lambda>xs. if ac_default r then clear_defaults ?P xs else xs)"
  let ?r = "r\<lparr>ac_created := ac_created q\<rparr>"
  have ne: "ac_id x \<noteq> ac_id r" if "x \<in> set pre \<or> x \<in> set post" for x
    using ok split that by (auto simp: accounts_ok_def) (metis image_eqI)+
  have keep: "map ?put (C xs) = C xs" if "\<And>x. x \<in> set xs \<Longrightarrow> ac_id x \<noteq> ac_id r" for xs
    using that by (induction xs) (auto simp: C_def clear_defaults_def)
  have "?rs = C pre @ q # C post" using split by (simp add: C_def clear_defaults_append clear_defaults_Cons)
  then have res: "map ?put ?rs = C pre @ ?r # C post" using keep [of pre] keep [of post] ne split(2) by simp
  have fields: "map ac_id (C xs) = map ac_id xs" "map ac_root (C xs) = map ac_root xs" "list_all row_ok (C xs) = list_all row_ok xs" for xs
    by (simp_all add: C_def)
  have images: "ac_id ` set (C xs) = ac_id ` set xs" "ac_root ` set (C xs) = ac_root ` set xs" for xs
    using arg_cong [OF fields(1), of set] arg_cong [OF fields(2), of set] by simp_all
  have ids: "distinct (map ac_id (C pre @ ?r # C post))"
    using ok split by (simp add: accounts_ok_def fields images)
  have roots: "distinct (map ac_root (C pre @ ?r # C post))"
    using ok split(1) free ne by (auto simp: accounts_ok_def fields images list_ex_iff)
  have rows: "list_all row_ok (C pre @ ?r # C post)"
    using ok split(1) row by (simp add: accounts_ok_def fields)
  have defaults: "filter ac_default (C xs) = (if ac_default r then filter (\<lambda>x. ac_default x \<and> ac_harness x \<noteq> ac_harness r) xs
      else filter ac_default xs)" if "\<And>x. x \<in> set xs \<Longrightarrow> ac_id x \<noteq> ac_id r" for xs
    using that by (auto simp: C_def default_cleared intro: filter_cong)
  have "one_default (pre @ post)"
    using ok split(1) by (auto simp: accounts_ok_def one_default_def split: if_splits)
  then have "one_default (C pre @ ?r # C post)"
    using distinct_harness_filter [of "pre @ post" "\<lambda>x. ac_harness x \<noteq> ac_harness r"]
    by (auto simp: one_default_def defaults ne)
  with ids roots rows show ?thesis by (simp add: res accounts_ok_def)
next
  case False
  have "ac_id x \<noteq> ac_id r" if "x \<in> set rs" for x using False that by (metis image_eqI set_map)
  then have "map ?put ?rs = ?rs" by (auto simp: clear_defaults_def intro!: map_idI)
  moreover have "one_default ?rs"
    using ok by (auto simp: accounts_ok_def one_default_def default_cleared intro: distinct_harness_filter)
  ultimately show ?thesis using ok by (simp add: accounts_ok_def)
qed

lemma get_account_found: "get_account up i s = (s', Inr (Some a)) \<Longrightarrow> ac_id a = trim i \<and>
    (\<exists>r\<in>set (at_rows s). a = scan_account up r)"
  by (auto simp: get_account_def find_Some_iff scan_account_def dest!: account_call_rows split: prod.splits option.splits)

lemma update_account_ok:
  assumes "accounts_ok (at_rows s)" and "trim (new_account_id fresh) = new_account_id fresh"
  shows "accounts_ok (at_rows (fst (update_account up fresh now i patch s)))"
proof -
  obtain s0 r0 where s0: "get_account up i s = (s0, r0)" by fastforce
  have rows0: "at_rows s0 = at_rows s" using pool_rows(3) [OF s0] .
  show ?thesis
  proof (cases "\<exists>cur b. r0 = Inr (Some cur) \<and> normalize_account up fresh now (apply_patch patch cur) = Inr b")
    case False
    then show ?thesis using assms(1) rows0 s0
      by (auto simp: update_account_def split: sum.splits option.splits)
  next
    case True
    then obtain cur b0 where cur: "r0 = Inr (Some cur)" and b0: "normalize_account up fresh now (apply_patch patch cur) = Inr b0" by blast
    define b where "b = b0\<lparr>ac_created := ac_created cur\<rparr>"
    obtain s1 e1 where s1: "ensure_workspace_root_free (ac_root b0) (ac_id b0) s0 = (s1, e1)" by fastforce
    obtain s2 e2 where s2: "statements (if ac_default b then 3 else 2) s1 = (s2, e2)" by fastforce
    obtain s3 e3 where s3: "account_call s2 = (s3, e3)" by fastforce
    have rows: "at_rows s1 = at_rows s" "at_rows s2 = at_rows s" "at_rows s3 = at_rows s"
      using rows0 pool_rows(4) [OF s1] pool_rows(2) [OF s2] pool_rows(1) [OF s3] by simp_all
    have ok: "row_ok (row_of_account up b)"
      using normalize_account_row_ok [OF b0 assms(2)] by (simp add: row_of_account_def b_def)
    let ?cleared = "if ac_default b then clear_defaults (\<lambda>r. ac_harness r = ac_harness b \<and> ac_id r \<noteq> ac_id b) (at_rows s) else at_rows s"
    have updated: "update_account up fresh now i patch s =
      (case e1 of Some e \<Rightarrow> (s1, Inl e) | None \<Rightarrow> (case e2 of Some e \<Rightarrow> (s2, Inl e) | None \<Rightarrow>
        if list_ex (\<lambda>r. ac_id r \<noteq> ac_id b \<and> ac_root r = ac_root b) (at_rows s) then (s2, Inl AccountKeyTaken)
        else (case e3 of Some e \<Rightarrow> (s3, Inl e) | None \<Rightarrow>
          (s3\<lparr>at_rows := map (\<lambda>r. if ac_id r = ac_id b then (row_of_account up b)\<lparr>ac_created := ac_created r\<rparr> else r) ?cleared\<rparr>, Inr b))))"
      using s0 cur b0 s1 s2 s3 rows(1) unfolding update_account_def Let_def b_def by (simp split: option.splits)
    show ?thesis
      using replace_ok [OF assms(1) ok] assms(1) rows unfolding updated by (auto split: option.splits)
  qed
qed

lemma delete_account_ok:
  assumes "accounts_ok (at_rows s)"
  shows "accounts_ok (at_rows (fst (delete_account i s)))"
proof -
  have "one_default (filter P rs)" if "one_default rs" for P and rs :: "account_row list"
    using that distinct_map_filter [of ac_harness "filter ac_default rs" P]
    by (simp add: one_default_def conj_commute)
  then have "accounts_ok (filter P (at_rows s))" for P
    using assms by (auto simp: accounts_ok_def distinct_map_filter list_all_iff)
  then show ?thesis using assms
    by (auto simp: delete_account_def dest: account_call_rows split: prod.splits option.splits)
qed

section \<open>The pool under use\<close>

text \<open>What a user of the pool can ask of it.\<close>

datatype pool_request =
    AddAccount string nat account_input
  | EditAccount string nat string account_input
  | RemoveAccount string
  | ViewAccounts account_filter

fun pool_step :: "url_path \<Rightarrow> account_table \<Rightarrow> pool_request \<Rightarrow> account_table" where
  "pool_step up s (AddAccount fresh now inp) = fst (add_account up fresh now inp s)"
| "pool_step up s (EditAccount fresh now i inp) = fst (edit_account up fresh now i inp s)"
| "pool_step up s (RemoveAccount i) = fst (delete_account i s)"
| "pool_step up s (ViewAccounts f) = fst (account_views up f s)"

text \<open>The random part of a new id is hexadecimal.\<close>

fun fresh_part :: "pool_request \<Rightarrow> string" where
  "fresh_part (AddAccount fresh now inp) = fresh"
| "fresh_part (EditAccount fresh now i inp) = fresh"
| "fresh_part (RemoveAccount i) = []"
| "fresh_part (ViewAccounts f) = []"

lemma fst_answer: "fst (case x of (s, Inl e) \<Rightarrow> (s, Inl e) | (s, Inr a) \<Rightarrow> (s, Inr (g a))) = fst x"
  by (simp split: prod.split sum.split)

lemma pool_step_ok:
  assumes "accounts_ok (at_rows s)" and "trim (new_account_id (fresh_part q)) = new_account_id (fresh_part q)"
  shows "accounts_ok (at_rows (pool_step up s q))"
proof (cases q)
  case (AddAccount fresh now inp)
  then show ?thesis using assms by (simp add: add_account_def fst_answer create_account_ok)
next
  case (EditAccount fresh now i inp)
  then show ?thesis using assms by (simp add: edit_account_def fst_answer update_account_ok)
next
  case (RemoveAccount i)
  then show ?thesis using delete_account_ok assms by simp
next
  case (ViewAccounts f)
  then show ?thesis using assms
    by (auto simp: account_views_def list_accounts_def dest: account_call_rows split: prod.splits sum.splits option.splits)
qed

text \<open>
  C18: The pool stays well formed: whatever is asked of it and whatever fails in the database, two
  accounts never share an id or a workspace root, a harness has at most one default account, and
  every account has a known harness, a vendor, a label and an absolute root.
\<close>

theorem account_pool_well_formed:
  assumes "at_rows s = []"
    and "list_all (\<lambda>q. trim (new_account_id (fresh_part q)) = new_account_id (fresh_part q)) requests"
  shows "accounts_ok (at_rows (foldl (pool_step up) s requests))"
proof -
  have "accounts_ok (at_rows s) \<Longrightarrow> accounts_ok (at_rows (foldl (pool_step up) s requests))" for s
    using assms(2) by (induction requests arbitrary: s) (simp_all add: pool_step_ok)
  moreover have "accounts_ok (at_rows s)" using assms(1) by (simp add: accounts_ok_def one_default_def)
  ultimately show ?thesis by blast
qed

definition sample_input :: "string \<Rightarrow> string \<Rightarrow> string \<Rightarrow> bool \<Rightarrow> account_input" where
  "sample_input h l root d =
    \<lparr>ai_harness = h, ai_vendor = [], ai_label = l, ai_api_key = ''key'', ai_base_url = [], ai_model = [], ai_root = root,
     ai_repos = None, ai_git_token = [], ai_enabled = None, ai_default = Some d\<rparr>"

lemma account_pool_well_formed_witness:
  "accounts_ok (at_rows (foldl (pool_step (\<lambda>_. None)) \<lparr>at_rows = [], at_faults = []\<rparr>
     [AddAccount ''01'' 1 (sample_input ''cursor_sdk'' ''one'' ''/w/a'' False),
      AddAccount ''02'' 2 (sample_input ''Cursor'' ''two'' ''/w/b/../c'' True)])) \<and>
   map (\<lambda>r. (ac_id r, ac_root r, ac_default r)) (at_rows (foldl (pool_step (\<lambda>_. None)) \<lparr>at_rows = [], at_faults = []\<rparr>
     [AddAccount ''01'' 1 (sample_input ''cursor_sdk'' ''one'' ''/w/a'' False),
      AddAccount ''02'' 2 (sample_input ''Cursor'' ''two'' ''/w/b/../c'' True)])) =
   [(''acct-01'', ''/w/a'', False), (''acct-02'', ''/w/c'', True)]"
proof
  show "accounts_ok (at_rows (foldl (pool_step (\<lambda>_. None)) \<lparr>at_rows = [], at_faults = []\<rparr>
     [AddAccount ''01'' 1 (sample_input ''cursor_sdk'' ''one'' ''/w/a'' False),
      AddAccount ''02'' 2 (sample_input ''Cursor'' ''two'' ''/w/b/../c'' True)]))"
    by (rule account_pool_well_formed) (simp, code_simp)
qed code_simp

end
