(* ===== verification/Agent_Laws.thy ===== *)
theory Agent_Laws
  imports Agent_Runtime Accounts_Laws
begin

text \<open>
  How tasks and agents stay paired: one planner per task in a process, what the agent a restarted
  process continues a task with keeps of the recorded one, and what it forgets.
\<close>

section \<open>One planner per task\<close>

text \<open>The planners hold different tasks, under different names.\<close>

definition office_ok :: "office \<Rightarrow> bool" where
  "office_ok w \<longleftrightarrow> distinct (map ag_name (of_agents w)) \<and>
     list_all (\<lambda>a. ag_role a = role_planner \<and> ag_id a \<noteq> 0) (of_agents w) \<and>
     distinct (filter (\<lambda>t. trim t = t \<and> t \<noteq> []) (List.map_filter ag_task (of_agents w)))"

definition held_tasks :: "agent list \<Rightarrow> string list" where
  "held_tasks as = filter (\<lambda>t. trim t = t \<and> t \<noteq> []) (List.map_filter ag_task as)"

lemma office_ok_held: "office_ok w \<longleftrightarrow> distinct (map ag_name (of_agents w)) \<and>
    list_all (\<lambda>a. ag_role a = role_planner \<and> ag_id a \<noteq> 0) (of_agents w) \<and> distinct (held_tasks (of_agents w))"
  by (simp add: office_ok_def held_tasks_def)

lemma held_tasks_append [simp]: "held_tasks (xs @ ys) = held_tasks xs @ held_tasks ys"
  and held_tasks_Nil [simp]: "held_tasks [] = []"
  and held_tasks_Cons: "held_tasks (a # as) =
    (case ag_task a of Some t \<Rightarrow> if trim t = t \<and> t \<noteq> [] then t # held_tasks as else held_tasks as | None \<Rightarrow> held_tasks as)"
  by (auto simp: held_tasks_def map_filter_def split: option.splits)

lemma held_tasks_set: "set (held_tasks as) = {t. trim t = t \<and> t \<noteq> [] \<and> (\<exists>a\<in>set as. ag_task a = Some t)}"
  by (induction as) (auto simp: held_tasks_Cons split: option.splits)

named_theorems office_agents \<open>what a step leaves of the agents held\<close>

lemma persist_agent_agents [office_agents]: "persist_agent a w = (w', a') \<Longrightarrow> of_agents w' = of_agents w"
  by (auto simp: persist_agent_def split: option.splits prod.splits)

lemma persist_agent_same:
  "persist_agent a w = (w', a') \<Longrightarrow> ag_id a \<noteq> 0 \<Longrightarrow> a' = a"
  by (auto simp: persist_agent_def upsert_agent_def split: option.splits prod.splits)

lemma persist_agent_role: "persist_agent a w = (w', a') \<Longrightarrow> ag_role a' = ag_role a \<and> ag_task a' = ag_task a \<and>
    ag_requires a' = ag_requires a \<and> ag_account a' = ag_account a \<and> ag_pending a' = ag_pending a"
  by (auto simp: persist_agent_def upsert_agent_def Let_def split: option.splits prod.splits if_splits)

lemma put_agent_agents [simp]: "of_agents (put_agent a w) = map (\<lambda>b. if ag_name b = ag_name a then a else b) (of_agents w)"
  and persist_task_agents [simp]: "of_agents (office_persist_task t w) = of_agents w"
  by (simp_all add: put_agent_def office_persist_task_def)

lemma factory_get_None: "factory_get n w = None \<longleftrightarrow> n \<notin> set (map ag_name (of_agents w))"
  by (auto simp: factory_get_def find_None_iff)

lemma factory_get_Some: "factory_get n w = Some b \<Longrightarrow> b \<in> set (of_agents w) \<and> ag_name b = n"
  by (auto simp: factory_get_def find_Some_iff)

lemma new_agent_cases:
  assumes "new_agent wd w = (w', a)"
  shows "(a \<in> set (of_agents w) \<and> of_agents w' = of_agents w) \<or>
    (ag_name a \<notin> set (map ag_name (of_agents w)) \<and> of_agents w' = of_agents w @ [a] \<and> ag_task a = None \<and>
     ag_id a \<noteq> 0 \<and> ag_requires a = False \<and> ag_account a = [] \<and> ag_pending a = None)"
proof -
  let ?a0 = "zero_agent\<lparr>ag_state := state_idle, ag_lifecycle := lifecycle_persistent, ag_backend := backend_local\<rparr>"
  obtain w1 a1 where p: "persist_agent ?a0 w = (w1, a1)" by fastforce
  have a1: "of_agents w1 = of_agents w" "ag_task a1 = None" "ag_requires a1 = False" "ag_account a1 = []" "ag_pending a1 = None"
    using persist_agent_agents [OF p] persist_agent_role [OF p] by (simp_all add: zero_agent_def)
  obtain w2 a2 where n: "number_agent a1 w1 = (w2, a2)" by fastforce
  have a2: "of_agents w2 = of_agents w" "ag_task a2 = None" "ag_requires a2 = False" "ag_account a2 = []" "ag_pending a2 = None" "ag_id a2 \<noteq> 0"
    using n a1 by (auto simp: number_agent_def split: if_splits)
  define a3 where "a3 = name_agent a2"
  have "ag_task a3 = None" "ag_requires a3 = False" "ag_account a3 = []" "ag_pending a3 = None" "ag_id a3 \<noteq> 0"
    using a2 by (simp_all add: a3_def name_agent_def)
  then show ?thesis using assms p n a2(1)
    by (cases "factory_get (ag_name a3) w2") (auto simp: new_agent_def a3_def [symmetric] Let_def factory_get_None dest: factory_get_Some)
qed

lemma map_put_names [simp]:
  "ag_name a = n \<Longrightarrow> map ag_name (map (\<lambda>b. if ag_name b = n then a else b) as) = map ag_name as"
  by (induction as) auto

text \<open>A held agent is given a task nobody holds, or keeps its own.\<close>

lemma held_tasks_put:
  assumes "distinct (map ag_name as)" "distinct (held_tasks as)" "b \<in> set as" "ag_name a = ag_name b"
    and "ag_task a = ag_task b \<or> (\<forall>t. ag_task a = Some t \<longrightarrow> t \<notin> set (held_tasks as))"
  shows "distinct (held_tasks (map (\<lambda>x. if ag_name x = ag_name a then a else x) as))"
proof -
  from assms(3) obtain pre post where as: "as = pre @ b # post" by (auto dest: split_list)
  have "ag_name x \<noteq> ag_name a" if "x \<in> set pre \<or> x \<in> set post" for x
    using assms(1,4) as that by (auto simp: image_iff)
  then have "map (\<lambda>x. if ag_name x = ag_name a then a else x) as = pre @ a # post"
    using as assms(4) by (auto intro!: map_idI)
  moreover have "distinct (held_tasks (pre @ a # post))"
    using assms(2,5) as by (auto simp: held_tasks_Cons split: option.splits if_splits)
  ultimately show ?thesis by simp
qed

lemma put_agent_ok:
  assumes ok: "office_ok w" and "b \<in> set (of_agents w)" "ag_name a = ag_name b" "ag_role a = role_planner" "ag_id a \<noteq> 0"
    and "ag_task a = ag_task b \<or> (\<forall>t. ag_task a = Some t \<longrightarrow> t \<notin> set (held_tasks (of_agents w)))"
  shows "office_ok (put_agent a w)"
  using assms held_tasks_put [of "of_agents w" b a] by (auto simp: office_ok_held list_all_iff simp del: map_map)

lemma office_ok_agents: "of_agents w' = of_agents w \<Longrightarrow> office_ok w' = office_ok w"
  by (simp add: office_ok_def)

lemma pair_task_ok:
  assumes "office_ok w" "b \<in> set (of_agents w)" "ag_name a = ag_name b" "ag_role a = role_planner" "ag_id a \<noteq> 0"
    and "tk_id t \<notin> set (held_tasks (of_agents w))" and "pair_task a t w = (w', a', t')"
  shows "office_ok w' \<and> ag_task a' = Some (tk_id t) \<and> ag_role a' = role_planner \<and> tk_id t' = tk_id t"
proof -
  let ?a = "a\<lparr>ag_task := Some (tk_id t)\<rparr>"
  let ?w = "office_persist_task (t\<lparr>tk_agent := ag_id a\<rparr>) (put_agent ?a w)"
  have p: "persist_agent ?a ?w = (w', a')" "t' = t\<lparr>tk_agent := ag_id a\<rparr>"
    using assms(7) by (auto simp: pair_task_def Let_def split: prod.splits)
  have "office_ok (put_agent ?a w)" by (rule put_agent_ok [OF assms(1,2)]) (use assms in auto)
  then have "office_ok w'" using persist_agent_agents [OF p(1)] office_ok_agents [of w' "put_agent ?a w"] by simp
  then show ?thesis using persist_agent_role [OF p(1)] p(2) assms(4) by simp
qed

lemma put_absent [simp]:
  "n \<notin> ag_name ` set as \<Longrightarrow> map (\<lambda>b. if ag_name b = n then c else b) as = as"
  by (induction as) auto

lemma fresh_agent_ok:
  assumes "office_ok w" "of_agents w' = of_agents w @ [a]" "ag_name a \<notin> set (map ag_name (of_agents w))"
    and "ag_role a = role_planner" "ag_id a \<noteq> 0" "\<forall>t. ag_task a = Some t \<longrightarrow> t \<notin> set (held_tasks (of_agents w))"
  shows "office_ok w'"
  using assms by (auto simp: office_ok_held held_tasks_Cons split: option.splits)

lemma office_ok_snoc_role:
  assumes "office_ok w" "of_agents w' = of_agents w @ [a]" "ag_name a \<notin> set (map ag_name (of_agents w))" "ag_task a = None" "ag_id a \<noteq> 0"
  shows "office_ok (put_agent (a\<lparr>ag_role := role_planner\<rparr>) w')"
proof -
  have "of_agents (put_agent (a\<lparr>ag_role := role_planner\<rparr>) w') = of_agents w @ [a\<lparr>ag_role := role_planner\<rparr>]"
    using assms(2,3) by simp
  with assms show ?thesis using fresh_agent_ok [OF assms(1), of _ "a\<lparr>ag_role := role_planner\<rparr>"] by simp
qed

text \<open>Putting an agent twice is putting it once.\<close>

lemma put_put: "ag_name a = ag_name b \<Longrightarrow> put_agent a (put_agent b w) = put_agent a w"
  by (simp add: put_agent_def comp_def cong: if_cong)

lemma pair_task_put: "ag_name b = ag_name a \<Longrightarrow> pair_task a t (put_agent b w) = pair_task a t w"
  by (simp add: pair_task_def put_put)

lemma create_agent_ok:
  assumes ok: "office_ok w" and fresh: "tk_id t \<notin> set (held_tasks (of_agents w))"
    and "create_agent wd (Some t) w = (w', a', t')"
  shows "office_ok w' \<and> ag_task a' = Some (tk_id t) \<and> ag_role a' = role_planner"
proof -
  obtain w1 a1 where n: "new_agent wd w = (w1, a1)" by fastforce
  let ?a = "a1\<lparr>ag_role := role_planner\<rparr>"
  obtain t'' where p: "pair_task ?a t w1 = (w', a', t'')"
    using assms(3) n by (auto simp: create_agent_def Let_def split: prod.splits)
  show ?thesis
  proof (cases "a1 \<in> set (of_agents w) \<and> of_agents w1 = of_agents w")
    case True
    with ok fresh have "office_ok w1" "a1 \<in> set (of_agents w1)" "tk_id t \<notin> set (held_tasks (of_agents w1))"
      using office_ok_agents [of w1 w] by simp_all
    then show ?thesis using pair_task_ok [OF _ _ _ _ _ _ p, of a1] by (auto simp: office_ok_held list_all_iff)
  next
    case False
    with new_agent_cases [OF n] have a1: "ag_name a1 \<notin> set (map ag_name (of_agents w))" "of_agents w1 = of_agents w @ [a1]"
      "ag_task a1 = None" "ag_id a1 \<noteq> 0" by auto
    have "office_ok (put_agent ?a w1)" by (rule office_ok_snoc_role [OF ok a1(2,1,3,4)])
    moreover have "of_agents (put_agent ?a w1) = of_agents w @ [?a]" using a1(1,2) by simp
    ultimately show ?thesis
      using pair_task_ok [of "put_agent ?a w1" ?a ?a t w' a' t''] p fresh a1(3,4)
      by (simp add: pair_task_put held_tasks_Cons)
  qed
qed

lemma for_task_None:
  "for_task t w = None \<Longrightarrow> office_ok w \<Longrightarrow> t \<notin> set (held_tasks (of_agents w))"
  by (auto simp: for_task_def held_tasks_set office_ok_held plans_for_def find_None_iff list_all_iff split: if_splits)

lemma for_task_Some: "for_task t w = Some a \<Longrightarrow> a \<in> set (of_agents w) \<and> plans_for (trim t) a"
  by (auto simp: for_task_def find_Some_iff split: if_splits)

lemma stored_agent_agents: "stored_agent_for_task t w = (w', r) \<Longrightarrow> of_agents w' = of_agents w \<and> of_next w' = of_next w"
  by (auto simp: stored_agent_for_task_def split: option.splits prod.splits sum.splits if_splits)

lemma get_agent_found: "get_agent i s = (s', Inr (Some a)) \<Longrightarrow> i \<noteq> 0 \<and> (\<exists>r\<in>set (gt_rows s). gr_id r = i \<and> a = scan_agent r)"
  by (auto simp: get_agent_def agent_call_def find_Some_iff split: if_splits prod.splits option.splits list.splits)

lemma stored_agent_found:
  "stored_agent_for_task t w = (w', Inr (Some a)) \<Longrightarrow>
     ag_id a \<noteq> 0 \<and> \<not> ag_deleted a \<and> (\<exists>s r. of_rows w = Some s \<and> r \<in> set (gt_rows s) \<and> a = scan_agent r)"
  by (auto simp: stored_agent_for_task_def scan_agent_def dest!: get_agent_found
      split: option.splits prod.splits sum.splits if_splits)

lemma adopt_cases:
  assumes "adopt wd a0 w = (w', a)"
  shows "(a \<in> set (of_agents w) \<and> w' = w) \<or>
    (ag_name a \<notin> set (map ag_name (of_agents w)) \<and> of_agents w' = of_agents w @ [a] \<and> ag_task a = ag_task a0 \<and>
     ag_role a = ag_role a0 \<and> ag_id a = ag_id a0)"
  using assms by (auto simp: adopt_def name_agent_def Let_def factory_get_None dest: factory_get_Some split: option.splits)

lemma resume_ok:
  assumes ok: "office_ok w" and "resume_agent_for_task wd t w = (w', t', r)"
  shows "office_ok w'"
proof (cases "for_task (tk_id t) w")
  case (Some a)
  then have a: "a \<in> set (of_agents w)" "ag_task a = Some (trim (tk_id t))" "ag_role a = role_planner" "ag_id a \<noteq> 0"
    using for_task_Some [OF Some] ok by (auto simp: plans_for_def office_ok_held list_all_iff)
  have "w' = put_agent (a\<lparr>ag_task := Some (tk_id t)\<rparr>) w" using assms(2) Some by (auto simp: resume_agent_for_task_def Let_def)
  moreover have "ag_task (a\<lparr>ag_task := Some (tk_id t)\<rparr>) = ag_task a \<or> tk_id t \<notin> set (held_tasks (of_agents w))"
    using a(2) by (auto simp: held_tasks_set)
  ultimately show ?thesis using put_agent_ok [OF ok a(1), of "a\<lparr>ag_task := Some (tk_id t)\<rparr>"] a(3,4) by auto
next
  case None
  have fresh: "tk_id t \<notin> set (held_tasks (of_agents w))" using for_task_None [OF None ok] .
  obtain w1 r1 where s: "stored_agent_for_task t w = (w1, r1)" by fastforce
  have ag: "of_agents w1 = of_agents w" using stored_agent_agents [OF s] by simp
  then have ok1: "office_ok w1" and fresh1: "tk_id t \<notin> set (held_tasks (of_agents w1))"
    using ok fresh office_ok_agents [of w1 w] by simp_all
  show ?thesis
  proof (cases r1)
    case (Inl e)
    then show ?thesis using assms(2) None s ok1 by (auto simp: resume_agent_for_task_def)
  next
    case (Inr r2)
    show ?thesis
    proof (cases r2)
      case None2: None
      show ?thesis
      proof (cases "for_initialization w1")
        case None3: None
        then obtain a2 t2 where "create_agent wd (Some t) w1 = (w', a2, t2)"
          using assms(2) None s Inr None2 by (auto simp: resume_agent_for_task_def split: prod.splits)
        then show ?thesis using create_agent_ok [OF ok1 fresh1] by blast
      next
        case (Some a)
        then have a: "a \<in> set (of_agents w1)" "ag_role a = role_planner" "ag_id a \<noteq> 0"
          using ok1 by (auto simp: for_initialization_def find_Some_iff office_ok_held list_all_iff)
        obtain a2 t2 where "pair_task a t w1 = (w', a2, t2)"
          using assms(2) None s Inr None2 Some by (auto simp: resume_agent_for_task_def split: prod.splits)
        then show ?thesis using pair_task_ok [OF ok1 a(1) refl a(2,3) fresh1] by blast
      qed
    next
      case (Some stored)
      then obtain a where "adopt wd (restored_agent stored (t\<lparr>tk_agent := ag_id stored\<rparr>)) w1 = (w', a)"
        using assms(2) None s Inr by (auto simp: resume_agent_for_task_def Let_def split: prod.splits)
      from adopt_cases [OF this] show ?thesis
        using ok1 fresh1 fresh_agent_ok [OF ok1, of w' a] stored_agent_found [OF s [unfolded Inr Some]]
        by (auto simp: restored_agent_def)
    qed
  qed
qed

lemma held_agent_ok:
  assumes "office_ok w" "b \<in> set (of_agents w)" "ag_name a = ag_name b" "ag_role a = role_planner" "ag_id a \<noteq> 0"
    and "ag_task a = ag_task b" and "persist_agent a (put_agent a w) = (w', a')"
  shows "office_ok w' \<and> a' = a \<and> a \<in> set (of_agents w')"
  using put_agent_ok [OF assms(1-5)] assms(2,3,6) persist_agent_same [OF assms(7) assms(5)] persist_agent_agents [OF assms(7)]
    office_ok_agents [of w' "put_agent a w"] by (auto simp: image_iff)

lemma initialize_ok:
  assumes ok: "office_ok w" and role: "trim (io_role opts) = [] \<or> io_role opts = role_planner"
    and "initialize wd opts w = (w', a)"
  shows "office_ok w'"
proof -
  obtain w1 a1 where n: "new_agent wd w = (w1, a1)" by fastforce
  define a5 where "a5 = initialized opts a1"
  have a5: "ag_name a5 = ag_name a1" "ag_role a5 = role_planner" "ag_task a5 = ag_task a1" "ag_id a5 = ag_id a1"
    using role by (auto simp: a5_def initialized_def Let_def)
  obtain w2 a6 where p5: "persist_agent a5 (put_agent a5 w1) = (w2, a6)"
    and p7: "persist_agent (a6\<lparr>ag_requires := io_requires opts\<rparr>) (put_agent (a6\<lparr>ag_requires := io_requires opts\<rparr>) w2) = (w', a)"
    using assms(3) n by (auto simp: initialize_def a5_def Let_def split: prod.splits)
  have ok5: "office_ok (put_agent a5 w1) \<and> a5 \<in> set (of_agents (put_agent a5 w1)) \<and> ag_id a5 \<noteq> 0"
  proof (cases "a1 \<in> set (of_agents w) \<and> of_agents w1 = of_agents w")
    case True
    then have "ag_id a1 \<noteq> 0" "office_ok w1" "a1 \<in> set (of_agents w1)"
      using ok office_ok_agents [of w1 w] by (auto simp: office_ok_held list_all_iff)
    then show ?thesis using put_agent_ok [of w1 a1 a5] a5 by (auto simp: image_iff)
  next
    case False
    with new_agent_cases [OF n] have a1: "ag_name a1 \<notin> set (map ag_name (of_agents w))" "of_agents w1 = of_agents w @ [a1]"
      "ag_task a1 = None" "ag_id a1 \<noteq> 0" by auto
    then have "of_agents (put_agent a5 w1) = of_agents w @ [a5]" using a5(1) by simp
    with a1 a5 show ?thesis using fresh_agent_ok [OF ok, of "put_agent a5 w1" a5] by simp
  qed
  have "a6 = a5" "of_agents w2 = of_agents (put_agent a5 w1)"
    using persist_agent_same [OF p5] persist_agent_agents [OF p5] ok5 by simp_all
  moreover from this have "office_ok w2" "a5 \<in> set (of_agents w2)"
    using ok5 office_ok_agents [of w2 "put_agent a5 w1"] by simp_all
  ultimately show ?thesis using held_agent_ok [of w2 a5 "a6\<lparr>ag_requires := io_requires opts\<rparr>" w' a] p7 a5(2) ok5 by simp
qed

lemma set_agent_state_ok:
  assumes "office_ok w" "a \<in> set (of_agents w)" "set_agent_state st a w = (w', a')"
  shows "office_ok w' \<and> a' = a\<lparr>ag_state := st\<rparr> \<and> a' \<in> set (of_agents w')"
proof -
  have "ag_role a = role_planner" "ag_id a \<noteq> 0" using assms(1,2) by (auto simp: office_ok_held list_all_iff)
  then show ?thesis using held_agent_ok [OF assms(1,2), of "a\<lparr>ag_state := st\<rparr>" w' a'] assms(3)
    by (simp add: set_agent_state_def Let_def)
qed

lemma held_tasks_filter: "distinct (held_tasks as) \<Longrightarrow> distinct (held_tasks (filter P as))"
  by (induction as) (auto simp: held_tasks_Cons held_tasks_set split: option.splits if_splits)

lemma factory_delete_ok: "office_ok w \<Longrightarrow> office_ok (factory_delete n w)"
  by (auto simp: office_ok_held factory_delete_def held_tasks_filter distinct_map_filter list_all_iff)

lemma close_agent_ok:
  assumes "office_ok w" "a \<in> set (of_agents w)"
  shows "office_ok (close_agent a w)"
proof -
  obtain w1 a1 where s: "stop_agent a w = (w1, a1)" by fastforce
  have ok: "office_ok w1" using set_agent_state_ok [OF assms, of state_idle w1 a1] s by (simp add: stop_agent_def)
  obtain w2 a2 where p: "persist_agent a1 w1 = (w2, a2)" by fastforce
  have "office_ok w2" using persist_agent_agents [OF p] ok office_ok_agents [of w2 w1] by simp
  moreover have "office_ok (factory_delete (ag_name a1) (w1\<lparr>of_rows := x\<rparr>))" for x
    using factory_delete_ok [of "w1\<lparr>of_rows := x\<rparr>"] ok office_ok_agents [of "w1\<lparr>of_rows := x\<rparr>" w1] by simp
  ultimately show ?thesis using s p by (simp add: close_agent_def)
qed

text \<open>What a process does with its planners.\<close>

datatype office_request =
    ResumeTask task
  | InitializeAgent init_options
  | StartAgent string
  | StopAgent string
  | CloseAgent string

fun planner_request :: "office_request \<Rightarrow> bool" where
  "planner_request (InitializeAgent opts) \<longleftrightarrow> trim (io_role opts) = [] \<or> io_role opts = role_planner"
| "planner_request _ \<longleftrightarrow> True"

fun office_step :: "(string \<Rightarrow> string) \<Rightarrow> office \<Rightarrow> office_request \<Rightarrow> office" where
  "office_step wd w (ResumeTask t) = fst (resume_agent_for_task wd t w)"
| "office_step wd w (InitializeAgent opts) = fst (initialize wd opts w)"
| "office_step wd w (StartAgent n) = (case factory_get n w of None \<Rightarrow> w | Some a \<Rightarrow> fst (start_agent a w))"
| "office_step wd w (StopAgent n) = (case factory_get n w of None \<Rightarrow> w | Some a \<Rightarrow> fst (stop_agent a w))"
| "office_step wd w (CloseAgent n) = (case factory_get n w of None \<Rightarrow> w | Some a \<Rightarrow> close_agent a w)"

lemma office_step_ok:
  assumes "office_ok w" and "planner_request q"
  shows "office_ok (office_step wd w q)"
proof (cases q)
  case (ResumeTask t)
  then show ?thesis using resume_ok [OF assms(1), of wd t] by (cases "resume_agent_for_task wd t w") auto
next
  case (InitializeAgent opts)
  then show ?thesis using initialize_ok [OF assms(1), of opts wd] assms(2) by (cases "initialize wd opts w") auto
next
  case (StartAgent n)
  then show ?thesis using assms(1) set_agent_state_ok [OF assms(1)]
    by (auto simp: start_agent_def dest!: factory_get_Some split: option.splits) (metis fst_conv surj_pair)
next
  case (StopAgent n)
  then show ?thesis using assms(1) set_agent_state_ok [OF assms(1)]
    by (auto simp: stop_agent_def dest!: factory_get_Some split: option.splits) (metis fst_conv surj_pair)
next
  case (CloseAgent n)
  then show ?thesis using assms(1) close_agent_ok [OF assms(1)] by (auto dest!: factory_get_Some split: option.splits)
qed

lemma for_task_iff:
  assumes "office_ok w" and "trim t = t" "t \<noteq> []"
  shows "for_task t w = Some a \<longleftrightarrow> a \<in> set (of_agents w) \<and> plans_for t a"
proof
  assume "for_task t w = Some a"
  then show "a \<in> set (of_agents w) \<and> plans_for t a" using for_task_Some assms(2) by force
next
  assume a: "a \<in> set (of_agents w) \<and> plans_for t a"
  then obtain b where b: "for_task t w = Some b" using assms(2,3)
    by (cases "for_task t w") (auto simp: for_task_def find_None_iff)
  then have "b \<in> set (of_agents w)" "ag_task b = Some t" using for_task_Some [OF b] assms(2) by (auto simp: plans_for_def)
  moreover have "ag_task a = Some t" using a by (simp add: plans_for_def)
  ultimately have "a = b" using assms a
  proof -
    have "x = y" if "distinct (held_tasks as)" "x \<in> set as" "y \<in> set as" "ag_task x = Some t" "ag_task y = Some t" for x y and as
      using that assms(2,3) by (induction as) (auto simp: held_tasks_Cons held_tasks_set split: option.splits if_splits)
    then show ?thesis using assms(1) a \<open>b \<in> set (of_agents w)\<close> \<open>ag_task b = Some t\<close> \<open>ag_task a = Some t\<close>
      by (auto simp: office_ok_held)
  qed
  with b show "for_task t w = Some a" by simp
qed

text \<open>
  C20: A task has one planner in a process.  From an empty factory, over whatever rows an earlier
  process left and whatever fails in the database, after any sequence of instructions, planner
  initialisations, starts, stops and closings, the planner \<open>ForTask\<close> answers for a task is the only
  one that holds it, so the answer does not depend on the order the map is walked in.
\<close>

theorem one_planner_per_task:
  assumes "list_all planner_request requests" and "trim t = t" "t \<noteq> []"
  shows "for_task t (foldl (office_step wd) (new_agent_factory rows tasks) requests) = Some a \<longleftrightarrow>
    a \<in> set (of_agents (foldl (office_step wd) (new_agent_factory rows tasks) requests)) \<and> plans_for t a"
proof -
  have "office_ok w \<Longrightarrow> office_ok (foldl (office_step wd) w requests)" for w
    using assms(1) by (induction requests arbitrary: w) (simp_all add: office_step_ok)
  moreover have "office_ok (new_agent_factory rows tasks)" by (simp add: office_ok_held new_agent_factory_def)
  ultimately show ?thesis using for_task_iff assms(2,3) by blast
qed

lemma sample_values [simp]:
  "trim ''t1'' = ''t1''" "trim ''t2'' = ''t2''" "agent_name_for 10000 = ''agent-10000''" "agent_name_for 10001 = ''agent-10001''"
  "agent_name_for 10007 = ''agent-10007''"
  by (code_simp, code_simp, simp_all add: agent_name_for_def show_nat.simps digit_char_def)

lemmas office_eval = resume_agent_for_task_def stored_agent_for_task_def new_agent_factory_def for_task_def bare_task_def
  plans_for_def for_initialization_def create_agent_def new_agent_def persist_agent_def number_agent_def name_agent_def
  factory_get_def pair_task_def put_agent_def office_persist_task_def persist_task_def upsert_agent_def agent_call_def
  get_agent_def scan_agent_def row_of_agent_def adopt_def restored_agent_def close_agent_def stop_agent_def start_agent_def
  set_agent_state_def is_ephemeral_def zero_agent_def agent_words Let_def

lemma one_planner_per_task_witness:
  "for_task ''t2'' (foldl (office_step (\<lambda>n. n)) (new_agent_factory None None)
      [ResumeTask (bare_task ''t1''), ResumeTask (bare_task ''t2''), CloseAgent ''agent-10000'', ResumeTask (bare_task ''t2'')]) =
    Some (zero_agent\<lparr>ag_id := 10001, ag_name := ''agent-10001'', ag_state := ''idle'', ag_lifecycle := ''persistent'',
      ag_backend := ''local'', ag_workspace := ''agent-10001'', ag_role := ''planner'', ag_task := Some ''t2''\<rparr>)"
  by (subst one_planner_per_task) (simp_all add: office_eval)

section \<open>A task continued by the agent it was paired with\<close>

lemma restored_fields [simp]:
  "ag_id (restored_agent a t) = ag_id a" "ag_name (restored_agent a t) = ag_name a"
  "ag_provider (restored_agent a t) = ag_provider a" "ag_model (restored_agent a t) = ag_model a"
  "ag_llm_agent (restored_agent a t) = ag_llm_agent a" "ag_task (restored_agent a t) = Some (tk_id t)"
  "ag_role (restored_agent a t) = role_planner" "ag_state (restored_agent a t) = state_idle"
  "ag_lifecycle (restored_agent a t) = lifecycle_persistent" "ag_account (restored_agent a t) = []"
  "ag_requires (restored_agent a t) = False" "ag_pending (restored_agent a t) = None"
  "ag_workspace (restored_agent a t) = []"
  by (simp_all add: restored_agent_def zero_agent_def)

lemma scan_agent_fields [simp]:
  "ag_id (scan_agent r) = gr_id r" "ag_name (scan_agent r) = gr_name r" "ag_provider (scan_agent r) = gr_provider r"
  "ag_model (scan_agent r) = gr_model r" "ag_llm_agent (scan_agent r) = gr_llm_agent r" "ag_deleted (scan_agent r) = gr_deleted r"
  by (simp_all add: scan_agent_def)

text \<open>
  C21: A process that has no agent for a task yet continues it with the agent the task was paired
  with: when the task names an agent whose row is not deleted and whose name is free, over a table
  that answers, the instruction gets a planner with that row's id, name, provider, model and
  provider session, idle, kept, registered as the task's planner, and no row is written.
\<close>

theorem task_continued_by_its_agent:
  assumes "for_task (tk_id t) w = None" and "trim (tk_id t) = tk_id t" "tk_id t \<noteq> []"
    and "of_rows w = Some s" "gt_faults s = []" "tk_agent t \<noteq> 0"
    and r: "find (\<lambda>r. gr_id r = tk_agent t) (gt_rows s) = Some r" "\<not> gr_deleted r" "gr_name r \<noteq> []"
    and "factory_get (gr_name r) w = None"
  shows "\<exists>w' t' a. resume_agent_for_task wd t w = (w', t', Inr a) \<and> of_rows w' = of_rows w \<and> of_tasks w' = of_tasks w \<and>
    of_agents w' = of_agents w @ [a] \<and> for_task (tk_id t) w' = Some a \<and> tk_agent t' = gr_id r \<and>
    ag_id a = gr_id r \<and> ag_name a = gr_name r \<and> ag_provider a = gr_provider r \<and> ag_model a = gr_model r \<and>
    ag_llm_agent a = gr_llm_agent r \<and> ag_state a = state_idle \<and> \<not> is_ephemeral a"
proof -
  let ?t = "t\<lparr>tk_agent := gr_id r\<rparr>"
  let ?a = "(restored_agent (scan_agent r) ?t)\<lparr>ag_workspace := wd (gr_name r)\<rparr>"
  have id: "gr_id r = tk_agent t" using r(1) by (auto simp: find_Some_iff)
  have "s\<lparr>gt_faults := []\<rparr> = s" using assms(5) by simp
  then have got: "get_agent (tk_agent t) s = (s, Inr (Some (scan_agent r)))"
    using assms(5,6) r(1) by (simp add: get_agent_def agent_call_def)
  then have "stored_agent_for_task t w = (w\<lparr>of_rows := Some s\<rparr>, Inr (Some (scan_agent r)))"
    using assms(2-6) r(2) by (simp add: stored_agent_for_task_def)
  moreover have "w\<lparr>of_rows := Some s\<rparr> = w" using assms(4) by simp
  moreover have "adopt wd (restored_agent (scan_agent r) ?t) w = (w\<lparr>of_agents := of_agents w @ [?a]\<rparr>, ?a)"
    using assms(10) r(3) by (simp add: adopt_def name_agent_def Let_def)
  ultimately have res: "resume_agent_for_task wd t w = (w\<lparr>of_agents := of_agents w @ [?a]\<rparr>, ?t, Inr ?a)"
    using assms(1) by (simp add: resume_agent_for_task_def Let_def)
  have "for_task (tk_id t) (w\<lparr>of_agents := of_agents w @ [?a]\<rparr>) = Some ?a"
    using assms(1-3) by (auto simp: for_task_def find_append_case plans_for_def split: option.splits)
  with res show ?thesis by (intro exI [of _ "w\<lparr>of_agents := of_agents w @ [?a]\<rparr>"] exI [of _ ?t] exI [of _ ?a])
      (simp add: is_ephemeral_def agent_words)
qed

definition sample_row :: "nat \<Rightarrow> string \<Rightarrow> string \<Rightarrow> agent_row" where
  "sample_row i t acc =
    \<lparr>gr_id = i, gr_name = agent_name_for i, gr_state = ''running'', gr_lifecycle = ''persistent'', gr_task = t, gr_context = [],
     gr_llm_agent = ''s-1'', gr_provider = ''cursor'', gr_model = ''m'', gr_account = acc, gr_deleted = False\<rparr>"

definition sample_office :: office where
  "sample_office = new_agent_factory (Some \<lparr>gt_rows = [sample_row 10007 ''t1'' ''acct-2''], gt_seq = 10007, gt_faults = []\<rparr>) None"

lemma task_continued_by_its_agent_witness:
  "\<exists>w' t' a. resume_agent_for_task (\<lambda>n. n) ((bare_task ''t1'')\<lparr>tk_agent := 10007\<rparr>) sample_office = (w', t', Inr a) \<and>
    ag_name a = ''agent-10007'' \<and> ag_llm_agent a = ''s-1''"
proof -
  have n: "gr_name (sample_row 10007 ''t1'' ''acct-2'') = ''agent-10007''" "gr_llm_agent (sample_row 10007 ''t1'' ''acct-2'') = ''s-1''"
    by (simp_all add: sample_row_def)
  let ?t = "(bare_task ''t1'')\<lparr>tk_agent := 10007\<rparr>" and ?r = "sample_row 10007 ''t1'' ''acct-2''"
  let ?s = "\<lparr>gt_rows = [?r], gt_seq = 10007, gt_faults = []\<rparr>"
  have t: "for_task (tk_id ?t) sample_office = None" "trim (tk_id ?t) = tk_id ?t" "tk_id ?t \<noteq> []" "tk_agent ?t \<noteq> 0"
    by (simp_all add: bare_task_def sample_office_def new_agent_factory_def for_task_def)
  have o: "of_rows sample_office = Some ?s" "gt_faults ?s = []" "factory_get (gr_name ?r) sample_office = None"
    by (simp_all add: sample_office_def new_agent_factory_def factory_get_def)
  have r: "find (\<lambda>r. gr_id r = tk_agent ?t) (gt_rows ?s) = Some ?r" "\<not> gr_deleted ?r" "gr_name ?r \<noteq> []"
    by (simp_all add: sample_row_def)
  from task_continued_by_its_agent [OF t(1-3) o(1,2) t(4) r o(3), of "\<lambda>n. n"] show ?thesis unfolding n by blast
qed

section \<open>What a restart forgets\<close>

lemma resume_in_new_process:
  assumes "resume_agent_for_task wd t (new_agent_factory rows tasks) = (w', t', Inr a)"
  shows "ag_requires a = False \<and> ag_account a = [] \<and> ag_pending a = None \<and> ag_role a = role_planner"
proof -
  let ?w = "new_agent_factory rows tasks"
  have none: "for_task (tk_id t) ?w = None" by (simp add: new_agent_factory_def for_task_def)
  obtain w1 r1 where s: "stored_agent_for_task t ?w = (w1, r1)" by fastforce
  have empty: "of_agents w1 = []" using stored_agent_agents [OF s] by (simp add: new_agent_factory_def)
  obtain r2 where r2: "r1 = Inr r2" using assms none s by (cases r1) (auto simp: resume_agent_for_task_def)
  show ?thesis
  proof (cases r2)
    case None
    have "for_initialization w1 = None" by (simp add: for_initialization_def empty)
    then obtain t2 where c: "create_agent wd (Some t) w1 = (w', a, t2)"
      using assms none s r2 None by (auto simp: resume_agent_for_task_def split: prod.splits)
    obtain w2 a1 where n: "new_agent wd w1 = (w2, a1)" by fastforce
    have "ag_requires a1 = False" "ag_account a1 = []" "ag_pending a1 = None" using new_agent_cases [OF n] empty by auto
    then show ?thesis using c n
      by (auto simp: create_agent_def pair_task_def Let_def dest: persist_agent_role split: prod.splits)
  next
    case (Some stored)
    then have "adopt wd (restored_agent stored (t\<lparr>tk_agent := ag_id stored\<rparr>)) w1 = (w', a)"
      using assms none s r2 by (auto simp: resume_agent_for_task_def Let_def split: prod.splits)
    then show ?thesis using empty
      by (auto simp: adopt_def name_agent_def factory_get_def Let_def split: if_splits)
  qed
qed

text \<open>
  After a restart no plan waits for its confirmation any more.  That an agent must have its plans
  confirmed, and the plan it is waiting on, are kept by the process only: whatever the rows say, the
  agent a new process continues a task with needs approval for no decision and has no plan pending.
\<close>

theorem restart_forgets_the_confirmation:
  assumes "resume_agent_for_task wd t (new_agent_factory rows tasks) = (w', t', Inr a)"
  shows "\<not> needs_plan_approval (planner_of a) d \<and> pa_pending (planner_of a) = None"
  using resume_in_new_process [OF assms] by (simp add: planner_of_def needs_plan_approval_def)

lemma sample_resume:
  "\<exists>w' t' a. resume_agent_for_task (\<lambda>n. n) ((bare_task ''t1'')\<lparr>tk_agent := 10007\<rparr>)
     (new_agent_factory (Some \<lparr>gt_rows = [sample_row 10007 ''t1'' ''acct-2''], gt_seq = 10007, gt_faults = []\<rparr>) None) = (w', t', Inr a)"
  by (simp add: office_eval sample_row_def)

lemma restart_forgets_the_confirmation_witness:
  "\<exists>w' t' a. resume_agent_for_task (\<lambda>n. n) ((bare_task ''t1'')\<lparr>tk_agent := 10007\<rparr>)
     (new_agent_factory (Some \<lparr>gt_rows = [sample_row 10007 ''t1'' ''acct-2''], gt_seq = 10007, gt_faults = []\<rparr>) None) = (w', t', Inr a) \<and>
    pa_pending (planner_of a) = None \<and> (\<forall>d. \<not> needs_plan_approval (planner_of a) d)"
  using sample_resume restart_forgets_the_confirmation by blast

text \<open>
  A restarted process bills another account.  The agent a new process continues a task with has
  no account, whatever account its row records, so the runtime plan takes the pool's, and the next
  write of the agent erases the recorded one from its row.
\<close>

theorem restart_bills_another_account:
  assumes "resume_agent_for_task wd t (new_agent_factory rows tasks) = (w', t', Inr a)"
    and "requested_backend env (rp_backend policy) \<noteq> backend_local"
  shows "account_for_agent env up a policy delegating (Some s) =
      map_prod Some id (pool_account up (requested_backend env (rp_backend policy)) s) \<and>
    gr_account (row_of_agent a) = []"
  using resume_in_new_process [OF assms(1)] assms(2)
  by (auto simp: account_for_agent_def own_account_def row_of_agent_def agent_words split: option.splits)

definition two_accounts :: account_table where
  "two_accounts = foldl (pool_step (\<lambda>_. None)) \<lparr>at_rows = [], at_faults = []\<rparr>
     [AddAccount ''1'' 1 (sample_input ''cursor'' ''one'' ''/w/a'' True), AddAccount ''2'' 2 (sample_input ''cursor'' ''two'' ''/w/b'' False)]"

lemma plan_bills_what_it_may_witness:
  "\<exists>pool' p ac. assign_agent_runtime \<lparr>en_backend = [], en_extends = []\<rparr> (\<lambda>_. None) (\<lambda>_. ''m'')
      (zero_agent\<lparr>ag_account := ''acct-2''\<rparr>) (ag_policy zero_agent) None (Some two_accounts) = (pool', Inr p) \<and>
    pl_account p = Some ac \<and> ac_enabled ac \<and> ac_id ac = ''acct-2'' \<and> pl_backend p = ac_harness ac"
proof -
  let ?x = "assign_agent_runtime \<lparr>en_backend = [], en_extends = []\<rparr> (\<lambda>_. None) (\<lambda>_. ''m'')
      (zero_agent\<lparr>ag_account := ''acct-2''\<rparr>) (ag_policy zero_agent) None (Some two_accounts)"
  have "case snd ?x of Inr p \<Rightarrow> pl_account p \<noteq> None | Inl _ \<Rightarrow> False" by code_simp
  then obtain pool' p ac where x: "?x = (pool', Inr p)" "pl_account p = Some ac"
    by (cases ?x) (auto split: sum.splits)
  have "list_all (\<lambda>r. ac_harness r \<noteq> []) (at_rows two_accounts)" by code_simp
  then have rows: "ac_harness r \<noteq> []" if "Some two_accounts = Some s" "r \<in> set (at_rows s)" for s r
    using that by (auto simp: list_all_iff)
  have t: "trim (ag_account (zero_agent\<lparr>ag_account := ''acct-2''\<rparr>)) = ''acct-2''" by code_simp
  show ?thesis using plan_bills_what_it_may [OF x rows] x unfolding t by auto
qed

lemma restart_bills_another_account_witness:
  "\<exists>w' t' a pool' ac why. resume_agent_for_task (\<lambda>n. n) ((bare_task ''t1'')\<lparr>tk_agent := 10007\<rparr>)
     (new_agent_factory (Some \<lparr>gt_rows = [sample_row 10007 ''t1'' ''acct-2''], gt_seq = 10007, gt_faults = []\<rparr>) None) = (w', t', Inr a) \<and>
    account_for_agent \<lparr>en_backend = [], en_extends = []\<rparr> (\<lambda>_. None) a (ag_policy zero_agent) None (Some two_accounts) =
      (pool', Inr (Some ac, why)) \<and> ac_id ac = ''acct-1'' \<and> gr_account (row_of_agent a) = []"
proof -
  let ?env = "\<lparr>en_backend = [], en_extends = []\<rparr>"
  have b: "requested_backend ?env (rp_backend (ag_policy zero_agent)) = harness_cursor" by code_simp
  have p: "map_option (\<lambda>x. ac_id (fst x)) (case snd (pool_account (\<lambda>_. None) harness_cursor two_accounts) of
      Inr (Some ac, why) \<Rightarrow> Some (ac, why) | _ \<Rightarrow> None) = Some ''acct-1''" by code_simp
  obtain pool' ac why where q: "pool_account (\<lambda>_. None) harness_cursor two_accounts = (pool', Inr (Some ac, why))" "ac_id ac = ''acct-1''"
    using p by (cases "pool_account (\<lambda>_. None) harness_cursor two_accounts") (auto split: sum.splits option.splits prod.splits)
  obtain w' t' a where r: "resume_agent_for_task (\<lambda>n. n) ((bare_task ''t1'')\<lparr>tk_agent := 10007\<rparr>)
     (new_agent_factory (Some \<lparr>gt_rows = [sample_row 10007 ''t1'' ''acct-2''], gt_seq = 10007, gt_faults = []\<rparr>) None) = (w', t', Inr a)"
    using sample_resume by blast
  have nl: "requested_backend ?env (rp_backend (ag_policy zero_agent)) \<noteq> backend_local" unfolding b by code_simp
  show ?thesis using restart_bills_another_account [OF r nl, of "\<lambda>_. None" None two_accounts] q r unfolding b by auto
qed

section \<open>A failed insert\<close>

text \<open>
  When the row of a new agent cannot be written, its id is counted from 10000, where the rows
  start too.  So a failed insert can take over the agent of another task that this process holds under
  that name and leave that task without an agent, as it does for this one.
\<close>

theorem failed_insert_steals_an_agent:
  "let w = fst (resume_agent_for_task (\<lambda>n. n) (bare_task ''t1'')
             (new_agent_factory (Some \<lparr>gt_rows = [], gt_seq = 9999, gt_faults = []\<rparr>) None));
       w1 = w\<lparr>of_rows := map_option (\<lambda>s. s\<lparr>gt_faults := [Some ''disk full'']\<rparr>) (of_rows w)\<rparr>;
       w2 = fst (resume_agent_for_task (\<lambda>n. n) (bare_task ''t2'') w1)
   in map_option ag_id (for_task ''t1'' w1) = Some 10000 \<and>
      map_option ag_id (for_task ''t2'' w2) = Some 10000 \<and> for_task ''t1'' w2 = None"
  by (simp add: office_eval)

end
