(* ===== verification/Graceful_Laws.thy ===== *)
theory Graceful_Laws
  imports Graceful Agent_Laws
begin

text \<open>
  What the graceful restart keeps: how often a drain resumes, what a shutdown leaves on the rows of
  the runs it cuts, and which runs a new process starts.
\<close>

section \<open>The drain\<close>

datatype drain_event = DrainBegin restart_notice bool int | DrainExpire | DrainFinish | DrainStop

fun drain_step :: "drain_event \<Rightarrow> drain \<Rightarrow> drain \<times> bool" where
  "drain_step (DrainBegin n w now) d = (drain_begin n w now d, False)"
| "drain_step DrainExpire d = drain_expire d"
| "drain_step DrainFinish d = drain_finish d"
| "drain_step DrainStop d = (drain_stop d, False)"

text \<open>The drain after a sequence of events, and how often the held agents were resumed.\<close>

fun drain_run :: "drain_event list \<Rightarrow> drain \<Rightarrow> drain \<times> nat" where
  "drain_run [] d = (d, 0)"
| "drain_run (e # es) d =
    (case drain_step e d of (d1, resumed) \<Rightarrow> (case drain_run es d1 of (d2, n) \<Rightarrow> (d2, (if resumed then 1 else 0) + n)))"

definition begins :: "drain_event list \<Rightarrow> nat" where
  "begins es = length (filter (\<lambda>e. case e of DrainBegin _ _ _ \<Rightarrow> True | _ \<Rightarrow> False) es)"

lemma drain_run_bound:
  "drain_run es d = (d', n) \<Longrightarrow> n + (if dr_active d' then 1 else 0) \<le> begins es + (if dr_active d then 1 else 0)"
proof (induction es arbitrary: d n)
  case (Cons e es)
  obtain d1 r where s: "drain_step e d = (d1, r)" by fastforce
  obtain m where m: "drain_run es d1 = (d', m)" "n = (if r then 1 else 0) + m"
    using Cons.prems s by (auto split: prod.splits)
  have "(if r then 1 else 0) + (if dr_active d1 then 1 else 0) \<le> begins [e] + (if dr_active d then 1 else (0::nat))"
    using s by (cases e) (auto simp: begins_def drain_begin_def drain_finish_def drain_expire_def drain_stop_def split: if_splits)
  moreover have "begins (e # es) = begins [e] + begins es" by (simp add: begins_def)
  ultimately show ?case using Cons.IH [OF m(1)] m(2) by simp
qed (simp add: begins_def)

section \<open>The shutdown\<close>

lemma wait_uses_the_grace: "wait_for_idle_runs tick grace app = (app', g, False) \<Longrightarrow> g = 0"
  by (induction tick grace app rule: wait_for_idle_runs.induct)
    (auto simp: wait_for_idle_runs.simps [of _ "_ :: nat"] split: if_splits nat.splits)

lemma wait_no_grace: "fst (wait_for_idle_runs tick 0 app) = app"
  by (simp add: wait_for_idle_runs.simps)

text \<open>A row that a stop by the runtime settles, and one that says so already.\<close>

definition open_row :: "task option \<Rightarrow> bool" where
  "open_row r = (case r of None \<Rightarrow> False
     | Some r \<Rightarrow> tk_status r = status_running \<or> tk_status r = status_pending \<or> tk_status r = [])"

lemma stop_other_task:
  assumes "ap_tasks app = Some s" "task_calm s" "stop_task i r app = (app', x)"
  shows "\<exists>s'. ap_tasks app' = Some s' \<and> task_calm s' \<and> ap_inflight app' = ap_inflight app \<and>
    (\<forall>j. j \<noteq> trim i \<longrightarrow> task_row j s' = task_row j s)"
proof (cases "trim i = [] \<or> task_row (trim i) s = None \<or> trim i \<notin> set (ap_inflight app)")
  case True
  then have "ap_tasks app' = Some s \<and> ap_inflight app' = ap_inflight app"
    using assms by (cases "trim i = []")
      (auto simp: stop_task_def get_task_def [of "[]"] get_task_calm Let_def split: option.splits)
  with assms(2) show ?thesis by auto
next
  case False
  then obtain row where row: "task_row (trim i) s = Some row" by auto
  then have id: "tk_id row = trim i" by (auto simp: task_row_def find_Some_iff)
  let ?rs = "set_stop_reason (trim i) r (ap_reasons app)"
  have app': "ap_tasks app' = snd (mark_stopped ?rs row (Some s))" "ap_inflight app' = ap_inflight app"
    using assms False row by (auto simp: stop_task_def get_task_calm Let_def)
  show ?thesis
  proof (cases "open_row (Some row)")
    case True
    then have "ap_tasks app' = Some (fst (upsert_task (fst (mark_stopped ?rs row (Some s))) s))"
      and "tk_id (fst (mark_stopped ?rs row (Some s))) = trim i"
      using app'(1) id by (auto simp: mark_stopped_def open_row_def persist_task_def Let_def)
    then show ?thesis using app'(2) task_calm_upsert [OF assms(2)] task_row_upsert_other [OF assms(2)] by auto
  next
    case False
    then have "mark_stopped ?rs row (Some s) = (row, Some s)" by (simp add: mark_stopped_def open_row_def)
    then show ?thesis using app' assms(2) by auto
  qed
qed

lemma stop_this_task:
  assumes "ap_tasks app = Some s" "task_calm s" "trim i = t" "t \<noteq> []" "t \<in> set (ap_inflight app)" "is_runtime_stop r"
    and "open_row (task_row t s) \<or> is_runtime_stop_record (task_row t s)" and "stop_task i r app = (app', x)"
  shows "\<exists>s'. ap_tasks app' = Some s' \<and> is_runtime_stop_record (task_row t s')"
proof -
  obtain row where row: "task_row t s = Some row"
    using assms(7) by (cases "task_row t s") (auto simp: open_row_def is_runtime_stop_record_def)
  then have id: "tk_id row = t" by (auto simp: task_row_def find_Some_iff)
  let ?rs = "set_stop_reason t r (ap_reasons app)"
  let ?m = "fst (mark_stopped ?rs row (Some s))"
  have app': "ap_tasks app' = snd (mark_stopped ?rs row (Some s))"
    using assms row by (auto simp: stop_task_def get_task_calm Let_def)
  show ?thesis
  proof (cases "open_row (Some row)")
    case True
    have tt: "trim t = t" using assms(3) by auto
    have reason: "stop_reason_of t ?rs = Some r"
      using tt assms(4) by (simp add: set_stop_reason_def stop_reason_of_def update_Some_unfold)
    have "is_runtime_stop_record (Some ?m)"
      using mark_stopped_record [of row ?rs "Some s"] True reason assms(6) by (simp add: id open_row_def)
    moreover have m: "ap_tasks app' = Some (fst (upsert_task ?m s))" "tk_id ?m = t"
      using app' True id by (auto simp: mark_stopped_def open_row_def persist_task_def Let_def)
    moreover obtain row' where "task_row t (fst (upsert_task ?m s)) = Some row'" "tk_status row' = tk_status ?m" "tk_error row' = tk_error ?m"
      using task_row_upsert [OF assms(2), of ?m] m(2) by auto
    ultimately show ?thesis by (auto simp: is_runtime_stop_record_def)
  next
    case False
    then have "mark_stopped ?rs row (Some s) = (row, Some s)" by (simp add: mark_stopped_def open_row_def)
    then show ?thesis using app' assms(7) row False by simp
  qed
qed

lemma stop_tasks_record:
  assumes "ap_tasks app = Some s" "task_calm s" "t \<noteq> []" "t \<in> set (ap_inflight app)" "is_runtime_stop r"
    and "is_runtime_stop_record (task_row t s) \<or> (open_row (task_row t s) \<and> t \<in> set (map trim ts))"
  shows "\<exists>s'. ap_tasks (fst (stop_tasks r ts app)) = Some s' \<and> is_runtime_stop_record (task_row t s')"
  using assms
proof (induction ts arbitrary: app s)
  case (Cons i ts)
  obtain app' x where st: "stop_task i r app = (app', x)" by fastforce
  obtain s' where s': "ap_tasks app' = Some s'" "task_calm s'" "ap_inflight app' = ap_inflight app"
    "\<forall>j. j \<noteq> trim i \<longrightarrow> task_row j s' = task_row j s"
    using stop_other_task [OF Cons.prems(1,2) st] by blast
  have "is_runtime_stop_record (task_row t s') \<or> (open_row (task_row t s') \<and> t \<in> set (map trim ts))"
  proof (cases "trim i = t")
    case True
    then show ?thesis using stop_this_task [OF Cons.prems(1,2) True Cons.prems(3-5) _ st] Cons.prems(6) s'(1) by auto
  next
    case False
    then show ?thesis using Cons.prems(6) s'(4) by auto
  qed
  from Cons.IH [OF s'(1,2) Cons.prems(3) _ Cons.prems(5) this] s'(3) Cons.prems(4) st show ?case
    by (auto split: sum.splits prod.splits)
qed auto

text \<open>
  C16: A shutdown leaves every run it cuts on record as the runtime's stop: when the grace is used up
  with runs in flight, over a task table that answers, each of them whose row was still open is marked
  stopped by the runtime.  The process then leaves at once: the grace being used up, the second wait
  gives the stopped runs no time to unwind.
\<close>

theorem shutdown_records_its_cuts:
  assumes "wait_for_idle_runs tick grace app = (app1, g, False)"
    and "ap_tasks app1 = Some s" "task_calm s"
    and "t \<in> set (ap_inflight app1)" "trim t = t" "t \<noteq> []" "open_row (task_row t s)"
  shows "\<exists>d' app' s'. shutdown tick grace now d app = (d', app') \<and> dr_active d' \<and> \<not> dr_armed d' \<and>
    ap_tasks app' = Some s' \<and> is_runtime_stop_record (task_row t s') \<and>
    app' = fst (stop_tasks (shutdown_reason (dr_notice d)) (running_task_ids (ap_inflight app1)) app1)"
proof -
  let ?r = "shutdown_reason (dr_notice d)"
  let ?ids = "running_task_ids (ap_inflight app1)"
  have "t \<in> set ?ids" using assms(4-6) by (simp add: running_task_ids_def)
  then have "t \<in> set (map trim ?ids)" using assms(5) by (metis image_eqI set_map)
  moreover have "is_runtime_stop ?r" by (simp add: is_runtime_stop_def shutdown_reason_def)
  ultimately obtain s' where s': "ap_tasks (fst (stop_tasks ?r ?ids app1)) = Some s'" "is_runtime_stop_record (task_row t s')"
    using stop_tasks_record [OF assms(2,3,6,4), of ?r ?ids] assms(7) by blast
  have g: "g = 0" using wait_uses_the_grace [OF assms(1)] .
  have "snd (shutdown tick grace now d app) = fst (stop_tasks ?r ?ids app1)"
    using assms(1) by (simp add: shutdown_def Let_def g wait_no_grace split: prod.splits)
  moreover have "dr_active (fst (shutdown tick grace now d app))" "\<not> dr_armed (fst (shutdown tick grace now d app))"
    by (simp_all add: shutdown_def Let_def drain_begin_def split: prod.splits bool.splits)
  ultimately show ?thesis using s' by (cases "shutdown tick grace now d app") auto
qed

definition cut_app :: "unit app" where
  "cut_app = \<lparr>ap_rt = undefined, ap_tasks = Some \<lparr>tk_rows = [(bare_task ''t1'')\<lparr>tk_status := ''running''\<rparr>], tk_faults = []\<rparr>,
     ap_reasons = [], ap_inflight = [''t1'']\<rparr>"

lemma shutdown_records_its_cuts_witness:
  "\<exists>d' app' s'. shutdown (\<lambda>a. a) 3 7 (new_restart_drain 60) cut_app = (d', app') \<and> ap_tasks app' = Some s' \<and>
    is_runtime_stop_record (task_row ''t1'' s')"
proof -
  have t: "trim ''t1'' = ''t1''" by code_simp
  have ids: "running_task_ids (ap_inflight cut_app) \<noteq> []" by (simp add: running_task_ids_def cut_app_def t)
  have w: "wait_for_idle_runs (\<lambda>a. a) 3 cut_app = (cut_app, 0, False)"
    by (simp add: wait_for_idle_runs.simps ids numeral_3_eq_3)
  have row: "open_row (task_row ''t1'' \<lparr>tk_rows = [(bare_task ''t1'')\<lparr>tk_status := ''running''\<rparr>], tk_faults = []\<rparr>)"
    by (simp add: open_row_def task_row_def bare_task_def status_words)
  have a: "ap_tasks cut_app = Some \<lparr>tk_rows = [(bare_task ''t1'')\<lparr>tk_status := ''running''\<rparr>], tk_faults = []\<rparr>"
    and i: "''t1'' \<in> set (ap_inflight cut_app)"
    by (simp_all add: cut_app_def)
  show ?thesis
    using shutdown_records_its_cuts [OF w a _ i t _ row, of 7 "new_restart_drain 60"] by (auto simp: task_calm_def)
qed

section \<open>The boot\<close>

lemma inbox_statement_rows: "statement s = (s', e) \<Longrightarrow> ms_rows s' = ms_rows s"
  by (auto simp: statement_def split: list.splits)

lemma agent_message_rows: "agent_message i s = (s', r) \<Longrightarrow> ms_rows s' = ms_rows s \<and> (\<forall>m. r = Inr m \<longrightarrow> m \<in> set (ms_rows s) \<and> msg_id m = i)"
  by (auto simp: agent_message_def find_Some_iff dest!: inbox_statement_rows split: prod.splits option.splits)

lemma read_messages_rows:
  "read_messages is s = (s', r) \<Longrightarrow> ms_rows s' = ms_rows s \<and>
     (\<forall>ms. r = Inr ms \<longrightarrow> set ms \<subseteq> set (ms_rows s) \<and> msg_id ` set ms \<subseteq> set is)"
proof (induction "is" arbitrary: s s' r)
  case (Cons i "is")
  obtain s1 r1 where a: "agent_message i s = (s1, r1)" by fastforce
  show ?case
  proof (cases r1)
    case (Inl e)
    then show ?thesis using a Cons.prems agent_message_rows [OF a] by auto
  next
    case (Inr m)
    obtain s2 r2 where b: "read_messages is s1 = (s2, r2)" by fastforce
    have "s' = s2" "r = (case r2 of Inl e \<Rightarrow> Inl e | Inr ms \<Rightarrow> Inr (m # ms))"
      using Cons.prems a b Inr by (auto split: sum.splits)
    then show ?thesis using Cons.IH [OF b] agent_message_rows [OF a] Inr by (auto split: sum.splits)
  qed
qed simp

lemma list_agent_messages_rows:
  assumes "list_agent_messages a n s = (s', r)"
  shows "ms_rows s' = ms_rows s \<and> (\<forall>ms. r = Inr ms \<longrightarrow> set ms \<subseteq> set (ms_rows s) \<and>
    (\<forall>m\<in>set ms. \<exists>q\<in>set (ms_rows s). msg_agent q = a \<and> msg_id q = msg_id m))"
proof (cases "a = 0")
  case True
  with assms show ?thesis by (auto simp: list_agent_messages_def)
next
  case False
  obtain s1 e where st: "statement s = (s1, e)" by fastforce
  have rows: "ms_rows s1 = ms_rows s" using inbox_statement_rows [OF st] .
  show ?thesis
  proof (cases e)
    case (Some x)
    with assms False st rows show ?thesis by (auto simp: list_agent_messages_def)
  next
    case None
    let ?ids = "map msg_id (filter (\<lambda>m. msg_agent m = a) (ms_rows s1))"
    have "read_messages (if n > 0 then take n ?ids else ?ids) s1 = (s', r)"
      using assms False st None by (simp add: list_agent_messages_def Let_def)
    from read_messages_rows [OF this] rows show ?thesis
      by (auto split: if_splits dest!: in_set_takeD) (fastforce simp: image_iff dest: in_set_takeD)+
  qed
qed

lemma later_time_None: "foldl later_time x ts = None \<longleftrightarrow> x = None \<and> ts = []"
  by (induction ts arbitrary: x) (auto simp: later_time_def split: option.splits)

lemma interrupted_rows:
  assumes "interrupted_run_since at a t s = (s', c)"
  shows "ms_rows s' = ms_rows s \<and> (c \<noteq> None \<longrightarrow> (\<exists>m\<in>set (ms_rows s). cut_candidate t m \<and>
    (\<exists>q\<in>set (ms_rows s). msg_agent q = a \<and> msg_id q = msg_id m)))"
proof -
  obtain s1 r where l: "list_agent_messages a 0 s = (s1, r)" by fastforce
  show ?thesis
  proof (cases r)
    case (Inl e)
    then show ?thesis using assms l list_agent_messages_rows [OF l] by (simp add: interrupted_run_since_def)
  next
    case (Inr ms)
    have c: "c = foldl later_time None (map (cut_time at) (filter (cut_candidate t) ms))" "s' = s1"
      using assms l Inr by (simp_all add: interrupted_run_since_def)
    show ?thesis using list_agent_messages_rows [OF l] Inr c(2)
      by (auto simp: c(1) later_time_None filter_empty_conv)
  qed
qed

lemma start_for_started:
  "set (bt_started (start_for wd t b)) \<subseteq> set (bt_started b) \<union> {tk_id t} \<times> UNIV \<and> bt_inbox (start_for wd t b) = bt_inbox b"
  by (auto simp: start_for_def split: prod.splits sum.splits)

text \<open>Why a task is picked up again.\<close>

definition was_cut :: "message list \<Rightarrow> task \<Rightarrow> bool" where
  "was_cut rows t \<longleftrightarrow> tk_agent t \<noteq> 0 \<and> resumable_after_cut t \<and>
     (\<exists>m\<in>set rows. msg_status m = StatusRunning \<and> (msg_task m = [] \<or> tk_id t = [] \<or> msg_task m = tk_id t) \<and>
        (\<exists>q\<in>set rows. msg_agent q = tk_agent t \<and> msg_id q = msg_id m))"

lemma resume_interrupted_started:
  "ms_rows (bt_inbox (resume_interrupted wd at now age t b)) = ms_rows (bt_inbox b) \<and>
   (\<forall>x\<in>set (bt_started (resume_interrupted wd at now age t b)) - set (bt_started b).
      fst x = tk_id t \<and> was_cut (ms_rows (bt_inbox b)) t)"
proof (cases "tk_agent t = 0 \<or> \<not> resumable_after_cut t")
  case True
  then show ?thesis by (simp add: resume_interrupted_def)
next
  case False
  obtain s c where i: "interrupted_run_since at (tk_agent t) (tk_id t) (bt_inbox b) = (s, c)" by fastforce
  have rows: "ms_rows s = ms_rows (bt_inbox b)" using interrupted_rows [OF i] by simp
  have cut: "c \<noteq> None \<Longrightarrow> was_cut (ms_rows (bt_inbox b)) t"
    using interrupted_rows [OF i] False by (auto simp: was_cut_def cut_candidate_def)
  show ?thesis
    using False i rows cut start_for_started [of wd t "b\<lparr>bt_inbox := s\<rparr>"]
    by (auto simp: resume_interrupted_def split: option.splits)
qed

lemma fold_interrupted_started:
  "\<forall>x\<in>set (bt_started (fold (resume_interrupted wd at now age) ts b)) - set (bt_started b).
     \<exists>t\<in>set ts. fst x = tk_id t \<and> was_cut (ms_rows (bt_inbox b)) t"
proof (induction ts arbitrary: b)
  case (Cons t ts)
  let ?b = "resume_interrupted wd at now age t b"
  show ?case
  proof
    fix x assume x: "x \<in> set (bt_started (fold (resume_interrupted wd at now age) (t # ts) b)) - set (bt_started b)"
    show "\<exists>t'\<in>set (t # ts). fst x = tk_id t' \<and> was_cut (ms_rows (bt_inbox b)) t'"
    proof (cases "x \<in> set (bt_started ?b)")
      case True
      then show ?thesis using x resume_interrupted_started [of wd at now age t b] by auto
    next
      case False
      then have "x \<in> set (bt_started (fold (resume_interrupted wd at now age) ts ?b)) - set (bt_started ?b)" using x by simp
      then show ?thesis using Cons.IH [of ?b] resume_interrupted_started [of wd at now age t b] by auto
    qed
  qed
qed simp

text \<open>
  C17: A boot re-enters only runs that were cut.  Every consumer the boot starts for an interrupted run
  is started for a task of the table that is pending, running or stopped by the runtime itself, whose
  agent the process died on: one of its messages is still marked running for that task.  A task that
  concluded, failed or was stopped by a person is never re-entered.
\<close>

theorem boot_reenters_only_cut_runs:
  assumes "of_tasks (bt_office b) = Some ts"
    and "x \<in> set (bt_started (resume_interrupted_runs wd at now pd enabled age b))" and "x \<notin> set (bt_started b)"
  shows "\<exists>t\<in>set (tk_rows ts). fst x = tk_id t \<and> was_cut (ms_rows (bt_inbox b)) t"
proof -
  obtain ts' r where l: "list_tasks ts = (ts', r)" by fastforce
  have rows: "r = Inr rs \<Longrightarrow> rs = tk_rows ts" for rs
    using l by (auto simp: list_tasks_def task_call_def split: prod.splits option.splits list.splits)
  let ?b = "b\<lparr>bt_office := (bt_office b)\<lparr>of_tasks := Some ts'\<rparr>\<rparr>"
  have "r = Inr (tk_rows ts) \<and> x \<in> set (bt_started (fold (resume_interrupted wd at now (resume_max_age pd age)) (tk_rows ts) ?b))"
    using assms l rows by (auto simp: resume_interrupted_runs_def over_tasks_def split: if_splits sum.splits)
  then show ?thesis
    using fold_interrupted_started [of wd at now "resume_max_age pd age" "tk_rows ts" ?b] assms(3) by auto
qed

definition cut_task :: task where
  "cut_task = (bare_task ''t1'')\<lparr>tk_status := ''running'', tk_agent := 10007\<rparr>"

definition cut_message :: message where
  "cut_message = \<lparr>msg_id = 1, msg_agent = 10007, msg_task = ''t1'', msg_sender = ''user'', msg_sender_id = ''user'',
     msg_kind = KindInstruction, msg_content = ''go'', msg_status = StatusRunning, msg_error = []\<rparr>"

definition cut_boot :: boot where
  "cut_boot = \<lparr>bt_office = new_agent_factory (Some \<lparr>gt_rows = [sample_row 10007 ''t1'' []], gt_seq = 10007, gt_faults = []\<rparr>)
       (Some \<lparr>tk_rows = [cut_task], tk_faults = []\<rparr>),
     bt_inbox = \<lparr>ms_rows = [cut_message], ms_faults = []\<rparr>, bt_started = []\<rparr>"

lemma boot_reenters_only_cut_runs_witness:
  "bt_started (resume_interrupted_runs (\<lambda>n. n) (\<lambda>_. (5, 4)) 9 (\<lambda>_. None) [] [] cut_boot) = [(''t1'', ''agent-10007'')] \<and>
   was_cut (ms_rows (bt_inbox cut_boot)) cut_task"
proof
  show s: "bt_started (resume_interrupted_runs (\<lambda>n. n) (\<lambda>_. (5, 4)) 9 (\<lambda>_. None) [] [] cut_boot) = [(''t1'', ''agent-10007'')]"
    by (simp add: resume_interrupted_runs_def over_tasks_def cut_boot_def resume_interrupted_def start_for_def list_tasks_def
        task_call_def resume_interrupted_enabled_def resume_max_age_def default_resume_max_age_def cut_task_def
        resumable_after_cut_def status_words interrupted_run_since_def list_agent_messages_def statement_def agent_message_def
        cut_message_def cut_candidate_def cut_time_def later_time_def office_eval sample_row_def)
  have "\<exists>t\<in>set (tk_rows \<lparr>tk_rows = [cut_task], tk_faults = []\<rparr>). fst (''t1'', ''agent-10007'') = tk_id t \<and>
      was_cut (ms_rows (bt_inbox cut_boot)) t"
    by (rule boot_reenters_only_cut_runs [of cut_boot _ _ "\<lambda>n. n" "\<lambda>_. (5, 4)" 9 "\<lambda>_. None" "[]" "[]"])
      (simp_all add: s, simp_all add: cut_boot_def new_agent_factory_def)
  then show "was_cut (ms_rows (bt_inbox cut_boot)) cut_task" by simp
qed

text \<open>
  A run the shutdown had time to end is not picked up again: once the message of a cut run is
  finished as stopped and no other message of its agent is running, the boot starts nothing for its
  task, although the row says the runtime stopped it.
\<close>

theorem ended_cut_not_resumed:
  assumes "calm s" "table_ok s"
    and "\<And>m. m \<in> set (ms_rows s) \<Longrightarrow> msg_status m = StatusRunning \<Longrightarrow> msg_agent m = tk_agent t \<Longrightarrow> msg_id m = i"
    and "finish_agent_message i StatusStopped err s = (s', None)" and "bt_inbox b = s'"
  shows "bt_started (resume_interrupted wd at now age t b) = bt_started b"
proof -
  have rows: "s' = update_rows (\<lambda>m. msg_id m = i) (\<lambda>m. m\<lparr>msg_status := StatusStopped, msg_error := err\<rparr>) s"
    using assms(1,4) by (simp add: finish_agent_message_def)
  then have ok: "table_ok s'" using assms(2) by simp
  have none: "m \<in> set (ms_rows s') \<Longrightarrow> msg_agent m = tk_agent t \<Longrightarrow> msg_status m \<noteq> StatusRunning" for m
    using assms(3) by (auto simp: rows update_rows_def split: if_splits)
  obtain s1 c where c: "interrupted_run_since at (tk_agent t) (tk_id t) s' = (s1, c)" by fastforce
  have "c = None"
  proof (rule ccontr)
    assume "c \<noteq> None"
    then obtain m q where m: "m \<in> set (ms_rows s')" "cut_candidate (tk_id t) m" and q: "q \<in> set (ms_rows s')"
      "msg_agent q = tk_agent t" "msg_id q = msg_id m"
      using interrupted_rows [OF c] by blast
    then have "q = m" using table_ok_unique [OF ok] by blast
    with none [OF m(1)] m(2) q(2) show False by (simp add: cut_candidate_def)
  qed
  with c assms(5) show ?thesis by (simp add: resume_interrupted_def)
qed

lemma ended_cut_not_resumed_witness:
  "resumable_after_cut (cut_task\<lparr>tk_status := ''stopped'', tk_error := ''stopped by the runtime while shutting down''\<rparr>) \<and>
   bt_started (resume_interrupted (\<lambda>n. n) (\<lambda>_. (5, 4)) 9 0
     (cut_task\<lparr>tk_status := ''stopped'', tk_error := ''stopped by the runtime while shutting down''\<rparr>)
     (cut_boot\<lparr>bt_inbox := fst (finish_agent_message 1 StatusStopped ''stopped'' (bt_inbox cut_boot))\<rparr>)) = []"
proof
  show "resumable_after_cut (cut_task\<lparr>tk_status := ''stopped'', tk_error := ''stopped by the runtime while shutting down''\<rparr>)"
    by code_simp
  have i: "calm (bt_inbox cut_boot)" "table_ok (bt_inbox cut_boot)" "ms_rows (bt_inbox cut_boot) = [cut_message]" "msg_id cut_message = 1"
    by (simp_all add: cut_boot_def calm_def table_ok_def cut_message_def)
  obtain s' where f: "finish_agent_message 1 StatusStopped ''stopped'' (bt_inbox cut_boot) = (s', None)"
    by (simp add: finish_agent_message_def i(1))
  show "bt_started (resume_interrupted (\<lambda>n. n) (\<lambda>_. (5, 4)) 9 0
     (cut_task\<lparr>tk_status := ''stopped'', tk_error := ''stopped by the runtime while shutting down''\<rparr>)
     (cut_boot\<lparr>bt_inbox := fst (finish_agent_message 1 StatusStopped ''stopped'' (bt_inbox cut_boot))\<rparr>)) = []"
    using ended_cut_not_resumed [OF i(1,2) _ f, of _ "cut_boot\<lparr>bt_inbox := s'\<rparr>" "\<lambda>n. n" "\<lambda>_. (5, 4)" 9 0] f i(3,4)
    by (simp add: cut_boot_def)
qed

end
