(* ===== verification/Accept.thy ===== *)
theory Accept
  imports Graceful Agent_Runtime
begin

text \<open>
  The door of the runtime (\<open>accept\<close>, \<open>instruction\<close> and their helpers, src/api_service.go,
  src/autonomy.go, src/chat_mode.go): what a request becomes, before its message is put into the
  agent's queue.  A new task id is the argument \<open>fresh\<close>.  The store is one; its tables are the
  fields of the desk.
\<close>

record desk =
  dk_office :: office
  dk_pool :: account_table
  dk_store :: "store option"

record accept_request =
  rq_id :: string
  rq_description :: string
  rq_domain :: string
  rq_goal :: string
  rq_context :: "string smap"
  rq_mode :: string
  rq_approve :: bool
  rq_account :: string
  rq_model :: string
  rq_contract :: "json option"

datatype accept_failure =
    AccountUnreadable account_error
  | AccountNotInPool string
  | AccountIsDisabled string string
  | ContractRefused parse_error
  | BadMode
  | DescriptionRequired
  | AgentNotReady agent_error
  | ContractNotPinned accept_error
  | StoreMissing

text \<open>\<open>None\<close> is a mode the door refuses.\<close>

definition parse_user_message_kind :: "string \<Rightarrow> message_kind option" where
  "parse_user_message_kind mode =
    (let m = to_lower (trim mode) in
     if m = [] \<or> m = ''command'' then Some KindInstruction
     else if m = ''chat'' then Some KindChat
     else if m = ''approve'' then Some KindApproval
     else None)"

definition requested_account :: "url_path \<Rightarrow> string \<Rightarrow> account_table \<Rightarrow> account_table \<times> (accept_failure + account option)" where
  "requested_account up i s =
    (if trim i = [] then (s, Inr None)
     else (case get_account up (trim i) s of
             (s', Inl e) \<Rightarrow> (s', Inl (AccountUnreadable e))
           | (s', Inr None) \<Rightarrow> (s', Inl (AccountNotInPool (trim i)))
           | (s', Inr (Some a)) \<Rightarrow>
               (s', if ac_enabled a then Inr (Some a) else Inl (AccountIsDisabled (ac_id a) (ac_label a)))))"

text \<open>The agent adopts the account, or the model, that the request names.\<close>

definition apply_account :: "(string \<Rightarrow> string \<Rightarrow> string) \<Rightarrow> account option \<Rightarrow> agent \<Rightarrow> office \<Rightarrow> office \<times> agent" where
  "apply_account wr ac a w =
    (case ac of
       None \<Rightarrow> (w, a)
     | Some ac \<Rightarrow>
         if ag_account a = ac_id ac then (w, a)
         else (let a' = adopt_account wr ac a in persist_agent a' (put_agent a' w)))"

definition apply_requested_model :: "string \<Rightarrow> agent \<Rightarrow> office \<Rightarrow> office \<times> agent" where
  "apply_requested_model model a w =
    (let m = trim model in
     if m = [] then (w, a)
     else (let a' = a\<lparr>ag_model := m, ag_creds := (ag_creds a)\<lparr>cr_model := m\<rparr>, ag_policy := (ag_policy a)\<lparr>rp_model := m\<rparr>\<rparr>
           in persist_agent a' (put_agent a' w)))"

text \<open>
  An instruction: the text, or the description of the task's row; the agent the task is paired with;
  and the task's row, written last.
\<close>

definition instruction_text :: "task \<Rightarrow> string \<Rightarrow> office \<Rightarrow> office \<times> string" where
  "instruction_text t content w =
    (if trim content \<noteq> [] then (w, trim content)
     else (case of_tasks w of
             None \<Rightarrow> (w, [])
           | Some ts \<Rightarrow>
               (case get_task (tk_id t) ts of
                  (ts', Inr (Some row)) \<Rightarrow> (w\<lparr>of_tasks := Some ts'\<rparr>, trim (tk_description row))
                | (ts', _) \<Rightarrow> (w\<lparr>of_tasks := Some ts'\<rparr>, []))))"

definition user_message :: "string \<Rightarrow> message_kind \<Rightarrow> string \<Rightarrow> message" where
  "user_message t kind text =
    \<lparr>msg_id = 0, msg_agent = 0, msg_task = t, msg_sender = ''user'', msg_sender_id = ''user'', msg_kind = kind,
     msg_content = text, msg_status = StatusBlank, msg_error = []\<rparr>"

definition agent_error_text :: "agent_error \<Rightarrow> string" where
  "agent_error_text e =
    (case e of
       EmptyAgentID \<Rightarrow> ''empty agent id''
     | AgentDbFault x \<Rightarrow> ''get agent: '' @ x
     | AgentTaskRead te \<Rightarrow> (case te of EmptyTaskID \<Rightarrow> ''empty task id'' | TaskDbFault x \<Rightarrow> ''get task: '' @ x)
     | NoFactory \<Rightarrow> ''agent factory not ready''
     | AdoptFailed i \<Rightarrow> ''adopt agent '' @ show_nat i)"

definition instruction ::
  "(string \<Rightarrow> string) \<Rightarrow> task \<Rightarrow> string \<Rightarrow> message_kind \<Rightarrow> office \<Rightarrow> office \<times> task \<times> (accept_failure + agent \<times> message)" where
  "instruction wd t content kind w =
    (case instruction_text t content w of
       (w1, text) \<Rightarrow>
         if text = [] then (w1, t, Inl DescriptionRequired)
         else (let t1 = (if tk_status t = [] then t\<lparr>tk_status := status_pending\<rparr> else t) in
               case resume_agent_for_task wd t1 w1 of
                 (w2, t2, Inl e) \<Rightarrow>
                   (case fail_task (Some (agent_error_text e)) t2 (of_tasks w2) of
                      (t3, ts) \<Rightarrow> (w2\<lparr>of_tasks := ts\<rparr>, t3, Inl (AgentNotReady e)))
               | (w2, t2, Inr a) \<Rightarrow> (office_persist_task t2 w2, t2, Inr (a, user_message (tk_id t2) kind text))))"

section \<open>The request\<close>

definition request_domain :: "string \<Rightarrow> string" where
  "request_domain d =
    (if trim d = [] then ''software_development''
     else (case convert_to_task_domain (trim d) of (x, None) \<Rightarrow> x | (_, Some _) \<Rightarrow> trim d))"

definition request_task :: "string \<Rightarrow> accept_request \<Rightarrow> task" where
  "request_task i req =
    \<lparr>tk_id = i, tk_description = trim (rq_description req), tk_domain = request_domain (rq_domain req),
     tk_goal = (if trim (rq_goal req) = [] then ''dev_feature'' else trim (rq_goal req)),
     tk_status = status_pending, tk_error = [], tk_agent = 0, tk_context = rq_context req\<rparr>"

text \<open>What the request leaves out is the stored task's.\<close>

definition keep_stored :: "accept_request \<Rightarrow> task \<Rightarrow> task \<Rightarrow> task" where
  "keep_stored req stored t =
    t\<lparr>tk_agent := tk_agent stored,
      tk_description := (if trim (rq_description req) = [] then tk_description stored else tk_description t),
      tk_domain := (if trim (rq_domain req) = [] then tk_domain stored else tk_domain t),
      tk_goal := (if trim (rq_goal req) = [] \<and> trim (tk_goal stored) \<noteq> [] then tk_goal stored else tk_goal t),
      tk_context := (if rq_context req = [] \<and> tk_context stored \<noteq> [] then tk_context stored else tk_context t)\<rparr>"

text \<open>A chat changes nothing of the task.\<close>

definition keep_for_chat :: "task \<Rightarrow> task \<Rightarrow> task" where
  "keep_for_chat stored t =
    t\<lparr>tk_description := tk_description stored, tk_status := tk_status stored, tk_error := tk_error stored,
      tk_domain := tk_domain stored, tk_goal := tk_goal stored,
      tk_context := (if tk_context stored \<noteq> [] then tk_context stored else tk_context t)\<rparr>"

definition accepted_task :: "message_kind \<Rightarrow> accept_request \<Rightarrow> task option \<Rightarrow> task \<Rightarrow> task" where
  "accepted_task kind req stored t =
    (case stored of
       None \<Rightarrow> t
     | Some s \<Rightarrow> (let t' = keep_stored req s t in if kind = KindChat then keep_for_chat s t' else t'))"

definition stored_task :: "string \<Rightarrow> task_table \<Rightarrow> task_table \<times> task option" where
  "stored_task i ts = (case get_task i ts of (ts', Inr r) \<Rightarrow> (ts', r) | (ts', Inl _) \<Rightarrow> (ts', None))"

definition finish_accept ::
  "(string \<Rightarrow> string \<Rightarrow> string) \<Rightarrow> accept_request \<Rightarrow> account option \<Rightarrow> task \<Rightarrow> agent \<Rightarrow> message \<Rightarrow> desk
     \<Rightarrow> desk \<times> (accept_failure + task \<times> agent \<times> message)" where
  "finish_accept wr req ac t a msg dk =
    (case apply_account wr ac a (dk_office dk) of
       (w1, a1) \<Rightarrow>
         (case apply_requested_model (rq_model req) a1 w1 of
            (w2, a2) \<Rightarrow>
              (case pin_accepted_contract (tk_id t) (rq_contract req) (dk_store dk) of
                 (st, e) \<Rightarrow>
                   (dk\<lparr>dk_office := w2, dk_store := st\<rparr>,
                    (case e of Some x \<Rightarrow> Inl (ContractNotPinned x) | None \<Rightarrow> Inr (t, a2, msg))))))"

definition accept ::
  "url_path \<Rightarrow> (string \<Rightarrow> string) \<Rightarrow> (string \<Rightarrow> string \<Rightarrow> string) \<Rightarrow> string \<Rightarrow> accept_request \<Rightarrow> desk
     \<Rightarrow> desk \<times> (accept_failure + task \<times> agent \<times> message)" where
  "accept up wd wr fresh req dk =
    (let i = (if trim (rq_id req) = [] then fresh else trim (rq_id req)) in
     case requested_account up (rq_account req) (dk_pool dk) of
       (pool, Inl e) \<Rightarrow> (dk\<lparr>dk_pool := pool\<rparr>, Inl e)
     | (pool, Inr ac) \<Rightarrow>
        (let dk1 = dk\<lparr>dk_pool := pool\<rparr> in
         case parse_completion_contract (rq_contract req) of
           Inl e \<Rightarrow> (dk1, Inl (ContractRefused e))
         | Inr _ \<Rightarrow>
            (case of_tasks (dk_office dk1) of
               None \<Rightarrow> (dk1, Inl StoreMissing)
             | Some ts \<Rightarrow>
                (case stored_task i ts of
                   (ts', stored) \<Rightarrow>
                     (let dk2 = dk1\<lparr>dk_office := (dk_office dk1)\<lparr>of_tasks := Some ts'\<rparr>\<rparr> in
                      case parse_user_message_kind (rq_mode req) of
                        None \<Rightarrow> (dk2, Inl BadMode)
                      | Some kind0 \<Rightarrow>
                         (let kind = (if rq_approve req then KindApproval else kind0);
                              t = accepted_task kind req stored (request_task i req)
                          in (case instruction wd t (trim (rq_description req)) kind (dk_office dk2) of
                                (w, t', Inl e) \<Rightarrow> (dk2\<lparr>dk_office := w\<rparr>, Inl e)
                              | (w, t', Inr (a, msg)) \<Rightarrow> finish_accept wr req ac t' a msg (dk2\<lparr>dk_office := w\<rparr>))))))))"

end
