(* ===== verification/Accept_Laws.thy ===== *)
theory Accept_Laws
  imports Accept Agent_Laws Contract_Laws
begin

text \<open>What an accepted request leaves on record, and what a request refused at its contract leaves.\<close>

section \<open>The task table through the door\<close>

definition tasks_calm :: "office \<Rightarrow> bool" where
  "tasks_calm w \<longleftrightarrow> (\<exists>ts. of_tasks w = Some ts \<and> task_calm ts)"

lemma tasks_calm_persist: "tasks_calm w \<Longrightarrow> tasks_calm (office_persist_task t w)"
  by (auto simp: tasks_calm_def office_persist_task_def persist_task_def task_calm_upsert)

lemma persist_agent_tasks [simp]: "of_tasks (fst (persist_agent a w)) = of_tasks w"
  by (simp add: persist_agent_def split: option.split prod.split)

lemma persist_agent_tasksD: "persist_agent a w = (w', a') \<Longrightarrow> of_tasks w' = of_tasks w"
  using persist_agent_tasks [of a w] by simp

lemma put_agent_tasks [simp]: "of_tasks (put_agent a w) = of_tasks w"
  by (simp add: put_agent_def)

lemma new_agent_tasks: "new_agent wd w = (w', a) \<Longrightarrow> of_tasks w' = of_tasks w"
  by (auto simp: new_agent_def number_agent_def Let_def dest!: persist_agent_tasksD split: prod.splits option.splits if_splits)

lemma pair_task_calm:
  "pair_task a t w = (w', a', t') \<Longrightarrow> tasks_calm w \<Longrightarrow> tasks_calm w' \<and> tk_id t' = tk_id t \<and> tk_status t' = tk_status t"
  using tasks_calm_persist [of "put_agent (a\<lparr>ag_task := Some (tk_id t)\<rparr>) w" "t\<lparr>tk_agent := ag_id a\<rparr>"]
  by (auto simp: pair_task_def tasks_calm_def Let_def dest!: persist_agent_tasksD split: prod.splits)

lemma create_agent_calm:
  assumes "create_agent wd (Some t) w = (w', a, t')" "tasks_calm w"
  shows "tasks_calm w' \<and> tk_id (the t') = tk_id t \<and> tk_status (the t') = tk_status t"
proof -
  obtain w1 a1 where n: "new_agent wd w = (w1, a1)" by fastforce
  have "tasks_calm w1" using new_agent_tasks [OF n] assms(2) by (simp add: tasks_calm_def)
  then show ?thesis using assms(1) n pair_task_calm [of "a1\<lparr>ag_role := role_planner\<rparr>" t w1]
    by (auto simp: create_agent_def Let_def split: prod.splits)
qed

lemma get_task_calm_keeps: "get_task i s = (s', r) \<Longrightarrow> task_calm s \<Longrightarrow> s' = s"
  by (auto simp: get_task_def split: if_splits)

lemma stored_agent_calm: "stored_agent_for_task t w = (w', r) \<Longrightarrow> tasks_calm w \<Longrightarrow> tasks_calm w'"
  by (auto simp: stored_agent_for_task_def tasks_calm_def dest: get_task_calm_keeps
      split: option.splits prod.splits sum.splits if_splits)

lemma adopt_tasks: "adopt wd a w = (w', b) \<Longrightarrow> of_tasks w' = of_tasks w"
  by (auto simp: adopt_def Let_def split: option.splits)

lemma resume_calm:
  assumes "resume_agent_for_task wd t w = (w', t', r)" "tasks_calm w"
  shows "tasks_calm w' \<and> tk_id t' = tk_id t \<and> tk_status t' = tk_status t"
proof (cases "for_task (tk_id t) w")
  case (Some a)
  with assms show ?thesis by (auto simp: resume_agent_for_task_def tasks_calm_def Let_def)
next
  case None
  obtain w1 r1 where s: "stored_agent_for_task t w = (w1, r1)" by fastforce
  have c1: "tasks_calm w1" using stored_agent_calm [OF s assms(2)] .
  show ?thesis
  proof (cases r1)
    case (Inl e)
    then show ?thesis using assms(1) None s c1 by (auto simp: resume_agent_for_task_def)
  next
    case (Inr r2)
    show ?thesis
    proof (cases r2)
      case r2: None
      show ?thesis
      proof (cases "for_initialization w1")
        case f: None
        obtain w2 a2 t2 where c: "create_agent wd (Some t) w1 = (w2, a2, t2)" by (metis prod_cases3)
        then have "w' = w2" "t' = the t2" using assms(1) None s Inr r2 f by (auto simp: resume_agent_for_task_def)
        then show ?thesis using create_agent_calm [OF c c1] by simp
      next
        case f: (Some a)
        obtain w2 a2 t2 where c: "pair_task a t w1 = (w2, a2, t2)" by (metis prod_cases3)
        then have "w' = w2" "t' = t2" using assms(1) None s Inr r2 f by (auto simp: resume_agent_for_task_def)
        then show ?thesis using pair_task_calm [OF c c1] by simp
      qed
    next
      case (Some stored)
      then show ?thesis using assms(1) None s Inr c1
        by (auto simp: resume_agent_for_task_def tasks_calm_def Let_def dest!: adopt_tasks split: prod.splits)
    qed
  qed
qed

lemma instruction_record:
  assumes "instruction wd t content kind w = (w', t', Inr (a, msg))" "tasks_calm w" "tk_status t \<noteq> []"
  shows "msg = user_message (tk_id t') kind (msg_content msg) \<and> msg_content msg \<noteq> [] \<and> tk_id t' = tk_id t \<and>
    tk_status t' = tk_status t \<and> (\<exists>ts row. of_tasks w' = Some ts \<and> task_row (tk_id t) ts = Some row \<and> tk_status row = tk_status t)"
proof -
  obtain w1 words where i: "instruction_text t content w = (w1, words)" by fastforce
  have c1: "tasks_calm w1" using i assms(2)
    by (auto simp: instruction_text_def tasks_calm_def dest: get_task_calm_keeps split: if_splits option.splits prod.splits sum.splits)
  obtain w2 where r: "resume_agent_for_task wd t w1 = (w2, t', Inr a)" and w': "w' = office_persist_task t' w2"
    and msg: "msg = user_message (tk_id t') kind words" "words \<noteq> []"
    using assms(1,3) i by (auto simp: instruction_def Let_def split: if_splits prod.splits sum.splits)
  from resume_calm [OF r c1] obtain ts where ts: "of_tasks w2 = Some ts" "task_calm ts" and t': "tk_id t' = tk_id t" "tk_status t' = tk_status t"
    by (auto simp: tasks_calm_def)
  have "of_tasks w' = Some (fst (upsert_task t' ts))" using w' ts(1) by (simp add: office_persist_task_def persist_task_def)
  with task_row_upsert [OF ts(2), of t'] t' msg show ?thesis by (auto simp: user_message_def)
qed

lemma apply_account_tasks: "apply_account wr ac a w = (w', a') \<Longrightarrow> of_tasks w' = of_tasks w"
  by (auto simp: apply_account_def Let_def dest!: persist_agent_tasksD split: option.splits if_splits)

lemma apply_model_tasks: "apply_requested_model m a w = (w', a') \<Longrightarrow> of_tasks w' = of_tasks w"
  by (auto simp: apply_requested_model_def Let_def dest!: persist_agent_tasksD split: if_splits)

lemma finish_accept_tasks:
  "finish_accept wr req ac t a msg dk = (dk', r) \<Longrightarrow> of_tasks (dk_office dk') = of_tasks (dk_office dk) \<and>
     (\<forall>t' a' m. r = Inr (t', a', m) \<longrightarrow> t' = t \<and> m = msg)"
  by (auto simp: finish_accept_def dest!: apply_account_tasks apply_model_tasks split: prod.splits option.splits)

lemma accepted_status: "kind \<noteq> KindChat \<Longrightarrow> tk_status (accepted_task kind req stored (request_task i req)) = status_pending"
  and accepted_id: "tk_id (accepted_task kind req stored (request_task i req)) = i"
  by (auto simp: accepted_task_def keep_stored_def keep_for_chat_def request_task_def Let_def split: option.splits)

text \<open>Which kind of message a request asks for.\<close>

definition request_kind :: "accept_request \<Rightarrow> message_kind option" where
  "request_kind req =
    (case parse_user_message_kind (rq_mode req) of None \<Rightarrow> None | Some k \<Rightarrow> Some (if rq_approve req then KindApproval else k))"

lemma accept_instruction:
  assumes "accept up wd wr fresh req dk = (dk', r)" and "tasks_calm (dk_office dk)"
    and "(\<exists>x. r = Inr x) \<or> (\<exists>x. r = Inl (ContractNotPinned x))"
  shows "\<exists>kind t w t' a msg. request_kind req = Some kind \<and> tk_id t = (if trim (rq_id req) = [] then fresh else trim (rq_id req)) \<and>
    (kind \<noteq> KindChat \<longrightarrow> tk_status t = status_pending) \<and> instruction wd t (trim (rq_description req)) kind (dk_office dk) = (w, t', Inr (a, msg)) \<and>
    of_tasks (dk_office dk') = of_tasks w \<and> (\<forall>t2 a2 m. r = Inr (t2, a2, m) \<longrightarrow> t2 = t' \<and> m = msg)"
proof -
  let ?i = "if trim (rq_id req) = [] then fresh else trim (rq_id req)"
  obtain ts where ts: "of_tasks (dk_office dk) = Some ts" "task_calm ts" using assms(2) by (auto simp: tasks_calm_def)
  obtain pool ac where p: "requested_account up (rq_account req) (dk_pool dk) = (pool, Inr ac)"
    using assms(1,3) by (cases "requested_account up (rq_account req) (dk_pool dk)")
      (auto simp: accept_def Let_def requested_account_def split: sum.splits prod.splits option.splits if_splits)
  obtain cs where cs: "parse_completion_contract (rq_contract req) = Inr cs"
    using assms(1,3) p by (cases "parse_completion_contract (rq_contract req)") (auto simp: accept_def Let_def)
  obtain stored where st: "stored_task ?i ts = (ts, stored)"
    using get_task_calm_keeps ts(2) by (fastforce simp: stored_task_def split: prod.splits sum.splits)
  obtain kind0 where k: "parse_user_message_kind (rq_mode req) = Some kind0"
    using assms(1,3) p cs st ts(1) by (cases "parse_user_message_kind (rq_mode req)") (auto simp: accept_def Let_def)
  define kind where "kind = (if rq_approve req then KindApproval else kind0)"
  define t where "t = accepted_task kind req stored (request_task ?i req)"
  obtain w t' r2 where ins: "instruction wd t (trim (rq_description req)) kind (dk_office dk) = (w, t', r2)" by (metis prod_cases3)
  have same: "(dk_office dk)\<lparr>of_tasks := Some ts\<rparr> = dk_office dk" using ts(1) by simp
  have acc: "accept up wd wr fresh req dk =
      (case r2 of Inl e \<Rightarrow> (dk\<lparr>dk_pool := pool, dk_office := w\<rparr>, Inl e)
       | Inr (a, msg) \<Rightarrow> finish_accept wr req ac t' a msg (dk\<lparr>dk_pool := pool, dk_office := w\<rparr>))"
    using p cs st ts(1) k ins unfolding accept_def Let_def kind_def [symmetric] t_def [symmetric]
    by (simp add: same kind_def [symmetric] t_def [symmetric] split: sum.splits prod.splits)
  have "\<not> (\<exists>e. r2 = Inl e)"
    using assms(1,3) acc ins by (auto simp: instruction_def Let_def split: prod.splits sum.splits if_splits)
  then obtain a msg where r2: "r2 = Inr (a, msg)" by (cases r2) auto
  have fin: "finish_accept wr req ac t' a msg (dk\<lparr>dk_pool := pool, dk_office := w\<rparr>) = (dk', r)"
    using assms(1) acc r2 by simp
  show ?thesis
  proof (intro exI conjI)
    show "request_kind req = Some kind" using k by (simp add: request_kind_def kind_def)
    show "tk_id t = ?i" by (simp add: t_def accepted_id)
    show "kind \<noteq> KindChat \<longrightarrow> tk_status t = status_pending" by (simp add: t_def accepted_status)
    show "instruction wd t (trim (rq_description req)) kind (dk_office dk) = (w, t', Inr (a, msg))" using ins r2 by simp
    show "of_tasks (dk_office dk') = of_tasks w" using finish_accept_tasks [OF fin] by simp
    show "\<forall>t2 a2 m. r = Inr (t2, a2, m) \<longrightarrow> t2 = t' \<and> m = msg" using finish_accept_tasks [OF fin] by blast
  qed
qed

lemma status_pending_nonempty: "status_pending \<noteq> []"
  by (simp add: status_words)

text \<open>
  C22: An accepted request is on record before its message is queued: over a task table that answers,
  a command or an approval leaves its task's row pending, and hands on the user's message for that
  task with a text that is not empty.
\<close>

theorem accepted_request_on_record:
  assumes "accept up wd wr fresh req dk = (dk', Inr (t, a, msg))" and "tasks_calm (dk_office dk)"
    and "request_kind req = Some kind" "kind \<noteq> KindChat"
  shows "msg = user_message (tk_id t) kind (msg_content msg) \<and> msg_content msg \<noteq> [] \<and>
    tk_id t = (if trim (rq_id req) = [] then fresh else trim (rq_id req)) \<and>
    (\<exists>ts row. of_tasks (dk_office dk') = Some ts \<and> task_row (tk_id t) ts = Some row \<and> tk_status row = status_pending)"
proof -
  have "(\<exists>x. Inr (t, a, msg) = Inr x) \<or> (\<exists>x. Inr (t, a, msg) = Inl (ContractNotPinned x))" by simp
  from accept_instruction [OF assms(1,2) this] obtain k t0 w t1 a1 m where k: "request_kind req = Some k"
    and t0: "tk_id t0 = (if trim (rq_id req) = [] then fresh else trim (rq_id req))" "k \<noteq> KindChat \<longrightarrow> tk_status t0 = status_pending"
    and ins: "instruction wd t0 (trim (rq_description req)) k (dk_office dk) = (w, t1, Inr (a1, m))"
    and dk': "of_tasks (dk_office dk') = of_tasks w"
    and rr: "\<forall>t2 a2 m2. Inr (t, a, msg) = (Inr (t2, a2, m2) :: accept_failure + task \<times> agent \<times> message) \<longrightarrow> t2 = t1 \<and> m2 = m"
    by (elim exE conjE)
  from rr have r: "t = t1" "msg = m" by simp_all
  have "k = kind" using k assms(3) by simp
  with t0(2) assms(4) have st: "tk_status t0 = status_pending" by simp
  then have "tk_status t0 \<noteq> []" using status_pending_nonempty by simp
  from instruction_record [OF ins assms(2) this] have rec: "m = user_message (tk_id t1) k (msg_content m) \<and>
    msg_content m \<noteq> [] \<and> tk_id t1 = tk_id t0 \<and> (\<exists>ts row. of_tasks w = Some ts \<and> task_row (tk_id t1) ts = Some row \<and> tk_status row = tk_status t0)"
    by auto
  then show ?thesis unfolding dk' r \<open>k = kind\<close> using t0(1) st by metis
qed

text \<open>
  A request that fails at its contract leaves its task pending with nothing queued.  The task's row
  is written before the criteria are pinned: when that fails, the door answers with the error and
  hands on no message, and the row says pending.
\<close>

theorem unpinned_request_left_pending:
  assumes "accept up wd wr fresh req dk = (dk', Inl (ContractNotPinned x))" and "tasks_calm (dk_office dk)"
    and "request_kind req = Some kind" "kind \<noteq> KindChat"
  shows "\<exists>ts row. of_tasks (dk_office dk') = Some ts \<and>
    task_row (if trim (rq_id req) = [] then fresh else trim (rq_id req)) ts = Some row \<and> tk_status row = status_pending"
proof -
  have "(\<exists>y. Inl (ContractNotPinned x) = Inr y) \<or> (\<exists>y. Inl (ContractNotPinned x) = Inl (ContractNotPinned y))" by simp
  from accept_instruction [OF assms(1,2) this] obtain k t0 w t1 a1 m where k: "request_kind req = Some k"
    and t0: "tk_id t0 = (if trim (rq_id req) = [] then fresh else trim (rq_id req))" "k \<noteq> KindChat \<longrightarrow> tk_status t0 = status_pending"
    and ins: "instruction wd t0 (trim (rq_description req)) k (dk_office dk) = (w, t1, Inr (a1, m))"
    and dk': "of_tasks (dk_office dk') = of_tasks w"
    by (elim exE conjE)
  have st: "tk_status t0 = status_pending" using k assms(3,4) t0(2) by simp
  then have "tk_status t0 \<noteq> []" using status_pending_nonempty by simp
  from instruction_record [OF ins assms(2) this] st show ?thesis unfolding dk' t0(1) by simp
qed

section \<open>A request\<close>

definition sample_request :: "json option \<Rightarrow> accept_request" where
  "sample_request contract =
    \<lparr>rq_id = ''t1'', rq_description = ''go'', rq_domain = [], rq_goal = [], rq_context = [], rq_mode = [], rq_approve = False,
     rq_account = [], rq_model = [], rq_contract = contract\<rparr>"

definition sample_desk :: desk where
  "sample_desk = \<lparr>dk_office = new_agent_factory None (Some \<lparr>tk_rows = [], tk_faults = []\<rparr>),
     dk_pool = \<lparr>at_rows = [], at_faults = []\<rparr>, dk_store = None\<rparr>"

lemma sample_words: "trim ''go'' = ''go''" "to_lower [] = []"
  by (code_simp, simp)

lemmas accept_eval = accept_def finish_accept_def instruction_def instruction_text_def apply_account_def
  apply_requested_model_def requested_account_def accepted_task_def stored_task_def request_task_def request_domain_def
  parse_user_message_kind_def sample_request_def sample_desk_def sample_words user_message_def

lemma accepted_request_on_record_witness:
  "\<exists>dk' t a msg ts row. accept (\<lambda>_. None) (\<lambda>n. n) (\<lambda>_ n. n) ''t9'' (sample_request None) sample_desk = (dk', Inr (t, a, msg)) \<and>
     of_tasks (dk_office dk') = Some ts \<and> task_row (tk_id t) ts = Some row \<and> tk_status row = ''pending''"
proof -
  have ok: "\<exists>dk' t a msg. accept (\<lambda>_. None) (\<lambda>n. n) (\<lambda>_ n. n) ''t9'' (sample_request None) sample_desk = (dk', Inr (t, a, msg))"
    by (simp add: accept_eval office_eval parse_completion_contract_def pin_accepted_contract_def raw_absent_def
        get_task_def task_call_def)
  have c: "tasks_calm (dk_office sample_desk)" by (simp add: tasks_calm_def sample_desk_def new_agent_factory_def task_calm_def)
  have k: "request_kind (sample_request None) = Some KindInstruction"
    by (simp add: request_kind_def parse_user_message_kind_def sample_request_def Let_def)
  from ok obtain dk' t a msg where
    a: "accept (\<lambda>_. None) (\<lambda>n. n) (\<lambda>_ n. n) ''t9'' (sample_request None) sample_desk = (dk', Inr (t, a, msg))" by blast
  show ?thesis using accepted_request_on_record [OF a c k] a by (auto simp: status_words)
qed

lemma unpinned_request_left_pending_witness:
  "\<exists>dk' ts row. accept (\<lambda>_. None) (\<lambda>n. n) (\<lambda>_ n. n) ''t9'' (sample_request (Some (JArr [sample_contract]))) sample_desk
       = (dk', Inl (ContractNotPinned NoVerificationStore)) \<and>
     of_tasks (dk_office dk') = Some ts \<and> task_row ''t1'' ts = Some row \<and> tk_status row = ''pending''"
proof -
  have ne: "sample_criteria \<noteq> []" by code_simp
  have ok: "\<exists>dk'. accept (\<lambda>_. None) (\<lambda>n. n) (\<lambda>_ n. n) ''t9'' (sample_request (Some (JArr [sample_contract]))) sample_desk
      = (dk', Inl (ContractNotPinned NoVerificationStore))"
    by (simp add: accept_eval office_eval sample_parsed ne pin_accepted_contract_def raw_absent_def
        get_task_def task_call_def)
  have c: "tasks_calm (dk_office sample_desk)" by (simp add: tasks_calm_def sample_desk_def new_agent_factory_def task_calm_def)
  have k: "request_kind (sample_request (Some (JArr [sample_contract]))) = Some KindInstruction"
    by (simp add: request_kind_def parse_user_message_kind_def sample_request_def Let_def)
  have i: "trim (rq_id (sample_request (Some (JArr [sample_contract])))) = ''t1''" by (simp add: sample_request_def)
  from ok obtain dk' where
    a: "accept (\<lambda>_. None) (\<lambda>n. n) (\<lambda>_ n. n) ''t9'' (sample_request (Some (JArr [sample_contract]))) sample_desk
      = (dk', Inl (ContractNotPinned NoVerificationStore))" by blast
  show ?thesis using unpinned_request_left_pending [OF a c k] a by (auto simp: i status_words)
qed

end
