(* ===== verification/Event_Log.thy ===== *)
theory Event_Log
  imports Go_Json
begin

text \<open>
  The event gateway's own module (src/eventgateway/): what an outside system reports is an
  \<open>Envelope\<close>, an adapter makes an \<open>Event\<close> of it, and the log keeps the events, without those it
  already has.  A time is a count of nanoseconds, \<open>None\<close> Go's zero time; the clock and the id
  generator are arguments.  A payload is a map of JSON values, \<open>None\<close> when it is nil.
\<close>

record subject =
  sj_task :: string
  sj_agent :: string
  sj_asset :: string
  sj_action :: string
  sj_project :: string

type_synonym stamp = "nat option"
type_synonym payload = "json smap"

record world_event =
  we_id :: string
  we_source :: string
  we_type :: string
  we_subject :: subject
  we_payload :: "payload option"
  we_occurred :: stamp
  we_received :: stamp
  we_key :: string

record envelope =
  en_source :: string
  en_type :: string
  en_subject :: subject
  en_payload :: "payload option"
  en_occurred :: stamp
  en_key :: string

definition subject_empty :: "subject \<Rightarrow> bool" where
  "subject_empty s \<longleftrightarrow>
     sj_task s = [] \<and> sj_agent s = [] \<and> sj_asset s = [] \<and> sj_action s = [] \<and> sj_project s = []"

datatype gateway_error = SourceRequired | TypeRequired | NoAdapter string string | GatewayOff

definition validate_envelope :: "envelope \<Rightarrow> gateway_error option" where
  "validate_envelope e =
    (if trim (en_source e) = [] then Some SourceRequired
     else if trim (en_type e) = [] then Some TypeRequired
     else None)"

section \<open>Adapters\<close>

record adapter =
  ad_match :: "envelope \<Rightarrow> bool"
  ad_normalize :: "envelope \<Rightarrow> gateway_error + world_event"

definition canonical_subject :: "subject \<Rightarrow> subject" where
  "canonical_subject s =
    \<lparr>sj_task = trim (sj_task s), sj_agent = trim (sj_agent s), sj_asset = trim (sj_asset s),
     sj_action = trim (sj_action s), sj_project = trim (sj_project s)\<rparr>"

definition canonical_event :: "envelope \<Rightarrow> world_event" where
  "canonical_event e =
    \<lparr>we_id = [], we_source = trim (en_source e), we_type = trim (en_type e),
     we_subject = canonical_subject (en_subject e), we_payload = en_payload e, we_occurred = en_occurred e,
     we_received = None, we_key = trim (en_key e)\<rparr>"

definition canonical_normalize :: "envelope \<Rightarrow> gateway_error + world_event" where
  "canonical_normalize e =
    (case validate_envelope e of Some x \<Rightarrow> Inl x | None \<Rightarrow> Inr (canonical_event e))"

definition canonical_adapter :: adapter where
  "canonical_adapter = \<lparr>ad_match = (\<lambda>_. True), ad_normalize = canonical_normalize\<rparr>"

definition normalize_envelope :: "adapter list \<Rightarrow> envelope \<Rightarrow> gateway_error + world_event" where
  "normalize_envelope as e =
    (case find (\<lambda>a. ad_match a e) as of
       None \<Rightarrow> Inl (NoAdapter (en_source e) (en_type e))
     | Some a \<Rightarrow> ad_normalize a e)"

section \<open>The log in memory\<close>

text \<open>
  The log and its two indexes: from an id, and from a source and key, to the position of the
  event.  The positions move when the oldest events are dropped, so the indexes are written again.
\<close>

definition memory_cap :: nat where "memory_cap = 10000"
definition default_list_limit :: nat where "default_list_limit = 50"
definition max_list_limit :: nat where "max_list_limit = 200"

record memory_log =
  ml_events :: "world_event list"
  ml_by_id :: "string \<Rightarrow> nat option"
  ml_by_key :: "string \<Rightarrow> nat option"

definition new_memory_log :: memory_log where
  "new_memory_log = \<lparr>ml_events = [], ml_by_id = Map.empty, ml_by_key = Map.empty\<rparr>"

definition dedupe_key :: "string \<Rightarrow> string \<Rightarrow> string" where
  "dedupe_key source key = source @ [CHR 0x00] @ key"

definition event_key :: "world_event \<Rightarrow> string" where
  "event_key e = dedupe_key (we_source e) (we_key e)"

definition index_event :: "memory_log \<Rightarrow> nat \<times> world_event \<Rightarrow> memory_log" where
  "index_event l ie =
    l\<lparr>ml_by_id := (ml_by_id l)(we_id (snd ie) \<mapsto> fst ie),
      ml_by_key := (if we_key (snd ie) \<noteq> [] then (ml_by_key l)(event_key (snd ie) \<mapsto> fst ie) else ml_by_key l)\<rparr>"

definition unindex_event :: "memory_log \<Rightarrow> world_event \<Rightarrow> memory_log" where
  "unindex_event l e =
    l\<lparr>ml_by_id := (ml_by_id l)(we_id e := None),
      ml_by_key := (if we_key e \<noteq> [] then (ml_by_key l)(event_key e := None) else ml_by_key l)\<rparr>"

definition drop_oldest :: "memory_log \<Rightarrow> memory_log" where
  "drop_oldest l =
    (if length (ml_events l) \<le> memory_cap then l
     else (let n = length (ml_events l) - memory_cap;
               kept = drop n (ml_events l);
               l1 = foldl unindex_event l (take n (ml_events l))
           in foldl index_event (l1\<lparr>ml_events := kept\<rparr>) (enumerate 0 kept)))"

definition log_match :: "world_event \<Rightarrow> memory_log \<Rightarrow> nat option" where
  "log_match e l =
    (case (if we_key e \<noteq> [] then ml_by_key l (event_key e) else None) of
       Some i \<Rightarrow> Some i
     | None \<Rightarrow> if we_id e \<noteq> [] then ml_by_id l (we_id e) else None)"

definition mem_append :: "world_event \<Rightarrow> memory_log \<Rightarrow> memory_log \<times> world_event \<times> bool" where
  "mem_append e l =
    (case log_match e l of
       Some i \<Rightarrow> (l, ml_events l ! i, True)
     | None \<Rightarrow>
         (drop_oldest (index_event (l\<lparr>ml_events := ml_events l @ [e]\<rparr>) (length (ml_events l), e)), e, False))"

definition mem_get :: "string \<Rightarrow> memory_log \<Rightarrow> world_event option" where
  "mem_get i l = (if i = [] then None else map_option (\<lambda>n. ml_events l ! n) (ml_by_id l i))"

record event_filter =
  ef_source :: string
  ef_type :: string
  ef_task :: string
  ef_after :: string
  ef_limit :: int

definition match_filter :: "event_filter \<Rightarrow> world_event \<Rightarrow> bool" where
  "match_filter f e \<longleftrightarrow>
     \<not> (ef_source f \<noteq> [] \<and> we_source e \<noteq> ef_source f) \<and>
     \<not> (ef_type f \<noteq> [] \<and> we_type e \<noteq> ef_type f) \<and>
     \<not> (ef_task f \<noteq> [] \<and> sj_task (we_subject e) \<noteq> ef_task f)"

definition list_limit :: "event_filter \<Rightarrow> nat" where
  "list_limit f =
    (let n = (if ef_limit f \<le> 0 then default_list_limit else nat (ef_limit f))
     in if max_list_limit < n then max_list_limit else n)"

text \<open>The scan of \<open>List\<close>: nothing is taken up to and with the event of id \<open>after\<close>.\<close>

fun scan_events :: "event_filter \<Rightarrow> bool \<Rightarrow> world_event list \<Rightarrow> world_event list" where
  "scan_events f seen [] = []"
| "scan_events f seen (e # es) =
    (if \<not> seen then scan_events f (we_id e = ef_after f) es
     else if \<not> match_filter f e then scan_events f seen es
     else e # scan_events f seen es)"

definition mem_list :: "event_filter \<Rightarrow> memory_log \<Rightarrow> world_event list" where
  "mem_list f l =
    (let matched = scan_events f (ef_after f = []) (ml_events l); n = list_limit f
     in if ef_after f = [] \<and> n < length matched then drop (length matched - n) matched
        else if n < length matched then take n matched
        else matched)"

definition mem_recent :: "int \<Rightarrow> memory_log \<Rightarrow> world_event list" where
  "mem_recent k l =
    (let n = (if k \<le> 0 then default_list_limit else nat k);
         n' = (if length (ml_events l) < n then length (ml_events l) else n)
     in drop (length (ml_events l) - n') (ml_events l))"

section \<open>The gateway over a log\<close>

text \<open>
  \<open>Ingest\<close>, over the \<open>Append\<close> of the log it was given.  The event is stamped and named before the
  log sees it.
\<close>

definition stamped :: "stamp \<Rightarrow> string \<Rightarrow> world_event \<Rightarrow> world_event" where
  "stamped now fresh e =
    e\<lparr>we_occurred := (if we_occurred e = None then now else we_occurred e), we_received := now,
      we_id := (if we_id e = [] then fresh else we_id e),
      we_payload := (if we_payload e = None then Some [] else we_payload e)\<rparr>"

definition ingest ::
  "(world_event \<Rightarrow> 'l \<Rightarrow> 'l \<times> world_event \<times> bool) \<Rightarrow> adapter list \<Rightarrow> stamp \<Rightarrow> string \<Rightarrow> envelope \<Rightarrow> 'l
     \<Rightarrow> 'l \<times> (gateway_error + world_event \<times> bool)" where
  "ingest log_append as now fresh env l =
    (case normalize_envelope as env of
       Inl x \<Rightarrow> (l, Inl x)
     | Inr e \<Rightarrow> (case log_append (stamped now fresh e) l of (l', stored, dup) \<Rightarrow> (l', Inr (stored, dup))))"

end
