(* ===== verification/Event_Gateway.thy ===== *)
theory Event_Gateway
  imports Event_Log Agents Agent_Inbox
begin

text \<open>
  The runtime's door onto the gateway (src/event_gateway.go): an event is logged, copied onto the
  World, and wakes the agent of the task it names.  The gateway, the World's events, the agents with
  their tables and the inbox are the fields of \<open>hub\<close>; \<open>hb_log\<close> is \<open>None\<close> when the gateway is off.
  How \<open>time.Time\<close> is written is the argument \<open>st\<close>.
\<close>

record recorded_event =
  rv_id :: string
  rv_time :: stamp
  rv_type :: string
  rv_message :: string
  rv_event :: world_event

record hub =
  hb_log :: "memory_log option"
  hb_world :: "recorded_event list option"
  hb_office :: office
  hb_inbox :: machine

definition event_gateway_enabled :: "string \<Rightarrow> bool" where
  "event_gateway_enabled env \<longleftrightarrow> to_lower (trim env) \<notin> {''0'', ''off'', ''false'', ''no''}"

definition new_event_gateway :: "string \<Rightarrow> memory_log option" where
  "new_event_gateway env = (if event_gateway_enabled env then Some new_memory_log else None)"

definition default_event_prompt_limit :: int where "default_event_prompt_limit = 20"
definition max_event_prompt_limit :: int where "max_event_prompt_limit = 100"

definition event_prompt_limit :: "string \<Rightarrow> int" where
  "event_prompt_limit env =
    (let raw = trim env in
     if raw = [] then default_event_prompt_limit
     else (case atoi raw of
             None \<Rightarrow> default_event_prompt_limit
           | Some n \<Rightarrow> if n \<le> 0 then default_event_prompt_limit
                       else if max_event_prompt_limit < n then max_event_prompt_limit else n))"

section \<open>The World and the prompt\<close>

text \<open>\<open>World.RecordEvent\<close>, and the record made of an event; its data are the event's own fields.\<close>

definition record_event :: "recorded_event \<Rightarrow> recorded_event list option \<Rightarrow> recorded_event list option" where
  "record_event e w = map_option (\<lambda>es. es @ [e]) w"

definition recent_events :: "int \<Rightarrow> recorded_event list option \<Rightarrow> recorded_event list" where
  "recent_events n w =
    (case w of
       None \<Rightarrow> []
     | Some es \<Rightarrow> (let k = (if n \<le> 0 \<or> int (length es) < n then length es else nat n) in drop (length es - k) es))"

definition record_world_event :: "world_event \<Rightarrow> hub \<Rightarrow> hub" where
  "record_world_event e h =
    h\<lparr>hb_world := record_event
        \<lparr>rv_id = we_id e, rv_time = we_occurred e, rv_type = we_type e,
         rv_message = we_source e @ '' '' @ we_type e, rv_event = e\<rparr> (hb_world h)\<rparr>"

text \<open>What the prompt shows of the recent events: the log's, or the World's when there is no gateway.\<close>

definition subject_json :: "subject \<Rightarrow> json" where
  "subject_json s =
    JObj (map (\<lambda>(k, v). (k, JStr v)) (filter (\<lambda>(k, v). v \<noteq> [])
      [(''task_id'', sj_task s), (''agent_id'', sj_agent s), (''asset_id'', sj_asset s),
       (''action_id'', sj_action s), (''project_id'', sj_project s)]))"

definition payload_json :: "payload option \<Rightarrow> json" where
  "payload_json p = (case p of None \<Rightarrow> JNull | Some m \<Rightarrow> JObj m)"

definition world_event_view :: "(stamp \<Rightarrow> string) \<Rightarrow> world_event \<Rightarrow> json" where
  "world_event_view st e =
    JObj ([(''id'', JStr (we_id e)), (''source'', JStr (we_source e)), (''type'', JStr (we_type e)),
           (''occurred_at'', JStr (st (we_occurred e)))] @
          (if subject_empty (we_subject e) then [] else [(''subject'', subject_json (we_subject e))]) @
          (case we_payload e of None \<Rightarrow> [] | Some m \<Rightarrow> if m = [] then [] else [(''payload'', JObj m)]))"

definition loop_event_view :: "(stamp \<Rightarrow> string) \<Rightarrow> recorded_event \<Rightarrow> json" where
  "loop_event_view st e =
    JObj ([(''id'', JStr (rv_id e)), (''type'', JStr (rv_type e))] @
          (if rv_message e = [] then [] else [(''message'', JStr (rv_message e))]) @
          (if rv_time e = None then [] else [(''occurred_at'', JStr (st (rv_time e)))]) @
          [(''payload'', JObj [(''source'', JStr (we_source (rv_event e))), (''subject'', subject_json (we_subject (rv_event e))),
              (''payload'', payload_json (we_payload (rv_event e))), (''idempotency_key'', JStr (we_key (rv_event e)))])])"

definition recent_world_events :: "(stamp \<Rightarrow> string) \<Rightarrow> string \<Rightarrow> hub \<Rightarrow> json list" where
  "recent_world_events st env h =
    (case hb_log h of
       Some l \<Rightarrow> map (world_event_view st) (mem_recent (event_prompt_limit env) l)
     | None \<Rightarrow> map (loop_event_view st) (recent_events (event_prompt_limit env) (hb_world h)))"

definition list_world_events :: "event_filter \<Rightarrow> hub \<Rightarrow> world_event list" where
  "list_world_events f h = (case hb_log h of None \<Rightarrow> [] | Some l \<Rightarrow> mem_list f l)"

section \<open>Waking an agent\<close>

text \<open>\<open>json.Marshal\<close> of the event: fields in their order, the ones marked omitempty left out.\<close>

definition json_pair :: "string \<Rightarrow> string \<Rightarrow> string" where
  "json_pair k text = quote_string k @ '':'' @ text"

definition subject_text :: "subject \<Rightarrow> string" where
  "subject_text s =
    ''{'' @ str_join '','' (map (\<lambda>(k, v). json_pair k (quote_string v)) (filter (\<lambda>(k, v). v \<noteq> [])
      [(''task_id'', sj_task s), (''agent_id'', sj_agent s), (''asset_id'', sj_asset s),
       (''action_id'', sj_action s), (''project_id'', sj_project s)])) @ ''}''"

definition event_text :: "(stamp \<Rightarrow> string) \<Rightarrow> world_event \<Rightarrow> string" where
  "event_text st e =
    ''{'' @ str_join '',''
      ([json_pair ''id'' (quote_string (we_id e)), json_pair ''source'' (quote_string (we_source e)),
        json_pair ''type'' (quote_string (we_type e)), json_pair ''subject'' (subject_text (we_subject e))] @
       (case we_payload e of None \<Rightarrow> [] | Some m \<Rightarrow> if m = [] then [] else [json_pair ''payload'' (show_json (JObj m))]) @
       [json_pair ''occurred_at'' (quote_string (st (we_occurred e))),
        json_pair ''received_at'' (quote_string (st (we_received e)))] @
       (if we_key e = [] then [] else [json_pair ''idempotency_key'' (quote_string (we_key e))])) @ ''}''"

definition observation_message :: "(stamp \<Rightarrow> string) \<Rightarrow> string \<Rightarrow> world_event \<Rightarrow> message" where
  "observation_message st t e =
    \<lparr>msg_id = 0, msg_agent = 0, msg_task = t, msg_sender = ''system'', msg_sender_id = ''event-gateway:'' @ we_source e,
     msg_kind = KindObservation, msg_content = event_text st e, msg_status = StatusBlank, msg_error = []\<rparr>"

record delivery =
  de_task :: string
  de_agent :: nat
  de_message :: nat

text \<open>\<open>taskForMessage\<close> for the task an event names: the row, or a task of that id alone.\<close>

definition event_task :: "string \<Rightarrow> office \<Rightarrow> office \<times> task" where
  "event_task i w =
    (case of_tasks w of
       None \<Rightarrow> (w, bare_task i)
     | Some ts \<Rightarrow>
         (case get_task i ts of
            (ts', Inr (Some t)) \<Rightarrow> (w\<lparr>of_tasks := Some ts'\<rparr>, t)
          | (ts', _) \<Rightarrow> (w\<lparr>of_tasks := Some ts'\<rparr>, bare_task i)))"

text \<open>\<open>Inbox.Enqueue\<close>: the message is queued and a consumer is started.\<close>

definition enqueue_and_start :: "agent \<Rightarrow> message \<Rightarrow> machine \<Rightarrow> machine \<times> (inbox_error + nat)" where
  "enqueue_and_start a msg m =
    (case inbox_enqueue (\<lambda>_. ag_id a) (ag_name a) msg False m of
       (m', Inl e) \<Rightarrow> (m', Inl e)
     | (m', Inr i) \<Rightarrow> (spawn [PStart (ag_name a)] m', Inr i))"

definition notify_world_event ::
  "(string \<Rightarrow> string) \<Rightarrow> (stamp \<Rightarrow> string) \<Rightarrow> world_event \<Rightarrow> hub \<Rightarrow> hub \<times> delivery option" where
  "notify_world_event wd st e h =
    (let i = trim (sj_task (we_subject e)) in
     if i = [] then (h, None)
     else
       (case event_task i (hb_office h) of
          (w, t) \<Rightarrow>
            if trim (tk_id t) = [] \<or> (tk_agent t = 0 \<and> for_task (tk_id t) w = None) then (h\<lparr>hb_office := w\<rparr>, None)
            else
              (case resume_agent_for_task wd t w of
                 (w', t', Inl x) \<Rightarrow> (h\<lparr>hb_office := w'\<rparr>, None)
               | (w', t', Inr a) \<Rightarrow>
                   if ag_id a = 0 then (h\<lparr>hb_office := w'\<rparr>, None)
                   else
                     (case enqueue_and_start a (observation_message st (tk_id t') e) (hb_inbox h) of
                        (m, Inl x) \<Rightarrow> (h\<lparr>hb_office := w', hb_inbox := m\<rparr>, None)
                      | (m, Inr n) \<Rightarrow>
                          (h\<lparr>hb_office := w', hb_inbox := m\<rparr>,
                           Some \<lparr>de_task = tk_id t', de_agent = ag_id a, de_message = n\<rparr>)))))"

record ingest_response =
  ir_event :: world_event
  ir_duplicate :: bool
  ir_delivery :: "delivery option"

definition ingest_world_event ::
  "(string \<Rightarrow> string) \<Rightarrow> (stamp \<Rightarrow> string) \<Rightarrow> stamp \<Rightarrow> string \<Rightarrow> envelope \<Rightarrow> hub
     \<Rightarrow> hub \<times> (gateway_error + ingest_response)" where
  "ingest_world_event wd st now fresh env h =
    (case hb_log h of
       None \<Rightarrow> (h, Inl GatewayOff)
     | Some l \<Rightarrow>
         (case ingest mem_append [canonical_adapter] now fresh env l of
            (l', Inl x) \<Rightarrow> (h\<lparr>hb_log := Some l'\<rparr>, Inl x)
          | (l', Inr (e, dup)) \<Rightarrow>
              (let h1 = h\<lparr>hb_log := Some l'\<rparr> in
               if dup then (h1, Inr \<lparr>ir_event = e, ir_duplicate = True, ir_delivery = None\<rparr>)
               else (case notify_world_event wd st e (record_world_event e h1) of
                       (h2, d) \<Rightarrow> (h2, Inr \<lparr>ir_event = e, ir_duplicate = False, ir_delivery = d\<rparr>)))))"

end
