(* ===== verification/Watcher.thy ===== *)
theory Watcher
  imports Event_Gateway "HOL-Library.AList"
begin

text \<open>
  The watcher (src/watcher/) and its doors (src/watch.go, src/capability/watch.go).  A probe reads
  the outside world, so what it observes is a function of the watch and of the state \<open>'s\<close> outside,
  which it may change; the sink of the changes is a function of the same state.  An observation is a
  map, \<open>None\<close> when it is nil.
\<close>

type_synonym observation = "string smap option"

definition obs_at :: "observation \<Rightarrow> string \<Rightarrow> string" where
  "obs_at obs k = (case obs of None \<Rightarrow> [] | Some m \<Rightarrow> text_at m k)"

definition kind_pull_request :: string where "kind_pull_request = ''pull_request''"
definition kind_deployment :: string where "kind_deployment = ''deployment''"

record watch_spec =
  ws_kind :: string
  ws_target :: string
  ws_until :: string
  ws_task :: string
  ws_fields :: observation

record change =
  ch_source :: string
  ch_type :: string
  ch_task :: string
  ch_asset :: string
  ch_payload :: payload
  ch_key :: string

datatype watch_error =
    WatcherOff
  | UnknownKind string
  | MissingTarget
  | NoSnapshot string
  | SnapshotFailed string
  | KindRequired
  | TargetRequired
  | InvalidSeconds string string

record 's probe =
  pb_kind :: string
  pb_default_until :: string
  pb_observe :: "watch_spec \<Rightarrow> 's \<Rightarrow> 's \<times> (watch_error + observation)"
  pb_id :: "watch_spec \<Rightarrow> observation \<Rightarrow> string"
  pb_fingerprint :: "observation \<Rightarrow> string"
  pb_done :: "observation \<Rightarrow> string \<Rightarrow> bool"
  pb_change :: "watch_spec \<Rightarrow> observation \<Rightarrow> change"

type_synonym 's snapshot = "string \<Rightarrow> 's \<Rightarrow> 's \<times> (string + observation)"

definition present :: "observation \<Rightarrow> bool" where
  "present obs \<longleftrightarrow> obs \<noteq> None \<and> to_lower (trim (obs_at obs ''exists'')) \<notin> {''false'', ''0'', ''no''}"

text \<open>Go's maps hold one value per key: a later assignment replaces it.\<close>

definition observation_payload :: "observation \<Rightarrow> string \<Rightarrow> payload" where
  "observation_payload obs until =
    (let kept = (case obs of None \<Rightarrow> [] | Some m \<Rightarrow> map (\<lambda>(k, v). (k, JStr v)) (filter (\<lambda>(k, v). trim k \<noteq> []) m))
     in if until = [] then kept else AList.update ''until'' (JStr until) kept)"

definition observe_with :: "string \<Rightarrow> 's snapshot option \<Rightarrow> watch_spec \<Rightarrow> 's \<Rightarrow> 's \<times> (watch_error + observation)" where
  "observe_with kind snap sp s =
    (case snap of
       None \<Rightarrow> (s, Inl (NoSnapshot kind))
     | Some f \<Rightarrow> (case f (ws_target sp) s of (s', Inl e) \<Rightarrow> (s', Inl (SnapshotFailed e)) | (s', Inr obs) \<Rightarrow> (s', Inr obs)))"

section \<open>The probe of a deployment\<close>

definition until_succeeded :: string where "until_succeeded = ''succeeded''"
definition until_failed :: string where "until_failed = ''failed''"
definition until_terminal :: string where "until_terminal = ''terminal''"

definition deployment_id :: "watch_spec \<Rightarrow> observation \<Rightarrow> string" where
  "deployment_id sp obs =
    kind_deployment @ '':'' @ to_lower (first_trimmed [obs_at obs ''deployment'', obs_at obs ''target'', ws_target sp])"

definition deployment_state :: "observation \<Rightarrow> string" where
  "deployment_state obs = to_lower (trim (obs_at obs ''state''))"

definition deployment_fingerprint :: "observation \<Rightarrow> string" where
  "deployment_fingerprint obs = deployment_state obs @ ''|'' @ trim (obs_at obs ''healthy'')"

definition deployment_done :: "observation \<Rightarrow> string \<Rightarrow> bool" where
  "deployment_done obs until =
    (let succeeded = deployment_state obs = until_succeeded; failed = deployment_state obs = until_failed;
         u = to_lower (trim until)
     in if u = until_failed then failed else succeeded \<or> failed)"

definition deployment_change :: "watch_spec \<Rightarrow> observation \<Rightarrow> change" where
  "deployment_change sp obs =
    (let i = first_trimmed [obs_at obs ''deployment'', ws_target sp]; st = deployment_state obs;
         (typ, suffix) = (if st = until_succeeded then (''deployment.succeeded'', until_succeeded)
                          else if st = until_failed then (''deployment.failed'', until_failed)
                          else (''deployment.updated'', ''updated''));
         until = (if ws_until sp = [] then until_succeeded else ws_until sp)
     in \<lparr>ch_source = ''deployment'', ch_type = typ, ch_task = ws_task sp, ch_asset = ''deployment:'' @ i,
         ch_payload = observation_payload obs until, ch_key = ''deployment:'' @ i @ '':'' @ suffix\<rparr>)"

definition deployment_probe :: "'s snapshot option \<Rightarrow> 's probe" where
  "deployment_probe snap =
    \<lparr>pb_kind = kind_deployment, pb_default_until = until_succeeded, pb_observe = observe_with kind_deployment snap,
     pb_id = deployment_id, pb_fingerprint = deployment_fingerprint, pb_done = deployment_done, pb_change = deployment_change\<rparr>"

section \<open>The probe of a pull request\<close>

definition until_merged :: string where "until_merged = ''merged''"
definition until_closed :: string where "until_closed = ''closed''"

definition pull_repo :: "watch_spec \<Rightarrow> observation \<Rightarrow> string" where
  "pull_repo sp obs = first_trimmed [obs_at obs ''repo'', obs_at (ws_fields sp) ''repo'']"

definition pull_number :: "watch_spec \<Rightarrow> observation \<Rightarrow> string" where
  "pull_number sp obs = first_trimmed [obs_at obs ''number'', obs_at (ws_fields sp) ''number'']"

definition pull_id :: "watch_spec \<Rightarrow> observation \<Rightarrow> string" where
  "pull_id sp obs =
    (if pull_repo sp obs \<noteq> [] \<and> pull_number sp obs \<noteq> []
     then kind_pull_request @ '':'' @ to_lower (pull_repo sp obs) @ ''#'' @ pull_number sp obs
     else kind_pull_request @ '':'' @ to_lower (first_trimmed [obs_at obs ''pr'', ws_target sp]))"

definition pull_fingerprint :: "observation \<Rightarrow> string" where
  "pull_fingerprint obs = to_lower (trim (obs_at obs ''state'')) @ ''|'' @ trim (obs_at obs ''merged'')"

definition pull_merged :: "observation \<Rightarrow> bool" where
  "pull_merged obs \<longleftrightarrow> obs_at obs ''merged'' = ''true''"

definition pull_closed :: "observation \<Rightarrow> bool" where
  "pull_closed obs \<longleftrightarrow> equal_fold (obs_at obs ''state'') ''closed''"

definition pull_done :: "observation \<Rightarrow> string \<Rightarrow> bool" where
  "pull_done obs until =
    (if to_lower (trim until) = until_closed then pull_closed obs else pull_merged obs \<or> pull_closed obs)"

definition pull_change :: "watch_spec \<Rightarrow> observation \<Rightarrow> change" where
  "pull_change sp obs =
    (let pr = first_trimmed [obs_at obs ''pr'', ws_target sp];
         name = pull_repo sp obs @ ''#'' @ pull_number sp obs;
         (typ, suffix) = (if pull_merged obs then (''github.pull_request.merged'', ''merged'')
                          else if pull_closed obs then (''github.pull_request.closed'', ''closed'')
                          else (''github.pull_request.updated'', ''updated''));
         until = (if ws_until sp = [] then until_merged else ws_until sp);
         payload = observation_payload obs until
     in \<lparr>ch_source = ''github'', ch_type = typ, ch_task = ws_task sp, ch_asset = ''pull_request:'' @ name,
         ch_payload = (if pr \<noteq> [] then AList.update ''pr'' (JStr pr) payload else payload),
         ch_key = ''github:'' @ name @ '':'' @ suffix\<rparr>)"

definition pull_request_probe :: "'s snapshot option \<Rightarrow> 's probe" where
  "pull_request_probe snap =
    \<lparr>pb_kind = kind_pull_request, pb_default_until = until_merged, pb_observe = observe_with kind_pull_request snap,
     pb_id = pull_id, pb_fingerprint = pull_fingerprint, pb_done = pull_done, pb_change = pull_change\<rparr>"

section \<open>The watcher\<close>

record watch_item =
  wi_spec :: watch_spec
  wi_fingerprint :: string

record 's watcher =
  wt_probes :: "'s probe smap"
  wt_items :: "watch_item smap"
  wt_interval :: int
  wt_running :: bool

definition default_interval :: int where "default_interval = 15 * second"
definition min_interval :: int where "min_interval = 2 * second"

definition with_interval :: "int \<Rightarrow> 's watcher \<Rightarrow> 's watcher" where
  "with_interval d w = (if d > 0 then w\<lparr>wt_interval := (if d < min_interval then min_interval else d)\<rparr> else w)"

definition add_probe :: "'s watcher \<Rightarrow> 's probe \<Rightarrow> 's watcher" where
  "add_probe w p = (if trim (pb_kind p) = [] then w else w\<lparr>wt_probes := AList.update (pb_kind p) p (wt_probes w)\<rparr>)"

definition new_watcher :: "'s probe list \<Rightarrow> int \<Rightarrow> 's watcher" where
  "new_watcher ps d =
    with_interval d (foldl add_probe \<lparr>wt_probes = [], wt_items = [], wt_interval = default_interval, wt_running = False\<rparr> ps)"

definition find_probe :: "string \<Rightarrow> 's watcher \<Rightarrow> watch_error + 's probe" where
  "find_probe kind w =
    (case map_of (wt_probes w) (trim kind) of None \<Rightarrow> Inl (UnknownKind (trim kind)) | Some p \<Rightarrow> Inr p)"

definition watcher_observe :: "watch_spec \<Rightarrow> 's watcher \<Rightarrow> 's \<Rightarrow> 's \<times> (watch_error + observation)" where
  "watcher_observe sp w s =
    (case find_probe (ws_kind sp) w of
       Inl e \<Rightarrow> (s, Inl e)
     | Inr p \<Rightarrow>
         (let t = trim (ws_target sp) in
          if t = [] then (s, Inl MissingTarget) else pb_observe p (sp\<lparr>ws_target := t\<rparr>) s))"

definition watcher_until :: "watch_spec \<Rightarrow> 's watcher \<Rightarrow> string" where
  "watcher_until sp w =
    (case find_probe (ws_kind sp) w of
       Inl e \<Rightarrow> trim (ws_until sp)
     | Inr p \<Rightarrow> if trim (ws_until sp) \<noteq> [] then trim (ws_until sp) else pb_default_until p)"

definition watcher_terminal :: "watch_spec \<Rightarrow> observation \<Rightarrow> 's watcher \<Rightarrow> bool" where
  "watcher_terminal sp obs w =
    (case find_probe (ws_kind sp) w of Inl e \<Rightarrow> False | Inr p \<Rightarrow> pb_done p obs (watcher_until sp w))"

text \<open>\<open>Watch\<close>: the object's slot is written, and the loop runs.\<close>

definition watch_slot :: "'s probe \<Rightarrow> watch_spec \<Rightarrow> string" where
  "watch_slot p sp =
    (let i = pb_id p sp (ws_fields sp) in if i = [] then ws_kind sp @ '':'' @ to_lower (ws_target sp) else i)"

definition watch :: "watch_spec \<Rightarrow> 's watcher \<Rightarrow> 's watcher \<times> watch_error option" where
  "watch sp w =
    (case find_probe (ws_kind sp) w of
       Inl e \<Rightarrow> (w, Some e)
     | Inr p \<Rightarrow>
         (let t = trim (ws_target sp) in
          if t = [] then (w, Some MissingTarget)
          else
            (let sp1 = sp\<lparr>ws_target := t\<rparr>;
                 sp2 = (if trim (ws_until sp1) = [] then sp1\<lparr>ws_until := pb_default_until p\<rparr> else sp1);
                 it = \<lparr>wi_spec = sp2, wi_fingerprint = pb_fingerprint p (ws_fields sp2)\<rparr>
             in (w\<lparr>wt_items := AList.update (watch_slot p sp2) it (wt_items w), wt_running := True\<rparr>, None))))"

record watch_view =
  wv_id :: string
  wv_kind :: string
  wv_target :: string
  wv_until :: string
  wv_task :: string
  wv_watching :: bool
  wv_snapshot :: observation

definition watcher_list :: "'s watcher \<Rightarrow> watch_view list" where
  "watcher_list w =
    map (\<lambda>(i, it). \<lparr>wv_id = i, wv_kind = ws_kind (wi_spec it), wv_target = ws_target (wi_spec it),
         wv_until = ws_until (wi_spec it), wv_task = ws_task (wi_spec it), wv_watching = True,
         wv_snapshot = ws_fields (wi_spec it)\<rparr>) (wt_items w)"

definition watcher_close :: "'s watcher \<Rightarrow> 's watcher" where
  "watcher_close w = w\<lparr>wt_running := False\<rparr>"

section \<open>One poll\<close>

text \<open>
  The batch is copied under the lock; each of its rows is then observed without it, and the lock is
  taken again to write the new fingerprint and once more to delete a finished watch.  A row is one
  call of \<open>poll_row\<close>; what happens between two rows is the subject of the step machine below.
\<close>

type_synonym 's sink = "change \<Rightarrow> 's \<Rightarrow> 's \<times> string option"

record 's live =
  lv_id :: string
  lv_item :: watch_item
  lv_probe :: "'s probe option"

definition poll_batch :: "'s watcher \<Rightarrow> 's live list" where
  "poll_batch w =
    map (\<lambda>(i, it). \<lparr>lv_id = i, lv_item = it, lv_probe = map_of (wt_probes w) (ws_kind (wi_spec it))\<rparr>) (wt_items w)"

definition noted :: "string \<Rightarrow> observation \<Rightarrow> watch_item \<Rightarrow> watch_item" where
  "noted fp obs it =
    it\<lparr>wi_fingerprint := fp,
       wi_spec := (wi_spec it)\<lparr>ws_fields := obs,
         ws_target := (if trim (obs_at obs ''target'') \<noteq> [] then trim (obs_at obs ''target'') else ws_target (wi_spec it))\<rparr>\<rparr>"

definition note_item :: "string \<Rightarrow> string \<Rightarrow> observation \<Rightarrow> 's watcher \<Rightarrow> 's watcher" where
  "note_item i fp obs w = w\<lparr>wt_items := AList.map_entry i (noted fp obs) (wt_items w)\<rparr>"

definition told_change :: "'s probe \<Rightarrow> watch_spec \<Rightarrow> observation \<Rightarrow> change" where
  "told_change p sp obs = (let ch = pb_change p sp obs in if ch_task ch = [] then ch\<lparr>ch_task := ws_task sp\<rparr> else ch)"

definition tell :: "'s sink option \<Rightarrow> change \<Rightarrow> 's \<Rightarrow> 's" where
  "tell sink ch s = (case sink of None \<Rightarrow> s | Some f \<Rightarrow> fst (f ch s))"

definition poll_row :: "'s sink option \<Rightarrow> 's live \<Rightarrow> 's watcher \<times> 's \<Rightarrow> 's watcher \<times> 's" where
  "poll_row sink row ws =
    (case lv_probe row of
       None \<Rightarrow> ws
     | Some p \<Rightarrow>
         (let sp = wi_spec (lv_item row) in
          case pb_observe p sp (snd ws) of
            (s1, Inl e) \<Rightarrow> (fst ws, s1)
          | (s1, Inr obs) \<Rightarrow>
              if pb_fingerprint p obs = wi_fingerprint (lv_item row) then (fst ws, s1)
              else
                (let w1 = note_item (lv_id row) (pb_fingerprint p obs) obs (fst ws);
                     s2 = tell sink (told_change p sp obs) s1
                 in (if pb_done p obs (ws_until sp) then w1\<lparr>wt_items := AList.delete (lv_id row) (wt_items w1)\<rparr> else w1, s2))))"

definition poll :: "'s sink option \<Rightarrow> 's watcher \<times> 's \<Rightarrow> 's watcher \<times> 's" where
  "poll sink ws = foldl (\<lambda>acc row. poll_row sink row acc) ws (poll_batch (fst ws))"

text \<open>The poll row by row, with watches started between its rows.\<close>

datatype watch_event = PollBegin | PollRow | WatchAsked watch_spec

record 's watching =
  wa_watcher :: "'s watcher"
  wa_batch :: "'s live list"
  wa_outside :: 's

fun watching_step :: "'s sink option \<Rightarrow> watch_event \<Rightarrow> 's watching \<Rightarrow> 's watching" where
  "watching_step sink PollBegin m =
    (if wa_batch m = [] then m\<lparr>wa_batch := poll_batch (wa_watcher m)\<rparr> else m)"
| "watching_step sink PollRow m =
    (case wa_batch m of
       [] \<Rightarrow> m
     | row # rows \<Rightarrow>
         (case poll_row sink row (wa_watcher m, wa_outside m) of
            (w, s) \<Rightarrow> m\<lparr>wa_watcher := w, wa_outside := s, wa_batch := rows\<rparr>))"
| "watching_step sink (WatchAsked sp) m = m\<lparr>wa_watcher := fst (watch sp (wa_watcher m))\<rparr>"

definition watching_run :: "'s sink option \<Rightarrow> watch_event list \<Rightarrow> 's watching \<Rightarrow> 's watching" where
  "watching_run sink evs m = foldl (\<lambda>m e. watching_step sink e m) m evs"

end
