(* ===== verification/Watch_Doors.thy ===== *)
theory Watch_Doors
  imports Watcher Graceful
begin

text \<open>
  The doors of the watcher: the runtime's (src/watch.go: a watch asked over HTTP, and the sink that
  reports a change to the event gateway) and the \<open>watch\<close> capability (src/capability/watch.go).
  \<open>Atoi\<close>'s range and the wrap-around of a duration are those of \<open>Go_Numbers\<close>.
\<close>

section \<open>The runtime's door\<close>

definition watch_interval :: "string \<Rightarrow> string \<Rightarrow> int" where
  "watch_interval env env_pr =
    (let raw = (if trim env = [] then trim env_pr else trim env) in
     if raw = [] then default_interval
     else (case atoi raw of
             None \<Rightarrow> default_interval
           | Some n \<Rightarrow> if n \<le> 0 then default_interval else wrap64 (n * second)))"

definition new_world_watcher :: "string \<Rightarrow> string \<Rightarrow> 's snapshot \<Rightarrow> 's snapshot \<Rightarrow> 's watcher" where
  "new_world_watcher env env_pr pulls deployments =
    new_watcher [pull_request_probe (Some pulls), deployment_probe (Some deployments)] (watch_interval env env_pr)"

text \<open>The event a change becomes.\<close>

definition change_envelope :: "change \<Rightarrow> envelope" where
  "change_envelope ch =
    \<lparr>en_source = ch_source ch, en_type = ch_type ch,
     en_subject = \<lparr>sj_task = ch_task ch, sj_agent = [], sj_asset = ch_asset ch, sj_action = [], sj_project = []\<rparr>,
     en_payload = Some (ch_payload ch), en_occurred = None, en_key = ch_key ch\<rparr>"

definition watch_sink ::
  "(string \<Rightarrow> string) \<Rightarrow> (stamp \<Rightarrow> string) \<Rightarrow> stamp \<Rightarrow> string \<Rightarrow> change \<Rightarrow> hub \<Rightarrow> hub \<times> gateway_error option" where
  "watch_sink wd st now fresh ch h =
    (case ingest_world_event wd st now fresh (change_envelope ch) h of
       (h', Inl e) \<Rightarrow> (h', Some e) | (h', Inr r) \<Rightarrow> (h', None))"

record watch_request =
  wq_kind :: string
  wq_target :: string
  wq_pr :: string
  wq_deployment :: string
  wq_until :: string
  wq_task :: string

definition kind_of_names :: "string \<Rightarrow> string \<Rightarrow> string \<Rightarrow> string" where
  "kind_of_names kind pr deployment =
    (if kind \<noteq> [] then kind else if pr \<noteq> [] then kind_pull_request else if deployment \<noteq> [] then kind_deployment else [])"

definition named_spec :: "string \<Rightarrow> string \<Rightarrow> string \<Rightarrow> string \<Rightarrow> watch_error + watch_spec" where
  "named_spec kind target until task =
    (if kind = [] then Inl KindRequired
     else if target = [] then Inl TargetRequired
     else Inr \<lparr>ws_kind = kind, ws_target = target, ws_until = trim until, ws_task = trim task, ws_fields = None\<rparr>)"

definition watch_spec_from_request :: "watch_request \<Rightarrow> watch_error + watch_spec" where
  "watch_spec_from_request q =
    (let pr = trim (wq_pr q); d = trim (wq_deployment q)
     in named_spec (kind_of_names (trim (wq_kind q)) pr d) (Graceful.first_non_empty [wq_target q, pr, d]) (wq_until q) (wq_task q))"

definition watch_view_of :: "string \<Rightarrow> watch_spec \<Rightarrow> observation \<Rightarrow> bool \<Rightarrow> watch_view" where
  "watch_view_of i sp obs watching =
    \<lparr>wv_id = i, wv_kind = ws_kind sp, wv_target = Graceful.first_non_empty [obs_at obs ''target'', ws_target sp],
     wv_until = ws_until sp, wv_task = ws_task sp, wv_watching = watching,
     wv_snapshot = Some (case obs of None \<Rightarrow> [] | Some m \<Rightarrow> m)\<rparr>"

definition watch_id :: "'s watcher \<Rightarrow> watch_spec \<Rightarrow> observation \<Rightarrow> string" where
  "watch_id w sp obs =
    (case find (\<lambda>v. wv_kind v = ws_kind sp \<and> (wv_target v = ws_target sp \<or> equal_fold (wv_target v) (ws_target sp))) (watcher_list w) of
       Some v \<Rightarrow> wv_id v
     | None \<Rightarrow>
         if ws_kind sp = kind_pull_request then pull_id sp obs
         else if ws_kind sp = kind_deployment then deployment_id sp obs
         else ws_kind sp @ '':'' @ to_lower (ws_target sp))"

text \<open>\<open>StartWatch\<close>; \<open>None\<close> is a watcher that is off.\<close>

definition start_watch :: "watch_request \<Rightarrow> 's watcher option \<Rightarrow> 's \<Rightarrow> 's watcher option \<times> 's \<times> (watch_error + watch_view)" where
  "start_watch q wopt s =
    (case wopt of
       None \<Rightarrow> (None, s, Inl WatcherOff)
     | Some w \<Rightarrow>
         (case watch_spec_from_request q of
            Inl e \<Rightarrow> (Some w, s, Inl e)
          | Inr sp0 \<Rightarrow>
              (case watcher_observe sp0 w s of
                 (s', Inl e) \<Rightarrow> (Some w, s', Inl e)
               | (s', Inr obs) \<Rightarrow>
                   (let sp = sp0\<lparr>ws_until := watcher_until sp0 w\<rparr>;
                        view = watch_view_of (watch_id w sp obs) sp obs False
                    in if \<not> present obs \<or> watcher_terminal sp obs w then (Some w, s', Inr view)
                       else (let sp' = sp\<lparr>ws_fields := obs\<rparr> in
                             case watch sp' w of
                               (w', Some e) \<Rightarrow> (Some w', s', Inl e)
                             | (w', None) \<Rightarrow>
                                 (Some w', s', Inr (view\<lparr>wv_watching := True, wv_id := watch_id w' sp' obs\<rparr>)))))))"

definition list_watches :: "'s watcher option \<Rightarrow> watch_view list" where
  "list_watches wopt = (case wopt of None \<Rightarrow> [] | Some w \<Rightarrow> watcher_list w)"

section \<open>The capability\<close>

definition in_call_watch :: "string \<Rightarrow> bool" where
  "in_call_watch raw \<longleftrightarrow> to_lower (trim raw) \<in> {''1'', ''true'', ''yes'', ''on''}"

definition infer_watch_spec :: "string smap \<Rightarrow> watch_error + watch_spec" where
  "infer_watch_spec inp =
    (let at = text_at inp;
         kind = trim (first_trimmed [at ''kind'', at ''type'']);
         pr = first_trimmed [at ''pr'', at ''pr_url'', at ''pull_request''];
         d = first_trimmed [at ''deployment'', at ''pipeline_id''];
         target = first_trimmed [at ''target'', pr, d, at ''asset'', at ''id'']
     in named_spec (kind_of_names kind pr d) target (at ''until'') (at ''task_id''))"

definition default_watch_interval :: int where "default_watch_interval = 15 * second"
definition min_watch_interval :: int where "min_watch_interval = 2 * second"
definition default_watch_timeout :: int where "default_watch_timeout = 60 * second"
definition max_watch_timeout :: int where "max_watch_timeout = 10 * minute"

definition watch_seconds :: "string smap \<Rightarrow> string \<Rightarrow> int \<Rightarrow> int \<Rightarrow> int \<Rightarrow> watch_error + int" where
  "watch_seconds inp key fallback lo hi =
    (case read_seconds (text_at inp key) fallback lo hi of
       None \<Rightarrow> Inl (InvalidSeconds key (trim (text_at inp key))) | Some d \<Rightarrow> Inr d)"

text \<open>The interval and the window of the polls inside the call.\<close>

definition watch_window :: "string smap \<Rightarrow> watch_error + int \<times> int" where
  "watch_window inp =
    (case watch_seconds inp ''interval'' default_watch_interval min_watch_interval 0 of
       Inl e \<Rightarrow> Inl e
     | Inr i \<Rightarrow>
         (case watch_seconds inp ''timeout'' default_watch_timeout 0 max_watch_timeout of
            Inl e \<Rightarrow> Inl e
          | Inr t \<Rightarrow> Inr (if i > t then t else i, t)))"

text \<open>
  The polls inside the call: \<open>n\<close> of them before the window closes, when \<open>sleep\<close> returns the
  context's error.
\<close>

fun call_polls :: "nat \<Rightarrow> watch_spec \<Rightarrow> 's watcher \<Rightarrow> observation \<Rightarrow> 's \<Rightarrow> 's \<times> (watch_error + observation)" where
  "call_polls 0 sp w obs s = (s, Inr obs)"
| "call_polls (Suc n) sp w obs s =
    (case watcher_observe sp w s of
       (s', Inl e) \<Rightarrow> (s', Inl e)
     | (s', Inr obs') \<Rightarrow>
         if watcher_terminal sp obs' w \<or> \<not> present obs' then (s', Inr obs') else call_polls n sp w obs' s')"

text \<open>The output: what the call names, then every field of the observation the call left blank.\<close>

definition put_blank :: "string smap \<Rightarrow> string \<times> string \<Rightarrow> string smap" where
  "put_blank out kv = (if trim (text_at out (fst kv)) = [] then AList.update (fst kv) (snd kv) out else out)"

definition watch_output :: "watch_spec \<Rightarrow> observation \<Rightarrow> string \<Rightarrow> string smap" where
  "watch_output sp obs until =
    (let out = foldl put_blank
           [(''kind'', ws_kind sp), (''target'', first_trimmed [obs_at obs ''target'', ws_target sp]), (''until'', until)]
           (case obs of None \<Rightarrow> [] | Some m \<Rightarrow> m);
         pr = first_trimmed [obs_at obs ''pr'', ws_target sp]
     in if ws_kind sp = kind_pull_request \<and> pr \<noteq> [] then AList.update ''pr'' pr out else out)"

definition watch_report :: "watch_spec \<Rightarrow> observation \<Rightarrow> 's watcher \<Rightarrow> string smap" where
  "watch_report sp obs w =
    AList.update ''watching'' ''false''
      (AList.update ''terminal'' (show_bool (watcher_terminal sp obs w)) (watch_output sp obs (ws_until sp)))"

definition run_watch ::
  "nat \<Rightarrow> string smap \<Rightarrow> 's watcher option \<Rightarrow> 's \<Rightarrow> 's watcher option \<times> 's \<times> (watch_error + string smap)" where
  "run_watch n inp wopt s =
    (case wopt of
       None \<Rightarrow> (None, s, Inl WatcherOff)
     | Some w \<Rightarrow>
         (case infer_watch_spec inp of
            Inl e \<Rightarrow> (Some w, s, Inl e)
          | Inr sp0 \<Rightarrow>
              (case watch_window inp of
                 Inl e \<Rightarrow> (Some w, s, Inl e)
               | Inr _ \<Rightarrow>
                   (case watcher_observe sp0 w s of
                      (s1, Inl e) \<Rightarrow> (Some w, s1, Inl e)
                    | (s1, Inr obs0) \<Rightarrow>
                        (case (if in_call_watch (text_at inp ''watch'') \<and> \<not> watcher_terminal sp0 obs0 w \<and> present obs0
                               then call_polls n sp0 w obs0 s1 else (s1, Inr obs0)) of
                           (s2, Inl e) \<Rightarrow> (Some w, s2, Inl e)
                         | (s2, Inr obs) \<Rightarrow>
                             (let sp = sp0\<lparr>ws_until := watcher_until sp0 w\<rparr>;
                                  out = watch_report sp obs w
                              in if watcher_terminal sp obs w \<or> \<not> present obs then (Some w, s2, Inr out)
                                 else (case watch (sp\<lparr>ws_fields := obs\<rparr>) w of
                                         (w', Some e) \<Rightarrow> (Some w', s2, Inl e)
                                       | (w', None) \<Rightarrow> (Some w', s2, Inr (AList.update ''watching'' ''true'' out)))))))))"

end
