(* ===== verification/Watcher_Laws.thy ===== *)
theory Watcher_Laws
  imports Watcher
begin

text \<open>
  What one poll reports, and what it loses.  The probes are taken to only look at the world: what
  they see is a function \<open>look\<close> of the watch, while nothing outside moves.
\<close>

definition looking :: "(watch_spec \<Rightarrow> watch_error + observation) \<Rightarrow> 's watcher \<Rightarrow> bool" where
  "looking look w \<longleftrightarrow> (\<forall>p\<in>snd ` set (wt_probes w). \<forall>sp s. pb_observe p sp s = (s, look sp))"

text \<open>A watch whose fingerprint moved, with its probe and what it saw.\<close>

definition moved :: "(watch_spec \<Rightarrow> watch_error + observation) \<Rightarrow> 's watcher \<Rightarrow> watch_item \<Rightarrow> ('s probe \<times> observation) option" where
  "moved look w it =
    (case map_of (wt_probes w) (ws_kind (wi_spec it)) of
       None \<Rightarrow> None
     | Some p \<Rightarrow> (case look (wi_spec it) of
                   Inl e \<Rightarrow> None
                 | Inr obs \<Rightarrow> if pb_fingerprint p obs = wi_fingerprint it then None else Some (p, obs)))"

definition changes_of :: "(watch_spec \<Rightarrow> watch_error + observation) \<Rightarrow> 's watcher \<Rightarrow> watch_item \<Rightarrow> change list" where
  "changes_of look w it = (case moved look w it of None \<Rightarrow> [] | Some (p, obs) \<Rightarrow> [told_change p (wi_spec it) obs])"

definition next_item :: "(watch_spec \<Rightarrow> watch_error + observation) \<Rightarrow> 's watcher \<Rightarrow> string \<times> watch_item \<Rightarrow> watch_item smap" where
  "next_item look w iit =
    (case moved look w (snd iit) of
       None \<Rightarrow> [iit]
     | Some (p, obs) \<Rightarrow>
         if pb_done p obs (ws_until (wi_spec (snd iit))) then []
         else [(fst iit, noted (pb_fingerprint p obs) obs (snd iit))])"

definition tell_all :: "'s sink option \<Rightarrow> change list \<Rightarrow> 's \<Rightarrow> 's" where
  "tell_all sink chs s = foldl (\<lambda>s ch. tell sink ch s) s chs"

definition slots_ok :: "'s watcher \<Rightarrow> bool" where
  "slots_ok w \<longleftrightarrow> distinct (map fst (wt_items w))"

lemma watch_slots: "slots_ok w \<Longrightarrow> slots_ok (fst (watch sp w))"
  by (auto simp: slots_ok_def watch_def Let_def distinct_update split: sum.splits)

lemma map_entry_fresh: "i \<notin> set (map fst xs) \<Longrightarrow> AList.map_entry i f xs = xs"
  by (induction xs) auto

lemma delete_fresh: "i \<notin> set (map fst xs) \<Longrightarrow> AList.delete i xs = xs"
  by (induction xs) auto

lemma map_entry_here:
  "i \<notin> set (map fst pre) \<Longrightarrow> AList.map_entry i f (pre @ (i, it) # post) = pre @ (i, f it) # post"
  by (induction pre) (auto simp: map_entry_fresh)

lemma delete_here:
  "i \<notin> set (map fst pre) \<Longrightarrow> i \<notin> set (map fst post) \<Longrightarrow> AList.delete i (pre @ (i, it) # post) = pre @ post"
  by (induction pre) (auto simp: delete_fresh)

definition row_of :: "'s watcher \<Rightarrow> string \<times> watch_item \<Rightarrow> 's live" where
  "row_of w iit = \<lparr>lv_id = fst iit, lv_item = snd iit, lv_probe = map_of (wt_probes w) (ws_kind (wi_spec (snd iit)))\<rparr>"

lemma poll_batch_rows: "poll_batch w = map (row_of w) (wt_items w)"
  by (auto simp: poll_batch_def row_of_def)

lemma poll_row_here:
  assumes "looking look w" "i \<notin> set (map fst pre)" "i \<notin> set (map fst post)" "wt_items v = pre @ (i, it) # post"
  shows "poll_row sink (row_of w (i, it)) (v, s) =
    (v\<lparr>wt_items := pre @ next_item look w (i, it) @ post\<rparr>, tell_all sink (changes_of look w it) s)"
proof (cases "map_of (wt_probes w) (ws_kind (wi_spec it))")
  case None
  then show ?thesis using assms(4) by (simp add: poll_row_def row_of_def next_item_def changes_of_def moved_def tell_all_def)
next
  case (Some p)
  have "p \<in> snd ` set (wt_probes w)" using map_of_SomeD [OF Some] by force
  then have obs: "pb_observe p (wi_spec it) s = (s, look (wi_spec it))" using assms(1) by (auto simp: looking_def)
  show ?thesis
  proof (cases "look (wi_spec it)")
    case (Inl e)
    then show ?thesis using Some obs assms(4)
      by (simp add: poll_row_def row_of_def next_item_def changes_of_def moved_def tell_all_def)
  next
    case (Inr o1)
    then show ?thesis using Some obs assms(2-4)
      by (simp add: poll_row_def row_of_def next_item_def changes_of_def moved_def tell_all_def Let_def note_item_def
          map_entry_here delete_here)
  qed
qed

lemma next_item_slots: "fst ` set (next_item look w iit) \<subseteq> {fst iit}"
  by (auto simp: next_item_def split: option.splits if_splits)

lemma poll_rows:
  assumes "looking look w"
  shows "distinct (map fst (pre @ todo)) \<Longrightarrow> wt_items v = pre @ todo \<Longrightarrow>
    foldl (\<lambda>acc row. poll_row sink row acc) (v, s) (map (row_of w) todo) =
      (v\<lparr>wt_items := pre @ concat (map (next_item look w) todo)\<rparr>,
       tell_all sink (concat (map (\<lambda>iit. changes_of look w (snd iit)) todo)) s)"
proof (induction todo arbitrary: pre v s)
  case Nil
  then show ?case by (simp add: tell_all_def)
next
  case (Cons iit todo)
  obtain i it where iit: "iit = (i, it)" by fastforce
  define pre' where "pre' = pre @ next_item look w (i, it)"
  have step: "poll_row sink (row_of w (i, it)) (v, s) =
      (v\<lparr>wt_items := pre' @ todo\<rparr>, tell_all sink (changes_of look w it) s)"
    using poll_row_here [OF assms, of i pre todo v it] Cons.prems iit by (simp add: pre'_def)
  have "distinct (map fst (next_item look w (i, it)))"
    by (auto simp: next_item_def split: option.splits)
  then have d: "distinct (map fst (pre' @ todo))"
    using Cons.prems(1) next_item_slots [of look w "(i, it)"] iit by (auto simp: pre'_def)
  have "foldl (\<lambda>acc row. poll_row sink row acc) (v\<lparr>wt_items := pre' @ todo\<rparr>, tell_all sink (changes_of look w it) s) (map (row_of w) todo) =
      (v\<lparr>wt_items := pre' @ concat (map (next_item look w) todo)\<rparr>,
       tell_all sink (concat (map (\<lambda>iit. changes_of look w (snd iit)) todo)) (tell_all sink (changes_of look w it) s))"
    using Cons.IH [OF d, of "v\<lparr>wt_items := pre' @ todo\<rparr>" "tell_all sink (changes_of look w it) s"] by simp
  with step show ?case by (simp add: iit pre'_def tell_all_def)
qed

lemma poll_result:
  assumes "looking look w" "slots_ok w"
  shows "poll sink (w, s) =
    (w\<lparr>wt_items := concat (map (next_item look w) (wt_items w))\<rparr>,
     tell_all sink (concat (map (\<lambda>iit. changes_of look w (snd iit)) (wt_items w))) s)"
  using poll_rows [OF assms(1), of "[]" "wt_items w" w sink s] assms(2)
  by (simp add: poll_def poll_batch_rows slots_ok_def)

text \<open>
  C25: A poll reports exactly the objects that moved.  While nothing outside changes, it tells the sink
  one change for each watch whose fingerprint is not the recorded one, in the order of the watches;
  it records what each of them saw, drops the ones that reached what they wait for, and leaves every
  other watch as it was.
\<close>

theorem poll_reports_what_moved:
  assumes "looking look w" "distinct (map fst (wt_items w))"
  shows "poll sink (w, s) =
    (w\<lparr>wt_items := concat (map (next_item look w) (wt_items w))\<rparr>,
     foldl (\<lambda>s ch. tell sink ch s) s (concat (map (\<lambda>iit. changes_of look w (snd iit)) (wt_items w))))"
  using poll_result [OF assms(1), of sink s] assms(2) by (simp add: slots_ok_def tell_all_def)

section \<open>A world that does not move\<close>

definition settled :: "(watch_spec \<Rightarrow> watch_error + observation) \<Rightarrow> 's watcher \<Rightarrow> bool" where
  "settled look w \<longleftrightarrow> (\<forall>it\<in>snd ` set (wt_items w). moved look w it = None)"

lemma poll_settled:
  assumes "looking look w" "slots_ok w" "settled look w"
  shows "poll sink (w, s) = (w, s)"
proof -
  have n: "next_item look w iit = [iit]" and c: "changes_of look w (snd iit) = []" if "iit \<in> set (wt_items w)" for iit
    using assms(3) that by (auto simp: settled_def next_item_def changes_of_def)
  have "concat (map (next_item look w) xs) = xs \<and> concat (map (\<lambda>iit. changes_of look w (snd iit)) xs) = []"
    if "set xs \<subseteq> set (wt_items w)" for xs
    using that n c by (induction xs) auto
  then have same: "concat (map (next_item look w) (wt_items w)) = wt_items w"
    and none: "concat (map (\<lambda>iit. changes_of look w (snd iit)) (wt_items w)) = []" by blast+
  show ?thesis unfolding poll_result [OF assms(1,2)] same none by (simp add: tell_all_def)
qed

lemma moved_noted:
  assumes "moved look w it = Some (p, obs)" "look (wi_spec (noted (pb_fingerprint p obs) obs it)) = look (wi_spec it)"
  shows "moved look w (noted (pb_fingerprint p obs) obs it) = None"
  using assms by (auto simp: moved_def noted_def split: option.splits sum.splits if_splits)

lemma next_items_slots:
  "distinct (map fst xs) \<Longrightarrow> distinct (map fst (concat (map (next_item look w) xs))) \<and>
     fst ` set (concat (map (next_item look w) xs)) \<subseteq> fst ` set xs"
proof (induction xs)
  case (Cons x xs)
  define B where "B = concat (map (next_item look w) xs)"
  have one: "distinct (map fst (next_item look w x))" by (auto simp: next_item_def split: option.splits)
  have "distinct (map fst xs)" using Cons.prems by simp
  from Cons.IH [OF this] have rest: "distinct (map fst B)" "fst ` set B \<subseteq> fst ` set xs" unfolding B_def by blast+
  have new: "fst x \<notin> fst ` set xs" using Cons.prems by simp
  have apart: "fst ` set (next_item look w x) \<inter> fst ` set B = {}"
  proof (rule equals0I)
    fix i assume i: "i \<in> fst ` set (next_item look w x) \<inter> fst ` set B"
    then have "i = fst x" using subsetD [OF next_item_slots, of i look w x] by simp
    moreover have "i \<in> fst ` set xs" using subsetD [OF rest(2), of i] i by simp
    ultimately show False using new by simp
  qed
  have "distinct (map fst (next_item look w x @ B))" using one rest(1) apart by (simp del: distinct_map)
  moreover have "fst ` set (next_item look w x @ B) \<subseteq> fst ` set (x # xs)"
    using rest(2) next_item_slots [of look w x] by auto
  moreover have "concat (map (next_item look w) (x # xs)) = next_item look w x @ B" by (simp add: B_def)
  ultimately show ?case by metis
qed simp

text \<open>
  What the sink refused is not told again.  After a poll, whatever the sink did with the changes it
  was told (it may have failed on all of them), another poll of an unchanged world tells it nothing and
  changes nothing: the new fingerprint was recorded before the sink was asked.
\<close>

theorem refused_change_is_not_told_again:
  assumes "looking look w" "distinct (map fst (wt_items w))"
    and "\<And>it p obs. it \<in> snd ` set (wt_items w) \<Longrightarrow> moved look w it = Some (p, obs) \<Longrightarrow>
      look (wi_spec (noted (pb_fingerprint p obs) obs it)) = look (wi_spec it)"
    and "poll sink (w, s) = (w', s')"
  shows "poll sink' (w', t) = (w', t)"
proof -
  have w': "w' = w\<lparr>wt_items := concat (map (next_item look w) (wt_items w))\<rparr>"
    using poll_result [OF assms(1), of sink s] assms(2,4) by (simp add: slots_ok_def)
  have l: "looking look w'" using assms(1) by (simp add: looking_def w')
  have m: "moved look w' = moved look w" by (simp add: fun_eq_iff moved_def w')
  have quiet: "moved look w (snd x) = None" if "x \<in> set (next_item look w y)" "y \<in> set (wt_items w)" for x y
  proof (cases "moved look w (snd y)")
    case None
    with that(1) show ?thesis by (simp add: next_item_def)
  next
    case (Some r)
    obtain p obs where r: "r = (p, obs)" by fastforce
    have "look (wi_spec (noted (pb_fingerprint p obs) obs (snd y))) = look (wi_spec (snd y))"
      using assms(3) that(2) Some r by blast
    from moved_noted [OF _ this] Some r that(1) show ?thesis by (simp add: next_item_def split: if_splits)
  qed
  have "settled look w'"
    unfolding settled_def m
  proof
    fix it assume "it \<in> snd ` set (wt_items w')"
    then obtain x y where "it = snd x" "x \<in> set (next_item look w y)" "y \<in> set (wt_items w)" by (auto simp: w')
    with quiet show "moved look w it = None" by simp
  qed
  with poll_settled [OF l] next_items_slots [OF assms(2), of look w] show ?thesis by (simp add: slots_ok_def w')
qed

end
