(* ===== verification/Event_Log_Laws.thy ===== *)
theory Event_Log_Laws
  imports Event_Log
begin

text \<open>
  The log in memory keeps its contract: what an append finds is decided by the events kept alone,
  and the two indexes always say where an event is, also after the oldest ones were dropped.
\<close>

section \<open>The contract of a log\<close>

text \<open>Two events the log may not both keep: the same source and key, or the same id.\<close>

definition same_key :: "world_event \<Rightarrow> world_event \<Rightarrow> bool" where
  "same_key e f \<longleftrightarrow> we_key e \<noteq> [] \<and> we_key f \<noteq> [] \<and> event_key e = event_key f"

definition clashes :: "world_event \<Rightarrow> world_event \<Rightarrow> bool" where
  "clashes e f \<longleftrightarrow> same_key e f \<or> we_id e = we_id f"

definition last_of :: "nat \<Rightarrow> 'a list \<Rightarrow> 'a list" where
  "last_of n xs = drop (length xs - n) xs"

text \<open>The log as a list of what it keeps: an event found by its key, else by its id, is the answer.\<close>

definition spec_append :: "nat \<Rightarrow> world_event \<Rightarrow> world_event list \<Rightarrow> world_event list \<times> world_event \<times> bool" where
  "spec_append cap e xs =
    (case find (same_key e) xs of
       Some f \<Rightarrow> (xs, f, True)
     | None \<Rightarrow> (case find (\<lambda>f. we_id f = we_id e) xs of
                 Some f \<Rightarrow> (xs, f, True)
               | None \<Rightarrow> (last_of cap (xs @ [e]), e, False)))"

lemma spec_append_known:
  "\<exists>f\<in>set xs. clashes e f \<Longrightarrow> \<exists>f\<in>set xs. clashes e f \<and> spec_append cap e xs = (xs, f, True)"
  by (fastforce simp: spec_append_def clashes_def find_None_iff find_Some_iff split: option.splits)

lemma spec_append_new:
  assumes "\<not> (\<exists>f\<in>set xs. clashes e f)"
  shows "spec_append cap e xs = (last_of cap (xs @ [e]), e, False)"
proof -
  have "find (same_key e) xs = None" "find (\<lambda>f. we_id f = we_id e) xs = None"
    using assms by (force simp: find_None_iff clashes_def)+
  then show ?thesis by (simp add: spec_append_def)
qed

text \<open>
  What the gateway relies on.  \<open>kept\<close> is the list of the events the log still has, oldest first;
  an append that finds its event changes nothing.
\<close>

locale event_log =
  fixes log_append :: "world_event \<Rightarrow> 'l \<Rightarrow> 'l \<times> world_event \<times> bool"
    and log_get :: "string \<Rightarrow> 'l \<Rightarrow> world_event option"
    and kept :: "'l \<Rightarrow> world_event list"
    and ok :: "'l \<Rightarrow> bool"
    and cap :: nat
  assumes cap_pos: "0 < cap"
    and append_spec: "ok l \<Longrightarrow> we_id e \<noteq> [] \<Longrightarrow> log_append e l = (l', r) \<Longrightarrow>
      ok l' \<and> spec_append cap e (kept l) = (kept l', r) \<and> (snd r \<longrightarrow> l' = l)"
    and get_kept: "ok l \<Longrightarrow> i \<noteq> [] \<Longrightarrow> log_get i l = find (\<lambda>e. we_id e = i) (kept l)"
begin

lemma append_known:
  assumes "ok l" "we_id e \<noteq> []" "\<exists>f\<in>set (kept l). clashes e f"
  shows "\<exists>f\<in>set (kept l). clashes e f \<and> log_append e l = (l, f, True)"
proof -
  obtain l' r where a: "log_append e l = (l', r)" by (metis surj_pair)
  obtain f where "f \<in> set (kept l)" "clashes e f" "spec_append cap e (kept l) = (kept l, f, True)"
    using spec_append_known [OF assms(3)] by blast
  with append_spec [OF assms(1,2) a] a show ?thesis by auto
qed

lemma append_new:
  assumes "ok l" "we_id e \<noteq> []" "\<not> (\<exists>f\<in>set (kept l). clashes e f)"
  shows "\<exists>l'. log_append e l = (l', e, False) \<and> ok l' \<and> kept l' = last_of cap (kept l @ [e])"
proof -
  obtain l' r where a: "log_append e l = (l', r)" by (metis surj_pair)
  with append_spec [OF assms(1,2) a] spec_append_new [OF assms(3)] show ?thesis by auto
qed

lemma append_ok:
  assumes "ok l" "we_id e \<noteq> []"
  shows "ok (fst (log_append e l))"
proof (cases "\<exists>f\<in>set (kept l). clashes e f")
  case True
  with append_known [OF assms] assms(1) show ?thesis by auto
next
  case False
  with append_new [OF assms] show ?thesis by auto
qed

text \<open>What was appended is there, and so is its key.\<close>

lemma append_kept:
  assumes "ok l" "we_id e \<noteq> []"
  shows "\<exists>f\<in>set (kept (fst (log_append e l))). clashes e f"
proof (cases "\<exists>f\<in>set (kept l). clashes e f")
  case True
  then show ?thesis using append_known [OF assms] by auto
next
  case False
  then obtain l' where "log_append e l = (l', e, False)" "kept l' = last_of cap (kept l @ [e])"
    using append_new [OF assms] by blast
  then show ?thesis using cap_pos by (auto simp: last_of_def clashes_def)
qed

text \<open>A second report under a key the log still has is answered with the first event.\<close>

lemma ingest_again:
  assumes "ok l" "normalize_envelope as env = Inr e" "we_id (stamped now fresh e) \<noteq> []"
    and "f \<in> set (kept l)" "same_key e f"
  shows "\<exists>g\<in>set (kept l). clashes (stamped now fresh e) g \<and> ingest log_append as now fresh env l = (l, Inr (g, True))"
proof -
  have "clashes (stamped now fresh e) f"
    using assms(5) by (simp add: clashes_def same_key_def stamped_def event_key_def)
  with assms(1,3,4) show ?thesis
    using append_known [of l "stamped now fresh e"] assms(2) by (fastforce simp: ingest_def)
qed

end

section \<open>The log in memory\<close>

text \<open>Each index says exactly where an event is.\<close>

definition indexed :: "world_event list \<Rightarrow> (world_event \<Rightarrow> bool) \<Rightarrow> (world_event \<Rightarrow> string) \<Rightarrow> (string \<Rightarrow> nat option) \<Rightarrow> bool" where
  "indexed es P k m \<longleftrightarrow> (\<forall>s i. m s = Some i \<longleftrightarrow> i < length es \<and> P (es ! i) \<and> k (es ! i) = s)"

definition has_key :: "world_event \<Rightarrow> bool" where "has_key e \<longleftrightarrow> we_key e \<noteq> []"

definition log_ok :: "memory_log \<Rightarrow> bool" where
  "log_ok l \<longleftrightarrow> length (ml_events l) \<le> memory_cap \<and> indexed (ml_events l) (\<lambda>_. True) we_id (ml_by_id l) \<and>
     indexed (ml_events l) has_key event_key (ml_by_key l)"

lemma indexed_snoc:
  assumes "indexed es P k m" "m (k e) = None \<or> \<not> P e"
  shows "indexed (es @ [e]) P k (if P e then m(k e \<mapsto> length es) else m)"
proof -
  have m: "m s = Some i \<longleftrightarrow> i < length es \<and> P (es ! i) \<and> k (es ! i) = s" for s i
    using assms(1) by (simp add: indexed_def)
  have new: "i < length es \<Longrightarrow> P (es ! i) \<Longrightarrow> P e \<Longrightarrow> k (es ! i) \<noteq> k e" for i
    using m [of "k e" i] assms(2) by auto
  have "(if P e then m(k e \<mapsto> length es) else m) s = Some i \<longleftrightarrow>
      i < length (es @ [e]) \<and> P ((es @ [e]) ! i) \<and> k ((es @ [e]) ! i) = s" for s i
  proof (cases "i < length es")
    case True
    then show ?thesis using m [of s i] new [of i] by (auto simp: nth_append)
  next
    case False
    then show ?thesis using m [of s i] by (auto simp: nth_append less_Suc_eq)
  qed
  then show ?thesis by (simp add: indexed_def)
qed

lemma indexed_None:
  assumes "indexed es P k m"
  shows "m s = None \<longleftrightarrow> \<not> (\<exists>e\<in>set es. P e \<and> k e = s)"
proof -
  have "m s = Some i \<longleftrightarrow> i < length es \<and> P (es ! i) \<and> k (es ! i) = s" for i
    using assms by (simp add: indexed_def)
  then show ?thesis by (metis in_set_conv_nth not_Some_eq)
qed

lemma indexed_inj: "indexed es P k m \<Longrightarrow> i < length es \<Longrightarrow> j < length es \<Longrightarrow> P (es ! i) \<Longrightarrow> P (es ! j) \<Longrightarrow>
   k (es ! i) = k (es ! j) \<Longrightarrow> i = j"
  unfolding indexed_def by (metis option.inject)

text \<open>Dropping the front: the old entries are deleted, then every event left is written again.\<close>

definition unindex :: "(world_event \<Rightarrow> bool) \<Rightarrow> (world_event \<Rightarrow> string) \<Rightarrow> (string \<Rightarrow> nat option) \<Rightarrow> world_event \<Rightarrow> (string \<Rightarrow> nat option)" where
  "unindex P k m e = (if P e then m(k e := None) else m)"

definition reindex :: "(world_event \<Rightarrow> bool) \<Rightarrow> (world_event \<Rightarrow> string) \<Rightarrow> (string \<Rightarrow> nat option) \<Rightarrow> nat \<times> world_event \<Rightarrow> (string \<Rightarrow> nat option)" where
  "reindex P k m ie = (if P (snd ie) then m(k (snd ie) \<mapsto> fst ie) else m)"

lemma unindex_fold: "foldl (unindex P k) m es s = (if \<exists>e\<in>set es. P e \<and> k e = s then None else m s)"
  by (induction es arbitrary: m) (auto simp: unindex_def)

lemma reindex_fold:
  assumes "\<forall>i<length es. \<forall>j<length es. P (es ! i) \<longrightarrow> P (es ! j) \<longrightarrow> k (es ! i) = k (es ! j) \<longrightarrow> i = j"
  shows "foldl (reindex P k) m (enumerate 0 es) s = Some i \<longleftrightarrow>
    (i < length es \<and> P (es ! i) \<and> k (es ! i) = s) \<or> (\<not> (\<exists>e\<in>set es. P e \<and> k e = s) \<and> m s = Some i)"
  using assms
proof (induction es arbitrary: i rule: rev_induct)
  case Nil
  then show ?case by simp
next
  case (snoc e es)
  have inj: "\<forall>i<length es. \<forall>j<length es. P (es ! i) \<longrightarrow> P (es ! j) \<longrightarrow> k (es ! i) = k (es ! j) \<longrightarrow> i = j"
    using snoc.prems by (metis length_append_singleton less_Suc_eq nth_append)
  have new: "P e \<Longrightarrow> f \<in> set es \<Longrightarrow> P f \<Longrightarrow> k f \<noteq> k e" for f
  proof
    assume f: "P e" "f \<in> set es" "P f" "k f = k e"
    then obtain i where "i < length es" "es ! i = f" by (auto simp: in_set_conv_nth)
    with f snoc.prems [rule_format, of i "length es"] show False by (simp add: nth_append)
  qed
  have fold: "foldl (reindex P k) m (enumerate 0 (es @ [e])) = reindex P k (foldl (reindex P k) m (enumerate 0 es)) (length es, e)"
    by (simp add: enumerate_append_eq)
  define M where "M = foldl (reindex P k) m (enumerate 0 es)"
  have M: "M s = Some i \<longleftrightarrow>
      (i < length es \<and> P (es ! i) \<and> k (es ! i) = s) \<or> (\<not> (\<exists>e\<in>set es. P e \<and> k e = s) \<and> m s = Some i)"
    using snoc.IH [OF inj] by (simp add: M_def)
  show ?case
  proof (cases "P e \<and> k e = s")
    case True
    then have "\<not> (i < length es \<and> P (es ! i) \<and> k (es ! i) = s)" using new [of "es ! i"] by auto
    then show ?thesis unfolding fold M_def [symmetric] using True by (auto simp: reindex_def nth_append less_Suc_eq)
  next
    case False
    then have same: "reindex P k M (length es, e) s = M s" by (auto simp: reindex_def)
    show ?thesis unfolding fold M_def [symmetric] same M using False
      by (cases "i < length es") (auto simp: nth_append less_Suc_eq)
  qed
qed

lemma index_parts:
  "ml_by_id (foldl index_event l ies) = foldl (reindex (\<lambda>_. True) we_id) (ml_by_id l) ies"
  "ml_by_key (foldl index_event l ies) = foldl (reindex has_key event_key) (ml_by_key l) ies"
  "ml_events (foldl index_event l ies) = ml_events l"
  by (induction ies arbitrary: l) (simp_all add: index_event_def reindex_def has_key_def)

lemma unindex_parts:
  "ml_by_id (foldl unindex_event l es) = foldl (unindex (\<lambda>_. True) we_id) (ml_by_id l) es"
  "ml_by_key (foldl unindex_event l es) = foldl (unindex has_key event_key) (ml_by_key l) es"
  "ml_events (foldl unindex_event l es) = ml_events l"
  by (induction es arbitrary: l) (simp_all add: unindex_event_def unindex_def has_key_def)

lemma indexed_drop:
  assumes "indexed es P k m"
  shows "indexed (drop n es) P k (foldl (reindex P k) (foldl (unindex P k) m (take n es)) (enumerate 0 (drop n es)))"
proof -
  have inj: "\<forall>i<length (drop n es). \<forall>j<length (drop n es). P (drop n es ! i) \<longrightarrow> P (drop n es ! j) \<longrightarrow>
      k (drop n es ! i) = k (drop n es ! j) \<longrightarrow> i = j"
  proof (intro allI impI)
    fix i j assume "i < length (drop n es)" "j < length (drop n es)" "P (drop n es ! i)" "P (drop n es ! j)"
      "k (drop n es ! i) = k (drop n es ! j)"
    then show "i = j" using indexed_inj [OF assms, of "n + i" "n + j"] by simp
  qed
  have old: "\<not> (\<exists>e\<in>set (drop n es). P e \<and> k e = s) \<Longrightarrow> \<not> (\<exists>e\<in>set (take n es). P e \<and> k e = s) \<Longrightarrow> m s = None" for s
  proof (rule ccontr)
    assume "\<not> (\<exists>e\<in>set (drop n es). P e \<and> k e = s)" "\<not> (\<exists>e\<in>set (take n es). P e \<and> k e = s)" "m s \<noteq> None"
    moreover then obtain i where "i < length es" "P (es ! i)" "k (es ! i) = s" using assms by (auto simp: indexed_def)
    moreover then have "es ! i \<in> set (take n es) \<union> set (drop n es)" by (metis append_take_drop_id nth_mem set_append)
    ultimately show False by blast
  qed
  show ?thesis unfolding indexed_def
    by (intro allI) (simp add: reindex_fold [OF inj] unindex_fold, use old in auto)
qed

lemma drop_oldest_ok:
  assumes "indexed (ml_events l) (\<lambda>_. True) we_id (ml_by_id l)" "indexed (ml_events l) has_key event_key (ml_by_key l)"
  shows "log_ok (drop_oldest l) \<and> ml_events (drop_oldest l) = last_of memory_cap (ml_events l)"
proof (cases "length (ml_events l) \<le> memory_cap")
  case True
  then show ?thesis using assms by (simp add: drop_oldest_def log_ok_def last_of_def)
next
  case False
  then show ?thesis
    using indexed_drop [OF assms(1), of "length (ml_events l) - memory_cap"]
      indexed_drop [OF assms(2), of "length (ml_events l) - memory_cap"]
    by (simp add: drop_oldest_def Let_def log_ok_def index_parts unindex_parts last_of_def)
qed

lemma log_match_kept:
  assumes "log_ok l" "we_id e \<noteq> []"
  shows "(log_match e l = None \<longleftrightarrow> \<not> (\<exists>f\<in>set (ml_events l). clashes e f)) \<and>
    (\<forall>i. log_match e l = Some i \<longrightarrow> i < length (ml_events l) \<and> clashes e (ml_events l ! i))"
proof -
  have id: "ml_by_id l (we_id e) = Some i \<longleftrightarrow> i < length (ml_events l) \<and> we_id (ml_events l ! i) = we_id e"
    and key: "ml_by_key l s = Some i \<longleftrightarrow> i < length (ml_events l) \<and> has_key (ml_events l ! i) \<and> event_key (ml_events l ! i) = s" for i s
    using assms(1) by (auto simp: log_ok_def indexed_def)
  have noid: "ml_by_id l (we_id e) = None \<longleftrightarrow> \<not> (\<exists>f\<in>set (ml_events l). we_id f = we_id e)"
    and nokey: "ml_by_key l s = None \<longleftrightarrow> \<not> (\<exists>f\<in>set (ml_events l). has_key f \<and> event_key f = s)" for s
    using assms(1) indexed_None [of "ml_events l" "\<lambda>_. True" we_id "ml_by_id l" "we_id e"]
      indexed_None [of "ml_events l" has_key event_key "ml_by_key l" s] by (auto simp: log_ok_def)
  have "log_match e l = None \<longleftrightarrow> \<not> (\<exists>f\<in>set (ml_events l). clashes e f)"
  proof (cases "we_key e = []")
    case True
    then show ?thesis using noid assms(2) by (auto simp: log_match_def clashes_def same_key_def)
  next
    case False
    then show ?thesis using noid nokey [of "event_key e"] assms(2)
      by (cases "ml_by_key l (event_key e)") (auto simp: log_match_def clashes_def same_key_def has_key_def)
  qed
  moreover have "log_match e l = Some i \<Longrightarrow> i < length (ml_events l) \<and> clashes e (ml_events l ! i)" for i
    using id [of i] key [of "event_key e" i] assms(2)
    by (auto simp: log_match_def clashes_def same_key_def has_key_def split: option.splits if_splits)
  ultimately show ?thesis by blast
qed

lemma memory_log_append_new:
  assumes "log_ok l" "we_id e \<noteq> []" "\<not> (\<exists>f\<in>set (ml_events l). clashes e f)"
  shows "\<exists>l'. mem_append e l = (l', e, False) \<and> log_ok l' \<and> ml_events l' = last_of memory_cap (ml_events l @ [e])"
proof -
  let ?l1 = "index_event (l\<lparr>ml_events := ml_events l @ [e]\<rparr>) (length (ml_events l), e)"
  have m: "log_match e l = None" using log_match_kept [OF assms(1,2)] assms(3) by blast
  have "ml_by_id l (we_id e) = None"
    using m assms(2) by (auto simp: log_match_def split: option.splits if_splits)
  moreover have "ml_by_key l (event_key e) = None \<or> \<not> has_key e"
    using m by (auto simp: log_match_def has_key_def split: option.splits if_splits)
  ultimately have "indexed (ml_events ?l1) (\<lambda>_. True) we_id (ml_by_id ?l1)" "indexed (ml_events ?l1) has_key event_key (ml_by_key ?l1)"
    using assms(1) indexed_snoc [of "ml_events l" "\<lambda>_. True" we_id "ml_by_id l" e]
      indexed_snoc [of "ml_events l" has_key event_key "ml_by_key l" e]
    by (auto simp: log_ok_def index_event_def has_key_def)
  from drop_oldest_ok [OF this] show ?thesis using m by (simp add: mem_append_def index_event_def)
qed

lemma log_match_first:
  assumes "log_ok l" "we_id e \<noteq> []" "log_match e l = Some i"
  shows "spec_append memory_cap e (ml_events l) = (ml_events l, ml_events l ! i, True)"
proof -
  let ?es = "ml_events l"
  have ids: "indexed ?es (\<lambda>_. True) we_id (ml_by_id l)" and keys: "indexed ?es has_key event_key (ml_by_key l)"
    using assms(1) by (auto simp: log_ok_def)
  show ?thesis
  proof (cases "we_key e \<noteq> [] \<and> ml_by_key l (event_key e) \<noteq> None")
    case True
    then have "ml_by_key l (event_key e) = Some i" using assms(3) by (auto simp: log_match_def)
    with keys have i: "i < length ?es" "has_key (?es ! i)" "event_key (?es ! i) = event_key e" by (auto simp: indexed_def)
    have "\<not> same_key e (?es ! j)" if "j < i" for j
    proof
      assume "same_key e (?es ! j)"
      then have "j = i" using indexed_inj [OF keys, of j i] i that by (auto simp: same_key_def has_key_def)
      with that show False by simp
    qed
    then have "find (same_key e) ?es = Some (?es ! i)"
      using i True by (auto simp: find_Some_iff same_key_def has_key_def intro!: exI [of _ i])
    then show ?thesis by (simp add: spec_append_def)
  next
    case False
    then have nokey: "find (same_key e) ?es = None"
      using indexed_None [OF keys, of "event_key e"] by (auto simp: find_None_iff same_key_def has_key_def)
    have "ml_by_id l (we_id e) = Some i" using False assms(2,3) by (auto simp: log_match_def split: if_splits option.splits)
    with ids have i: "i < length ?es" "we_id (?es ! i) = we_id e" by (auto simp: indexed_def)
    have "we_id (?es ! j) \<noteq> we_id e" if "j < i" for j
      using indexed_inj [OF ids, of j i] i that by auto
    then have "find (\<lambda>f. we_id f = we_id e) ?es = Some (?es ! i)" using i by (auto simp: find_Some_iff)
    with nokey show ?thesis by (simp add: spec_append_def)
  qed
qed

interpretation memlog: event_log mem_append mem_get ml_events log_ok memory_cap
proof unfold_locales
  show "0 < memory_cap" by (simp add: memory_cap_def)
next
  fix l e l' r assume a: "log_ok l" "we_id e \<noteq> []" "mem_append e l = (l', r)"
  show "log_ok l' \<and> spec_append memory_cap e (ml_events l) = (ml_events l', r) \<and> (snd r \<longrightarrow> l' = l)"
  proof (cases "log_match e l")
    case None
    then have new: "\<not> (\<exists>f\<in>set (ml_events l). clashes e f)" using log_match_kept [OF a(1,2)] by blast
    from memory_log_append_new [OF a(1,2) new] spec_append_new [OF new] a(3) show ?thesis by auto
  next
    case (Some i)
    with log_match_first [OF a(1,2) this] a show ?thesis by (auto simp: mem_append_def)
  qed
next
  fix l and i :: string assume a: "log_ok l" "i \<noteq> []"
  then have id: "ml_by_id l i = Some n \<longleftrightarrow> n < length (ml_events l) \<and> we_id (ml_events l ! n) = i" for n
    by (simp add: log_ok_def indexed_def)
  show "mem_get i l = find (\<lambda>e. we_id e = i) (ml_events l)"
  proof (cases "ml_by_id l i")
    case None
    then have "find (\<lambda>e. we_id e = i) (ml_events l) = None" using id by (auto simp: find_None_iff in_set_conv_nth)
    with None a(2) show ?thesis by (simp add: mem_get_def)
  next
    case (Some n)
    then have n: "n < length (ml_events l)" "we_id (ml_events l ! n) = i" using id by auto
    have "we_id (ml_events l ! m) \<noteq> i" if "m < n" for m
      using id [of m] that n Some by auto
    then have "find (\<lambda>e. we_id e = i) (ml_events l) = Some (ml_events l ! n)" using n by (auto simp: find_Some_iff)
    with Some a(2) show ?thesis by (simp add: mem_get_def)
  qed
qed

section \<open>What the log answers\<close>

text \<open>A log written event by event, with the answer to each.\<close>

fun log_run :: "(world_event \<Rightarrow> 'l \<Rightarrow> 'l \<times> world_event \<times> bool) \<Rightarrow> world_event list \<Rightarrow> 'l \<Rightarrow> 'l \<times> (world_event \<times> bool) list" where
  "log_run f [] l = (l, [])"
| "log_run f (e # es) l = (case f e l of (l', r) \<Rightarrow> (case log_run f es l' of (l'', rs) \<Rightarrow> (l'', r # rs)))"

lemma new_log_ok: "log_ok new_memory_log"
  by (simp add: log_ok_def new_memory_log_def indexed_def)

lemma log_run_refines:
  "log_ok l \<Longrightarrow> \<forall>e\<in>set es. we_id e \<noteq> [] \<Longrightarrow> log_run mem_append es l = (l', rs) \<Longrightarrow>
   log_ok l' \<and> log_run (spec_append memory_cap) es (ml_events l) = (ml_events l', rs)"
proof (induction es arbitrary: l rs)
  case (Cons e es)
  obtain l1 r where a: "mem_append e l = (l1, r)" by (metis surj_pair)
  obtain rs1 where b: "log_run mem_append es l1 = (l', rs1)" and rs: "rs = r # rs1"
    using Cons.prems(3) a by (auto split: prod.splits)
  from memlog.append_spec [OF Cons.prems(1) _ a] Cons.prems(2)
  have "log_ok l1" "spec_append memory_cap e (ml_events l) = (ml_events l1, r)" by auto
  with Cons.IH [OF _ _ b] Cons.prems(2) rs show ?case by simp
qed simp

text \<open>
  C24: The log in memory is a list of the last ten thousand events.  Whatever events it is given, it
  answers each as the plain list would, which searches by source and key and then by id, and it
  keeps the same events in the same order, while its indexes stay exact.
\<close>

theorem memory_log_is_a_list:
  assumes "\<forall>e\<in>set es. we_id e \<noteq> []" and "log_run mem_append es new_memory_log = (l, answers)"
  shows "log_run (spec_append memory_cap) es [] = (ml_events l, answers) \<and> log_ok l"
  using log_run_refines [OF new_log_ok assms] by (simp add: new_memory_log_def)

lemma scan_seen: "scan_events f True es = filter (match_filter f) es"
  by (induction es) auto

lemma scan_after:
  "i < length es \<Longrightarrow> we_id (es ! i) = ef_after f \<Longrightarrow> \<forall>j<i. we_id (es ! j) \<noteq> ef_after f \<Longrightarrow>
   scan_events f False es = filter (match_filter f) (drop (Suc i) es)"
proof (induction es arbitrary: i)
  case (Cons e es)
  show ?case
  proof (cases i)
    case 0
    with Cons.prems show ?thesis by (simp add: scan_seen)
  next
    case (Suc k)
    with Cons.prems have "we_id e \<noteq> ef_after f" by (metis nth_Cons_0 zero_less_Suc)
    moreover have "\<forall>j<k. we_id (es ! j) \<noteq> ef_after f" using Cons.prems(3) Suc by auto
    ultimately show ?thesis using Suc Cons.IH [of k] Cons.prems by simp
  qed
qed simp

lemma scan_unknown: "ef_after f \<notin> we_id ` set es \<Longrightarrow> scan_events f False es = []"
  by (induction es) auto

lemma take_all_page: "(if n < length xs then take n xs else xs) = take n xs"
  by simp

text \<open>
  A listing is a page of the log.  Without a cursor it is the newest matching events; after the id
  of an event the log keeps it is the next matching events, oldest first, so that pages follow one
  another without a gap; after an id the log does not keep (any more) it is empty.
\<close>

theorem listing_is_a_page:
  assumes "log_ok l"
  shows "mem_list f l =
    (if ef_after f = [] then last_of (list_limit f) (filter (match_filter f) (ml_events l))
     else (case ml_by_id l (ef_after f) of
             Some i \<Rightarrow> take (list_limit f) (filter (match_filter f) (drop (Suc i) (ml_events l)))
           | None \<Rightarrow> []))"
proof (cases "ef_after f = []")
  case True
  then show ?thesis by (auto simp: mem_list_def Let_def scan_seen last_of_def)
next
  case False
  have id: "ml_by_id l s = Some i \<longleftrightarrow> i < length (ml_events l) \<and> we_id (ml_events l ! i) = s" for s i
    using assms by (simp add: log_ok_def indexed_def)
  show ?thesis
  proof (cases "ml_by_id l (ef_after f)")
    case None
    then have "ef_after f \<notin> we_id ` set (ml_events l)"
      using indexed_None [of "ml_events l" "\<lambda>_. True" we_id "ml_by_id l" "ef_after f"] assms by (auto simp: log_ok_def)
    with None False show ?thesis by (simp add: mem_list_def scan_unknown)
  next
    case (Some i)
    then have i: "i < length (ml_events l)" "we_id (ml_events l ! i) = ef_after f"
      using id [of "ef_after f" i] by simp_all
    have "we_id (ml_events l ! j) \<noteq> ef_after f" if "j < i" for j
      using id [of "ef_after f" j] Some that i(1) by simp
    then have "\<forall>j<i. we_id (ml_events l ! j) \<noteq> ef_after f" by blast
    from scan_after [OF i this] False Some show ?thesis by (simp add: mem_list_def Let_def take_all_page)
  qed
qed

section \<open>A log of two events\<close>

definition sample_event :: "string \<Rightarrow> string \<Rightarrow> world_event" where
  "sample_event i key =
    \<lparr>we_id = i, we_source = ''deployment'', we_type = ''deployment.updated'',
     we_subject = \<lparr>sj_task = ''t1'', sj_agent = [], sj_asset = [], sj_action = [], sj_project = []\<rparr>,
     we_payload = Some [], we_occurred = None, we_received = None, we_key = key\<rparr>"

lemma memory_log_is_a_list_witness:
  "snd (log_run (spec_append memory_cap) [sample_event ''e1'' ''k'', sample_event ''e2'' ''k''] []) =
    [(sample_event ''e1'' ''k'', False), (sample_event ''e1'' ''k'', True)]"
proof -
  have run: "snd (log_run mem_append [sample_event ''e1'' ''k'', sample_event ''e2'' ''k''] new_memory_log) =
      [(sample_event ''e1'' ''k'', False), (sample_event ''e1'' ''k'', True)]"
    by (simp add: mem_append_def log_match_def new_memory_log_def sample_event_def index_event_def drop_oldest_def
        memory_cap_def event_key_def)
  obtain l answers where r: "log_run mem_append [sample_event ''e1'' ''k'', sample_event ''e2'' ''k''] new_memory_log = (l, answers)"
    by fastforce
  have "\<forall>e\<in>set [sample_event ''e1'' ''k'', sample_event ''e2'' ''k'']. we_id e \<noteq> []" by (simp add: sample_event_def)
  from memory_log_is_a_list [OF this r] run r show ?thesis by simp
qed

lemma listing_is_a_page_witness:
  "mem_list \<lparr>ef_source = [], ef_type = [], ef_task = [], ef_after = ''e9'', ef_limit = 0\<rparr> new_memory_log = []"
  by (subst listing_is_a_page [OF new_log_ok]) (simp add: new_memory_log_def)

end
