(* ===== verification/Gateway_Laws.thy ===== *)
theory Gateway_Laws
  imports Watch_Doors Watcher_Laws Event_Log_Laws Agent_Laws
begin

text \<open>
  What reaches an agent: an event wakes the agent of its task with one message, a report under a key
  the log has changes nothing, and so the changes a watcher tells under one key wake a task once.
\<close>

section \<open>One event, one message\<close>

lemma notify_log [simp]: "hb_log (fst (notify_world_event wd st e h)) = hb_log h"
  by (auto simp: notify_world_event_def Let_def split: prod.split sum.split)

lemma record_world_log [simp]: "hb_log (record_world_event e h) = hb_log h"
  by (simp add: record_world_event_def)

lemma canonical_normalized:
  "normalize_envelope [canonical_adapter] env =
    (case validate_envelope env of Some x \<Rightarrow> Inl x | None \<Rightarrow> Inr (canonical_event env))"
  by (simp add: normalize_envelope_def canonical_adapter_def canonical_normalize_def)

text \<open>The key two envelopes share, as the adapter and the log read it.\<close>

definition same_report :: "envelope \<Rightarrow> envelope \<Rightarrow> bool" where
  "same_report a b \<longleftrightarrow> validate_envelope a = None \<and> validate_envelope b = None \<and>
     trim (en_source a) = trim (en_source b) \<and> trim (en_key a) = trim (en_key b) \<and> trim (en_key a) \<noteq> []"

lemma same_report_key:
  assumes "same_report a b"
  shows "same_key (stamped now i (canonical_event a)) (stamped now' i' (canonical_event b))"
  using assms by (auto simp: same_report_def same_key_def event_key_def stamped_def canonical_event_def)

lemma stamped_id: "i \<noteq> [] \<Longrightarrow> we_id (stamped now i (canonical_event a)) = i"
  by (simp add: stamped_def canonical_event_def)

lemma ingest_world_log:
  assumes "hb_log h = Some l" "ingest mem_append [canonical_adapter] now fresh env l = (l1, Inr (e, dup))"
  shows "hb_log (fst (ingest_world_event wd st now fresh env h)) = Some l1"
  using assms by (cases dup) (simp_all add: ingest_world_event_def Let_def split_beta)

lemma ingest_accepts:
  assumes "hb_log h = Some l" "validate_envelope env = None"
  shows "\<exists>h1 r. ingest_world_event wd st now fresh env h = (h1, Inr r)"
proof -
  obtain l1 e dup where a: "mem_append (stamped now fresh (canonical_event env)) l = (l1, e, dup)" by (metis prod_cases3)
  obtain h2 d where n: "notify_world_event wd st e (record_world_event e (h\<lparr>hb_log := Some l1\<rparr>)) = (h2, d)" by fastforce
  show ?thesis using assms a n
    by (cases dup) (simp_all add: ingest_world_event_def ingest_def canonical_normalized)
qed

lemma reported_again:
  assumes l: "hb_log h = Some l" "log_ok l" "fresh \<noteq> []" "fresh \<notin> we_id ` set (ml_events l)"
    and first: "ingest_world_event wd st now fresh a h = (h1, Inr r)"
    and again: "same_report a b" "fresh' \<noteq> []"
  shows "\<exists>e. ingest_world_event wd st now' fresh' b h1 = (h1, Inr \<lparr>ir_event = e, ir_duplicate = True, ir_delivery = None\<rparr>)"
proof -
  let ?a = "stamped now fresh (canonical_event a)" and ?b = "stamped now' fresh' (canonical_event b)"
  have va: "validate_envelope a = None" and vb: "validate_envelope b = None" using again by (auto simp: same_report_def)
  obtain l1 e dup where app: "mem_append ?a l = (l1, e, dup)" by (metis prod_cases3)
  have "ingest mem_append [canonical_adapter] now fresh a l = (l1, Inr (e, dup))"
    using app va by (simp add: ingest_def canonical_normalized)
  from ingest_world_log [OF l(1) this] first have h1: "hb_log h1 = Some l1" by (metis fst_conv)
  have ok1: "log_ok l1" using memlog.append_ok [OF l(2), of ?a] app l(3) by (simp add: stamped_id)
  obtain f where f: "f \<in> set (ml_events l1)" "clashes ?a f"
    using memlog.append_kept [OF l(2), of ?a] app l(3) by (auto simp: stamped_id)
  have "\<exists>g\<in>set (ml_events l1). same_key ?a g"
  proof (cases "\<exists>g\<in>set (ml_events l). clashes ?a g")
    case True
    then obtain g where g: "g \<in> set (ml_events l)" "clashes ?a g" "mem_append ?a l = (l, g, True)"
      using memlog.append_known [OF l(2), of ?a] l(3) by (auto simp: stamped_id)
    with l(3,4) have "same_key ?a g" by (auto simp: clashes_def stamped_id)
    with g app show ?thesis by auto
  next
    case False
    then obtain l' where "mem_append ?a l = (l', ?a, False)" "ml_events l' = last_of memory_cap (ml_events l @ [?a])"
      using memlog.append_new [OF l(2), of ?a] l(3) by (auto simp: stamped_id)
    then have "?a \<in> set (ml_events l1)" using app by (simp add: last_of_def memory_cap_def)
    moreover have "same_key ?a ?a" using again(1) by (auto simp: same_report_def same_key_def stamped_def canonical_event_def)
    ultimately show ?thesis by blast
  qed
  then obtain g where g: "g \<in> set (ml_events l1)" "same_key ?a g" by blast
  with same_report_key [OF again(1)] have "same_key ?b g"
    unfolding same_key_def by metis
  then have k: "same_key (canonical_event b) g" by (simp add: same_key_def stamped_def event_key_def)
  have "\<exists>g'. ingest mem_append [canonical_adapter] now' fresh' b l1 = (l1, Inr (g', True))"
    using memlog.ingest_again [OF ok1 _ _ g(1) k, of "[canonical_adapter]" b now' fresh'] vb again(2)
    by (auto simp: canonical_normalized stamped_id)
  then show ?thesis using h1 by (auto simp: ingest_world_event_def)
qed

text \<open>
  A report is taken once.  Once an envelope was ingested, another one of the same source and
  idempotency key is answered as a duplicate: it leaves the log, the World, the agents and the inbox as
  they are and wakes nobody, also when the first one could not be delivered.
\<close>

theorem report_taken_once:
  assumes "hb_log h = Some l" "log_ok l" "fresh \<noteq> []" "fresh \<notin> we_id ` set (ml_events l)"
    and "ingest_world_event wd st now fresh a h = (h1, Inr r)"
    and "same_report a b" "fresh' \<noteq> []"
  shows "\<exists>e. ingest_world_event wd st now' fresh' b h1 = (h1, Inr \<lparr>ir_event = e, ir_duplicate = True, ir_delivery = None\<rparr>)"
  by (rule reported_again [OF assms])

lemma event_task_agents: "of_agents (fst (event_task i w)) = of_agents w"
  by (auto simp: event_task_def split: option.split prod.split sum.split)

lemma get_task_id: "get_task i s = (s', Inr (Some t)) \<Longrightarrow> tk_id t = i"
  by (auto simp: get_task_def find_Some_iff split: if_splits prod.splits option.splits)

lemma event_task_id: "tk_id (snd (event_task i w)) = i"
  by (auto simp: event_task_def bare_task_def split: option.split prod.split sum.split dest: get_task_id)

lemma for_task_agents: "of_agents w = of_agents w' \<Longrightarrow> for_task t w = for_task t w'"
  by (simp add: for_task_def)

text \<open>
  An event wakes the agent of its task, with one message.  When this process holds the planner of
  the task the event names, a new event is logged and one observation about it, carrying the event, is
  put at the end of that agent's queue and a consumer is started for it, whether or not the task's row
  can be read; no agent is made and nothing else of the inbox changes.
\<close>

theorem event_wakes_its_agent:
  assumes "hb_log h = Some l" "log_ok l" "fresh \<noteq> []"
    and "validate_envelope env = None" and "\<not> (\<exists>f\<in>set (ml_events l). clashes (stamped now fresh (canonical_event env)) f)"
    and "trim (sj_task (en_subject env)) = t" "t \<noteq> []"
    and "for_task t (hb_office h) = Some a" "ag_id a \<noteq> 0" and "ms_faults (mc_store (hb_inbox h)) = []"
    and "ingest_world_event wd st now fresh env h = (h1, r)"
  shows "\<exists>e n. r = Inr \<lparr>ir_event = e, ir_duplicate = False, ir_delivery = Some \<lparr>de_task = t, de_agent = ag_id a, de_message = n\<rparr>\<rparr> \<and>
    e = stamped now fresh (canonical_event env) \<and> n = Suc (length (ms_rows (mc_store (hb_inbox h)))) \<and>
    ms_rows (mc_store (hb_inbox h1)) = ms_rows (mc_store (hb_inbox h)) @
      [(observation_message st t e)\<lparr>msg_id := n, msg_agent := ag_id a, msg_status := StatusQueued\<rparr>] \<and>
    mc_threads (hb_inbox h1) = mc_threads (hb_inbox h) @ [PStart (ag_name a)] \<and>
    map ag_name (of_agents (hb_office h1)) = map ag_name (of_agents (hb_office h)) \<and>
    (\<exists>l1. hb_log h1 = Some l1 \<and> ml_events l1 = last_of memory_cap (ml_events l @ [e]))"
proof -
  let ?e = "stamped now fresh (canonical_event env)"
  obtain l1 where app: "mem_append ?e l = (l1, ?e, False)" "ml_events l1 = last_of memory_cap (ml_events l @ [?e])"
    using memlog.append_new [OF assms(2), of ?e] assms(3,5) by (auto simp: stamped_id)
  have ing: "ingest mem_append [canonical_adapter] now fresh env l = (l1, Inr (?e, False))"
    using app assms(4) by (simp add: ingest_def canonical_normalized)
  define h0 where "h0 = record_world_event ?e (h\<lparr>hb_log := Some l1\<rparr>)"
  have h0: "hb_office h0 = hb_office h" "hb_inbox h0 = hb_inbox h" "hb_log h0 = Some l1"
    by (simp_all add: h0_def record_world_event_def)
  have i: "trim (sj_task (we_subject ?e)) = t" "trim t = t"
    using assms(6) by (auto simp: stamped_def canonical_event_def canonical_subject_def)
  obtain w tt where et: "event_task t (hb_office h) = (w, tt)" by fastforce
  have tt: "tk_id tt = t" using event_task_id [of t "hb_office h"] et by simp
  have w: "of_agents w = of_agents (hb_office h)" using event_task_agents [of t "hb_office h"] et by simp
  then have ft: "for_task t w = Some a" using assms(8) for_task_agents [of w "hb_office h" t] by simp
  define a' where "a' = a\<lparr>ag_task := Some t\<rparr>"
  have res: "resume_agent_for_task wd tt w = (put_agent a' w, tt, Inr a')"
    using ft by (simp add: resume_agent_for_task_def tt a'_def Let_def)
  define n where "n = Suc (length (ms_rows (mc_store (hb_inbox h))))"
  define row where "row = (observation_message st t ?e)\<lparr>msg_id := n, msg_agent := ag_id a, msg_status := StatusQueued\<rparr>"
  define m where "m = fst (enqueue_and_start a' (observation_message st t ?e) (hb_inbox h))"
  have enq: "enqueue_and_start a' (observation_message st t ?e) (hb_inbox h) = (m, Inr n)"
    and m: "ms_rows (mc_store m) = ms_rows (mc_store (hb_inbox h)) @ [row]"
      "mc_threads m = mc_threads (hb_inbox h) @ [PStart (ag_name a)]"
    using assms(9,10)
    by (simp_all add: m_def enqueue_and_start_def inbox_enqueue_def enqueue_message_def statement_def a'_def Let_def
        spawn_def n_def row_def observation_message_def)
  have "notify_world_event wd st ?e h0 =
      (h0\<lparr>hb_office := put_agent a' w, hb_inbox := m\<rparr>, Some \<lparr>de_task = t, de_agent = ag_id a, de_message = n\<rparr>)"
    using assms(7,9) i et ft res enq by (simp add: notify_world_event_def h0 tt a'_def)
  then have "ingest_world_event wd st now fresh env h =
      (h0\<lparr>hb_office := put_agent a' w, hb_inbox := m\<rparr>,
       Inr \<lparr>ir_event = ?e, ir_duplicate = False, ir_delivery = Some \<lparr>de_task = t, de_agent = ag_id a, de_message = n\<rparr>\<rparr>)"
    using assms(1) ing by (simp add: ingest_world_event_def h0_def)
  with assms(11) have r: "h1 = h0\<lparr>hb_office := put_agent a' w, hb_inbox := m\<rparr>"
    "r = Inr \<lparr>ir_event = ?e, ir_duplicate = False, ir_delivery = Some \<lparr>de_task = t, de_agent = ag_id a, de_message = n\<rparr>\<rparr>" by simp_all
  have names: "map ag_name (of_agents (put_agent a' w)) = map ag_name (of_agents (hb_office h))"
    by (simp add: put_agent_def w)
  show ?thesis unfolding r using m app(2) h0(3) names by (simp add: n_def row_def)
qed

section \<open>Changes under one key\<close>

text \<open>The key of an update that is not an end names the object only.\<close>

definition going_on :: "observation \<Rightarrow> bool" where
  "going_on obs \<longleftrightarrow> deployment_state obs \<noteq> until_succeeded \<and> deployment_state obs \<noteq> until_failed"

lemma update_envelope:
  assumes "going_on obs" "first_trimmed [obs_at obs ''deployment'', ws_target sp] = i"
  shows "en_source (change_envelope (told_change (deployment_probe snap) sp obs)) = ''deployment'' \<and>
    en_type (change_envelope (told_change (deployment_probe snap) sp obs)) = ''deployment.updated'' \<and>
    en_key (change_envelope (told_change (deployment_probe snap) sp obs)) = ''deployment:'' @ i @ '':updated''"
  using assms by (simp add: going_on_def change_envelope_def told_change_def deployment_probe_def deployment_change_def Let_def)

lemma update_words: "trim ''deployment'' = ''deployment''" "trim ''deployment.updated'' = ''deployment.updated''"
  by code_simp+

lemma trim_keeps_middle: "trim (''deployment:'' @ i @ '':updated'') \<noteq> []"
proof -
  have "trim_left (''deployment:'' @ i @ '':updated'') = ''deployment:'' @ i @ '':updated''"
    by (simp add: trim_left_def strip_with.simps lead_of_def spaces_def)
  moreover have "trim_right (''deployment:'' @ i @ '':updated'') = ''deployment:'' @ i @ '':updated''"
    by (simp add: trim_right_def strip_with.simps lead_of_def spaces_def)
  ultimately show ?thesis by (simp add: trim_def)
qed

text \<open>
  Only the first update of a deployment wakes a task.  The key of a change that is not the end of
  a deployment is the same for every such change, so when a watch has told one, a later one of the same
  deployment, told by any watch of any task and whatever it saw, is taken for a duplicate: the sink
  reports no error, and nothing is logged and nobody is woken.
\<close>

theorem second_update_wakes_nobody:
  assumes "hb_log h = Some l" "log_ok l" "fresh \<noteq> []" "fresh \<notin> we_id ` set (ml_events l)" "fresh' \<noteq> []"
    and "going_on obs" "going_on obs'"
    and "first_trimmed [obs_at obs ''deployment'', ws_target sp] = first_trimmed [obs_at obs' ''deployment'', ws_target sp']"
    and "watch_sink wd st now fresh (told_change (deployment_probe snap) sp obs) h = (h1, None)"
  shows "watch_sink wd st now' fresh' (told_change (deployment_probe snap) sp' obs') h1 = (h1, None)"
proof -
  let ?a = "change_envelope (told_change (deployment_probe snap) sp obs)"
    and ?b = "change_envelope (told_change (deployment_probe snap) sp' obs')"
  have "same_report ?a ?b"
    using update_envelope [OF assms(6) refl, where sp = sp and snap = snap]
      update_envelope [OF assms(7) refl, where sp = sp' and snap = snap] assms(8)
      trim_keeps_middle [of "first_trimmed [obs_at obs' ''deployment'', ws_target sp']"]
    by (simp add: same_report_def validate_envelope_def update_words)
  moreover obtain r where "ingest_world_event wd st now fresh ?a h = (h1, Inr r)"
    using assms(9) by (auto simp: watch_sink_def split: prod.splits sum.splits)
  ultimately have "\<exists>e. ingest_world_event wd st now' fresh' ?b h1 = (h1, Inr \<lparr>ir_event = e, ir_duplicate = True, ir_delivery = None\<rparr>)"
    using reported_again [OF assms(1-4)] assms(5) by blast
  then show ?thesis by (auto simp: watch_sink_def)
qed

section \<open>A watch asked again while its object is polled\<close>

definition sample_seen :: "string \<Rightarrow> observation" where
  "sample_seen st = Some [(''deployment'', ''d1''), (''target'', ''d1''), (''state'', st)]"

definition sample_watcher :: "string \<Rightarrow> 's watcher" where
  "sample_watcher st = new_watcher [deployment_probe (Some (\<lambda>t s. (s, Inr (sample_seen st))))] 0"

definition sample_spec :: "string \<Rightarrow> watch_spec" where
  "sample_spec t = \<lparr>ws_kind = ''deployment'', ws_target = ''d1'', ws_until = ''succeeded'', ws_task = t, ws_fields = sample_seen ''running''\<rparr>"

definition collect :: "change \<Rightarrow> string list \<Rightarrow> string list \<times> string option" where
  "collect ch told = (told @ [ch_task ch], None)"

lemmas watch_eval = sample_watcher_def new_watcher_def with_interval_def add_probe_def deployment_probe_def kind_deployment_def
  watch_def find_probe_def sample_spec_def sample_seen_def Let_def watch_slot_def deployment_id_def deployment_fingerprint_def
  deployment_state_def until_succeeded_def until_failed_def obs_at_def text_at_def first_trimmed_def deployment_done_def
  deployment_change_def observe_with_def

lemma sample_trims:
  "trim ''deployment'' = ''deployment''" "trim ''d1'' = ''d1''" "trim ''succeeded'' = ''succeeded''" "trim ''running'' = ''running''"
  "to_lower ''d1'' = ''d1''" "to_lower ''succeeded'' = ''succeeded''" "to_lower ''running'' = ''running''"
  by code_simp+

text \<open>
  A watch asked while its object is being polled can be lost.  Asking again for an object takes its
  slot for the newer task; when that happens after a poll copied its batch, the poll tells the change
  to the older task only and deletes the slot with the newer watch in it.
\<close>

theorem watch_asked_during_a_poll_is_lost:
  "\<exists>m. m = watching_run (Some collect) [WatchAsked (sample_spec ''t1''), PollBegin, WatchAsked (sample_spec ''t2''), PollRow]
       \<lparr>wa_watcher = sample_watcher ''succeeded'', wa_batch = [], wa_outside = []\<rparr> \<and>
     snd (watch (sample_spec ''t2'') (sample_watcher ''succeeded'' :: string list watcher)) = None \<and>
     wa_outside m = [''t1''] \<and> wt_items (wa_watcher m) = [] \<and> wa_batch m = []"
  by (simp add: watching_run_def watch_eval sample_trims poll_batch_def poll_row_def note_item_def noted_def tell_def
      told_change_def collect_def AList.delete_eq)

lemma poll_reports_what_moved_witness:
  "snd (poll (Some collect) (fst (watch (sample_spec ''t1'') (sample_watcher ''succeeded'')), [])) = [''t1'']"
proof -
  let ?w = "fst (watch (sample_spec ''t1'') (sample_watcher ''succeeded'')) :: string list watcher"
  have l: "looking (\<lambda>_. Inr (sample_seen ''succeeded'')) ?w" by (simp add: looking_def watch_eval sample_trims)
  have d: "distinct (map fst (wt_items ?w))" by (simp add: watch_eval sample_trims)
  have "concat (map (\<lambda>iit. changes_of (\<lambda>_. Inr (sample_seen ''succeeded'')) ?w (snd iit)) (wt_items ?w)) =
      [told_change (deployment_probe (Some (\<lambda>t s. (s, Inr (sample_seen ''succeeded''))))) (sample_spec ''t1'') (sample_seen ''succeeded'')]"
    by (simp add: watch_eval sample_trims changes_of_def moved_def told_change_def)
  then show ?thesis using poll_reports_what_moved [OF l d, of "Some collect" "[]"]
    by (simp add: tell_def collect_def told_change_def watch_eval sample_trims)
qed

lemma refused_change_is_not_told_again_witness:
  "\<exists>w' s'. poll None (fst (watch (sample_spec ''t1'') (sample_watcher ''pending'')), 0 :: nat) = (w', s') \<and>
     poll (Some (\<lambda>ch s. (Suc s, None))) (w', 0) = (w', 0)"
proof -
  let ?w = "fst (watch (sample_spec ''t1'') (sample_watcher ''pending'')) :: nat watcher"
  have l: "looking (\<lambda>_. Inr (sample_seen ''pending'')) ?w" by (simp add: looking_def watch_eval sample_trims)
  have d: "distinct (map fst (wt_items ?w))" by (simp add: watch_eval sample_trims)
  obtain w' s' where p: "poll None (?w, 0) = (w', s')" by fastforce
  with p refused_change_is_not_told_again [OF l d refl p, of "Some (\<lambda>ch s. (Suc s, None))" 0] show ?thesis by blast
qed

section \<open>A hub with one planner\<close>

definition sample_hub :: hub where
  "sample_hub =
    \<lparr>hb_log = Some new_memory_log, hb_world = Some [],
     hb_office = (new_agent_factory None None)\<lparr>of_agents := [zero_agent\<lparr>ag_id := 7, ag_name := ''agent-7'', ag_role := role_planner, ag_task := Some ''t1''\<rparr>]\<rparr>,
     hb_inbox = new_inbox \<lparr>ms_rows = [], ms_faults = []\<rparr> []\<rparr>"

definition sample_report :: "string \<Rightarrow> envelope" where
  "sample_report typ =
    \<lparr>en_source = ''deployment'', en_type = typ,
     en_subject = \<lparr>sj_task = ''t1'', sj_agent = [], sj_asset = [], sj_action = [], sj_project = []\<rparr>,
     en_payload = None, en_occurred = None, en_key = ''d1''\<rparr>"

lemma sample_report_ok:
  "validate_envelope (sample_report ''up'') = None" "trim (sj_task (en_subject (sample_report ''up''))) = ''t1''"
  "for_task ''t1'' (hb_office sample_hub) =
     Some (zero_agent\<lparr>ag_id := 7, ag_name := ''agent-7'', ag_role := role_planner, ag_task := Some ''t1''\<rparr>)"
  "same_report (sample_report ''up'') (sample_report ''up'')"
  by (simp_all add: validate_envelope_def sample_report_def sample_hub_def for_task_def plans_for_def same_report_def)
    code_simp+

lemma event_wakes_its_agent_witness:
  "map msg_kind (ms_rows (mc_store (hb_inbox (fst (ingest_world_event id (\<lambda>_. []) (Some 5) ''e1'' (sample_report ''up'') sample_hub))))) =
     [KindObservation]"
proof -
  obtain h1 r where i: "ingest_world_event id (\<lambda>_. []) (Some 5) ''e1'' (sample_report ''up'') sample_hub = (h1, r)" by fastforce
  have l: "hb_log sample_hub = Some new_memory_log" by (simp add: sample_hub_def)
  have n: "\<not> (\<exists>f\<in>set (ml_events new_memory_log). clashes (stamped (Some 5) ''e1'' (canonical_event (sample_report ''up''))) f)"
    by (simp add: new_memory_log_def)
  have f: "ms_faults (mc_store (hb_inbox sample_hub)) = []" "ms_rows (mc_store (hb_inbox sample_hub)) = []"
    by (simp_all add: sample_hub_def new_inbox_def)
  show ?thesis
    using event_wakes_its_agent [OF l new_log_ok _ sample_report_ok(1) n sample_report_ok(2) _ sample_report_ok(3) _ f(1) i] i f(2)
    by (auto simp: observation_message_def)
qed

lemma report_taken_once_witness:
  "\<exists>h1 r e. ingest_world_event id (\<lambda>_. []) (Some 5) ''e1'' (sample_report ''up'') sample_hub = (h1, Inr r) \<and>
     ingest_world_event id (\<lambda>_. []) (Some 9) ''e2'' (sample_report ''up'') h1 =
       (h1, Inr \<lparr>ir_event = e, ir_duplicate = True, ir_delivery = None\<rparr>)"
proof -
  have l: "hb_log sample_hub = Some new_memory_log" by (simp add: sample_hub_def)
  obtain h1 r where i: "ingest_world_event id (\<lambda>_. []) (Some 5) ''e1'' (sample_report ''up'') sample_hub = (h1, Inr r)"
    using ingest_accepts [OF l sample_report_ok(1)] by blast
  have "''e1'' \<notin> we_id ` set (ml_events new_memory_log)" by (simp add: new_memory_log_def)
  from report_taken_once [OF l new_log_ok _ this i sample_report_ok(4), of "''e2''" "Some 9"] i show ?thesis by auto
qed

lemma second_update_wakes_nobody_witness:
  "\<exists>h1. watch_sink id (\<lambda>_. []) (Some 5) ''e1'' (told_change (deployment_probe None :: unit probe) (sample_spec ''t1'') (sample_seen ''pending'')) sample_hub = (h1, None) \<and>
     watch_sink id (\<lambda>_. []) (Some 9) ''e2'' (told_change (deployment_probe None :: unit probe) (sample_spec ''t2'') (sample_seen ''running'')) h1 = (h1, None)"
proof -
  let ?ch = "told_change (deployment_probe None :: unit probe) (sample_spec ''t1'') (sample_seen ''pending'')"
  have l: "hb_log sample_hub = Some new_memory_log" by (simp add: sample_hub_def)
  have g: "going_on (sample_seen ''pending'')" "going_on (sample_seen ''running'')"
    by (simp_all add: going_on_def watch_eval sample_trims) code_simp
  have v: "validate_envelope (change_envelope ?ch) = None"
    using update_envelope [OF g(1) refl, where sp = "sample_spec ''t1''" and snap = "None :: unit snapshot option"]
    by (simp add: validate_envelope_def update_words)
  obtain h1 where s: "watch_sink id (\<lambda>_. []) (Some 5) ''e1'' ?ch sample_hub = (h1, None)"
    using ingest_accepts [OF l v, of id "\<lambda>_. []" "Some 5" "''e1''"] by (auto simp: watch_sink_def)
  have "''e1'' \<notin> we_id ` set (ml_events new_memory_log)" by (simp add: new_memory_log_def)
  from second_update_wakes_nobody [OF l new_log_ok _ this _ g _ s, of "''e2''" "sample_spec ''t2''" "Some 9"] s
  show ?thesis by (auto simp: sample_seen_def sample_spec_def obs_at_def text_at_def)
qed

end
