(* ===== verification/Watch_Laws.thy ===== *)
theory Watch_Laws
  imports Watch_Doors
begin

text \<open>The \<open>watch\<close> capability: what it registers, and the window it polls in.\<close>

section \<open>What is registered\<close>

definition registered :: "'s watcher \<Rightarrow> 's watcher \<Rightarrow> bool" where
  "registered w w' \<longleftrightarrow>
    (\<exists>p sp. find_probe (ws_kind sp) w = Inr p \<and> present (ws_fields sp) \<and> \<not> pb_done p (ws_fields sp) (ws_until sp) \<and>
       wt_running w' \<and> map_of (wt_items w') (watch_slot p sp) = Some \<lparr>wi_spec = sp, wi_fingerprint = pb_fingerprint p (ws_fields sp)\<rparr> \<and>
       (\<forall>i. i \<noteq> watch_slot p sp \<longrightarrow> map_of (wt_items w') i = map_of (wt_items w) i))"

lemma until_nonempty: "\<forall>p\<in>snd ` set (wt_probes w). trim (pb_default_until p) \<noteq> [] \<Longrightarrow> find_probe (ws_kind sp) w = Inr p \<Longrightarrow>
   trim (watcher_until sp w) \<noteq> []"
  by (auto simp: watcher_until_def find_probe_def image_iff split: option.splits dest!: map_of_SomeD)

lemma watch_registers:
  assumes "watch sp w = (w', None)" "present (ws_fields sp)" "\<not> watcher_terminal sp (ws_fields sp) w"
    and "trim (ws_until sp) \<noteq> []" "trim (ws_until sp) = ws_until sp"
  shows "registered w w'"
proof -
  obtain p where p: "find_probe (ws_kind sp) w = Inr p" using assms(1) by (auto simp: watch_def split: sum.splits)
  define sp1 where "sp1 = sp\<lparr>ws_target := trim (ws_target sp)\<rparr>"
  have w': "w' = w\<lparr>wt_items := AList.update (watch_slot p sp1) \<lparr>wi_spec = sp1, wi_fingerprint = pb_fingerprint p (ws_fields sp1)\<rparr> (wt_items w),
      wt_running := True\<rparr>"
    using assms(1,4) p by (auto simp: watch_def Let_def sp1_def split: if_splits)
  have "\<not> pb_done p (ws_fields sp1) (ws_until sp1)"
    using assms(3-5) p by (simp add: watcher_terminal_def watcher_until_def sp1_def)
  then show ?thesis using assms(2) p
    by (auto simp: registered_def w' sp1_def update_conv' intro!: exI [of _ p] exI [of _ sp1])
qed

lemma text_at_update: "text_at (AList.update k v m) j = (if j = k then v else text_at m j)"
  by (simp add: text_at_def update_conv')

text \<open>
  The \<open>watch\<close> capability registers exactly what it says it watches.  When it answers, either it says
  \<open>watching\<close> true and the watcher now holds, in the object's slot and nowhere else, a watch of an object
  that is there and has not reached what is waited for, with the fingerprint of what was seen; or it
  says false and the watcher is unchanged.
\<close>

theorem watch_says_what_it_registers:
  assumes "run_watch n inp (Some w) s = (w', s', Inr out)"
    and "\<And>k p. (k, p) \<in> set (wt_probes w) \<Longrightarrow> pb_default_until p \<noteq> [] \<and> trim (pb_default_until p) = pb_default_until p"
  shows "text_at out ''watching'' = ''true'' \<and> (\<exists>v. w' = Some v \<and> registered w v) \<or>
    text_at out ''watching'' = ''false'' \<and> w' = Some w"
proof -
  obtain sp0 i s1 obs0 where a: "infer_watch_spec inp = Inr sp0" "watch_window inp = Inr i" "watcher_observe sp0 w s = (s1, Inr obs0)"
    using assms(1) by (auto simp: run_watch_def split: sum.splits prod.splits)
  obtain s2 obs where b: "(if in_call_watch (text_at inp ''watch'') \<and> \<not> watcher_terminal sp0 obs0 w \<and> present obs0
      then call_polls n sp0 w obs0 s1 else (s1, Inr obs0)) = (s2, Inr obs)"
    using assms(1) a by (auto simp: run_watch_def split: sum.splits prod.splits)
  define sp where "sp = sp0\<lparr>ws_until := watcher_until sp0 w\<rparr>"
  have run: "run_watch n inp (Some w) s =
      (if watcher_terminal sp obs w \<or> \<not> present obs then (Some w, s2, Inr (watch_report sp obs w))
       else (case watch (sp\<lparr>ws_fields := obs\<rparr>) w of
               (w', Some e) \<Rightarrow> (Some w', s2, Inl e)
             | (w', None) \<Rightarrow> (Some w', s2, Inr (AList.update ''watching'' ''true'' (watch_report sp obs w)))))"
    unfolding run_watch_def sp_def by (simp add: a b Let_def)
  show ?thesis
  proof (cases "watcher_terminal sp obs w \<or> \<not> present obs")
    case True
    then show ?thesis using run assms(1) by (simp add: watch_report_def text_at_update)
  next
    case False
    then obtain v where v: "watch (sp\<lparr>ws_fields := obs\<rparr>) w = (v, None)" "w' = Some v"
      "out = AList.update ''watching'' ''true'' (watch_report sp obs w)"
      using run assms(1) by (auto split: prod.splits option.splits)
    have "trim (ws_until sp) \<noteq> [] \<and> trim (ws_until sp) = ws_until sp"
    proof (cases "find_probe (ws_kind sp0) w")
      case (Inl e)
      then show ?thesis using v(1) by (simp add: watch_def sp_def)
    next
      case (Inr p)
      then have "\<exists>k. (k, p) \<in> set (wt_probes w)" by (auto simp: find_probe_def split: option.splits dest: map_of_SomeD)
      with Inr assms(2) show ?thesis by (auto simp: sp_def watcher_until_def)
    qed
    with False watch_registers [OF v(1)] have "registered w v"
      by (simp add: watcher_terminal_def watcher_until_def split: sum.splits)
    with v show ?thesis by (simp add: text_at_update)
  qed
qed

section \<open>The window\<close>

lemma read_seconds_fits:
  assumes "read_seconds raw fallback lo hi = Some d" "trim raw \<noteq> []" "atoi (trim raw) = Some n" "n \<le> 9223372036"
  shows "0 < n \<and> d = clamp lo hi (n * second)"
  using assms by (auto simp: read_seconds_def Let_def second_def wrap64_def split: if_splits)

text \<open>
  The window of a watch is bounded, while the seconds fit.  When neither input is more than
  9223372036 seconds, the longest a duration holds, the polls are at most ten minutes long in all, and
  the pause between two is positive and no longer than the whole.
\<close>

theorem watch_window_bounds:
  assumes "watch_window inp = Inr (i, t)"
    and "\<And>k n. k \<in> {''interval'', ''timeout''} \<Longrightarrow> atoi (trim (text_at inp k)) = Some n \<Longrightarrow> n \<le> 9223372036"
  shows "0 < i \<and> i \<le> t \<and> t \<le> 600 * second"
proof -
  obtain a b where a: "read_seconds (text_at inp ''interval'') default_watch_interval min_watch_interval 0 = Some a"
    and b: "read_seconds (text_at inp ''timeout'') default_watch_timeout 0 max_watch_timeout = Some b"
    and it: "i = (if a > b then b else a)" "t = b"
    using assms(1) by (auto simp: watch_window_def watch_seconds_def split: option.splits)
  have "0 < a"
  proof (cases "trim (text_at inp ''interval'') = []")
    case True
    then show ?thesis using a by (simp add: read_seconds_def default_watch_interval_def second_def)
  next
    case False
    then obtain n where n: "atoi (trim (text_at inp ''interval'')) = Some n"
      using a by (auto simp: read_seconds_def Let_def split: option.splits)
    then have "n \<le> 9223372036" using assms(2) [of "''interval''" n] by simp
    with read_seconds_fits [OF a False n] show ?thesis
      by (simp add: clamp_def Let_def second_def min_watch_interval_def split: if_splits)
  qed
  moreover have "0 < b \<and> b \<le> 600 * second"
  proof (cases "trim (text_at inp ''timeout'') = []")
    case True
    then show ?thesis using b by (auto simp: read_seconds_def default_watch_timeout_def second_def)
  next
    case False
    then obtain n where n: "atoi (trim (text_at inp ''timeout'')) = Some n"
      using b by (auto simp: read_seconds_def Let_def split: option.splits)
    then have "n \<le> 9223372036" using assms(2) [of "''timeout''" n] by simp
    with read_seconds_fits [OF b False n] show ?thesis
      by (auto simp: clamp_def Let_def second_def max_watch_timeout_def minute_def)
  qed
  ultimately show ?thesis using it by simp
qed

text \<open>One second more wraps around: the window of such a watch is closed before it opens.\<close>

lemma watch_window_overflow:
  "watch_window [(''timeout'', ''9223372037'')] = Inr (- 9223372036709551616, - 9223372036709551616)"
proof -
  have t: "trim (text_at [(''timeout'', ''9223372037'')] ''timeout'') = ''9223372037''"
    "trim (text_at [(''timeout'', ''9223372037'')] ''interval'') = []" by code_simp+
  have n: "atoi ''9223372037'' = Some 9223372037"
    by (simp add: atoi_def digit_value_def)
  show ?thesis
    by (simp add: watch_window_def watch_seconds_def read_seconds_def t n clamp_def wrap64_def second_def minute_def
        default_watch_interval_def max_watch_timeout_def)
qed

lemma watch_window_bounds_witness:
  "\<exists>i t. watch_window [(''timeout'', ''7'')] = Inr (i, t) \<and> 0 < i \<and> i \<le> t \<and> t \<le> 600 * second"
proof -
  have w: "watch_window [(''timeout'', ''7'')] = Inr (7000000000, 7000000000)" by code_simp
  have "atoi (trim (text_at [(''timeout'', ''7'')] ''interval'')) = None" "atoi (trim (text_at [(''timeout'', ''7'')] ''timeout'')) = Some 7"
    by code_simp+
  then have small: "n \<le> 9223372036" if "k \<in> {''interval'', ''timeout''}" "atoi (trim (text_at [(''timeout'', ''7'')] k)) = Some n" for k n
    using that by auto
  have "0 < (7000000000 :: int) \<and> 7000000000 \<le> (7000000000 :: int) \<and> 7000000000 \<le> 600 * second"
    by (rule watch_window_bounds [OF w]) (rule small)
  then show ?thesis using w by blast
qed

section \<open>A deployment that is under way\<close>

definition open_watcher :: "unit watcher" where
  "open_watcher =
    new_watcher [deployment_probe (Some (\<lambda>t s. (s, Inr (Some [(''target'', t), (''state'', ''running'')]))))] 0"

lemma watch_says_what_it_registers_witness:
  "\<exists>w' out. run_watch 0 [(''deployment'', ''d1'')] (Some open_watcher) () = (w', (), Inr out) \<and>
     text_at out ''watching'' = ''true'' \<and> (\<exists>v. w' = Some v \<and> registered open_watcher v)"
proof -
  let ?r = "run_watch 0 [(''deployment'', ''d1'')] (Some open_watcher) ()"
  have "(case ?r of (w', u, Inr out) \<Rightarrow> text_at out ''watching'' = ''true'' | _ \<Rightarrow> False)" by code_simp
  then obtain w' out where r: "?r = (w', (), Inr out)" "text_at out ''watching'' = ''true''" by (auto split: prod.splits sum.splits)
  have d: "pb_default_until p \<noteq> [] \<and> trim (pb_default_until p) = pb_default_until p" if "(k, p) \<in> set (wt_probes open_watcher)" for k p
  proof -
    have "p = deployment_probe (Some (\<lambda>t s. (s, Inr (Some [(''target'', t), (''state'', ''running'')]))))"
      using that by (auto simp: open_watcher_def new_watcher_def with_interval_def add_probe_def split: if_splits)
    moreover have "trim ''succeeded'' = ''succeeded''" by code_simp
    ultimately show ?thesis by (simp add: deployment_probe_def until_succeeded_def)
  qed
  from watch_says_what_it_registers [OF r(1) d] r show ?thesis by auto
qed

end
