(* ===== verification/Deploy_Monitor.thy ===== *)
theory Deploy_Monitor
  imports Go_Numbers "HOL-Library.AList"
begin

text \<open>
  The deployment monitor's data and its judgement (src/capability/deployment/monitor.go): the request
  it reads from a call's inputs, the snapshot of a deployment, and the diagnosis of a snapshot with
  its output.  A time is a number of nanoseconds, \<open>None\<close> for Go's zero time.  \<open>Healthy\<close> is a pointer,
  which the trail of Deploy_Watch prints, so the model keeps the address beside the value.
\<close>

section \<open>States and snapshots\<close>

datatype deploy_state = Unset | Unknown | Pending | Running | Succeeded | Failed

definition shown_state :: "deploy_state \<Rightarrow> deploy_state" where
  "shown_state st = (if st = Unset then Unknown else st)"

definition terminal_state :: "deploy_state \<Rightarrow> bool" where
  "terminal_state st \<longleftrightarrow> st = Succeeded \<or> st = Failed"

fun state_name :: "deploy_state \<Rightarrow> string" where
  "state_name Unset = []"
| "state_name Unknown = ''unknown''"
| "state_name Pending = ''pending''"
| "state_name Running = ''running''"
| "state_name Succeeded = ''succeeded''"
| "state_name Failed = ''failed''"

record snapshot =
  sn_id :: string
  sn_state :: deploy_state
  sn_phase :: string
  sn_progress :: string
  sn_healthy :: "(string \<times> bool) option"
  sn_error :: string
  sn_message :: string
  sn_service :: string
  sn_version :: string
  sn_deployment :: string
  sn_updated :: "int option"
  sn_logs :: "string list"
  sn_agent_problem :: "bool option"
  sn_agent_signals :: "string list"
  sn_agent_diagnosis :: string
  sn_agent_suggestions :: "string list"
  sn_agent_note :: string

definition zero_snapshot :: snapshot where
  "zero_snapshot =
    \<lparr>sn_id = [], sn_state = Unset, sn_phase = [], sn_progress = [], sn_healthy = None, sn_error = [], sn_message = [],
     sn_service = [], sn_version = [], sn_deployment = [], sn_updated = None, sn_logs = [], sn_agent_problem = None,
     sn_agent_signals = [], sn_agent_diagnosis = [], sn_agent_suggestions = [], sn_agent_note = []\<rparr>"

definition snap_state :: "snapshot \<Rightarrow> deploy_state" where
  "snap_state sn = shown_state (sn_state sn)"

section \<open>The request\<close>

record monitor_request =
  rq_deployment :: string
  rq_endpoint :: string
  rq_status_url :: string
  rq_poll :: string
  rq_logs_url :: string
  rq_tail :: int
  rq_watch :: bool
  rq_interval :: int
  rq_timeout :: int
  rq_task :: string

datatype monitor_error =
    MissingDeployment
  | InvalidTail string
  | InvalidWindow string string
  | MissingStatusUrl
  | MissingId
  | StatusFailed string string
  | StatusUnreadable string string
  | TemplateFailed string
  | AcquireFailed string
  | AgentFailed string
  | RawFailed monitor_error

definition default_tail :: int where "default_tail = 40"
definition max_tail :: int where "max_tail = 500"
definition default_poll_interval :: int where "default_poll_interval = 5 * second"
definition min_poll_interval :: int where "min_poll_interval = second"
definition default_poll_timeout :: int where "default_poll_timeout = 60 * second"
definition max_poll_timeout :: int where "max_poll_timeout = 10 * minute"
definition default_api_url :: string where "default_api_url = ''http://49.234.45.173:4220''"

definition bool_input :: "string \<Rightarrow> bool" where
  "bool_input v \<longleftrightarrow> to_lower (trim v) \<in> {''1'', ''true'', ''yes'', ''y'', ''on''}"

definition seconds_input :: "string smap \<Rightarrow> string \<Rightarrow> int \<Rightarrow> int \<Rightarrow> int \<Rightarrow> monitor_error + int" where
  "seconds_input inp key fallback lo hi =
    (case read_seconds (text_at inp key) fallback lo hi of
       None \<Rightarrow> Inl (InvalidWindow key (trim (text_at inp key))) | Some d \<Rightarrow> Inr d)"

definition tail_input :: "string smap \<Rightarrow> monitor_error + int" where
  "tail_input inp =
    (let v = trim (text_at inp ''tail'') in
     if v = [] then Inr default_tail
     else (case atoi v of
             None \<Rightarrow> Inl (InvalidTail v)
           | Some n \<Rightarrow> if n \<le> 0 then Inl (InvalidTail v) else Inr (if n > max_tail then max_tail else n)))"

text \<open>\<open>env\<close> is the environment's \<open>DEPLOYMENT_API_URL\<close>.\<close>

definition parse_request :: "string \<Rightarrow> string smap \<Rightarrow> monitor_error + monitor_request" where
  "parse_request env inp =
    (let deployment = first_trimmed (map (text_at inp)
           [''deployment'', ''pipeline_id'', ''pipeline'', ''request_id'', ''target'', ''run'', ''id'']);
         poll = trim (text_at inp ''poll'');
         endpoint = trim (text_at inp ''endpoint'');
         status_url = trim (text_at inp ''status_url'')
     in if deployment = [] \<and> poll = [] then Inl MissingDeployment
        else (case tail_input inp of
                Inl e \<Rightarrow> Inl e
              | Inr tail \<Rightarrow>
                  (case seconds_input inp ''interval'' default_poll_interval min_poll_interval 0 of
                     Inl e \<Rightarrow> Inl e
                   | Inr i \<Rightarrow>
                       (case seconds_input inp ''timeout'' default_poll_timeout 0 max_poll_timeout of
                          Inl e \<Rightarrow> Inl e
                        | Inr t \<Rightarrow>
                            Inr \<lparr>rq_deployment = deployment,
                                 rq_endpoint = (if endpoint = [] \<and> status_url = [] then first_trimmed [env, default_api_url] else endpoint),
                                 rq_status_url = status_url, rq_poll = poll, rq_logs_url = trim (text_at inp ''logs_url''),
                                 rq_tail = tail, rq_watch = bool_input (text_at inp ''watch''),
                                 rq_interval = (if i > t then t else i), rq_timeout = t,
                                 rq_task = trim (text_at inp ''task_id'')\<rparr>))))"

section \<open>The fingerprints of a log line\<close>

text \<open>
  The regular expressions of \<open>logRules\<close>: case-insensitive alternatives of texts, choices, byte ranges
  and word boundaries, found anywhere in the line.  Go folds a letter with the Kelvin sign and the long
  s too.
\<close>

datatype pattern_item = Text string | Choice "string list" | Between char char | Boundary

definition word_byte :: "char \<Rightarrow> bool" where
  "word_byte c \<longleftrightarrow> c \<in> set ''abcdefghijklmnopqrstuvwxyzABCDEFGHIJKLMNOPQRSTUVWXYZ0123456789_''"

definition fold_step :: "char \<Rightarrow> string \<Rightarrow> (char option \<times> string) option" where
  "fold_step c s =
    (case s of
       [] \<Rightarrow> None
     | x # xs \<Rightarrow>
         if lower_char x = lower_char c then Some (Some x, xs)
         else if lower_char c = CHR ''k'' \<and> prefix [CHR 0xE2, CHR 0x84, CHR 0xAA] s then Some (Some (CHR 0xAA), drop 3 s)
         else if lower_char c = CHR ''s'' \<and> prefix [CHR 0xC5, CHR 0xBF] s then Some (Some (CHR 0xBF), drop 2 s)
         else None)"

fun fold_prefix :: "string \<Rightarrow> char option \<Rightarrow> string \<Rightarrow> (char option \<times> string) option" where
  "fold_prefix [] p s = Some (p, s)"
| "fold_prefix (c # cs) p s = (case fold_step c s of None \<Rightarrow> None | Some (p', s') \<Rightarrow> fold_prefix cs p' s')"

definition word_before :: "char option \<Rightarrow> bool" where
  "word_before p \<longleftrightarrow> (case p of None \<Rightarrow> False | Some c \<Rightarrow> word_byte c)"

fun matches_at :: "pattern_item list \<Rightarrow> char option \<Rightarrow> string \<Rightarrow> bool" where
  "matches_at [] p s = True"
| "matches_at (Text t # r) p s = (case fold_prefix t p s of None \<Rightarrow> False | Some (p', s') \<Rightarrow> matches_at r p' s')"
| "matches_at (Choice ts # r) p s =
    list_ex (\<lambda>t. case fold_prefix t p s of None \<Rightarrow> False | Some (p', s') \<Rightarrow> matches_at r p' s') ts"
| "matches_at (Between a b # r) p s =
    (case s of [] \<Rightarrow> False | x # xs \<Rightarrow> of_char a \<le> (of_char x :: nat) \<and> of_char x \<le> (of_char b :: nat) \<and> matches_at r (Some x) xs)"
| "matches_at (Boundary # r) p s =
    (word_before p \<noteq> (case s of [] \<Rightarrow> False | x # _ \<Rightarrow> word_byte x) \<and> matches_at r p s)"

fun found_from :: "pattern_item list list \<Rightarrow> char option \<Rightarrow> string \<Rightarrow> bool" where
  "found_from alts p [] = list_ex (\<lambda>a. matches_at a p []) alts"
| "found_from alts p (c # s) = (list_ex (\<lambda>a. matches_at a p (c # s)) alts \<or> found_from alts (Some c) s)"

record log_rule =
  lr_name :: string
  lr_pattern :: "pattern_item list list"
  lr_suggestion :: string

definition log_rules :: "log_rule list" where
  "log_rules =
    [\<lparr>lr_name = ''oom'', lr_pattern = [[Text ''out of memory''], [Text ''oomkilled''], [Text ''oom kill'']],
      lr_suggestion = ''the workload exceeded its memory limit and was killed: raise the limit or fix the leak, then redeploy''\<rparr>,
     \<lparr>lr_name = ''image_pull'',
      lr_pattern = [[Text ''imagepullbackoff''], [Text ''errimagepull''], [Text ''failed to pull image''], [Text ''manifest unknown''],
                    [Text ''pull access denied'']],
      lr_suggestion = ''the image could not be pulled: check that the tag exists and that the pipeline's registry credentials can read it''\<rparr>,
     \<lparr>lr_name = ''crash_loop'',
      lr_pattern = [[Text ''crashloopbackoff''], [Text ''back-off restarting''],
                    [Text ''exited with '', Choice [''code'', ''status''], Text '' '', Between CHR ''1'' CHR ''9'']],
      lr_suggestion = ''the workload keeps crashing: read the process output above and fix the entrypoint, config or dependency it needs''\<rparr>,
     \<lparr>lr_name = ''timeout'', lr_pattern = [[Text ''timed out''], [Text ''timeout''], [Text ''deadline exceeded'']],
      lr_suggestion = ''a step timed out: check the health-check path, readiness probe and step timeout''\<rparr>,
     \<lparr>lr_name = ''connection'',
      lr_pattern = [[Text ''connection refused''], [Text ''no such host''], [Text ''dial tcp''], [Text ''i/o timeout''],
                    [Text ''network is unreachable'']],
      lr_suggestion = ''a dependency was unreachable: verify the service endpoint, DNS and network policy between the pipeline and the target environment''\<rparr>,
     \<lparr>lr_name = ''permission'',
      lr_pattern = [[Text ''permission denied''], [Text ''forbidden''], [Text ''unauthorized''], [Boundary, Text ''401'', Boundary],
                    [Boundary, Text ''403'', Boundary]],
      lr_suggestion = ''access was denied: check the credentials, tokens and roles the pipeline uses for this environment''\<rparr>,
     \<lparr>lr_name = ''config'',
      lr_pattern = [[Text ''missing required''], [Text ''invalid '', Choice [''configuration'', ''value'']], [Text ''validation failed''],
                    [Text ''no such file or directory'']],
      lr_suggestion = ''the configuration or a required file is wrong: fix the manifest/env and redeploy''\<rparr>,
     \<lparr>lr_name = ''crash'', lr_pattern = [[Boundary, Text ''panic'', Boundary], [Boundary, Text ''fatal'', Boundary], [Text ''segmentation fault'']],
      lr_suggestion = ''the process died with a fatal error: hand the stack trace above to the owning service''\<rparr>]"

definition match_rules :: "string \<Rightarrow> log_rule list" where
  "match_rules line = (if trim line = [] then [] else filter (\<lambda>r. found_from (lr_pattern r) None line) log_rules)"

section \<open>The diagnosis\<close>

record diagnosis =
  dg_problem :: bool
  dg_signals :: "string list"
  dg_summary :: string
  dg_evidence :: string
  dg_suggestions :: "string list"

definition stall_after :: int where "stall_after = 10 * minute"
definition max_evidence_chars :: nat where "max_evidence_chars = 4000"
definition newline :: string where "newline = [CHR 0x0A]"

definition add_signal :: "string \<Rightarrow> diagnosis \<Rightarrow> diagnosis" where
  "add_signal n d = (if n \<in> set (dg_signals d) then d else d\<lparr>dg_signals := dg_signals d @ [n]\<rparr>)"

definition add_suggestion :: "string \<Rightarrow> diagnosis \<Rightarrow> diagnosis" where
  "add_suggestion s d = (if s = [] \<or> s \<in> set (dg_suggestions d) then d else d\<lparr>dg_suggestions := dg_suggestions d @ [s]\<rparr>)"

definition add_rule :: "diagnosis \<Rightarrow> log_rule \<Rightarrow> diagnosis" where
  "add_rule d r = add_suggestion (lr_suggestion r) (add_signal (lr_name r) d)"

definition structural :: "snapshot \<Rightarrow> int \<Rightarrow> diagnosis \<Rightarrow> diagnosis" where
  "structural sn now d =
    (let d1 = (case snap_state sn of
                 Failed \<Rightarrow> add_suggestion ''the deployment failed: fix the cause named above, then redeploy the same artifact''
                             (add_signal ''deployment_failed'' d)
               | Running \<Rightarrow> d | Pending \<Rightarrow> d | _ \<Rightarrow> d);
         d2 = (if snap_state sn \<in> {Running, Pending} \<and> (case sn_updated sn of None \<Rightarrow> False | Some t \<Rightarrow> now - t > stall_after)
               then add_suggestion ''the deployment has not reported progress recently: check whether the pipeline step or the target environment is stuck, then decide whether to retry or roll back''
                      (add_signal ''stalled'' d1)
               else d1)
     in if map_option snd (sn_healthy sn) = Some False
        then add_suggestion ''the deployment reported itself unhealthy: verify the service's health endpoint and its dependencies''
               (add_signal ''unhealthy'' d2)
        else d2)"

definition agent_judged :: "snapshot \<Rightarrow> bool" where
  "agent_judged sn \<longleftrightarrow> sn_agent_problem sn \<noteq> None \<or> sn_agent_signals sn \<noteq> []"

fun read_lines :: "nat \<Rightarrow> string list \<Rightarrow> diagnosis \<times> nat option \<Rightarrow> diagnosis \<times> nat option" where
  "read_lines i [] acc = acc"
| "read_lines i (line # ls) (d, at) =
    read_lines (Suc i) ls
      (if match_rules line = [] then (d, at)
       else (foldl add_rule d (match_rules line), if at = None then Some i else at))"

definition judgement :: "snapshot \<Rightarrow> diagnosis \<Rightarrow> diagnosis \<times> nat option" where
  "judgement sn d =
    (if agent_judged sn
     then (foldl (\<lambda>d s. if trim s \<noteq> [] then add_signal (trim s) d else d) d (sn_agent_signals sn), None)
     else if snap_state sn \<noteq> Succeeded
     then (case read_lines 0 (sn_logs sn) (d, None) of (d', at) \<Rightarrow> (foldl add_rule d' (match_rules (sn_error sn)), at))
     else (d, None))"

fun clip_window :: "string list \<Rightarrow> string list" where
  "clip_window [] = []"
| "clip_window [x] = [x]"
| "clip_window (x # y # r) =
    (if length (str_join newline (x # y # r)) > max_evidence_chars then clip_window (y # r) else x # y # r)"

definition evidence_window :: "string list \<Rightarrow> nat option \<Rightarrow> int \<Rightarrow> string list" where
  "evidence_window logs at tail =
    (let n = nat (if tail \<le> 0 then default_tail else tail);
         e = (case at of None \<Rightarrow> length logs | Some i \<Rightarrow> Suc i)
     in drop (e - n) (take e logs))"

definition evidence_text :: "string list \<Rightarrow> nat option \<Rightarrow> int \<Rightarrow> string" where
  "evidence_text logs at tail =
    (if logs = [] then []
     else (let text = str_join newline (clip_window (evidence_window logs at tail))
           in if length text > max_evidence_chars then drop (length text - max_evidence_chars) text else text))"

definition first_signal_line :: "snapshot \<Rightarrow> string" where
  "first_signal_line sn =
    (case find (\<lambda>l. match_rules l \<noteq> []) (sn_logs sn) of
       Some l \<Rightarrow> trim l | None \<Rightarrow> first_trimmed [sn_error sn, sn_message sn])"

definition summarize :: "snapshot \<Rightarrow> string list \<Rightarrow> string" where
  "summarize sn signals =
    str_join ''; ''
      ([''deployment '' @ first_trimmed [sn_id sn, ''?''] @ '' is '' @ state_name (snap_state sn)]
       @ (if sn_phase sn \<noteq> [] then [''phase '' @ sn_phase sn] else [])
       @ (if sn_progress sn \<noteq> [] then [''progress '' @ sn_progress sn] else [])
       @ (if signals \<noteq> [] then [''signals: '' @ str_join '', '' signals] else [])
       @ (if first_signal_line sn \<noteq> [] then [first_signal_line sn] else []))"

definition no_diagnosis :: diagnosis where
  "no_diagnosis = \<lparr>dg_problem = False, dg_signals = [], dg_summary = [], dg_evidence = [], dg_suggestions = []\<rparr>"

definition diagnose :: "snapshot \<Rightarrow> int \<Rightarrow> int \<Rightarrow> diagnosis" where
  "diagnose sn now tail =
    (case judgement sn (structural sn now no_diagnosis) of
       (d, at) \<Rightarrow>
         (let problem = (case sn_agent_problem sn of Some b \<Rightarrow> b | None \<Rightarrow> dg_signals d \<noteq> []);
              d1 = foldl (\<lambda>d s. add_suggestion (trim s) d) (d\<lparr>dg_problem := problem\<rparr>) (sn_agent_suggestions sn);
              d2 = d1\<lparr>dg_evidence := evidence_text (sn_logs sn) at tail,
                      dg_summary := (if sn_agent_diagnosis sn \<noteq> [] then sn_agent_diagnosis sn else summarize sn (dg_signals d1))\<rparr>
          in if problem then d2
             else if terminal_state (snap_state sn)
             then add_suggestion ''the deployment finished with no failure signal in the observed output'' d2
             else add_suggestion ''the deployment is still in progress: observe it again on the next cycle to keep following it'' d2))"

section \<open>The output of a call\<close>

definition put_text :: "string \<Rightarrow> string \<Rightarrow> string smap" where
  "put_text k v = (if v \<noteq> [] then [(k, v)] else [])"

definition report :: "snapshot \<Rightarrow> monitor_request \<Rightarrow> int \<Rightarrow> string smap" where
  "report sn rq now =
    (let d = diagnose sn now (rq_tail rq) in
     [(''deployment'', first_trimmed [sn_id sn, rq_deployment rq]),
      (''state'', state_name (snap_state sn)),
      (''terminal'', show_bool (terminal_state (snap_state sn))),
      (''problem'', show_bool (dg_problem d)),
      (''diagnosis'', dg_summary d),
      (''evidence'', dg_evidence d)]
     @ put_text ''phase'' (sn_phase sn) @ put_text ''progress'' (sn_progress sn)
     @ (case sn_healthy sn of None \<Rightarrow> [] | Some (_, b) \<Rightarrow> [(''healthy'', show_bool b)])
     @ put_text ''error'' (sn_error sn) @ put_text ''message'' (sn_message sn) @ put_text ''service'' (sn_service sn)
     @ put_text ''version'' (sn_version sn) @ put_text ''deployment_name'' (sn_deployment sn)
     @ (if dg_signals d \<noteq> [] then [(''signals'', str_join '','' (dg_signals d))] else [])
     @ (if dg_suggestions d \<noteq> [] then [(''suggestions'', str_join ''; '' (dg_suggestions d))] else []))"

end
