(* ===== verification/Json_Text.thy ===== *)
theory Json_Text
  imports Go_Json Go_Utf8
begin

text \<open>
  The text of a JSON document, as \<open>json.Unmarshal\<close> reads it: the value it denotes, or \<open>None\<close> for a
  text that is not one document.  A byte of a string that is not UTF-8, and half a surrogate pair,
  become U+FFFD; objects and arrays nest at most ten thousand deep.  Every call of the readers takes
  one unit of fuel, and no text needs more than twice its length and two.
\<close>

definition json_space :: "char \<Rightarrow> bool" where
  "json_space c \<longleftrightarrow> c = CHR 0x20 \<or> c = CHR 0x09 \<or> c = CHR 0x0A \<or> c = CHR 0x0D"

definition skip_space :: "string \<Rightarrow> string" where
  "skip_space s = dropWhile json_space s"

section \<open>Strings\<close>

definition hex_value :: "char \<Rightarrow> nat option" where
  "hex_value c =
    (let n = of_char c in
     if 48 \<le> n \<and> n \<le> 57 then Some (n - 48)
     else if 97 \<le> n \<and> n \<le> 102 then Some (n - 87)
     else if 65 \<le> n \<and> n \<le> 70 then Some (n - 55)
     else None)"

definition hex4 :: "string \<Rightarrow> nat option" where
  "hex4 s =
    (case map hex_value (take 4 s) of
       [Some a, Some b, Some c, Some d] \<Rightarrow> Some (((a * 16 + b) * 16 + c) * 16 + d)
     | _ \<Rightarrow> None)"

definition plain_escape :: "char \<Rightarrow> char option" where
  "plain_escape c =
    map_of [(CHR 0x22, CHR 0x22), (CHR 0x5C, CHR 0x5C), (CHR ''/'', CHR ''/''), (CHR ''b'', CHR 0x08),
            (CHR ''f'', CHR 0x0C), (CHR ''n'', CHR 0x0A), (CHR ''r'', CHR 0x0D), (CHR ''t'', CHR 0x09)] c"

text \<open>A \<open>\u\<close> escape, after its \<open>u\<close>: the bytes it stands for and the text after it.\<close>

definition unicode_escape :: "string \<Rightarrow> (string \<times> string) option" where
  "unicode_escape s =
    (case hex4 s of
       None \<Rightarrow> None
     | Some n \<Rightarrow>
         let rest = drop 4 s in
         if n < 0xD800 \<or> 0xDFFF < n then Some (encode_rune n, rest)
         else if 0xDC00 \<le> n \<or> take 2 rest \<noteq> [CHR 0x5C, CHR ''u''] then Some (rune_error, rest)
         else (case hex4 (drop 2 rest) of
                 None \<Rightarrow> Some (rune_error, rest)
               | Some m \<Rightarrow>
                   if 0xDC00 \<le> m \<and> m \<le> 0xDFFF
                   then Some (encode_rune (0x10000 + (n - 0xD800) * 0x400 + (m - 0xDC00)), drop 6 rest)
                   else Some (rune_error, rest)))"

definition add_front :: "string \<Rightarrow> (string \<times> string) option \<Rightarrow> (string \<times> string) option" where
  "add_front t r = map_option (\<lambda>(a, b). (t @ a, b)) r"

text \<open>After the opening quote: the string and the text after the closing one.\<close>

fun read_chars :: "nat \<Rightarrow> string \<Rightarrow> (string \<times> string) option" where
  "read_chars 0 s = None"
| "read_chars (Suc n) s =
    (case s of
       [] \<Rightarrow> None
     | c # cs \<Rightarrow>
         if c = CHR 0x22 then Some ([], cs)
         else if c = CHR 0x5C then
           (case cs of
              [] \<Rightarrow> None
            | d # ds \<Rightarrow>
                if d = CHR ''u''
                then (case unicode_escape ds of None \<Rightarrow> None | Some (t, rest) \<Rightarrow> add_front t (read_chars n rest))
                else (case plain_escape d of None \<Rightarrow> None | Some e \<Rightarrow> add_front [e] (read_chars n ds)))
         else if of_char c < (32 :: nat) then None
         else (case rune_length s of
                 None \<Rightarrow> add_front rune_error (read_chars n cs)
               | Some k \<Rightarrow> add_front (take k s) (read_chars n (drop k s))))"

section \<open>Numbers and words\<close>

definition json_digit :: "char \<Rightarrow> bool" where
  "json_digit c \<longleftrightarrow> (48 :: nat) \<le> of_char c \<and> of_char c \<le> (57 :: nat)"

definition read_digits :: "string \<Rightarrow> (string \<times> string) option" where
  "read_digits s = (let ds = takeWhile json_digit s in if ds = [] then None else Some (ds, drop (length ds) s))"

definition read_int :: "string \<Rightarrow> (string \<times> string) option" where
  "read_int s =
    (case s of [] \<Rightarrow> None
     | c # cs \<Rightarrow> if c = CHR ''0'' then Some ([c], cs) else read_digits s)"

definition read_fraction :: "string \<Rightarrow> (string \<times> string) option" where
  "read_fraction s =
    (case s of c # cs \<Rightarrow> if c = CHR ''.'' then add_front [c] (read_digits cs) else Some ([], s) | [] \<Rightarrow> Some ([], s))"

definition read_exponent :: "string \<Rightarrow> (string \<times> string) option" where
  "read_exponent s =
    (case s of
       c # cs \<Rightarrow>
         if c = CHR ''e'' \<or> c = CHR ''E''
         then add_front [c]
           (case cs of
              d # ds \<Rightarrow> if d = CHR ''+'' \<or> d = CHR ''-'' then add_front [d] (read_digits ds) else read_digits cs
            | [] \<Rightarrow> None)
         else Some ([], s)
     | [] \<Rightarrow> Some ([], s))"

definition read_unsigned :: "string \<Rightarrow> (string \<times> string) option" where
  "read_unsigned s =
    (case read_int s of None \<Rightarrow> None
     | Some (a, s1) \<Rightarrow>
        (case read_fraction s1 of None \<Rightarrow> None
         | Some (b, s2) \<Rightarrow>
            (case read_exponent s2 of None \<Rightarrow> None | Some (c, s3) \<Rightarrow> Some (a @ b @ c, s3))))"

definition read_number :: "string \<Rightarrow> (string \<times> string) option" where
  "read_number s =
    (case s of c # cs \<Rightarrow> if c = CHR ''-'' then add_front [c] (read_unsigned cs) else read_unsigned s | [] \<Rightarrow> None)"

definition read_word :: "string \<Rightarrow> json \<Rightarrow> string \<Rightarrow> (json \<times> string) option" where
  "read_word w v s = (if prefix w s then Some (v, drop (length w) s) else None)"

section \<open>Values\<close>

text \<open>
  \<open>d\<close> levels may still be opened.  The list and the member readers are called after the opening
  bracket, or after a comma; \<open>start\<close> says that nothing was read yet, so that it may close at once.
\<close>

definition json_depth :: nat where "json_depth = 10000"

function read_value :: "nat \<Rightarrow> nat \<Rightarrow> string \<Rightarrow> (json \<times> string) option"
  and read_elements :: "nat \<Rightarrow> nat \<Rightarrow> bool \<Rightarrow> string \<Rightarrow> (json list \<times> string) option"
  and read_members :: "nat \<Rightarrow> nat \<Rightarrow> bool \<Rightarrow> string \<Rightarrow> ((string \<times> json) list \<times> string) option" where
  "read_value 0 d s = None"
| "read_value (Suc n) d s0 =
    (let s = skip_space s0 in
     case s of
       [] \<Rightarrow> None
     | c # cs \<Rightarrow>
         if c = CHR 0x22 then map_option (\<lambda>(t, r). (JStr t, r)) (read_chars (Suc (length cs)) cs)
         else if c = CHR ''['' then
           (case d of 0 \<Rightarrow> None | Suc d' \<Rightarrow> map_option (\<lambda>(vs, r). (JArr vs, r)) (read_elements n d' True cs))
         else if c = CHR ''{'' then
           (case d of 0 \<Rightarrow> None | Suc d' \<Rightarrow> map_option (\<lambda>(kvs, r). (JObj kvs, r)) (read_members n d' True cs))
         else if c = CHR ''t'' then read_word ''true'' (JBool True) s
         else if c = CHR ''f'' then read_word ''false'' (JBool False) s
         else if c = CHR ''n'' then read_word ''null'' JNull s
         else map_option (\<lambda>(t, r). (JNum t, r)) (read_number s))"
| "read_elements 0 d start s = None"
| "read_elements (Suc n) d start s0 =
    (let s = skip_space s0 in
     if start \<and> take 1 s = '']'' then Some ([], drop 1 s)
     else (case read_value n d s of
             None \<Rightarrow> None
           | Some (v, r0) \<Rightarrow>
               (let r = skip_space r0 in
                if take 1 r = '']'' then Some ([v], drop 1 r)
                else if take 1 r = '','' then map_option (\<lambda>(vs, r'). (v # vs, r')) (read_elements n d False (drop 1 r))
                else None)))"
| "read_members 0 d start s = None"
| "read_members (Suc n) d start s0 =
    (let s = skip_space s0 in
     if start \<and> take 1 s = ''}'' then Some ([], drop 1 s)
     else if take 1 s \<noteq> [CHR 0x22] then None
     else (case read_chars (length s) (drop 1 s) of
             None \<Rightarrow> None
           | Some (k, r0) \<Rightarrow>
               (let r = skip_space r0 in
                if take 1 r \<noteq> '':'' then None
                else (case read_value n d (drop 1 r) of
                        None \<Rightarrow> None
                      | Some (v, q0) \<Rightarrow>
                          (let q = skip_space q0 in
                           if take 1 q = ''}'' then Some ([(k, v)], drop 1 q)
                           else if take 1 q = '','' then map_option (\<lambda>(kvs, q'). ((k, v) # kvs, q')) (read_members n d False (drop 1 q))
                           else None)))))"
  by pat_completeness auto
termination
  by (relation "measure (\<lambda>x. case x of Inl (n, _) \<Rightarrow> n | Inr (Inl (n, _)) \<Rightarrow> n | Inr (Inr (n, _)) \<Rightarrow> n)") auto

definition parse_json :: "string \<Rightarrow> json option" where
  "parse_json s =
    (case read_value (2 * length s + 2) json_depth s of
       Some (v, r) \<Rightarrow> if skip_space r = [] then Some v else None
     | None \<Rightarrow> None)"

lemma parse_json_sample:
  "parse_json ''{\"a\" :[1, -2.5e+3]}'' = Some (JObj [(''a'', JArr [JNum ''1'', JNum ''-2.5e+3''])])"
  by code_simp

end
