(* ===== verification/Json_Decode.thy ===== *)
theory Json_Decode
  imports Json_Text Go_Numbers
begin

text \<open>
  \<open>json.Unmarshal\<close> into typed targets.  A decoder gets the value its target has and answers the new
  one, \<open>None\<close> for the decoder's type error: Go decodes the rest of the text after such an error, but
  the callers here drop what was decoded when there was one.
\<close>

text \<open>A slice: \<open>null\<close> is nil, an array decodes element by element, anything else is an error.\<close>

fun decode_elements :: "('a \<Rightarrow> json \<Rightarrow> 'a option) \<Rightarrow> 'a \<Rightarrow> 'a list \<Rightarrow> json list \<Rightarrow> 'a list option" where
  "decode_elements dec zero old [] = Some []"
| "decode_elements dec zero old (v # vs) =
    (case dec (case old of [] \<Rightarrow> zero | x # _ \<Rightarrow> x) v of
       None \<Rightarrow> None
     | Some y \<Rightarrow> map_option ((#) y) (decode_elements dec zero (drop 1 old) vs))"

definition decode_slice :: "('a \<Rightarrow> json \<Rightarrow> 'a option) \<Rightarrow> 'a \<Rightarrow> 'a list \<Rightarrow> json \<Rightarrow> 'a list option" where
  "decode_slice dec zero old v =
    (case v of JNull \<Rightarrow> Some [] | JArr vs \<Rightarrow> decode_elements dec zero old vs | _ \<Rightarrow> None)"

definition decode_string :: "string \<Rightarrow> json \<Rightarrow> string option" where
  "decode_string old v = (case v of JStr s \<Rightarrow> Some s | JNull \<Rightarrow> Some old | _ \<Rightarrow> None)"

definition decode_map :: "(string \<times> json) list \<Rightarrow> json \<Rightarrow> (string \<times> json) list option" where
  "decode_map old v = (case v of JObj kvs \<Rightarrow> Some (old @ kvs) | JNull \<Rightarrow> Some [] | _ \<Rightarrow> None)"

text \<open>A struct: every member whose name is that of a field is decoded into it, in the text's order.\<close>

fun decode_fields :: "(string \<times> ('a \<Rightarrow> json \<Rightarrow> 'a option)) list \<Rightarrow> 'a \<Rightarrow> (string \<times> json) list \<Rightarrow> 'a option" where
  "decode_fields fs x [] = Some x"
| "decode_fields fs x ((k, v) # kvs) =
    (case find (\<lambda>(n, dec). equal_fold k n) fs of
       None \<Rightarrow> decode_fields fs x kvs
     | Some (n, dec) \<Rightarrow> (case dec x v of None \<Rightarrow> None | Some y \<Rightarrow> decode_fields fs y kvs))"

definition decode_struct :: "(string \<times> ('a \<Rightarrow> json \<Rightarrow> 'a option)) list \<Rightarrow> 'a \<Rightarrow> json \<Rightarrow> 'a option" where
  "decode_struct fs x v = (case v of JObj kvs \<Rightarrow> decode_fields fs x kvs | JNull \<Rightarrow> Some x | _ \<Rightarrow> None)"

definition into :: "('a \<Rightarrow> 'b) \<Rightarrow> (('b \<Rightarrow> 'b) \<Rightarrow> 'a \<Rightarrow> 'a) \<Rightarrow> ('b \<Rightarrow> json \<Rightarrow> 'b option) \<Rightarrow> 'a \<Rightarrow> json \<Rightarrow> 'a option" where
  "into get upd dec x v = map_option (\<lambda>y. upd (\<lambda>_. y) x) (dec (get x) v)"

definition decode_raw :: "json option \<Rightarrow> json \<Rightarrow> json option option" where
  "decode_raw old v = Some (Some v)"

text \<open>An \<open>int\<close> takes a number written as an integer that fits.\<close>

definition decode_int :: "int \<Rightarrow> json \<Rightarrow> int option" where
  "decode_int old v = (case v of JNum t \<Rightarrow> atoi t | JNull \<Rightarrow> Some old | _ \<Rightarrow> None)"

definition decode_bool :: "bool \<Rightarrow> json \<Rightarrow> bool option" where
  "decode_bool old v = (case v of JBool b \<Rightarrow> Some b | JNull \<Rightarrow> Some old | _ \<Rightarrow> None)"

text \<open>A \<open>*bool\<close>: \<open>null\<close> makes it nil.\<close>

definition decode_flag :: "bool option \<Rightarrow> json \<Rightarrow> bool option option" where
  "decode_flag old v = (case v of JBool b \<Rightarrow> Some (Some b) | JNull \<Rightarrow> Some None | _ \<Rightarrow> None)"

end
