(* ===== verification/Deploy_Watch.thy ===== *)
theory Deploy_Watch
  imports Deploy_Monitor Json_Decode Go_Text
begin

text \<open>
  How the deployment monitor observes (src/capability/deployment/): the trail and the polls of a watch
  (monitor.go), the reader of the deployment API (http_observer.go), the observation a monitoring
  agent judges (agent_observer.go) and the text it is asked with (prompt.go).  An observer acts on the
  state \<open>'s\<close> outside; a reading of the clock and a sleep are steps of that state too.  The network, the
  agent's session, the prompt file, the address of a new bool and the readings and writings of a time
  are arguments.
\<close>

section \<open>The trail of a watch\<close>

definition trail_max_changes :: nat where "trail_max_changes = 24"
definition trail_evidence_lines :: nat where "trail_evidence_lines = 3"

record trail_change =
  tc_snapshot :: snapshot
  tc_signals :: "string list"
  tc_evidence :: "string list"

record poll_trail =
  tr_polls :: nat
  tr_changes :: "trail_change list"
  tr_dropped :: nat
  tr_last :: string

definition new_trail :: poll_trail where
  "new_trail = \<lparr>tr_polls = 0, tr_changes = [], tr_dropped = 0, tr_last = []\<rparr>"

definition last_lines :: "string list \<Rightarrow> nat \<Rightarrow> string list" where
  "last_lines logs n = drop (length logs - n) logs"

text \<open>\<open>fmt.Sprint\<close> of the \<open>*bool\<close> prints the pointer.\<close>

definition trail_key :: "snapshot \<Rightarrow> string list \<Rightarrow> string" where
  "trail_key sn signals =
    str_join [CHR 0x00]
      [state_name (snap_state sn), sn_phase sn, sn_progress sn, sn_message sn,
       (case sn_healthy sn of None \<Rightarrow> ''<nil>'' | Some (addr, _) \<Rightarrow> addr), str_join '','' signals]"

definition trail_observe :: "snapshot \<Rightarrow> int \<Rightarrow> int \<Rightarrow> poll_trail \<Rightarrow> poll_trail" where
  "trail_observe sn tail now t0 =
    (let t = t0\<lparr>tr_polls := Suc (tr_polls t0)\<rparr>;
         d = diagnose sn now tail;
         key = trail_key sn (dg_signals d)
     in if key = tr_last t then t
        else
          (let ch = \<lparr>tc_snapshot = sn, tc_signals = dg_signals d,
                     tc_evidence = (if dg_problem d then last_lines (sn_logs sn) trail_evidence_lines else [])\<rparr>;
               t1 = t\<lparr>tr_last := key, tr_changes := tr_changes t @ [ch]\<rparr>
           in if length (tr_changes t1) > trail_max_changes
              then t1\<lparr>tr_changes := drop 1 (tr_changes t1), tr_dropped := Suc (tr_dropped t1)\<rparr> else t1))"

section \<open>The text of an observation\<close>

text \<open>\<open>st\<close> writes a time as \<open>15:04:05\<close>, \<open>st_full\<close> as RFC 3339.\<close>

definition observation_stamp :: "(int \<Rightarrow> string) \<Rightarrow> snapshot \<Rightarrow> string" where
  "observation_stamp st sn = (case sn_updated sn of None \<Rightarrow> ''(no timestamp)'' | Some t \<Rightarrow> st t)"

definition observation_line :: "(int \<Rightarrow> string) \<Rightarrow> snapshot \<Rightarrow> string" where
  "observation_line st sn =
    str_join '' ''
      ([observation_stamp st sn, state_name (snap_state sn)]
       @ (if sn_phase sn \<noteq> [] then [''phase '' @ sn_phase sn] else [])
       @ (if sn_progress sn \<noteq> [] then [''progress '' @ sn_progress sn] else [])
       @ (if sn_message sn \<noteq> [] then [sn_message sn] else []))"

definition long_dash :: string where "long_dash = [CHR 0xE2, CHR 0x80, CHR 0x94]"

definition render_change :: "(int \<Rightarrow> string) \<Rightarrow> trail_change \<Rightarrow> string" where
  "render_change st ch =
    ''  - '' @ observation_line st (tc_snapshot ch)
    @ (if tc_signals ch \<noteq> [] then '' '' @ long_dash @ '' signals: '' @ str_join '', '' (tc_signals ch) else [])
    @ newline @ concat (map (\<lambda>l. ''      '' @ l @ newline) (tc_evidence ch))"

definition render_trail :: "(int \<Rightarrow> string) \<Rightarrow> nat \<Rightarrow> trail_change list \<Rightarrow> nat \<Rightarrow> string" where
  "render_trail st polls changes dropped =
    (if changes = [] then []
     else ''the deployment was watched ('' @ show_nat polls @ '' poll(s), '' @ show_nat (length changes + dropped)
          @ '' change(s), oldest first):'' @ newline
          @ concat (map (render_change st) changes)
          @ (if dropped > 0 then ''  ('' @ show_nat dropped @ '' earlier change(s) not shown)'' @ newline else []))"

definition text_line :: "string \<Rightarrow> string \<Rightarrow> string" where
  "text_line name v = (if v \<noteq> [] then name @ '': '' @ v @ newline else [])"

text \<open>\<open>er\<close> writes an error.\<close>

definition render_observation ::
  "(int \<Rightarrow> string) \<Rightarrow> (monitor_error \<Rightarrow> string) \<Rightarrow> monitor_request \<Rightarrow> snapshot \<Rightarrow> monitor_error option \<Rightarrow> string \<Rightarrow> string" where
  "render_observation st_full er rq sn err timeline =
    (case err of None \<Rightarrow> [] | Some e \<Rightarrow> ''the raw reader failed: '' @ er e @ newline) @ timeline
    @ ''deployment: '' @ first_trimmed [sn_id sn, rq_deployment rq] @ newline
    @ ''state: '' @ state_name (snap_state sn) @ newline
    @ text_line ''phase'' (sn_phase sn) @ text_line ''progress'' (sn_progress sn)
    @ (case sn_healthy sn of None \<Rightarrow> [] | Some (_, b) \<Rightarrow> ''healthy: '' @ show_bool b @ newline)
    @ text_line ''service'' (sn_service sn) @ text_line ''version'' (sn_version sn)
    @ text_line ''message'' (sn_message sn) @ text_line ''error'' (sn_error sn)
    @ (case sn_updated sn of None \<Rightarrow> [] | Some t \<Rightarrow> ''updated_at: '' @ st_full t @ newline)
    @ (if sn_logs sn \<noteq> [] then ''logs:'' @ newline @ str_join newline (sn_logs sn) @ newline else [])"

section \<open>The polls of a watch\<close>

type_synonym 's observer = "monitor_request \<Rightarrow> 's \<Rightarrow> 's \<times> (monitor_error + snapshot)"
type_synonym 's history_observer = "monitor_request \<Rightarrow> string \<Rightarrow> 's \<Rightarrow> 's \<times> (monitor_error + snapshot)"

datatype 's judge = Plain "'s observer" | WithHistory "'s history_observer"

record 's polling =
  pl_poll :: "'s judge"
  pl_judge :: "'s judge option"

fun ask_judge :: "'s judge \<Rightarrow> 's observer" where
  "ask_judge (Plain f) rq s = f rq s"
| "ask_judge (WithHistory f) rq s = f rq [] s"

definition polling_observation :: "'s polling \<Rightarrow> 's judge" where
  "polling_observation p = (case pl_judge p of Some j \<Rightarrow> j | None \<Rightarrow> pl_poll p)"

record loop_state =
  lp_polls :: nat
  lp_last :: snapshot
  lp_trail :: poll_trail
  lp_error :: "monitor_error option"

definition new_loop :: loop_state where
  "new_loop = \<lparr>lp_polls = 0, lp_last = zero_snapshot, lp_trail = new_trail, lp_error = None\<rparr>"

text \<open>
  \<open>n\<close> polls may follow this one.  \<open>clock\<close> reads the time; \<open>nap\<close> sleeps the interval and says whether it
  was cut short.
\<close>

definition poll_step ::
  "('s \<Rightarrow> 's \<times> int) \<Rightarrow> 's polling \<Rightarrow> monitor_request \<Rightarrow> loop_state \<Rightarrow> 's \<Rightarrow> bool \<times> loop_state \<times> 's" where
  "poll_step clock p rq lp s =
    (let lp = lp\<lparr>lp_polls := Suc (lp_polls lp)\<rparr> in
     case ask_judge (pl_poll p) rq s of
       (s1, Inl e) \<Rightarrow> (False, lp\<lparr>lp_error := Some e\<rparr>, s1)
     | (s1, Inr sn) \<Rightarrow>
         (let lp = lp\<lparr>lp_error := None, lp_last := sn\<rparr> in
          if terminal_state (snap_state sn) then (True, lp, s1)
          else (case clock s1 of
                  (s2, now) \<Rightarrow> (False, lp\<lparr>lp_trail := trail_observe sn (rq_tail rq) now (lp_trail lp)\<rparr>, s2))))"

fun watch_polls ::
  "('s \<Rightarrow> 's \<times> int) \<Rightarrow> ('s \<Rightarrow> 's \<times> bool) \<Rightarrow> 's polling \<Rightarrow> monitor_request \<Rightarrow> int \<Rightarrow> nat \<Rightarrow> loop_state \<Rightarrow> 's
     \<Rightarrow> loop_state \<times> 's" where
  "watch_polls clock nap p rq deadline n lp s =
    (case poll_step clock p rq lp s of
       (True, lp', s') \<Rightarrow> (lp', s')
     | (False, lp', s') \<Rightarrow>
         (case n of
            0 \<Rightarrow> (lp', s')
          | Suc m \<Rightarrow>
              (case clock s' of
                 (s2, now) \<Rightarrow>
                   if \<not> now < deadline then (lp', s2)
                   else (case nap s2 of
                           (s3, True) \<Rightarrow> (lp', s3)
                         | (s3, False) \<Rightarrow> watch_polls clock nap p rq deadline m lp' s3))))"

declare watch_polls.simps [simp del]

definition poll_interval :: "monitor_request \<Rightarrow> int" where
  "poll_interval rq = (if rq_interval rq \<le> 0 then min_poll_interval else rq_interval rq)"

definition poll_timeout :: "monitor_request \<Rightarrow> int" where
  "poll_timeout rq = (if rq_timeout rq < 0 then 0 else rq_timeout rq)"

definition max_polls :: "monitor_request \<Rightarrow> nat" where
  "max_polls rq = Suc (nat (poll_timeout rq div poll_interval rq))"

definition observe ::
  "(int \<Rightarrow> string) \<Rightarrow> ('s \<Rightarrow> 's \<times> int) \<Rightarrow> (int \<Rightarrow> 's \<Rightarrow> 's \<times> bool) \<Rightarrow> 's polling \<Rightarrow> monitor_request \<Rightarrow> 's
     \<Rightarrow> 's \<times> nat \<times> (monitor_error + snapshot)" where
  "observe st clock nap p rq s =
    (if \<not> rq_watch rq
     then (case ask_judge (polling_observation p) rq s of (s', r) \<Rightarrow> (s', 1, r))
     else
       (case clock s of (s1, start) \<Rightarrow>
          (case watch_polls clock (nap (poll_interval rq)) p rq (start + poll_timeout rq) (max_polls rq - 1) new_loop s1 of
             (lp, s2) \<Rightarrow>
               (case lp_error lp of
                  Some e \<Rightarrow> (s2, lp_polls lp, Inl e)
                | None \<Rightarrow>
                    (case polling_observation p of
                       WithHistory f \<Rightarrow>
                         (case f rq (render_trail st (lp_polls lp) (tr_changes (lp_trail lp)) (tr_dropped (lp_trail lp))) s2 of
                            (s3, r) \<Rightarrow> (s3, lp_polls lp, r))
                     | Plain f \<Rightarrow>
                         (if pl_judge p = None then (s2, lp_polls lp, Inr (lp_last lp))
                          else (case f rq s2 of (s3, r) \<Rightarrow> (s3, lp_polls lp, r))))))))"

text \<open>\<open>Monitor.Run\<close>, over the observers its fields choose.\<close>

definition run_monitor ::
  "(int \<Rightarrow> string) \<Rightarrow> ('s \<Rightarrow> 's \<times> int) \<Rightarrow> (int \<Rightarrow> 's \<Rightarrow> 's \<times> bool) \<Rightarrow> string \<Rightarrow> 's polling \<Rightarrow> string smap \<Rightarrow> 's
     \<Rightarrow> 's \<times> (monitor_error + string smap)" where
  "run_monitor st clock nap env p inp s =
    (case parse_request env inp of
       Inl e \<Rightarrow> (s, Inl e)
     | Inr rq \<Rightarrow>
         (case observe st clock nap p rq s of
            (s1, _, Inl e) \<Rightarrow> (s1, Inl e)
          | (s1, _, Inr sn) \<Rightarrow> (case clock s1 of (s2, now) \<Rightarrow> (s2, Inr (report sn rq now)))))"

section \<open>The deployment API\<close>

definition path_byte_kept :: "char \<Rightarrow> bool" where
  "path_byte_kept c \<longleftrightarrow> c \<in> set ''abcdefghijklmnopqrstuvwxyzABCDEFGHIJKLMNOPQRSTUVWXYZ0123456789-_.~$&+:=@''"

definition upper_hex :: "nat \<Rightarrow> char" where "upper_hex d = ''0123456789ABCDEF'' ! (d mod 16)"

text \<open>\<open>url.PathEscape\<close>.\<close>

definition path_escape :: "string \<Rightarrow> string" where
  "path_escape s =
    concat (map (\<lambda>c. if path_byte_kept c then [c] else [CHR ''%'', upper_hex (of_char c div 16), upper_hex (of_char c)]) s)"

definition status_path :: string where "status_path = ''/api/pipelines/''"

definition status_url_for :: "monitor_request \<Rightarrow> monitor_error + string" where
  "status_url_for rq =
    (let u = trim (rq_status_url rq); base = cut_slashes (trim (rq_endpoint rq)); poll = trim (rq_poll rq)
     in if u \<noteq> [] then Inr u
        else if poll \<noteq> [] then Inr (if base = [] then poll else base @ ''/'' @ drop_slashes poll)
        else if base = [] then Inl MissingStatusUrl
        else if rq_deployment rq = [] then Inl MissingId
        else Inr (base @ status_path @ path_escape (rq_deployment rq)))"

definition snippet_chars :: nat where "snippet_chars = 200"
definition ellipsis :: string where "ellipsis = [CHR 0xE2, CHR 0x80, CHR 0xA6]"

definition snippet :: "string \<Rightarrow> string" where
  "snippet body =
    (let text = trim body in
     if text = [] then ''(empty body)''
     else (let line = takeWhile (\<lambda>c. c \<noteq> CHR 0x0A) text;
               flat = trim (str_join '' '' (go_fields line))
           in if flat = [] then ''(empty body)''
              else if length flat > snippet_chars then take snippet_chars flat @ ellipsis else flat))"

definition max_body_bytes :: nat where "max_body_bytes = 1048576"

text \<open>\<open>fetch\<close> is the client: an error, or the status code and the body.\<close>

definition http_get ::
  "(string \<Rightarrow> 's \<Rightarrow> 's \<times> (string + nat \<times> string)) \<Rightarrow> string \<Rightarrow> 's \<Rightarrow> 's \<times> (string + string)" where
  "http_get fetch url s =
    (case fetch url s of
       (s', Inl e) \<Rightarrow> (s', Inl e)
     | (s', Inr (code, full)) \<Rightarrow>
         (let body = take max_body_bytes full in
          if code < 200 \<or> 300 \<le> code then (s', Inl (''http '' @ show_nat code @ '': '' @ snippet body)) else (s', Inr body)))"

record status_payload =
  sp_id :: string
  sp_name :: string
  sp_request :: string
  sp_service :: string
  sp_state :: string
  sp_status :: string
  sp_phase :: string
  sp_stage :: string
  sp_progress :: string
  sp_healthy :: "bool option"
  sp_health :: string
  sp_error :: string
  sp_message :: string
  sp_version :: string
  sp_deployment :: string
  sp_updated_at :: string
  sp_logs :: "string list"
  sp_lines :: "string list"

definition zero_payload :: status_payload where
  "zero_payload =
    \<lparr>sp_id = [], sp_name = [], sp_request = [], sp_service = [], sp_state = [], sp_status = [], sp_phase = [], sp_stage = [],
     sp_progress = [], sp_healthy = None, sp_health = [], sp_error = [], sp_message = [], sp_version = [], sp_deployment = [],
     sp_updated_at = [], sp_logs = [], sp_lines = []\<rparr>"

definition payload_fields :: "(string \<times> (status_payload \<Rightarrow> json \<Rightarrow> status_payload option)) list" where
  "payload_fields =
    [(''id'', into sp_id sp_id_update decode_string), (''name'', into sp_name sp_name_update decode_string),
     (''requestId'', into sp_request sp_request_update decode_string),
     (''serviceId'', into sp_service sp_service_update decode_string),
     (''state'', into sp_state sp_state_update decode_string), (''status'', into sp_status sp_status_update decode_string),
     (''phase'', into sp_phase sp_phase_update decode_string), (''stage'', into sp_stage sp_stage_update decode_string),
     (''progress'', into sp_progress sp_progress_update decode_string),
     (''healthy'', into sp_healthy sp_healthy_update decode_flag), (''health'', into sp_health sp_health_update decode_string),
     (''error'', into sp_error sp_error_update decode_string), (''message'', into sp_message sp_message_update decode_string),
     (''version'', into sp_version sp_version_update decode_string),
     (''deployment'', into sp_deployment sp_deployment_update decode_string),
     (''updated_at'', into sp_updated_at sp_updated_at_update decode_string),
     (''logs'', into sp_logs sp_logs_update (decode_slice decode_string [])),
     (''lines'', into sp_lines sp_lines_update (decode_slice decode_string []))]"

definition decode_status :: "string \<Rightarrow> status_payload option" where
  "decode_status body = (case parse_json body of None \<Rightarrow> None | Some v \<Rightarrow> decode_struct payload_fields zero_payload v)"

definition first_lines :: "string list list \<Rightarrow> string list" where
  "first_lines ls = (case find (\<lambda>l. l \<noteq> []) ls of None \<Rightarrow> [] | Some l \<Rightarrow> l)"

definition tail_lines :: "string list \<Rightarrow> int \<Rightarrow> string list" where
  "tail_lines ls n = drop (length ls - nat (if n \<le> 0 then default_tail else n)) ls"

definition cut_returns :: "string \<Rightarrow> string" where
  "cut_returns s = rev (dropWhile (\<lambda>c. c = CHR 0x0D) (rev s))"

definition log_text_lines :: "string \<Rightarrow> string list" where
  "log_text_lines text =
    map cut_returns (rev (dropWhile (\<lambda>l. trim l = []) (rev (split_on CHR 0x0A text))))"

definition wrapped_fields :: "(string \<times> (string list \<times> string list \<Rightarrow> json \<Rightarrow> (string list \<times> string list) option)) list" where
  "wrapped_fields =
    [(''logs'', into fst apfst (decode_slice decode_string [])), (''lines'', into snd apsnd (decode_slice decode_string []))]"

definition decode_logs :: "string \<Rightarrow> string list" where
  "decode_logs body =
    (let trimmed = trim body; plain = log_text_lines trimmed in
     if trimmed = [] then []
     else if prefix ''{'' trimmed \<or> prefix ''['' trimmed
     then (case parse_json body of
             None \<Rightarrow> plain
           | Some v \<Rightarrow>
               (case decode_struct wrapped_fields ([], []) v of
                  Some (logs, lines) \<Rightarrow>
                    (if first_lines [logs, lines] \<noteq> [] then first_lines [logs, lines]
                     else (case decode_slice decode_string [] [] v of Some ls \<Rightarrow> ls | None \<Rightarrow> []))
                | None \<Rightarrow> (case decode_slice decode_string [] [] v of Some ls \<Rightarrow> ls | None \<Rightarrow> [])))
     else plain)"

definition payload_healthy :: "status_payload \<Rightarrow> bool option" where
  "payload_healthy p =
    (let h = to_lower (trim (sp_health p)) in
     if sp_healthy p \<noteq> None then sp_healthy p
     else if h \<in> {''healthy'', ''ok'', ''up'', ''true'', ''passing'', ''green''} then Some True
     else if h \<in> {''unhealthy'', ''down'', ''false'', ''failing'', ''red'', ''degraded'', ''error''} then Some False
     else None)"

definition under_scores :: "string \<Rightarrow> string" where
  "under_scores s = map (\<lambda>c. if c = CHR '' '' \<or> c = CHR ''-'' then CHR ''_'' else c) s"

definition normalize_state :: "string \<Rightarrow> deploy_state" where
  "normalize_state v =
    (let s = under_scores (to_lower (trim v)) in
     if s \<in> {''success'', ''succeeded'', ''successful'', ''ok'', ''complete'', ''completed'', ''done'', ''healthy'', ''passed'', ''pass''}
     then Succeeded
     else if s \<in> {''failure'', ''failed'', ''fail'', ''error'', ''errored'', ''unhealthy'', ''crash'', ''crashed'', ''aborted'', ''cancelled'',
                  ''canceled'', ''rollback'', ''rolled_back'', ''timed_out'', ''timeout''} then Failed
     else if s \<in> {''running'', ''in_progress'', ''progress'', ''deploying'', ''deploy'', ''rolling_out'', ''updating'', ''started'', ''start'',
                  ''packaging'', ''packaging_in_progress'', ''building'', ''building_in_progress'', ''pushing'', ''publishing'', ''releasing''}
     then Running
     else if s \<in> {''pending'', ''queued'', ''created'', ''waiting'', ''requested'', ''accepted'', ''preparing'', ''not_started''} then Pending
     else Unknown)"

text \<open>\<open>tm\<close> reads RFC 3339, with or without a fraction; \<open>addr\<close> is where the new bool lives.\<close>

definition payload_snapshot ::
  "(string \<Rightarrow> int option) \<Rightarrow> string \<Rightarrow> monitor_request \<Rightarrow> string list \<Rightarrow> status_payload \<Rightarrow> snapshot" where
  "payload_snapshot tm addr rq logs p =
    zero_snapshot
      \<lparr>sn_id := first_trimmed [sp_id p, sp_request p, sp_name p, rq_deployment rq],
       sn_state := normalize_state (first_trimmed [sp_state p, sp_status p]),
       sn_phase := first_trimmed [sp_phase p, sp_stage p],
       sn_progress := trim (sp_progress p),
       sn_healthy := map_option (Pair addr) (payload_healthy p),
       sn_error := trim (sp_error p),
       sn_message := trim (sp_message p),
       sn_service := trim (sp_service p),
       sn_version := trim (sp_version p),
       sn_deployment := trim (sp_deployment p),
       sn_updated := (if trim (sp_updated_at p) = [] then None else tm (trim (sp_updated_at p))),
       sn_logs := tail_lines (if sp_logs p \<noteq> [] \<and> logs = [] then sp_logs p else logs)
                    (if rq_tail rq \<le> 0 then default_tail else rq_tail rq)\<rparr>"

definition http_observe ::
  "(string \<Rightarrow> int option) \<Rightarrow> ('s \<Rightarrow> string) \<Rightarrow> (string \<Rightarrow> 's \<Rightarrow> 's \<times> (string + nat \<times> string)) \<Rightarrow> 's observer" where
  "http_observe tm addr fetch rq s =
    (case status_url_for rq of
       Inl e \<Rightarrow> (s, Inl e)
     | Inr url \<Rightarrow>
         (case http_get fetch url s of
            (s1, Inl e) \<Rightarrow> (s1, Inl (StatusFailed url e))
          | (s1, Inr body) \<Rightarrow>
              (case decode_status body of
                 None \<Rightarrow> (s1, Inl (StatusUnreadable url (snippet body)))
               | Some p \<Rightarrow>
                   (let logs = first_lines [sp_logs p, sp_lines p] in
                    if logs \<noteq> [] then (s1, Inr (payload_snapshot tm (addr s1) rq logs p))
                    else
                      (case http_get fetch
                              (if trim (rq_logs_url rq) = [] then cut_slashes url @ ''/logs'' else trim (rq_logs_url rq)) s1 of
                         (s2, Inl _) \<Rightarrow> (s2, Inr (payload_snapshot tm (addr s2) rq [] p))
                       | (s2, Inr raw) \<Rightarrow> (s2, Inr (payload_snapshot tm (addr s2) rq (decode_logs raw) p)))))))"

end
