(* ===== verification/Watch_Deployment.thy ===== *)
theory Watch_Deployment
  imports Watch_Doors Deploy_Watch
begin

text \<open>
  The runtime's snapshot of a deployment (\<open>defaultDeploymentSnapshot\<close>, src/watch.go): the reader of the
  deployment API behind the watcher's deployment probe.  It asks with a request that holds the
  deployment's id alone.
\<close>

definition bare_request :: "string \<Rightarrow> monitor_request" where
  "bare_request target =
    \<lparr>rq_deployment = target, rq_endpoint = [], rq_status_url = [], rq_poll = [], rq_logs_url = [], rq_tail = 0,
     rq_watch = False, rq_interval = 0, rq_timeout = 0, rq_task = []\<rparr>"

definition deployment_snapshot ::
  "(string \<Rightarrow> int option) \<Rightarrow> ('s \<Rightarrow> string) \<Rightarrow> (string \<Rightarrow> 's \<Rightarrow> 's \<times> (string + nat \<times> string)) \<Rightarrow> (monitor_error \<Rightarrow> string)
     \<Rightarrow> 's Watcher.snapshot" where
  "deployment_snapshot tm addr fetch er target s =
    (case http_observe tm addr fetch (bare_request target) s of
       (s', Inl e) \<Rightarrow> (s', Inl (er e))
     | (s', Inr sn) \<Rightarrow>
         (let i = Graceful.first_non_empty [sn_id sn, target] in
          (s', Inr (Some
            ([(''exists'', ''true''), (''deployment'', i), (''target'', i), (''state'', state_name (sn_state sn)),
              (''phase'', sn_phase sn), (''progress'', sn_progress sn), (''service'', sn_service sn), (''version'', sn_version sn),
              (''message'', sn_message sn), (''error'', sn_error sn)]
             @ (case sn_healthy sn of None \<Rightarrow> [] | Some (_, b) \<Rightarrow> [(''healthy'', show_bool b)]))))))"

lemma snapshot_has_no_url: "deployment_snapshot tm addr fetch er target s = (s, Inl (er MissingStatusUrl))"
  by (simp add: deployment_snapshot_def http_observe_def status_url_for_def bare_request_def cut_slashes_def drop_slashes_def Let_def)

lemma named_spec_parts:
  "named_spec k t u i = Inr sp \<Longrightarrow> ws_kind sp = k \<and> ws_target sp = t \<and> t \<noteq> []"
  by (auto simp: named_spec_def split: if_splits)

lemma first_non_empty_trim: "Graceful.first_non_empty vs \<noteq> [] \<Longrightarrow> trim (Graceful.first_non_empty vs) \<noteq> []"
  by (induction vs) (auto split: if_splits)

lemma deployment_observed:
  assumes "ws_kind sp = kind_deployment" "trim (ws_target sp) \<noteq> []"
  shows "watcher_observe sp (new_world_watcher env env_pr pulls (deployment_snapshot tm addr fetch er)) s
       = (s, Inl (SnapshotFailed (er MissingStatusUrl)))"
proof -
  have "trim kind_deployment = ''deployment''" "trim ''pull_request'' = ''pull_request''" "trim ''deployment'' = ''deployment''"
    by code_simp+
  with assms show ?thesis
    by (simp add: watcher_observe_def find_probe_def new_world_watcher_def new_watcher_def with_interval_def add_probe_def
        pull_request_probe_def deployment_probe_def kind_pull_request_def kind_deployment_def observe_with_def snapshot_has_no_url Let_def)
qed

text \<open>
  The runtime can watch no deployment: whatever the deployment API would answer, both doors of the
  watcher refuse every deployment with a missing status URL and register nothing, because the snapshot
  asks with a request that has neither endpoint nor URL.
\<close>
theorem deployments_cannot_be_watched:
  assumes "w = new_world_watcher env env_pr pulls (deployment_snapshot tm addr fetch er)"
    and "watch_spec_from_request q = Inr sp" and "ws_kind sp = kind_deployment"
    and "infer_watch_spec inp = Inr sp'" and "ws_kind sp' = kind_deployment" and "watch_window inp = Inr wd"
  shows "start_watch q (Some w) s = (Some w, s, Inl (SnapshotFailed (er MissingStatusUrl)))
    \<and> run_watch n inp (Some w) s = (Some w, s, Inl (SnapshotFailed (er MissingStatusUrl)))"
proof -
  have "trim (ws_target sp) \<noteq> []"
    using assms(2) by (auto simp: watch_spec_from_request_def Let_def simp del: Graceful.first_non_empty.simps
        dest!: named_spec_parts first_non_empty_trim)
  then have "watcher_observe sp w s = (s, Inl (SnapshotFailed (er MissingStatusUrl)))"
    using assms(1,3) by (simp add: deployment_observed)
  moreover have "trim (ws_target sp') \<noteq> []"
    using assms(4) by (auto simp: infer_watch_spec_def Let_def dest!: named_spec_parts)
  then have "watcher_observe sp' w s = (s, Inl (SnapshotFailed (er MissingStatusUrl)))"
    using assms(1,5) by (simp add: deployment_observed)
  ultimately show ?thesis using assms(2,4,6) by (simp add: start_watch_def run_watch_def)
qed

definition asked_deployment :: watch_request where
  "asked_deployment = \<lparr>wq_kind = [], wq_target = [], wq_pr = [], wq_deployment = ''p1'', wq_until = [], wq_task = ''t1''\<rparr>"

lemma deployments_cannot_be_watched_witness:
  "let w = new_world_watcher [] [] (\<lambda>t s. (s, Inr None)) (deployment_snapshot (\<lambda>t. None) (\<lambda>s. []) (\<lambda>u s. (s, Inr (200, ''{}''))) (\<lambda>e. ''no url''))
   in start_watch asked_deployment (Some w) () = (Some w, (), Inl (SnapshotFailed ''no url''))
    \<and> run_watch 3 [(''deployment'', ''p1'')] (Some w) () = (Some w, (), Inl (SnapshotFailed ''no url''))"
proof -
  obtain sp where sp: "watch_spec_from_request asked_deployment = Inr sp" "ws_kind sp = kind_deployment"
  proof -
    have "isl (watch_spec_from_request asked_deployment) = False \<and> map_sum id ws_kind (watch_spec_from_request asked_deployment) = Inr kind_deployment"
      by code_simp
    then show ?thesis using that by (cases "watch_spec_from_request asked_deployment") auto
  qed
  obtain sp' where sp': "infer_watch_spec [(''deployment'', ''p1'')] = Inr sp'" "ws_kind sp' = kind_deployment"
  proof -
    have "map_sum id ws_kind (infer_watch_spec [(''deployment'', ''p1'')]) = Inr kind_deployment"
      by code_simp
    then show ?thesis using that by (cases "infer_watch_spec [(''deployment'', ''p1'')]") auto
  qed
  obtain wd where wd: "watch_window [(''deployment'', ''p1'')] = Inr wd"
    by (auto simp: watch_window_def watch_seconds_def read_seconds_def text_at_def)
  show ?thesis
    using deployments_cannot_be_watched [OF refl sp sp' wd, of "[]" "[]" "\<lambda>t s. (s, Inr None)" "\<lambda>t. None" "\<lambda>s. []"
        "\<lambda>u s. (s, Inr (200, ''{}''))" "\<lambda>e. ''no url''" "()" 3]
    by (simp add: Let_def)
qed

end
