(* ===== verification/Planner_Reply.thy ===== *)
theory Planner_Reply
  imports Completion_Contract Json_Decode
begin

text \<open>
  The reading of a planner's answer (src/prompt.go, from \<open>agentDecisionJSON\<close> on): the JSON object in
  the text, decoded into the fields of a decision, with every plan step made an action.  A decoder
  gets the value its target has and answers \<open>None\<close> for the decoder's type error; a slice decodes each
  element into the one it had.  How Go writes a number it read into an \<open>any\<close> is the argument \<open>num\<close>
  (\<open>None\<close> when the number is out of range).
\<close>

section \<open>The object in the text\<close>

definition str_last_index :: "string \<Rightarrow> string \<Rightarrow> nat option" where
  "str_last_index p s =
    (case str_index (rev p) (rev s) of None \<Rightarrow> None | Some i \<Rightarrow> Some (length s - i - length p))"

definition fence :: string where "fence = ''```''"

definition strip_code_fences :: "string \<Rightarrow> string" where
  "strip_code_fences text =
    (let s = trim text in
     if \<not> prefix fence s then s
     else
       (let s1 = trim (drop (length fence) s);
            s2 = (if 4 \<le> length s1 \<and> equal_fold (take 4 s1) ''json'' then trim (drop 4 s1) else s1);
            s3 = (case str_last_index fence s2 of Some i \<Rightarrow> trim (take i s2) | None \<Rightarrow> s2)
        in trim s3))"

definition extract_json_object :: "string \<Rightarrow> string" where
  "extract_json_object text =
    (let s = strip_code_fences text in
     case (str_index ''{'' s, str_last_index ''}'' s) of
       (Some a, Some b) \<Rightarrow> if b < a then [] else take (Suc b - a) (drop a s)
     | _ \<Rightarrow> [])"

definition normalize_reason_output :: "string \<Rightarrow> string" where
  "normalize_reason_output raw =
    (let j = extract_json_object raw in if j \<noteq> [] then j else strip_code_fences raw)"

section \<open>Decoding\<close>

definition decode_evidence :: "evidence \<Rightarrow> json \<Rightarrow> evidence option" where
  "decode_evidence = decode_struct
    [(''id'', into ev_id ev_id_update decode_string), (''source'', into ev_source ev_source_update decode_string),
     (''reference'', into ev_reference ev_reference_update decode_string), (''fact'', into ev_fact ev_fact_update decode_string)]"

definition zero_evidence :: evidence where "zero_evidence = \<lparr>ev_id = [], ev_source = [], ev_reference = [], ev_fact = []\<rparr>"

definition decode_need :: "need \<Rightarrow> json \<Rightarrow> need option" where
  "decode_need = decode_struct
    [(''type'', into need_type need_type_update decode_string),
     (''description'', into need_description need_description_update decode_string),
     (''options'', into need_options need_options_update (decode_slice decode_string []))]"

definition zero_need :: need where "zero_need = \<lparr>need_type = [], need_description = [], need_options = []\<rparr>"

definition decode_deliverable :: "deliverable \<Rightarrow> json \<Rightarrow> deliverable option" where
  "decode_deliverable = decode_struct
    [(''type'', into dl_type dl_type_update decode_string),
     (''concrete_type'', into dl_concrete_type dl_concrete_type_update decode_string),
     (''detail'', into dl_detail dl_detail_update decode_map)]"

definition zero_deliverable :: deliverable where "zero_deliverable = \<lparr>dl_type = [], dl_concrete_type = [], dl_detail = []\<rparr>"

definition decode_presentation :: "presentation \<Rightarrow> json \<Rightarrow> presentation option" where
  "decode_presentation = decode_struct
    [(''type'', into pr_type pr_type_update decode_string), (''content'', into pr_content pr_content_update decode_string)]"

definition zero_presentation :: presentation where "zero_presentation = \<lparr>pr_type = [], pr_content = []\<rparr>"

record agent_decision =
  aj_goal :: string
  aj_contract :: "json option"
  aj_type :: string
  aj_reason :: string
  aj_evidence :: "evidence list"
  aj_plan :: "json option"
  aj_need :: need
  aj_deliverables :: "deliverable list"
  aj_presentation :: "presentation list"

definition zero_agent_decision :: agent_decision where
  "zero_agent_decision =
    \<lparr>aj_goal = [], aj_contract = None, aj_type = [], aj_reason = [], aj_evidence = [], aj_plan = None,
     aj_need = zero_need, aj_deliverables = [], aj_presentation = []\<rparr>"

definition decode_agent_decision :: "json \<Rightarrow> agent_decision option" where
  "decode_agent_decision = decode_struct
    [(''goal_type'', into aj_goal aj_goal_update decode_string),
     (''completion_contracts'', into aj_contract aj_contract_update decode_raw),
     (''type'', into aj_type aj_type_update decode_string),
     (''reason'', into aj_reason aj_reason_update decode_string),
     (''evidence'', into aj_evidence aj_evidence_update (decode_slice decode_evidence zero_evidence)),
     (''plan'', into aj_plan aj_plan_update decode_raw),
     (''need'', into aj_need aj_need_update decode_need),
     (''deliverable'', into aj_deliverables aj_deliverables_update (decode_slice decode_deliverable zero_deliverable)),
     (''presentation'', into aj_presentation aj_presentation_update (decode_slice decode_presentation zero_presentation))]
    zero_agent_decision"

section \<open>The plan\<close>

record plan_step_json =
  ps_name :: string
  ps_capability :: string
  ps_input :: "json option"
  ps_inputs :: "json option"
  ps_effect :: "json option"
  ps_refs :: "string list"

definition zero_plan_step :: plan_step_json where
  "zero_plan_step = \<lparr>ps_name = [], ps_capability = [], ps_input = None, ps_inputs = None, ps_effect = None, ps_refs = []\<rparr>"

definition decode_plan_step :: "plan_step_json \<Rightarrow> json \<Rightarrow> plan_step_json option" where
  "decode_plan_step = decode_struct
    [(''name'', into ps_name ps_name_update decode_string),
     (''capability'', into ps_capability ps_capability_update decode_string),
     (''input'', into ps_input ps_input_update decode_raw),
     (''inputs'', into ps_inputs ps_inputs_update decode_raw),
     (''expected_effect'', into ps_effect ps_effect_update decode_raw),
     (''evidence_refs'', into ps_refs ps_refs_update (decode_slice decode_string []))]"

definition decode_steps :: "plan_step_json list \<Rightarrow> json \<Rightarrow> plan_step_json list option" where
  "decode_steps = decode_slice decode_plan_step zero_plan_step"

definition parse_plan_steps :: "json option \<Rightarrow> plan_step_json list" where
  "parse_plan_steps raw =
    (if raw_absent raw then []
     else (case decode_steps [] (the raw) of
             Some steps \<Rightarrow> steps
           | None \<Rightarrow> (case decode_struct [(''steps'', decode_steps)] [] (the raw) of Some steps \<Rightarrow> steps | None \<Rightarrow> [])))"

datatype reply_error =
    NoJsonObject
  | NotADecision
  | BadContract parse_error
  | BadStep string plan_input_failure
  | UnknownType string
and plan_input_failure = InputShape | InputEntry string input_error

text \<open>
  A step's inputs: \<open>inputs\<close>, or \<open>input\<close> when it is absent, as a map of entries, each read as one input.
  Go visits the entries in no order of its own, so of several bad ones any may be the one reported.
\<close>

definition plan_inputs :: "plan_step_json \<Rightarrow> plan_input_failure + step_input smap" where
  "plan_inputs st =
    (let raw = (if raw_absent (ps_inputs st) then ps_input st else ps_inputs st) in
     if raw_absent raw then Inr []
     else (case the raw of
             JObj kvs \<Rightarrow>
               map_result (\<lambda>(k, v). case unmarshal_input v of Inl e \<Rightarrow> Inl (InputEntry k e) | Inr i \<Rightarrow> Inr (k, i))
                 (sorted_entries kvs)
           | _ \<Rightarrow> Inl InputShape))"

text \<open>\<open>%q\<close>; a rune outside ASCII is left as it is, as a printable one is.\<close>

definition go_quote_byte :: "char \<Rightarrow> string" where
  "go_quote_byte c =
    (case map_of [(CHR 0x22, CHR 0x22), (CHR 0x5C, CHR 0x5C), (CHR 0x07, CHR ''a''), (CHR 0x08, CHR ''b''), (CHR 0x0C, CHR ''f''),
                  (CHR 0x0A, CHR ''n''), (CHR 0x0D, CHR ''r''), (CHR 0x09, CHR ''t''), (CHR 0x0B, CHR ''v'')] c of
       Some d \<Rightarrow> [CHR 0x5C, d]
     | None \<Rightarrow>
         if of_char c < (32 :: nat) \<or> c = CHR 0x7F
         then [CHR 0x5C, CHR ''x'', hex_digit (of_char c div 16), hex_digit (of_char c mod 16)]
         else [c])"

definition go_quote :: "string \<Rightarrow> string" where
  "go_quote s = [CHR 0x22] @ concat (map go_quote_byte s) @ [CHR 0x22]"

definition plan_step_label :: "plan_step_json \<Rightarrow> string" where
  "plan_step_label st =
    (if trim (ps_name st) \<noteq> [] then go_quote (trim (ps_name st))
     else if trim (ps_capability st) \<noteq> [] then trim (ps_capability st)
     else ''(unnamed)'')"

text \<open>A value read into an \<open>any\<close>: each of its numbers is written again.\<close>

fun renumber :: "(string \<Rightarrow> string option) \<Rightarrow> json \<Rightarrow> json option" where
  "renumber num (JNum n) = map_option JNum (num n)"
| "renumber num (JArr vs) =
    (if list_all (\<lambda>v. v \<noteq> None) (map (renumber num) vs) then Some (JArr (map the (map (renumber num) vs))) else None)"
| "renumber num (JObj kvs) =
    (if list_all (\<lambda>v. v \<noteq> None) (map (\<lambda>(k, v). renumber num v) kvs)
     then Some (JObj (map (\<lambda>(k, v). (k, the (renumber num v))) kvs)) else None)"
| "renumber num v = Some v"

definition step_text :: "(string \<Rightarrow> string option) \<Rightarrow> json option \<Rightarrow> string" where
  "step_text num raw =
    (if raw_absent raw then []
     else (case the raw of
             JStr s \<Rightarrow> s
           | v \<Rightarrow> (case renumber num v of None \<Rightarrow> [] | Some u \<Rightarrow> show_json u)))"

definition step_capability :: "plan_step_json \<Rightarrow> string" where
  "step_capability st = to_lower (trim (ps_capability st))"

definition no_step :: "plan_step_json \<Rightarrow> bool" where
  "no_step st \<longleftrightarrow> step_capability st \<in> {''noop'', ''nothing'', ''none'', []}"

definition plan_action :: "'w factory option \<Rightarrow> (string \<Rightarrow> string option) \<Rightarrow> plan_step_json \<Rightarrow> reply_error + action" where
  "plan_action fac num st =
    (case plan_inputs st of
       Inl e \<Rightarrow> Inl (BadStep (plan_step_label st) e)
     | Inr ins \<Rightarrow>
         Inr (if fac_has fac (step_capability st)
              then CapAction \<lparr>ca_name = step_capability st, ca_step_name = trim (ps_name st), ca_inputs = ins,
                     ca_expected_effect = step_text num (ps_effect st), ca_evidence_refs = ps_refs st\<rparr>
              else NothingAction (''unknown capability '' @ go_quote (step_capability st))))"

definition plan_actions :: "'w factory option \<Rightarrow> (string \<Rightarrow> string option) \<Rightarrow> plan_step_json list \<Rightarrow> reply_error + action list" where
  "plan_actions fac num steps = map_result (plan_action fac num) (filter (\<lambda>st. \<not> no_step st) steps)"

section \<open>The decision\<close>

definition parsed_decision :: "agent_decision \<Rightarrow> criterion list \<Rightarrow> action list \<Rightarrow> decision" where
  "parsed_decision d cs as =
    (let typ = to_lower (trim (aj_type d)) in
     \<lparr>d_type = typ, d_reason = first_non_empty [trim (aj_reason d), typ],
      d_origin = \<lparr>do_reason_turn = 0, do_input_message = 0, do_reply_message = 0\<rparr>,
      d_evidence = aj_evidence d, d_contract = cs, d_actions = as, d_need = aj_need d, d_deliverables = aj_deliverables d,
      d_presentation = aj_presentation d,
      d_ctx = \<lparr>dc_task = None, dc_agent = None, dc_cycle = 0, dc_step_outputs = []\<rparr>\<rparr>)"

definition read_decision :: "'w factory option \<Rightarrow> (string \<Rightarrow> string option) \<Rightarrow> agent_decision \<Rightarrow> reply_error + decision" where
  "read_decision fac num d =
    (let typ = to_lower (trim (aj_type d)) in
     case parse_completion_contract (aj_contract d) of
       Inl e \<Rightarrow> Inl (BadContract e)
     | Inr cs \<Rightarrow>
         if typ = ''plan''
         then (case plan_actions fac num (parse_plan_steps (aj_plan d)) of
                 Inl e \<Rightarrow> Inl e | Inr as \<Rightarrow> Inr (parsed_decision d cs as))
         else if typ \<in> {''done'', ''blocked'', ''need_input''} then Inr (parsed_decision d cs [])
         else Inl (UnknownType (aj_type d)))"

definition parse_decision :: "'w factory option \<Rightarrow> (string \<Rightarrow> string option) \<Rightarrow> string \<Rightarrow> reply_error + decision" where
  "parse_decision fac num text =
    (let raw = extract_json_object text in
     if raw = [] then Inl NoJsonObject
     else (case parse_json raw of
             None \<Rightarrow> Inl NotADecision
           | Some v \<Rightarrow> (case decode_agent_decision v of None \<Rightarrow> Inl NotADecision | Some d \<Rightarrow> read_decision fac num d)))"

end
