(* ===== verification/Planner_Reply_Laws.thy ===== *)
theory Planner_Reply_Laws
  imports Planner_Reply Decision_Rules
begin

text \<open>What the reader makes of a planner's answer: the object between the fences, and the plan in it.\<close>

section \<open>The object between the fences\<close>

definition blank :: "string \<Rightarrow> bool" where
  "blank w \<longleftrightarrow> list_all json_space w"

lemma blank_lead: "json_space c \<Longrightarrow> lead_of spaces (c # s) = Some [c]"
  unfolding json_space_def by (elim disjE) (simp_all add: lead_of_def spaces_def)

lemma blank_trail: "json_space c \<Longrightarrow> lead_of (map rev spaces) (c # s) = Some [c]"
  unfolding json_space_def by (elim disjE) (simp_all add: lead_of_def spaces_def)

lemma trim_left_blank: "blank w \<Longrightarrow> trim_left (w @ s) = trim_left s"
proof (induction w)
  case (Cons c w)
  then show ?case by (simp add: blank_def trim_left_def strip_with.simps [of spaces "c # w @ s"] blank_lead)
qed simp

lemma strip_trail_blank: "list_all json_space w \<Longrightarrow> strip_with (map rev spaces) (w @ s) = strip_with (map rev spaces) s"
proof (induction w)
  case (Cons c w)
  then show ?case by (simp add: strip_with.simps [of "map rev spaces" "c # w @ s"] blank_trail)
qed simp

lemma trim_right_blank: "blank w \<Longrightarrow> trim_right (s @ w) = trim_right s"
  using strip_trail_blank [of "rev w" "rev s"] by (simp add: trim_right_def blank_def)

definition solid :: "char \<Rightarrow> bool" where
  "solid c \<longleftrightarrow> c = CHR ''{'' \<or> c = CHR ''}'' \<or> c = CHR ''`'' \<or> c = CHR ''j'' \<or> c = CHR ''J''"

lemma solid_lead: "solid c \<Longrightarrow> lead_of spaces (c # s) = None"
  unfolding solid_def by (elim disjE) (simp_all add: lead_of_def spaces_def)

lemma solid_trail: "solid c \<Longrightarrow> lead_of (map rev spaces) (c # s) = None"
  unfolding solid_def by (elim disjE) (simp_all add: lead_of_def spaces_def)

lemma trim_solid:
  assumes "blank w" "blank w'" "solid c" "solid d"
  shows "trim (w @ (c # s) @ w') = trim_right (c # s)" "trim (w @ (c # s @ [d]) @ w') = c # s @ [d]"
proof -
  have l: "trim_left (c # t) = c # t" for t by (simp add: trim_left_def strip_with_id solid_lead assms(3))
  show one: "trim (w @ (c # s) @ w') = trim_right (c # s)" for s
    using trim_left_blank [OF assms(1), of "(c # s) @ w'"] trim_right_blank [OF assms(2), of "c # s"] l [of "s @ w'"]
    by (simp add: trim_def)
  have "trim_right (c # s @ [d]) = c # s @ [d]"
    by (simp add: trim_right_def strip_with_id solid_trail assms(4))
  with one [of "s @ [d]"] show "trim (w @ (c # s @ [d]) @ w') = c # s @ [d]" by simp
qed

lemma last_index_end: "p \<noteq> [] \<Longrightarrow> str_last_index p (s @ p) = Some (length s)"
proof -
  assume "p \<noteq> []"
  then have "rev p @ rev s \<noteq> []" by simp
  then obtain c t where "rev p @ rev s = c # t" by (cases "rev p @ rev s") auto
  moreover have "prefix (rev p) (rev p @ rev s)" by simp
  ultimately have "str_index (rev p) (rev p @ rev s) = Some 0" by simp
  then show ?thesis by (simp add: str_last_index_def)
qed

lemma extract_bare:
  assumes "blank w" "blank w'" "ob = CHR ''{'' # m @ ''}''"
  shows "extract_json_object (w @ ob @ w') = ob"
proof -
  have "trim (w @ ob @ w') = ob" using trim_solid(2) [OF assms(1,2), of "CHR ''{''" "CHR ''}''" m] assms(3) by (simp add: solid_def)
  then have "strip_code_fences (w @ ob @ w') = ob" using assms(3) by (simp add: strip_code_fences_def fence_def)
  moreover have "str_index ''{'' ob = Some 0" using assms(3) by simp
  moreover have "str_last_index ''}'' ob = Some (length ob - 1)"
    using last_index_end [of "''}''" "CHR ''{'' # m"] assms(3) by simp
  ultimately show ?thesis using assms(3) by (simp add: extract_json_object_def)
qed

text \<open>
  A decision is found between its fences.  Whatever white space stands around them and with or
  without the word json after the first, an answer that is an object in a code fence gives exactly that
  object, whatever is in it, the same as the object alone.
\<close>

theorem fenced_object_is_found:
  assumes "ob = CHR ''{'' # m @ ''}''" and "blank w0" "blank w1" "blank w2" "blank w3" and "tag = [] \<or> equal_fold tag ''json''"
  shows "extract_json_object (w0 @ fence @ tag @ w1 @ ob @ w2 @ fence @ w3) = ob \<and> extract_json_object ob = ob"
proof -
  let ?inner = "ob @ w2 @ fence"
  have f: "fence = CHR ''`'' # ''`'' @ ''`''" by (simp add: fence_def)
  have s: "trim (w0 @ fence @ tag @ w1 @ ob @ w2 @ fence @ w3) = fence @ tag @ w1 @ ?inner"
    using trim_solid(2) [OF assms(2,5), of "CHR ''`''" "CHR ''`''" "''``'' @ tag @ w1 @ ob @ w2 @ ''``''"]
    by (simp add: solid_def fence_def)
  have inner: "trim (w1 @ ?inner) = ?inner"
    using trim_solid(2) [OF assms(3), of "[]" "CHR ''{''" "CHR ''`''" "m @ ''}'' @ w2 @ ''``''"] assms(1)
    by (simp add: solid_def blank_def fence_def)
  have noj: "\<not> equal_fold (take 4 ?inner) ''json''"
    using assms(1) by (simp add: equal_fold_def to_lower_def lower_char_def ascii_pairs_def)
  have s2: "(let s1 = trim (tag @ w1 @ ?inner) in if 4 \<le> length s1 \<and> equal_fold (take 4 s1) ''json'' then trim (drop 4 s1) else s1) = ?inner"
  proof (cases "tag = []")
    case True
    then show ?thesis using inner noj by simp
  next
    case False
    then have t: "equal_fold tag ''json''" using assms(6) by simp
    then have len: "length tag = 4" by (metis equal_fold_def length_to_lower length_Cons list.size(3) numeral_eq_Suc pred_numeral_simps(2,3) pred_numeral_simps(1) semiring_norm(26,27) BitM.simps)
    then obtain c tag' where tag: "tag = c # tag'" by (cases tag) auto
    have "lower_char c = CHR ''j''" using t tag by (simp add: equal_fold_def to_lower_def lower_char_def ascii_pairs_def)
    then have c: "solid c" by (auto simp: lower_char_def ascii_pairs_def solid_def split: if_splits)
    have "trim (tag @ w1 @ ?inner) = tag @ w1 @ ?inner"
      using trim_solid(2) [of "[]" "[]" c "CHR ''`''" "tag' @ w1 @ ob @ w2 @ ''``''"] c tag
      by (simp add: solid_def blank_def fence_def)
    then show ?thesis using inner t len by simp
  qed
  have cut: "str_last_index fence ?inner = Some (length (ob @ w2))" using last_index_end [of fence "ob @ w2"] by (simp add: fence_def)
  have ob: "trim (ob @ w2) = ob" "trim ob = ob"
    using trim_solid(2) [of "[]" w2 "CHR ''{''" "CHR ''}''" m] trim_solid(2) [of "[]" "[]" "CHR ''{''" "CHR ''}''" m] assms(1,4)
    by (simp_all add: solid_def blank_def)
  have "strip_code_fences (w0 @ fence @ tag @ w1 @ ob @ w2 @ fence @ w3) = ob"
    using s s2 cut ob by (simp add: strip_code_fences_def Let_def)
  moreover have "strip_code_fences ob = ob" using ob(2) assms(1) by (simp add: strip_code_fences_def fence_def)
  ultimately have "extract_json_object (w0 @ fence @ tag @ w1 @ ob @ w2 @ fence @ w3) = extract_json_object ob"
    by (simp add: extract_json_object_def)
  then show ?thesis using extract_bare [of "[]" "[]" ob m] assms(1) by (simp add: blank_def)
qed

section \<open>The decision that is read\<close>





section \<open>An answer\<close>



lemma fenced_object_is_found_witness:
  "extract_json_object (''```json '' @ ''{`}'' @ '' ```'') = ''{`}''"
  using fenced_object_is_found [of "''{`}''" "''`''" "[]" "'' ''" "'' ''" "[]" "''json''"]
  by (simp add: blank_def json_space_def fence_def)

end
