(* ===== verification/Deploy_Agent.thy ===== *)
theory Deploy_Agent
  imports Deploy_Watch
begin

text \<open>
  The observation a monitoring agent judges (src/capability/deployment/agent_observer.go, prompt.go and
  src/capability/broker/agent_broker.go): the prompt, the answer read out of the agent's text, and the
  snapshot it is laid over.  A Go map is an association list here, and its order is the order Go's range
  happens to take.
\<close>

section \<open>The prompt of a worker\<close>

definition worker_frame_placeholders :: "string list" where
  "worker_frame_placeholders =
    [''{{AGENT}}'', ''{{TASK}}'', ''{{CONTEXT_ENTITY}}'', ''{{GOAL_TYPE}}'', ''{{WORLD}}'', ''{{RUNTIME_CONTEXT}}'',
     ''{{COMPLETION_PRINCIPLES}}'', ''{{CONSTRAINTS}}'', ''{{CONSTRUCTS}}'']"

definition frame_missing :: string where "frame_missing = ''(not provided by this runtime)''"

definition render_worker_prompt :: "string \<Rightarrow> string smap \<Rightarrow> string smap \<Rightarrow> string" where
  "render_worker_prompt tmpl own frame =
    (let owes = (\<lambda>k. trim (text_at own k) \<noteq> []);
         a = foldl (\<lambda>out (k, v). if owes k then replace_all out k v else out) tmpl own;
         b = foldl (\<lambda>out (k, v). if owes k \<or> trim v = [] then out else replace_all out k v) a frame
     in foldl (\<lambda>out k. if owes k \<or> trim (text_at frame k) \<noteq> [] then out else replace_all out k frame_missing)
          b worker_frame_placeholders)"

definition render_prompt :: "string \<Rightarrow> string smap \<Rightarrow> string smap \<Rightarrow> string" where
  "render_prompt tmpl own frame =
    render_worker_prompt tmpl (map (\<lambda>(k, v). (k, if trim v = [] then ''(none)'' else v)) own) frame"

text \<open>
  A value is replaced into the text the other values are then looked for in, so the prompt depends on
  the order the map is ranged over.
\<close>

lemma prompt_depends_on_the_order:
  "let own = [(''{{A}}'', ''{{B}}''), (''{{B}}'', ''x'')] in
   render_worker_prompt ''{{A}}'' own [] = ''x'' \<and> render_worker_prompt ''{{A}}'' (rev own) [] = ''{{B}}''"
proof -
  have "trim ''{{B}}'' = ''{{B}}''" "trim ''x'' = ''x''" by code_simp+
  then show ?thesis
    by (simp add: render_worker_prompt_def replace_all_def text_at_def worker_frame_placeholders_def Let_def)
qed

section \<open>The answer of the agent\<close>

record agent_answer =
  an_state :: string
  an_phase :: string
  an_progress :: string
  an_healthy :: "bool option"
  an_message :: string
  an_error :: string
  an_problem :: "bool option"
  an_signals :: "string list"
  an_diagnosis :: string
  an_suggestions :: "string list"
  an_logs :: "string list"

definition zero_answer :: agent_answer where
  "zero_answer =
    \<lparr>an_state = [], an_phase = [], an_progress = [], an_healthy = None, an_message = [], an_error = [], an_problem = None,
     an_signals = [], an_diagnosis = [], an_suggestions = [], an_logs = []\<rparr>"

definition answer_fields :: "(string \<times> (agent_answer \<Rightarrow> json \<Rightarrow> agent_answer option)) list" where
  "answer_fields =
    [(''state'', into an_state an_state_update decode_string), (''phase'', into an_phase an_phase_update decode_string),
     (''progress'', into an_progress an_progress_update decode_string),
     (''healthy'', into an_healthy an_healthy_update decode_flag),
     (''message'', into an_message an_message_update decode_string), (''error'', into an_error an_error_update decode_string),
     (''problem'', into an_problem an_problem_update decode_flag),
     (''signals'', into an_signals an_signals_update (decode_slice decode_string [])),
     (''diagnosis'', into an_diagnosis an_diagnosis_update decode_string),
     (''suggestions'', into an_suggestions an_suggestions_update (decode_slice decode_string [])),
     (''logs'', into an_logs an_logs_update (decode_slice decode_string []))]"

definition answer_empty :: "agent_answer \<Rightarrow> bool" where
  "answer_empty a \<longleftrightarrow> trim (an_state a) = [] \<and> trim (an_message a) = [] \<and> trim (an_diagnosis a) = [] \<and> an_logs a = []"

text \<open>\<open>json.Decoder\<close> reads one value and leaves what follows it.\<close>

definition decode_agent_answer :: "string \<Rightarrow> agent_answer option" where
  "decode_agent_answer text =
    (case read_value (2 * length text + 2) json_depth text of
       None \<Rightarrow> None
     | Some (v, _) \<Rightarrow>
         (case decode_struct answer_fields zero_answer v of
            None \<Rightarrow> None
          | Some a \<Rightarrow> if answer_empty a then None else Some a))"

definition back_quotes :: string where "back_quotes = ''```''"

definition fenced_block :: "string \<Rightarrow> string option" where
  "fenced_block text =
    (case str_index back_quotes text of
       None \<Rightarrow> None
     | Some i \<Rightarrow>
         (let rest = drop (i + 3) text;
              body = (case str_index newline rest of
                        None \<Rightarrow> rest
                      | Some n \<Rightarrow> (let info = trim (take n rest) in
                                   if info = [] \<or> equal_fold info ''json'' then drop (n + 1) rest else rest))
          in case str_index back_quotes body of
               None \<Rightarrow> None
             | Some e \<Rightarrow> if trim (take e body) = [] then None else Some (trim (take e body))))"

definition parse_agent_answer :: "string \<Rightarrow> agent_answer option" where
  "parse_agent_answer answer =
    (case (case fenced_block answer of None \<Rightarrow> None | Some body \<Rightarrow> decode_agent_answer body) of
       Some a \<Rightarrow> Some a
     | None \<Rightarrow> (case str_index ''{'' answer of None \<Rightarrow> None | Some i \<Rightarrow> decode_agent_answer (drop i answer)))"

definition over :: "string \<Rightarrow> string \<Rightarrow> string" where
  "over v old = (if trim v \<noteq> [] then trim v else old)"

definition apply_answer :: "string \<Rightarrow> agent_answer \<Rightarrow> snapshot \<Rightarrow> monitor_request \<Rightarrow> snapshot" where
  "apply_answer addr a base rq =
    (let said = normalize_state (trim (an_state a)) in
     base
      \<lparr>sn_state := (if trim (an_state a) \<noteq> [] \<and> said \<noteq> Unknown then said else sn_state base),
       sn_phase := over (an_phase a) (sn_phase base),
       sn_progress := over (an_progress a) (sn_progress base),
       sn_healthy := (case an_healthy a of None \<Rightarrow> sn_healthy base | Some b \<Rightarrow> Some (addr, b)),
       sn_message := over (an_message a) (sn_message base),
       sn_error := over (an_error a) (sn_error base),
       sn_logs := (if first_lines [an_logs a] \<noteq> [] then tail_lines (an_logs a) (rq_tail rq) else sn_logs base),
       sn_agent_problem := an_problem a,
       sn_agent_signals := an_signals a,
       sn_agent_diagnosis := trim (an_diagnosis a),
       sn_agent_suggestions := an_suggestions a\<rparr>)"

definition derived_status_url :: "monitor_request \<Rightarrow> string" where
  "derived_status_url rq = (case status_url_for rq of Inl e \<Rightarrow> [] | Inr u \<Rightarrow> u)"

definition derived_logs_url :: "monitor_request \<Rightarrow> string" where
  "derived_logs_url rq = (let u = derived_status_url rq in if u = [] then [] else cut_slashes u @ ''/logs'')"

definition unreadable_note :: string where
  "unreadable_note = ''the monitoring agent's answer was not the expected JSON; reported the raw observation instead''"

text \<open>
  The agent observer over the reader \<open>base\<close>.  \<open>tmpl\<close> is the prompt file; \<open>acquire\<close> opens a session and
  answers its frame, \<open>say\<close> prompts it and \<open>release\<close> lets it go, on every way out.
\<close>

record 's worker_door =
  wd_template :: "string + string"
  wd_acquire :: "monitor_request \<Rightarrow> 's \<Rightarrow> 's \<times> (string + string smap)"
  wd_say :: "string \<Rightarrow> 's \<Rightarrow> 's \<times> (string + string)"
  wd_release :: "'s \<Rightarrow> 's"

definition agent_prompt ::
  "(int \<Rightarrow> string) \<Rightarrow> (monitor_error \<Rightarrow> string) \<Rightarrow> string \<Rightarrow> string smap \<Rightarrow> monitor_request \<Rightarrow> (monitor_error + snapshot)
     \<Rightarrow> string \<Rightarrow> string" where
  "agent_prompt st_full er tmpl frame rq raw timeline =
    render_prompt tmpl
      [(''{{DEPLOYMENT}}'', rq_deployment rq),
       (''{{ENDPOINT}}'', rq_endpoint rq),
       (''{{STATUS_URL}}'', first_trimmed [rq_status_url rq, derived_status_url rq]),
       (''{{LOGS_URL}}'', first_trimmed [rq_logs_url rq, derived_logs_url rq]),
       (''{{TAIL}}'', show_int (rq_tail rq)),
       (''{{OBSERVATION}}'',
        (case raw of
           Inl e \<Rightarrow> render_observation st_full er rq zero_snapshot (Some e) timeline
         | Inr sn \<Rightarrow> render_observation st_full er rq sn None timeline))]
      frame"

definition agent_reading :: "string \<Rightarrow> monitor_request \<Rightarrow> (monitor_error + snapshot) \<Rightarrow> string \<Rightarrow> monitor_error + snapshot" where
  "agent_reading addr rq raw answer =
    (case parse_agent_answer answer of
       None \<Rightarrow>
         (case raw of Inl e \<Rightarrow> Inl (RawFailed e) | Inr sn \<Rightarrow> Inr (sn\<lparr>sn_agent_note := unreadable_note\<rparr>))
     | Some a \<Rightarrow> Inr (apply_answer addr a (case raw of Inl e \<Rightarrow> zero_snapshot | Inr sn \<Rightarrow> sn) rq))"

definition agent_observe ::
  "(int \<Rightarrow> string) \<Rightarrow> (monitor_error \<Rightarrow> string) \<Rightarrow> ('s \<Rightarrow> string) \<Rightarrow> 's observer \<Rightarrow> 's worker_door \<Rightarrow> 's history_observer" where
  "agent_observe st_full er addr base w rq timeline s =
    (case wd_template w of
       Inl e \<Rightarrow> (s, Inl (TemplateFailed e))
     | Inr tmpl \<Rightarrow>
         (case base rq s of (s1, raw) \<Rightarrow>
            (case wd_acquire w rq s1 of
               (s2, Inl e) \<Rightarrow> (s2, Inl (AcquireFailed e))
             | (s2, Inr frame) \<Rightarrow>
                 (case wd_say w (agent_prompt st_full er tmpl frame rq raw timeline) s2 of
                    (s3, Inl e) \<Rightarrow> (wd_release w s3, Inl (AgentFailed e))
                  | (s3, Inr answer) \<Rightarrow> (wd_release w s3, agent_reading (addr s3) rq raw answer)))))"

text \<open>\<open>Monitor.observer\<close>: the host's observer, or the agent over the reader, or the reader alone.\<close>

definition monitor_observer ::
  "'s judge option \<Rightarrow> 's history_observer option \<Rightarrow> 's observer \<Rightarrow> 's polling" where
  "monitor_observer host agent reader =
    (case host of
       Some j \<Rightarrow> \<lparr>pl_poll = j, pl_judge = None\<rparr>
     | None \<Rightarrow>
         (case agent of
            Some g \<Rightarrow> \<lparr>pl_poll = Plain reader, pl_judge = Some (WithHistory g)\<rparr>
          | None \<Rightarrow> \<lparr>pl_poll = Plain reader, pl_judge = None\<rparr>))"

end
