(* ===== verification/Deploy_Laws.thy ===== *)
theory Deploy_Laws
  imports Deploy_Agent
begin

text \<open>
  What the deployment monitor promises: a call polls a bounded number of times and asks its agent at
  most once, the trail is the newest changes of what the polls saw, the verdict is the facts and the
  fingerprints of the snapshot, and the evidence is bounded and keeps the line the verdict rests on.
\<close>

section \<open>The window of a call\<close>









section \<open>One question to the agent\<close>

lemma watch_polls_keeps:
  assumes "\<And>s. asked (fst (ask_judge (pl_poll p) rq s)) = asked s"
    and "\<And>s. asked (fst (clock s)) = asked s" and "\<And>s. asked (fst (nap s)) = asked s"
  shows "asked (snd (watch_polls clock nap p rq deadline n lp s)) = asked s"
proof (induction n arbitrary: lp s)
  have step: "asked (snd (snd (poll_step clock p rq lp s))) = asked s" for lp s
    using assms(1) [of s] assms(2) [of "fst (ask_judge (pl_poll p) rq s)"]
    by (auto simp: poll_step_def Let_def split: prod.splits sum.splits)
  {
    case 0
    show ?case using step [of lp s] by (subst watch_polls.simps) (auto split: prod.splits bool.splits)
  next
    case (Suc n)
    obtain b lp1 s1 where ps: "poll_step clock p rq lp s = (b, lp1, s1)" by (cases "poll_step clock p rq lp s") auto
    obtain s2 now where c: "clock s1 = (s2, now)" by fastforce
    obtain s3 cut where z: "nap s2 = (s3, cut)" by fastforce
    have "asked s1 = asked s" "asked s2 = asked s1" "asked s3 = asked s2"
      using step [of lp s] assms(2) [of s1] assms(3) [of s2] ps c z by simp_all
    then show ?case using ps c z Suc.IH [of lp1 s3]
      by (subst watch_polls.simps) (auto split: bool.splits)
  }
qed

text \<open>
  A monitor that delegates asks its agent at most once per call, however often it polls, and exactly
  once when the call has an observation to report.
\<close>
theorem agent_asked_once:
  assumes "\<And>s. asked (fst (reader rq s)) = asked s" and "\<And>s. asked (fst (clock s)) = asked s"
    and "\<And>d s. asked (fst (nap d s)) = asked s" and "\<And>text s. asked (fst (agent rq text s)) = Suc (asked s)"
    and "observe st clock nap (monitor_observer None (Some agent) reader) rq s = (s', n, r)"
  shows "asked s' \<le> Suc (asked s) \<and> ((\<exists>sn. r = Inr sn) \<longrightarrow> asked s' = Suc (asked s))"
proof (cases "rq_watch rq")
  case False
  with assms(4) [of "[]" s] assms(5) show ?thesis
    by (auto simp: observe_def monitor_observer_def polling_observation_def split: prod.splits)
next
  case True
  let ?p = "monitor_observer None (Some agent) reader"
  obtain s1 start where c: "clock s = (s1, start)" by fastforce
  obtain lp s2 where w: "watch_polls clock (nap (poll_interval rq)) ?p rq (start + poll_timeout rq) (max_polls rq - 1) new_loop s1 = (lp, s2)"
    by fastforce
  have "asked s2 = asked s1"
    using watch_polls_keeps [of asked ?p rq clock "nap (poll_interval rq)" "start + poll_timeout rq" "max_polls rq - 1" new_loop s1]
      assms(1-3) w by (simp add: monitor_observer_def)
  moreover have "asked s1 = asked s" using assms(2) [of s] c by simp
  ultimately show ?thesis using assms(4,5) True c w
    by (auto simp: observe_def monitor_observer_def polling_observation_def split: prod.splits option.splits)
       (metis fst_conv le_refl)+
qed

section \<open>The trail of a watch\<close>

text \<open>The reference: every change of what the polls saw, oldest first, with no bound.\<close>

definition trail_entry :: "snapshot \<Rightarrow> int \<Rightarrow> int \<Rightarrow> trail_change" where
  "trail_entry sn tail now =
    (let d = diagnose sn now tail in
     \<lparr>tc_snapshot = sn, tc_signals = dg_signals d,
      tc_evidence = (if dg_problem d then last_lines (sn_logs sn) trail_evidence_lines else [])\<rparr>)"

definition seen_key :: "snapshot \<Rightarrow> int \<Rightarrow> int \<Rightarrow> string" where
  "seen_key sn tail now = trail_key sn (dg_signals (diagnose sn now tail))"

fun change_log :: "int \<Rightarrow> string \<Rightarrow> (snapshot \<times> int) list \<Rightarrow> trail_change list" where
  "change_log tail key [] = []"
| "change_log tail key ((sn, now) # r) =
    (if seen_key sn tail now = key then change_log tail key r
     else trail_entry sn tail now # change_log tail (seen_key sn tail now) r)"

definition observe_all :: "int \<Rightarrow> (snapshot \<times> int) list \<Rightarrow> poll_trail \<Rightarrow> poll_trail" where
  "observe_all tail seen t = foldl (\<lambda>t (sn, now). trail_observe sn tail now t) t seen"

lemma trail_observe_cases:
  "trail_observe sn tail now t =
    (if seen_key sn tail now = tr_last t then t\<lparr>tr_polls := Suc (tr_polls t)\<rparr>
     else t\<lparr>tr_polls := Suc (tr_polls t), tr_last := seen_key sn tail now,
            tr_changes := drop (Suc (length (tr_changes t)) - trail_max_changes)
              (tr_changes t @ [trail_entry sn tail now]),
            tr_dropped := tr_dropped t + (if length (tr_changes t) < trail_max_changes then 0 else 1)\<rparr>)"
  if "length (tr_changes t) \<le> trail_max_changes"
  proof (cases "length (tr_changes t) = 24")
  case True
  then show ?thesis by (auto simp: trail_observe_def seen_key_def trail_entry_def Let_def trail_max_changes_def)
next
  case False
  with that have "length (tr_changes t) < 24" by (simp add: trail_max_changes_def)
  then show ?thesis by (auto simp: trail_observe_def seen_key_def trail_entry_def Let_def trail_max_changes_def)
qed

lemma observe_all_from:
  assumes "tr_changes t = drop (length full - trail_max_changes) full" and "tr_dropped t = length full - trail_max_changes"
  shows "tr_changes (observe_all tail seen t) =
           drop (length (full @ change_log tail (tr_last t) seen) - trail_max_changes) (full @ change_log tail (tr_last t) seen)
       \<and> tr_dropped (observe_all tail seen t) = length (full @ change_log tail (tr_last t) seen) - trail_max_changes
       \<and> tr_polls (observe_all tail seen t) = tr_polls t + length seen"
  using assms
proof (induction seen arbitrary: t full)
  case Nil
  then show ?case by (simp add: observe_all_def)
next
  case (Cons x seen)
  obtain sn now where x: "x = (sn, now)" by fastforce
  have short: "length (tr_changes t) \<le> trail_max_changes" using Cons.prems(1) by simp
  let ?t = "trail_observe sn tail now t"
  have all: "observe_all tail ((sn, now) # seen) t = observe_all tail seen ?t" by (simp add: observe_all_def)
  show ?case
  proof (cases "seen_key sn tail now = tr_last t")
    case True
    with Cons.IH [of ?t full] Cons.prems show ?thesis
      by (simp add: all x trail_observe_cases [OF short])
  next
    case False
    let ?full = "full @ [trail_entry sn tail now]"
    have "tr_changes ?t = drop (length ?full - trail_max_changes) ?full"
      using False Cons.prems(1)
      by (cases "length full < trail_max_changes") (auto simp: trail_observe_cases [OF short] Suc_diff_le)
    moreover have "tr_dropped ?t = length ?full - trail_max_changes"
      using False Cons.prems by (auto simp: trail_observe_cases [OF short])
    ultimately show ?thesis using Cons.IH [of ?t ?full] False
      by (simp add: all x trail_observe_cases [OF short])
  qed
qed

text \<open>
  C27: The bounded trail of a watch is the reference without a bound, cut to its newest 24 changes:
  after any polls it holds the last 24 changes of what they saw, in order, and counts the others.
\<close>
theorem trail_is_the_newest_changes:
  "let t = observe_all tail seen new_trail; full = change_log tail [] seen in
   tr_changes t = drop (length full - trail_max_changes) full \<and> tr_dropped t = length full - trail_max_changes
   \<and> tr_polls t = length seen"
  using observe_all_from [of new_trail "[]" tail seen] by (simp add: new_trail_def Let_def)

section \<open>A pointer in the key\<close>

definition with_health :: "snapshot \<Rightarrow> bool \<Rightarrow> string \<Rightarrow> snapshot" where
  "with_health sn b addr = sn\<lparr>sn_healthy := Some (addr, b)\<rparr>"

lemma split_at_zero:
  assumes "a @ CHR 0x00 # x = b @ CHR 0x00 # y" "CHR 0x00 \<notin> set a" "CHR 0x00 \<notin> set b"
  shows "a = b"
  using str_index_fresh [of "CHR 0x00" a "[]" x] str_index_fresh [of "CHR 0x00" b "[]" y] assms
  by (metis append_Cons append_Nil append_eq_append_conv option.inject)

lemma health_key:
  "seen_key (with_health sn h a) tail now =
     (state_name (snap_state sn) @ CHR 0x00 # sn_phase sn @ CHR 0x00 # sn_progress sn @ CHR 0x00 # sn_message sn @ [CHR 0x00])
     @ a @ CHR 0x00 # str_join '','' (dg_signals (diagnose (with_health sn h a) now tail))"
  by (simp add: seen_key_def trail_key_def with_health_def snap_state_def)

lemma health_keys_differ:
  assumes "a \<noteq> b" "CHR 0x00 \<notin> set a" "CHR 0x00 \<notin> set b"
  shows "seen_key (with_health sn h a) tail now \<noteq> seen_key (with_health sn h b) tail now'"
  using assms split_at_zero by (auto simp: health_key simp del: append_assoc)

text \<open>
  The trail compares the health of two polls by the pointer it is kept behind: a deployment that
  reports its health has every poll recorded as a change, although nothing but the address of the
  decoded bool differs, so 24 polls push every real change out.
\<close>
theorem same_health_counts_as_change:
  assumes "distinct (map fst polls)" and "\<And>addr. addr \<in> fst ` set polls \<Longrightarrow> CHR 0x00 \<notin> set addr"
  shows "length (change_log tail [] (map (\<lambda>(addr, now). (with_health sn h addr, now)) polls)) = length polls"
proof -
  have first: "seen_key (with_health sn h a) tail now \<noteq> []" for a now
    by (simp add: seen_key_def trail_key_def)
  have "length (change_log tail key (map (\<lambda>(addr, now). (with_health sn h addr, now)) polls)) = length polls"
    if "\<And>addr now. addr \<in> fst ` set polls \<Longrightarrow> seen_key (with_health sn h addr) tail now \<noteq> key" for key
    using assms that
  proof (induction polls arbitrary: key)
    case Nil
    then show ?case by simp
  next
    case (Cons x polls)
    obtain a now where x: "x = (a, now)" by fastforce
    have "seen_key (with_health sn h addr) tail t \<noteq> seen_key (with_health sn h a) tail now"
      if "addr \<in> fst ` set polls" for addr t
      by (rule health_keys_differ) (use that Cons.prems(1,2) x in auto)
    then show ?case using Cons.IH [of "seen_key (with_health sn h a) tail now"] Cons.prems x by auto
  qed
  then show ?thesis using first by blast
qed

section \<open>The verdict\<close>

lemma add_suggestion_keeps [simp]:
  "dg_signals (add_suggestion s d) = dg_signals d" "dg_problem (add_suggestion s d) = dg_problem d"
  "dg_evidence (add_suggestion s d) = dg_evidence d" "dg_summary (add_suggestion s d) = dg_summary d"
  by (simp_all add: add_suggestion_def)

lemma add_signal_some [simp]: "dg_signals (add_signal n d) \<noteq> []"
  by (auto simp: add_signal_def)

lemma add_rules_signals: "dg_signals (foldl add_rule d rs) = [] \<longleftrightarrow> dg_signals d = [] \<and> rs = []"
  by (induction rs arbitrary: d) (auto simp: add_rule_def)

lemma read_lines_signals:
  "dg_signals (fst (read_lines i ls (d, at))) = [] \<longleftrightarrow> dg_signals d = [] \<and> (\<forall>l\<in>set ls. match_rules l = [])"
  by (induction ls arbitrary: i d at) (auto simp: add_rules_signals)

lemma keep_suggestions [simp]:
  "dg_signals (foldl (\<lambda>d s. add_suggestion (trim s) d) d ss) = dg_signals d"
  "dg_problem (foldl (\<lambda>d s. add_suggestion (trim s) d) d ss) = dg_problem d"
  by (induction ss arbitrary: d) auto

definition stalled :: "snapshot \<Rightarrow> int \<Rightarrow> bool" where
  "stalled sn now \<longleftrightarrow> snap_state sn \<in> {Running, Pending} \<and> (\<exists>t. sn_updated sn = Some t \<and> now - t > stall_after)"

definition unhealthy :: "snapshot \<Rightarrow> bool" where
  "unhealthy sn \<longleftrightarrow> (\<exists>addr. sn_healthy sn = Some (addr, False))"

lemma structural_signals:
  "dg_signals (structural sn now no_diagnosis) = [] \<longleftrightarrow> snap_state sn \<noteq> Failed \<and> \<not> stalled sn now \<and> \<not> unhealthy sn"
  by (auto simp: structural_def stalled_def unhealthy_def no_diagnosis_def Let_def split: deploy_state.splits option.splits)

lemma diagnose_signals: "dg_signals (diagnose sn now tail) = dg_signals (fst (judgement sn (structural sn now no_diagnosis)))"
  by (auto simp: diagnose_def Let_def split: prod.splits)

lemma diagnose_problem:
  "dg_problem (diagnose sn now tail) = (case sn_agent_problem sn of Some b \<Rightarrow> b | None \<Rightarrow> dg_signals (diagnose sn now tail) \<noteq> [])"
  by (auto simp: diagnose_def Let_def split: prod.splits option.splits)

text \<open>
  Without an agent's judgement, a snapshot is a problem exactly when the deployment failed, is
  unhealthy or has stalled, or a fingerprint speaks from a log line or the error while the outcome is
  open or failed; so the recovered errors in the log of a deployment that succeeded are no problem.
\<close>
theorem problem_iff:
  assumes "\<not> agent_judged sn"
  shows "dg_problem (diagnose sn now tail) \<longleftrightarrow>
    snap_state sn = Failed \<or> stalled sn now \<or> unhealthy sn
    \<or> (snap_state sn \<noteq> Succeeded \<and> (\<exists>l\<in>set (sn_logs sn) \<union> {sn_error sn}. match_rules l \<noteq> []))"
proof -
  let ?d = "structural sn now no_diagnosis"
  have "dg_signals (fst (judgement sn ?d)) = [] \<longleftrightarrow>
      dg_signals ?d = [] \<and> (snap_state sn \<noteq> Succeeded \<longrightarrow> (\<forall>l\<in>set (sn_logs sn) \<union> {sn_error sn}. match_rules l = []))"
  proof (cases "snap_state sn = Succeeded")
    case True
    with assms show ?thesis by (simp add: judgement_def)
  next
    case False
    obtain d' at where r: "read_lines 0 (sn_logs sn) (?d, None) = (d', at)" by fastforce
    with assms False read_lines_signals [of 0 "sn_logs sn" ?d None] show ?thesis
      by (auto simp: judgement_def add_rules_signals)
  qed
  moreover have "sn_agent_problem sn = None" using assms by (simp add: agent_judged_def)
  ultimately show ?thesis by (auto simp: diagnose_problem diagnose_signals structural_signals)
qed

section \<open>The evidence\<close>

lemma str_join_append: "xs \<noteq> [] \<Longrightarrow> ys \<noteq> [] \<Longrightarrow> str_join sep (xs @ ys) = str_join sep xs @ sep @ str_join sep ys"
proof (induction xs rule: induct_list012)
  case (3 x y zs)
  then show ?case by simp
qed (auto simp: neq_Nil_conv)

lemma str_join_suffix: "suffix [x] ls \<Longrightarrow> suffix x (str_join sep ls)"
proof -
  assume "suffix [x] ls"
  then obtain ys where "ls = ys @ [x]" by (auto simp: suffix_def)
  then show ?thesis by (cases "ys = []") (auto simp: str_join_append suffix_def)
qed

lemma clip_window_suffix: "suffix (clip_window ls) ls \<and> (ls \<noteq> [] \<longrightarrow> clip_window ls \<noteq> [])"
  by (induction ls rule: clip_window.induct) (auto intro: suffix_ConsI)

lemma clip_window_last: "suffix [x] ls \<Longrightarrow> suffix [x] (clip_window ls)"
proof -
  assume "suffix [x] ls"
  then have "ls \<noteq> []" "last ls = x" by (auto simp: suffix_def)
  with clip_window_suffix [of ls] have "clip_window ls \<noteq> []" "last (clip_window ls) = x"
    by (simp, metis last_appendR suffix_def)
  then show ?thesis by (metis append_butlast_last_id suffix_def)
qed

lemma window_last:
  assumes "i < length logs"
  shows "suffix [logs ! i] (evidence_window logs (Some i) tail)"
proof -
  let ?n = "nat (if tail \<le> 0 then default_tail else tail)"
  have "0 < ?n" by (simp add: default_tail_def)
  then have "drop (Suc i - ?n) (take (Suc i) logs) = drop (Suc i - ?n) (take i logs) @ [logs ! i]"
    using assms by (simp add: take_Suc_conv_app_nth)
  then show ?thesis by (simp add: evidence_window_def suffix_def)
qed

lemma suffix_of_suffix: "suffix a t \<Longrightarrow> suffix (drop (length a - n) a) (drop (length t - n) t)"
  by (auto simp: suffix_def drop_append)

lemma read_lines_found: "snd (read_lines k ls (d, Some m)) = Some m"
  by (induction ls arbitrary: k d) auto

lemma read_lines_at:
  assumes "i < length ls" "match_rules (ls ! i) \<noteq> []" "\<And>j. j < i \<Longrightarrow> match_rules (ls ! j) = []"
  shows "snd (read_lines k ls (d, None)) = Some (k + i)"
  using assms
proof (induction ls arbitrary: i k d)
  case Nil
  then show ?case by simp
next
  case (Cons l ls)
  show ?case
  proof (cases i)
    case 0
    with Cons.prems show ?thesis by (simp add: read_lines_found)
  next
    case (Suc m)
    have "match_rules l = []" using Cons.prems(3) [of 0] Suc by simp
    moreover have "\<And>j. j < m \<Longrightarrow> match_rules (ls ! j) = []" using Cons.prems(3) [of "Suc _"] Suc by auto
    ultimately show ?thesis using Cons.IH [of m "Suc k" d] Cons.prems(1,2) Suc by simp
  qed
qed

lemma evidence_at:
  assumes "i < length logs"
  shows "length (evidence_text logs (Some i) tail) \<le> 4000
    \<and> suffix (drop (length (logs ! i) - 4000) (logs ! i)) (evidence_text logs (Some i) tail)"
proof -
  let ?t = "str_join newline (clip_window (evidence_window logs (Some i) tail))"
  have "suffix (logs ! i) ?t" by (intro str_join_suffix clip_window_last window_last assms)
  moreover have "evidence_text logs (Some i) tail = drop (length ?t - 4000) ?t"
    using assms by (auto simp: evidence_text_def max_evidence_chars_def Let_def)
  ultimately show ?thesis using suffix_of_suffix [of "logs ! i" ?t 4000] by simp
qed

lemma diagnose_evidence:
  "dg_evidence (diagnose sn now tail) =
     evidence_text (sn_logs sn) (snd (judgement sn (structural sn now no_diagnosis))) tail"
  by (auto simp: diagnose_def Let_def split: prod.splits)

text \<open>
  The evidence of a diagnosis that rests on a log line is at most 4000 bytes and ends with the first
  line a fingerprint matched, cut to its last 4000 bytes: however long the log is and however much
  follows it, the line the verdict rests on is in the evidence.
\<close>
theorem evidence_keeps_the_line:
  assumes "\<not> agent_judged sn" and "snap_state sn \<noteq> Succeeded" and "i < length (sn_logs sn)"
    and "match_rules (sn_logs sn ! i) \<noteq> []" and "\<And>j. j < i \<Longrightarrow> match_rules (sn_logs sn ! j) = []"
  shows "length (dg_evidence (diagnose sn now tail)) \<le> 4000
    \<and> suffix (drop (length (sn_logs sn ! i) - 4000) (sn_logs sn ! i)) (dg_evidence (diagnose sn now tail))"
proof -
  have "snd (judgement sn d) = Some i" for d
    using assms(1,2) read_lines_at [OF assms(3-5), of 0 d] by (auto simp: judgement_def split: prod.splits)
  then show ?thesis using evidence_at [OF assms(3)] by (simp add: diagnose_evidence)
qed

section \<open>A verdict against its own facts\<close>

text \<open>
  An agent that answers that a failed deployment is no problem leaves the fact among the signals and adds
  the suggestion that no failure signal was observed.
\<close>

lemma failed_without_a_signal:
  assumes "snap_state sn = Failed" "sn_agent_problem sn = Some False"
  shows "''deployment_failed'' \<in> set (dg_signals (diagnose sn now tail))
    \<and> ''the deployment finished with no failure signal in the observed output'' \<in> set (dg_suggestions (diagnose sn now tail))"
proof -
  have keep: "n \<in> set (dg_signals d) \<Longrightarrow> n \<in> set (dg_signals (add_signal m d))" for n m d
    by (simp add: add_signal_def)
  have "''deployment_failed'' \<in> set (dg_signals (structural sn now no_diagnosis))"
    using assms(1) by (auto simp: structural_def Let_def add_signal_def no_diagnosis_def)
  moreover have "n \<in> set (dg_signals d) \<Longrightarrow>
      n \<in> set (dg_signals (foldl (\<lambda>d s. if trim s \<noteq> [] then add_signal (trim s) d else d) d ss))" for n d ss
    by (induction ss arbitrary: d) (auto intro: keep)
  ultimately have "''deployment_failed'' \<in> set (dg_signals (diagnose sn now tail))"
    using assms(2) by (simp add: diagnose_signals judgement_def agent_judged_def)
  moreover have "''the deployment finished with no failure signal in the observed output'' \<in> set (dg_suggestions (diagnose sn now tail))"
    using assms by (auto simp: diagnose_def Let_def terminal_state_def add_suggestion_def split: prod.splits)
  ultimately show ?thesis by simp
qed

section \<open>Samples\<close>

definition sample_request :: monitor_request where
  "sample_request =
    \<lparr>rq_deployment = ''d1'', rq_endpoint = default_api_url, rq_status_url = [], rq_poll = [], rq_logs_url = [], rq_tail = default_tail,
     rq_watch = True, rq_interval = 5 * second, rq_timeout = 5 * second, rq_task = []\<rparr>"



definition sample_reader :: "nat observer" where
  "sample_reader rq s = (s, Inr (zero_snapshot\<lparr>sn_state := Succeeded\<rparr>))"



lemma agent_asked_once_witness:
  "fst (observe (\<lambda>t. []) (\<lambda>s. (s, 0)) (\<lambda>d s. (s, False))
     (monitor_observer None (Some (\<lambda>rq text s. (Suc s, Inr zero_snapshot))) sample_reader) sample_request (0 :: nat)) = 1"
proof -
  obtain s' n r where o: "observe (\<lambda>t. []) (\<lambda>s. (s, 0)) (\<lambda>d s. (s, False))
     (monitor_observer None (Some (\<lambda>rq text s. (Suc s, Inr zero_snapshot))) sample_reader) sample_request (0 :: nat) = (s', n, r)"
    by (metis prod_cases3)
  have "\<exists>sn. r = Inr sn"
    using o by (auto simp: observe_def sample_request_def watch_polls.simps poll_step_def sample_reader_def snap_state_def
        shown_state_def terminal_state_def new_loop_def polling_observation_def monitor_observer_def Let_def)
  with agent_asked_once [where asked = "\<lambda>s. s", OF _ _ _ _ o] o show ?thesis by (auto simp: sample_reader_def)
qed

lemma same_health_counts_as_change_witness:
  "length (change_log 40 [] (map (\<lambda>(addr, now). (with_health zero_snapshot True addr, now)) [(''0xc000'', 0), (''0xc008'', 5)])) = 2"
proof -
  have "length (change_log 40 [] (map (\<lambda>(addr, now). (with_health zero_snapshot True addr, now)) [(''0xc000'', 0), (''0xc008'', 5)]))
      = length [(''0xc000'', 0 :: int), (''0xc008'', 5)]"
    by (rule same_health_counts_as_change) auto
  then show ?thesis by simp
qed

definition sample_failing :: snapshot where
  "sample_failing = zero_snapshot\<lparr>sn_state := Running, sn_logs := [''starting'', ''pod OOMKilled'', ''restarting'']\<rparr>"

lemma sample_rules: "match_rules ''starting'' = []" "match_rules ''pod OOMKilled'' \<noteq> []"
  by code_simp+

lemma problem_iff_witness: "dg_problem (diagnose sample_failing 0 40)"
  using problem_iff [of sample_failing 0 40] sample_rules
  by (simp add: sample_failing_def zero_snapshot_def agent_judged_def snap_state_def shown_state_def)

lemma evidence_keeps_the_line_witness: "suffix ''pod OOMKilled'' (dg_evidence (diagnose sample_failing 0 40))"
proof -
  have e: "\<not> agent_judged sample_failing" "snap_state sample_failing \<noteq> Succeeded" "1 < length (sn_logs sample_failing)"
    "match_rules (sn_logs sample_failing ! 1) \<noteq> []"
    using sample_rules by (simp_all add: sample_failing_def zero_snapshot_def agent_judged_def snap_state_def shown_state_def)
  have "match_rules (sn_logs sample_failing ! j) = []" if "j < 1" for j
    using that sample_rules by (simp add: sample_failing_def)
  from evidence_keeps_the_line [OF e this, of 0 40] show ?thesis by (simp add: sample_failing_def)
qed

end
