(* ===== verification/Pull_Request.thy ===== *)
theory Pull_Request
  imports Go_Text Json_Decode Go_Json "HOL-Library.AList"
begin

text \<open>
  The pull request capabilities (src/capability/software_development/): the reference a caller names a
  pull request by, the reader of one pull request with its reviews (pull_request_review.go), the check
  the verification asks (pr_check.go) and the credential (github_credential.go).  GitHub's API is the
  argument \<open>fetch\<close>, from a URL and a token to an error or a status code and a body, acting on the state
  \<open>'s\<close> outside; the GitHub App and the \<open>gh\<close> command are arguments too.
\<close>

section \<open>Naming a pull request\<close>

record pull_ref =
  pf_repo :: string
  pf_number :: int

definition no_ref :: pull_ref where "no_ref = \<lparr>pf_repo = [], pf_number = 0\<rparr>"

definition repo_segments :: "string \<Rightarrow> string" where
  "repo_segments s =
    (case split_on slash (trim_slashes s) of
       a # b # _ \<Rightarrow> if a = [] \<or> b = [] then [] else a @ slash # b
     | _ \<Rightarrow> [])"

definition pull_repo_name :: "string \<Rightarrow> string" where
  "pull_repo_name raw =
    (let s = trim_suffix ''.git'' (trim raw) in
     if s = [] then []
     else (case str_index ''://'' s of
             Some i \<Rightarrow>
               (let r = drop (i + 3) s in
                case str_index [slash] r of Some j \<Rightarrow> repo_segments (drop (j + 1) r) | None \<Rightarrow> [])
           | None \<Rightarrow>
               (case str_index ''@'' s of
                  Some i \<Rightarrow> repo_segments (after_any '':/'' (trim_prefix [slash] (drop (i + 1) s)))
                | None \<Rightarrow> repo_segments s)))"

definition repo_from_prefix :: "string \<Rightarrow> string" where
  "repo_from_prefix p =
    (if contains p ''://'' \<or> contains p ''@'' then pull_repo_name p
     else (case split_on slash (trim_slashes p) of
             [a, b] \<Rightarrow> if a = [] \<or> b = [] then [] else a @ slash # b
           | _ \<Rightarrow> []))"

definition is_digit :: "char \<Rightarrow> bool" where
  "is_digit c \<longleftrightarrow> digit_value c \<noteq> None"

definition pull_number_of :: "string \<Rightarrow> int option" where
  "pull_number_of raw =
    (let s = trim raw in
     if s = [] \<or> \<not> list_all is_digit s then None
     else (case atoi s of None \<Rightarrow> None | Some n \<Rightarrow> if n \<le> 0 then None else Some n))"

definition pull_word :: string where "pull_word = ''/pull''"

definition parse_pull_reference :: "string \<Rightarrow> string + pull_ref" where
  "parse_pull_reference raw =
    (let s = trim raw in
     if s = [] then Inr no_ref
     else
       (case str_index pull_word (to_lower s) of
          Some i \<Rightarrow>
            (let repo = repo_from_prefix (take i s);
                 rest = drop_slashes (trim_prefix ''s'' (drop (i + length pull_word) s))
             in case pull_number_of (before_any ''?#/'' rest) of
                  None \<Rightarrow> Inl s
                | Some n \<Rightarrow> if repo = [] then Inl s else Inr \<lparr>pf_repo = repo, pf_number = n\<rparr>)
        | None \<Rightarrow>
            (case (if contains s ''/'' then None else pull_number_of (trim_prefix ''#'' s)) of
               Some n \<Rightarrow> Inr \<lparr>pf_repo = [], pf_number = n\<rparr>
             | None \<Rightarrow>
                 (case last_index CHR ''#'' s of
                    None \<Rightarrow> Inl s
                  | Some j \<Rightarrow>
                      if j = 0 then Inl s
                      else (case pull_number_of (drop (j + 1) s) of
                              None \<Rightarrow> Inl s
                            | Some n \<Rightarrow>
                                (let repo = repo_from_prefix (take j s)
                                 in if repo = [] then Inl s else Inr \<lparr>pf_repo = repo, pf_number = n\<rparr>))))))"

section \<open>What GitHub answers\<close>

record git_hub_pull =
  gp_number :: int
  gp_url :: string
  gp_title :: string
  gp_state :: string
  gp_draft :: bool
  gp_merged :: bool
  gp_head :: string
  gp_head_sha :: string
  gp_base :: string

definition zero_pull :: git_hub_pull where
  "zero_pull = \<lparr>gp_number = 0, gp_url = [], gp_title = [], gp_state = [], gp_draft = False, gp_merged = False,
                gp_head = [], gp_head_sha = [], gp_base = []\<rparr>"

definition pull_fields :: "(string \<times> (git_hub_pull \<Rightarrow> json \<Rightarrow> git_hub_pull option)) list" where
  "pull_fields =
    [(''number'', into gp_number gp_number_update decode_int), (''html_url'', into gp_url gp_url_update decode_string),
     (''title'', into gp_title gp_title_update decode_string), (''state'', into gp_state gp_state_update decode_string),
     (''draft'', into gp_draft gp_draft_update decode_bool), (''merged'', into gp_merged gp_merged_update decode_bool),
     (''head'', decode_struct [(''ref'', into gp_head gp_head_update decode_string),
                              (''sha'', into gp_head_sha gp_head_sha_update decode_string)]),
     (''base'', decode_struct [(''ref'', into gp_base gp_base_update decode_string)])]"

record git_hub_review =
  gr_id :: int
  gr_login :: string
  gr_state :: string
  gr_body :: string
  gr_submitted :: string
  gr_url :: string

definition zero_review :: git_hub_review where
  "zero_review = \<lparr>gr_id = 0, gr_login = [], gr_state = [], gr_body = [], gr_submitted = [], gr_url = []\<rparr>"

definition review_fields :: "(string \<times> (git_hub_review \<Rightarrow> json \<Rightarrow> git_hub_review option)) list" where
  "review_fields =
    [(''id'', into gr_id gr_id_update decode_int),
     (''user'', decode_struct [(''login'', into gr_login gr_login_update decode_string)]),
     (''state'', into gr_state gr_state_update decode_string), (''body'', into gr_body gr_body_update decode_string),
     (''submitted_at'', into gr_submitted gr_submitted_update decode_string), (''html_url'', into gr_url gr_url_update decode_string)]"

section \<open>Errors\<close>

datatype pull_error =
    BadReference string
  | MissingFrom
  | MissingPull
  | RepoConflict string string
  | MissingRepo
  | AppError string
  | NoCredential
  | ClientError string
  | NotFound string int
  | NoOpenPull string string string
  | HttpFailed string nat string
  | Undecodable string
  | OtherHead git_hub_pull string
  | OtherBase git_hub_pull string

definition body_snippet :: "string \<Rightarrow> string" where
  "body_snippet body =
    (let text = str_join '' '' (go_fields (trim body)) in
     if text = [] then ''no response body''
     else if length text > 200 then take 200 text @ [CHR 0xE2, CHR 0x80, CHR 0xA6] else text)"

definition git_hub_error :: "nat \<Rightarrow> string \<Rightarrow> string \<Rightarrow> pull_error" where
  "git_hub_error status body what =
    (let msg = (case parse_json body of
                  None \<Rightarrow> []
                | Some v \<Rightarrow> (case decode_struct [(''message'', decode_string)] [] v of None \<Rightarrow> [] | Some m \<Rightarrow> trim m))
     in HttpFailed what status (if msg = [] then body_snippet body else msg))"

definition git_hub_expect :: "nat \<Rightarrow> string \<Rightarrow> string \<Rightarrow> pull_error option" where
  "git_hub_expect status body what =
    (if 200 \<le> status \<and> status \<le> 299 then None else Some (git_hub_error status body what))"

text \<open>The text of the errors reading one pull request can give; what the JSON decoder says is left out.\<close>

fun pull_error_text :: "pull_error \<Rightarrow> string" where
  "pull_error_text (ClientError e) = e"
| "pull_error_text (NotFound repo n) = ''not_found: '' @ repo @ '' has no pull request #'' @ show_int n"
| "pull_error_text (HttpFailed what status msg) = what @ '': HTTP '' @ show_nat status @ '': '' @ msg"
| "pull_error_text (Undecodable what) = ''decode '' @ what"
| "pull_error_text e = []"

definition is_git_hub_not_found :: "pull_error \<Rightarrow> bool" where
  "is_git_hub_not_found e \<longleftrightarrow> contains (pull_error_text e) ''not_found:'' \<or> contains (pull_error_text e) ''HTTP 404''"

section \<open>The reader\<close>

type_synonym 's git_hub = "string \<Rightarrow> string \<Rightarrow> 's \<Rightarrow> 's \<times> (string + nat \<times> string)"

definition review_max_body :: nat where "review_max_body = 1048576"

definition review_request :: "'s git_hub \<Rightarrow> string \<Rightarrow> string \<Rightarrow> 's \<Rightarrow> 's \<times> (pull_error + nat \<times> string)" where
  "review_request fetch url token s =
    (case fetch url token s of
       (s', Inl e) \<Rightarrow> (s', Inl (ClientError e)) | (s', Inr (st, body)) \<Rightarrow> (s', Inr (st, take review_max_body body)))"

definition pull_endpoint :: "string \<Rightarrow> string \<Rightarrow> int \<Rightarrow> string" where
  "pull_endpoint api repo n = api @ ''/repos/'' @ repo @ ''/pulls/'' @ show_int n"

definition get_pull_request :: "'s git_hub \<Rightarrow> string \<Rightarrow> string \<Rightarrow> string \<Rightarrow> int \<Rightarrow> 's \<Rightarrow> 's \<times> (pull_error + git_hub_pull)" where
  "get_pull_request fetch api repo token n s =
    (case review_request fetch (pull_endpoint api repo n) token s of
       (s', Inl e) \<Rightarrow> (s', Inl e)
     | (s', Inr (status, body)) \<Rightarrow>
         (s', if status = 404 then Inl (NotFound repo n)
              else (case git_hub_expect status body (''read pull request '' @ repo @ ''#'' @ show_int n) of
                      Some e \<Rightarrow> Inl e
                    | None \<Rightarrow>
                        (case parse_json body of
                           None \<Rightarrow> Inl (Undecodable ''pull request'')
                         | Some v \<Rightarrow>
                             (case decode_struct pull_fields zero_pull v of
                                None \<Rightarrow> Inl (Undecodable ''pull request'') | Some p \<Rightarrow> Inr p)))))"

text \<open>\<open>url.QueryEscape\<close>; \<open>Values.Encode\<close> sorts the keys.\<close>

definition query_escape :: "string \<Rightarrow> string" where
  "query_escape s =
    concat (map (\<lambda>c. if c \<in> set ''abcdefghijklmnopqrstuvwxyzABCDEFGHIJKLMNOPQRSTUVWXYZ0123456789-_.~'' then [c]
                     else if c = CHR '' '' then ''+''
                     else [CHR ''%'', ''0123456789ABCDEF'' ! (of_char c div 16), ''0123456789ABCDEF'' ! (of_char c mod 16)]) s)"

definition encode_query :: "(string \<times> string) list \<Rightarrow> string" where
  "encode_query q = str_join ''&'' (map (\<lambda>(k, v). query_escape k @ ''='' @ query_escape v) q)"

definition head_param :: "string \<Rightarrow> string \<Rightarrow> string" where
  "head_param repo head =
    (if contains head '':'' then head
     else (case str_index [slash] repo of
             Some i \<Rightarrow> (if i > 0 then take i repo else repo) | None \<Rightarrow> repo) @ '':'' @ head)"

definition find_pull_request :: "'s git_hub \<Rightarrow> string \<Rightarrow> string \<Rightarrow> string \<Rightarrow> string \<Rightarrow> string \<Rightarrow> 's \<Rightarrow> 's \<times> (pull_error + git_hub_pull)" where
  "find_pull_request fetch api repo token from to s =
    (let q = [(''base'', to), (''direction'', ''desc''), (''head'', head_param repo from), (''per_page'', ''10''),
              (''sort'', ''created''), (''state'', ''open'')]
     in case review_request fetch (api @ ''/repos/'' @ repo @ ''/pulls?'' @ encode_query q) token s of
          (s', Inl e) \<Rightarrow> (s', Inl e)
        | (s', Inr (status, body)) \<Rightarrow>
            (s', case git_hub_expect status body (''list pull requests '' @ from @ [CHR '' '', CHR 0xE2, CHR 0x86, CHR 0x92, CHR '' ''] @ to) of
                   Some e \<Rightarrow> Inl e
                 | None \<Rightarrow>
                     (case parse_json body of
                        None \<Rightarrow> Inl (Undecodable ''pull request list'')
                      | Some v \<Rightarrow>
                          (case decode_slice (decode_struct pull_fields) zero_pull [] v of
                             None \<Rightarrow> Inl (Undecodable ''pull request list'')
                           | Some [] \<Rightarrow> Inl (NoOpenPull repo from to)
                           | Some (p # _) \<Rightarrow> Inr p))))"

definition list_reviews :: "'s git_hub \<Rightarrow> string \<Rightarrow> string \<Rightarrow> string \<Rightarrow> int \<Rightarrow> 's \<Rightarrow> 's \<times> (pull_error + git_hub_review list)" where
  "list_reviews fetch api repo token n s =
    (case review_request fetch (pull_endpoint api repo n @ ''/reviews?per_page=100'') token s of
       (s', Inl e) \<Rightarrow> (s', Inl e)
     | (s', Inr (status, body)) \<Rightarrow>
         (s', case git_hub_expect status body (''list reviews for '' @ repo @ ''#'' @ show_int n) of
                Some e \<Rightarrow> Inl e
              | None \<Rightarrow>
                  (case parse_json body of
                     None \<Rightarrow> Inl (Undecodable ''reviews'')
                   | Some v \<Rightarrow>
                       (case decode_slice (decode_struct review_fields) zero_review [] v of
                          None \<Rightarrow> Inl (Undecodable ''reviews'') | Some rs \<Rightarrow> Inr rs))))"

text \<open>The environment the capabilities read.\<close>

record pull_env =
  pe_base_branch :: string
  pe_repository :: string
  pe_git_repo_url :: string
  pe_github_token :: string
  pe_gh_token :: string
  pe_api_url :: string

definition resolve_base :: "'s git_hub \<Rightarrow> pull_env \<Rightarrow> string \<Rightarrow> string \<Rightarrow> string \<Rightarrow> string \<Rightarrow> 's \<Rightarrow> 's \<times> string" where
  "resolve_base fetch env api repo token requested s =
    (if trim requested \<noteq> [] then (s, trim requested)
     else if trim (pe_base_branch env) \<noteq> [] then (s, trim (pe_base_branch env))
     else (case review_request fetch (api @ ''/repos/'' @ repo) token s of
             (s', Inl e) \<Rightarrow> (s', ''main'')
           | (s', Inr (status, body)) \<Rightarrow>
               (s', if 200 \<le> status \<and> status \<le> 299
                    then (case parse_json body of
                            None \<Rightarrow> ''main''
                          | Some v \<Rightarrow>
                              (case decode_struct [(''full_name'', into fst apfst decode_string), (''default_branch'', into snd apsnd decode_string)] ([], []) v of
                                 None \<Rightarrow> ''main'' | Some (_, def) \<Rightarrow> if trim def \<noteq> [] then trim def else ''main''))
                    else ''main'')))"

definition identify_pull ::
  "'s git_hub \<Rightarrow> pull_env \<Rightarrow> string \<Rightarrow> string \<Rightarrow> string \<Rightarrow> pull_ref \<Rightarrow> string \<Rightarrow> string \<Rightarrow> 's \<Rightarrow> 's \<times> (pull_error + git_hub_pull \<times> string)" where
  "identify_pull fetch env api repo token named from requested s =
    (if pf_number named > 0
     then (case get_pull_request fetch api repo token (pf_number named) s of
             (s', Inl e) \<Rightarrow> (s', Inl e)
           | (s', Inr pr) \<Rightarrow>
               (s', if from \<noteq> [] \<and> from \<noteq> gp_head pr then Inl (OtherHead pr from)
                    else if trim requested \<noteq> [] \<and> trim requested \<noteq> gp_base pr then Inl (OtherBase pr (trim requested))
                    else Inr (pr, gp_base pr)))
     else (case resolve_base fetch env api repo token requested s of
             (s1, to) \<Rightarrow>
               (case find_pull_request fetch api repo token from to s1 of
                  (s2, Inl e) \<Rightarrow> (s2, Inl e) | (s2, Inr pr) \<Rightarrow> (s2, Inr (pr, to)))))"

section \<open>The credential\<close>

text \<open>
  \<open>app\<close> is the GitHub App: what its configuration says (\<open>Inl\<close> an error, \<open>Inr None\<close> not configured), or how a
  token is minted for a repository.  \<open>gh\<close> is the function of the \<open>gh\<close> command.
\<close>

record 's pull_reader =
  rd_api_url :: string
  rd_token :: string
  rd_repo :: string
  rd_env :: pull_env
  rd_app :: "string + (string \<Rightarrow> 's \<Rightarrow> 's \<times> (string + string)) option"
  rd_gh :: "'s \<Rightarrow> 's \<times> (string + string)"
  rd_fetch :: "'s git_hub"

definition credential :: "'s pull_reader \<Rightarrow> string \<Rightarrow> 's \<Rightarrow> 's \<times> string" where
  "credential c explicit s =
    (if trim explicit \<noteq> [] then (s, trim explicit)
     else if trim (pe_github_token (rd_env c)) \<noteq> [] then (s, trim (pe_github_token (rd_env c)))
     else if trim (pe_gh_token (rd_env c)) \<noteq> [] then (s, trim (pe_gh_token (rd_env c)))
     else (case rd_gh c s of (s', Inl e) \<Rightarrow> (s', []) | (s', Inr t) \<Rightarrow> (s', trim t)))"

definition token_for_repo :: "'s pull_reader \<Rightarrow> string \<Rightarrow> 's \<Rightarrow> 's \<times> (pull_error + string)" where
  "token_for_repo c repo s =
    (if trim (rd_token c) \<noteq> [] then (s, Inr (trim (rd_token c)))
     else (case rd_app c of
             Inl e \<Rightarrow> (s, Inl (AppError e))
           | Inr (Some mint) \<Rightarrow>
               (case mint repo s of (s', Inl e) \<Rightarrow> (s', Inl (AppError e)) | (s', Inr t) \<Rightarrow> (s', Inr t))
           | Inr None \<Rightarrow> (case credential c [] s of (s', t) \<Rightarrow> (s', Inr t))))"

text \<open>The repository of a call: the one the reference names, or the input's, or the environment's.\<close>

definition call_repo :: "'s pull_reader \<Rightarrow> string smap \<Rightarrow> pull_ref \<Rightarrow> pull_error + string" where
  "call_repo c inp named =
    (let given = pull_repo_name (first_trimmed [text_at inp ''repo'', text_at inp ''repository'', rd_repo c]) in
     if pf_repo named \<noteq> [] \<and> given \<noteq> [] \<and> \<not> equal_fold given (pf_repo named) then Inl (RepoConflict (pf_repo named) given)
     else
       (let r = (if pf_repo named \<noteq> [] then pf_repo named else given);
            r' = (if r = [] then pull_repo_name (first_trimmed [pe_repository (rd_env c), pe_git_repo_url (rd_env c)]) else r)
        in if r' = [] then Inl MissingRepo else Inr r'))"

definition api_base :: "'s pull_reader \<Rightarrow> string" where
  "api_base c = cut_slashes (trim (first_trimmed [rd_api_url c, pe_api_url (rd_env c), ''https://api.github.com'']))"

definition named_pull :: "string smap \<Rightarrow> string + pull_ref" where
  "named_pull inp = parse_pull_reference (first_trimmed [text_at inp ''pr'', text_at inp ''pr_url'', text_at inp ''pull_request''])"

section \<open>The reviews\<close>

definition review_state :: "string \<Rightarrow> string" where
  "review_state raw =
    (let s = to_lower (trim raw) in
     if s \<in> {''approved'', ''changes_requested'', ''commented'', ''dismissed'', ''pending''} then s else ''commented'')"

record review_opinion =
  ro_author :: string
  ro_state :: string
  ro_body :: string
  ro_submitted :: string
  ro_url :: string

definition review_opinions :: "git_hub_review list \<Rightarrow> review_opinion list" where
  "review_opinions = map (\<lambda>r. \<lparr>ro_author = gr_login r, ro_state = review_state (gr_state r), ro_body = trim (gr_body r),
                                ro_submitted = gr_submitted r, ro_url = gr_url r\<rparr>)"

definition json_field :: "string \<Rightarrow> string \<Rightarrow> string" where
  "json_field k v = quote_string k @ '':'' @ quote_string v"

definition opinion_json :: "review_opinion \<Rightarrow> string" where
  "opinion_json o' =
    ''{'' @ str_join '',''
      ([json_field ''author'' (ro_author o'), json_field ''state'' (ro_state o'), json_field ''body'' (ro_body o')]
       @ (if ro_submitted o' \<noteq> [] then [json_field ''submitted_at'' (ro_submitted o')] else [])
       @ (if ro_url o' \<noteq> [] then [json_field ''url'' (ro_url o')] else [])) @ ''}''"

text \<open>The states in the order they first appear, and how often each was given.\<close>

fun states_in_order :: "string list \<Rightarrow> string list \<Rightarrow> string list" where
  "states_in_order seen [] = seen"
| "states_in_order seen (x # xs) = states_in_order (if x \<in> set seen then seen else seen @ [x]) xs"

definition review_summary :: "git_hub_review list \<Rightarrow> string" where
  "review_summary rs =
    (if rs = [] then ''no reviews yet''
     else (let sts = map (\<lambda>r. review_state (gr_state r)) rs
           in str_join '', '' (map (\<lambda>st. show_nat (count_list sts st) @ '' '' @ st) (states_in_order [] sts))))"

section \<open>The capabilities\<close>

definition opened_call :: "'s pull_reader \<Rightarrow> string smap \<Rightarrow> pull_ref \<Rightarrow> 's \<Rightarrow> 's \<times> (pull_error + string \<times> string)" where
  "opened_call c inp named s =
    (case call_repo c inp named of
       Inl e \<Rightarrow> (s, Inl e)
     | Inr repo \<Rightarrow>
         (case token_for_repo c repo s of
            (s', Inl e) \<Rightarrow> (s', Inl e)
          | (s', Inr token) \<Rightarrow> (s', if token = [] then Inl NoCredential else Inr (repo, token))))"

definition run_review :: "'s pull_reader \<Rightarrow> string smap \<Rightarrow> 's \<Rightarrow> 's \<times> (pull_error + string smap)" where
  "run_review c inp s =
    (case named_pull inp of
       Inl raw \<Rightarrow> (s, Inl (BadReference raw))
     | Inr named \<Rightarrow>
         (let from = trim (first_trimmed (map (text_at inp) [''from'', ''from_branch'', ''head'', ''source''])) in
          if pf_number named = 0 \<and> from = [] then (s, Inl MissingFrom)
          else
            (case opened_call c inp named s of
               (s1, Inl e) \<Rightarrow> (s1, Inl e)
             | (s1, Inr (repo, token)) \<Rightarrow>
                 (case identify_pull (rd_fetch c) (rd_env c) (api_base c) repo token named from
                         (first_trimmed (map (text_at inp) [''to'', ''to_branch'', ''base'', ''target''])) s1 of
                    (s2, Inl e) \<Rightarrow> (s2, Inl e)
                  | (s2, Inr (pr, _)) \<Rightarrow>
                      (case list_reviews (rd_fetch c) (api_base c) repo token (gp_number pr) s2 of
                         (s3, Inl e) \<Rightarrow> (s3, Inl e)
                       | (s3, Inr reviews) \<Rightarrow>
                           (s3, Inr [(''from'', gp_head pr), (''to'', gp_base pr), (''number'', show_int (gp_number pr)),
                                     (''pr'', gp_url pr), (''title'', gp_title pr), (''state'', gp_state pr),
                                     (''draft'', show_bool (gp_draft pr)), (''merged'', ''false''),
                                     (''requires_human_approval'', ''true''),
                                     (''reviews'', ''['' @ str_join '','' (map opinion_json (review_opinions reviews)) @ '']''),
                                     (''reviews_count'', show_nat (length reviews)), (''review_summary'', review_summary reviews)]))))))"

text \<open>The names of the outputs the two capabilities declare.\<close>

definition review_outputs :: "string list" where
  "review_outputs =
    [''from'', ''to'', ''number'', ''pr'', ''title'', ''state'', ''draft'', ''merged'', ''requires_human_approval'', ''reviews'',
     ''reviews_count'', ''review_summary'']"

definition pr_check_outputs :: "string list" where
  "pr_check_outputs = [''exists'', ''valid'', ''state'', ''draft'', ''merged'', ''number'', ''pr'', ''title'', ''repo'']"

definition run_pr_check :: "'s pull_reader \<Rightarrow> string smap \<Rightarrow> 's \<Rightarrow> 's \<times> (pull_error + string smap)" where
  "run_pr_check c inp s =
    (case named_pull inp of
       Inl raw \<Rightarrow> (s, Inl (BadReference raw))
     | Inr named \<Rightarrow>
         (if pf_number named = 0 then (s, Inl MissingPull)
          else
            (case opened_call c inp named s of
               (s1, Inl e) \<Rightarrow> (s1, Inl e)
             | (s1, Inr (repo, token)) \<Rightarrow>
                 (case get_pull_request (rd_fetch c) (api_base c) repo token (pf_number named) s1 of
                    (s2, Inl e) \<Rightarrow>
                      (s2, if is_git_hub_not_found e
                           then Inr [(''exists'', ''false''), (''valid'', ''false''), (''repo'', repo)] else Inl e)
                  | (s2, Inr pr) \<Rightarrow>
                      (s2, Inr [(''exists'', ''true''), (''valid'', ''true''), (''state'', gp_state pr), (''draft'', show_bool (gp_draft pr)),
                                (''merged'', show_bool (gp_merged pr)), (''number'', show_int (gp_number pr)), (''pr'', gp_url pr),
                                (''title'', gp_title pr), (''repo'', repo)])))))"

end
