(* ===== verification/Pull_Laws.thy ===== *)
theory Pull_Laws
  imports Pull_Request
begin

text \<open>
  The reference of a pull request is read back from its URL, except where a name in it begins with
  \<open>pull\<close>; a check answers what the host says of the pull request it was asked about, except where an
  error text mentions a missing one.
\<close>

section \<open>Reading a URL\<close>

definition pull_char :: "char \<Rightarrow> bool" where
  "pull_char c \<longleftrightarrow> c \<in> set ''abcdefghijklmnopqrstuvwxyzABCDEFGHIJKLMNOPQRSTUVWXYZ0123456789-_.''"

definition pull_url :: "string \<Rightarrow> string \<Rightarrow> string \<Rightarrow> string \<Rightarrow> string" where
  "pull_url host owner name tail = ''https://'' @ host @ slash # owner @ slash # name @ pull_word @ tail"

definition plain_segment :: "string \<Rightarrow> bool" where
  "plain_segment x \<longleftrightarrow> x \<noteq> [] \<and> list_all pull_char x"

definition pull_like :: "string \<Rightarrow> bool" where
  "pull_like x \<longleftrightarrow> prefix ''pull'' (to_lower x)"

lemma slash_char: "slash = CHR ''/''"
  by (simp add: slash_def)

lemma pull_char_facts:
  assumes "pull_char c"
  shows "c \<noteq> slash" "c \<noteq> CHR '':''" "c \<noteq> CHR ''@''" "lower_char c \<noteq> slash" "plain_byte c"
proof -
  have "list_all (\<lambda>c. c \<noteq> slash \<and> c \<noteq> CHR '':'' \<and> c \<noteq> CHR ''@'' \<and> lower_char c \<noteq> slash \<and> plain_byte c)
    ''abcdefghijklmnopqrstuvwxyzABCDEFGHIJKLMNOPQRSTUVWXYZ0123456789-_.''"
    by code_simp
  with assms have "c \<noteq> slash \<and> c \<noteq> CHR '':'' \<and> c \<noteq> CHR ''@'' \<and> lower_char c \<noteq> slash \<and> plain_byte c"
    unfolding pull_char_def list_all_iff by blast
  then show "c \<noteq> slash" "c \<noteq> CHR '':''" "c \<noteq> CHR ''@''" "lower_char c \<noteq> slash" "plain_byte c" by simp_all
qed

lemma plain_segment_slash:
  assumes "plain_segment x"
  shows "slash \<notin> set x" "slash \<notin> set (to_lower x)"
proof -
  have "c \<noteq> slash \<and> lower_char c \<noteq> slash" if "c \<in> set x" for c
    using assms that pull_char_facts(1,4) [of c] by (simp add: plain_segment_def list_all_iff)
  then show "slash \<notin> set x" "slash \<notin> set (to_lower x)" unfolding to_lower_def by fastforce+
qed

lemma str_index_skip: "c \<notin> set a \<Longrightarrow> str_index (c # p) (a @ s) = map_option ((+) (length a)) (str_index (c # p) s)"
proof (induction a)
  case Nil
  then show ?case by (simp add: option.map_ident)
next
  case (Cons x a)
  then show ?case by (cases "str_index (c # p) s") auto
qed

lemma segment_not_pull:
  assumes "slash \<notin> set x" "\<not> prefix ''pull'' x"
  shows "\<not> prefix ''pull'' (x @ slash # y)"
  using assms
  by (cases x; cases "tl x"; cases "tl (tl x)"; cases "tl (tl (tl x))") (auto simp: slash_def)

lemma pull_word_unfold: "pull_word = slash # ''pull''"
  by (simp add: pull_word_def slash_def)

lemma index_after_segment:
  assumes "slash \<notin> set x" "\<not> prefix ''pull'' x"
  shows "str_index pull_word (slash # x @ slash # y) = map_option ((+) (Suc (length x))) (str_index pull_word (slash # y))"
proof -
  have "\<not> prefix pull_word (slash # x @ slash # y)"
    using segment_not_pull [OF assms, of y] by (simp add: pull_word_unfold)
  then show ?thesis
    using str_index_skip [OF assms(1), of "''pull''" "slash # y"]
    by (simp add: pull_word_unfold option.map_comp comp_def)
qed

text \<open>Where the word is first found in a URL, by the first name that begins with it.\<close>

lemma to_lower_append: "to_lower (a @ b) = to_lower a @ to_lower b"
  by (simp add: to_lower_def)

lemma to_lower_slash: "to_lower (slash # a) = slash # to_lower a"
  by (simp add: to_lower_def slash_def lower_char_def ascii_pairs_def)

lemma to_lower_pull: "to_lower pull_word = pull_word" and to_lower_scheme: "to_lower ''https:'' = ''https:''"
  by code_simp+

lemma url_index:
  assumes "slash \<notin> set x" "\<not> pull_like x"
  shows "str_index pull_word (to_lower (slash # x @ slash # y)) = map_option ((+) (Suc (length x))) (str_index pull_word (to_lower (slash # y)))"
proof -
  have "lower_char c \<noteq> slash" if "c \<noteq> slash" for c
  proof
    assume "lower_char c = slash"
    then have "(c, slash) \<in> set ascii_pairs"
      using that by (auto simp: lower_char_def split: option.splits dest: map_of_SomeD)
    moreover have "slash \<notin> snd ` set ascii_pairs" by code_simp
    ultimately show False by force
  qed
  then have "slash \<notin> set (to_lower x)" using assms(1) unfolding to_lower_def set_map by (metis (no_types) image_iff)
  with index_after_segment [of "to_lower x" "to_lower y"] assms(2) show ?thesis
    by (simp add: to_lower_append to_lower_slash pull_like_def)
qed

lemma url_index_here: "pull_like x \<Longrightarrow> str_index pull_word (to_lower (slash # x @ y)) = Some 0"
  by (auto simp: pull_like_def to_lower_append to_lower_slash pull_word_unfold prefix_def)

lemma url_index_start:
  "str_index pull_word (to_lower (''https://'' @ y)) = map_option ((+) 7) (str_index pull_word (to_lower (slash # y)))"
proof -
  have "''https://'' @ y = ''https:'' @ slash # [] @ slash # y" by (simp add: slash_def)
  then have "to_lower (''https://'' @ y) = ''https:'' @ to_lower (slash # [] @ slash # y)"
    by (metis to_lower_append to_lower_scheme)
  moreover have "slash \<notin> set ''https:''" by (simp add: slash_def)
  ultimately show ?thesis
    using str_index_skip [of slash "''https:''" "''pull''" "to_lower (slash # [] @ slash # y)"] url_index [of "[]" y]
    by (cases "str_index pull_word (to_lower (slash # y))") (simp_all add: pull_word_unfold pull_like_def)
qed

section \<open>The repository and the number\<close>

lemma plain_no_edges: "plain_byte c \<Longrightarrow> plain_byte d \<Longrightarrow> trim (c # s @ [d]) = c # s @ [d]"
  by (intro trim_id) (simp_all add: no_lead_space_def no_trail_space_def plain_byte_lead)

lemma repo_segments_name: "slash \<notin> set a \<Longrightarrow> a \<noteq> [] \<Longrightarrow> slash \<notin> set b \<Longrightarrow> b \<noteq> [] \<Longrightarrow> repo_segments (a @ slash # b) = a @ slash # b"
proof -
  assume a: "slash \<notin> set a" "a \<noteq> []" and b: "slash \<notin> set b" "b \<noteq> []"
  obtain x xs where ax: "a = x # xs" using a(2) by (cases a) auto
  obtain y ys where by': "b = ys @ [y]" using b(2) by (cases b rule: rev_cases) auto
  have "trim_slashes (a @ slash # b) = a @ slash # b"
  proof -
    have "x \<noteq> slash" "y \<noteq> slash" using a(1) b(1) ax by' by auto
    then show ?thesis by (simp add: trim_slashes_def ax by')
  qed
  then show ?thesis using a b by (simp add: repo_segments_def split_on_append split_on_fresh)
qed

lemma repo_segments_one: "slash \<notin> set a \<Longrightarrow> repo_segments a = []"
proof -
  assume a: "slash \<notin> set a"
  have "slash \<notin> set (trim_slashes a)"
    using a by (auto simp: trim_slashes_def dest!: set_dropWhileD)
  then show ?thesis by (simp add: repo_segments_def split_on_fresh)
qed

text \<open>The text before the word, when it is the scheme, the host and \<open>r\<close>.\<close>

lemma prefix_repo:
  assumes "plain_segment host" and "\<not> suffix ''.git'' (''https://'' @ host @ r)"
    and "r = [] \<or> (\<exists>m d. r = m @ [d] \<and> plain_byte d)" and "slash \<notin> set r \<longrightarrow> r = []"
    and "r \<noteq> [] \<longrightarrow> (\<exists>q. r = slash # q)"
  shows "repo_from_prefix (''https://'' @ host @ r) = (case r of [] \<Rightarrow> [] | c # q \<Rightarrow> repo_segments q)"
proof -
  let ?s = "''https://'' @ host @ r"
  obtain h hs where host: "host = hs @ [h]" "plain_byte h"
    using assms(1) pull_char_facts(5) by (cases host rule: rev_cases) (auto simp: plain_segment_def)
  obtain t d where s: "?s = CHR ''h'' # t @ [d]" "plain_byte d"
  proof (cases "r = []")
    case True
    with host that show ?thesis by simp
  next
    case False
    with assms(3) that show ?thesis by auto
  qed
  have "trim ?s = ?s" unfolding s(1) by (rule plain_no_edges) (simp_all add: s(2))
  moreover have "contains ?s ''://''" unfolding contains_iff by (rule exI [of _ "''https''"], rule exI [of _ "host @ r"]) simp
  moreover have "str_index ''://'' ?s = Some 5" by simp
  moreover have "str_index [slash] (host @ r) = (if r = [] then None else Some (length host))"
  proof (cases r)
    case Nil
    have "str_index [slash] host = None"
      using plain_segment_slash(1) [OF assms(1)] str_index_skip [of slash host "[]" "[]"] by simp
    with Nil show ?thesis by simp
  next
    case (Cons c q)
    with assms(5) have "c = slash" by auto
    with Cons plain_segment_slash(1) [OF assms(1)] show ?thesis using str_index_fresh [of slash host "[]" q] by simp
  qed
  ultimately show ?thesis using assms(2)
    by (simp add: repo_from_prefix_def pull_repo_name_def trim_suffix_def Let_def split: list.split)
qed

section \<open>What a URL is read as\<close>

lemma pull_word_at: "str_index pull_word (to_lower (pull_word @ y)) = Some 0"
  using url_index_here [of "''pull''" y] by (simp add: pull_word_unfold pull_like_def to_lower_def lower_char_def ascii_pairs_def)

lemma url_first_pull:
  assumes "plain_segment host" "plain_segment owner" "plain_segment name" "\<not> pull_like host"
  shows "str_index pull_word (to_lower (pull_url host owner name y)) =
    Some (if pull_like owner then 8 + length host
          else if pull_like name then 9 + length host + length owner
          else 10 + length host + length owner + length name)"
proof -
  note slash = assms(1-3) [THEN plain_segment_slash(1)]
  have word: "pull_word @ y = slash # ''pull'' @ y" by (simp add: pull_word_unfold)
  have "str_index pull_word (to_lower (slash # name @ pull_word @ y)) = Some (if pull_like name then 0 else Suc (length name))"
    using url_index_here [of name "pull_word @ y"] url_index [OF slash(3), of "''pull'' @ y"] pull_word_at [of y]
    by (auto simp: word)
  then have "str_index pull_word (to_lower (slash # owner @ slash # name @ pull_word @ y)) =
      Some (if pull_like owner then 0 else if pull_like name then Suc (length owner) else Suc (length owner) + Suc (length name))"
    using url_index_here [of owner "slash # name @ pull_word @ y"] url_index [OF slash(2), of "name @ pull_word @ y"] by auto
  then show ?thesis
    using url_index_start [of "host @ slash # owner @ slash # name @ pull_word @ y"]
      url_index [OF slash(1) assms(4), of "owner @ slash # name @ pull_word @ y"]
    by (auto simp: pull_url_def)
qed

lemma plain_ends: "plain_segment x \<Longrightarrow> \<exists>m d. a @ x = m @ [d] \<and> plain_byte d"
  by (cases x rule: rev_cases) (auto simp: plain_segment_def dest: pull_char_facts(5))

lemma no_git_suffix:
  assumes "plain_segment x" "\<not> suffix ''.git'' x"
  shows "\<not> suffix ''.git'' (a @ slash # x)"
proof
  assume "suffix ''.git'' (a @ slash # x)"
  then have p: "prefix ''tig.'' (rev x @ slash # rev a)" by (simp add: suffix_to_prefix)
  have "\<not> prefix ''tig.'' (rev x)" using assms(2) by (simp add: suffix_to_prefix)
  moreover have "slash \<notin> set (rev x)" using plain_segment_slash(1) [OF assms(1)] by simp
  ultimately have "\<not> prefix ''tig.'' (rev x @ slash # rev a)"
    by (cases "rev x"; cases "tl (rev x)"; cases "tl (tl (rev x))"; cases "tl (tl (tl (rev x)))") (auto simp: slash_def)
  with p show False by simp
qed

lemma trim_plain: "\<forall>c\<in>set s. plain_byte c \<Longrightarrow> trim s = s"
proof (rule trim_id)
  assume p: "\<forall>c\<in>set s. plain_byte c"
  then show "no_lead_space s" by (cases s) (simp_all add: no_lead_space_def plain_byte_lead lead_of_None)
  from p show "no_trail_space s"
    by (cases s rule: rev_cases) (simp_all add: no_trail_space_def plain_byte_lead lead_of_None)
qed

lemma number_read:
  assumes "0 < n" "n < 2 ^ 63" "rest = [] \<or> hd rest \<in> set ''?#/''"
  shows "pull_number_of (before_any ''?#/'' (drop_slashes (trim_prefix ''s'' (''/'' @ show_nat n @ rest)))) = Some (int n)"
proof -
  have d: "digit_value c \<noteq> None" if "c \<in> set (show_nat n)" for c using show_nat_digits that by blast
  have out: "c \<notin> set ''?#/'' \<and> plain_byte c" if "digit_value c \<noteq> None" for c
  proof -
    from that have "48 \<le> (of_char c :: nat) \<and> (of_char c :: nat) < 58" by (simp add: digit_value_def Let_def split: if_splits)
    then have "(of_char c :: nat) \<in> set [48 ..< 58]" by (simp only: set_upt atLeastLessThan_iff)
    then have "char_of (of_char c :: nat) \<in> char_of ` set [48 ..< (58 :: nat)]" by (rule imageI)
    then have "c \<in> set (map char_of [48 ..< (58 :: nat)])" by (simp only: char_of_char set_map)
    moreover have "list_all (\<lambda>c. c \<notin> set ''?#/'' \<and> plain_byte c) (map char_of [48 ..< (58 :: nat)])" by code_simp
    ultimately show ?thesis unfolding list_all_iff by blast
  qed
  have "before_any ''?#/'' (show_nat n @ rest) = show_nat n"
    using assms(3) d out by (cases rest) (auto simp: before_any_def takeWhile_append2)
  moreover obtain c cs where c: "show_nat n = c # cs" by (cases "show_nat n") auto
  then have "drop_slashes (trim_prefix ''s'' (''/'' @ show_nat n @ rest)) = show_nat n @ rest"
    using out [OF d, of c] by (simp add: drop_slashes_def trim_prefix_def)
  moreover have "trim (show_nat n) = show_nat n"
    using out d by (intro trim_plain) blast
  moreover have "list_all is_digit (show_nat n)" using d by (simp add: list_all_iff is_digit_def)
  ultimately show ?thesis using assms(1) atoi_show_nat [OF assms(2)] by (simp add: pull_number_of_def Let_def)
qed

lemma url_not_blank: "trim s = s \<Longrightarrow> s = pull_url host owner name y \<Longrightarrow> trim s \<noteq> []"
  by (simp add: pull_url_def)

text \<open>
  A pull request is read back from its URL: \<open>https://host/owner/name/pull/<number>\<close>, with whatever
  query, fragment or path follows, names the repository \<open>owner/name\<close> and that number, for plain names of
  which none begins with \<open>pull\<close>.
\<close>
theorem pull_url_is_read:
  assumes "plain_segment host" "plain_segment owner" "plain_segment name"
    and "\<not> pull_like host" "\<not> pull_like owner" "\<not> pull_like name" "\<not> suffix ''.git'' name"
    and "0 < n" "n < 2 ^ 63" "rest = [] \<or> hd rest \<in> set ''?#/''"
    and "s = pull_url host owner name (''/'' @ show_nat n @ rest)" "trim s = s"
  shows "parse_pull_reference s = Inr \<lparr>pf_repo = owner @ slash # name, pf_number = int n\<rparr>"
proof -
  let ?i = "10 + length host + length owner + length name" and ?r = "slash # owner @ slash # name"
  have i: "str_index pull_word (to_lower s) = Some ?i"
    using url_first_pull [OF assms(1-4)] assms(5,6,11) by simp
  have split: "s = (''https://'' @ host @ ?r) @ pull_word @ ''/'' @ show_nat n @ rest" "length (''https://'' @ host @ ?r) = ?i"
    by (simp_all add: assms(11) pull_url_def)
  have pre: "take ?i s = ''https://'' @ host @ ?r" by (metis split append_eq_conv_conj)
  have "drop ?i s = pull_word @ ''/'' @ show_nat n @ rest" by (metis split append_eq_conv_conj)
  then have "drop 5 (drop ?i s) = ''/'' @ show_nat n @ rest" by (simp add: pull_word_def)
  then have post: "drop (?i + 5) s = ''/'' @ show_nat n @ rest" by (simp only: drop_drop add.commute)
  have "\<not> suffix ''.git'' (''https://'' @ host @ ?r)"
    using no_git_suffix [OF assms(3,7), of "''https://'' @ host @ slash # owner"] by simp
  moreover have "\<exists>m d. ?r = m @ [d] \<and> plain_byte d"
    using plain_ends [OF assms(3), of "slash # owner @ [slash]"] by simp
  ultimately have "repo_from_prefix (take ?i s) = repo_segments (owner @ slash # name)"
    using prefix_repo [OF assms(1), of ?r] unfolding pre by simp
  also have "\<dots> = owner @ slash # name"
    using plain_segment_slash(1) assms(2,3) by (intro repo_segments_name) (auto simp: plain_segment_def)
  finally have "repo_from_prefix (take ?i s) = owner @ slash # name" .
  moreover have "trim s \<noteq> []" using url_not_blank assms(11,12) by blast
  ultimately show ?thesis
    using i post number_read [OF assms(8-10)] assms(12) by (simp add: parse_pull_reference_def Let_def pull_word_def)
qed

text \<open>
  A repository whose owner or name begins with \<open>pull\<close> cannot be named by its URL: the first
  \<open>/pull\<close> of the text is taken for the word before the number, so the reference is refused whatever
  number follows, and neither the check nor the review can be asked about it.
\<close>
theorem pull_names_are_refused:
  assumes "plain_segment host" "plain_segment owner" "plain_segment name"
    and "\<not> pull_like host" "pull_like owner \<or> pull_like name" "\<not> suffix ''.git'' host" "\<not> suffix ''.git'' owner"
    and "s = pull_url host owner name y" "trim s = s"
  shows "parse_pull_reference s = Inl s"
proof -
  obtain i r where i: "str_index pull_word (to_lower s) = Some i" and pre: "take i s = ''https://'' @ host @ r"
    and r: "r = [] \<or> r = slash # owner"
  proof (cases "pull_like owner")
    case True
    then have "str_index pull_word (to_lower s) = Some (8 + length host)"
      using url_first_pull [OF assms(1-4)] assms(8) by simp
    moreover have "s = (''https://'' @ host) @ slash # owner @ slash # name @ pull_word @ y" "length (''https://'' @ host) = 8 + length host"
      by (simp_all add: assms(8) pull_url_def)
    then have "take (8 + length host) s = ''https://'' @ host @ []" by (metis append_eq_conv_conj append_Nil2)
    ultimately show ?thesis using that by blast
  next
    case False
    then have "str_index pull_word (to_lower s) = Some (9 + length host + length owner)"
      using url_first_pull [OF assms(1-4)] assms(5,8) by simp
    moreover have "s = (''https://'' @ host @ slash # owner) @ slash # name @ pull_word @ y"
      "length (''https://'' @ host @ slash # owner) = 9 + length host + length owner"
      by (simp_all add: assms(8) pull_url_def)
    then have "take (9 + length host + length owner) s = ''https://'' @ host @ slash # owner" by (metis append_eq_conv_conj)
    ultimately show ?thesis using that by blast
  qed
  have git: "\<not> suffix ''.git'' (''https://'' @ host @ r)"
  proof (cases "r = []")
    case True
    then show ?thesis using no_git_suffix [OF assms(1,6), of "''https:/''"] by (simp add: slash_def)
  next
    case False
    with r show ?thesis using no_git_suffix [OF assms(2,7), of "''https://'' @ host"] by simp
  qed
  have ends: "\<exists>m d. slash # owner = m @ [d] \<and> plain_byte d" using plain_ends [OF assms(2), of "[slash]"] by simp
  have "repo_from_prefix (take i s) = (case r of [] \<Rightarrow> [] | c # q \<Rightarrow> repo_segments q)"
    unfolding pre using r ends by (intro prefix_repo [OF assms(1) git]) (elim disjE; simp)+
  also have "\<dots> = []" using r repo_segments_one [OF plain_segment_slash(1) [OF assms(2)]] by auto
  finally have "repo_from_prefix (take i s) = []" .
  moreover have "trim s \<noteq> []" using url_not_blank assms(8,9) by blast
  ultimately show ?thesis using i assms(9) by (simp add: parse_pull_reference_def Let_def split: option.split)
qed

section \<open>What the check answers\<close>

text \<open>
  C23: The check says that a pull request exists only on the host's word: it asked the endpoint of exactly
  the number the caller named, in the repository the reference names when it names one, the host
  answered with a success and a pull request, and \<open>state\<close> and \<open>merged\<close> are that pull request's.
\<close>
theorem pr_check_true_is_the_hosts_word:
  assumes "run_pr_check c inp s = (s', Inr out)" "map_of out ''exists'' = Some ''true''"
  shows "\<exists>named repo token s1 status body v p.
      named_pull inp = Inr named \<and> pf_number named \<noteq> 0 \<and> (pf_repo named \<noteq> [] \<longrightarrow> repo = pf_repo named) \<and>
      rd_fetch c (pull_endpoint (api_base c) repo (pf_number named)) token s1 = (s', Inr (status, body)) \<and>
      200 \<le> status \<and> status \<le> 299 \<and>
      parse_json (take review_max_body body) = Some v \<and> decode_struct pull_fields zero_pull v = Some p \<and>
      map_of out ''repo'' = Some repo \<and> map_of out ''state'' = Some (gp_state p) \<and>
      map_of out ''merged'' = Some (show_bool (gp_merged p))"
proof -
  from assms(1) obtain named where named: "named_pull inp = Inr named" "pf_number named \<noteq> 0"
    by (auto simp: run_pr_check_def split: sum.splits if_splits)
  with assms(1) obtain s1 repo token where call: "opened_call c inp named s = (s1, Inr (repo, token))"
    by (auto simp: run_pr_check_def split: sum.splits prod.splits)
  with assms named obtain p where p: "get_pull_request (rd_fetch c) (api_base c) repo token (pf_number named) s1 = (s', Inr p)"
    and out: "map_of out ''repo'' = Some repo" "map_of out ''state'' = Some (gp_state p)" "map_of out ''merged'' = Some (show_bool (gp_merged p))"
    by (auto simp: run_pr_check_def split: sum.splits prod.splits if_splits)
  have "pf_repo named \<noteq> [] \<longrightarrow> repo = pf_repo named"
    using call by (auto simp: opened_call_def call_repo_def Let_def split: sum.splits prod.splits if_splits)
  then show ?thesis
    using named p out
    by (fastforce simp: get_pull_request_def review_request_def git_hub_expect_def split: sum.splits prod.splits option.splits if_splits)
qed

text \<open>
  The check tells an outage from an absent pull request by the text of the error, so an answer that is
  not a 404 (a gateway's 502, a 403) but whose message quotes \<open>HTTP 404\<close> is reported as a pull request
  that does not exist, with no error.
\<close>
theorem outage_reported_as_absent:
  assumes "named_pull inp = Inr named" "pf_number named \<noteq> 0" "opened_call c inp named s = (s1, Inr (repo, token))"
    and "rd_fetch c (pull_endpoint (api_base c) repo (pf_number named)) token s1 = (s2, Inr (status, body))"
    and "status < 200 \<or> 299 < status"
    and "git_hub_error status (take review_max_body body) what = HttpFailed what status (a @ ''HTTP 404'' @ b)"
  shows "run_pr_check c inp s = (s2, Inr [(''exists'', ''false''), (''valid'', ''false''), (''repo'', repo)])"
proof -
  let ?what = "''read pull request '' @ repo @ ''#'' @ show_int (pf_number named)"
  have e: "git_hub_error status (take review_max_body body) ?what = HttpFailed ?what status (a @ ''HTTP 404'' @ b)"
    using assms(6) by (simp add: git_hub_error_def Let_def)
  have "is_git_hub_not_found (HttpFailed ?what status (a @ ''HTTP 404'' @ b))"
    unfolding is_git_hub_not_found_def contains_iff
    by (intro disjI2 exI [of _ "?what @ '': HTTP '' @ show_nat status @ '': '' @ a"] exI [of _ b]) simp
  moreover have "is_git_hub_not_found (NotFound repo n)" for n
    unfolding is_git_hub_not_found_def contains_iff
    by (intro disjI1 exI [of _ "[]"] exI [of _ "'' '' @ repo @ '' has no pull request #'' @ show_int n"]) simp
  moreover have "git_hub_expect status b' w = Some (git_hub_error status b' w)" for b' w
    using assms(5) by (auto simp: git_hub_expect_def)
  ultimately show ?thesis
    using assms(1-4) e by (simp add: run_pr_check_def get_pull_request_def review_request_def)
qed

text \<open>
  What the capabilities report is what they declare: the review always reports every declared output, and
  the check every one of them for a pull request that exists, so a binding to one of them finds a value.
\<close>

lemma review_reports_its_outputs: "run_review c inp s = (s', Inr out) \<Longrightarrow> map fst out = review_outputs"
  by (auto simp: run_review_def review_outputs_def Let_def split: sum.splits prod.splits if_splits)

lemma check_reports_its_outputs:
  "run_pr_check c inp s = (s', Inr out) \<Longrightarrow>
    map fst out = (if map_of out ''exists'' = Some ''true'' then pr_check_outputs else [''exists'', ''valid'', ''repo''])"
  by (auto simp: run_pr_check_def pr_check_outputs_def split: sum.splits prod.splits if_splits)

definition sample_env :: pull_env where
  "sample_env = \<lparr>pe_base_branch = [], pe_repository = [], pe_git_repo_url = [], pe_github_token = [], pe_gh_token = [], pe_api_url = []\<rparr>"

definition sample_reader :: "nat \<Rightarrow> string \<Rightarrow> unit pull_reader" where
  "sample_reader status body =
    \<lparr>rd_api_url = ''https://api.github.com'', rd_token = ''t'', rd_repo = [], rd_env = sample_env, rd_app = Inr None,
     rd_gh = (\<lambda>s. (s, Inr [])), rd_fetch = (\<lambda>url token s. (s, Inr (status, body)))\<rparr>"

definition sample_pull_input :: "string smap" where
  "sample_pull_input = [(''pr'', ''https://github.com/acme/app/pull/7'')]"

definition merged_body :: string where
  "merged_body = show_json (JObj [(''merged'', JBool True), (''state'', JStr ''closed'')])"

lemma sample_named: "named_pull sample_pull_input = Inr \<lparr>pf_repo = ''acme/app'', pf_number = 7\<rparr>"
  by code_simp

lemma sample_opened:
  "opened_call (sample_reader status body) sample_pull_input \<lparr>pf_repo = ''acme/app'', pf_number = 7\<rparr> () = ((), Inr (''acme/app'', ''t''))"
proof -
  have "trim ''t'' = ''t''" "text_at sample_pull_input ''repo'' = []" "text_at sample_pull_input ''repository'' = []" by code_simp+
  moreover have "pull_repo_name (first_trimmed [[], [], []]) = []" by code_simp
  ultimately show ?thesis by (simp add: opened_call_def call_repo_def token_for_repo_def sample_reader_def Let_def)
qed

lemma take_body: "length body \<le> 1048576 \<Longrightarrow> take review_max_body body = body"
  by (simp add: review_max_body_def)

lemma merged_body_read:
  "parse_json merged_body = Some (JObj [(''merged'', JBool True), (''state'', JStr ''closed'')])" "length merged_body \<le> 100"
  by code_simp+

lemma merged_pull:
  "decode_struct pull_fields zero_pull (JObj [(''merged'', JBool True), (''state'', JStr ''closed'')]) =
     Some (zero_pull\<lparr>gp_merged := True, gp_state := ''closed''\<rparr>)"
  by code_simp

theorem pr_check_true_is_the_hosts_word_witness:
  "\<exists>out named repo token s1 status body v p.
      run_pr_check (sample_reader 200 merged_body) sample_pull_input () = ((), Inr out) \<and>
      named_pull sample_pull_input = Inr named \<and> pf_number named \<noteq> 0 \<and> (pf_repo named \<noteq> [] \<longrightarrow> repo = pf_repo named) \<and>
      rd_fetch (sample_reader 200 merged_body) (pull_endpoint (api_base (sample_reader 200 merged_body)) repo (pf_number named)) token s1
        = ((), Inr (status, body)) \<and>
      200 \<le> status \<and> status \<le> 299 \<and>
      parse_json (take review_max_body body) = Some v \<and> decode_struct pull_fields zero_pull v = Some p \<and>
      map_of out ''repo'' = Some repo \<and> map_of out ''state'' = Some (gp_state p) \<and>
      map_of out ''merged'' = Some (show_bool (gp_merged p))"
proof -
  obtain out where run: "run_pr_check (sample_reader 200 merged_body) sample_pull_input () = ((), Inr out)"
    and "map_of out ''exists'' = Some ''true''"
    using sample_named sample_opened merged_body_read merged_pull take_body [of merged_body]
    by (simp add: run_pr_check_def get_pull_request_def review_request_def git_hub_expect_def sample_reader_def)
  from run pr_check_true_is_the_hosts_word [OF this] show ?thesis by blast
qed

theorem outage_reported_as_absent_witness:
  "run_pr_check (sample_reader 502 ''upstream said HTTP 404'') sample_pull_input () =
     ((), Inr [(''exists'', ''false''), (''valid'', ''false''), (''repo'', ''acme/app'')])"
proof -
  let ?c = "sample_reader 502 ''upstream said HTTP 404''"
  have "parse_json ''upstream said HTTP 404'' = None" "body_snippet ''upstream said HTTP 404'' = ''upstream said HTTP 404''" by code_simp+
  then have e: "git_hub_error 502 (take review_max_body ''upstream said HTTP 404'') [] = HttpFailed [] 502 (''upstream said '' @ ''HTTP 404'' @ [])"
    by (simp add: git_hub_error_def take_body)
  show ?thesis
    by (rule outage_reported_as_absent [OF sample_named _ sample_opened _ _ e]) (simp_all add: sample_reader_def)
qed

theorem pull_url_is_read_witness:
  "parse_pull_reference (pull_url ''github.com'' ''acme'' ''app'' (''/'' @ show_nat 7 @ ''/files'')) =
     Inr \<lparr>pf_repo = ''acme'' @ slash # ''app'', pf_number = int 7\<rparr>"
proof -
  let ?s = "pull_url ''github.com'' ''acme'' ''app'' (''/'' @ show_nat 7 @ ''/files'')"
  have "plain_segment ''github.com''" "plain_segment ''acme''" "plain_segment ''app''" "\<not> pull_like ''github.com''"
    "\<not> pull_like ''acme''" "\<not> pull_like ''app''" "\<not> suffix ''.git'' ''app''" "trim ?s = ?s" by code_simp+
  then show ?thesis by (intro pull_url_is_read [where host = "''github.com''"]) simp_all
qed

theorem pull_names_are_refused_witness:
  "parse_pull_reference (pull_url ''github.com'' ''acme'' ''pull-bot'' (''/'' @ show_nat 7)) =
     Inl (pull_url ''github.com'' ''acme'' ''pull-bot'' (''/'' @ show_nat 7))"
proof -
  let ?s = "pull_url ''github.com'' ''acme'' ''pull-bot'' (''/'' @ show_nat 7)"
  have "plain_segment ''github.com''" "plain_segment ''acme''" "plain_segment ''pull-bot''" "\<not> pull_like ''github.com''"
    "pull_like ''pull-bot''" "\<not> suffix ''.git'' ''github.com''" "\<not> suffix ''.git'' ''acme''" "trim ?s = ?s" by code_simp+
  then show ?thesis by (intro pull_names_are_refused [where host = "''github.com''" and owner = "''acme''" and name = "''pull-bot''"]) simp_all
qed

end
