(* ===== verification/Chat_Stream.thy ===== *)
theory Chat_Stream
  imports Event_Log Go_Numbers Json_Text "HOL-Library.AList"
begin

text \<open>
  The stream of a language model's run (src/llmbackend/events.go, events_kind.go, values.go) and the
  messages it is read as (src/llm_message.go): a run of thinking is one message, a tool call one
  message per call id.  The same accumulator serves the live run, which writes a message the moment it
  is complete, and the derivation from a whole stream.

  A group is found again through its place in the list, where the code keeps a pointer.  A number of
  a payload is exact, where the code would round it to a float.
\<close>

section \<open>Events\<close>

datatype channel =
    ChannelAssistant | ChannelTool | ChannelThought | ChannelStatus | ChannelResult | ChannelError | ChannelMeta

datatype event_kind =
    EvAssistantDelta | EvAssistant | EvThoughtDelta | EvThought | EvThoughtEnd
  | EvToolStarted | EvToolDelta | EvToolCompleted | EvStatus | EvUsage | EvRunResult | EvError | EvMeta | EvKindOther string

fun kind_family :: "event_kind \<Rightarrow> string" where
  "kind_family EvAssistant = ''assistant''"
| "kind_family EvAssistantDelta = ''assistant''"
| "kind_family EvThought = ''thought''"
| "kind_family EvThoughtDelta = ''thought''"
| "kind_family EvThoughtEnd = ''thought''"
| "kind_family EvToolStarted = ''tool_call''"
| "kind_family EvToolDelta = ''tool_call''"
| "kind_family EvToolCompleted = ''tool_call''"
| "kind_family EvStatus = ''status''"
| "kind_family EvUsage = ''usage''"
| "kind_family EvRunResult = ''run_result''"
| "kind_family EvError = ''error''"
| "kind_family EvMeta = ''meta''"
| "kind_family (EvKindOther k) = k"

definition channel_words :: "(string \<times> channel) list" where
  "channel_words =
    map (\<lambda>w. (w, ChannelAssistant)) [''assistant'', ''assistant_message'', ''assistant_delta'', ''text'', ''text_delta'', ''content'', ''delta'']
  @ map (\<lambda>w. (w, ChannelTool)) [''tool'', ''tool_call'', ''tool_use'', ''tool_result'', ''function_call'', ''function_result'']
  @ map (\<lambda>w. (w, ChannelThought)) [''thought'', ''thinking'', ''reasoning'', ''reasoning_delta'']
  @ [(''status'', ChannelStatus), (''result'', ChannelResult), (''error'', ChannelError), (''run_error'', ChannelError)]"

definition classify_channel :: "string \<Rightarrow> channel" where
  "classify_channel raw =
    (let name = to_lower (trim raw);
         name' = (case str_index '':'' name of None \<Rightarrow> name | Some i \<Rightarrow> trim (drop (Suc i) name))
     in case map_of channel_words name' of None \<Rightarrow> ChannelMeta | Some c \<Rightarrow> c)"

record llm_event =
  le_seq :: nat
  le_offset :: string
  le_channel :: channel
  le_kind :: event_kind
  le_type :: string
  le_role :: string
  le_name :: string
  le_delta :: string
  le_payload :: payload
  le_elapsed :: int
  le_created :: stamp

definition payload_string :: "payload \<Rightarrow> string \<Rightarrow> string" where
  "payload_string p k = (case map_of p k of Some (JStr s) \<Rightarrow> s | _ \<Rightarrow> [])"

definition payload_text :: "payload \<Rightarrow> string" where
  "payload_text p = (if p = [] then ''{}'' else show_json (JObj p))"

text \<open>\<open>int64(v)\<close> of a number: its digits are cut at the point, after the exponent is applied.\<close>

definition trunc_number :: "string \<Rightarrow> int" where
  "trunc_number t =
    (let u = (case t of c # cs \<Rightarrow> if c = CHR ''-'' then cs else t | [] \<Rightarrow> t);
         m = takeWhile (\<lambda>c. c \<noteq> CHR ''e'' \<and> c \<noteq> CHR ''E'') u;
         whole = takeWhile json_digit m;
         frac = drop (Suc (length whole)) m;
         digits = (case digits_value 0 (whole @ frac) of None \<Rightarrow> 0 | Some n \<Rightarrow> int n);
         ex = (case atoi (drop (Suc (length m)) u) of None \<Rightarrow> 0 | Some e \<Rightarrow> e) - int (length frac);
         q = (if ex \<ge> 0 then digits * 10 ^ nat ex else digits div 10 ^ nat (- ex))
     in if u = t then q else - q)"

definition payload_number :: "payload \<Rightarrow> string list \<Rightarrow> string option" where
  "payload_number p ks = map_option (\<lambda>v. case v of JNum n \<Rightarrow> n | _ \<Rightarrow> [])
     (find (\<lambda>v. case v of JNum n \<Rightarrow> True | _ \<Rightarrow> False) (List.map_filter (map_of p) ks))"

definition with_neutral_text :: "payload \<Rightarrow> string \<Rightarrow> payload" where
  "with_neutral_text p text = (if text = [] then p else AList.update ''text'' (JStr text) p)"

fun with_neutral_kv :: "payload \<Rightarrow> (string \<times> json) list \<Rightarrow> payload" where
  "with_neutral_kv p [] = p"
| "with_neutral_kv p ((k, v) # kvs) =
     with_neutral_kv (if k = [] \<or> v = JNull \<or> v = JStr [] then p else AList.update k v p) kvs"

definition usage_words :: "(string \<times> string list) list" where
  "usage_words =
    [(''input_tokens'', [''input_tokens'', ''inputTokens'', ''total_input_tokens'', ''totalInputTokens'']),
     (''output_tokens'', [''output_tokens'', ''outputTokens'', ''total_output_tokens'', ''totalOutputTokens'']),
     (''cache_read_tokens'', [''cache_read_tokens'', ''cacheReadTokens'', ''total_cache_read_tokens'', ''totalCacheReadTokens'']),
     (''cache_write_tokens'', [''cache_write_tokens'', ''cacheWriteTokens'', ''total_cache_write_tokens'', ''totalCacheWriteTokens'']),
     (''total_tokens'', [''total_tokens'', ''totalTokens''])]"

definition usage_count :: "payload \<Rightarrow> payload \<Rightarrow> string list \<Rightarrow> int option" where
  "usage_count p usage ks =
    map_option trunc_number (case payload_number usage ks of Some n \<Rightarrow> Some n | None \<Rightarrow> payload_number p ks)"

definition with_usage_keys :: "payload \<Rightarrow> payload \<Rightarrow> payload" where
  "with_usage_keys p usage =
    with_neutral_kv p (List.map_filter (\<lambda>(k, ks). map_option (\<lambda>n. (k, JNum (show_int n))) (usage_count p usage ks)) usage_words)"

section \<open>Messages\<close>

datatype llm_role = RoleUser | RoleAssistant | RoleThinking | RoleTool | RoleAgent

record llm_message =
  lm_id :: nat
  lm_turn :: nat
  lm_task :: string
  lm_agent :: nat
  lm_cycle :: int
  lm_seq :: nat
  lm_role :: llm_role
  lm_parent :: nat
  lm_content :: string
  lm_normalized :: string
  lm_provider :: string
  lm_model :: string
  lm_run :: string
  lm_status :: string
  lm_created :: stamp

definition zero_message :: llm_message where
  "zero_message = \<lparr>lm_id = 0, lm_turn = 0, lm_task = [], lm_agent = 0, lm_cycle = 0, lm_seq = 0, lm_role = RoleUser, lm_parent = 0,
     lm_content = [], lm_normalized = [], lm_provider = [], lm_model = [], lm_run = [], lm_status = [], lm_created = None\<rparr>"

section \<open>Groups\<close>

record chat_group =
  cg_seq :: nat
  cg_emitted :: bool
  cg_tool :: bool
  cg_call :: string
  cg_name :: string
  cg_args :: json
  cg_result :: json
  cg_has_result :: bool
  cg_text :: string
  cg_created :: stamp
  cg_ended :: stamp
  cg_reported :: "int option"

definition new_group :: "bool \<Rightarrow> nat \<Rightarrow> chat_group" where
  "new_group tool seq = \<lparr>cg_seq = seq, cg_emitted = False, cg_tool = tool, cg_call = [], cg_name = [], cg_args = JNull, cg_result = JNull,
     cg_has_result = False, cg_text = [], cg_created = None, cg_ended = None, cg_reported = None\<rparr>"

definition number_payload :: "payload \<Rightarrow> string \<Rightarrow> int option" where
  "number_payload p k = (case map_of p k of Some (JNum n) \<Rightarrow> Some (trunc_number n) | _ \<Rightarrow> None)"

definition append_text :: "llm_event \<Rightarrow> chat_group \<Rightarrow> chat_group" where
  "append_text ev g =
    g\<lparr>cg_text := cg_text g @ le_delta ev,
      cg_created := (if cg_created g = None then le_created ev else cg_created g),
      cg_ended := (if le_created ev \<noteq> None then le_created ev else cg_ended g),
      cg_reported := (if cg_reported g = None then number_payload (le_payload ev) ''thinking_duration_ms'' else cg_reported g)\<rparr>"

definition merge_tool :: "llm_event \<Rightarrow> chat_group \<Rightarrow> chat_group" where
  "merge_tool ev g =
    g\<lparr>cg_created := (if cg_created g = None then le_created ev else cg_created g),
      cg_name := (if le_name ev \<noteq> [] then le_name ev else cg_name g),
      cg_args := (if cg_args g = JNull then (case map_of (le_payload ev) ''args'' of Some a \<Rightarrow> a | None \<Rightarrow> JNull) else cg_args g),
      cg_result := (case map_of (le_payload ev) ''result'' of Some r \<Rightarrow> r | None \<Rightarrow> cg_result g),
      cg_has_result := (cg_has_result g \<or> map_of (le_payload ev) ''result'' \<noteq> None)\<rparr>"

definition thinking_duration :: "chat_group \<Rightarrow> int option" where
  "thinking_duration g =
    (case cg_reported g of Some ms \<Rightarrow> Some ms
     | None \<Rightarrow>
        (case (cg_created g, cg_ended g) of
           (Some c, Some e) \<Rightarrow>
             (let d = min (int e - int c) (2 ^ 63 - 1) div 1000000 in if d > 0 then Some d else None)
         | _ \<Rightarrow> None))"

definition marshal_value :: "json \<Rightarrow> bool \<Rightarrow> string" where
  "marshal_value v present = (if present then show_json v else [])"

definition group_message :: "chat_group \<Rightarrow> llm_message" where
  "group_message g =
    (let m = zero_message\<lparr>lm_seq := cg_seq g, lm_role := (if cg_tool g then RoleTool else RoleThinking), lm_created := cg_created g\<rparr> in
     if cg_tool g
     then m\<lparr>lm_content := marshal_value (cg_result g) (cg_has_result g),
            lm_normalized := marshal_value (JObj [(''name'', JStr (cg_name g)), (''call_id'', JStr (cg_call g)), (''args'', cg_args g)]) True\<rparr>
     else m\<lparr>lm_content := cg_text g,
            lm_normalized := (case thinking_duration g of None \<Rightarrow> []
                              | Some d \<Rightarrow> marshal_value (JObj [(''duration_ms'', JNum (show_int d))]) True)\<rparr>)"

section \<open>The accumulator\<close>

record aggregator =
  ag_groups :: "chat_group list"
  ag_by_call :: "nat smap"

definition new_aggregator :: aggregator where
  "new_aggregator = \<lparr>ag_groups = [], ag_by_call = []\<rparr>"

definition change_group :: "nat \<Rightarrow> (chat_group \<Rightarrow> chat_group) \<Rightarrow> aggregator \<Rightarrow> aggregator" where
  "change_group i f a = a\<lparr>ag_groups := (ag_groups a)[i := f (ag_groups a ! i)]\<rparr>"

definition emit_group :: "nat \<Rightarrow> aggregator \<Rightarrow> aggregator \<times> llm_message list" where
  "emit_group i a =
    (let g = ag_groups a ! i in
     if cg_tool g \<and> \<not> cg_has_result g then (a, [])
     else (change_group i (cg_emitted_update (\<lambda>_. True)) a, [group_message g]))"

definition last_thinking :: "aggregator \<Rightarrow> bool" where
  "last_thinking a \<longleftrightarrow> ag_groups a \<noteq> [] \<and> \<not> cg_tool (last (ag_groups a))"

definition close_thinking :: "aggregator \<Rightarrow> aggregator \<times> llm_message list" where
  "close_thinking a =
    (if last_thinking a \<and> \<not> cg_emitted (last (ag_groups a)) then emit_group (length (ag_groups a) - 1) a else (a, []))"

definition add_thought :: "llm_event \<Rightarrow> aggregator \<Rightarrow> aggregator" where
  "add_thought ev a =
    (if last_thinking a then change_group (length (ag_groups a) - 1) (append_text ev) a
     else a\<lparr>ag_groups := ag_groups a @ [append_text ev (new_group False (Suc (length (ag_groups a))))]\<rparr>)"

definition known_call :: "string \<Rightarrow> aggregator \<Rightarrow> nat option" where
  "known_call c a = (if c = [] then None else map_of (ag_by_call a) c)"

definition add_tool :: "llm_event \<Rightarrow> aggregator \<Rightarrow> aggregator \<times> llm_message list" where
  "add_tool ev a =
    (let c = payload_string (le_payload ev) ''call_id'' in
     case known_call c a of
       Some i \<Rightarrow> emit_group i (change_group i (merge_tool ev) a)
     | None \<Rightarrow>
        (case close_thinking a of
           (a1, out) \<Rightarrow>
             (let i = length (ag_groups a1);
                  g = merge_tool ev ((new_group True (Suc i))\<lparr>cg_call := c, cg_created := le_created ev\<rparr>);
                  a2 = a1\<lparr>ag_groups := ag_groups a1 @ [g],
                          ag_by_call := (if c = [] then ag_by_call a1 else AList.update c i (ag_by_call a1))\<rparr>
              in case emit_group i a2 of (a3, out') \<Rightarrow> (a3, out @ out'))))"

definition add_event :: "llm_event \<Rightarrow> aggregator \<Rightarrow> aggregator \<times> llm_message list" where
  "add_event ev a =
    (case le_channel ev of ChannelThought \<Rightarrow> (add_thought ev a, []) | ChannelTool \<Rightarrow> add_tool ev a | _ \<Rightarrow> (a, []))"

definition flush_groups :: "aggregator \<Rightarrow> aggregator \<times> llm_message list" where
  "flush_groups a =
    (a\<lparr>ag_groups := map (cg_emitted_update (\<lambda>_. True)) (ag_groups a)\<rparr>,
     map group_message (filter (\<lambda>g. \<not> cg_emitted g) (ag_groups a)))"

section \<open>A whole stream\<close>

fun add_events :: "llm_event list \<Rightarrow> aggregator \<Rightarrow> aggregator \<times> llm_message list" where
  "add_events [] a = (a, [])"
| "add_events (ev # evs) a =
     (case add_event ev a of (a1, out) \<Rightarrow> (case add_events evs a1 of (a2, out') \<Rightarrow> (a2, out @ out')))"

fun put_by_seq :: "llm_message list \<Rightarrow> (nat \<times> llm_message) list \<Rightarrow> (nat \<times> llm_message) list" where
  "put_by_seq [] t = t"
| "put_by_seq (m # ms) t = put_by_seq ms (AList.update (lm_seq m) m t)"

definition aggregate_chat_messages :: "llm_event list \<Rightarrow> llm_message list" where
  "aggregate_chat_messages evs =
    (case add_events evs new_aggregator of
       (a, out) \<Rightarrow> map snd (sort_key fst (put_by_seq (snd (flush_groups a)) (put_by_seq out []))))"

end
