(* ===== verification/Turn_Store.thy ===== *)
theory Turn_Store
  imports Chat_Stream Planner_Reply
begin

text \<open>
  The record of the language model's runs (src/db/sqlite_store.go, sqlite_query.go, sqlite_execution.go,
  src/conversation_records.go, the rows of src/store.go): one row per run, the events of its stream, and
  the messages of its conversation, which other parts read by a cursor.

  Rows are never deleted, so the autoincrement id of a row is its place.  \<open>td_faults\<close> lists the outcomes
  of the coming statements as in the other stores; a transaction takes one of them, as it writes all or
  nothing.  \<open>now\<close> is the clock a call reads.  A cost is the text of its float.
\<close>

section \<open>Rows\<close>

record usage =
  us_input :: int
  us_output :: int
  us_cache_read :: int
  us_cache_write :: int
  us_reasoning :: int
  us_total :: int
  us_cost :: "string option"

definition no_usage :: usage where
  "no_usage = \<lparr>us_input = 0, us_output = 0, us_cache_read = 0, us_cache_write = 0, us_reasoning = 0, us_total = 0, us_cost = None\<rparr>"

record reason_turn =
  tn_id :: nat
  tn_task :: string
  tn_agent :: nat
  tn_cycle :: int
  tn_mode :: string
  tn_provider :: string
  tn_model :: string
  tn_llm_agent :: string
  tn_input :: string
  tn_input_role :: "llm_role option"
  tn_raw :: string
  tn_normalized :: string
  tn_run :: string
  tn_status :: string
  tn_error_code :: string
  tn_error_message :: string
  tn_duration :: int
  tn_event_count :: nat
  tn_usage :: usage
  tn_started :: stamp
  tn_ended :: stamp
  tn_created :: stamp

record llm_result =
  rr_run :: string
  rr_llm_agent :: string
  rr_status :: string
  rr_error_code :: string
  rr_error_message :: string
  rr_raw :: string
  rr_duration :: int
  rr_event_count :: nat
  rr_usage :: usage
  rr_started :: stamp
  rr_ended :: stamp

definition run_running :: string where "run_running = ''running''"
definition run_finished :: string where "run_finished = ''finished''"

record turn_handle =
  th_turn :: nat
  th_input :: nat

definition no_handle :: turn_handle where "no_handle = \<lparr>th_turn = 0, th_input = 0\<rparr>"

record event_row =
  er_turn :: nat
  er_run :: string
  er_event :: llm_event
  er_payload :: string

record turn_db =
  td_turns :: "reason_turn list"
  td_events :: "event_row list"
  td_messages :: "llm_message list"
  td_faults :: "string option list"

section \<open>Statements\<close>

type_synonym 'a turn_reply = "turn_db \<times> (string + 'a)"

definition carry_out :: "(turn_db \<Rightarrow> turn_db \<times> 'a) \<Rightarrow> turn_db \<Rightarrow> 'a turn_reply" where
  "carry_out f s =
    (case td_faults s of
       [] \<Rightarrow> (case f s of (s', x) \<Rightarrow> (s', Inr x))
     | None # fs \<Rightarrow> (case f (s\<lparr>td_faults := fs\<rparr>) of (s', x) \<Rightarrow> (s', Inr x))
     | Some e # fs \<Rightarrow> (s\<lparr>td_faults := fs\<rparr>, Inl e))"

definition and_then :: "'a turn_reply \<Rightarrow> ('a \<Rightarrow> turn_db \<Rightarrow> 'b turn_reply) \<Rightarrow> 'b turn_reply" where
  "and_then r f = (case r of (s, Inl e) \<Rightarrow> (s, Inl e) | (s, Inr x) \<Rightarrow> f x s)"

definition stamp_or :: "nat \<Rightarrow> stamp \<Rightarrow> stamp" where
  "stamp_or now t = (if t = None then Some now else t)"

definition insert_turn :: "nat \<Rightarrow> reason_turn \<Rightarrow> turn_db \<Rightarrow> turn_db \<times> nat" where
  "insert_turn now t s =
    (let i = Suc (length (td_turns s))
     in (s\<lparr>td_turns := td_turns s @ [t\<lparr>tn_id := i, tn_input_role := None, tn_created := stamp_or now (tn_created t)\<rparr>]\<rparr>, i))"

definition message_at :: "nat \<Rightarrow> nat \<Rightarrow> llm_message \<Rightarrow> bool" where
  "message_at turn seq m \<longleftrightarrow> lm_turn m = turn \<and> lm_seq m = seq"

text \<open>\<open>INSERT OR IGNORE\<close>: a message of that turn and number stays, and its id is answered.\<close>

definition insert_message :: "nat \<Rightarrow> llm_message \<Rightarrow> turn_db \<Rightarrow> turn_db \<times> nat" where
  "insert_message now m s =
    (case find (message_at (lm_turn m) (lm_seq m)) (td_messages s) of
       Some old \<Rightarrow> (s, lm_id old)
     | None \<Rightarrow>
        (let i = Suc (length (td_messages s))
         in (s\<lparr>td_messages := td_messages s @ [m\<lparr>lm_id := i, lm_created := stamp_or now (lm_created m)\<rparr>]\<rparr>, i)))"

definition find_turn :: "nat \<Rightarrow> turn_db \<Rightarrow> reason_turn option" where
  "find_turn i s = find (\<lambda>t. tn_id t = i) (td_turns s)"

definition message_of_turn :: "reason_turn \<Rightarrow> llm_message \<Rightarrow> llm_message" where
  "message_of_turn t m =
    m\<lparr>lm_turn := tn_id t, lm_task := tn_task t, lm_agent := tn_agent t, lm_cycle := tn_cycle t, lm_provider := tn_provider t, lm_model := tn_model t\<rparr>"

text \<open>\<open>upsertDerivedMessageSQL\<close>: a row for a turn that is there; one of the same number gets the new text.\<close>

definition rewrite_message :: "llm_message \<Rightarrow> llm_message \<Rightarrow> llm_message" where
  "rewrite_message new x =
    x\<lparr>lm_role := lm_role new, lm_parent := lm_parent new, lm_content := lm_content new, lm_normalized := lm_normalized new,
      lm_created := lm_created new\<rparr>"

definition upsert_derived :: "nat \<Rightarrow> nat \<Rightarrow> llm_message \<Rightarrow> turn_db \<Rightarrow> turn_db" where
  "upsert_derived now turn m s =
    (case find_turn turn s of
       None \<Rightarrow> s
     | Some t \<Rightarrow>
        (let new = message_of_turn t m\<lparr>lm_run := tn_run t, lm_status := tn_status t, lm_created := stamp_or now (lm_created m)\<rparr>
         in if \<exists>x\<in>set (td_messages s). message_at turn (lm_seq m) x
            then s\<lparr>td_messages := map (\<lambda>x. if message_at turn (lm_seq m) x then rewrite_message new x else x) (td_messages s)\<rparr>
            else s\<lparr>td_messages := td_messages s @ [new\<lparr>lm_id := Suc (length (td_messages s))\<rparr>]\<rparr>))"

section \<open>Writing a run\<close>

definition input_message :: "nat \<Rightarrow> reason_turn \<Rightarrow> llm_message" where
  "input_message turn t =
    zero_message\<lparr>lm_turn := turn, lm_task := tn_task t, lm_agent := tn_agent t, lm_cycle := tn_cycle t, lm_seq := 0,
      lm_role := (case tn_input_role t of None \<Rightarrow> RoleUser | Some r \<Rightarrow> r), lm_content := tn_input t, lm_provider := tn_provider t,
      lm_model := tn_model t, lm_run := tn_run t, lm_status := tn_status t, lm_created := tn_created t\<rparr>"

definition answer_message :: "nat \<Rightarrow> nat \<Rightarrow> nat \<Rightarrow> reason_turn \<Rightarrow> llm_message" where
  "answer_message turn seq parent t =
    zero_message\<lparr>lm_turn := turn, lm_task := tn_task t, lm_agent := tn_agent t, lm_cycle := tn_cycle t, lm_seq := seq,
      lm_role := RoleAssistant, lm_parent := parent, lm_content := tn_raw t, lm_normalized := tn_normalized t,
      lm_provider := tn_provider t, lm_model := tn_model t, lm_run := tn_run t, lm_status := tn_status t, lm_created := tn_ended t\<rparr>"

definition insert_reason_turn :: "nat \<Rightarrow> reason_turn \<Rightarrow> turn_db \<Rightarrow> unit turn_reply" where
  "insert_reason_turn now turn s =
    (let t = turn\<lparr>tn_created := stamp_or now (tn_created turn),
             tn_normalized := (if tn_normalized turn = [] then normalize_reason_output (tn_raw turn) else tn_normalized turn),
             tn_status := (if tn_status turn = [] then run_finished else tn_status turn)\<rparr>;
         t' = t\<lparr>tn_started := (if tn_started t = None then tn_created t else tn_started t),
                tn_ended := (if tn_ended t = None then tn_created t else tn_ended t)\<rparr>
     in carry_out (\<lambda>s.
          (case insert_turn now t' s of (s1, i) \<Rightarrow>
            (case insert_message now (input_message i t') s1 of (s2, p) \<Rightarrow>
              (case insert_message now (answer_message i 1 p t') s2 of (s3, _) \<Rightarrow> (s3, ()))))) s)"

definition begin_reason_turn :: "nat \<Rightarrow> reason_turn \<Rightarrow> turn_db \<Rightarrow> turn_handle turn_reply" where
  "begin_reason_turn now turn s =
    (let t = turn\<lparr>tn_created := stamp_or now (tn_created turn), tn_status := (if tn_status turn = [] then run_running else tn_status turn)\<rparr>
     in carry_out (\<lambda>s.
          (case insert_turn now t s of (s1, i) \<Rightarrow>
            (case insert_message now (input_message i t) s1 of (s2, p) \<Rightarrow> (s2, \<lparr>th_turn = i, th_input = p\<rparr>)))) s)"

definition insert_event :: "nat \<Rightarrow> nat \<Rightarrow> string \<Rightarrow> llm_event \<Rightarrow> turn_db \<Rightarrow> turn_db" where
  "insert_event now turn run ev s =
    (if \<exists>r\<in>set (td_events s). er_turn r = turn \<and> le_seq (er_event r) = le_seq ev then s
     else s\<lparr>td_events := td_events s @ [\<lparr>er_turn = turn, er_run = run,
             er_event = ev\<lparr>le_payload := [], le_created := stamp_or now (le_created ev)\<rparr>, er_payload = payload_text (le_payload ev)\<rparr>]\<rparr>)"

definition append_llm_events :: "nat \<Rightarrow> nat \<Rightarrow> string \<Rightarrow> llm_event list \<Rightarrow> turn_db \<Rightarrow> unit turn_reply" where
  "append_llm_events now turn run evs s =
    (if turn = 0 \<or> evs = [] then (s, Inr ()) else carry_out (\<lambda>s. (fold (insert_event now turn run) evs s, ())) s)"

definition append_llm_messages :: "nat \<Rightarrow> nat \<Rightarrow> llm_message list \<Rightarrow> turn_db \<Rightarrow> unit turn_reply" where
  "append_llm_messages now turn ms s =
    (if turn = 0 \<or> ms = [] then (s, Inr ()) else carry_out (\<lambda>s. (fold (upsert_derived now turn) ms s, ())) s)"

section \<open>Reading a run\<close>

definition read_payload :: "string \<Rightarrow> payload" where
  "read_payload t =
    (if t = [] then [] else (case parse_json t of None \<Rightarrow> [] | Some v \<Rightarrow> (case decode_map [] v of None \<Rightarrow> [] | Some kvs \<Rightarrow> rev kvs)))"

definition events_of :: "nat \<Rightarrow> turn_db \<Rightarrow> llm_event list" where
  "events_of turn s =
    map (\<lambda>r. (er_event r)\<lparr>le_payload := read_payload (er_payload r)\<rparr>)
      (sort_key (\<lambda>r. le_seq (er_event r)) (filter (\<lambda>r. er_turn r = turn) (td_events s)))"

definition list_llm_events :: "nat \<Rightarrow> turn_db \<Rightarrow> llm_event list turn_reply" where
  "list_llm_events turn s = carry_out (\<lambda>s. (s, events_of turn s)) s"

definition messages_of :: "nat \<Rightarrow> turn_db \<Rightarrow> llm_message list" where
  "messages_of turn s = sort_key lm_seq (sort_key lm_id (filter (\<lambda>m. lm_turn m = turn) (td_messages s)))"

definition list_llm_messages :: "nat \<Rightarrow> turn_db \<Rightarrow> llm_message list turn_reply" where
  "list_llm_messages turn s = carry_out (\<lambda>s. (s, messages_of turn s)) s"

definition answer_seq :: "nat \<Rightarrow> turn_db \<Rightarrow> nat option turn_reply" where
  "answer_seq turn s =
    carry_out (\<lambda>s. (s, (case filter (\<lambda>m. lm_role m = RoleAssistant) (messages_of turn s) of [] \<Rightarrow> None | m # _ \<Rightarrow> Some (lm_seq m)))) s"

definition next_message_seq :: "nat \<Rightarrow> turn_db \<Rightarrow> nat turn_reply" where
  "next_message_seq turn s =
    carry_out (\<lambda>s. (s, Suc (fold max (map lm_seq (filter (\<lambda>m. lm_turn m = turn) (td_messages s))) 0))) s"

definition assistant_message_id :: "nat \<Rightarrow> turn_db \<Rightarrow> nat option turn_reply" where
  "assistant_message_id turn s =
    carry_out (\<lambda>s. (s, (case rev (filter (\<lambda>m. lm_role m = RoleAssistant) (messages_of turn s)) of [] \<Rightarrow> None | m # _ \<Rightarrow> Some (lm_id m)))) s"

definition active_reason_turn :: "string \<Rightarrow> nat \<Rightarrow> turn_db \<Rightarrow> reason_turn option turn_reply" where
  "active_reason_turn task agent s =
    (if task = [] \<or> agent = 0 then (s, Inr None)
     else carry_out (\<lambda>s. (s, find (\<lambda>t. tn_task t = task \<and> tn_agent t = agent \<and> tn_status t = run_running) (rev (td_turns s)))) s)"

definition list_llm_messages_after :: "string \<Rightarrow> nat \<Rightarrow> nat \<Rightarrow> int \<Rightarrow> turn_db \<Rightarrow> llm_message list turn_reply" where
  "list_llm_messages_after task agent after limit s =
    (if task = [] \<or> agent = 0 then (s, Inr [])
     else carry_out (\<lambda>s. (s, take (if limit \<le> 0 then 200 else nat limit)
            (sort_key lm_id (filter (\<lambda>m. lm_task m = task \<and> lm_agent m = agent \<and> lm_id m > after) (td_messages s))))) s)"

section \<open>Closing a run\<close>

definition or_old :: "string \<Rightarrow> string \<Rightarrow> string" where
  "or_old new old = (if new = [] then old else new)"

definition finished_turn :: "llm_result \<Rightarrow> reason_turn \<Rightarrow> reason_turn" where
  "finished_turn res t =
    t\<lparr>tn_raw := rr_raw res, tn_normalized := normalize_reason_output (rr_raw res), tn_run := or_old (rr_run res) (tn_run t),
      tn_llm_agent := or_old (rr_llm_agent res) (tn_llm_agent t), tn_status := rr_status res, tn_error_code := rr_error_code res,
      tn_error_message := rr_error_message res, tn_duration := rr_duration res, tn_event_count := rr_event_count res,
      tn_usage := rr_usage res, tn_ended := rr_ended res\<rparr>"

definition update_turn :: "nat \<Rightarrow> (reason_turn \<Rightarrow> reason_turn) \<Rightarrow> turn_db \<Rightarrow> turn_db" where
  "update_turn i f s = s\<lparr>td_turns := map (\<lambda>t. if tn_id t = i then f t else t) (td_turns s)\<rparr>"

fun record_aggregated :: "nat \<Rightarrow> turn_handle \<Rightarrow> llm_message list \<Rightarrow> turn_db \<Rightarrow> unit turn_reply" where
  "record_aggregated now h [] s = (s, Inr ())"
| "record_aggregated now h (m # ms) s =
     and_then (carry_out (\<lambda>s. (upsert_derived now (th_turn h) (m\<lparr>lm_turn := th_turn h, lm_parent := th_input h\<rparr>) s, ())) s)
       (\<lambda>_. record_aggregated now h ms)"

definition record_answer :: "nat \<Rightarrow> turn_handle \<Rightarrow> llm_result \<Rightarrow> nat \<Rightarrow> turn_db \<Rightarrow> unit turn_reply" where
  "record_answer now h res seq s =
    carry_out (\<lambda>s.
      (case find_turn (th_turn h) s of
         None \<Rightarrow> (s, ())
       | Some t \<Rightarrow>
          (fst (insert_message now (message_of_turn t (zero_message\<lparr>lm_seq := seq, lm_role := RoleAssistant, lm_parent := th_input h,
              lm_content := rr_raw res, lm_normalized := normalize_reason_output (rr_raw res), lm_run := rr_run res,
              lm_status := rr_status res, lm_created := rr_ended res\<rparr>)) s), ()))) s"

definition finish_reason_turn :: "nat \<Rightarrow> turn_handle \<Rightarrow> llm_result \<Rightarrow> turn_db \<Rightarrow> unit turn_reply" where
  "finish_reason_turn now h res s =
    (if th_turn h = 0 then (s, Inr ())
     else
       and_then (carry_out (\<lambda>s. (update_turn (th_turn h) (finished_turn res) s, ())) s)
        (\<lambda>_ s1. and_then (list_llm_events (th_turn h) s1)
        (\<lambda>evs s2. and_then (record_aggregated now h (aggregate_chat_messages evs) s2)
        (\<lambda>_ s3. and_then (answer_seq (th_turn h) s3)
        (\<lambda>found s4. and_then
           (case found of Some _ \<Rightarrow> (s4, Inr ())
            | None \<Rightarrow> and_then (next_message_seq (th_turn h) s4) (record_answer now h res))
        (\<lambda>_ s5.
           if rr_run res = [] then (s5, Inr ())
           else carry_out (\<lambda>s. (s\<lparr>td_events := map (\<lambda>r. if er_turn r = th_turn h \<and> er_run r = []
                    then r\<lparr>er_run := rr_run res\<rparr> else r) (td_events s)\<rparr>, ())) s5))))))"

section \<open>Runs older than the messages\<close>

definition backfill_turn :: "nat \<Rightarrow> reason_turn \<Rightarrow> turn_db \<Rightarrow> unit turn_reply" where
  "backfill_turn now t s =
    and_then (list_llm_events (tn_id t) s)
     (\<lambda>evs. carry_out (\<lambda>s.
        (let derived = map (\<lambda>m. message_of_turn t m\<lparr>lm_run := tn_run t, lm_status := tn_status t\<rparr>) (aggregate_chat_messages evs) in
         case insert_message now (input_message (tn_id t) t) s of (s1, p) \<Rightarrow>
           (let s2 = fold (\<lambda>m s. fst (insert_message now (m\<lparr>lm_parent := p\<rparr>) s)) derived s1
            in (fst (insert_message now ((answer_message (tn_id t) (Suc (length derived)) p t)\<lparr>lm_created := tn_created t\<rparr>) s2), ())))))"

fun backfill_turns :: "nat \<Rightarrow> reason_turn list \<Rightarrow> turn_db \<Rightarrow> unit turn_reply" where
  "backfill_turns now [] s = (s, Inr ())"
| "backfill_turns now (t # ts) s = and_then (backfill_turn now t s) (\<lambda>_. backfill_turns now ts)"

definition backfill_llm_messages :: "nat \<Rightarrow> turn_db \<Rightarrow> unit turn_reply" where
  "backfill_llm_messages now s =
    and_then (carry_out (\<lambda>s. (s, filter (\<lambda>t. (tn_input t \<noteq> [] \<or> tn_raw t \<noteq> []) \<and>
          \<not> (\<exists>m\<in>set (td_messages s). lm_turn m = tn_id t)) (td_turns s))) s)
     (\<lambda>pending. backfill_turns now
        (map (\<lambda>t. t\<lparr>tn_normalized := (if tn_normalized t = [] then normalize_reason_output (tn_raw t) else tn_normalized t)\<rparr>) pending))"

end
