(* ===== verification/Llm_Trace.thy ===== *)
theory Llm_Trace
  imports Turn_Store Agents
begin

text \<open>
  The recorder of one run (src/llm_trace.go): it opens the run's row, feeds its events to the
  accumulator and writes each message once it is complete, keeps the raw stream in batches when that is
  asked for, and closes the row.  A write that fails is reported on the standard error and forgotten, so
  only its effect on the tables is modelled.
\<close>

definition event_flush_size :: nat where "event_flush_size = 64"

definition event_stream_enabled :: "string \<Rightarrow> bool" where
  "event_stream_enabled raw \<longleftrightarrow>
    to_lower (trim raw) \<in> set [''1'', ''true'', ''on'', ''yes'', ''enable'', ''enabled'']"

record llm_trace =
  lt_handle :: turn_handle
  lt_run :: string
  lt_seq :: nat
  lt_start :: nat
  lt_buf :: "llm_event list"
  lt_active :: bool
  lt_events :: bool
  lt_agg :: aggregator
  lt_reply :: nat

definition begun_turn :: "nat \<Rightarrow> agent option \<Rightarrow> llm_role \<Rightarrow> string \<Rightarrow> int \<Rightarrow> string \<Rightarrow> string \<Rightarrow> reason_turn" where
  "begun_turn now a role task cycle mode input =
    \<lparr>tn_id = 0, tn_task = task, tn_agent = (case a of None \<Rightarrow> 0 | Some x \<Rightarrow> ag_id x), tn_cycle = cycle, tn_mode = mode,
     tn_provider = (case a of None \<Rightarrow> [] | Some x \<Rightarrow> ag_provider x), tn_model = (case a of None \<Rightarrow> [] | Some x \<Rightarrow> ag_model x),
     tn_llm_agent = (case a of None \<Rightarrow> [] | Some x \<Rightarrow> ag_llm_agent x), tn_input = input, tn_input_role = Some role, tn_raw = [],
     tn_normalized = [], tn_run = [], tn_status = run_running, tn_error_code = [], tn_error_message = [], tn_duration = 0,
     tn_event_count = 0, tn_usage = no_usage, tn_started = Some now, tn_ended = None, tn_created = None\<rparr>"

definition begin_llm_trace ::
  "nat \<Rightarrow> bool \<Rightarrow> bool \<Rightarrow> agent option \<Rightarrow> llm_role \<Rightarrow> string \<Rightarrow> int \<Rightarrow> string \<Rightarrow> string \<Rightarrow> turn_db \<Rightarrow> turn_db \<times> llm_trace" where
  "begin_llm_trace now stored events a role task cycle mode input s =
    (let t = \<lparr>lt_handle = no_handle, lt_run = [], lt_seq = 0, lt_start = now, lt_buf = [], lt_active = False, lt_events = events,
              lt_agg = new_aggregator, lt_reply = 0\<rparr> in
     if \<not> stored then (s, t)
     else (case begin_reason_turn now (begun_turn now a role task cycle mode input) s of
             (s', Inl e) \<Rightarrow> (s', t)
           | (s', Inr h) \<Rightarrow> (s', t\<lparr>lt_handle := h, lt_active := True\<rparr>)))"

definition flush_events :: "nat \<Rightarrow> llm_trace \<Rightarrow> turn_db \<Rightarrow> turn_db \<times> llm_trace" where
  "flush_events now t s =
    (if \<not> lt_active t \<or> lt_buf t = [] then (s, t)
     else (fst (append_llm_events now (th_turn (lt_handle t)) (lt_run t) (lt_buf t) s), t\<lparr>lt_buf := []\<rparr>))"

definition emit_messages :: "nat \<Rightarrow> llm_trace \<Rightarrow> llm_message list \<Rightarrow> turn_db \<Rightarrow> turn_db" where
  "emit_messages now t ms s =
    (if ms = [] then s
     else fst (append_llm_messages now (th_turn (lt_handle t))
       (map (\<lambda>m. m\<lparr>lm_turn := th_turn (lt_handle t), lm_parent := th_input (lt_handle t)\<rparr>) ms) s))"

definition buffer_event :: "nat \<Rightarrow> llm_event \<Rightarrow> llm_trace \<Rightarrow> turn_db \<Rightarrow> turn_db \<times> llm_trace" where
  "buffer_event now ev t s =
    (let ev' = ev\<lparr>le_seq := lt_seq t,
             le_elapsed := (if le_elapsed ev = 0 then (int now - int (lt_start t)) div 1000000 else le_elapsed ev)\<rparr>;
         t' = t\<lparr>lt_seq := Suc (lt_seq t), lt_buf := lt_buf t @ [ev']\<rparr>
     in if event_flush_size \<le> length (lt_buf t') then flush_events now t' s else (s, t'))"

definition emit_event :: "nat \<Rightarrow> llm_event \<Rightarrow> llm_trace \<Rightarrow> turn_db \<Rightarrow> turn_db \<times> llm_trace" where
  "emit_event now ev0 t s =
    (if \<not> lt_active t then (s, t)
     else
       (let ev = ev0\<lparr>le_created := stamp_or now (le_created ev0)\<rparr> in
        case (if lt_events t then buffer_event now ev t s else (s, t)) of
          (s1, t1) \<Rightarrow>
            (case add_event ev (lt_agg t1) of
               (agg, ms) \<Rightarrow> (emit_messages now t1 ms s1, t1\<lparr>lt_agg := agg\<rparr>))))"

fun emit_stream :: "nat \<Rightarrow> llm_event list \<Rightarrow> llm_trace \<Rightarrow> turn_db \<Rightarrow> turn_db \<times> llm_trace" where
  "emit_stream now [] t s = (s, t)"
| "emit_stream now (ev # evs) t s = (case emit_event now ev t s of (s1, t1) \<Rightarrow> emit_stream now evs t1 s1)"

definition closed_result :: "nat \<Rightarrow> llm_trace \<Rightarrow> llm_result \<Rightarrow> llm_result" where
  "closed_result now t res =
    res\<lparr>rr_started := (if rr_started res = None then Some (lt_start t) else rr_started res),
        rr_ended := stamp_or now (rr_ended res),
        rr_event_count := (if rr_event_count res = 0 then lt_seq t else rr_event_count res)\<rparr>"

definition finish_trace :: "nat \<Rightarrow> llm_result \<Rightarrow> llm_trace \<Rightarrow> turn_db \<Rightarrow> turn_db \<times> llm_trace" where
  "finish_trace now res0 t0 s =
    (if \<not> lt_active t0 then (s, t0)
     else
       (let t = t0\<lparr>lt_run := or_old (rr_run res0) (lt_run t0)\<rparr>; res = closed_result now t res0 in
        case flush_events now t s of
          (s1, t1) \<Rightarrow>
            (case flush_groups (lt_agg t1) of
               (agg, ms) \<Rightarrow>
                 (let s2 = emit_messages now t1 ms s1;
                      s3 = fst (finish_reason_turn now (lt_handle t1) res s2)
                  in case assistant_message_id (th_turn (lt_handle t1)) s3 of
                       (s4, found) \<Rightarrow>
                         (s4, t1\<lparr>lt_agg := agg, lt_active := False,
                                 lt_reply := (case found of Inr (Some i) \<Rightarrow> i | _ \<Rightarrow> lt_reply t1)\<rparr>)))))"

definition trace_origin :: "llm_trace \<Rightarrow> nat \<times> nat \<times> nat" where
  "trace_origin t = (th_turn (lt_handle t), th_input (lt_handle t), lt_reply t)"

end
