(* ===== verification/Chat_Laws.thy ===== *)
theory Chat_Laws
  imports Chat_Stream
begin

text \<open>
  What a stream is read as, stated without the accumulator: every event of the two channels has a slot,
  and a message is a function of the events of its slot.  The accumulator computes exactly these
  messages, and what it emits while the stream arrives, written by sequence number, are the messages it
  derives from the whole stream.
\<close>

section \<open>Slots\<close>

datatype slot = Thinking "llm_event list" | Call string "llm_event list"

definition is_call :: "string \<Rightarrow> slot \<Rightarrow> bool" where
  "is_call c sl \<longleftrightarrow> (case sl of Call c' _ \<Rightarrow> c' = c | Thinking _ \<Rightarrow> False)"

fun is_tool_slot :: "slot \<Rightarrow> bool" where
  "is_tool_slot (Thinking evs) = False"
| "is_tool_slot (Call c evs) = True"

fun join_slot :: "llm_event \<Rightarrow> slot \<Rightarrow> slot" where
  "join_slot ev (Thinking evs) = Thinking (evs @ [ev])"
| "join_slot ev (Call c evs) = Call c (evs @ [ev])"

definition call_slot :: "string \<Rightarrow> slot list \<Rightarrow> nat option" where
  "call_slot c sls = (if c = [] then None else find (\<lambda>i. is_call c (sls ! i)) [0..<length sls])"

definition place :: "llm_event \<Rightarrow> slot list \<Rightarrow> slot list" where
  "place ev sls =
    (case le_channel ev of
       ChannelThought \<Rightarrow>
         (if sls \<noteq> [] \<and> \<not> is_tool_slot (last sls) then sls[length sls - 1 := join_slot ev (last sls)] else sls @ [Thinking [ev]])
     | ChannelTool \<Rightarrow>
         (let c = payload_string (le_payload ev) ''call_id'' in
          case call_slot c sls of Some i \<Rightarrow> sls[i := join_slot ev (sls ! i)] | None \<Rightarrow> sls @ [Call c [ev]])
     | _ \<Rightarrow> sls)"

definition chat_slots :: "llm_event list \<Rightarrow> slot list" where
  "chat_slots evs = fold place evs []"

section \<open>The message of a slot\<close>

definition first_of :: "('a \<Rightarrow> 'b option) \<Rightarrow> 'a list \<Rightarrow> 'b option" where
  "first_of f xs = (case List.map_filter f xs of [] \<Rightarrow> None | y # _ \<Rightarrow> Some y)"

definition last_of :: "('a \<Rightarrow> 'b option) \<Rightarrow> 'a list \<Rightarrow> 'b option" where
  "last_of f xs = first_of f (rev xs)"

definition or_value :: "'a \<Rightarrow> 'a option \<Rightarrow> 'a" where
  "or_value d v = (case v of None \<Rightarrow> d | Some x \<Rightarrow> x)"

definition some_name :: "llm_event \<Rightarrow> string option" where
  "some_name ev = (if le_name ev = [] then None else Some (le_name ev))"

definition some_args :: "llm_event \<Rightarrow> json option" where
  "some_args ev = (case map_of (le_payload ev) ''args'' of Some JNull \<Rightarrow> None | v \<Rightarrow> v)"

fun slot_group :: "nat \<Rightarrow> slot \<Rightarrow> chat_group" where
  "slot_group i (Thinking evs) =
     (new_group False i)\<lparr>cg_text := concat (map le_delta evs),
       cg_created := first_of le_created evs, cg_ended := last_of le_created evs,
       cg_reported := first_of (\<lambda>ev. number_payload (le_payload ev) ''thinking_duration_ms'') evs\<rparr>"
| "slot_group i (Call c evs) =
     (new_group True i)\<lparr>cg_call := c, cg_created := first_of le_created evs,
       cg_name := or_value [] (last_of some_name evs), cg_args := or_value JNull (first_of some_args evs),
       cg_result := or_value JNull (last_of (\<lambda>ev. map_of (le_payload ev) ''result'') evs),
       cg_has_result := (last_of (\<lambda>ev. map_of (le_payload ev) ''result'') evs \<noteq> None)\<rparr>"

definition slot_messages :: "slot list \<Rightarrow> llm_message list" where
  "slot_messages sls = map (\<lambda>i. group_message (slot_group (Suc i) (sls ! i))) [0..<length sls]"

section \<open>The accumulator against the slots\<close>

lemma first_of_simps [simp]:
  "first_of f [] = None" "last_of f [] = None"
  "first_of f (xs @ [x]) = (case first_of f xs of None \<Rightarrow> f x | y \<Rightarrow> y)"
  "last_of f (xs @ [x]) = (case f x of None \<Rightarrow> last_of f xs | y \<Rightarrow> y)"
  "first_of f [x] = f x" "last_of f [x] = f x"
  by (auto simp: first_of_def last_of_def List.map_filter_def split: option.splits list.splits)

lemma or_value_simps [simp]: "or_value d None = d" "or_value d (Some x) = x"
  by (simp_all add: or_value_def)

definition plain :: "chat_group \<Rightarrow> chat_group" where
  "plain g = g\<lparr>cg_emitted := False\<rparr>"

lemma emitted_duration [simp]: "thinking_duration (cg_emitted_update f g) = thinking_duration g"
  by (cases "cg_reported g"; cases "cg_created g"; cases "cg_ended g") (simp_all add: thinking_duration_def)

lemma emitted_message [simp]: "group_message (cg_emitted_update f g) = group_message g"
  by (simp add: group_message_def)

lemma plain_message [simp]: "group_message (plain g) = group_message g"
  by (simp add: plain_def)

lemma plain_sel [simp]:
  "cg_tool (plain g) = cg_tool g" "cg_seq (plain g) = cg_seq g" "cg_has_result (plain g) = cg_has_result g" "cg_call (plain g) = cg_call g"
  "plain (cg_emitted_update f g) = plain g"
  by (simp_all add: plain_def)

lemma join_thinking:
  "plain g = slot_group i sl \<Longrightarrow> \<not> is_tool_slot sl \<Longrightarrow> plain (append_text ev g) = slot_group i (join_slot ev sl)"
  by (cases sl; cases g) (auto simp: plain_def append_text_def new_group_def split: option.splits)

lemma first_of_Some: "first_of f xs = Some y \<Longrightarrow> \<exists>x\<in>set xs. f x = Some y"
  by (induction xs rule: rev_induct) (auto split: option.splits)

lemma first_args [simp]: "first_of some_args evs \<noteq> Some JNull"
  by (auto simp: some_args_def dest!: first_of_Some split: option.splits json.splits)

lemma join_call:
  "plain g = slot_group i sl \<Longrightarrow> is_tool_slot sl \<Longrightarrow> plain (merge_tool ev g) = slot_group i (join_slot ev sl)"
  by (cases sl; cases g)
    (auto simp: plain_def merge_tool_def new_group_def some_name_def some_args_def split: option.splits json.splits)

lemma emitted_join [simp]:
  "cg_emitted (append_text ev g) = cg_emitted g" "cg_emitted (merge_tool ev g) = cg_emitted g"
  by (simp_all add: append_text_def merge_tool_def)


lemma slot_group_sel [simp]:
  "cg_seq (slot_group i sl) = i" "cg_tool (slot_group i sl) = is_tool_slot sl" "\<not> cg_emitted (slot_group i sl)"
  by (cases sl; simp add: new_group_def)+

lemma tool_join [simp]: "is_tool_slot (join_slot ev sl) = is_tool_slot sl" "is_call c (join_slot ev sl) = is_call c sl"
  by (cases sl; simp add: is_call_def)+

lemma is_call_tool: "is_call c sl \<Longrightarrow> is_tool_slot sl"
  by (cases sl) (simp_all add: is_call_def)

text \<open>The groups are the slots, and which of them are written already.\<close>

definition follows :: "aggregator \<Rightarrow> slot list \<Rightarrow> bool" where
  "follows a sls \<longleftrightarrow>
     map plain (ag_groups a) = map (\<lambda>i. slot_group (Suc i) (sls ! i)) [0..<length sls] \<and>
     (\<forall>c. known_call c a = call_slot c sls) \<and>
     (\<forall>i<length sls. cg_emitted (ag_groups a ! i) =
        (if is_tool_slot (sls ! i) then cg_has_result (ag_groups a ! i) else Suc i < length sls))"

lemma follows_length: "follows a sls \<Longrightarrow> length (ag_groups a) = length sls"
  unfolding follows_def by (metis length_map map_nth)

lemma follows_group:
  assumes "follows a sls" "i < length sls"
  shows "plain (ag_groups a ! i) = slot_group (Suc i) (sls ! i)" "cg_tool (ag_groups a ! i) = is_tool_slot (sls ! i)"
    "cg_seq (ag_groups a ! i) = Suc i"
proof -
  have "map plain (ag_groups a) ! i = map (\<lambda>i. slot_group (Suc i) (sls ! i)) [0..<length sls] ! i"
    using assms(1) by (simp add: follows_def)
  then show g: "plain (ag_groups a ! i) = slot_group (Suc i) (sls ! i)" using assms follows_length by simp
  then show "cg_tool (ag_groups a ! i) = is_tool_slot (sls ! i)" "cg_seq (ag_groups a ! i) = Suc i"
    by (metis plain_sel(1) slot_group_sel(2), metis plain_sel(2) slot_group_sel(1))
qed

lemma follows_intro:
  assumes "length (ag_groups a) = length sls" "\<And>c. known_call c a = call_slot c sls"
    and "\<And>i. i < length sls \<Longrightarrow> plain (ag_groups a ! i) = slot_group (Suc i) (sls ! i)"
    and "\<And>i. i < length sls \<Longrightarrow> cg_emitted (ag_groups a ! i) =
        (if is_tool_slot (sls ! i) then cg_has_result (ag_groups a ! i) else Suc i < length sls)"
  shows "follows a sls"
  unfolding follows_def using assms by (auto intro!: nth_equalityI)

lemma follows_call: "follows a sls \<Longrightarrow> known_call c a = call_slot c sls"
  by (simp add: follows_def)

lemma known_call_change [simp]: "known_call c (change_group i f a) = known_call c a"
  by (simp add: known_call_def change_group_def)

lemma nth_at_last: "Suc i = length xs \<Longrightarrow> xs ! i = last xs"
  by (cases xs rule: rev_cases) auto

lemma known_call_groups [simp]: "known_call c (ag_groups_update f a) = known_call c a"
  by (simp add: known_call_def)

lemma groups_change [simp]: "ag_groups (change_group i f a) = (ag_groups a)[i := f (ag_groups a ! i)]"
  by (simp add: change_group_def)

lemma last_thinking_slots:
  assumes "follows a sls" shows "last_thinking a \<longleftrightarrow> sls \<noteq> [] \<and> \<not> is_tool_slot (last sls)"
proof -
  have "ag_groups a = [] \<longleftrightarrow> sls = []" using follows_length [OF assms] by (metis length_0_conv)
  then show ?thesis
    using follows_length [OF assms] follows_group(2) [OF assms, of "length sls - 1"]
    by (cases "sls = []") (simp_all add: last_thinking_def last_conv_nth)
qed

lemma call_slot_update: "i < length sls \<Longrightarrow> call_slot c (sls[i := join_slot ev (sls ! i)]) = call_slot c sls"
proof -
  assume "i < length sls"
  then have "is_call c (sls[i := join_slot ev (sls ! i)] ! j) = is_call c (sls ! j)" for j
    by (cases "j = i") simp_all
  then show ?thesis by (simp add: call_slot_def)
qed

lemma find_cong_upt: "(\<And>i. i < n \<Longrightarrow> P i = Q i) \<Longrightarrow> find P [0..<n] = find Q [0..<n]"
  by (rule find_cong) auto

lemma call_slot_append:
  "call_slot c (sls @ [sl]) = (case call_slot c sls of Some i \<Rightarrow> Some i | None \<Rightarrow> if c \<noteq> [] \<and> is_call c sl then Some (length sls) else None)"
proof -
  have "find (\<lambda>i. is_call c ((sls @ [sl]) ! i)) [0..<length sls] = find (\<lambda>i. is_call c (sls ! i)) [0..<length sls]"
    by (rule find_cong_upt) (simp add: nth_append)
  then show ?thesis by (simp add: call_slot_def find_append_case nth_append split: option.split)
qed

lemma call_slot_Some: "call_slot c sls = Some i \<Longrightarrow> i < length sls \<and> is_call c (sls ! i) \<and> c \<noteq> []"
  by (auto simp: call_slot_def find_Some_iff split: if_splits)


section \<open>One event\<close>

lemma put_by_seq_append: "put_by_seq (xs @ ys) t = put_by_seq ys (put_by_seq xs t)"
  by (induction xs arbitrary: t) simp_all

text \<open>The table of what was written: exactly the emitted groups, each with the message it has now.\<close>

definition written :: "aggregator \<Rightarrow> (nat \<times> llm_message) list \<Rightarrow> bool" where
  "written a t \<longleftrightarrow> distinct (map fst t) \<and>
     (\<forall>k. map_of t k = (case k of 0 \<Rightarrow> None | Suc i \<Rightarrow>
        if i < length (ag_groups a) \<and> cg_emitted (ag_groups a ! i) then Some (group_message (ag_groups a ! i)) else None))"

lemma written_same:
  assumes "written a t" "length (ag_groups a) \<le> length (ag_groups b)"
    and "\<And>i. i < length (ag_groups a) \<Longrightarrow> cg_emitted (ag_groups b ! i) = cg_emitted (ag_groups a ! i) \<and>
        (cg_emitted (ag_groups a ! i) \<longrightarrow> group_message (ag_groups b ! i) = group_message (ag_groups a ! i))"
    and "\<And>i. length (ag_groups a) \<le> i \<Longrightarrow> i < length (ag_groups b) \<Longrightarrow> \<not> cg_emitted (ag_groups b ! i)"
  shows "written b t"
proof -
  have "(if i < length (ag_groups a) \<and> cg_emitted (ag_groups a ! i) then Some (group_message (ag_groups a ! i)) else None) =
      (if i < length (ag_groups b) \<and> cg_emitted (ag_groups b ! i) then Some (group_message (ag_groups b ! i)) else None)" for i
    using assms(2) assms(3) [of i] assms(4) [of i] by (cases "i < length (ag_groups a)") auto
  then show ?thesis using assms(1) unfolding written_def by (simp split: nat.split)
qed

lemma put_one [simp]: "map_of (AList.update k m t) = (map_of t)(k \<mapsto> m)"
  by (rule update_conv')

lemma written_put:
  assumes "written a t" "i < length (ag_groups b)" "length (ag_groups b) = length (ag_groups a) \<or>
      length (ag_groups b) = Suc (length (ag_groups a)) \<and> i = length (ag_groups a)"
    and "cg_emitted (ag_groups b ! i)" "lm_seq (group_message (ag_groups b ! i)) = Suc i"
    and "\<And>j. j < length (ag_groups a) \<Longrightarrow> j \<noteq> i \<Longrightarrow> ag_groups b ! j = ag_groups a ! j"
  shows "written b (put_by_seq [group_message (ag_groups b ! i)] t)"
proof -
  have "map_of (AList.update (Suc i) (group_message (ag_groups b ! i)) t) k = (case k of 0 \<Rightarrow> None | Suc j \<Rightarrow>
      if j < length (ag_groups b) \<and> cg_emitted (ag_groups b ! j) then Some (group_message (ag_groups b ! j)) else None)" for k
    using assms(1-4) assms(6) [of "k - 1"] by (cases k) (auto simp: written_def)
  moreover have "distinct (map fst (AList.update (Suc i) (group_message (ag_groups b ! i)) t))"
    using assms(1) by (simp add: written_def distinct_update)
  ultimately show ?thesis using assms(5) by (simp add: written_def)
qed

lemma message_seq [simp]: "lm_seq (group_message g) = cg_seq g"
  by (simp add: group_message_def Let_def)

lemma thought_step:
  assumes "follows a sls" "written a t" "le_channel ev = ChannelThought"
  shows "follows (add_thought ev a) (place ev sls) \<and> written (add_thought ev a) t"
proof (cases "last_thinking a")
  case True
  note len = follows_length [OF assms(1)]
  from True have sls: "sls \<noteq> []" "\<not> is_tool_slot (last sls)" using last_thinking_slots [OF assms(1)] by auto
  let ?n = "length sls - 1"
  have n: "?n < length sls" and last: "last sls = sls ! ?n" using sls(1) by (simp_all add: last_conv_nth)
  have quiet: "\<not> cg_emitted (ag_groups a ! ?n)" using assms(1) n sls unfolding follows_def last by auto
  have b: "add_thought ev a = change_group ?n (append_text ev) a" using True len by (simp add: add_thought_def)
  have sl: "place ev sls = sls[?n := join_slot ev (sls ! ?n)]" using sls assms(3) by (simp add: place_def last)
  have at: "ag_groups (add_thought ev a) ! i = (if i = ?n then append_text ev (ag_groups a ! ?n) else ag_groups a ! i)" if "i < length sls" for i
    using that len n unfolding b change_group_def by simp
  have "follows (add_thought ev a) (place ev sls)"
  proof (rule follows_intro)
    show "length (ag_groups (add_thought ev a)) = length (place ev sls)" by (simp add: b sl change_group_def len)
    show "known_call c (add_thought ev a) = call_slot c (place ev sls)" for c
      using follows_call [OF assms(1)] call_slot_update [OF n] unfolding sl b by simp
  next
    fix i assume "i < length (place ev sls)"
    then have i: "i < length sls" by (simp add: sl)
    show "plain (ag_groups (add_thought ev a) ! i) = slot_group (Suc i) (place ev sls ! i)"
      using i follows_group(1) [OF assms(1) i] n sls(2) unfolding at [OF i] sl last by (auto intro!: join_thinking)
    show "cg_emitted (ag_groups (add_thought ev a) ! i) =
        (if is_tool_slot (place ev sls ! i) then cg_has_result (ag_groups (add_thought ev a) ! i) else Suc i < length (place ev sls))"
      using i n assms(1) quiet sls(2) unfolding at [OF i] sl last follows_def by auto
  qed
  moreover have "written (add_thought ev a) t"
    using assms(2) by (rule written_same) (use quiet n len in \<open>auto simp: b nth_list_update\<close>)
  ultimately show ?thesis by blast
next
  case False
  note len = follows_length [OF assms(1)]
  from False have sls: "\<not> (sls \<noteq> [] \<and> \<not> is_tool_slot (last sls))" using last_thinking_slots [OF assms(1)] by auto
  let ?g = "append_text ev (new_group False (Suc (length sls)))"
  have b: "add_thought ev a = a\<lparr>ag_groups := ag_groups a @ [?g]\<rparr>" using False len by (simp add: add_thought_def)
  have sl: "place ev sls = sls @ [Thinking [ev]]" using sls assms(3) by (auto simp: place_def)
  have g: "plain ?g = slot_group (Suc (length sls)) (Thinking [ev])"
    by (simp add: append_text_def new_group_def plain_def split: option.split)
  have "follows (add_thought ev a) (place ev sls)"
  proof (rule follows_intro)
    show "length (ag_groups (add_thought ev a)) = length (place ev sls)" by (simp add: b sl len)
    show "known_call c (add_thought ev a) = call_slot c (place ev sls)" for c
      using follows_call [OF assms(1), of c] unfolding b sl call_slot_append is_call_def by (simp split: option.split)
  next
    fix i assume "i < length (place ev sls)"
    then have i: "i < length sls \<or> i = length sls" by (auto simp: sl)
    show "plain (ag_groups (add_thought ev a) ! i) = slot_group (Suc i) (place ev sls ! i)"
      using i follows_group(1) [OF assms(1), of i] g len by (auto simp: b sl nth_append)
    have "i < length sls \<Longrightarrow> \<not> is_tool_slot (sls ! i) \<Longrightarrow> Suc i < length sls"
      using sls nth_at_last [of i sls] by (cases "Suc i = length sls") auto
    then show "cg_emitted (ag_groups (add_thought ev a) ! i) =
        (if is_tool_slot (place ev sls ! i) then cg_has_result (ag_groups (add_thought ev a) ! i) else Suc i < length (place ev sls))"
      using i assms(1) len unfolding follows_def by (auto simp: b sl nth_append new_group_def)
  qed
  moreover have "written (add_thought ev a) t"
    using assms(2) by (rule written_same) (auto simp: b nth_append new_group_def)
  ultimately show ?thesis by blast
qed


text \<open>A result for a call that is known already.\<close>

lemma known_tool_step:
  assumes "follows a sls" "written a t" "le_channel ev = ChannelTool"
    and "known_call (payload_string (le_payload ev) ''call_id'') a = Some i" "add_tool ev a = (a', out)"
  shows "follows a' (place ev sls) \<and> written a' (put_by_seq out t)"
proof -
  note len = follows_length [OF assms(1)]
  let ?c = "payload_string (le_payload ev) ''call_id''" and ?g = "merge_tool ev (ag_groups a ! i)"
  have slot: "call_slot ?c sls = Some i" using assms(4) follows_call [OF assms(1)] by simp
  then have i: "i < length sls" "is_tool_slot (sls ! i)" using call_slot_Some is_call_tool by blast+
  have sl: "place ev sls = sls[i := join_slot ev (sls ! i)]" using assms(3) slot by (simp add: place_def)
  have quiet: "cg_emitted (ag_groups a ! i) = cg_has_result (ag_groups a ! i)" using assms(1) i unfolding follows_def by simp
  have tool: "cg_tool ?g" using follows_group(2) [OF assms(1) i(1)] i(2) by (simp add: merge_tool_def)
  have seq: "cg_seq ?g = Suc i" using follows_group(3) [OF assms(1) i(1)] by (simp add: merge_tool_def)
  have a': "a' = change_group i (\<lambda>_. ?g\<lparr>cg_emitted := cg_has_result ?g\<rparr>) a" "out = (if cg_has_result ?g then [group_message ?g] else [])"
  proof -
    have "\<not> cg_has_result ?g \<Longrightarrow> \<not> cg_emitted (ag_groups a ! i)" using quiet by (simp add: merge_tool_def)
    then have "\<not> cg_has_result ?g \<Longrightarrow> ?g\<lparr>cg_emitted := False\<rparr> = ?g" by (cases "ag_groups a ! i") (simp add: merge_tool_def)
    then show "a' = change_group i (\<lambda>_. ?g\<lparr>cg_emitted := cg_has_result ?g\<rparr>) a" "out = (if cg_has_result ?g then [group_message ?g] else [])"
      using assms(4,5) tool i(1) len by (auto simp: add_tool_def emit_group_def change_group_def Let_def split: if_splits)
  qed
  have at: "ag_groups a' ! j = (if j = i then ?g\<lparr>cg_emitted := cg_has_result ?g\<rparr> else ag_groups a ! j)" for j
    using i(1) len by (simp add: a'(1) nth_list_update)
  have "follows a' (place ev sls)"
  proof (rule follows_intro)
    show "length (ag_groups a') = length (place ev sls)" by (simp add: a' sl len)
    show "known_call c a' = call_slot c (place ev sls)" for c
      using follows_call [OF assms(1)] call_slot_update [OF i(1)] unfolding sl a' by simp
  next
    fix j assume "j < length (place ev sls)"
    then have j: "j < length sls" by (simp add: sl)
    show "plain (ag_groups a' ! j) = slot_group (Suc j) (place ev sls ! j)"
      using follows_group(1) [OF assms(1) j] i unfolding at sl by (auto intro!: join_call)
    show "cg_emitted (ag_groups a' ! j) = (if is_tool_slot (place ev sls ! j) then cg_has_result (ag_groups a' ! j) else Suc j < length (place ev sls))"
      using j i assms(1) unfolding at sl follows_def by auto
  qed
  moreover have "written a' (put_by_seq out t)"
  proof (cases "cg_has_result ?g")
    case True
    have "written a' (put_by_seq [group_message (ag_groups a' ! i)] t)"
      using assms(2) by (rule written_put) (use True i len seq in \<open>auto simp: at a'(1)\<close>)
    with True show ?thesis by (simp add: a'(2) at)
  next
    case False
    then have "\<not> cg_has_result (ag_groups a ! i)" by (simp add: merge_tool_def)
    with False show ?thesis
      using quiet written_same [OF assms(2), of a'] by (auto simp: a'(2) at) (auto simp: a'(1))
  qed
  ultimately show ?thesis by blast
qed

text \<open>The first event of a call: the thinking before it is complete.\<close>

lemma add_tool_new:
  assumes "known_call (payload_string (le_payload ev) ''call_id'') a = None" "close_thinking a = (a1, out1)"
  shows "add_tool ev a =
    (let c = payload_string (le_payload ev) ''call_id''; n = length (ag_groups a1);
         g = merge_tool ev ((new_group True (Suc n))\<lparr>cg_call := c, cg_created := le_created ev\<rparr>)
     in (a1\<lparr>ag_groups := ag_groups a1 @ [g\<lparr>cg_emitted := cg_has_result g\<rparr>],
            ag_by_call := (if c = [] then ag_by_call a1 else AList.update c n (ag_by_call a1))\<rparr>,
         out1 @ (if cg_has_result g then [group_message g] else [])))"
proof -
  define c where "c = payload_string (le_payload ev) ''call_id''"
  define g where "g = merge_tool ev ((new_group True (Suc (length (ag_groups a1))))\<lparr>cg_call := c, cg_created := le_created ev\<rparr>)"
  have "cg_tool g" "\<not> cg_emitted g" by (simp_all add: g_def merge_tool_def new_group_def)
  then have "\<not> cg_has_result g \<Longrightarrow> g\<lparr>cg_emitted := False\<rparr> = g" by (cases g) simp
  with \<open>cg_tool g\<close> show ?thesis
    using assms unfolding add_tool_def by (simp add: c_def [symmetric] g_def [symmetric] emit_group_def change_group_def Let_def)
qed

lemma new_tool_step:
  assumes "follows a sls" "written a t" "le_channel ev = ChannelTool"
    and "known_call (payload_string (le_payload ev) ''call_id'') a = None" "add_tool ev a = (a', out)"
  shows "follows a' (place ev sls) \<and> written a' (put_by_seq out t)"
proof -
  note len = follows_length [OF assms(1)]
  let ?n = "length sls" and ?c = "payload_string (le_payload ev) ''call_id''"
  have slot: "call_slot ?c sls = None" using assms(4) follows_call [OF assms(1)] by simp
  have sl: "place ev sls = sls @ [Call ?c [ev]]" using assms(3) slot by (simp add: place_def)
  obtain a1 out1 where close: "close_thinking a = (a1, out1)" by fastforce
  have by_call: "ag_by_call a1 = ag_by_call a"
    using close by (auto simp: close_thinking_def emit_group_def change_group_def Let_def split: if_splits)
  have closed: "length (ag_groups a1) = ?n \<and> written a1 (put_by_seq out1 t) \<and>
      (\<forall>j<?n. plain (ag_groups a1 ! j) = plain (ag_groups a ! j) \<and>
         cg_emitted (ag_groups a1 ! j) = (is_tool_slot (sls ! j) \<longrightarrow> cg_has_result (ag_groups a1 ! j)))"
  proof (cases "last_thinking a")
    case True
    then have sls: "sls \<noteq> []" "\<not> is_tool_slot (sls ! (?n - 1))" using last_thinking_slots [OF assms(1)] by (auto simp: last_conv_nth)
    then have n: "?n - 1 < ?n" by simp
    have ne: "ag_groups a \<noteq> []" using len sls(1) by auto
    have quiet: "\<not> cg_emitted (ag_groups a ! (?n - 1))" using assms(1) n sls unfolding follows_def by auto
    have a1: "a1 = change_group (?n - 1) (cg_emitted_update (\<lambda>_. True)) a" "out1 = [group_message (ag_groups a1 ! (?n - 1))]"
      using True close quiet len n sls(2) follows_group(2) [OF assms(1) n] ne
      by (auto simp: close_thinking_def emit_group_def last_conv_nth Let_def)
    have "written a1 (put_by_seq [group_message (ag_groups a1 ! (?n - 1))] t)"
      using assms(2) by (rule written_put) (use n len follows_group(3) [OF assms(1) n] in \<open>auto simp: a1(1)\<close>)
    moreover have "cg_emitted (ag_groups a1 ! j) = (is_tool_slot (sls ! j) \<longrightarrow> cg_has_result (ag_groups a1 ! j))" if "j < ?n" for j
      using that assms(1) n len sls unfolding follows_def by (auto simp: a1(1) nth_list_update)
    moreover have "plain (ag_groups a1 ! j) = plain (ag_groups a ! j)" if "j < ?n" for j
      using that n len by (auto simp: a1(1) nth_list_update)
    ultimately show ?thesis using len a1 by simp
  next
    case False
    then have "is_tool_slot (sls ! j)" if "j < ?n" "Suc j = ?n" for j
    proof -
      from that have "sls \<noteq> []" "sls ! j = last sls" using nth_at_last by auto
      with False show ?thesis using last_thinking_slots [OF assms(1)] by auto
    qed
    then have "cg_emitted (ag_groups a ! j) = (is_tool_slot (sls ! j) \<longrightarrow> cg_has_result (ag_groups a ! j))" if "j < ?n" for j
      using that assms(1) unfolding follows_def by (cases "Suc j = ?n") auto
    with False close assms(2) len show ?thesis by (simp add: close_thinking_def)
  qed
  let ?g = "merge_tool ev ((new_group True (Suc ?n))\<lparr>cg_call := ?c, cg_created := le_created ev\<rparr>)"
  let ?e = "?g\<lparr>cg_emitted := cg_has_result ?g\<rparr>"
  let ?by = "if ?c = [] then ag_by_call a else AList.update ?c ?n (ag_by_call a)"
  have a': "ag_groups a' = ag_groups a1 @ [?e]" "ag_by_call a' = ?by" "out = out1 @ (if cg_has_result ?g then [group_message ?e] else [])"
    using add_tool_new [OF assms(4) close] assms(5) closed by_call by (simp_all add: Let_def)
  have "follows a' (place ev sls)"
  proof (rule follows_intro)
    show "length (ag_groups a') = length (place ev sls)" by (simp add: a' sl closed)
    show "known_call c a' = call_slot c (place ev sls)" for c
      using follows_call [OF assms(1), of c] slot unfolding sl call_slot_append
      by (auto simp: known_call_def a'(2) is_call_def split: option.split)
  next
    fix j assume "j < length (place ev sls)"
    then have j: "j < ?n \<or> j = ?n" by (auto simp: sl)
    have new: "plain ?e = slot_group (Suc ?n) (Call ?c [ev])"
      by (auto simp: plain_def merge_tool_def new_group_def some_name_def some_args_def split: option.splits json.splits)
    show "plain (ag_groups a' ! j) = slot_group (Suc j) (place ev sls ! j)"
      using j closed follows_group(1) [OF assms(1), of j] new by (auto simp: a'(1) sl nth_append)
    show "cg_emitted (ag_groups a' ! j) = (if is_tool_slot (place ev sls ! j) then cg_has_result (ag_groups a' ! j) else Suc j < length (place ev sls))"
      using j closed by (auto simp: a'(1) sl nth_append)
  qed
  moreover have "written a' (put_by_seq out t)"
  proof (cases "cg_has_result ?g")
    case True
    have w: "written a1 (put_by_seq out1 t)" using closed by blast
    have "written a' (put_by_seq [group_message (ag_groups a' ! ?n)] (put_by_seq out1 t))"
      using w by (rule written_put) (use True closed in \<open>auto simp: a'(1) nth_append merge_tool_def new_group_def\<close>)
    with True closed show ?thesis by (simp add: a'(1,3) nth_append put_by_seq_append)
  next
    case False
    have w: "written a1 (put_by_seq out1 t)" using closed by blast
    have "written a' (put_by_seq out1 t)"
      using w by (rule written_same) (use False closed in \<open>auto simp: a'(1) nth_append\<close>)
    with False show ?thesis by (simp add: a'(3))
  qed
  ultimately show ?thesis by blast
qed

section \<open>A whole stream\<close>

lemma event_step:
  assumes "follows a sls" "written a t" "add_event ev a = (a', out)"
  shows "follows a' (place ev sls) \<and> written a' (put_by_seq out t)"
proof (cases "le_channel ev")
  case ChannelThought
  with assms thought_step [OF assms(1,2)] show ?thesis by (auto simp: add_event_def)
next
  case ChannelTool
  with assms known_tool_step [OF assms(1,2)] new_tool_step [OF assms(1,2)] show ?thesis
    by (cases "known_call (payload_string (le_payload ev) ''call_id'') a") (auto simp: add_event_def)
qed (use assms in \<open>simp_all add: add_event_def place_def\<close>)

lemma stream_step:
  "follows a sls \<Longrightarrow> written a t \<Longrightarrow> add_events evs a = (a', out) \<Longrightarrow>
    follows a' (fold place evs sls) \<and> written a' (put_by_seq out t)"
proof (induction evs arbitrary: a sls t out)
  case (Cons ev evs)
  obtain a1 o1 where e: "add_event ev a = (a1, o1)" by fastforce
  with Cons.prems(3) obtain o2 where o2: "add_events evs a1 = (a', o2)" "out = o1 @ o2" by (auto split: prod.splits)
  from event_step [OF Cons.prems(1,2) e] have "follows a1 (place ev sls)" "written a1 (put_by_seq o1 t)" by auto
  from Cons.IH [OF this o2(1)] show ?case by (simp add: o2(2) put_by_seq_append)
qed simp

lemma new_follows: "follows new_aggregator [] \<and> written new_aggregator []"
  by (auto simp: follows_def written_def new_aggregator_def known_call_def call_slot_def split: nat.split)


lemma map_of_put: "map_of (put_by_seq ms t) k =
    (case map_of (rev (map (\<lambda>m. (lm_seq m, m)) ms)) k of Some m \<Rightarrow> Some m | None \<Rightarrow> map_of t k)"
  by (induction ms arbitrary: t) (auto simp: map_add_def split: option.splits)

lemma distinct_put: "distinct (map fst t) \<Longrightarrow> distinct (map fst (put_by_seq ms t))"
  by (induction ms arbitrary: t) (simp_all add: distinct_update)

lemma put_distinct:
  assumes "distinct (map lm_seq ms)" "m \<in> set ms" shows "map_of (put_by_seq ms t) (lm_seq m) = Some m"
proof -
  have "distinct (map fst (rev (map (\<lambda>m. (lm_seq m, m)) ms)))" using assms(1) by (simp add: comp_def rev_map [symmetric])
  then have "map_of (rev (map (\<lambda>m. (lm_seq m, m)) ms)) (lm_seq m) = Some m"
    using assms(2) by (intro map_of_is_SomeI) auto
  then show ?thesis by (simp add: map_of_put)
qed

lemma put_other: "k \<notin> lm_seq ` set ms \<Longrightarrow> map_of (put_by_seq ms t) k = map_of t k"
  by (induction ms arbitrary: t) auto

lemma flush_step:
  assumes "follows a sls" "written a t"
  shows "map_of (put_by_seq (snd (flush_groups a)) t) k =
      (case k of 0 \<Rightarrow> None | Suc i \<Rightarrow> if i < length sls then Some (group_message (slot_group (Suc i) (sls ! i))) else None)"
proof -
  note len = follows_length [OF assms(1)]
  let ?ms = "snd (flush_groups a)"
  have seqs: "map cg_seq (ag_groups a) = map Suc [0..<length sls]"
    by (rule nth_equalityI) (simp_all add: len follows_group(3) [OF assms(1)])
  have "map lm_seq ?ms = map cg_seq (filter (\<lambda>g. \<not> cg_emitted g) (ag_groups a))"
    by (simp add: flush_groups_def comp_def)
  moreover have "distinct (map cg_seq (ag_groups a))" by (simp add: seqs distinct_map)
  ultimately have dist: "distinct (map lm_seq ?ms)" using distinct_map_filter by metis
  have at: "i < length sls \<Longrightarrow> group_message (ag_groups a ! i) = group_message (slot_group (Suc i) (sls ! i))" for i
    using follows_group(1) [OF assms(1)] plain_message by metis
  show ?thesis
  proof (cases "k \<in> lm_seq ` set ?ms")
    case True
    then obtain m where m: "m \<in> set ?ms" "k = lm_seq m" by blast
    then obtain i where i0: "i < length sls" "m = group_message (ag_groups a ! i)"
      using len by (auto simp: flush_groups_def in_set_conv_nth)
    with m follows_group(3) [OF assms(1) i0(1)] have i: "i < length sls" "k = Suc i" "group_message (ag_groups a ! i) \<in> set ?ms" by auto
    then show ?thesis using put_distinct [OF dist i(3), of t] follows_group(3) [OF assms(1) i(1)] at by simp
  next
    case False
    have "i < length sls \<Longrightarrow> cg_emitted (ag_groups a ! i)" if "k = Suc i" for i
    proof (rule ccontr)
      assume i: "i < length sls" "\<not> cg_emitted (ag_groups a ! i)"
      then have "group_message (ag_groups a ! i) \<in> set ?ms" using len by (auto simp: flush_groups_def)
      with False that show False using follows_group(3) [OF assms(1) i(1)] by (metis imageI message_seq)
    qed
    then show ?thesis using assms(2) len at unfolding put_other [OF False] written_def by (auto split: nat.splits)
  qed
qed

lemma sorted_table:
  assumes "distinct (map fst t)" "\<And>k. map_of t k = (case k of 0 \<Rightarrow> None | Suc i \<Rightarrow> if i < n then Some (f i) else None)"
  shows "map snd (sort_key fst t) = map f [0..<n]"
proof -
  let ?s = "sort_key fst t"
  have dist: "distinct (map fst ?s)" using assms(1) by (simp add: distinct_map)
  have mem: "(k, m) \<in> set t \<longleftrightarrow> (\<exists>i<n. k = Suc i \<and> m = f i)" for k m
    using assms map_of_eq_Some_iff [of t k m] by (auto split: nat.splits if_splits)
  have keys: "set (map fst ?s) = Suc ` {0..<n}"
  proof (rule set_eqI)
    fix k
    have "k \<in> set (map fst ?s) \<longleftrightarrow> (\<exists>m. (k, m) \<in> set t)" by (force simp: image_iff)
    also have "\<dots> \<longleftrightarrow> (\<exists>i<n. k = Suc i)" by (simp add: mem)
    also have "\<dots> \<longleftrightarrow> k \<in> Suc ` {0..<n}" unfolding image_iff by auto
    finally show "k \<in> set (map fst ?s) \<longleftrightarrow> k \<in> Suc ` {0..<n}" .
  qed
  have "map fst ?s = map Suc [0..<n]"
    unfolding map_Suc_upt
    by (rule sorted_distinct_set_unique) (use dist keys in \<open>simp_all del: set_map upt_Suc add: image_Suc_atLeastLessThan\<close>)
  moreover have "?s = map (\<lambda>k. (k, f (k - 1))) (map fst ?s)"
  proof (rule nth_equalityI)
    fix j assume j: "j < length ?s"
    obtain k m where km: "?s ! j = (k, m)" by fastforce
    moreover have "?s ! j \<in> set t" using j by (metis nth_mem set_sort)
    ultimately obtain i where "k = Suc i" "m = f i" using mem by auto
    with km j show "?s ! j = map (\<lambda>k. (k, f (k - 1))) (map fst ?s) ! j" by simp
  qed simp
  ultimately have "?s = map (\<lambda>k. (k, f (k - 1))) (map Suc [0..<n])" by metis
  then show ?thesis by (simp add: comp_def)
qed


section \<open>What a stream is read as\<close>

lemma messages_of_slots: "aggregate_chat_messages evs = slot_messages (chat_slots evs)"
proof -
  obtain a out where a: "add_events evs new_aggregator = (a, out)" by fastforce
  have inv: "follows a (chat_slots evs)" "written a (put_by_seq out [])"
    using stream_step [OF _ _ a, of "[]" "[]"] new_follows by (auto simp: chat_slots_def)
  have "distinct (map fst (put_by_seq (snd (flush_groups a)) (put_by_seq out [])))"
    using inv(2) by (intro distinct_put) (simp add: written_def)
  from sorted_table [OF this flush_step [OF inv]]
  show ?thesis by (simp add: aggregate_chat_messages_def a slot_messages_def)
qed

text \<open>
  C30: The messages a whole stream is read as are the messages of its slots, in the order the slots
  began: a thinking message holds every delta of its events, a tool message the last name and result and
  the first arguments reported under its call id.  The accumulator, which keeps no events, computes the
  same.
\<close>
theorem messages_of_the_slots: "aggregate_chat_messages evs = slot_messages (chat_slots evs)"
  by (rule messages_of_slots)

fun thought_text :: "slot \<Rightarrow> string" where
  "thought_text (Thinking evs) = concat (map le_delta evs)"
| "thought_text (Call c evs) = []"

lemma place_text:
  "concat (map thought_text (place ev sls)) =
    concat (map thought_text sls) @ (if le_channel ev = ChannelThought then le_delta ev else [])"
proof (cases "le_channel ev")
  case ChannelThought
  then show ?thesis
    by (cases sls rule: rev_cases) (auto simp: place_def split: slot.splits elim: is_tool_slot.elims)
next
  case ChannelTool
  then show ?thesis
  proof (cases "call_slot (payload_string (le_payload ev) ''call_id'') sls")
    case (Some i)
    then obtain c evs where i: "i < length sls" "sls ! i = Call c evs"
      using call_slot_Some [OF Some] by (auto simp: is_call_def split: slot.splits)
    then have "map thought_text (sls[i := Call c (evs @ [ev])]) = map thought_text sls"
      by (auto intro!: nth_equalityI simp: nth_list_update)
    with ChannelTool Some i show ?thesis by (simp add: place_def)
  qed (simp add: place_def)
qed (simp_all add: place_def)

lemma slots_text: "concat (map thought_text (fold place evs sls)) =
    concat (map thought_text sls) @ concat (map le_delta (filter (\<lambda>ev. le_channel ev = ChannelThought) evs))"
  by (induction evs arbitrary: sls) (simp_all add: place_text)

lemma slot_message_text:
  "concat (map lm_content (filter (\<lambda>m. lm_role m = RoleThinking) (map (\<lambda>i. group_message (slot_group (Suc i) (sls ! i))) js))) =
    concat (map (\<lambda>i. thought_text (sls ! i)) js)"
proof (induction js)
  case (Cons i js)
  then show ?case by (cases "sls ! i") (simp_all add: group_message_def new_group_def Let_def)
qed simp

text \<open>
  No thinking is lost, invented or reordered: the thinking messages of a stream, joined, are the
  thinking deltas of its events, joined, whatever tool calls come between them.
\<close>
theorem no_thinking_is_lost:
  "concat (map lm_content (filter (\<lambda>m. lm_role m = RoleThinking) (aggregate_chat_messages evs))) =
   concat (map le_delta (filter (\<lambda>ev. le_channel ev = ChannelThought) evs))"
proof -
  have "map (\<lambda>i. thought_text (sls ! i)) [0..<length sls] = map thought_text sls" for sls
    by (rule nth_equalityI) simp_all
  then show ?thesis
    using slots_text [of evs "[]"] by (simp add: messages_of_slots slot_messages_def slot_message_text chat_slots_def)
qed


section \<open>What is written while the stream arrives\<close>

lemma event_emits:
  assumes "follows a sls" "written a t" "add_event ev a = (a', out)" "m \<in> set out"
  shows "\<exists>i<length (place ev sls). m = group_message (slot_group (Suc i) (place ev sls ! i)) \<and>
      (is_tool_slot (place ev sls ! i) \<or> Suc i < length (place ev sls))"
proof -
  have inv: "follows a' (place ev sls)" "written a' (put_by_seq out t)" using event_step [OF assms(1-3)] by auto
  have "distinct (map lm_seq out)"
  proof (cases "le_channel ev")
    case ChannelTool
    then have tool: "add_tool ev a = (a', out)" using assms(3) by (simp add: add_event_def)
    show ?thesis
    proof (cases "known_call (payload_string (le_payload ev) ''call_id'') a")
      case (Some i)
      with tool show ?thesis by (auto simp: add_tool_def emit_group_def Let_def split: if_splits)
    next
      case None
      obtain a1 out1 where close: "close_thinking a = (a1, out1)" by fastforce
      then have "length (ag_groups a1) = length sls"
        using follows_length [OF assms(1)] by (auto simp: close_thinking_def emit_group_def Let_def split: if_splits)
      moreover have "out1 = [] \<or> (\<exists>g. out1 = [g] \<and> lm_seq g \<le> length sls)"
        using close follows_length [OF assms(1)] follows_group(3) [OF assms(1), of "length sls - 1"]
        by (cases sls) (auto simp: close_thinking_def emit_group_def last_thinking_def Let_def split: if_splits)
      ultimately show ?thesis
        using tool add_tool_new [OF None close] by (auto simp: Let_def merge_tool_def new_group_def split: if_splits)
    qed
  qed (use assms(3) in \<open>auto simp: add_event_def\<close>)
  from put_distinct [OF this assms(4), of t] inv(2) obtain i where
    i: "lm_seq m = Suc i" "i < length (ag_groups a')" "cg_emitted (ag_groups a' ! i)" "m = group_message (ag_groups a' ! i)"
    by (auto simp: written_def split: nat.splits if_splits)
  moreover have "i < length (place ev sls)" using i(2) follows_length [OF inv(1)] by simp
  moreover from this have "is_tool_slot (place ev sls ! i) \<or> Suc i < length (place ev sls)"
    using inv(1) i(3) unfolding follows_def by (auto split: if_splits)
  moreover have "group_message (ag_groups a' ! i) = group_message (slot_group (Suc i) (place ev sls ! i))"
    using follows_group(1) [OF inv(1) \<open>i < length (place ev sls)\<close>] plain_message by metis
  ultimately show ?thesis by auto
qed

lemma place_keeps:
  "Suc i < length sls \<Longrightarrow> \<not> is_tool_slot (sls ! i) \<Longrightarrow> place ev sls ! i = sls ! i \<and> Suc i < length (place ev sls)"
  using call_slot_Some [of _ sls] is_call_tool
  by (auto simp: place_def nth_append nth_list_update Let_def split: channel.splits option.splits)

lemma places_keep:
  "Suc i < length sls \<Longrightarrow> \<not> is_tool_slot (sls ! i) \<Longrightarrow> fold place evs sls ! i = sls ! i \<and> Suc i < length (fold place evs sls)"
proof (induction evs arbitrary: sls)
  case (Cons ev evs)
  from place_keeps [OF Cons.prems, of ev] Cons.prems(2) Cons.IH [of "place ev sls"] show ?case by simp
qed simp

lemma emitted_thinking:
  "follows a sls \<Longrightarrow> written a t \<Longrightarrow> add_events evs a = (a', out) \<Longrightarrow> m \<in> set out \<Longrightarrow> lm_role m = RoleThinking \<Longrightarrow>
    \<exists>i. Suc i < length (fold place evs sls) \<and> m = group_message (slot_group (Suc i) (fold place evs sls ! i)) \<and>
      \<not> is_tool_slot (fold place evs sls ! i)"
proof (induction evs arbitrary: a sls t out)
  case (Cons ev evs)
  obtain a1 o1 where e: "add_event ev a = (a1, o1)" by fastforce
  with Cons.prems(3) obtain o2 where o2: "add_events evs a1 = (a', o2)" "out = o1 @ o2" by (auto split: prod.splits)
  from event_step [OF Cons.prems(1,2) e] have inv: "follows a1 (place ev sls)" "written a1 (put_by_seq o1 t)" by auto
  show ?case
  proof (cases "m \<in> set o1")
    case True
    from event_emits [OF Cons.prems(1,2) e True] obtain i where i: "i < length (place ev sls)"
      "m = group_message (slot_group (Suc i) (place ev sls ! i))" "is_tool_slot (place ev sls ! i) \<or> Suc i < length (place ev sls)"
      by auto
    have "\<not> is_tool_slot (place ev sls ! i)" using i(2) Cons.prems(5) by (auto simp: group_message_def Let_def zero_message_def split: if_splits)
    with i places_keep [of i "place ev sls" evs] show ?thesis by auto
  next
    case False
    then have "m \<in> set o2" using Cons.prems(4) o2(2) by simp
    from Cons.IH [OF inv o2(1) this Cons.prems(5)] show ?thesis by simp
  qed
qed simp

text \<open>
  A thinking message written while the run is live is complete: whatever the rest of the stream is,
  the same message is among those the whole stream is read as.  Only the message of a tool call may be
  written again.
\<close>
theorem written_thinking_is_final:
  assumes "add_events evs new_aggregator = (a, out)" "m \<in> set out" "lm_role m = RoleThinking"
  shows "m \<in> set (aggregate_chat_messages (evs @ evs2))"
proof -
  let ?s = "chat_slots evs"
  obtain i where i: "Suc i < length ?s" "m = group_message (slot_group (Suc i) (?s ! i))" "\<not> is_tool_slot (?s ! i)"
    using emitted_thinking [OF _ _ assms, of "[]" "[]"] new_follows by (auto simp: chat_slots_def)
  have "chat_slots (evs @ evs2) ! i = ?s ! i" "Suc i < length (chat_slots (evs @ evs2))"
    using places_keep [OF i(1,3), of evs2] by (simp_all add: chat_slots_def)
  then show ?thesis using i(2) unfolding messages_of_slots slot_messages_def by (auto intro!: image_eqI [of _ _ i])
qed

definition sample_event :: "channel \<Rightarrow> string \<Rightarrow> payload \<Rightarrow> llm_event" where
  "sample_event ch text p = \<lparr>le_seq = 0, le_offset = [], le_channel = ch, le_kind = EvMeta, le_type = [], le_role = [], le_name = [],
     le_delta = text, le_payload = p, le_elapsed = 0, le_created = Some 1\<rparr>"

definition sample_stream :: "llm_event list" where
  "sample_stream =
    [sample_event ChannelThought ''a'' [], sample_event ChannelTool [] [(''call_id'', JStr ''c1'')],
     sample_event ChannelThought ''b'' [], sample_event ChannelTool [] [(''call_id'', JStr ''c1''), (''result'', JBool True)],
     sample_event ChannelThought ''c'' []]"

text \<open>The result of a known call does not end a run of thinking: what comes before and after it is one message.\<close>

lemma thinking_joined_across_a_result:
  "map (\<lambda>m. (lm_role m, lm_content m)) (aggregate_chat_messages sample_stream) =
     [(RoleThinking, ''a''), (RoleTool, ''true''), (RoleThinking, ''bc'')]"
  by code_simp

theorem written_thinking_is_final_witness:
  "\<exists>m. lm_content m = ''a'' \<and> m \<in> set (aggregate_chat_messages (sample_stream @ sample_stream))"
proof -
  let ?m = "zero_message\<lparr>lm_seq := 1, lm_role := RoleThinking, lm_created := Some 1, lm_content := ''a''\<rparr>"
  obtain a out where a: "add_events sample_stream new_aggregator = (a, out)" by fastforce
  have "?m \<in> set (snd (add_events sample_stream new_aggregator))" by code_simp
  then have "?m \<in> set out" by (simp add: a)
  from written_thinking_is_final [OF a this] show ?thesis by (intro exI [of _ ?m]) (simp add: zero_message_def)
qed

end
