(* ===== verification/Turn_Laws.thy ===== *)
theory Turn_Laws
  imports Llm_Trace Chat_Laws
begin

text \<open>
  The tables of the model's runs keep their shape whatever is asked of them and whatever fails.
\<close>

section \<open>The shape of the tables\<close>

definition message_key :: "llm_message \<Rightarrow> nat \<times> nat" where "message_key m = (lm_turn m, lm_seq m)"
definition event_row_key :: "event_row \<Rightarrow> nat \<times> nat" where "event_row_key r = (er_turn r, le_seq (er_event r))"

definition turn_db_ok :: "turn_db \<Rightarrow> bool" where
  "turn_db_ok s \<longleftrightarrow>
     map tn_id (td_turns s) = map Suc [0..<length (td_turns s)] \<and>
     map lm_id (td_messages s) = map Suc [0..<length (td_messages s)] \<and>
     distinct (map message_key (td_messages s)) \<and> distinct (map event_row_key (td_events s)) \<and>
     (\<forall>m\<in>set (td_messages s). lm_turn m \<le> length (td_turns s)) \<and>
     (\<forall>r\<in>set (td_events s). er_turn r \<le> length (td_turns s))"

text \<open>What a step leaves of the other tables.\<close>

definition same_runs :: "turn_db \<Rightarrow> turn_db \<Rightarrow> bool" where
  "same_runs s s' \<longleftrightarrow> td_turns s' = td_turns s \<and> td_events s' = td_events s \<and> td_faults s' = td_faults s"

lemma message_at_key: "message_at i k m \<longleftrightarrow> message_key m = (i, k)"
  by (auto simp: message_at_def message_key_def)

lemma rewrite_sel [simp]:
  "lm_id (rewrite_message new x) = lm_id x" "message_key (rewrite_message new x) = message_key x" "lm_turn (rewrite_message new x) = lm_turn x"
  by (simp_all add: rewrite_message_def message_key_def)

lemma map_rewrite: "(\<And>x. g (f x) = g x) \<Longrightarrow> map (g \<circ> (\<lambda>x. if P x then f x else x)) xs = map g xs"
  by auto

lemma turn_in_range:
  assumes "turn_db_ok s" "t \<in> set (td_turns s)" shows "0 < tn_id t \<and> tn_id t \<le> length (td_turns s)"
proof -
  from assms(2) have "tn_id t \<in> set (map tn_id (td_turns s))" by simp
  also have "\<dots> = set (map Suc [0..<length (td_turns s)])" using assms(1) unfolding turn_db_ok_def by metis
  finally show ?thesis by auto
qed



lemma find_turn_id: "find_turn i s = Some t \<Longrightarrow> tn_id t = i \<and> t \<in> set (td_turns s)"
  by (auto simp: find_turn_def find_Some_iff)

lemma upsert_ok:
  assumes "turn_db_ok s"
  shows "turn_db_ok (upsert_derived now i m s) \<and> same_runs s (upsert_derived now i m s)"
proof (cases "find_turn i s")
  case (Some t)
  then have t: "tn_id t = i" "i \<le> length (td_turns s)" using find_turn_id turn_in_range [OF assms] by blast+
  show ?thesis
  proof (cases "\<exists>x\<in>set (td_messages s). message_at i (lm_seq m) x")
    case True
    then show ?thesis
      using assms Some by (auto simp: upsert_derived_def turn_db_ok_def same_runs_def map_rewrite)
  next
    case False
    then have "message_key (m\<lparr>lm_turn := i\<rparr>) \<notin> set (map message_key (td_messages s))" by (auto simp: message_at_key message_key_def)
    then show ?thesis
      using assms Some t False by (auto simp: upsert_derived_def turn_db_ok_def same_runs_def message_of_turn_def message_key_def Let_def)
  qed
qed (simp add: upsert_derived_def assms same_runs_def)

lemma upserts_ok:
  "turn_db_ok s \<Longrightarrow> turn_db_ok (fold (upsert_derived now i) ms s) \<and> same_runs s (fold (upsert_derived now i) ms s)"
proof (induction ms arbitrary: s)
  case (Cons m ms)
  from upsert_ok [OF Cons.prems, of now i m] Cons.IH [of "upsert_derived now i m s"] show ?case by (simp add: same_runs_def)
qed (simp add: same_runs_def)




section \<open>Every operation keeps it\<close>

definition keeps :: "turn_db \<Rightarrow> turn_db \<Rightarrow> bool" where
  "keeps s s' \<longleftrightarrow> (turn_db_ok s \<longrightarrow> turn_db_ok s') \<and> length (td_turns s) \<le> length (td_turns s')"

lemma keeps_refl [simp]: "keeps s s"
  by (simp add: keeps_def)



















lemma finished_id [simp]: "tn_id (finished_turn res t) = tn_id t"
  by (simp add: finished_turn_def)

lemma run_key [simp]: "event_row_key (r\<lparr>er_run := x\<rparr>) = event_row_key r"
  by (simp add: event_row_key_def)
















end
