(* ===== verification/Conversation_Laws.thy ===== *)
theory Conversation_Laws
  imports Turn_Laws
begin

text \<open>
  A recorded run read back: the input, the messages of its stream, the reply.  \<open>conv\<close> is the
  conversation of a run as a map from the number of a message to what it says.
\<close>

section \<open>A conversation as a map\<close>

type_synonym said = "llm_role \<times> nat \<times> string \<times> string"

definition said :: "llm_message \<Rightarrow> said" where
  "said m = (lm_role m, lm_parent m, lm_content m, lm_normalized m)"

definition conv :: "nat \<Rightarrow> turn_db \<Rightarrow> nat \<Rightarrow> said option" where
  "conv i s k = map_option said (find (message_at i k) (td_messages s))"


lemma rewrite_at [simp]: "message_at i k (rewrite_message new x) = message_at i k x"
  by (simp add: message_at_def rewrite_message_def)

lemma said_simps [simp]:
  "said (rewrite_message new x) = said new" "said (m\<lparr>lm_run := a\<rparr>) = said m" "said (m\<lparr>lm_status := a\<rparr>) = said m"
  "said (m\<lparr>lm_created := c\<rparr>) = said m" "said (m\<lparr>lm_id := i\<rparr>) = said m" "said (m\<lparr>lm_turn := i\<rparr>) = said m" "said (message_of_turn t m) = said m"
  by (simp_all add: said_def rewrite_message_def message_of_turn_def)

lemma message_of_turn_sel [simp]: "lm_turn (message_of_turn t m) = tn_id t" "lm_seq (message_of_turn t m) = lm_seq m"
  by (simp_all add: message_of_turn_def)




section \<open>A conversation as a list\<close>


section \<open>A run without faults\<close>

lemma carry_out_clean: "td_faults s = [] \<Longrightarrow> carry_out f s = (fst (f s), Inr (snd (f s)))"
  by (cases "f s") (simp add: carry_out_def)


text \<open>What a recorder writes, while no statement fails and the raw stream is not kept.\<close>

definition from_run :: "turn_handle \<Rightarrow> llm_message \<Rightarrow> llm_message" where
  "from_run h m = m\<lparr>lm_turn := th_turn h, lm_parent := th_input h\<rparr>"


lemma upserts_faults [simp]: "td_faults (fold (upsert_derived now i) ms s) = td_faults s"
proof (induction ms arbitrary: s)
  case (Cons m ms)
  have "td_faults (upsert_derived now i m s) = td_faults s" by (simp add: upsert_derived_def Let_def split: option.split)
  with Cons show ?case by simp
qed simp




section \<open>Opening and closing a run\<close>





lemma update_turn_conv [simp]: "conv i (update_turn j f s) k = conv i s k" "td_faults (update_turn j f s) = td_faults s"
  "td_events (update_turn j f s) = td_events s"
  by (simp_all add: conv_def update_turn_def)





section \<open>The run that is recorded\<close>


lemma from_run_seq [simp]: "lm_seq (from_run h m) = lm_seq m"
  by (simp add: from_run_def)











lemma emit_messages_run [simp]: "emit_messages now (lt_run_update f t) ms s = emit_messages now t ms s"
  by (simp add: emit_messages_def)




definition empty_turns :: turn_db where
  "empty_turns = \<lparr>td_turns = [], td_events = [], td_messages = [], td_faults = []\<rparr>"

definition sample_result :: llm_result where
  "sample_result = \<lparr>rr_run = ''r1'', rr_llm_agent = [], rr_status = run_finished, rr_error_code = [], rr_error_message = [],
     rr_raw = ''{}'', rr_duration = 0, rr_event_count = 0, rr_usage = no_usage, rr_started = None, rr_ended = None\<rparr>"

definition sample_run :: "bool \<Rightarrow> turn_db \<Rightarrow> turn_db \<times> llm_trace" where
  "sample_run events s =
    (case begin_llm_trace 1 True events None RoleUser ''t1'' 1 ''plan'' ''go'' s of
       (s1, t1) \<Rightarrow> (case emit_stream 2 sample_stream t1 s1 of (s2, t2) \<Rightarrow> finish_trace 3 sample_result t2 s2))"


section \<open>What a reader by cursor misses\<close>

text \<open>
  The stream of an agent is polled by the id of the last row read, and a message that is written again
  keeps its row: a reader whose cursor is past it never sees what the message came to say.
\<close>

theorem rewritten_message_not_polled:
  assumes "find_turn i s \<noteq> None" "x \<in> set (td_messages s)" "message_at i (lm_seq m) x"
    and "\<forall>y\<in>set (td_messages s). message_at i (lm_seq m) y \<longrightarrow> lm_id y \<le> after" "td_faults s = []"
  shows "snd (list_llm_messages_after task ag after limit (upsert_derived now i m s)) = snd (list_llm_messages_after task ag after limit s)"
proof -
  obtain t where t: "find_turn i s = Some t" using assms(1) by auto
  define f where "f = (\<lambda>x. if message_at i (lm_seq m) x then rewrite_message (message_of_turn t m\<lparr>lm_run := tn_run t,
      lm_status := tn_status t, lm_created := stamp_or now (lm_created m)\<rparr>) x else x)"
  have up: "upsert_derived now i m s = s\<lparr>td_messages := map f (td_messages s)\<rparr>"
    using assms(2,3) t by (auto simp: upsert_derived_def f_def Let_def)
  have f: "lm_task (f y) = lm_task y" "lm_agent (f y) = lm_agent y" "lm_id (f y) = lm_id y" for y
    by (simp_all add: f_def rewrite_message_def)
  have "filter (\<lambda>m. lm_task m = task \<and> lm_agent m = ag \<and> lm_id m > after) (map f ms) =
      filter (\<lambda>m. lm_task m = task \<and> lm_agent m = ag \<and> lm_id m > after) ms"
    if "\<forall>y\<in>set ms. message_at i (lm_seq m) y \<longrightarrow> lm_id y \<le> after" for ms
    using that by (induction ms) (auto simp: f, auto simp: f_def)
  with assms(4,5) show ?thesis by (simp add: list_llm_messages_after_def up carry_out_clean)
qed

section \<open>A batch of events that was lost\<close>

text \<open>
  With the raw stream kept, closing a run derives its messages again from the events on record.  When a
  batch of them was not written, those messages are the messages of the rest: they take the numbers of
  the ones written live, and the record of the run is no longer what it said.
\<close>

definition half_stored :: "turn_db \<Rightarrow> turn_db" where
  "half_stored s =
    (let lost = [sample_event ChannelThought ''a'' [], sample_event ChannelTool [] [(''call_id'', JStr ''c1''), (''result'', JBool True)]];
         kept = [(sample_event ChannelThought ''b'' [])\<lparr>le_seq := 2\<rparr>];
         h = \<lparr>th_turn = 1, th_input = 1\<rparr>;
         s1 = fst (begin_reason_turn 1 (begun_turn 1 None RoleUser ''t1'' 1 ''plan'' ''go'') s);
         s2 = fst (append_llm_messages 1 1 (map (from_run h) (aggregate_chat_messages (lost @ kept))) s1);
         s3 = fst (append_llm_events 1 1 [] lost (s2\<lparr>td_faults := [Some ''disk'']\<rparr>));
         s4 = fst (append_llm_events 1 1 [] kept s3)
     in fst (finish_reason_turn 1 h sample_result s4))"

lemma lost_batch_overwrites:
  "map (\<lambda>m. (lm_seq m, lm_role m, lm_content m)) (messages_of 1 (half_stored empty_turns)) =
     [(0, RoleUser, ''go''), (1, RoleThinking, ''b''), (2, RoleTool, ''true''), (3, RoleThinking, ''b''), (4, RoleAssistant, ''{}'')]"
  by code_simp

text \<open>The status of a message is that of its run when it was written: closing the run does not touch it.\<close>

lemma messages_of_a_finished_run_still_running:
  "map (\<lambda>m. (lm_role m, lm_status m)) (messages_of 1 (fst (sample_run False empty_turns))) =
     [(RoleUser, run_running), (RoleThinking, run_running), (RoleTool, run_running), (RoleThinking, run_running), (RoleAssistant, run_finished)]"
  by code_simp

end
