(* ===== verification/Deepseek_Tools.thy ===== *)
theory Deepseek_Tools
  imports Accounts Go_Numbers Json_Decode Chat_Stream
begin

text \<open>
  The tools a DeepSeek session gives its model (src/llmbackend/deepseek/tools.go, tools_exec.go): reading,
  listing and searching the files of a workspace, and, outside plan mode, writing and editing them and
  running a command.

  The operating system is a parameter: reading, writing and making a directory by path, the tree
  \<open>filepath.WalkDir\<close> sees, a shell command with its end, and so are \<open>filepath.Match\<close>, \<open>regexp\<close> and the
  wording of an error and of a duration.  Paths are those of a Unix system.  A number of the arguments is taken
  exactly, where Go rounds it to a float64; one beyond 64 bits is not cut.
\<close>

section \<open>Paths\<close>

text \<open>\<open>filepath.Join\<close> of two, and \<open>filepath.Rel\<close>: the names of a clean path without the common beginning.\<close>

definition path_join :: "string \<Rightarrow> string \<Rightarrow> string" where
  "path_join a b =
    (if a = [] then (if b = [] then [] else clean_path b)
     else clean_path (if b = [] then a else a @ [slash] @ b))"

definition path_parts :: "string \<Rightarrow> string list" where
  "path_parts p = filter (\<lambda>x. x \<noteq> [] \<and> x \<noteq> ''.'') (split_on slash p)"

fun drop_common :: "string list \<Rightarrow> string list \<Rightarrow> string list \<times> string list" where
  "drop_common (x # xs) (y # ys) = (if x = y then drop_common xs ys else (x # xs, y # ys))"
| "drop_common xs ys = (xs, ys)"

definition path_rel :: "string \<Rightarrow> string \<Rightarrow> string option" where
  "path_rel base target =
    (let b = clean_path base; t = clean_path target in
     if b = t then Some ''.''
     else if is_abs b \<noteq> is_abs t then None
     else (case drop_common (path_parts b) (path_parts t) of
             (bs, ts) \<Rightarrow>
               if bs \<noteq> [] \<and> hd bs = ''..'' then None
               else Some (str_join [slash] (replicate (length bs) ''..'' @ ts))))"

section \<open>The operating system\<close>

datatype entry = FileEntry string | DirEntry string "entry list"

fun entry_name :: "entry \<Rightarrow> string" where
  "entry_name (FileEntry n) = n"
| "entry_name (DirEntry n es) = n"

datatype shell_end = ShellOk | ShellExit int | ShellTimeout

record 'f os =
  os_read :: "string \<Rightarrow> 'f \<Rightarrow> string + string"
  os_write :: "string \<Rightarrow> string \<Rightarrow> nat \<Rightarrow> 'f \<Rightarrow> 'f \<times> string option"
  os_mkdir :: "string \<Rightarrow> 'f \<Rightarrow> 'f \<times> string option"
  os_stat :: "string \<Rightarrow> 'f \<Rightarrow> string + nat"
  os_tree :: "string \<Rightarrow> 'f \<Rightarrow> entry option"
  os_shell :: "string \<Rightarrow> string \<Rightarrow> int \<Rightarrow> 'f \<Rightarrow> 'f \<times> string \<times> shell_end"
  os_glob :: "string \<Rightarrow> string \<Rightarrow> bool"
  os_regexp :: "string \<Rightarrow> (string \<Rightarrow> bool) option"
  os_duration :: "int \<Rightarrow> string"

datatype tool_error =
    OutsideWorkspace string string
  | OsError string
  | ContentRequired
  | OldStringRequired
  | OldStringNotFound string
  | OldStringAmbiguous nat string
  | InvalidPattern string
  | InvalidArguments
  | ToolNotAvailable string string

section \<open>The toolbox\<close>

record toolbox =
  tb_root :: string
  tb_mode :: string

definition mode_plan :: string where "mode_plan = ''plan''"
definition max_tool_output :: nat where "max_tool_output = 64 * 1024"
definition max_listed :: nat where "max_listed = 500"
definition default_shell_timeout :: int where "default_shell_timeout = 120 * second"
definition max_shell_timeout :: int where "max_shell_timeout = 600 * second"

definition reading_tools :: "string list" where
  "reading_tools = [''read_file'', ''list_files'', ''search_files'']"

definition tool_names :: "string \<Rightarrow> string list" where
  "tool_names mode = (if mode = mode_plan then reading_tools else reading_tools @ [''write_file'', ''edit_file'', ''run_shell''])"

definition tool_str :: "payload \<Rightarrow> string \<Rightarrow> string" where
  "tool_str args k = (case map_of args k of Some (JStr s) \<Rightarrow> s | _ \<Rightarrow> [])"

definition tool_num :: "payload \<Rightarrow> string \<Rightarrow> int" where
  "tool_num args k = (case map_of args k of Some (JNum t) \<Rightarrow> trunc_number t | _ \<Rightarrow> 0)"

definition cut_mark :: string where "cut_mark = map char_of [0xE2, 0x80, 0xA6 :: nat]"

definition truncate_output :: "string \<Rightarrow> string" where
  "truncate_output s =
    (if length s \<le> max_tool_output then s
     else take max_tool_output s @ [CHR 0x0A] @ cut_mark @ '' [truncated: '' @ show_nat (length s - max_tool_output) @ '' more bytes]'')"

definition resolve_path :: "toolbox \<Rightarrow> string \<Rightarrow> tool_error + string" where
  "resolve_path t path0 =
    (let path = (if trim path0 = [] then ''.'' else trim path0);
         full = clean_path (if is_abs path then path else path_join (tb_root t) path)
     in case path_rel (tb_root t) full of
          None \<Rightarrow> Inl (OutsideWorkspace path (tb_root t))
        | Some rel \<Rightarrow>
            if rel = ''..'' \<or> prefix ''../'' rel then Inl (OutsideWorkspace path (tb_root t)) else Inr full)"

definition display_path :: "toolbox \<Rightarrow> string \<Rightarrow> string" where
  "display_path t full = (case path_rel (tb_root t) full of Some rel \<Rightarrow> rel | None \<Rightarrow> full)"

section \<open>Reading\<close>

text \<open>\<open>strings.SplitAfter\<close> of a newline.\<close>

fun split_after :: "string \<Rightarrow> string list" where
  "split_after [] = [[]]"
| "split_after (c # cs) =
    (if c = CHR 0x0A then [c] # split_after cs
     else (case split_after cs of [] \<Rightarrow> [[c]] | x # xs \<Rightarrow> (c # x) # xs))"

definition line_window :: "int \<Rightarrow> int \<Rightarrow> string \<Rightarrow> string" where
  "line_window offset0 limit raw =
    (if offset0 \<le> 0 \<and> limit \<le> 0 then raw
     else
       (let ls = split_after raw; offset = (if offset0 < 1 then 1 else offset0) in
        if offset > int (length ls) then []
        else (let from = nat (offset - 1);
                  stop = (if limit > 0 \<and> offset - 1 + limit < int (length ls) then nat (offset - 1 + limit) else length ls)
              in concat (drop from (take stop ls)))))"

definition read_file :: "'f os \<Rightarrow> toolbox \<Rightarrow> payload \<Rightarrow> 'f \<Rightarrow> tool_error + string" where
  "read_file o' t args f =
    (case resolve_path t (tool_str args ''path'') of
       Inl e \<Rightarrow> Inl e
     | Inr full \<Rightarrow>
         (case os_read o' full f of
            Inl e \<Rightarrow> Inl (OsError e)
          | Inr raw \<Rightarrow> Inr (line_window (tool_num args ''offset'') (tool_num args ''limit'') raw)))"

definition skip_dir :: "string \<Rightarrow> bool" where
  "skip_dir name \<longleftrightarrow> name = ''.git'' \<or> name = ''node_modules''"

text \<open>The files \<open>walk\<close> would visit, in its order; the paths of a directory's entries are joined to its own.\<close>

fun walk_entry :: "bool \<Rightarrow> string \<Rightarrow> entry \<Rightarrow> (string \<times> string) list" where
  "walk_entry first path (FileEntry n) = [(path, n)]"
| "walk_entry first path (DirEntry n es) =
    (if \<not> first \<and> skip_dir n then [] else concat (map (\<lambda>e. walk_entry False (path_join path (entry_name e)) e) es))"

definition walk_files :: "'f os \<Rightarrow> string \<Rightarrow> string \<Rightarrow> 'f \<Rightarrow> string list" where
  "walk_files o' root glob f =
    (case os_tree o' root f of
       None \<Rightarrow> []
     | Some e \<Rightarrow> map fst (filter (\<lambda>(p, n). glob = [] \<or> os_glob o' glob n) (walk_entry True root e)))"

definition list_files :: "'f os \<Rightarrow> toolbox \<Rightarrow> payload \<Rightarrow> 'f \<Rightarrow> tool_error + string" where
  "list_files o' t args f =
    (case resolve_path t (tool_str args ''path'') of
       Inl e \<Rightarrow> Inl e
     | Inr root \<Rightarrow>
         (case os_stat o' root f of
            Inl e \<Rightarrow> Inl (OsError e)
          | Inr _ \<Rightarrow>
              (let found = walk_files o' root (tool_str args ''pattern'') f;
                   out = str_join [CHR 0x0A] (sort (map (display_path t) (take max_listed found)))
                         @ (if max_listed < length found
                            then [CHR 0x0A] @ cut_mark @ '' [stopped at '' @ show_nat max_listed @ '' files]'' else [])
               in Inr (if out = [] then ''(no files)'' else out))))"

text \<open>
  The lines \<open>bufio.Scanner\<close> gives of a text: a line of a mebibyte or more ends the reading, a last empty
  line is none, and a carriage return before the newline is dropped.
\<close>

definition max_line :: nat where "max_line = 1024 * 1024"

definition scan_lines :: "string \<Rightarrow> string list" where
  "scan_lines text =
    (let ls = split_on (CHR 0x0A) text;
         whole = (if last ls = [] then butlast ls else ls)
     in map (\<lambda>l. if l \<noteq> [] \<and> last l = CHR 0x0D then butlast l else l) (takeWhile (\<lambda>l. length l < max_line) whole))"

definition file_hits :: "(string \<Rightarrow> bool) \<Rightarrow> string \<Rightarrow> string \<Rightarrow> string list" where
  "file_hits matches name text =
    map (\<lambda>(i, l). name @ '':'' @ show_nat i @ '': '' @ l)
      (filter (\<lambda>(i, l). matches l)
        (List.enumerate 1 (takeWhile (\<lambda>l. CHR 0x00 \<notin> set l) (scan_lines text))))"

definition search_files :: "'f os \<Rightarrow> toolbox \<Rightarrow> payload \<Rightarrow> 'f \<Rightarrow> tool_error + string" where
  "search_files o' t args f =
    (case os_regexp o' (tool_str args ''pattern'') of
       None \<Rightarrow> Inl (InvalidPattern (tool_str args ''pattern''))
     | Some matches \<Rightarrow>
         (case resolve_path t (tool_str args ''path'') of
            Inl e \<Rightarrow> Inl e
          | Inr root \<Rightarrow>
              (let hits = take max_listed (concat (map (\<lambda>p. case os_read o' p f of
                       Inl _ \<Rightarrow> [] | Inr text \<Rightarrow> file_hits matches (display_path t p) text)
                     (walk_files o' root (tool_str args ''glob'') f)))
               in Inr (if hits = [] then ''(no matches)'' else str_join [CHR 0x0A] hits))))"

section \<open>Changing\<close>

text \<open>\<open>filepath.Dir\<close>, \<open>strings.Count\<close> and \<open>strings.Replace\<close> of the first one.\<close>

definition path_dir :: "string \<Rightarrow> string" where
  "path_dir p = clean_path (case last_index slash p of None \<Rightarrow> [] | Some i \<Rightarrow> take (Suc i) p)"

fun count_from :: "string \<Rightarrow> nat \<Rightarrow> string \<Rightarrow> nat" where
  "count_from k n [] = 0"
| "count_from k (Suc n) (c # s) = count_from k n s"
| "count_from k 0 (c # s) = (if prefix k (c # s) then Suc (count_from k (length k - 1) s) else count_from k 0 s)"

definition replace_once :: "string \<Rightarrow> string \<Rightarrow> string \<Rightarrow> string" where
  "replace_once s k v = (case str_index k s of None \<Rightarrow> s | Some i \<Rightarrow> take i s @ v @ drop (i + length k) s)"

definition file_perm :: nat where "file_perm = 420"

definition write_file :: "'f os \<Rightarrow> toolbox \<Rightarrow> payload \<Rightarrow> 'f \<Rightarrow> 'f \<times> (tool_error + string)" where
  "write_file o' t args f =
    (case resolve_path t (tool_str args ''path'') of
       Inl e \<Rightarrow> (f, Inl e)
     | Inr full \<Rightarrow>
         (case map_of args ''content'' of
            Some (JStr content) \<Rightarrow>
              (case os_mkdir o' (path_dir full) f of
                 (f1, Some e) \<Rightarrow> (f1, Inl (OsError e))
               | (f1, None) \<Rightarrow>
                   (case os_write o' full content file_perm f1 of
                      (f2, Some e) \<Rightarrow> (f2, Inl (OsError e))
                    | (f2, None) \<Rightarrow>
                        (f2, Inr (''wrote '' @ display_path t full @ '' ('' @ show_nat (length content) @ '' bytes)''))))
          | _ \<Rightarrow> (f, Inl ContentRequired)))"

definition edited_text :: "bool \<Rightarrow> string \<Rightarrow> string \<Rightarrow> string \<Rightarrow> string" where
  "edited_text all old new text = (if all then replace_all text old new else replace_once text old new)"

definition edit_file :: "'f os \<Rightarrow> toolbox \<Rightarrow> payload \<Rightarrow> 'f \<Rightarrow> 'f \<times> (tool_error + string)" where
  "edit_file o' t args f =
    (case resolve_path t (tool_str args ''path'') of
       Inl e \<Rightarrow> (f, Inl e)
     | Inr full \<Rightarrow>
         (let old = tool_str args ''old_string''; new = tool_str args ''new_string'' in
          if old = [] then (f, Inl OldStringRequired)
          else (case os_read o' full f of
                  Inl e \<Rightarrow> (f, Inl (OsError e))
                | Inr text \<Rightarrow>
                    (let count = count_from old 0 text; all = (map_of args ''replace_all'' = Some (JBool True)) in
                     if count = 0 then (f, Inl (OldStringNotFound (display_path t full)))
                     else if 1 < count \<and> \<not> all then (f, Inl (OldStringAmbiguous count (display_path t full)))
                     else (let perm = (case os_stat o' full f of Inr p \<Rightarrow> p | Inl _ \<Rightarrow> file_perm) in
                           case os_write o' full (edited_text all old new text) perm f of
                             (f1, Some e) \<Rightarrow> (f1, Inl (OsError e))
                           | (f1, None) \<Rightarrow>
                               (f1, Inr (''edited '' @ display_path t full @ '' ('' @ show_nat (if all then count else 1) @
                                    '' replacement(s))'')))))))"

section \<open>A command\<close>

definition shell_timeout :: "payload \<Rightarrow> int" where
  "shell_timeout args =
    (let s = tool_num args ''timeout_seconds'';
         timeout = (if s > 0 then wrap64 (s * second) else default_shell_timeout)
     in if timeout > max_shell_timeout then max_shell_timeout else timeout)"

definition run_shell :: "'f os \<Rightarrow> toolbox \<Rightarrow> payload \<Rightarrow> 'f \<Rightarrow> 'f \<times> string \<times> bool" where
  "run_shell o' t args f =
    (let command = tool_str args ''command'' in
     if trim command = [] then (f, ''command is required'', True)
     else (case os_shell o' (tb_root t) command (shell_timeout args) f of
             (f1, raw, ended) \<Rightarrow>
               (let out = truncate_output raw in
                case ended of
                  ShellTimeout \<Rightarrow> (f1, out @ [CHR 0x0A] @ ''[timed out after '' @ os_duration o' (shell_timeout args) @ '']'', True)
                | ShellExit code \<Rightarrow> (f1, out @ [CHR 0x0A] @ ''[exit code '' @ show_int code @ '']'', True)
                | ShellOk \<Rightarrow> (f1, out @ [CHR 0x0A] @ ''[exit code 0]'', False))))"

section \<open>One call\<close>

definition tool_args :: "string \<Rightarrow> payload option" where
  "tool_args arguments =
    (case parse_json (if trim arguments = [] then ''{}'' else arguments) of
       None \<Rightarrow> None
     | Some v \<Rightarrow> map_option rev (decode_map [] v))"

definition file_tool :: "'f os \<Rightarrow> toolbox \<Rightarrow> string \<Rightarrow> payload \<Rightarrow> 'f \<Rightarrow> 'f \<times> (tool_error + string)" where
  "file_tool o' t name args f =
    (if name = ''read_file'' then (f, read_file o' t args f)
     else if name = ''write_file'' then write_file o' t args f
     else if name = ''edit_file'' then edit_file o' t args f
     else if name = ''list_files'' then (f, list_files o' t args f)
     else if name = ''search_files'' then (f, search_files o' t args f)
     else (f, Inr []))"

definition run_tool :: "'f os \<Rightarrow> (tool_error \<Rightarrow> string) \<Rightarrow> toolbox \<Rightarrow> string \<Rightarrow> string \<Rightarrow> 'f \<Rightarrow> 'f \<times> string \<times> bool" where
  "run_tool o' words t name arguments f =
    (case tool_args arguments of
       None \<Rightarrow> (f, words InvalidArguments, True)
     | Some args \<Rightarrow>
         if name \<notin> set (tool_names (tb_mode t)) then (f, words (ToolNotAvailable name (tb_mode t)), True)
         else if name = ''run_shell'' then run_shell o' t args f
         else (case file_tool o' t name args f of
                 (f1, Inl e) \<Rightarrow> (f1, words e, True)
               | (f1, Inr out) \<Rightarrow> (f1, truncate_output out, False)))"

end
