(* ===== verification/Deepseek_Client.thy ===== *)
theory Deepseek_Client
  imports Deepseek_Tools Turn_Store
begin

text \<open>
  The stream of a chat completion put together (src/llmbackend/deepseek/client.go) and its native events
  read as neutral ones (src/llmbackend/deepseek/events.go).

  The HTTP exchange is a parameter: the lines of the answer and how they ended.  A token count is not
  rounded to 64 bits.
\<close>

section \<open>Messages\<close>

record tool_call =
  tl_id :: string
  tl_name :: string
  tl_args :: string

definition empty_call :: tool_call where "empty_call = \<lparr>tl_id = [], tl_name = [], tl_args = []\<rparr>"

record ds_message =
  dm_role :: string
  dm_content :: string
  dm_reasoning :: string
  dm_calls :: "tool_call list"
  dm_call_id :: string

definition ds_text :: "string \<Rightarrow> string \<Rightarrow> ds_message" where
  "ds_text role content = \<lparr>dm_role = role, dm_content = content, dm_reasoning = [], dm_calls = [], dm_call_id = []\<rparr>"

record call_delta =
  cd_index :: int
  cd_id :: string
  cd_name :: string
  cd_args :: string

record chunk_choice =
  cc_content :: string
  cc_reasoning :: string
  cc_calls :: "call_delta list"
  cc_finish :: "string option"

record chunk =
  ck_id :: string
  ck_model :: string
  ck_choices :: "chunk_choice list"
  ck_usage :: payload

record completion =
  cp_id :: string
  cp_model :: string
  cp_message :: ds_message
  cp_finish :: string
  cp_usage :: payload

section \<open>Decoding a chunk\<close>

definition zero_delta :: call_delta where "zero_delta = \<lparr>cd_index = 0, cd_id = [], cd_name = [], cd_args = []\<rparr>"
definition zero_choice :: chunk_choice where "zero_choice = \<lparr>cc_content = [], cc_reasoning = [], cc_calls = [], cc_finish = None\<rparr>"
definition zero_chunk :: chunk where "zero_chunk = \<lparr>ck_id = [], ck_model = [], ck_choices = [], ck_usage = []\<rparr>"

definition delta_fields :: "(string \<times> (call_delta \<Rightarrow> json \<Rightarrow> call_delta option)) list" where
  "delta_fields =
    [(''index'', into cd_index cd_index_update decode_int), (''id'', into cd_id cd_id_update decode_string),
     (''type'', \<lambda>d v. map_option (\<lambda>_. d) (decode_string [] v)),
     (''function'', decode_struct [(''name'', into cd_name cd_name_update decode_string),
                                  (''arguments'', into cd_args cd_args_update decode_string)])]"

definition decode_word :: "string option \<Rightarrow> json \<Rightarrow> string option option" where
  "decode_word old v = (case v of JStr s \<Rightarrow> Some (Some s) | JNull \<Rightarrow> Some None | _ \<Rightarrow> None)"

definition choice_fields :: "(string \<times> (chunk_choice \<Rightarrow> json \<Rightarrow> chunk_choice option)) list" where
  "choice_fields =
    [(''index'', \<lambda>c v. map_option (\<lambda>_. c) (decode_int 0 v)),
     (''delta'', decode_struct
        [(''role'', \<lambda>c v. map_option (\<lambda>_. c) (decode_string [] v)),
         (''content'', into cc_content cc_content_update decode_string),
         (''reasoning_content'', into cc_reasoning cc_reasoning_update decode_string),
         (''tool_calls'', into cc_calls cc_calls_update (decode_slice (decode_struct delta_fields) zero_delta))]),
     (''finish_reason'', into cc_finish cc_finish_update decode_word)]"

definition chunk_fields :: "(string \<times> (chunk \<Rightarrow> json \<Rightarrow> chunk option)) list" where
  "chunk_fields =
    [(''id'', into ck_id ck_id_update decode_string), (''model'', into ck_model ck_model_update decode_string),
     (''choices'', into ck_choices ck_choices_update (decode_slice (decode_struct choice_fields) zero_choice)),
     (''usage'', into ck_usage ck_usage_update decode_map)]"

definition decode_chunk :: "string \<Rightarrow> chunk option" where
  "decode_chunk data = (case parse_json data of None \<Rightarrow> None | Some v \<Rightarrow> decode_struct chunk_fields zero_chunk v)"

section \<open>Native events\<close>

definition native :: "string \<Rightarrow> (string \<times> json) list \<Rightarrow> payload" where
  "native typ kvs = (''type'', JStr typ) # kvs"

definition usage_count_of :: "payload \<Rightarrow> string \<Rightarrow> int" where
  "usage_count_of p k = (case payload_number p [k] of None \<Rightarrow> 0 | Some n \<Rightarrow> trunc_number n)"

definition payload_map :: "payload \<Rightarrow> string \<Rightarrow> payload" where
  "payload_map p k = (case map_of p k of Some (JObj kvs) \<Rightarrow> rev kvs | _ \<Rightarrow> [])"

definition usage_of :: "payload \<Rightarrow> usage" where
  "usage_of u =
    (let total = usage_count_of u ''total_tokens''; inp = usage_count_of u ''prompt_tokens''; outp = usage_count_of u ''completion_tokens'' in
     no_usage\<lparr>us_input := inp, us_output := outp, us_cache_read := usage_count_of u ''prompt_cache_hit_tokens'',
       us_reasoning := usage_count_of (payload_map u ''completion_tokens_details'') ''reasoning_tokens'',
       us_total := (if total = 0 then inp + outp else total)\<rparr>)"

definition add_usage :: "usage \<Rightarrow> usage \<Rightarrow> usage" where
  "add_usage a b =
    a\<lparr>us_input := us_input a + us_input b, us_output := us_output a + us_output b, us_cache_read := us_cache_read a + us_cache_read b,
      us_reasoning := us_reasoning a + us_reasoning b, us_total := us_total a + us_total b\<rparr>"

definition decode_args :: "string \<Rightarrow> json" where
  "decode_args raw =
    (case parse_json raw of
       None \<Rightarrow> JStr raw
     | Some v \<Rightarrow> (case v of JObj kvs \<Rightarrow> JObj kvs | JNull \<Rightarrow> JNull | _ \<Rightarrow> JStr raw))"

definition member :: "payload \<Rightarrow> string \<Rightarrow> json" where
  "member p k = (case map_of p k of Some v \<Rightarrow> v | None \<Rightarrow> JNull)"

definition map_native :: "nat \<Rightarrow> stamp \<Rightarrow> payload \<Rightarrow> llm_event option" where
  "map_native now started n =
    (let typ = payload_string n ''type''; words = payload_string n ''text'';
         ev = \<lparr>le_seq = 0, le_offset = [], le_channel = ChannelMeta, le_kind = EvMeta, le_type = typ, le_role = ''system'', le_name = [],
               le_delta = [], le_payload = n,
               le_elapsed = (case started of None \<Rightarrow> 0 | Some s \<Rightarrow> (int now - int s) div 1000000), le_created = Some now\<rparr>;
         name = payload_string n ''name''
     in if typ = [] then None
        else Some
         (if typ = ''reasoning_delta'' then
            ev\<lparr>le_channel := ChannelThought, le_kind := EvThoughtDelta, le_role := ''assistant'', le_delta := words,
               le_payload := with_neutral_text n words\<rparr>
          else if typ = ''reasoning_end'' then
            ev\<lparr>le_channel := ChannelThought, le_kind := EvThoughtEnd, le_role := ''assistant'', le_payload := with_neutral_text n words\<rparr>
          else if typ = ''content_delta'' then
            ev\<lparr>le_channel := ChannelAssistant, le_kind := EvAssistantDelta, le_role := ''assistant'', le_delta := words,
               le_payload := with_neutral_text n words\<rparr>
          else if typ = ''tool_call_delta'' then ev\<lparr>le_name := name\<rparr>
          else if typ = ''tool_call'' then
            ev\<lparr>le_channel := ChannelTool, le_kind := EvToolStarted, le_role := ''tool'', le_name := name,
               le_payload :=
                 (let p = with_neutral_kv n [(''call_id'', member n ''id''), (''name'', JStr name), (''status'', JStr ''running'')];
                      args = decode_args (payload_string n ''arguments'')
                  in if args = JStr [] then p else AList.update ''args'' args p)\<rparr>
          else if typ = ''tool_result'' then
            ev\<lparr>le_channel := ChannelTool, le_kind := EvToolCompleted, le_role := ''tool'', le_name := name,
               le_payload :=
                 (let p = with_neutral_kv n [(''call_id'', member n ''id''), (''name'', JStr name), (''result'', member n ''content''),
                       (''status'', JStr (if map_of n ''is_error'' = Some (JBool True) then ''failed'' else ''completed''))]
                  in case payload_number n [''duration_ms''] of
                       None \<Rightarrow> p | Some d \<Rightarrow> with_neutral_kv p [(''duration_ms'', JNum (show_int (trunc_number d)))])\<rparr>
          else if typ = ''usage'' then
            ev\<lparr>le_channel := ChannelStatus, le_kind := EvUsage,
               le_payload := (let u = usage_of (payload_map n ''usage'') in
                 with_neutral_kv n [(''input_tokens'', JNum (show_int (us_input u))), (''output_tokens'', JNum (show_int (us_output u))),
                   (''cache_read_tokens'', JNum (show_int (us_cache_read u))), (''total_tokens'', JNum (show_int (us_total u)))])\<rparr>
          else if typ = ''finish'' then
            ev\<lparr>le_channel := ChannelStatus, le_kind := EvStatus, le_payload := with_neutral_kv n [(''status'', member n ''finish_reason'')]\<rparr>
          else if typ = ''error'' then
            ev\<lparr>le_channel := ChannelError, le_kind := EvError, le_payload := with_neutral_kv n [(''message'', member n ''message'')]\<rparr>
          else ev))"

section \<open>A stream\<close>

datatype stream_end = StreamEof | StreamBroken string

datatype ds_error =
    DsCancelled
  | DsHttp string
  | BadChunk
  | StreamRead string
  | NoFinish
  | IndexPanic
  | IterationLimit nat
  | EmptyResponse
  | StoreFailed string
  | NoApiKey
  | TranscriptUnreadable string

definition first_set :: "string \<Rightarrow> string \<Rightarrow> string" where
  "first_set a b = (if a \<noteq> [] then a else b)"

text \<open>A negative index is a panic of the slice access.\<close>

definition add_call_delta :: "call_delta \<Rightarrow> tool_call list \<Rightarrow> (tool_call list \<times> payload) option" where
  "add_call_delta d calls =
    (if cd_index d < 0 then None
     else
       (let i = nat (cd_index d);
            grown = calls @ replicate (Suc i - length calls) empty_call;
            c = grown ! i;
            c' = \<lparr>tl_id = first_set (tl_id c) (cd_id d), tl_name = tl_name c @ cd_name d, tl_args = tl_args c @ cd_args d\<rparr>
        in Some (grown[i := c'],
             native ''tool_call_delta'' [(''index'', JNum (show_int (cd_index d))), (''id'', JStr (tl_id c')), (''name'', JStr (tl_name c')),
               (''arguments'', JStr (cd_args d))])))"

fun add_call_deltas :: "call_delta list \<Rightarrow> tool_call list \<Rightarrow> tool_call list \<times> payload list \<times> bool" where
  "add_call_deltas [] calls = (calls, [], True)"
| "add_call_deltas (d # ds) calls =
    (case add_call_delta d calls of
       None \<Rightarrow> (calls, [], False)
     | Some (calls', ev) \<Rightarrow> (case add_call_deltas ds calls' of (calls'', evs, ok) \<Rightarrow> (calls'', ev # evs, ok)))"

definition add_choice :: "chunk_choice \<Rightarrow> completion \<Rightarrow> completion \<times> payload list \<times> bool" where
  "add_choice c out =
    (let m = cp_message out;
         m1 = m\<lparr>dm_reasoning := dm_reasoning m @ cc_reasoning c, dm_content := dm_content m @ cc_content c\<rparr>;
         evs1 = (if cc_reasoning c = [] then [] else [native ''reasoning_delta'' [(''text'', JStr (cc_reasoning c))]])
              @ (if cc_content c = [] then [] else [native ''content_delta'' [(''text'', JStr (cc_content c))]])
     in case add_call_deltas (cc_calls c) (dm_calls m1) of
          (calls, evs2, ok) \<Rightarrow>
            (let out1 = out\<lparr>cp_message := m1\<lparr>dm_calls := calls\<rparr>\<rparr> in
             if \<not> ok then (out1, evs1 @ evs2, False)
             else (case cc_finish c of
                     Some w \<Rightarrow> if w = [] then (out1, evs1 @ evs2, True)
                       else (out1\<lparr>cp_finish := w\<rparr>, evs1 @ evs2 @ [native ''finish'' [(''finish_reason'', JStr w)]], True)
                   | None \<Rightarrow> (out1, evs1 @ evs2, True))))"

fun add_choices :: "chunk_choice list \<Rightarrow> completion \<Rightarrow> completion \<times> payload list \<times> bool" where
  "add_choices [] out = (out, [], True)"
| "add_choices (c # cs) out =
    (case add_choice c out of
       (out1, evs, False) \<Rightarrow> (out1, evs, False)
     | (out1, evs, True) \<Rightarrow> (case add_choices cs out1 of (out2, evs', ok) \<Rightarrow> (out2, evs @ evs', ok)))"

definition add_chunk :: "chunk \<Rightarrow> completion \<Rightarrow> completion \<times> payload list \<times> bool" where
  "add_chunk ck out =
    (case add_choices (ck_choices ck) (out\<lparr>cp_id := first_set (cp_id out) (ck_id ck), cp_model := first_set (cp_model out) (ck_model ck)\<rparr>) of
       (out1, evs, ok) \<Rightarrow>
         if \<not> ok \<or> ck_usage ck = [] then (out1, evs, ok)
         else (out1\<lparr>cp_usage := ck_usage ck\<rparr>, evs @ [native ''usage'' [(''usage'', JObj (ck_usage ck))]], True))"

text \<open>The data of a line: \<open>None\<close> for a blank line or a comment.\<close>

definition line_data :: "string \<Rightarrow> string option" where
  "line_data l = (if prefix ''data:'' (trim l) then Some (trim (drop 5 (trim l))) else None)"

fun read_stream :: "string list \<Rightarrow> completion \<Rightarrow> completion \<times> payload list \<times> (ds_error + bool)" where
  "read_stream [] out = (out, [], Inr False)"
| "read_stream (l # ls) out =
    (case line_data l of
       None \<Rightarrow> read_stream ls out
     | Some d \<Rightarrow>
         if d = ''[DONE]'' then (out, [], Inr True)
         else (case decode_chunk d of
                 None \<Rightarrow> (out, [], Inl BadChunk)
               | Some ck \<Rightarrow>
                   (case add_chunk ck out of
                      (out1, evs, False) \<Rightarrow> (out1, evs, Inl IndexPanic)
                    | (out1, evs, True) \<Rightarrow> (case read_stream ls out1 of (out2, evs', r) \<Rightarrow> (out2, evs @ evs', r)))))"

definition start_completion :: completion where
  "start_completion = \<lparr>cp_id = [], cp_model = [], cp_message = ds_text ''assistant'' [], cp_finish = [], cp_usage = []\<rparr>"

definition name_calls :: "tool_call list \<Rightarrow> tool_call list" where
  "name_calls cs = map (\<lambda>(i, c). if tl_id c = [] then c\<lparr>tl_id := ''call_'' @ show_nat i\<rparr> else c) (List.enumerate 0 cs)"

definition finished_completion :: "completion \<Rightarrow> completion" where
  "finished_completion out = out\<lparr>cp_message := (cp_message out)\<lparr>dm_calls := name_calls (dm_calls (cp_message out))\<rparr>\<rparr>"

definition stream_completion :: "bool \<Rightarrow> string + string list \<times> stream_end \<Rightarrow> payload list \<times> (ds_error + completion)" where
  "stream_completion cancelled answer =
    (case answer of
       Inl e \<Rightarrow> ([], Inl (DsHttp e))
     | Inr (ls, ended) \<Rightarrow>
         (case read_stream ls start_completion of
            (out, evs, Inl e) \<Rightarrow> (evs, Inl e)
          | (out, evs, Inr done) \<Rightarrow>
              (case (if done then StreamEof else ended) of
                 StreamBroken e \<Rightarrow> (evs, Inl (if cancelled then DsCancelled else StreamRead e))
               | StreamEof \<Rightarrow>
                   if \<not> done \<and> cp_finish out = [] then (evs, Inl (if cancelled then DsCancelled else NoFinish))
                   else (evs, Inr (finished_completion out)))))"

end
