(* ===== verification/Deepseek_Session.thy ===== *)
theory Deepseek_Session
  imports Deepseek_Client Agents
begin

text \<open>
  A DeepSeek session (src/llmbackend/deepseek/session.go, run.go, store.go): the conversations it keeps, one
  per mode and workspace, the stored transcripts, and one prompt with its loop of requests and tool calls.

  A stored transcript is the value its JSON denotes.  \<open>dw_faults\<close> are the outcomes of the coming reads and
  writes of a transcript's file, \<open>dw_ctx\<close> those of the coming looks at the context, true when it is
  cancelled.  Parameters: the model's API, the system of the tools, fresh session ids, the clock.
\<close>

section \<open>State\<close>

record transcript =
  ts_id :: string
  ts_model :: string
  ts_workspace :: string
  ts_messages :: "ds_message list"

definition new_transcript :: "string \<Rightarrow> string \<Rightarrow> transcript" where
  "new_transcript i ws = \<lparr>ts_id = i, ts_model = [], ts_workspace = ws, ts_messages = []\<rparr>"

type_synonym conv_key = "string \<times> string"

record ds_session =
  dn_convs :: "(conv_key \<times> transcript) list"
  dn_key :: "conv_key option"
  dn_from :: string
  dn_resumed :: bool

definition new_ds_session :: ds_session where
  "new_ds_session = \<lparr>dn_convs = [], dn_key = None, dn_from = [], dn_resumed = False\<rparr>"

record 'f ds_world =
  dw_files :: 'f
  dw_disk :: "transcript option smap"
  dw_faults :: "string option list"
  dw_ctx :: "bool list"
  dw_calls :: nat
  dw_ids :: nat

record ds_request =
  dq_model :: string
  dq_messages :: "ds_message list"
  dq_tools :: "string list"

record 'f ds_env =
  de_os :: "'f os"
  de_words :: "tool_error \<Rightarrow> string"
  de_errors :: "ds_error \<Rightarrow> string"
  de_api :: "creds \<Rightarrow> ds_request \<Rightarrow> nat \<Rightarrow> string + string list \<times> stream_end"
  de_fresh :: "nat \<Rightarrow> string"
  de_cwd :: string
  de_limit :: string
  de_took :: "'f \<Rightarrow> int"
  de_clock :: "'f ds_world \<Rightarrow> nat"

definition default_ds_model :: string where "default_ds_model = ''deepseek-v4-pro''"
definition default_max_iterations :: nat where "default_max_iterations = 50"

definition max_iterations :: "string \<Rightarrow> nat" where
  "max_iterations raw = (case atoi (trim raw) of Some n \<Rightarrow> if n > 0 then nat n else default_max_iterations | None \<Rightarrow> default_max_iterations)"

definition look_at_ctx :: "'f ds_world \<Rightarrow> bool \<times> 'f ds_world" where
  "look_at_ctx w = (case dw_ctx w of [] \<Rightarrow> (False, w) | b # bs \<Rightarrow> (b, w\<lparr>dw_ctx := bs\<rparr>))"

section \<open>Stored transcripts\<close>

definition disk_call :: "'f ds_world \<Rightarrow> 'f ds_world \<times> string option" where
  "disk_call w = (case dw_faults w of [] \<Rightarrow> (w, None) | x # xs \<Rightarrow> (w\<lparr>dw_faults := xs\<rparr>, x))"

definition transcript_id_ok :: "string \<Rightarrow> bool" where
  "transcript_id_ok i \<longleftrightarrow> i \<noteq> [] \<and> slash \<notin> set i \<and> CHR 0x5C \<notin> set i \<and> \<not> contains i ''..''"

text \<open>\<open>None\<close> of a stored text is one that does not decode.\<close>

definition load_transcript :: "string \<Rightarrow> 'f ds_world \<Rightarrow> 'f ds_world \<times> (ds_error + transcript option)" where
  "load_transcript i w =
    (if \<not> transcript_id_ok i then (w, Inr None)
     else (case disk_call w of
             (w1, Some e) \<Rightarrow> (w1, Inl (TranscriptUnreadable e))
           | (w1, None) \<Rightarrow>
               (w1, (case map_of (dw_disk w1) i of
                       None \<Rightarrow> Inr None
                     | Some None \<Rightarrow> Inl (TranscriptUnreadable i)
                     | Some (Some t) \<Rightarrow> Inr (Some t)))))"

definition save_transcript :: "transcript \<Rightarrow> 'f ds_world \<Rightarrow> 'f ds_world \<times> ds_error option" where
  "save_transcript t w =
    (if \<not> transcript_id_ok (ts_id t) then (w, Some (StoreFailed (ts_id t)))
     else (case disk_call w of
             (w1, Some e) \<Rightarrow> (w1, Some (StoreFailed (ts_id t)))
           | (w1, None) \<Rightarrow> (w1\<lparr>dw_disk := AList.update (ts_id t) (Some t) (dw_disk w1)\<rparr>, None)))"

definition delete_transcript :: "string \<Rightarrow> 'f ds_world \<Rightarrow> 'f ds_world" where
  "delete_transcript i w =
    (if \<not> transcript_id_ok i then w
     else (case disk_call w of (w1, Some e) \<Rightarrow> w1 | (w1, None) \<Rightarrow> w1\<lparr>dw_disk := AList.delete i (dw_disk w1)\<rparr>))"

section \<open>Attaching\<close>

definition ds_model :: "agent \<Rightarrow> string" where
  "ds_model a = first_set (ag_model a) (first_set (cr_model (ag_creds a)) default_ds_model)"

definition conv_of :: "ds_session \<Rightarrow> transcript option" where
  "conv_of s = (case dn_key s of None \<Rightarrow> None | Some k \<Rightarrow> map_of (dn_convs s) k)"

definition set_conv :: "transcript \<Rightarrow> ds_session \<Rightarrow> ds_session" where
  "set_conv c s = (case dn_key s of None \<Rightarrow> s | Some k \<Rightarrow> s\<lparr>dn_convs := AList.update k c (dn_convs s)\<rparr>)"

text \<open>The conversation of a key: the one kept, the stored one a planner continues, or a new one.\<close>

definition open_conv ::
  "'f ds_env \<Rightarrow> agent \<Rightarrow> string \<Rightarrow> string \<Rightarrow> ds_session \<Rightarrow> 'f ds_world \<Rightarrow> 'f ds_world \<times> (ds_error + transcript \<times> string \<times> bool)" where
  "open_conv e a mode cwd s w =
    (case map_of (dn_convs s) (mode, cwd) of
       Some c \<Rightarrow> (w, Inr (c, ts_id c, ts_messages c \<noteq> []))
     | None \<Rightarrow>
         (case (if dn_key s = None \<and> mode = mode_plan \<and> \<not> is_ephemeral a \<and> ag_llm_agent a \<noteq> []
                then load_transcript (ag_llm_agent a) w else (w, Inr None)) of
            (w1, Inl err) \<Rightarrow> (w1, Inl err)
          | (w1, Inr (Some c)) \<Rightarrow> (w1, Inr (c, ag_llm_agent a, True))
          | (w1, Inr None) \<Rightarrow> (w1\<lparr>dw_ids := Suc (dw_ids w1)\<rparr>, Inr (new_transcript (de_fresh e (dw_ids w1)) cwd, [], False))))"

definition ds_workspace :: "'f ds_env \<Rightarrow> agent \<Rightarrow> string" where
  "ds_workspace e a = (if ag_workspace a = [] then de_cwd e else ag_workspace a)"

text \<open>What attaching tells the agent, and whether its row is to be written.\<close>

definition provider_deepseek :: string where "provider_deepseek = ''deepseek_harness''"

definition ds_attached :: "agent \<Rightarrow> string \<Rightarrow> string \<Rightarrow> string \<Rightarrow> bool \<Rightarrow> agent \<times> bool" where
  "ds_attached a mode cwd i resumed =
    (let a1 = a\<lparr>ag_backend := harness_deepseek, ag_provider := provider_deepseek, ag_workspace := (if cwd = [] then ag_workspace a else cwd)\<rparr>;
         a2 = a1\<lparr>ag_model := ds_model a1\<rparr>;
         a3 = (if resumed then a2 else a2\<lparr>ag_frame_sent := False\<rparr>)
     in if mode = mode_plan \<and> \<not> is_ephemeral a \<and> ag_llm_agent a \<noteq> i then (a3\<lparr>ag_llm_agent := i\<rparr>, True) else (a3, False))"

definition ds_attach ::
  "'f ds_env \<Rightarrow> agent \<Rightarrow> string \<Rightarrow> ds_session \<Rightarrow> 'f ds_world
     \<Rightarrow> 'f ds_world \<times> ds_session \<times> agent \<times> bool \<times> (ds_error + bool)" where
  "ds_attach e a mode s w0 =
    (case look_at_ctx w0 of
       (True, w) \<Rightarrow> (w, s, a, False, Inl DsCancelled)
     | (False, w) \<Rightarrow>
         if trim (cr_api_key (ag_creds a)) = [] then (w, s, a, False, Inl NoApiKey)
         else
           (let cwd = ds_workspace e a; key = (mode, cwd) in
            if dn_key s = Some key \<and> conv_of s \<noteq> None then (w, s, a, False, Inr (dn_resumed s))
            else (case open_conv e a mode cwd s w of
                    (w1, Inl err) \<Rightarrow> (w1, s, a, False, Inl err)
                  | (w1, Inr (c, from, resumed)) \<Rightarrow>
                      (let s1 = s\<lparr>dn_convs := AList.update key c (dn_convs s), dn_key := Some key, dn_from := from, dn_resumed := resumed\<rparr>
                       in case ds_attached a mode cwd (ts_id c) resumed of
                            (a1, kept) \<Rightarrow> (w1, s1, a1, kept, Inr resumed)))))"

definition ds_dispose :: "bool \<Rightarrow> ds_session \<Rightarrow> 'f ds_world \<Rightarrow> ds_session \<times> 'f ds_world" where
  "ds_dispose ephemeral s w =
    (new_ds_session, if ephemeral then fold (\<lambda>(k, c). delete_transcript (ts_id c)) (dn_convs s) w else w)"

definition ds_session_id :: "ds_session \<Rightarrow> string" where
  "ds_session_id s = (case conv_of s of None \<Rightarrow> [] | Some c \<Rightarrow> ts_id c)"

section \<open>One prompt\<close>

definition system_prompt :: "string \<Rightarrow> string \<Rightarrow> string" where
  "system_prompt cwd mode =
    ''You are a software agent running inside the autonomy runtime through the DeepSeek harness.'' @ [CHR 0x0A]
    @ ''Your workspace is '' @ cwd @ ''. Every tool call acts inside it; relative paths are relative to it.'' @ [CHR 0x0A]
    @ (if mode = mode_plan
       then ''This is a read-only planning turn: you can read, list and search files, not change them or run commands.''
       else ''Use the tools to inspect and change files and to run commands (build, test, git). Verify your work before you answer.'')
    @ [CHR 0x0A] @ ''When you are done, reply with your final answer as plain text and no tool call.''"

text \<open>Reasoning is sent back only after the last message of the user.\<close>

definition last_user :: "ds_message list \<Rightarrow> nat" where
  "last_user history = length (dropWhile (\<lambda>m. dm_role m \<noteq> ''user'') (rev history)) - 1"

definition request_messages :: "ds_message list \<Rightarrow> ds_message list" where
  "request_messages history =
    map (\<lambda>(i, m). if i < last_user history then m\<lparr>dm_reasoning := []\<rparr> else m) (List.enumerate 0 history)"

record 'f ds_run =
  dr_world :: "'f ds_world"
  dr_messages :: "ds_message list"
  dr_natives :: "payload list"
  dr_usage :: usage

definition emit_native :: "payload list \<Rightarrow> 'f ds_run \<Rightarrow> 'f ds_run" where
  "emit_native ns r = r\<lparr>dr_natives := dr_natives r @ ns\<rparr>"

definition tool_answer :: "string \<Rightarrow> string \<Rightarrow> ds_message" where
  "tool_answer i content = (ds_text ''tool'' content)\<lparr>dm_call_id := i\<rparr>"

text \<open>The calls of one answer, one by one; the context is looked at after each.\<close>

fun run_calls :: "'f ds_env \<Rightarrow> toolbox \<Rightarrow> tool_call list \<Rightarrow> 'f ds_run \<Rightarrow> 'f ds_run \<times> bool" where
  "run_calls e t [] r = (r, True)"
| "run_calls e t (c # cs) r =
    (case run_tool (de_os e) (de_words e) t (tl_name c) (tl_args c) (dw_files (dr_world r)) of
       (f, content, failed) \<Rightarrow>
         (let r1 = emit_native
                [native ''tool_call'' [(''id'', JStr (tl_id c)), (''name'', JStr (tl_name c)), (''arguments'', JStr (tl_args c))],
                 native ''tool_result'' [(''id'', JStr (tl_id c)), (''name'', JStr (tl_name c)), (''content'', JStr content),
                   (''is_error'', JBool failed), (''duration_ms'', JNum (show_int (de_took e f)))]] r
          in case look_at_ctx ((dr_world r1)\<lparr>dw_files := f\<rparr>) of
               (cancelled, w) \<Rightarrow>
                 (let r2 = r1\<lparr>dr_world := w, dr_messages := dr_messages r1 @ [tool_answer (tl_id c) content]\<rparr>
                  in if cancelled then (r2, False) else run_calls e t cs r2)))"

definition ds_request_of :: "string \<Rightarrow> toolbox \<Rightarrow> 'f ds_run \<Rightarrow> ds_request" where
  "ds_request_of model t r = \<lparr>dq_model = model, dq_messages = request_messages (dr_messages r), dq_tools = tool_names (tb_mode t)\<rparr>"

text \<open>One request: its answer, put together, with what it streamed.\<close>

definition ask_model :: "'f ds_env \<Rightarrow> creds \<Rightarrow> string \<Rightarrow> toolbox \<Rightarrow> 'f ds_run \<Rightarrow> 'f ds_run \<times> (ds_error + ds_message)" where
  "ask_model e cr model t r =
    (let w = dr_world r; answer = de_api e cr (ds_request_of model t r) (dw_calls w) in
     case look_at_ctx (w\<lparr>dw_calls := Suc (dw_calls w)\<rparr>) of
       (cancelled, w1) \<Rightarrow>
         (case stream_completion cancelled answer of
            (ns, Inl err) \<Rightarrow> (emit_native ns (r\<lparr>dr_world := w1\<rparr>), Inl err)
          | (ns, Inr done) \<Rightarrow>
              (let m = cp_message done;
                   ns' = (if dm_reasoning m = [] then [] else [native ''reasoning_end'' [(''text'', JStr (dm_reasoning m))]])
               in (emit_native (ns @ ns') (r\<lparr>dr_world := w1, dr_usage := add_usage (dr_usage r) (usage_of (rev (cp_usage done))),
                     dr_messages := dr_messages r @ [m]\<rparr>), Inr m))))"

text \<open>The loop of requests; \<open>left\<close> of them may still be made.\<close>

fun tool_loop :: "nat \<Rightarrow> nat \<Rightarrow> 'f ds_env \<Rightarrow> creds \<Rightarrow> string \<Rightarrow> toolbox \<Rightarrow> 'f ds_run \<Rightarrow> 'f ds_run \<times> (ds_error + string)" where
  "tool_loop 0 limit e cr model t r = (r, Inl (IterationLimit limit))"
| "tool_loop (Suc left) limit e cr model t r =
    (case ask_model e cr model t r of
       (r1, Inl err) \<Rightarrow> (r1, Inl err)
     | (r1, Inr m) \<Rightarrow>
         if dm_calls m = [] then (r1, Inr (trim (dm_content m)))
         else (case run_calls e t (dm_calls m) r1 of
                 (r2, False) \<Rightarrow> (r2, Inl DsCancelled)
               | (r2, True) \<Rightarrow> tool_loop left limit e cr model t r2))"

definition started_messages :: "string \<Rightarrow> string \<Rightarrow> string \<Rightarrow> ds_message list \<Rightarrow> ds_message list" where
  "started_messages cwd mode prompt ms =
    (if ms = [] then [ds_text ''system'' (system_prompt cwd mode)] else ms) @ [ds_text ''user'' prompt]"

record ds_reply =
  dy_events :: "llm_event list"
  dy_text :: string
  dy_result :: llm_result
  dy_error :: "ds_error option"

text \<open>
  The deferred end of a prompt: a cancelled context is the error whatever failed, the error is an event of
  its own, and the conversation is cut back to what it was.  A panic passes through without that.
\<close>

definition ds_result :: "'f ds_env \<Rightarrow> nat \<Rightarrow> string \<Rightarrow> 'f ds_run \<Rightarrow> string \<Rightarrow> ds_error option \<Rightarrow> bool \<Rightarrow> ds_reply" where
  "ds_result e started i r out err cancelled =
    (let err' = (case err of None \<Rightarrow> None | Some x \<Rightarrow> Some (if cancelled then DsCancelled else x));
         ns = dr_natives r @ (case err' of None \<Rightarrow> [] | Some x \<Rightarrow> [native ''error'' [(''message'', JStr (de_errors e x))]]);
         now = de_clock e (dr_world r)
     in \<lparr>dy_events = List.map_filter (map_native now (Some started)) ns, dy_text = out,
         dy_result = \<lparr>rr_run = i, rr_llm_agent = i,
           rr_status = (case err' of None \<Rightarrow> run_finished | Some _ \<Rightarrow> if cancelled then ''cancelled'' else ''error''),
           rr_error_code = [], rr_error_message = (case err' of None \<Rightarrow> [] | Some x \<Rightarrow> de_errors e x), rr_raw = out,
           rr_duration = (int now - int started) div 1000000, rr_event_count = length ns, rr_usage = dr_usage r,
           rr_started = Some started, rr_ended = Some now\<rparr>,
         dy_error = err'\<rparr>)"

definition store_turn :: "'f ds_env \<Rightarrow> bool \<Rightarrow> transcript \<Rightarrow> string \<Rightarrow> 'f ds_run \<Rightarrow> 'f ds_run \<times> ds_error option" where
  "store_turn e ephemeral c out r =
    (if out = [] then (r, Some EmptyResponse)
     else if ephemeral then (r, None)
     else (case save_transcript (c\<lparr>ts_messages := dr_messages r\<rparr>) (dr_world r) of (w, err) \<Rightarrow> (r\<lparr>dr_world := w\<rparr>, err)))"

definition answered_turn ::
  "'f ds_env \<Rightarrow> agent \<Rightarrow> string \<Rightarrow> string \<Rightarrow> transcript \<Rightarrow> 'f ds_world \<Rightarrow> 'f ds_run \<times> string \<times> ds_error option" where
  "answered_turn e a prompt mode c w =
    (case tool_loop (max_iterations (de_limit e)) (max_iterations (de_limit e)) e (ag_creds a) (ds_model a)
         \<lparr>tb_root = ts_workspace c, tb_mode = mode\<rparr>
         \<lparr>dr_world = w, dr_messages = started_messages (ts_workspace c) mode prompt (ts_messages c), dr_natives = [], dr_usage = no_usage\<rparr> of
       (r, Inl err) \<Rightarrow> (r, [], Some err)
     | (r, Inr out) \<Rightarrow> (case store_turn e (is_ephemeral a) c out r of (r', err) \<Rightarrow> (r', out, err)))"

definition end_turn ::
  "'f ds_env \<Rightarrow> nat \<Rightarrow> transcript \<Rightarrow> ds_session \<Rightarrow> 'f ds_run \<Rightarrow> string \<Rightarrow> ds_error option \<Rightarrow> 'f ds_world \<times> ds_session \<times> ds_reply" where
  "end_turn e started c s r out err =
    (case err of
       None \<Rightarrow> (dr_world r, set_conv (c\<lparr>ts_messages := dr_messages r\<rparr>) s, ds_result e started (ts_id c) r out None False)
     | Some x \<Rightarrow>
         if x = IndexPanic
         then (dr_world r, set_conv (c\<lparr>ts_messages := dr_messages r\<rparr>) s,
               (ds_result e started (ts_id c) r [] None False)\<lparr>dy_error := Some IndexPanic\<rparr>)
         else (case look_at_ctx (dr_world r) of
                 (cancelled, w) \<Rightarrow> (w, set_conv c s, ds_result e started (ts_id c) (r\<lparr>dr_world := w\<rparr>) out (Some x) cancelled)))"

definition ds_prompt ::
  "'f ds_env \<Rightarrow> agent \<Rightarrow> string \<Rightarrow> string \<Rightarrow> ds_session \<Rightarrow> 'f ds_world \<Rightarrow> 'f ds_world \<times> ds_session \<times> agent \<times> bool \<times> ds_reply" where
  "ds_prompt e a prompt mode s w =
    (let started = de_clock e w in
     case ds_attach e a mode s w of
       (w1, s1, a1, kept, Inl err) \<Rightarrow>
         (case look_at_ctx w1 of
            (cancelled, w2) \<Rightarrow>
              (w2, s1, a1, kept,
               ds_result e started [] \<lparr>dr_world = w2, dr_messages = [], dr_natives = [], dr_usage = no_usage\<rparr> [] (Some err) cancelled))
     | (w1, s1, a1, kept, Inr _) \<Rightarrow>
         (let cwd = ds_workspace e a;
              c0 = (case conv_of s1 of Some c \<Rightarrow> c | None \<Rightarrow> new_transcript [] cwd);
              s2 = s1\<lparr>dn_from := ts_id c0, dn_resumed := ts_messages c0 \<noteq> []\<rparr>;
              c = c0\<lparr>ts_model := ds_model a1, ts_workspace := cwd\<rparr>
          in case answered_turn e a1 prompt mode c w1 of
               (r, out, err) \<Rightarrow> (case end_turn e started c s2 r out err of (w2, s3, y) \<Rightarrow> (w2, s3, a1, kept, y))))"

end
