(* ===== verification/Llm_Session.thy ===== *)
theory Llm_Session
  imports Llm_Trace Agent_Runtime Deploy_Agent
begin

text \<open>
  A session of an agent with its language model (src/llm_session.go, src/llm_turn_retry.go,
  src/agent_backend.go, src/llmbackend/inject.go): the first prompt, the turns after it, and the bounded
  retry of a turn the model cut off.

  Parameters: the harness (attaching a session, which may change the agent through its host's setters
  and says whether it asked for the row to be written, and one prompt with the events it streams), the text of the frame, the reminder's file, the id of the
  provider's session.  The watchdog of a turn and the git credential written for an account are not
  modelled.
\<close>

section \<open>The world of a session\<close>

record 'w session_world =
  sw_db :: turn_db
  sw_pool :: "account_table option"
  sw_office :: office
  sw_out :: 'w

record 'w session_env =
  se_env :: runtime_env
  se_paths :: url_path
  se_models :: "string \<Rightarrow> string"
  se_dir :: "string \<Rightarrow> string \<Rightarrow> string"
  se_places :: "string \<Rightarrow> bool"
  se_home :: "string \<Rightarrow> string"
  se_attach :: "agent \<Rightarrow> string \<Rightarrow> 'w \<Rightarrow> 'w \<times> agent \<times> bool \<times> string option"
  se_prompt :: "agent \<Rightarrow> string \<Rightarrow> string \<Rightarrow> 'w \<Rightarrow> 'w \<times> llm_event list \<times> string \<times> llm_result \<times> string option"
  se_session_id :: "agent \<Rightarrow> 'w \<Rightarrow> string"
  se_frame :: "agent \<Rightarrow> string + string"
  se_worker_frame :: "agent \<Rightarrow> string smap"
  se_reminder :: "string + string"
  se_retries :: string
  se_cwd :: string
  se_stored :: bool
  se_events :: bool
  se_clock :: "'w \<Rightarrow> nat"

datatype session_error =
    NoSessionAgent
  | PromptUnsupported string
  | FrameFailed string
  | RuntimeRefused runtime_error
  | AttachFailed string
  | UnknownBackend string
  | PromptFailed string

record llm_session =
  ls_agent :: "agent option"
  ls_task :: string
  ls_model :: string
  ls_round :: int
  ls_turns :: "nat list"
  ls_provider_name :: string
  ls_delegated_by :: string

definition new_llm_session :: "agent option \<Rightarrow> string \<Rightarrow> string \<Rightarrow> string \<Rightarrow> string \<Rightarrow> llm_session" where
  "new_llm_session a task model provider delegated =
    \<lparr>ls_agent = a, ls_task = task, ls_model = model, ls_round = 0, ls_turns = [], ls_provider_name = provider, ls_delegated_by = delegated\<rparr>"

definition session_provider :: "runtime_env \<Rightarrow> llm_session \<Rightarrow> string" where
  "session_provider env ss =
    (if ls_provider_name ss \<noteq> [] then ls_provider_name ss
     else (case ls_agent ss of None \<Rightarrow> [] | Some a \<Rightarrow> effective_backend env a))"

definition promptable :: "runtime_env \<Rightarrow> llm_session \<Rightarrow> bool" where
  "promptable env ss \<longleftrightarrow> session_provider env ss \<noteq> backend_local"

definition turn_shape :: "llm_session \<Rightarrow> string \<times> llm_role" where
  "turn_shape ss =
    (case ls_agent ss of
       Some a \<Rightarrow> if ag_role a = role_worker then (''agent'', RoleAgent) else (''plan'', RoleUser)
     | None \<Rightarrow> (''plan'', RoleUser))"

definition workspace_or_cwd :: "string \<Rightarrow> llm_session \<Rightarrow> string" where
  "workspace_or_cwd cwd ss = (case ls_agent ss of Some a \<Rightarrow> if ag_workspace a \<noteq> [] then ag_workspace a else cwd | None \<Rightarrow> cwd)"

section \<open>Attaching\<close>

definition keep_agent :: "agent \<Rightarrow> llm_session \<Rightarrow> 'w session_world \<Rightarrow> llm_session \<times> 'w session_world" where
  "keep_agent a ss w = (ss\<lparr>ls_agent := Some a\<rparr>, w\<lparr>sw_office := put_agent a (sw_office w)\<rparr>)"

text \<open>\<open>llmSession().Attach\<close>: the handle is built on first use.\<close>

definition attach_session ::
  "'w session_env \<Rightarrow> agent \<Rightarrow> string \<Rightarrow> 'w session_world \<Rightarrow> 'w session_world \<times> agent \<times> session_error option" where
  "attach_session e a mode w =
    (case se_attach e (a\<lparr>ag_llm := True\<rparr>) mode (sw_out w) of
       (out, a1, kept, err) \<Rightarrow>
         (case (if kept then persist_agent a1 (sw_office w) else (sw_office w, a1)) of
            (of', a2) \<Rightarrow> (w\<lparr>sw_office := put_agent a2 of', sw_out := out\<rparr>, a2, map_option AttachFailed err)))"

definition ensure_llm_session ::
  "'w session_env \<Rightarrow> agent \<Rightarrow> string \<Rightarrow> string \<Rightarrow> string \<Rightarrow> 'w session_world \<Rightarrow> 'w session_world \<times> agent \<times> session_error option" where
  "ensure_llm_session e a model cwd mode w =
    (let p = (ag_policy a)\<lparr>rp_model := model\<rparr>;
         policy = (if trim (rp_backend p) = [] then p\<lparr>rp_backend := effective_backend (se_env e) a\<rparr> else p)
     in case assign_agent_runtime (se_env e) (se_paths e) (se_models e) a policy None (sw_pool w) of
          (pool, Inl err) \<Rightarrow> (w\<lparr>sw_pool := pool\<rparr>, a, Some (RuntimeRefused err))
        | (pool, Inr plan) \<Rightarrow>
            (let a1 = apply_agent_runtime (se_dir e) plan a;
                 rooted = (case pl_account plan of None \<Rightarrow> False | Some ac \<Rightarrow> trim (ac_root ac) \<noteq> []);
                 a2 = (if (\<not> rooted \<or> ag_workspace_chosen a1) \<and> cwd \<noteq> [] then a1\<lparr>ag_workspace := cwd\<rparr> else a1);
                 (of', a3) = (if pl_account plan = None then (sw_office w, a2) else persist_agent a2 (sw_office w))
             in attach_session e a3 mode (w\<lparr>sw_pool := pool, sw_office := of'\<rparr>)))"

section \<open>One turn\<close>

definition turn_markers :: "string list" where
  "turn_markers = [''maximum output token limit'', ''max output token limit'', ''maximum output tokens'']"

definition is_truncated_turn :: "string \<Rightarrow> bool" where
  "is_truncated_turn msg \<longleftrightarrow> (\<exists>m\<in>set turn_markers. contains (to_lower msg) m)"

definition default_turn_retries :: int where "default_turn_retries = 1"

definition turn_retry_budget :: "string \<Rightarrow> nat" where
  "turn_retry_budget raw0 =
    (let raw = trim raw0 in
     nat (if raw = [] then default_turn_retries
          else (case atoi raw of None \<Rightarrow> default_turn_retries | Some n \<Rightarrow> if n < 0 then default_turn_retries else n)))"

definition turn_truncated_prompt :: "string + string \<Rightarrow> string smap \<Rightarrow> string + string" where
  "turn_truncated_prompt file frame = (case file of Inl e \<Rightarrow> Inl e | Inr text \<Rightarrow> Inr (render_worker_prompt text [] frame))"

definition round_auto :: int where "round_auto = 0"
definition first_prompt_cycle :: int where "first_prompt_cycle = 0"

definition begin_turn ::
  "'w session_env \<Rightarrow> string \<Rightarrow> int \<Rightarrow> bool \<Rightarrow> llm_session \<Rightarrow> 'w session_world \<Rightarrow> llm_session \<times> 'w session_world \<times> llm_trace" where
  "begin_turn e prompt round first ss w =
    (let (cycle, ss1) = (if first then (first_prompt_cycle, ss)
                         else if round = round_auto then (ls_round ss + 1, ss\<lparr>ls_round := ls_round ss + 1\<rparr>)
                         else (round, ss\<lparr>ls_round := round\<rparr>));
         (mode, role) = turn_shape ss
     in case begin_llm_trace (se_clock e (sw_out w)) (se_stored e) (se_events e) (ls_agent ss) role (ls_task ss) cycle mode prompt (sw_db w) of
          (db, t) \<Rightarrow>
            (if th_turn (lt_handle t) \<noteq> 0 then ss1\<lparr>ls_turns := ls_turns ss1 @ [th_turn (lt_handle t)]\<rparr> else ss1,
             w\<lparr>sw_db := db\<rparr>, t))"

record turn_result =
  tx_text :: string
  tx_origin :: "nat \<times> nat \<times> nat"

fun turn_attempts ::
  "nat \<Rightarrow> 'w session_env \<Rightarrow> string \<Rightarrow> int \<Rightarrow> bool \<Rightarrow> agent \<Rightarrow> llm_session \<Rightarrow> 'w session_world
     \<Rightarrow> llm_session \<times> 'w session_world \<times> (session_error + turn_result)" where
  "turn_attempts left e prompt round first a ss w =
    (case begin_turn e prompt round first ss w of
       (ss1, w1, t) \<Rightarrow>
         (case se_prompt e a prompt (fst (turn_shape ss1)) (sw_out w1) of
            (out, evs, text, res, err) \<Rightarrow>
              (let now = se_clock e out in
               case emit_stream now evs t (sw_db w1) of
                 (db, t1) \<Rightarrow>
                   (case err of
                      None \<Rightarrow>
                        (case finish_trace now (res\<lparr>rr_raw := text\<rparr>) t1 db of
                           (db', t2) \<Rightarrow> (ss1, w1\<lparr>sw_out := out, sw_db := db'\<rparr>, Inr \<lparr>tx_text = text, tx_origin = trace_origin t2\<rparr>))
                    | Some msg \<Rightarrow>
                        (case finish_trace now res t1 db of
                           (db', t2) \<Rightarrow>
                             (let w2 = w1\<lparr>sw_out := out, sw_db := db'\<rparr> in
                              if \<not> is_truncated_turn msg then (ss1, w2, Inl (PromptFailed msg))
                              else (case left of
                                      0 \<Rightarrow> (ss1, w2, Inl (PromptFailed msg))
                                    | Suc left' \<Rightarrow>
                                        (case turn_truncated_prompt (se_reminder e) (se_worker_frame e a) of
                                           Inl _ \<Rightarrow> (ss1, w2, Inl (PromptFailed msg))
                                         | Inr reminder \<Rightarrow> turn_attempts left' e reminder round first a ss1 w2))))))))"

declare turn_attempts.simps [simp del]

definition session_turn ::
  "'w session_env \<Rightarrow> string \<Rightarrow> int \<Rightarrow> bool \<Rightarrow> llm_session \<Rightarrow> 'w session_world
     \<Rightarrow> llm_session \<times> 'w session_world \<times> (session_error + turn_result)" where
  "session_turn e prompt round first ss w =
    (case ls_agent ss of
       None \<Rightarrow> (ss, w, Inl NoSessionAgent)
     | Some a \<Rightarrow>
         if \<not> promptable (se_env e) ss then (ss, w, Inl (PromptUnsupported (session_provider (se_env e) ss)))
         else (case ensure_llm_session e a (ls_model ss) (workspace_or_cwd (se_cwd e) ss) (fst (turn_shape ss)) w of
                 (w1, a1, Some err) \<Rightarrow> (ss\<lparr>ls_agent := Some a1\<rparr>, w1, Inl err)
               | (w1, a1, None) \<Rightarrow>
                   turn_attempts (turn_retry_budget (se_retries e)) e prompt round first a1 (ss\<lparr>ls_agent := Some a1\<rparr>) w1))"

section \<open>The first prompt\<close>

definition mark_frame_sent :: "llm_session \<Rightarrow> 'w session_world \<Rightarrow> llm_session \<times> 'w session_world" where
  "mark_frame_sent ss w = (case ls_agent ss of None \<Rightarrow> (ss, w) | Some a \<Rightarrow> keep_agent (a\<lparr>ag_frame_sent := True\<rparr>) ss w)"

definition finished_result :: llm_result where
  "finished_result = \<lparr>rr_run = [], rr_llm_agent = [], rr_status = run_finished, rr_error_code = [], rr_error_message = [], rr_raw = [],
     rr_duration = 0, rr_event_count = 0, rr_usage = no_usage, rr_started = None, rr_ended = None\<rparr>"

definition first_turn ::
  "'w session_env \<Rightarrow> string \<Rightarrow> llm_session \<Rightarrow> 'w session_world \<Rightarrow> llm_session \<times> 'w session_world \<times> (session_error + bool)" where
  "first_turn e prompt ss w =
    (case session_turn e prompt round_auto True ss w of
       (ss1, w1, Inl err) \<Rightarrow> (ss1, w1, Inl err)
     | (ss1, w1, Inr _) \<Rightarrow> (case mark_frame_sent ss1 w1 of (ss2, w2) \<Rightarrow> (ss2, w2, Inr True)))"

definition session_frame ::
  "'w session_env \<Rightarrow> string \<Rightarrow> agent \<Rightarrow> llm_session \<Rightarrow> 'w session_world \<Rightarrow> llm_session \<times> 'w session_world \<times> (session_error + bool)" where
  "session_frame e prompt a ss w =
    (let prev = (if ag_llm a then se_session_id e a (sw_out w) else []) in
     case ensure_llm_session e a (ls_model ss) (workspace_or_cwd (se_cwd e) ss) (fst (turn_shape ss)) w of
       (w1, a1, Some err) \<Rightarrow> (ss\<lparr>ls_agent := Some a1\<rparr>, w1, Inl err)
     | (w1, a1, None) \<Rightarrow>
         (let ss1 = ss\<lparr>ls_agent := Some a1\<rparr> in
          if prev \<noteq> [] \<and> ag_llm a1 \<and> se_session_id e a1 (sw_out w1) = prev then first_turn e prompt ss1 w1
          else (case begin_turn e prompt round_auto True ss1 w1 of
                  (ss2, w2, t) \<Rightarrow>
                    (case finish_trace (se_clock e (sw_out w2)) finished_result t (sw_db w2) of
                       (db, _) \<Rightarrow> (case mark_frame_sent ss2 (w2\<lparr>sw_db := db\<rparr>) of (ss3, w3) \<Rightarrow> (ss3, w3, Inr True))))))"

definition give_first_prompt ::
  "'w session_env \<Rightarrow> llm_session \<Rightarrow> 'w session_world \<Rightarrow> llm_session \<times> 'w session_world \<times> (session_error + bool)" where
  "give_first_prompt e ss w =
    (case ls_agent ss of
       None \<Rightarrow> (ss, w, Inr False)
     | Some a \<Rightarrow>
         if ag_frame_sent a then (ss, w, Inr False)
         else (case se_frame e a of
                 Inl err \<Rightarrow> (ss, w, Inl (FrameFailed err))
               | Inr prompt \<Rightarrow>
                   (case keep_agent (a\<lparr>ag_role_prompt := prompt\<rparr>) ss w of
                      (ss1, w1) \<Rightarrow>
                        if se_places e (session_provider (se_env e) ss) then session_frame e prompt (a\<lparr>ag_role_prompt := prompt\<rparr>) ss1 w1
                        else first_turn e prompt ss1 w1)))"

definition say ::
  "'w session_env \<Rightarrow> string \<Rightarrow> int \<Rightarrow> llm_session \<Rightarrow> 'w session_world \<Rightarrow> llm_session \<times> 'w session_world \<times> (session_error + turn_result)" where
  "say e prompt round ss w =
    (case give_first_prompt e ss w of
       (ss1, w1, Inl err) \<Rightarrow> (ss1, w1, Inl err)
     | (ss1, w1, Inr _) \<Rightarrow> session_turn e prompt round False ss1 w1)"

section \<open>The end of a session\<close>

definition close_session :: "llm_session \<Rightarrow> 'w session_world \<Rightarrow> llm_session \<times> 'w session_world" where
  "close_session ss w =
    (case ls_agent ss of
       None \<Rightarrow> (ss, w)
     | Some a \<Rightarrow> (ss\<lparr>ls_agent := None\<rparr>, w\<lparr>sw_office := close_agent a (sw_office w)\<rparr>))"

definition release_session :: "llm_session \<Rightarrow> 'w session_world \<Rightarrow> llm_session \<times> 'w session_world" where
  "release_session ss w =
    (case ls_agent ss of
       Some a \<Rightarrow>
         if is_ephemeral a then close_session ss w
         else (ss\<lparr>ls_agent := None\<rparr>, w\<lparr>sw_office := fst (stop_agent (a\<lparr>ag_session_round := ls_round ss\<rparr>) (sw_office w))\<rparr>)
     | None \<Rightarrow> close_session ss w)"

text \<open>A worker's session continues the rounds of the one before it; \<open>Runtime.workerSession\<close>.\<close>

definition worker_session ::
  "string \<Rightarrow> string \<Rightarrow> string \<Rightarrow> agent option \<Rightarrow> agent \<Rightarrow> 'w session_world \<Rightarrow> llm_session \<times> 'w session_world" where
  "worker_session task model provider delegating a w =
    (case start_agent a (sw_office w) of
       (of', a') \<Rightarrow>
         ((new_llm_session (Some a') (trim task) model provider (case delegating of None \<Rightarrow> [] | Some d \<Rightarrow> ag_name d))
            \<lparr>ls_round := ag_session_round a'\<rparr>, w\<lparr>sw_office := of'\<rparr>))"

end
