(* ===== verification/Worker_Loan.thy ===== *)
theory Worker_Loan
  imports Llm_Session Agent_Laws
begin

text \<open>
  The workers a capability acquires through the runtime (\<open>Runtime.AcquireAgent\<close>, src/runtime.go, with the
  attach helpers of src/cursor_agent.go, src/cline_agent.go, src/codex_agent.go): a persistent worker is the
  specialist of its task and purpose and is lent again, any other is registered, planned and attached.

  Parameters as in the sessions.  What the provider does when a session is disposed of, and the list of the
  sessions of the step in flight, are not modelled.
\<close>

section \<open>Acquiring\<close>

record acquire_opts =
  aq_purpose :: string
  aq_workspace :: string
  aq_model :: string
  aq_task :: string
  aq_backend :: string
  aq_ephemeral :: bool
  aq_extends :: "bool option"

definition opts_policy :: "acquire_opts \<Rightarrow> runtime_policy" where
  "opts_policy o' = \<lparr>rp_backend = aq_backend o', rp_model = aq_model o', rp_extends = aq_extends o'\<rparr>"

definition given_workspace :: "acquire_opts \<Rightarrow> agent \<Rightarrow> agent" where
  "given_workspace o' a = (if trim (aq_workspace o') \<noteq> [] then a\<lparr>ag_workspace := trim (aq_workspace o')\<rparr> else a)"

definition attach_worker_backend ::
  "'w session_env \<Rightarrow> runtime_plan \<Rightarrow> agent \<Rightarrow> 'w session_world \<Rightarrow> 'w session_world \<times> agent \<times> session_error option" where
  "attach_worker_backend e p a w =
    (let b = pl_backend p; set = (\<lambda>a. a\<lparr>ag_backend := b, ag_provider := provider_for b\<rparr>) in
     if b = harness_cursor
     then attach_session e (let a1 = set a in if pl_model p = [] then a1 else a1\<lparr>ag_model := pl_model p\<rparr>) ''agent'' w
     else if b = harness_cline \<or> b = harness_codex then attach_session e (set a) ''agent'' w
     else if b = harness_claude \<or> b = harness_deepseek then attach_session e a ''agent'' w
     else if b = backend_local then (w, a, None)
     else (w, a, Some (UnknownBackend b)))"

definition put_world :: "agent \<Rightarrow> 'w session_world \<Rightarrow> 'w session_world" where
  "put_world a w = w\<lparr>sw_office := put_agent a (sw_office w)\<rparr>"

definition lend_session ::
  "agent option \<Rightarrow> acquire_opts \<Rightarrow> runtime_plan \<Rightarrow> agent \<Rightarrow> 'w session_world \<Rightarrow> 'w session_world \<times> (session_error + llm_session)" where
  "lend_session delegating o' p a w =
    (case worker_session (aq_task o') (pl_model p) (pl_provider p) delegating a w of (ss, w') \<Rightarrow> (w', Inr ss))"

definition lend_worker ::
  "'w session_env \<Rightarrow> agent option \<Rightarrow> acquire_opts \<Rightarrow> agent \<Rightarrow> 'w session_world \<Rightarrow> 'w session_world \<times> (session_error + llm_session)" where
  "lend_worker e delegating o' a0 w =
    (let a = a0\<lparr>ag_policy := opts_policy o'\<rparr> in
     case assign_agent_runtime (se_env e) (se_paths e) (se_models e) a (opts_policy o') delegating (sw_pool w) of
       (pool, Inl err) \<Rightarrow> (put_world a (w\<lparr>sw_pool := pool\<rparr>), Inl (RuntimeRefused err))
     | (pool, Inr p) \<Rightarrow>
         (let a1 = given_workspace o' (apply_agent_runtime (se_dir e) p a); w1 = put_world a1 (w\<lparr>sw_pool := pool\<rparr>) in
          if ag_llm a1 then lend_session delegating o' p a1 w1
          else (case attach_worker_backend e p a1 w1 of
                  (w2, a2, Some err) \<Rightarrow> (w2, Inl err)
                | (w2, a2, None) \<Rightarrow> lend_session delegating o' p a2 w2)))"

definition release_registered :: "agent \<Rightarrow> 'w session_world \<Rightarrow> 'w session_world" where
  "release_registered a w =
    w\<lparr>sw_office := factory_delete (ag_name a)
        ((sw_office w)\<lparr>of_rows := map_option (\<lambda>s. fst (soft_delete_agent (ag_id a) s)) (of_rows (sw_office w))\<rparr>)\<rparr>"

definition new_worker :: "acquire_opts \<Rightarrow> agent \<Rightarrow> agent" where
  "new_worker o' a0 =
    (let a1 = a0\<lparr>ag_role := role_worker, ag_purpose := trim (aq_purpose o'),
            ag_lifecycle := (if aq_ephemeral o' then lifecycle_ephemeral else lifecycle_persistent)\<rparr>;
         a2 = (if trim (aq_task o') \<noteq> [] then a1\<lparr>ag_task := Some (trim (aq_task o'))\<rparr> else a1);
         a3 = given_workspace o' a2
     in (if trim (aq_workspace o') \<noteq> [] then a3\<lparr>ag_workspace_chosen := True\<rparr> else a3)\<lparr>ag_policy := opts_policy o'\<rparr>)"

definition register_worker ::
  "'w session_env \<Rightarrow> agent option \<Rightarrow> acquire_opts \<Rightarrow> 'w session_world \<Rightarrow> 'w session_world \<times> (session_error + llm_session)" where
  "register_worker e delegating o' w =
    (case new_agent (se_home e) (sw_office w) of
       (of', a0) \<Rightarrow>
         (let a = new_worker o' a0; w1 = put_world a (w\<lparr>sw_office := of'\<rparr>) in
          case assign_agent_runtime (se_env e) (se_paths e) (se_models e) a (opts_policy o') delegating (sw_pool w1) of
            (pool, Inl err) \<Rightarrow> (release_registered a (w1\<lparr>sw_pool := pool\<rparr>), Inl (RuntimeRefused err))
          | (pool, Inr p) \<Rightarrow>
              (let a1 = apply_agent_runtime (se_dir e) p a;
                   w2 = put_world a1 (w1\<lparr>sw_pool := pool\<rparr>);
                   (of2, a2) = (if pl_account p = None then (sw_office w2, a1) else persist_agent a1 (sw_office w2));
                   a3 = given_workspace o' a2;
                   w3 = put_world a3 (w2\<lparr>sw_office := of2\<rparr>)
               in case attach_worker_backend e p a3 w3 of
                    (w4, a4, Some err) \<Rightarrow> (release_registered a4 w4, Inl err)
                  | (w4, a4, None) \<Rightarrow> lend_session delegating o' p a4 w4)))"

definition acquire_agent ::
  "'w session_env \<Rightarrow> agent option \<Rightarrow> acquire_opts \<Rightarrow> 'w session_world \<Rightarrow> 'w session_world \<times> (session_error + llm_session)" where
  "acquire_agent e delegating o' w =
    (case (if aq_ephemeral o' then None else idle_worker (aq_task o') (aq_purpose o') (aq_workspace o') (sw_office w)) of
       Some a \<Rightarrow> lend_worker e delegating o' a w
     | None \<Rightarrow> register_worker e delegating o' w)"

end
