(* ===== verification/Session_Laws.thy ===== *)
theory Session_Laws
  imports Llm_Session Turn_Laws
begin

text \<open>
  What a session leaves on record: the prompts an agent was asked, in their order, the first prompt before
  any other, a turn the model cut off asked again within its budget.
\<close>

section \<open>What a run asked\<close>

definition turn_asked :: "reason_turn \<Rightarrow> int \<times> string" where
  "turn_asked t = (tn_cycle t, tn_input t)"

definition asked :: "turn_db \<Rightarrow> (int \<times> string) list" where
  "asked s = map turn_asked (td_turns s)"

text \<open>A step that asks nothing: the runs on record ask what they asked, and no statement starts to fail.\<close>

definition silent :: "turn_db \<Rightarrow> turn_db \<Rightarrow> bool" where
  "silent s s' \<longleftrightarrow> asked s' = asked s \<and> (td_faults s = [] \<longrightarrow> td_faults s' = [])"

lemma quiet_refl [simp]: "silent s s"
  by (simp add: silent_def)

lemma quiet_trans: "silent a b \<Longrightarrow> silent b c \<Longrightarrow> silent a c"
  by (simp add: silent_def)

lemma quiet_same: "td_turns s' = td_turns s \<Longrightarrow> td_faults s' = td_faults s \<Longrightarrow> silent s s'"
  by (simp add: silent_def asked_def)

lemma asked_faults [simp]: "asked (s\<lparr>td_faults := fs\<rparr>) = asked s"
  by (simp add: asked_def)

lemma carry_quiet:
  assumes "\<And>s. silent s (fst (f s))" shows "silent s (fst (carry_out f s))"
proof (cases "td_faults s")
  case Nil
  then show ?thesis using assms [of s] by (cases "f s") (simp add: carry_out_def)
next
  case (Cons x fs)
  have "asked (fst (f (s\<lparr>td_faults := fs\<rparr>))) = asked s" using assms [of "s\<lparr>td_faults := fs\<rparr>"] by (simp add: silent_def)
  with Cons show ?thesis by (cases "f (s\<lparr>td_faults := fs\<rparr>)") (auto simp: carry_out_def silent_def split: option.split)
qed

lemma then_quiet:
  assumes "silent s (fst r)" "\<And>x s'. silent s' (fst (f x s'))" shows "silent s (fst (and_then r f))"
  using assms by (cases r) (auto simp: and_then_def split: sum.split intro: quiet_trans)

lemma insert_message_quiet: "silent s (fst (insert_message now m s))"
  by (auto simp: insert_message_def Let_def split: option.split intro: quiet_same)

lemma upsert_quiet: "silent s (upsert_derived now i m s)"
  by (auto simp: upsert_derived_def Let_def split: option.split intro: quiet_same)

lemma fold_quiet: "(\<And>m s. silent s (f m s)) \<Longrightarrow> silent s (fold f ms s)"
  by (induction ms arbitrary: s) (auto intro: quiet_trans)

lemma append_events_quiet: "silent s (fst (append_llm_events now i run evs s))"
  unfolding append_llm_events_def
  by (auto intro!: carry_quiet fold_quiet) (auto simp: insert_event_def intro: quiet_same)

lemma append_messages_quiet: "silent s (fst (append_llm_messages now i ms s))"
  unfolding append_llm_messages_def by (auto intro!: carry_quiet fold_quiet upsert_quiet)

lemma emit_messages_quiet: "silent s (emit_messages now t ms s)"
  by (simp add: emit_messages_def append_messages_quiet)

lemma flush_events_quiet: "silent s (fst (flush_events now t s))"
  by (simp add: flush_events_def append_events_quiet)

lemma emit_event_quiet: "silent s (fst (emit_event now ev t s))"
proof -
  have "silent s (fst (buffer_event now ev t s))" for ev by (auto simp: buffer_event_def Let_def intro: flush_events_quiet)
  then show ?thesis
    by (auto simp: emit_event_def Let_def split: prod.split intro: emit_messages_quiet quiet_trans) (metis emit_messages_quiet fst_conv quiet_trans)+
qed

lemma emit_stream_quiet: "silent s (fst (emit_stream now evs t s))"
proof (induction evs arbitrary: t s)
  case (Cons ev evs)
  obtain s1 t1 where 1: "emit_event now ev t s = (s1, t1)" by fastforce
  with emit_event_quiet [of s now ev t] have "silent s s1" by simp
  with Cons.IH [of s1 t1] 1 show ?case by (simp add: quiet_trans)
qed simp

lemma finish_quiet: "silent s (fst (finish_reason_turn now h res s))"
proof -
  have upd: "silent s (update_turn i (finished_turn res) s)" for i s
    by (auto simp: silent_def asked_def update_turn_def turn_asked_def finished_turn_def)
  have agg: "silent s (fst (record_aggregated now h ms s))" for ms s
    by (induction ms arbitrary: s) (auto intro!: then_quiet carry_quiet upsert_quiet)
  have ans: "silent s (fst (record_answer now h res k s))" for k s
    unfolding record_answer_def by (rule carry_quiet) (auto split: option.split intro: insert_message_quiet)
  have reads: "silent s (fst (list_llm_events i s))" "silent s (fst (answer_seq i s))" "silent s (fst (next_message_seq i s))" for i s
    by (auto simp: list_llm_events_def answer_seq_def next_message_seq_def intro: carry_quiet)
  have run: "silent s (fst (s\<lparr>td_events := es\<rparr>, ()))" for es s by (simp add: quiet_same)
  have answered: "silent s (fst (case found of Some _ \<Rightarrow> (s, Inr ())
      | None \<Rightarrow> and_then (next_message_seq i s) (record_answer now h res)))" for found s i
    by (cases found) (simp_all add: then_quiet reads ans)
  have closed: "silent s (fst (if rr_run res = [] then (s, Inr ()) else carry_out (\<lambda>s. (s\<lparr>td_events := g s\<rparr>, ())) s))" for g s
    by (auto intro!: carry_quiet run)
  show ?thesis unfolding finish_reason_turn_def
  proof (cases "th_turn h = 0", simp, simp only: if_False, intro then_quiet)
    show "silent s (fst (carry_out (\<lambda>s. (update_turn (th_turn h) (finished_turn res) s, ())) s))" by (rule carry_quiet) (simp add: upd)
  qed (rule reads agg answered closed)+
qed

lemma finish_trace_quiet_db: "silent s (fst (finish_trace now res t s))"
proof (cases "lt_active t")
  case True
  let ?t = "t\<lparr>lt_run := or_old (rr_run res) (lt_run t)\<rparr>"
  let ?res = "closed_result now ?t res"
  obtain s1 t1 where 1: "flush_events now ?t s = (s1, t1)" by fastforce
  obtain agg ms where 2: "flush_groups (lt_agg t1) = (agg, ms)" by fastforce
  let ?s3 = "fst (finish_reason_turn now (lt_handle t1) ?res (emit_messages now t1 ms s1))"
  obtain s4 found where 3: "assistant_message_id (th_turn (lt_handle t1)) ?s3 = (s4, found)" by fastforce
  have "silent ?s3 (fst (assistant_message_id (th_turn (lt_handle t1)) ?s3))"
    unfolding assistant_message_id_def by (rule carry_quiet) simp
  then have 4: "silent ?s3 s4" by (simp add: 3)
  have "silent s s1" using flush_events_quiet [of s now ?t] by (simp add: 1)
  moreover have "silent s1 ?s3" by (rule quiet_trans [OF emit_messages_quiet finish_quiet])
  ultimately have "silent s s4" using 4 by (blast intro: quiet_trans)
  with True 1 2 3 show ?thesis by (simp add: finish_trace_def Let_def)
qed (simp add: finish_trace_def)

section \<open>A turn and its retries\<close>

definition attempt_cycle :: "bool \<Rightarrow> int \<Rightarrow> int \<Rightarrow> nat \<Rightarrow> int" where
  "attempt_cycle first round before j =
    (if first then first_prompt_cycle else if round = round_auto then before + 1 + int j else round)"

text \<open>What a turn of \<open>k\<close> retries asked: the prompt, then the reminder \<open>k\<close> times.\<close>

definition attempts_asked :: "bool \<Rightarrow> int \<Rightarrow> int \<Rightarrow> string \<Rightarrow> string \<Rightarrow> nat \<Rightarrow> (int \<times> string) list" where
  "attempts_asked first round before prompt reminder k =
    (attempt_cycle first round before 0, prompt) # map (\<lambda>j. (attempt_cycle first round before (Suc j), reminder)) [0..<k]"

lemma one_more_attempt:
  assumes "before' = (if first then before else if round = round_auto then before + 1 else round)"
  shows "(attempt_cycle first round before 0, prompt) # attempts_asked first round before' reminder reminder k =
    attempts_asked first round before prompt reminder (Suc k)"
proof -
  have "attempt_cycle first round before' j = attempt_cycle first round before (Suc j)" for j
    using assms by (simp add: attempt_cycle_def)
  then show ?thesis by (simp add: attempts_asked_def map_upt_Suc del: upt_Suc)
qed

lemma begin_asks:
  assumes "td_faults s = []" "begin_llm_trace now True events a role task cycle mode input s = (s', t)"
  shows "asked s' = asked s @ [(cycle, input)] \<and> td_faults s' = []"
  using assms
  by (auto simp: begin_llm_trace_def begin_reason_turn_def carry_out_def insert_turn_def insert_message_def Let_def asked_def
      turn_asked_def begun_turn_def split: prod.splits option.splits)

lemma begin_turn_asks:
  assumes "td_faults (sw_db w) = []" "se_stored e" "begin_turn e prompt round first ss w = (ss', w', t)"
  shows "asked (sw_db w') = asked (sw_db w) @ [(attempt_cycle first round (ls_round ss) 0, prompt)] \<and> td_faults (sw_db w') = [] \<and>
    ls_round ss' = (if first then ls_round ss else if round = round_auto then ls_round ss + 1 else round) \<and>
    ls_agent ss' = ls_agent ss"
  using assms
  by (auto simp: begin_turn_def attempt_cycle_def split: prod.splits if_splits dest!: begin_asks [rotated])

text \<open>A turn that stopped short: cut off, with the reminder at hand, and not asked again.\<close>

definition gave_up :: "string + string \<Rightarrow> session_error + turn_result \<Rightarrow> bool" where
  "gave_up reminder r \<longleftrightarrow> (\<exists>msg. r = Inl (PromptFailed msg) \<and> is_truncated_turn msg) \<and> (\<exists>t. reminder = Inr t)"

definition reminder_text :: "string + string \<Rightarrow> string" where
  "reminder_text r = (case r of Inl _ \<Rightarrow> [] | Inr t \<Rightarrow> t)"

text \<open>One attempt: the last one, or one more after it.\<close>

lemma attempt_step:
  fixes a :: agent and e :: "'w session_env"
  defines "rem \<equiv> turn_truncated_prompt (se_reminder e) (se_worker_frame e a)"
  assumes "td_faults (sw_db w) = []" "se_stored e"
  shows "\<exists>ss1 w1. asked (sw_db w1) = asked (sw_db w) @ [(attempt_cycle first round (ls_round ss) 0, prompt)] \<and> td_faults (sw_db w1) = [] \<and>
     ls_round ss1 = (if first then ls_round ss else if round = round_auto then ls_round ss + 1 else round) \<and> ls_agent ss1 = ls_agent ss \<and>
     ((\<exists>r. turn_attempts left e prompt round first a ss w = (ss1, w1, r) \<and> (gave_up rem r \<longrightarrow> left = 0)) \<or>
      (\<exists>left' words. left = Suc left' \<and> rem = Inr words \<and>
         turn_attempts left e prompt round first a ss w = turn_attempts left' e words round first a ss1 w1))"
proof -
  obtain ss1 w1 t where 1: "begin_turn e prompt round first ss w = (ss1, w1, t)" using prod_cases3 by blast
  obtain out evs words res err where 2: "se_prompt e a prompt (fst (turn_shape ss1)) (sw_out w1) = (out, evs, words, res, err)" using prod_cases5 by blast
  obtain db t1 where 3: "emit_stream (se_clock e out) evs t (sw_db w1) = (db, t1)" by fastforce
  define fin where "fin = finish_trace (se_clock e out) (if err = None then res\<lparr>rr_raw := words\<rparr> else res) t1 db"
  obtain db' t2 where 4: "fin = (db', t2)" by fastforce
  define w2 where "w2 = w1\<lparr>sw_out := out, sw_db := db'\<rparr>"
  have "silent (sw_db w1) db" using emit_stream_quiet [of "sw_db w1" "se_clock e out" evs t] by (simp add: 3)
  then have "silent (sw_db w1) (sw_db w2)" using finish_trace_quiet_db [of db "se_clock e out" _ t1] quiet_trans 4
    by (auto simp: w2_def fin_def) (metis fst_conv)+
  moreover note begin_turn_asks [OF assms(2,3) 1]
  moreover have "(\<exists>r. turn_attempts left e prompt round first a ss w = (ss1, w2, r) \<and> (gave_up rem r \<longrightarrow> left = 0)) \<or>
      (\<exists>left' words. left = Suc left' \<and> rem = Inr words \<and>
         turn_attempts left e prompt round first a ss w = turn_attempts left' e words round first a ss1 w2)"
  proof (cases err)
    case None
    with 4 have "finish_trace (se_clock e out) (res\<lparr>rr_raw := words\<rparr>) t1 db = (db', t2)" by (simp add: fin_def)
    with None show ?thesis
      by (subst turn_attempts.simps) (simp add: 1 2 3 Let_def w2_def gave_up_def)
  next
    case (Some msg)
    with 4 have "finish_trace (se_clock e out) res t1 db = (db', t2)" by (simp add: fin_def)
    then have "turn_attempts left e prompt round first a ss w =
      (if \<not> is_truncated_turn msg then (ss1, w2, Inl (PromptFailed msg))
       else (case left of 0 \<Rightarrow> (ss1, w2, Inl (PromptFailed msg))
             | Suc left' \<Rightarrow> (case rem of Inl _ \<Rightarrow> (ss1, w2, Inl (PromptFailed msg))
                            | Inr words \<Rightarrow> turn_attempts left' e words round first a ss1 w2)))"
      unfolding w2_def rem_def by (subst turn_attempts.simps) (simp add: 1 2 3 Some Let_def)
    then show ?thesis by (cases left; cases rem) (auto simp: gave_up_def)
  qed
  ultimately show ?thesis by (intro exI [of _ ss1] exI [of _ w2]) (simp add: silent_def)
qed

lemma attempts_on_record:
  fixes a :: agent and e :: "'w session_env"
  defines "rem \<equiv> turn_truncated_prompt (se_reminder e) (se_worker_frame e a)"
  assumes "td_faults (sw_db w) = []" "se_stored e" "turn_attempts left e prompt round first a ss w = (ss', w', r)"
  shows "\<exists>k\<le>left. asked (sw_db w') = asked (sw_db w) @ attempts_asked first round (ls_round ss) prompt (reminder_text rem) k \<and>
     td_faults (sw_db w') = [] \<and> ls_agent ss' = ls_agent ss \<and> (first \<longrightarrow> ls_round ss' = ls_round ss) \<and>
     (k < left \<longrightarrow> \<not> gave_up rem r)"
  using assms(2,4)
proof (induction left arbitrary: prompt ss w)
  case 0
  then show ?case using attempt_step [of w e first round ss prompt 0 a] assms(3) by (auto simp: attempts_asked_def)
next
  case (Suc left prompt ss w)
  obtain ss1 w1 where 1: "asked (sw_db w1) = asked (sw_db w) @ [(attempt_cycle first round (ls_round ss) 0, prompt)]" "td_faults (sw_db w1) = []"
    "ls_round ss1 = (if first then ls_round ss else if round = round_auto then ls_round ss + 1 else round)" "ls_agent ss1 = ls_agent ss"
    and 2: "(\<exists>r. turn_attempts (Suc left) e prompt round first a ss w = (ss1, w1, r) \<and> (gave_up rem r \<longrightarrow> Suc left = 0)) \<or>
      (\<exists>left' words. Suc left = Suc left' \<and> rem = Inr words \<and>
         turn_attempts (Suc left) e prompt round first a ss w = turn_attempts left' e words round first a ss1 w1)"
    using attempt_step [OF Suc.prems(1) assms(3), of first round ss prompt "Suc left" a] unfolding rem_def by blast
  from 2 show ?case
  proof
    assume "\<exists>r. turn_attempts (Suc left) e prompt round first a ss w = (ss1, w1, r) \<and> (gave_up rem r \<longrightarrow> Suc left = 0)"
    with Suc.prems(2) 1 show ?thesis by (intro exI [of _ 0]) (simp add: attempts_asked_def)
  next
    assume "\<exists>left' words. Suc left = Suc left' \<and> rem = Inr words \<and>
         turn_attempts (Suc left) e prompt round first a ss w = turn_attempts left' e words round first a ss1 w1"
    then obtain words where words: "rem = Inr words" "turn_attempts left e words round first a ss1 w1 = (ss', w', r)" using Suc.prems(2) by auto
    from Suc.IH [OF 1(2) words(2)] obtain k where "k \<le> left"
      "asked (sw_db w') = asked (sw_db w1) @ attempts_asked first round (ls_round ss1) words words k"
      "td_faults (sw_db w') = []" "ls_agent ss' = ls_agent ss1" "first \<longrightarrow> ls_round ss' = ls_round ss1" "k < left \<longrightarrow> \<not> gave_up rem r"
      by (auto simp: words(1) reminder_text_def)
    with 1 one_more_attempt [OF 1(3), of prompt words k] show ?thesis
      by (intro exI [of _ "Suc k"]) (simp add: words(1) reminder_text_def)
  qed
qed

section \<open>What a say leaves on record\<close>

lemma ensure_db: "ensure_llm_session e a model cwd mode w = (w', a', err) \<Longrightarrow> sw_db w' = sw_db w"
  by (auto simp: ensure_llm_session_def attach_session_def Let_def split: prod.splits sum.splits if_splits)

lemma ensure_error: "ensure_llm_session e a model cwd mode w = (w', a', Some err) \<Longrightarrow> err \<noteq> PromptFailed msg"
  by (auto simp: ensure_llm_session_def attach_session_def Let_def split: prod.splits sum.splits if_splits)

lemma keep_agent_sel [simp]:
  "sw_db (snd (keep_agent a ss w)) = sw_db w" "ls_agent (fst (keep_agent a ss w)) = Some a" "ls_round (fst (keep_agent a ss w)) = ls_round ss"
  by (simp_all add: keep_agent_def)

lemma mark_frame_sent_sel [simp]:
  "sw_db (snd (mark_frame_sent ss w)) = sw_db w" "ls_round (fst (mark_frame_sent ss w)) = ls_round ss"
  by (simp_all add: mark_frame_sent_def split: option.split)

definition reminder_for :: "'w session_env \<Rightarrow> llm_session \<Rightarrow> string + string" where
  "reminder_for e ss =
    turn_truncated_prompt (se_reminder e) (case ls_agent ss of None \<Rightarrow> [] | Some a \<Rightarrow> se_worker_frame e a)"

lemma turn_on_record:
  assumes "td_faults (sw_db w) = []" "se_stored e" "session_turn e prompt round first ss w = (ss', w', r)"
  shows "td_faults (sw_db w') = [] \<and> (first \<longrightarrow> ls_round ss' = ls_round ss) \<and>
    (asked (sw_db w') = asked (sw_db w) \<and> (\<forall>x. r \<noteq> Inr x) \<and> (\<forall>msg. r \<noteq> Inl (PromptFailed msg)) \<or>
     (\<exists>k\<le>turn_retry_budget (se_retries e).
        asked (sw_db w') = asked (sw_db w) @ attempts_asked first round (ls_round ss) prompt (reminder_text (reminder_for e ss')) k \<and>
        (k < turn_retry_budget (se_retries e) \<longrightarrow> \<not> gave_up (reminder_for e ss') r)))"
proof (cases "\<exists>a. ls_agent ss = Some a \<and> promptable (se_env e) ss \<and>
    (\<exists>w1 a1. ensure_llm_session e a (ls_model ss) (workspace_or_cwd (se_cwd e) ss) (fst (turn_shape ss)) w = (w1, a1, None))")
  case True
  then obtain a w1 a1 where 1: "ls_agent ss = Some a" "promptable (se_env e) ss"
    "ensure_llm_session e a (ls_model ss) (workspace_or_cwd (se_cwd e) ss) (fst (turn_shape ss)) w = (w1, a1, None)" by blast
  then have "turn_attempts (turn_retry_budget (se_retries e)) e prompt round first a1 (ss\<lparr>ls_agent := Some a1\<rparr>) w1 = (ss', w', r)"
    using assms(3) by (simp add: session_turn_def)
  from attempts_on_record [OF _ assms(2) this] ensure_db [OF 1(3)] assms(1) show ?thesis
    by (auto simp: reminder_for_def)
next
  case False
  then show ?thesis using assms by (auto simp: session_turn_def ensure_db dest: ensure_error split: option.splits prod.splits if_splits)
qed

lemma first_turn_on_record:
  assumes "td_faults (sw_db w) = []" "se_stored e" "first_turn e frame ss w = (ss', w', Inr told)"
  shows "td_faults (sw_db w') = [] \<and> ls_round ss' = ls_round ss \<and> (\<exists>k\<le>turn_retry_budget (se_retries e). \<exists>reminder.
     asked (sw_db w') = asked (sw_db w) @ attempts_asked True round_auto 0 frame reminder k)"
proof -
  obtain ss1 w1 x where 1: "session_turn e frame round_auto True ss w = (ss1, w1, Inr x)" "(ss', w') = mark_frame_sent ss1 w1"
    using assms(3) by (auto simp: first_turn_def split: prod.splits sum.splits)
  have "attempts_asked True round_auto n = attempts_asked True round_auto 0" for n
    by (intro ext) (simp add: attempts_asked_def attempt_cycle_def)
  with turn_on_record [OF assms(1,2) 1(1)] 1(2) mark_frame_sent_sel [of ss1 w1] show ?thesis
    by (metis fst_conv snd_conv)
qed

lemma frame_on_record:
  assumes "td_faults (sw_db w) = []" "se_stored e" "session_frame e frame a ss w = (ss', w', Inr told)"
  shows "td_faults (sw_db w') = [] \<and> ls_round ss' = ls_round ss \<and> (\<exists>k\<le>turn_retry_budget (se_retries e). \<exists>reminder.
     asked (sw_db w') = asked (sw_db w) @ attempts_asked True round_auto 0 frame reminder k)"
proof -
  obtain w1 a1 err where 1: "ensure_llm_session e a (ls_model ss) (workspace_or_cwd (se_cwd e) ss) (fst (turn_shape ss)) w = (w1, a1, err)"
    using prod_cases3 by blast
  with assms(3) have ok: "err = None" by (auto simp: session_frame_def Let_def split: option.splits)
  let ?ss = "ss\<lparr>ls_agent := Some a1\<rparr>"
  note db = ensure_db [OF 1]
  show ?thesis
  proof (cases "first_turn e frame ?ss w1 = (ss', w', Inr told)")
    case True
    from first_turn_on_record [OF _ assms(2) this] assms(1) db show ?thesis by simp
  next
    case False
    obtain ss2 w2 t where 2: "begin_turn e frame round_auto True ?ss w1 = (ss2, w2, t)" using prod_cases3 by blast
    let ?db = "fst (finish_trace (se_clock e (sw_out w2)) finished_result t (sw_db w2))"
    have "(ss', w') = mark_frame_sent ss2 (w2\<lparr>sw_db := ?db\<rparr>)"
      using assms(3) False 1 2 ok by (auto simp: session_frame_def Let_def split: prod.splits if_splits)
    then have 3: "sw_db w' = ?db" "ls_round ss' = ls_round ss2" using mark_frame_sent_sel [of ss2 "w2\<lparr>sw_db := ?db\<rparr>"] by (metis fst_conv snd_conv session_world.select_convs(1) session_world.surjective session_world.update_convs(1))+
    have "silent (sw_db w2) ?db" by (rule finish_trace_quiet_db)
    with begin_turn_asks [OF _ assms(2) 2] assms(1) db 3 show ?thesis
      by (intro conjI exI [of _ 0]) (simp_all add: silent_def attempts_asked_def attempt_cycle_def)
  qed
qed

text \<open>
  C32: Whatever is said in a session is asked after the agent's first prompt.  A say that succeeds leaves
  these runs on record, in this order: nothing more than before it when the agent was told its frame,
  else the frame under cycle 0; then what is said.  Each is followed only by reminders, no more than the
  budget of retries.
\<close>
theorem first_prompt_comes_first:
  assumes "td_faults (sw_db w) = []" "se_stored e" "ls_agent ss = Some a" "say e prompt round ss w = (ss', w', Inr x)"
  shows "\<exists>frames. \<exists>k\<le>turn_retry_budget (se_retries e).
     asked (sw_db w') = asked (sw_db w) @ frames @ attempts_asked False round (ls_round ss) prompt (reminder_text (reminder_for e ss')) k \<and>
     (if ag_frame_sent a then frames = []
      else \<exists>frame. se_frame e a = Inr frame \<and> (\<exists>k\<le>turn_retry_budget (se_retries e). \<exists>reminder.
             frames = attempts_asked True round_auto 0 frame reminder k))"
proof -
  obtain ss1 w1 told where 1: "give_first_prompt e ss w = (ss1, w1, Inr told)" "session_turn e prompt round False ss1 w1 = (ss', w', Inr x)"
    using assms(4) by (auto simp: say_def split: prod.splits sum.splits)
  have "\<exists>frames. td_faults (sw_db w1) = [] \<and> ls_round ss1 = ls_round ss \<and> asked (sw_db w1) = asked (sw_db w) @ frames \<and>
     (if ag_frame_sent a then frames = []
      else \<exists>frame. se_frame e a = Inr frame \<and> (\<exists>k\<le>turn_retry_budget (se_retries e). \<exists>reminder.
             frames = attempts_asked True round_auto 0 frame reminder k))"
  proof (cases "ag_frame_sent a")
    case True
    with 1(1) assms(1,3) show ?thesis by (simp add: give_first_prompt_def)
  next
    case False
    then obtain frame where frame: "se_frame e a = Inr frame"
      using 1(1) assms(3) by (auto simp: give_first_prompt_def split: sum.splits)
    obtain ss0 w0 where 0: "keep_agent (a\<lparr>ag_role_prompt := frame\<rparr>) ss w = (ss0, w0)" by fastforce
    with keep_agent_sel [of "a\<lparr>ag_role_prompt := frame\<rparr>" ss w] have db: "sw_db w0 = sw_db w" "ls_round ss0 = ls_round ss" by simp_all
    have "session_frame e frame (a\<lparr>ag_role_prompt := frame\<rparr>) ss0 w0 = (ss1, w1, Inr told) \<or> first_turn e frame ss0 w0 = (ss1, w1, Inr told)"
      using 1(1) assms(3) False frame 0 by (auto simp: give_first_prompt_def split: if_splits)
    then have "td_faults (sw_db w1) = [] \<and> ls_round ss1 = ls_round ss \<and> (\<exists>k\<le>turn_retry_budget (se_retries e). \<exists>reminder.
       asked (sw_db w1) = asked (sw_db w) @ attempts_asked True round_auto 0 frame reminder k)"
      using frame_on_record [of w0 e frame _ ss0 ss1 w1 told] first_turn_on_record [of w0 e frame ss0 ss1 w1 told] assms(1,2) db by auto
    with False frame show ?thesis by auto
  qed
  then show ?thesis using turn_on_record [OF _ assms(2) 1(2)] by (metis append.assoc)
qed

text \<open>
  C33: A turn is asked at most once more than its budget of retries, and one that ends as cut off, while
  the reminder can be read, was asked that often: the prompt, then the reminder each time.
\<close>
theorem cut_off_turn_uses_its_budget:
  assumes "td_faults (sw_db w) = []" "se_stored e" "session_turn e prompt round first ss w = (ss', w', r)"
  shows "length (asked (sw_db w')) \<le> length (asked (sw_db w)) + Suc (turn_retry_budget (se_retries e)) \<and>
    (gave_up (reminder_for e ss') r \<longrightarrow>
      asked (sw_db w') = asked (sw_db w) @ attempts_asked first round (ls_round ss) prompt (reminder_text (reminder_for e ss'))
        (turn_retry_budget (se_retries e)))"
  using turn_on_record [OF assms] by (auto simp: attempts_asked_def gave_up_def le_less)

section \<open>A session at work\<close>

text \<open>
  A harness that answers every prompt but its second, which it cuts off; attaching leaves the agent as it
  is, or tells it that the session is a new one.
\<close>

definition cut_off :: string where "cut_off = ''Maximum output tokens reached''"

definition sample_pool :: account_table where
  "sample_pool =
    \<lparr>at_rows = [\<lparr>ac_id = ''acct-1'', ac_harness = ''cursor'', ac_vendor = [], ac_label = ''one'', ac_api_key = ''key'', ac_base_url = [],
       ac_model = [], ac_root = [], ac_repos = [], ac_git_token = [], ac_enabled = True, ac_default = True,
       ac_created = 1\<rparr>], at_faults = []\<rparr>"

definition sample_env :: "bool \<Rightarrow> nat session_env" where
  "sample_env rebuilt =
    \<lparr>se_env = \<lparr>en_backend = [], en_extends = []\<rparr>, se_paths = (\<lambda>_. None), se_models = (\<lambda>_. ''m''), se_dir = (\<lambda>_ _. []),
     se_places = (\<lambda>_. False), se_home = (\<lambda>n. n),
     se_attach = (\<lambda>a _ n. (n, if rebuilt then a\<lparr>ag_frame_sent := False\<rparr> else a, False, None)),
     se_prompt = (\<lambda>a p mode n. (Suc n, [], ''ok'', finished_result, if n = 1 then Some cut_off else None)),
     se_session_id = (\<lambda>_ _. []), se_frame = (\<lambda>_. Inr ''frame''), se_worker_frame = (\<lambda>_. []), se_reminder = Inr ''again'',
     se_retries = [], se_cwd = [], se_stored = True, se_events = False, se_clock = (\<lambda>n. n)\<rparr>"

definition sample_agent :: "bool \<Rightarrow> agent" where
  "sample_agent told = zero_agent\<lparr>ag_id := 1, ag_name := ''a1'', ag_backend := harness_cursor, ag_frame_sent := told\<rparr>"

definition sample_world :: "bool \<Rightarrow> nat session_world" where
  "sample_world told =
    \<lparr>sw_db = \<lparr>td_turns = [], td_events = [], td_messages = [], td_faults = []\<rparr>, sw_pool = Some sample_pool,
     sw_office = \<lparr>of_agents = [sample_agent told], of_next = 9999, of_rows = None, of_tasks = None\<rparr>, sw_out = 0\<rparr>"

definition sample_say :: "bool \<Rightarrow> bool \<Rightarrow> llm_session \<times> nat session_world \<times> (session_error + turn_result)" where
  "sample_say rebuilt told =
    say (sample_env rebuilt) ''work'' 5 (new_llm_session (Some (sample_agent told)) ''t1'' ''m'' [] []) (sample_world told)"

lemma sample_say_asks:
  "(case sample_say False False of (ss, w, Inr _) \<Rightarrow> Some (asked (sw_db w)) | _ \<Rightarrow> None) =
     Some [(0, ''frame''), (5, ''work''), (5, ''again'')]"
  by code_simp

theorem first_prompt_comes_first_witness:
  "\<exists>frames. \<exists>k\<le>turn_retry_budget []. \<exists>reminder.
     asked (sw_db (fst (snd (sample_say False False)))) = frames @ attempts_asked False 5 0 ''work'' reminder k \<and>
     (\<exists>k\<le>turn_retry_budget []. \<exists>reminder. frames = attempts_asked True round_auto 0 ''frame'' reminder k)"
proof -
  obtain ss w r where 1: "sample_say False False = (ss, w, r)" using prod_cases3 by blast
  then obtain x where r: "r = Inr x" using sample_say_asks by (auto split: sum.splits)
  have said: "say (sample_env False) ''work'' 5 (new_llm_session (Some (sample_agent False)) ''t1'' ''m'' [] []) (sample_world False) = (ss, w, Inr x)"
    using 1 r by (simp add: sample_say_def)
  show ?thesis
    using first_prompt_comes_first [OF _ _ _ said, of "sample_agent False"] 1
    by (auto simp: sample_world_def sample_env_def sample_agent_def new_llm_session_def asked_def)
qed

definition always_cut :: "nat session_env" where
  "always_cut = sample_env False\<lparr>se_prompt := (\<lambda>a p mode n. (Suc n, [], [], finished_result, Some cut_off)), se_retries := ''2''\<rparr>"

lemma always_cut_gives_up:
  "case session_turn always_cut ''work'' 5 False (new_llm_session (Some (sample_agent True)) ''t1'' ''m'' [] []) (sample_world True) of
     (ss, w, r) \<Rightarrow> r = Inl (PromptFailed cut_off) \<and> reminder_for always_cut ss = Inr ''again''"
  by code_simp

theorem cut_off_turn_uses_its_budget_witness:
  "\<exists>w. asked (sw_db w) = attempts_asked False 5 0 ''work'' ''again'' 2 \<and>
     fst (snd (session_turn always_cut ''work'' 5 False (new_llm_session (Some (sample_agent True)) ''t1'' ''m'' [] []) (sample_world True))) = w"
proof -
  obtain ss w r where 1: "session_turn always_cut ''work'' 5 False (new_llm_session (Some (sample_agent True)) ''t1'' ''m'' [] [])
      (sample_world True) = (ss, w, r)" using prod_cases3 by blast
  have cut: "is_truncated_turn cut_off" by code_simp
  have "gave_up (reminder_for always_cut ss) r"
    using always_cut_gives_up 1 cut by (simp add: gave_up_def)
  moreover have "reminder_for always_cut ss = Inr ''again''" using always_cut_gives_up 1 by simp
  moreover have "turn_retry_budget ''2'' = 2" by code_simp
  moreover have "td_faults (sw_db (sample_world True)) = []" "se_stored always_cut" "se_retries always_cut = ''2''"
    "asked (sw_db (sample_world True)) = []" by (simp_all add: sample_world_def always_cut_def sample_env_def asked_def)
  ultimately show ?thesis
    using cut_off_turn_uses_its_budget [OF _ _ 1] 1 by (simp add: reminder_text_def new_llm_session_def)
qed

text \<open>
  The frame is looked for before the session is attached.  A session that has to be built again, and with
  that says of itself that it was told nothing, is asked the work without the frame.
\<close>

lemma rebuilt_session_asked_without_the_frame:
  "case sample_say True True of (ss, w, _) \<Rightarrow>
     asked (sw_db w) = [(5, ''work'')] \<and> map_option ag_frame_sent (ls_agent ss) = Some False"
  by code_simp

end
