(* ===== verification/Worker_Laws.thy ===== *)
theory Worker_Laws
  imports Worker_Loan Session_Laws
begin

text \<open>
  What a capability gets when it acquires a worker: the worker that was parked for the same work, with its
  conversation and its count of rounds; or a new one, of which nothing is left when it is refused.
\<close>

section \<open>A parked worker\<close>

lemma apply_runtime_same [simp]:
  "ag_name (apply_agent_runtime wd p a) = ag_name a" "ag_id (apply_agent_runtime wd p a) = ag_id a"
  "ag_llm (apply_agent_runtime wd p a) = ag_llm a" "ag_session_round (apply_agent_runtime wd p a) = ag_session_round a"
  "ag_llm_agent (apply_agent_runtime wd p a) = ag_llm_agent a"
  by (simp_all add: apply_agent_runtime_def adopt_account_def Let_def split: option.split)

lemma given_workspace_same [simp]:
  "ag_name (given_workspace o' a) = ag_name a" "ag_id (given_workspace o' a) = ag_id a" "ag_llm (given_workspace o' a) = ag_llm a"
  "ag_session_round (given_workspace o' a) = ag_session_round a" "ag_llm_agent (given_workspace o' a) = ag_llm_agent a"
  by (simp_all add: given_workspace_def)

lemma put_world_sel [simp]:
  "sw_out (put_world a w) = sw_out w" "of_agents (sw_office (put_world a w)) = of_agents (put_agent a (sw_office w))"
  by (simp_all add: put_world_def)

lemma set_state_agents:
  "set_agent_state st a w = (w', a') \<Longrightarrow> of_agents w' = of_agents (put_agent (a\<lparr>ag_state := st\<rparr>) w) \<and> (ag_id a \<noteq> 0 \<longrightarrow> a' = a\<lparr>ag_state := st\<rparr>)"
  using persist_agent_same [of "a\<lparr>ag_state := st\<rparr>" "put_agent (a\<lparr>ag_state := st\<rparr>) w" w' a']
  by (auto simp: set_agent_state_def Let_def dest: persist_agent_agents)

lemma put_names [simp]: "map ag_name (map (\<lambda>b. if ag_name b = ag_name a then a else b) as) = map ag_name as"
  by auto

lemma worker_session_same:
  assumes "worker_session task model prov d a w = (ss, w')" "ag_id a \<noteq> 0"
  shows "ls_agent ss = Some (a\<lparr>ag_state := state_running\<rparr>) \<and> ls_round ss = ag_session_round a \<and> sw_out w' = sw_out w \<and>
    map ag_name (of_agents (sw_office w')) = map ag_name (of_agents (sw_office w))"
proof -
  obtain of' a' where s: "start_agent a (sw_office w) = (of', a')" by fastforce
  have st: "of_agents of' = of_agents (put_agent (a\<lparr>ag_state := state_running\<rparr>) (sw_office w))" "a' = a\<lparr>ag_state := state_running\<rparr>"
    using set_state_agents [of state_running a "sw_office w" of' a'] s assms(2) by (simp_all add: start_agent_def)
  have "map ag_name (of_agents of') = map ag_name (of_agents (sw_office w))"
    unfolding st(1) put_agent_agents by (rule put_names)
  then show ?thesis using assms(1) s st(2) by (auto simp: worker_session_def new_llm_session_def)
qed

lemma lend_worker_same:
  assumes "lend_worker e d o' a w = (w', Inr ss)" "ag_llm a" "ag_id a \<noteq> 0"
  shows "\<exists>b. ls_agent ss = Some b \<and> ag_id b = ag_id a \<and> ag_name b = ag_name a \<and> ag_llm_agent b = ag_llm_agent a \<and>
    ls_round ss = ag_session_round a \<and> sw_out w' = sw_out w \<and> map ag_name (of_agents (sw_office w')) = map ag_name (of_agents (sw_office w))"
proof -
  obtain pool p where plan: "assign_agent_runtime (se_env e) (se_paths e) (se_models e) (a\<lparr>ag_policy := opts_policy o'\<rparr>) (opts_policy o') d (sw_pool w) = (pool, Inr p)"
    using assms(1) by (auto simp: lend_worker_def Let_def split: prod.splits sum.splits)
  let ?a = "given_workspace o' (apply_agent_runtime (se_dir e) p (a\<lparr>ag_policy := opts_policy o'\<rparr>))"
  let ?w = "put_world ?a (w\<lparr>sw_pool := pool\<rparr>)"
  have "lend_session d o' p ?a ?w = (w', Inr ss)" using assms(1,2) plan by (simp add: lend_worker_def Let_def)
  then have s: "worker_session (aq_task o') (pl_model p) (pl_provider p) d ?a ?w = (ss, w')"
    by (auto simp: lend_session_def split: prod.splits)
  have "map ag_name (of_agents (sw_office ?w)) = map ag_name (of_agents (sw_office w))"
    unfolding put_world_sel put_agent_agents by (simp add: put_names)
  with worker_session_same [OF s] assms(3) show ?thesis by simp
qed

lemma lowest_of:
  assumes "b \<in> set as" "\<forall>x\<in>set as. x = b" shows "foldl lower_id None as = Some b"
proof -
  have "foldl lower_id (Some b) xs = Some b" if "\<forall>x\<in>set xs. x = b" for xs
    using that by (induction xs) (auto simp: lower_id_def)
  with assms show ?thesis by (cases as) (auto simp: lower_id_def)
qed

text \<open>
  C39: The next acquisition for the task and purpose of a parked worker, when no other worker of that pair is
  idle, is that worker: the same agent on the same provider session, which is not attached again, no agent
  is registered beside it, and the new session continues the count of its rounds.
\<close>
theorem parked_worker_is_lent_again:
  assumes "release_session ss w = (ss', w1)" "ls_agent ss = Some a" "ag_name a \<in> set (map ag_name (of_agents (sw_office w)))"
    and worker: "ag_role a = role_worker" "\<not> is_ephemeral a" "ag_llm a" "ag_id a \<noteq> 0"
    and pair: "ag_task a = Some (trim (aq_task o'))" "trim (aq_task o') \<noteq> []" "trim (ag_purpose a) = trim (aq_purpose o')"
      "trim (aq_purpose o') \<noteq> []" "trim (aq_workspace o') = []" "\<not> aq_ephemeral o'"
    and only: "\<forall>b\<in>set (of_agents (sw_office w)). idle_for (trim (aq_task o')) (trim (aq_purpose o')) [] b \<longrightarrow> ag_name b = ag_name a"
    and again: "acquire_agent e d o' w1 = (w2, Inr ss2)"
  shows "\<exists>b. ls_agent ss2 = Some b \<and> ag_id b = ag_id a \<and> ag_name b = ag_name a \<and> ag_llm_agent b = ag_llm_agent a \<and>
    ls_round ss2 = ls_round ss \<and> sw_out w2 = sw_out w \<and>
    map ag_name (of_agents (sw_office w2)) = map ag_name (of_agents (sw_office w))"
proof -
  let ?a = "a\<lparr>ag_session_round := ls_round ss, ag_state := state_idle\<rparr>"
  obtain of' a' where s: "stop_agent (a\<lparr>ag_session_round := ls_round ss\<rparr>) (sw_office w) = (of', a')" by fastforce
  have ag: "of_agents of' = of_agents (put_agent ?a (sw_office w))"
    using set_state_agents [of state_idle "a\<lparr>ag_session_round := ls_round ss\<rparr>" "sw_office w" of' a'] s by (simp add: stop_agent_def)
  have w1: "w1 = w\<lparr>sw_office := of'\<rparr>" using assms(1,2) worker(2) s by (simp add: release_session_def)
  have idle: "idle_for (trim (aq_task o')) (trim (aq_purpose o')) [] ?a"
    using worker pair by (simp add: idle_for_def is_ephemeral_def is_running_def state_idle_def state_running_def)
  have "idle_worker (aq_task o') (aq_purpose o') (aq_workspace o') of' = Some ?a"
  proof -
    let ?l = "filter (idle_for (trim (aq_task o')) (trim (aq_purpose o')) []) (of_agents of')"
    have "?a \<in> set ?l" using assms(3) idle by (auto simp: ag)
    moreover have "\<forall>x\<in>set ?l. x = ?a" using only by (auto simp: ag)
    ultimately have "foldl lower_id None ?l = Some ?a" by (rule lowest_of)
    then show ?thesis using pair(2,4) unfolding idle_worker_def pair(5) by (simp only: simp_thms if_False)
  qed
  with again pair(6) have lent: "lend_worker e d o' ?a w1 = (w2, Inr ss2)" by (simp add: acquire_agent_def w1)
  have "map ag_name (of_agents of') = map ag_name (of_agents (sw_office w))"
    unfolding ag put_agent_agents using put_names [of ?a] by simp
  then have same: "sw_out w1 = sw_out w" "map ag_name (of_agents (sw_office w1)) = map ag_name (of_agents (sw_office w))"
    by (simp_all add: w1)
  have "ag_llm ?a" "ag_id ?a \<noteq> 0" using worker by simp_all
  from lend_worker_same [OF lent this] same show ?thesis by simp
qed

section \<open>A worker that is refused\<close>

text \<open>The agents after a step that only changed the last one.\<close>

definition added :: "agent list \<Rightarrow> string \<Rightarrow> office \<Rightarrow> bool" where
  "added as n w \<longleftrightarrow> n \<notin> set (map ag_name as) \<and> (\<exists>a. ag_name a = n \<and> of_agents w = as @ [a])"

lemma added_put: "added as (ag_name a) w \<Longrightarrow> added as (ag_name a) (put_agent a w)"
  by (force simp: added_def intro: map_idI)

lemma added_delete: "added as n w \<Longrightarrow> of_agents (factory_delete n (w\<lparr>of_rows := r\<rparr>)) = as"
proof -
  assume ad: "added as n w"
  then obtain a where a: "of_agents w = as @ [a]" "ag_name a = n" by (auto simp: added_def)
  have "n \<notin> set (map ag_name as)" using ad by (simp add: added_def)
  then have "\<forall>b\<in>set as. ag_name b \<noteq> n" by auto
  with a show ?thesis by (simp add: factory_delete_def filter_id_conv)
qed

lemma new_worker_same [simp]: "ag_name (new_worker o' a) = ag_name a" "ag_id (new_worker o' a) = ag_id a"
  by (simp_all add: new_worker_def Let_def)

lemma added_world:
  "added as (ag_name a) (sw_office w) \<Longrightarrow> added as (ag_name a) (sw_office (put_world a w))"
  "added as n (put_agent b of') \<Longrightarrow> of_agents w2 = of_agents (put_agent b of') \<Longrightarrow> added as n w2"
  by (simp_all add: put_world_def added_put) (simp add: added_def)

lemma refused_agents:
  "added as (ag_name a) (sw_office w) \<Longrightarrow> of_agents (sw_office (release_registered a w)) = as"
  by (simp add: release_registered_def added_delete)

lemma added_agents: "of_agents w' = of_agents w \<Longrightarrow> added as n w' = added as n w"
  by (simp add: added_def)

text \<open>What the acquisition relies on of a harness: attaching its session keeps the agent's name and row.\<close>

locale session_harness =
  fixes e :: "'w session_env"
  assumes keeps_name: "ag_name (fst (snd (se_attach e a m x))) = ag_name a"
    and keeps_id: "ag_id (fst (snd (se_attach e a m x))) = ag_id a"
begin

lemma attach_names:
  assumes "ag_id a \<noteq> 0" "attach_session e a mode w = (w', a', err)"
  shows "ag_name a' = ag_name a \<and> ag_id a' = ag_id a \<and> of_agents (sw_office w') = of_agents (put_agent a' (sw_office w))"
proof -
  obtain out a1 kept x where at: "se_attach e (a\<lparr>ag_llm := True\<rparr>) mode (sw_out w) = (out, a1, kept, x)" using prod_cases4 by blast
  have n: "ag_name a1 = ag_name a" "ag_id a1 = ag_id a"
    using keeps_name [of "a\<lparr>ag_llm := True\<rparr>" mode "sw_out w"] keeps_id [of "a\<lparr>ag_llm := True\<rparr>" mode "sw_out w"] at by simp_all
  obtain of' a2 where p: "(if kept then persist_agent a1 (sw_office w) else (sw_office w, a1)) = (of', a2)" by fastforce
  then have "a2 = a1 \<and> of_agents of' = of_agents (sw_office w)"
    using persist_agent_same [of a1 "sw_office w" of' a2] persist_agent_agents n assms(1) by (auto split: if_splits)
  then show ?thesis using assms(2) at p n by (auto simp: attach_session_def)
qed

lemma attach_adds:
  assumes "ag_id a \<noteq> 0" "added as (ag_name a) (sw_office w)" "attach_worker_backend e p a w = (w', a', err)"
  shows "added as (ag_name a') (sw_office w')"
proof -
  have at: "added as (ag_name a') (sw_office w')" if "attach_session e b ''agent'' w = (w', a', err)" "ag_name b = ag_name a" "ag_id b = ag_id a" for b
  proof -
    have n: "ag_name a' = ag_name b" "of_agents (sw_office w') = of_agents (put_agent a' (sw_office w))"
      using attach_names [OF _ that(1)] that(3) assms(1) by simp_all
    have "added as (ag_name a') (sw_office w)" using assms(2) n(1) that(2) by simp
    then have "added as (ag_name a') (put_agent a' (sw_office w))" by (rule added_put)
    then show ?thesis using added_agents [OF n(2)] by simp
  qed
  show ?thesis
    using assms(2,3) at by (auto simp: attach_worker_backend_def Let_def split: if_splits)
qed

lemma let_go:
  assumes fresh: "ag_name (snd (new_agent (se_home e) (sw_office w))) \<notin> set (map ag_name (of_agents (sw_office w)))"
    and none: "aq_ephemeral o' \<or> idle_worker (aq_task o') (aq_purpose o') (aq_workspace o') (sw_office w) = None"
    and refused: "acquire_agent e d o' w = (w', Inl err)"
  shows "of_agents (sw_office w') = of_agents (sw_office w)"
proof -
  let ?as = "of_agents (sw_office w)"
  obtain of' a0 where new: "new_agent (se_home e) (sw_office w) = (of', a0)" by fastforce
  have a0: "of_agents of' = ?as @ [a0]" "ag_id a0 \<noteq> 0" "ag_name a0 \<notin> set (map ag_name ?as)"
    using new_agent_cases [OF new] fresh new by auto
  define a where "a = new_worker o' a0"
  define w1 where "w1 = put_world a (w\<lparr>sw_office := of'\<rparr>)"
  have same: "ag_name a = ag_name a0" "ag_id a \<noteq> 0" using a0(2) by (simp_all add: a_def)
  have "added ?as (ag_name a) (sw_office (w\<lparr>sw_office := of'\<rparr>))" using a0 same by (auto simp: added_def)
  then have ad1: "added ?as (ag_name a) (sw_office w1)" unfolding w1_def by (rule added_world)
  have reg: "register_worker e d o' w = (w', Inl err)" using refused none by (cases "aq_ephemeral o'") (simp_all add: acquire_agent_def)
  obtain pool r where plan: "assign_agent_runtime (se_env e) (se_paths e) (se_models e) a (opts_policy o') d (sw_pool w1) = (pool, r)" by fastforce
  show ?thesis
  proof (cases r)
    case (Inl x)
    then have "w' = release_registered a (w1\<lparr>sw_pool := pool\<rparr>)"
      using reg plan by (simp add: register_worker_def new a_def [symmetric] w1_def [symmetric] Let_def)
    with refused_agents [of ?as a "w1\<lparr>sw_pool := pool\<rparr>"] ad1 show ?thesis by simp
  next
    case (Inr p)
    define a1 where "a1 = apply_agent_runtime (se_dir e) p a"
    define w2 where "w2 = put_world a1 (w1\<lparr>sw_pool := pool\<rparr>)"
    obtain of2 a2 where k: "(if pl_account p = None then (sw_office w2, a1) else persist_agent a1 (sw_office w2)) = (of2, a2)" by fastforce
    have s1: "ag_name a1 = ag_name a" "ag_id a1 \<noteq> 0" using same by (simp_all add: a1_def)
    have s2: "a2 = a1" "of_agents of2 = of_agents (sw_office w2)"
      using k persist_agent_same [of a1 "sw_office w2" of2 a2] persist_agent_agents s1 by (auto split: if_splits)
    define a3 where "a3 = given_workspace o' a2"
    define w3 where "w3 = put_world a3 (w2\<lparr>sw_office := of2\<rparr>)"
    have s3: "ag_name a3 = ag_name a" "ag_id a3 \<noteq> 0" using s1 s2 by (simp_all add: a3_def)
    have "added ?as (ag_name a1) (sw_office (w1\<lparr>sw_pool := pool\<rparr>))" using ad1 s1(1) by simp
    then have "added ?as (ag_name a1) (sw_office w2)" unfolding w2_def by (rule added_world)
    then have "added ?as (ag_name a3) (sw_office (w2\<lparr>sw_office := of2\<rparr>))" using s1 s2 s3 by (simp add: added_agents [of of2 "sw_office w2"])
    then have ad3: "added ?as (ag_name a3) (sw_office w3)" unfolding w3_def by (rule added_world)
    obtain w4 a4 x where at: "attach_worker_backend e p a3 w3 = (w4, a4, x)" using prod_cases3 by blast
    have ad4: "added ?as (ag_name a4) (sw_office w4)" by (rule attach_adds [OF s3(2) ad3 at])
    have "w' = release_registered a4 w4"
      using reg plan Inr k at unfolding a3_def w3_def w2_def a1_def w1_def a_def register_worker_def new Let_def lend_session_def
      by (simp split: option.splits prod.splits split del: if_split)
    with refused_agents [OF ad4] show ?thesis by simp
  qed
qed

end

text \<open>
  C40: An acquisition that had to register its worker and is refused, by the pool, for an unknown backend, or
  by the harness, leaves the agents of the process as they were, whatever the database does.
\<close>
theorem refused_worker_is_let_go:
  assumes harness: "\<And>a m x. ag_name (fst (snd (se_attach e a m x))) = ag_name a" "\<And>a m x. ag_id (fst (snd (se_attach e a m x))) = ag_id a"
    and fresh: "ag_name (snd (new_agent (se_home e) (sw_office w))) \<notin> set (map ag_name (of_agents (sw_office w)))"
    and none: "aq_ephemeral o' \<or> idle_worker (aq_task o') (aq_purpose o') (aq_workspace o') (sw_office w) = None"
    and refused: "acquire_agent e d o' w = (w', Inl err)"
  shows "of_agents (sw_office w') = of_agents (sw_office w)"
  by (rule session_harness.let_go [OF session_harness.intro [OF harness] fresh none refused])

section \<open>Two loans\<close>

definition review_opts :: acquire_opts where
  "review_opts = \<lparr>aq_purpose = ''review'', aq_workspace = [], aq_model = [], aq_task = ''t1'', aq_backend = harness_cursor,
     aq_ephemeral = False, aq_extends = None\<rparr>"

definition free_world :: "account_table option \<Rightarrow> nat session_world" where
  "free_world pool = (sample_world True)\<lparr>sw_pool := pool, sw_office := \<lparr>of_agents = [], of_next = 1, of_rows = None, of_tasks = None\<rparr>\<rparr>"

definition first_loan :: "nat session_world \<times> (session_error + llm_session)" where
  "first_loan = acquire_agent (sample_env False) None review_opts (free_world (Some sample_pool))"

definition second_loan :: "nat session_world \<times> (session_error + llm_session)" where
  "second_loan =
    (case first_loan of
       (w, Inl e) \<Rightarrow> (w, Inl e)
     | (w, Inr ss) \<Rightarrow> acquire_agent (sample_env False) None review_opts (snd (release_session ss w)))"

lemma loans_succeed: "(case second_loan of (w, Inr ss) \<Rightarrow> True | _ \<Rightarrow> False)"
  by code_simp

lemma first_worker:
  "case first_loan of (w, Inr ss) \<Rightarrow>
      (case ls_agent ss of None \<Rightarrow> False | Some a \<Rightarrow>
         ag_role a = role_worker \<and> \<not> is_ephemeral a \<and> ag_llm a \<and> ag_id a = 2 \<and> ag_task a = Some ''t1'' \<and>
         trim (ag_purpose a) = ''review'' \<and> map ag_name (of_agents (sw_office w)) = [ag_name a])
    | _ \<Rightarrow> False"
  by code_simp

theorem parked_worker_is_lent_again_witness:
  "\<exists>w ss w2 ss2 b. first_loan = (w, Inr ss) \<and> second_loan = (w2, Inr ss2) \<and> ls_agent ss2 = Some b \<and> ag_id b = 2 \<and>
    map ag_name (of_agents (sw_office w2)) = map ag_name (of_agents (sw_office w))"
proof -
  obtain w r where 0: "first_loan = (w, r)" by fastforce
  then obtain ss where 1: "first_loan = (w, Inr ss)" using first_worker [unfolded 0 prod.case] by (cases r) auto
  obtain a where a: "ls_agent ss = Some a" using first_worker [unfolded 1 prod.case sum.case] by (cases "ls_agent ss") auto
  note hyps = first_worker [unfolded 1 prod.case sum.case a option.case]
  obtain w2 r2 where 0: "second_loan = (w2, r2)" by fastforce
  then obtain ss2 where 2: "second_loan = (w2, Inr ss2)" using loans_succeed [unfolded 0 prod.case] by (cases r2) auto
  obtain ss' w1 where r: "release_session ss w = (ss', w1)" by fastforce
  have again: "acquire_agent (sample_env False) None review_opts w1 = (w2, Inr ss2)" using 2 by (simp add: second_loan_def 1 r)
  have opts: "trim (aq_task review_opts) = ''t1''" "trim (aq_purpose review_opts) = ''review''" "trim (aq_workspace review_opts) = []" "\<not> aq_ephemeral review_opts"
    by (code_simp, code_simp, code_simp, code_simp)
  have "ag_name a \<in> set (map ag_name (of_agents (sw_office w)))" using hyps by simp
  moreover have "\<forall>b\<in>set (of_agents (sw_office w)). ag_name b = ag_name a"
  proof
    fix b assume "b \<in> set (of_agents (sw_office w))"
    then have "ag_name b \<in> set (map ag_name (of_agents (sw_office w)))" by simp
    with hyps show "ag_name b = ag_name a" by simp
  qed
  ultimately obtain b where b: "ls_agent ss2 = Some b" "ag_id b = ag_id a" "map ag_name (of_agents (sw_office w2)) = map ag_name (of_agents (sw_office w))"
    using parked_worker_is_lent_again [OF r a _ _ _ _ _ _ _ _ _ _ _ _ again] hyps opts by auto
  have "ag_id b = 2" using hyps b(2) by simp
  with 1 2 b(1,3) show ?thesis by blast
qed

lemma no_pool_refuses:
  "(case acquire_agent (sample_env False) None review_opts (free_world None) of (w, Inl err) \<Rightarrow> err = RuntimeRefused NoAccountStore | _ \<Rightarrow> False)"
  by code_simp

theorem refused_worker_is_let_go_witness:
  "\<exists>w err. acquire_agent (sample_env False) None review_opts (free_world None) = (w, Inl err) \<and> of_agents (sw_office w) = []"
proof -
  obtain w x where 0: "acquire_agent (sample_env False) None review_opts (free_world None) = (w, x)" by fastforce
  then obtain err where r: "acquire_agent (sample_env False) None review_opts (free_world None) = (w, Inl err)"
    using no_pool_refuses [unfolded 0 prod.case] by (cases x) auto
  have "of_agents (sw_office (free_world None)) = []" by (simp add: free_world_def)
  moreover have "ag_name (fst (snd (se_attach (sample_env False) a m x))) = ag_name a \<and> ag_id (fst (snd (se_attach (sample_env False) a m x))) = ag_id a" for a m x
    by (simp add: sample_env_def)
  ultimately have "of_agents (sw_office w) = []"
    using refused_worker_is_let_go [OF _ _ _ _ r] by (simp add: idle_worker_def)
  with r show ?thesis by blast
qed

end
