(* ===== verification/Deepseek_Laws.thy ===== *)
theory Deepseek_Laws
  imports Deepseek_Session Worker_Laws
begin

text \<open>
  What a DeepSeek session keeps: conversations in which every tool call is answered, files a planning turn
  does not change, a bounded number of requests, and the conversation of a turn that failed.
\<close>

section \<open>Conversations\<close>

text \<open>Every call an answer makes is answered by the tool messages right after it, in order.\<close>

fun answered :: "ds_message list \<Rightarrow> bool" where
  "answered [] = True"
| "answered (m # ms) =
    (if dm_role m = ''assistant'' \<and> dm_calls m \<noteq> []
     then map dm_call_id (take (length (dm_calls m)) ms) = map tl_id (dm_calls m) \<and>
       (\<forall>x\<in>set (take (length (dm_calls m)) ms). dm_role x = ''tool'') \<and> answered (drop (length (dm_calls m)) ms)
     else dm_role m \<noteq> ''tool'' \<and> answered ms)"

definition well_formed_talk :: "ds_message list \<Rightarrow> bool" where
  "well_formed_talk ms \<longleftrightarrow> ms = [] \<or>
     (dm_role (hd ms) = ''system'' \<and> answered ms \<and> dm_role (last ms) = ''assistant'' \<and> dm_calls (last ms) = [])"

lemma answered_append: "answered xs \<Longrightarrow> answered ys \<Longrightarrow> answered (xs @ ys)"
proof (induction xs rule: answered.induct)
  case (2 m ms)
  show ?case
  proof (cases "dm_role m = ''assistant'' \<and> dm_calls m \<noteq> []")
    case True
    then have "length (take (length (dm_calls m)) ms) = length (dm_calls m)" using 2(3) by (metis answered.simps(2) length_map)
    then have "length (dm_calls m) \<le> length ms" by simp
    with True 2 show ?thesis by simp
  next
    case False
    have rest: "dm_role m \<noteq> ''tool'' \<and> answered ms" using 2(3) unfolding answered.simps if_not_P [OF False] .
    then have "answered (ms @ ys)" using 2(2) [OF False] 2(4) by blast
    with rest show ?thesis unfolding append_Cons answered.simps if_not_P [OF False] by blast
  qed
qed simp

lemma answered_exchange:
  assumes "dm_role m = ''assistant''" "map dm_call_id as = map tl_id (dm_calls m)" "\<forall>x\<in>set as. dm_role x = ''tool''" "dm_calls m \<noteq> []"
  shows "answered (m # as)"
proof -
  have "length as = length (dm_calls m)" using assms(2) by (metis length_map)
  with assms show ?thesis by simp
qed

section \<open>The answer of a stream\<close>

lemma choice_role: "add_choice c out = (out', evs, ok) \<Longrightarrow> dm_role (cp_message out') = dm_role (cp_message out)"
  by (auto simp: add_choice_def Let_def split: prod.splits option.splits if_splits)

lemma choices_role: "add_choices cs out = (out', evs, ok) \<Longrightarrow> dm_role (cp_message out') = dm_role (cp_message out)"
  by (induction cs arbitrary: out evs) (auto split: prod.splits bool.splits dest!: choice_role)

lemma read_role: "read_stream ls out = (out', evs, r) \<Longrightarrow> dm_role (cp_message out') = dm_role (cp_message out)"
proof (induction ls arbitrary: out evs)
  case (Cons l ls)
  have ck: "dm_role (cp_message o2) = dm_role (cp_message o1)" if "add_chunk ck o1 = (o2, es, ok)" for ck o1 o2 es ok
    using that by (auto simp: add_chunk_def split: prod.splits if_splits dest!: choices_role)
  show ?case using Cons.prems
    by (auto split: option.splits if_splits prod.splits bool.splits dest!: Cons.IH ck)
qed simp

lemma stream_role:
  assumes "stream_completion cancelled answer = (evs, Inr done)" shows "dm_role (cp_message done) = ''assistant''"
proof -
  obtain ls ended where 1: "answer = Inr (ls, ended)" using assms by (auto simp: stream_completion_def split: sum.splits)
  obtain out evs' r where 2: "read_stream ls start_completion = (out, evs', r)" using prod_cases3 by blast
  have "done = finished_completion out"
    using assms by (auto simp: stream_completion_def 1 2 split: sum.splits stream_end.splits if_splits)
  moreover have "dm_role (cp_message out) = ''assistant''" using read_role [OF 2] by (simp add: start_completion_def ds_text_def)
  ultimately show ?thesis by (simp add: finished_completion_def)
qed

section \<open>The loop\<close>

lemma ctx_keeps [simp]:
  "look_at_ctx w = (b, w') \<Longrightarrow> dw_files w' = dw_files w \<and> dw_disk w' = dw_disk w \<and> dw_calls w' = dw_calls w \<and> dw_faults w' = dw_faults w"
  by (auto simp: look_at_ctx_def split: list.splits)

lemma emit_sel [simp]:
  "dr_world (emit_native ns r) = dr_world r" "dr_messages (emit_native ns r) = dr_messages r" "dr_usage (emit_native ns r) = dr_usage r"
  by (simp_all add: emit_native_def)

lemma calls_answered:
  "run_calls e t cs r = (r', ok) \<Longrightarrow> dw_disk (dr_world r') = dw_disk (dr_world r) \<and> dw_calls (dr_world r') = dw_calls (dr_world r) \<and>
    (ok \<longrightarrow> (\<exists>as. dr_messages r' = dr_messages r @ as \<and> map dm_call_id as = map tl_id cs \<and> (\<forall>x\<in>set as. dm_role x = ''tool'')))"
proof (induction cs arbitrary: r)
  case (Cons c cs)
  obtain f content failed where 1: "run_tool (de_os e) (de_words e) t (tl_name c) (tl_args c) (dw_files (dr_world r)) = (f, content, failed)"
    using prod_cases3 by blast
  obtain b w where 2: "look_at_ctx ((dr_world r)\<lparr>dw_files := f\<rparr>) = (b, w)" by fastforce
  let ?ns = "[native ''tool_call'' [(''id'', JStr (tl_id c)), (''name'', JStr (tl_name c)), (''arguments'', JStr (tl_args c))],
                 native ''tool_result'' [(''id'', JStr (tl_id c)), (''name'', JStr (tl_name c)), (''content'', JStr content),
                   (''is_error'', JBool failed), (''duration_ms'', JNum (show_int (de_took e f)))]]"
  let ?r = "(emit_native ?ns r)\<lparr>dr_world := w, dr_messages := dr_messages r @ [tool_answer (tl_id c) content]\<rparr>"
  have w: "dw_disk w = dw_disk (dr_world r)" "dw_calls w = dw_calls (dr_world r)" using ctx_keeps [OF 2] by simp_all
  have "run_calls e t (c # cs) r = (if b then (?r, False) else run_calls e t cs ?r)" by (simp add: 1 2 Let_def)
  with Cons.prems Cons.IH [of ?r] w show ?case
    by (auto simp: tool_answer_def ds_text_def split: if_splits)
qed simp

lemma ask_cases:
  assumes "ask_model e cr model t r = (r1, y)"
  shows "dw_disk (dr_world r1) = dw_disk (dr_world r) \<and> dw_files (dr_world r1) = dw_files (dr_world r) \<and>
    dw_calls (dr_world r1) = Suc (dw_calls (dr_world r)) \<and>
    (\<forall>m. y = Inr m \<longrightarrow> dr_messages r1 = dr_messages r @ [m] \<and> dm_role m = ''assistant'')"
proof -
  obtain b w where 1: "look_at_ctx ((dr_world r)\<lparr>dw_calls := Suc (dw_calls (dr_world r))\<rparr>) = (b, w)" by fastforce
  obtain ns z where 2: "stream_completion b (de_api e cr (ds_request_of model t r) (dw_calls (dr_world r))) = (ns, z)" by fastforce
  show ?thesis
  proof (cases z)
    case (Inl err)
    with assms ctx_keeps [OF 1] show ?thesis by (auto simp: ask_model_def Let_def 1 2)
  next
    case (Inr c)
    with assms ctx_keeps [OF 1] stream_role [OF 2 [unfolded Inr]] show ?thesis by (auto simp: ask_model_def Let_def 1 2)
  qed
qed

lemma loop_cases:
  "tool_loop left limit e cr model t r = (r', x) \<Longrightarrow>
    dw_disk (dr_world r') = dw_disk (dr_world r) \<and> dw_calls (dr_world r') \<le> dw_calls (dr_world r) + left \<and>
    (\<forall>out. x = Inr out \<longrightarrow> (\<exists>ms m. dr_messages r' = dr_messages r @ ms @ [m] \<and> answered ms \<and>
       dm_role m = ''assistant'' \<and> dm_calls m = []))"
proof (induction left arbitrary: r)
  case (Suc left r)
  obtain r1 y where 1: "ask_model e cr model t r = (r1, y)" by fastforce
  note ask = ask_cases [OF 1]
  show ?case
  proof (cases y)
    case (Inl err)
    with Suc.prems ask show ?thesis by (auto simp: 1)
  next
    case (Inr m)
    show ?thesis
    proof (cases "dm_calls m = []")
      case True
      with Suc.prems ask Inr show ?thesis by (auto simp: 1 intro!: exI [of _ "[]"])
    next
      case False
      obtain r2 ok where 2: "run_calls e t (dm_calls m) r1 = (r2, ok)" by fastforce
      note calls = calls_answered [OF 2]
      show ?thesis
      proof (cases ok)
        case True
        then have loop: "tool_loop left limit e cr model t r2 = (r', x)" using Suc.prems Inr False by (simp add: 1 2)
        obtain as where as: "dr_messages r2 = dr_messages r1 @ as" "map dm_call_id as = map tl_id (dm_calls m)" "\<forall>x\<in>set as. dm_role x = ''tool''"
          using calls True by blast
        have ex: "answered (m # as)" using ask Inr as(2,3) False by (intro answered_exchange) simp_all
        have "\<exists>ms' m'. dr_messages r' = dr_messages r @ ms' @ [m'] \<and> answered ms' \<and> dm_role m' = ''assistant'' \<and> dm_calls m' = []"
          if "x = Inr out" for out
        proof -
          from Suc.IH [OF loop] that obtain ms m' where "dr_messages r' = dr_messages r2 @ ms @ [m']" "answered ms"
            "dm_role m' = ''assistant''" "dm_calls m' = []" by blast
          then have "answered (m # as @ ms)" using answered_append [OF ex, of ms] by (simp only: append_Cons)
          with \<open>dr_messages r' = dr_messages r2 @ ms @ [m']\<close> \<open>dm_role m' = ''assistant''\<close> \<open>dm_calls m' = []\<close> as(1) ask Inr show ?thesis
            by (intro exI [of _ "m # as @ ms"] exI [of _ m']) (simp del: answered.simps)
        qed
        with Suc.IH [OF loop] ask calls show ?thesis by auto
      qed (use Suc.prems Inr False ask calls in \<open>auto simp: 1 2\<close>)
    qed
  qed
qed auto

section \<open>One prompt\<close>

lemma settled_turn:
  assumes "well_formed_talk ms" "answered tail" "dm_role m = ''assistant''" "dm_calls m = []"
  shows "well_formed_talk (started_messages cwd mode prompt ms @ tail @ [m])"
proof -
  have sys: "answered [ds_text ''system'' x]" and user: "answered [ds_text ''user'' x]" for x by (simp_all add: ds_text_def)
  have last_ok: "answered [m]" using assms(3,4) by simp
  have "answered (started_messages cwd mode prompt ms)"
  proof (cases "ms = []")
    case True
    then show ?thesis unfolding started_messages_def using answered_append [OF sys user] by (simp only: simp_thms if_True)
  next
    case False
    then have "answered ms" using assms(1) by (simp add: well_formed_talk_def)
    from answered_append [OF this user] False show ?thesis unfolding started_messages_def by (simp only: if_False)
  qed
  then have "answered (started_messages cwd mode prompt ms @ tail @ [m])"
    using answered_append [OF assms(2) last_ok] answered_append by blast
  moreover have "dm_role (hd (started_messages cwd mode prompt ms @ tail @ [m])) = ''system''"
    using assms(1) by (cases ms) (simp_all add: started_messages_def well_formed_talk_def ds_text_def)
  ultimately show ?thesis using assms(3,4) by (simp add: well_formed_talk_def)
qed

definition convs_settled :: "ds_session \<Rightarrow> bool" where
  "convs_settled s \<longleftrightarrow> (\<forall>(k, c)\<in>set (dn_convs s). well_formed_talk (ts_messages c))"

definition disk_settled :: "'f ds_world \<Rightarrow> bool" where
  "disk_settled w \<longleftrightarrow> (\<forall>(i, x)\<in>set (dw_disk w). case x of None \<Rightarrow> True | Some t \<Rightarrow> well_formed_talk (ts_messages t))"

lemma update_subset: "set (AList.update k v al) \<subseteq> insert (k, v) (set al)"
  by (induction al) auto

lemma settled_update: "convs_settled s \<Longrightarrow> well_formed_talk (ts_messages c) \<Longrightarrow> convs_settled (s\<lparr>dn_convs := AList.update k c (dn_convs s)\<rparr>)"
  using update_subset [of k c "dn_convs s"] by (fastforce simp: convs_settled_def)

lemma settled_disk: "disk_settled w \<Longrightarrow> well_formed_talk (ts_messages t) \<Longrightarrow> disk_settled (w\<lparr>dw_disk := AList.update i (Some t) (dw_disk w)\<rparr>)"
  using update_subset [of i "Some t" "dw_disk w"] by (fastforce simp: disk_settled_def)

lemma settled_map_of: "convs_settled s \<Longrightarrow> map_of (dn_convs s) k = Some c \<Longrightarrow> well_formed_talk (ts_messages c)"
  by (auto simp: convs_settled_def dest!: map_of_SomeD)

lemma settled_same: "dn_convs s' = dn_convs s \<Longrightarrow> convs_settled s' = convs_settled s" "dw_disk w' = dw_disk w \<Longrightarrow> disk_settled w' = disk_settled w"
  by (simp_all add: convs_settled_def disk_settled_def)

lemma load_settled:
  assumes "load_transcript i w = (w', r)" "disk_settled w"
  shows "dw_disk w' = dw_disk w \<and> dw_files w' = dw_files w \<and> dw_calls w' = dw_calls w \<and> (\<forall>c. r = Inr (Some c) \<longrightarrow> well_formed_talk (ts_messages c))"
  using assms
  by (auto simp: load_transcript_def disk_call_def disk_settled_def split: if_splits list.splits option.splits dest!: map_of_SomeD)

lemma open_settled:
  assumes "open_conv e a mode cwd s w = (w', r)" "convs_settled s" "disk_settled w"
  shows "dw_disk w' = dw_disk w \<and> dw_files w' = dw_files w \<and> dw_calls w' = dw_calls w \<and>
    (\<forall>c i b. r = Inr (c, i, b) \<longrightarrow> well_formed_talk (ts_messages c) \<and> (\<forall>c'. map_of (dn_convs s) (mode, cwd) = Some c' \<longrightarrow> c = c'))"
proof (cases "map_of (dn_convs s) (mode, cwd)")
  case None
  obtain w1 x where 1: "(if dn_key s = None \<and> mode = mode_plan \<and> \<not> is_ephemeral a \<and> ag_llm_agent a \<noteq> []
      then load_transcript (ag_llm_agent a) w else (w, Inr None)) = (w1, x)" by fastforce
  have "dw_disk w1 = dw_disk w \<and> dw_files w1 = dw_files w \<and> dw_calls w1 = dw_calls w \<and> (\<forall>c. x = Inr (Some c) \<longrightarrow> well_formed_talk (ts_messages c))"
    using 1 load_settled [of "ag_llm_agent a" w w1 x] assms(3) by (auto split: if_splits)
  with assms(1) None show ?thesis unfolding open_conv_def None option.case 1
    by (auto simp: new_transcript_def well_formed_talk_def split: sum.splits option.splits)
qed (use assms settled_map_of in \<open>auto simp: open_conv_def\<close>)

lemma attach_cases:
  assumes "ds_attach e a mode s w = (w', s', a', kept, r)" "convs_settled s" "disk_settled w"
  shows "dw_disk w' = dw_disk w \<and> dw_files w' = dw_files w \<and> dw_calls w' = dw_calls w \<and> convs_settled s' \<and>
    (\<forall>k c. map_of (dn_convs s) k = Some c \<longrightarrow> map_of (dn_convs s') k = Some c) \<and>
    (\<forall>b. r = Inr b \<longrightarrow> (\<exists>k c. dn_key s' = Some k \<and> map_of (dn_convs s') k = Some c \<and> well_formed_talk (ts_messages c)))"
proof -
  obtain b w1 where 1: "look_at_ctx w = (b, w1)" by fastforce
  note ctx = ctx_keeps [OF 1]
  let ?cwd = "ds_workspace e a"
  show ?thesis
  proof (cases "b \<or> trim (cr_api_key (ag_creds a)) = [] \<or> (dn_key s = Some (mode, ?cwd) \<and> conv_of s \<noteq> None)")
    case True
    with assms ctx show ?thesis
      by (auto simp: ds_attach_def 1 Let_def conv_of_def split: bool.splits if_splits dest: settled_map_of)
  next
    case False
    obtain w2 x where 2: "open_conv e a mode ?cwd s w1 = (w2, x)" by fastforce
    have disk1: "disk_settled w1" using assms(3) ctx settled_same(2) by metis
    note opened = open_settled [OF 2 assms(2) disk1]
    show ?thesis
    proof (cases x)
      case (Inl err)
      with assms False ctx opened show ?thesis by (auto simp: ds_attach_def 1 2 Let_def)
    next
      case (Inr y)
      obtain c i resumed where y: "x = Inr (c, i, resumed)" using Inr by (cases y) auto
      let ?s = "s\<lparr>dn_convs := AList.update (mode, ?cwd) c (dn_convs s)\<rparr>"
      have s': "s' = ?s\<lparr>dn_key := Some (mode, ?cwd), dn_from := i, dn_resumed := resumed\<rparr>" "w' = w2"
        using assms(1) False by (auto simp: ds_attach_def 1 2 y Let_def split: prod.splits)
      have "convs_settled ?s" using settled_update [OF assms(2)] opened y by blast
      then have "convs_settled s'" using settled_same(1) [of s' ?s] s'(1) by simp
      with opened y ctx s' show ?thesis by (auto simp: update_conv')
    qed
  qed
qed

lemma set_conv_lookup:
  "dn_key s = Some k \<Longrightarrow> map_of (dn_convs (set_conv c s)) j = (if j = k then Some c else map_of (dn_convs s) j)"
  by (simp add: set_conv_def update_conv')

lemma settled_set_conv: "convs_settled s \<Longrightarrow> well_formed_talk (ts_messages c) \<Longrightarrow> convs_settled (set_conv c s)"
  by (cases "dn_key s") (simp_all add: set_conv_def settled_update)

lemma save_cases:
  assumes "save_transcript t w = (w', err)"
  shows "dw_files w' = dw_files w \<and> dw_calls w' = dw_calls w \<and> (err \<noteq> None \<longrightarrow> dw_disk w' = dw_disk w \<and> err \<noteq> Some IndexPanic) \<and>
    (disk_settled w \<longrightarrow> well_formed_talk (ts_messages t) \<longrightarrow> disk_settled w')"
proof -
  obtain w1 x where 1: "disk_call w = (w1, x)" by fastforce
  then have w1: "dw_files w1 = dw_files w" "dw_calls w1 = dw_calls w" "dw_disk w1 = dw_disk w"
    by (auto simp: disk_call_def split: list.splits)
  have keep: "disk_settled w1 = disk_settled w" by (rule settled_same(2) [OF w1(3)])
  show ?thesis
  proof (cases "transcript_id_ok (ts_id t) \<and> x = None")
    case True
    with assms have s: "w' = w1\<lparr>dw_disk := AList.update (ts_id t) (Some t) (dw_disk w1)\<rparr>" "err = None"
      by (auto simp: save_transcript_def 1)
    show ?thesis using settled_disk [of w1 t "ts_id t"] keep w1 by (simp add: s)
  next
    case False
    then have "(w' = w \<or> w' = w1) \<and> err = Some (StoreFailed (ts_id t))"
      using assms by (cases x) (auto simp: save_transcript_def 1 split: if_splits)
    with w1 keep show ?thesis by auto
  qed
qed

lemma store_cases:
  assumes "store_turn e eph c out r = (r', err)"
  shows "dr_messages r' = dr_messages r \<and> dw_files (dr_world r') = dw_files (dr_world r) \<and> dw_calls (dr_world r') = dw_calls (dr_world r) \<and>
    (err \<noteq> None \<longrightarrow> dw_disk (dr_world r') = dw_disk (dr_world r) \<and> err \<noteq> Some IndexPanic) \<and>
    (disk_settled (dr_world r) \<longrightarrow> well_formed_talk (dr_messages r) \<longrightarrow> disk_settled (dr_world r'))"
proof -
  obtain w x where 1: "save_transcript (c\<lparr>ts_messages := dr_messages r\<rparr>) (dr_world r) = (w, x)" by fastforce
  show ?thesis
  proof (cases "out = [] \<or> eph")
    case True
    with assms show ?thesis by (auto simp: store_turn_def split: if_splits)
  next
    case False
    with assms have "r' = r\<lparr>dr_world := w\<rparr>" "err = x" by (auto simp: store_turn_def 1)
    with save_cases [OF 1] show ?thesis by simp
  qed
qed

lemma result_error [simp]: "dy_error (ds_result e st i r out err b) = map_option (\<lambda>x. if b then DsCancelled else x) err"
  by (cases err) (simp_all add: ds_result_def Let_def)

lemma turn_cases:
  assumes "answered_turn e a prompt mode c w = (r, out, err)"
  shows "dw_calls (dr_world r) \<le> dw_calls w + max_iterations (de_limit e) \<and> (err \<noteq> None \<longrightarrow> dw_disk (dr_world r) = dw_disk w) \<and>
    (well_formed_talk (ts_messages c) \<longrightarrow> disk_settled w \<longrightarrow> disk_settled (dr_world r) \<and> (err = None \<longrightarrow> well_formed_talk (dr_messages r)))"
proof -
  let ?r0 = "\<lparr>dr_world = w, dr_messages = started_messages (ts_workspace c) mode prompt (ts_messages c), dr_natives = [], dr_usage = no_usage\<rparr>"
  obtain r1 x where 1: "tool_loop (max_iterations (de_limit e)) (max_iterations (de_limit e)) e (ag_creds a) (ds_model a)
      \<lparr>tb_root = ts_workspace c, tb_mode = mode\<rparr> ?r0 = (r1, x)" by fastforce
  note loop = loop_cases [OF 1, simplified]
  have disk: "disk_settled w \<longrightarrow> disk_settled (dr_world r1)" using loop settled_same(2) by metis
  show ?thesis
  proof (cases x)
    case (Inl err')
    then have "r = r1" "err \<noteq> None" using assms by (auto simp: answered_turn_def 1)
    with loop disk show ?thesis by auto
  next
    case (Inr out')
    then have st: "store_turn e (is_ephemeral a) c out' r1 = (r, err)" using assms by (auto simp: answered_turn_def 1 split: prod.splits)
    note stored = store_cases [OF st]
    have "well_formed_talk (dr_messages r1)" if "well_formed_talk (ts_messages c)"
    proof -
      obtain ms m where "dr_messages r1 = started_messages (ts_workspace c) mode prompt (ts_messages c) @ ms @ [m]" "answered ms"
        "dm_role m = ''assistant''" "dm_calls m = []" using loop Inr by blast
      with settled_turn [OF that] show ?thesis by simp
    qed
    with disk loop stored show ?thesis by auto
  qed
qed

lemma end_cases:
  assumes "end_turn e st c s r out err = (w, s', y)"
  shows "dw_disk w = dw_disk (dr_world r) \<and> dw_files w = dw_files (dr_world r) \<and> dw_calls w = dw_calls (dr_world r) \<and>
    (dy_error y = None \<longleftrightarrow> err = None) \<and> (dy_error y = Some IndexPanic \<longleftrightarrow> err = Some IndexPanic) \<and>
    (\<exists>c'. s' = set_conv c' s \<and> (err = None \<longrightarrow> ts_messages c' = dr_messages r) \<and>
       (err \<noteq> None \<longrightarrow> err \<noteq> Some IndexPanic \<longrightarrow> ts_messages c' = ts_messages c))"
proof (cases err)
  case (Some x)
  obtain b w1 where 1: "look_at_ctx (dr_world r) = (b, w1)" by fastforce
  show ?thesis
  proof (cases "x = IndexPanic")
    case True
    with Some assms show ?thesis by (auto simp: end_turn_def intro!: exI [of _ "c\<lparr>ts_messages := dr_messages r\<rparr>"])
  next
    case False
    with Some assms ctx_keeps [OF 1] show ?thesis by (auto simp: end_turn_def 1 split: if_splits intro!: exI [of _ c])
  qed
qed (use assms in \<open>auto simp: end_turn_def intro!: exI [of _ "c\<lparr>ts_messages := dr_messages r\<rparr>"]\<close>)

text \<open>A prompt whose session was attached, in its three parts.\<close>

lemma prompt_parts:
  assumes "ds_attach e a mode s w = (w1, s1, a1, kept, Inr b)" "conv_of s1 = Some c"
    and "ds_prompt e a prompt mode s w = (w', s', a', kept', y)"
  shows "\<exists>c1 s2 r out err. answered_turn e a1 prompt mode c1 w1 = (r, out, err) \<and> end_turn e (de_clock e w) c1 s2 r out err = (w', s', y) \<and>
    ts_messages c1 = ts_messages c \<and> ts_workspace c1 = ds_workspace e a \<and> dn_convs s2 = dn_convs s1 \<and> dn_key s2 = dn_key s1"
proof -
  let ?c = "c\<lparr>ts_model := ds_model a1, ts_workspace := ds_workspace e a\<rparr>"
  let ?s = "s1\<lparr>dn_from := ts_id c, dn_resumed := ts_messages c \<noteq> []\<rparr>"
  obtain r out err where 1: "answered_turn e a1 prompt mode ?c w1 = (r, out, err)" using prod_cases3 by blast
  have "end_turn e (de_clock e w) ?c ?s r out err = (w', s', y)"
    using assms(3) 1 by (simp add: ds_prompt_def assms(1,2) Let_def split: prod.splits)
  with 1 show ?thesis by (intro exI [of _ ?c] exI [of _ ?s]) auto
qed

lemma prompt_cases:
  assumes "ds_prompt e a prompt mode s w = (w', s', a', kept, y)" "convs_settled s" "disk_settled w"
  shows "dw_calls w' \<le> dw_calls w + max_iterations (de_limit e) \<and>
    disk_settled w' \<and> (dy_error y \<noteq> Some IndexPanic \<longrightarrow> convs_settled s') \<and>
    (dy_error y \<noteq> None \<and> dy_error y \<noteq> Some IndexPanic \<longrightarrow> dw_disk w' = dw_disk w \<and>
       (\<forall>k c. map_of (dn_convs s) k = Some c \<longrightarrow> (\<exists>c'. map_of (dn_convs s') k = Some c' \<and> ts_messages c' = ts_messages c)))"
proof -
  obtain w1 s1 a1 kept1 x where 1: "ds_attach e a mode s w = (w1, s1, a1, kept1, x)" using prod_cases5 by blast
  note att = attach_cases [OF 1 assms(2,3)]
  have disk1: "disk_settled w1" using att assms(3) settled_same(2) by metis
  show ?thesis
  proof (cases x)
    case (Inl err)
    obtain b w2 where 2: "look_at_ctx w1 = (b, w2)" by fastforce
    have "w' = w2" "s' = s1" using assms(1) Inl by (auto simp: ds_prompt_def 1 2 Let_def)
    with att ctx_keeps [OF 2] disk1 settled_same(2) [of w2 w1] show ?thesis by auto
  next
    case (Inr b)
    obtain k c where c: "dn_key s1 = Some k" "map_of (dn_convs s1) k = Some c" "well_formed_talk (ts_messages c)" using att Inr by blast
    have "conv_of s1 = Some c" using c by (simp add: conv_of_def)
    from prompt_parts [OF 1 [unfolded Inr] this assms(1)] obtain c1 s2 r out err where
      turn: "answered_turn e a1 prompt mode c1 w1 = (r, out, err)" and fin: "end_turn e (de_clock e w) c1 s2 r out err = (w', s', y)"
      and same: "ts_messages c1 = ts_messages c" "dn_convs s2 = dn_convs s1" "dn_key s2 = dn_key s1" by blast
    note t = turn_cases [OF turn] and f = end_cases [OF fin]
    obtain c' where c': "s' = set_conv c' s2" "err = None \<longrightarrow> ts_messages c' = dr_messages r"
      "err \<noteq> None \<longrightarrow> err \<noteq> Some IndexPanic \<longrightarrow> ts_messages c' = ts_messages c1" using f by blast
    have conv2: "convs_settled s2" using att settled_same(1) [OF same(2)] by simp
    have "convs_settled s'" if "err \<noteq> Some IndexPanic"
    proof -
      have "well_formed_talk (ts_messages c')" using that c' t c(3) disk1 same(1) by (cases err) auto
      then show ?thesis using settled_set_conv [OF conv2] c'(1) by simp
    qed
    moreover have "disk_settled w'" using t c(3) disk1 same(1) f settled_same(2) [of w' "dr_world r"] by simp
    moreover have "\<exists>c''. map_of (dn_convs s') j = Some c'' \<and> ts_messages c'' = ts_messages d"
      if "err \<noteq> None" "err \<noteq> Some IndexPanic" "map_of (dn_convs s) j = Some d" for j d
    proof -
      have "map_of (dn_convs s1) j = Some d" using att that(3) by blast
      with that(1,2) c c' same show ?thesis using set_conv_lookup [of s2 k c' j] by auto
    qed
    ultimately show ?thesis using att t f by auto
  qed
qed

section \<open>A planning turn\<close>

lemma plan_tool_files:
  assumes "run_tool o' words t name arguments f = (f', content, failed)" "tb_mode t = mode_plan" shows "f' = f"
proof (cases "tool_args arguments")
  case (Some args)
  show ?thesis
  proof (cases "name \<in> set (tool_names mode_plan)")
    case True
    then have "name = ''read_file'' \<or> name = ''list_files'' \<or> name = ''search_files''"
      by (simp add: tool_names_def reading_tools_def)
    then have "name \<noteq> ''run_shell''" "fst (file_tool o' t name args f) = f" by (auto simp: file_tool_def)
    with assms Some True show ?thesis by (cases "file_tool o' t name args f") (auto simp: run_tool_def split: sum.splits)
  qed (use assms Some in \<open>simp add: run_tool_def\<close>)
qed (use assms in \<open>simp add: run_tool_def\<close>)

lemma plan_calls_files:
  "run_calls e t cs r = (r', ok) \<Longrightarrow> tb_mode t = mode_plan \<Longrightarrow> dw_files (dr_world r') = dw_files (dr_world r)"
proof (induction cs arbitrary: r)
  case (Cons c cs)
  obtain f content failed where 1: "run_tool (de_os e) (de_words e) t (tl_name c) (tl_args c) (dw_files (dr_world r)) = (f, content, failed)"
    using prod_cases3 by blast
  obtain b w where 2: "look_at_ctx ((dr_world r)\<lparr>dw_files := f\<rparr>) = (b, w)" by fastforce
  have w: "dw_files w = dw_files (dr_world r)" using ctx_keeps [OF 2] plan_tool_files [OF 1 Cons.prems(2)] by simp
  from Cons.prems(1) show ?case
    by (auto simp: 1 2 Let_def w split: if_splits dest!: Cons.IH [OF _ Cons.prems(2)])
qed simp

lemma plan_loop_files:
  "tool_loop left limit e cr model t r = (r', x) \<Longrightarrow> tb_mode t = mode_plan \<Longrightarrow> dw_files (dr_world r') = dw_files (dr_world r)"
proof (induction left arbitrary: r)
  case (Suc left r)
  obtain r1 y where 1: "ask_model e cr model t r = (r1, y)" by fastforce
  obtain r2 ok where 2: "run_calls e t (dm_calls m) r1 = (r2, ok)" if "y = Inr m" for m by (cases y) (auto intro: prod.exhaust)
  show ?case
  proof (cases y)
    case (Inl err)
    with Suc.prems ask_cases [OF 1] show ?thesis by (auto simp: 1)
  next
    case (Inr m)
    obtain r2 ok where 2: "run_calls e t (dm_calls m) r1 = (r2, ok)" by fastforce
    show ?thesis
      using Suc.prems(1) Inr ask_cases [OF 1] plan_calls_files [OF 2 Suc.prems(2)]
      by (auto simp: 1 2 split: if_splits bool.splits dest!: Suc.IH [OF _ Suc.prems(2)])
  qed
qed simp

lemma plan_turn_files:
  assumes "answered_turn e a prompt mode_plan c w = (r, out, err)" shows "dw_files (dr_world r) = dw_files w"
proof -
  let ?r0 = "\<lparr>dr_world = w, dr_messages = started_messages (ts_workspace c) mode_plan prompt (ts_messages c), dr_natives = [], dr_usage = no_usage\<rparr>"
  obtain r1 x where 1: "tool_loop (max_iterations (de_limit e)) (max_iterations (de_limit e)) e (ag_creds a) (ds_model a)
      \<lparr>tb_root = ts_workspace c, tb_mode = mode_plan\<rparr> ?r0 = (r1, x)" by fastforce
  have "dw_files (dr_world r1) = dw_files w" using plan_loop_files [OF 1] by simp
  then show ?thesis using assms store_cases [of e "is_ephemeral a" c out r1 r err]
    by (auto simp: answered_turn_def 1 split: sum.splits prod.splits)
qed

lemma load_files: "load_transcript i w = (w', r) \<Longrightarrow> dw_files w' = dw_files w"
  by (auto simp: load_transcript_def disk_call_def split: if_splits list.splits option.splits)

lemma open_files: "open_conv e a mode cwd s w = (w', r) \<Longrightarrow> dw_files w' = dw_files w"
  by (auto simp: open_conv_def dest!: load_files split: option.splits if_splits prod.splits sum.splits)

lemma attach_files:
  assumes "ds_attach e a mode s w = (w', s', a', kept, r)"
  shows "dw_files w' = dw_files w \<and> (\<forall>b. r = Inr b \<longrightarrow> conv_of s' \<noteq> None)"
proof -
  obtain b w1 where 1: "look_at_ctx w = (b, w1)" by fastforce
  note ctx = ctx_keeps [OF 1]
  obtain w2 x where 2: "open_conv e a mode (ds_workspace e a) s w1 = (w2, x)" by fastforce
  show ?thesis using assms ctx open_files [OF 2]
    by (auto simp: ds_attach_def 1 2 Let_def conv_of_def update_conv' split: bool.splits if_splits sum.splits prod.splits)
qed

text \<open>
  C36: A turn in plan mode changes no file, whatever the model asks for, whatever the disk and the network do
  and however the turn ends.
\<close>
theorem plan_turn_changes_no_file:
  assumes "ds_prompt e a prompt mode_plan s w = (w', s', a', kept, y)"
  shows "dw_files w' = dw_files w"
proof -
  obtain w1 s1 a1 kept1 x where 1: "ds_attach e a mode_plan s w = (w1, s1, a1, kept1, x)" using prod_cases5 by blast
  note att = attach_files [OF 1]
  show ?thesis
  proof (cases x)
    case (Inl err)
    obtain b w2 where 2: "look_at_ctx w1 = (b, w2)" by fastforce
    have "w' = w2" using assms(1) Inl by (auto simp: ds_prompt_def 1 2 Let_def)
    with att ctx_keeps [OF 2] show ?thesis by simp
  next
    case (Inr b)
    obtain c where "conv_of s1 = Some c" using att Inr by auto
    from prompt_parts [OF 1 [unfolded Inr] this assms(1)] show ?thesis using plan_turn_files end_cases att by metis
  qed
qed

section \<open>A session over time\<close>

text \<open>
  The sessions of a process and the ones after it: a restart loses the conversations in memory and keeps
  the stored ones, and what is outside changes as it likes.  A turn that panics takes the process down: the
  goroutine of an agent's inbox recovers from no panic.
\<close>

inductive talks :: "ds_session \<Rightarrow> 'f ds_world \<Rightarrow> bool" where
  first: "dw_disk w = [] \<Longrightarrow> talks new_ds_session w"
| attach: "talks s w \<Longrightarrow> ds_attach e a mode s w = (w', s', a', kept, r) \<Longrightarrow> talks s' w'"
| prompt: "talks s w \<Longrightarrow> ds_prompt e a prompt mode s w = (w', s', a', kept, y) \<Longrightarrow> dy_error y \<noteq> Some IndexPanic \<Longrightarrow> talks s' w'"
| panic: "talks s w \<Longrightarrow> ds_prompt e a prompt mode s w = (w', s', a', kept, y) \<Longrightarrow> dy_error y = Some IndexPanic \<Longrightarrow> talks new_ds_session w'"
| dispose: "talks s w \<Longrightarrow> ds_dispose ephemeral s w = (s', w') \<Longrightarrow> talks s' w'"
| restart: "talks s w \<Longrightarrow> talks new_ds_session w"
| outside: "talks s w \<Longrightarrow> dw_disk w' = dw_disk w \<Longrightarrow> talks s w'"

lemma new_settled [simp]: "convs_settled new_ds_session"
  by (simp add: convs_settled_def new_ds_session_def)

lemma delete_settled: "disk_settled w \<Longrightarrow> disk_settled (delete_transcript i w)"
  by (auto simp: delete_transcript_def disk_call_def disk_settled_def AList.delete_eq split: list.split option.split)

lemma dispose_settled: "disk_settled w \<Longrightarrow> ds_dispose eph s w = (s', w') \<Longrightarrow> convs_settled s' \<and> disk_settled w'"
proof -
  have "disk_settled w \<Longrightarrow> disk_settled (fold (\<lambda>(k, c). delete_transcript (ts_id c)) cs w)" for cs and w :: "'a ds_world"
    by (induction cs arbitrary: w) (auto simp: delete_settled)
  then show "disk_settled w \<Longrightarrow> ds_dispose eph s w = (s', w') \<Longrightarrow> convs_settled s' \<and> disk_settled w'"
    by (auto simp: ds_dispose_def split: if_splits)
qed

lemma talks_settled: "talks s w \<Longrightarrow> convs_settled s \<and> disk_settled w"
proof (induction rule: talks.induct)
  case (first w)
  then show ?case by (simp add: disk_settled_def)
next
  case (attach s w e a mode w' s' a' kept r)
  have "convs_settled s'" "dw_disk w' = dw_disk w" using attach_cases [OF attach.hyps(2)] attach.IH by blast+
  with attach.IH show ?case using settled_same(2) by blast
next
  case (prompt s w e a prompt mode w' s' a' kept y)
  then show ?case using prompt_cases [OF prompt.hyps(2)] by blast
next
  case (panic s w e a prompt mode w' s' a' kept y)
  then show ?case using prompt_cases [OF panic.hyps(2)] new_settled by blast
next
  case (dispose s w ephemeral s' w')
  then show ?case using dispose_settled by blast
next
  case (restart s w)
  then show ?case using new_settled by blast
next
  case (outside s w w')
  then show ?case using settled_same(2) by blast
qed

text \<open>
  C34: In every conversation a session keeps or has stored, each call the model made is answered by the tool
  messages right after it, under its id and in its order, and a conversation begins with the system's words
  and ends with an answer that makes no call, whatever turns failed in between.
\<close>
theorem every_call_is_answered:
  assumes "talks s w"
  shows "(\<forall>(k, c)\<in>set (dn_convs s). well_formed_talk (ts_messages c)) \<and> (\<forall>(i, x)\<in>set (dw_disk w). \<forall>t. x = Some t \<longrightarrow> well_formed_talk (ts_messages t))"
  using talks_settled [OF assms] by (fastforce simp: convs_settled_def disk_settled_def)

text \<open>
  C35: A turn that fails leaves the stored transcripts and the messages of every conversation as they were.
\<close>
theorem failed_turn_leaves_the_conversation:
  assumes "talks s w" "ds_prompt e a prompt mode s w = (w', s', a', kept, y)" "dy_error y = Some err" "err \<noteq> IndexPanic"
    and "map_of (dn_convs s) k = Some c"
  shows "dw_disk w' = dw_disk w \<and> (\<exists>c'. map_of (dn_convs s') k = Some c' \<and> ts_messages c' = ts_messages c)"
proof -
  have "convs_settled s" "disk_settled w" using talks_settled [OF assms(1)] by blast+
  from prompt_cases [OF assms(2) this] assms(3-5) show ?thesis by (metis option.distinct(1) option.inject)
qed

lemma max_iterations_pos: "0 < max_iterations raw"
  by (simp add: max_iterations_def default_max_iterations_def split: option.split)

text \<open>
  A turn makes no more requests than its limit allows, whatever the model answers.
\<close>
theorem requests_within_the_limit:
  assumes "ds_prompt e a prompt mode s w = (w', s', a', kept, y)" "talks s w"
  shows "dw_calls w' \<le> dw_calls w + max_iterations (de_limit e) \<and> 0 < max_iterations (de_limit e)"
  using prompt_cases [OF assms(1)] talks_settled [OF assms(2)] max_iterations_pos by blast

section \<open>Samples\<close>

text \<open>A model that asks for a file to be written, and then answers; an API that is down from the third request on.\<close>

definition sample_os :: "(string \<times> string) list os" where
  "sample_os = \<lparr>os_read = (\<lambda>p f. case map_of f p of None \<Rightarrow> Inl ''no such file'' | Some s \<Rightarrow> Inr s),
     os_write = (\<lambda>p s m f. (AList.update p s f, None)), os_mkdir = (\<lambda>p f. (f, None)), os_stat = (\<lambda>p f. Inr file_perm),
     os_tree = (\<lambda>p f. None), os_shell = (\<lambda>d c t f. (f, [], ShellOk)), os_glob = (\<lambda>g n. g = n), os_regexp = (\<lambda>r. None),
     os_duration = show_int\<rparr>"

definition asks_to_write :: "string list" where
  "asks_to_write = [''data: {\"choices\":[{\"delta\":{\"tool_calls\":[{\"index\":0,\"function\":{\"name\":\"write_file\",\"arguments\":\"{}\"}}]}}]}'',
     ''data: [DONE]'']"

definition answers :: "string list" where
  "answers = [''data: {\"choices\":[{\"delta\":{\"content\":\"done\"},\"finish_reason\":\"stop\"}]}'']"

definition sample_ds_env :: "(string \<times> string) list ds_env" where
  "sample_ds_env = \<lparr>de_os = sample_os, de_words = (\<lambda>e. ''refused''), de_errors = (\<lambda>e. ''failed''),
     de_api = (\<lambda>cr q n. if n = 0 then Inr (asks_to_write, StreamEof) else if n = 1 then Inr (answers, StreamEof) else Inl ''down''),
     de_fresh = (\<lambda>n. ''s''), de_cwd = ''/w'', de_limit = ''2'', de_took = (\<lambda>f. 0), de_clock = (\<lambda>w. 0)\<rparr>"

definition keyed_agent :: agent where
  "keyed_agent = zero_agent\<lparr>ag_lifecycle := lifecycle_persistent, ag_creds := (ag_creds zero_agent)\<lparr>cr_api_key := ''k''\<rparr>\<rparr>"

definition still_world :: "(string \<times> string) list ds_world" where
  "still_world = \<lparr>dw_files = [], dw_disk = [], dw_faults = [], dw_ctx = [], dw_calls = 0, dw_ids = 0\<rparr>"

definition ds_first_turn where "ds_first_turn = ds_prompt sample_ds_env keyed_agent ''hi'' mode_plan new_ds_session still_world"

lemma ds_first_turn_answers:
  "case ds_first_turn of (w, s, a, kept, y) \<Rightarrow> dy_error y = None \<and> dw_calls w = 2 \<and> dw_files w = [] \<and>
     map (\<lambda>(k, c). map dm_role (ts_messages c)) (dn_convs s) = [[''system'', ''user'', ''assistant'', ''tool'', ''assistant'']] \<and>
     map_of (dn_convs s) (mode_plan, ''/w'') \<noteq> None \<and> dw_disk w \<noteq> []"
  by code_simp

lemma second_turn_fails:
  "case ds_first_turn of (w, s, a, kept, y) \<Rightarrow>
     (case ds_prompt sample_ds_env a ''more'' mode_plan s w of (w', s', a', kept', y') \<Rightarrow> dy_error y' = Some (DsHttp ''down''))"
  by code_simp

lemma first_ds_talk:
  "\<exists>w s a kept y k c. ds_first_turn = (w, s, a, kept, y) \<and> talks s w \<and> dy_error y = None \<and> dw_calls w = 2 \<and> dw_files w = [] \<and> dw_disk w \<noteq> [] \<and>
     map_of (dn_convs s) k = Some c"
proof -
  obtain w s a kept y where 1: "ds_first_turn = (w, s, a, kept, y)" using prod_cases5 by blast
  have r: "dy_error y = None" "dw_calls w = 2" "dw_files w = []" "dw_disk w \<noteq> []" "map_of (dn_convs s) (mode_plan, ''/w'') \<noteq> None"
    using ds_first_turn_answers [unfolded 1 prod.case] by blast+
  have "talks new_ds_session still_world" by (rule talks.first) (simp add: still_world_def)
  from talks.prompt [OF this 1 [unfolded ds_first_turn_def]] r(1) have "talks s w" by simp
  with 1 r show ?thesis by blast
qed

theorem every_call_is_answered_witness:
  "\<exists>(w :: (string \<times> string) list ds_world) s k c. talks s w \<and> map_of (dn_convs s) k = Some c \<and> dw_disk w \<noteq> [] \<and> well_formed_talk (ts_messages c)"
proof -
  obtain w s a kept y k c where 1: "ds_first_turn = (w, s, a, kept, y)" "talks s w" "dw_disk w \<noteq> []" "map_of (dn_convs s) k = Some c"
    using first_ds_talk by blast
  have "well_formed_talk (ts_messages c)" using every_call_is_answered [OF 1(2)] map_of_SomeD [OF 1(4)] by fastforce
  with 1 show ?thesis by blast
qed

theorem failed_turn_leaves_the_conversation_witness:
  "\<exists>w s a (w' :: (string \<times> string) list ds_world) s' a' kept y k c c'. ds_prompt sample_ds_env a ''more'' mode_plan s w = (w', s', a', kept, y) \<and>
     dy_error y = Some (DsHttp ''down'') \<and> dw_disk w' = dw_disk w \<and> dw_disk w \<noteq> [] \<and>
     map_of (dn_convs s) k = Some c \<and> map_of (dn_convs s') k = Some c' \<and> ts_messages c' = ts_messages c"
proof -
  obtain w s a kept y k c where 1: "ds_first_turn = (w, s, a, kept, y)" "talks s w" "dw_disk w \<noteq> []" "map_of (dn_convs s) k = Some c"
    using first_ds_talk by blast
  obtain w' s' a' kept' y' where 2: "ds_prompt sample_ds_env a ''more'' mode_plan s w = (w', s', a', kept', y')" using prod_cases5 by blast
  have y: "dy_error y' = Some (DsHttp ''down'')" using second_turn_fails by (simp add: 1 2)
  from failed_turn_leaves_the_conversation [OF 1(2) 2 y _ 1(4)] 1 2 y show ?thesis by blast
qed

theorem plan_turn_changes_no_file_witness:
  "\<exists>w s a kept y. ds_prompt sample_ds_env keyed_agent ''hi'' mode_plan new_ds_session still_world = (w, s, a, kept, y) \<and>
     dy_error y = None \<and> dw_calls w = 2 \<and> dw_files w = dw_files still_world"
proof -
  obtain w s a kept y where 1: "ds_first_turn = (w, s, a, kept, y)" "dy_error y = None" "dw_calls w = 2" using first_ds_talk by blast
  from plan_turn_changes_no_file [OF 1(1) [unfolded ds_first_turn_def]] 1 show ?thesis
    unfolding ds_first_turn_def by blast
qed

section \<open>The harness of an agent\<close>

text \<open>
  DeepSeek as the harness of an agent's session (src/agent.go, llmSession): every agent has its own session,
  made on first use, and attaching it is what the acquisition of a worker relies on.
\<close>

definition session_for :: "string \<Rightarrow> ds_session smap \<Rightarrow> ds_session" where
  "session_for n ss = (case map_of ss n of None \<Rightarrow> new_ds_session | Some s \<Rightarrow> s)"

definition deepseek_attach ::
  "'f ds_env \<Rightarrow> agent \<Rightarrow> string \<Rightarrow> ds_session smap \<times> 'f ds_world \<Rightarrow> (ds_session smap \<times> 'f ds_world) \<times> agent \<times> bool \<times> string option" where
  "deepseek_attach e a mode x =
    (case ds_attach e a mode (session_for (ag_name a) (fst x)) (snd x) of
       (w, s, a', kept, r) \<Rightarrow>
         ((AList.update (ag_name a) s (fst x), w), a', kept, (case r of Inl err \<Rightarrow> Some (de_errors e err) | Inr _ \<Rightarrow> None)))"

lemma attach_keeps_agent:
  assumes "ds_attach e a mode s w = (w', s', a', kept, r)" shows "ag_name a' = ag_name a \<and> ag_id a' = ag_id a"
  using assms by (auto simp: ds_attach_def ds_attached_def Let_def split: bool.splits prod.splits sum.splits if_splits)

interpretation deepseek: session_harness "x\<lparr>se_attach := deepseek_attach e\<rparr>" for x e
  by unfold_locales (simp_all add: deepseek_attach_def attach_keeps_agent split: prod.split)

text \<open>
  Attaching the session of one agent does not touch the sessions of the others.
\<close>

lemma attach_own_session:
  "deepseek_attach e a mode (ss, w) = ((ss', w'), r) \<Longrightarrow> n \<noteq> ag_name a \<Longrightarrow> session_for n ss' = session_for n ss"
  by (auto simp: deepseek_attach_def session_for_def update_conv' split: prod.splits)

text \<open>A refused acquisition of a worker on a DeepSeek session leaves the agents as they were.\<close>

lemma refused_deepseek_worker:
  assumes "ag_name (snd (new_agent (se_home x) (sw_office w))) \<notin> set (map ag_name (of_agents (sw_office w)))"
    and "aq_ephemeral o' \<or> idle_worker (aq_task o') (aq_purpose o') (aq_workspace o') (sw_office w) = None"
    and "acquire_agent (x\<lparr>se_attach := deepseek_attach e\<rparr>) d o' w = (w', Inl err)"
  shows "of_agents (sw_office w') = of_agents (sw_office w)"
  by (rule deepseek.let_go [OF _ assms(2,3)]) (use assms(1) in simp)

end
