(* ===== verification/Deepseek_Tool_Laws.thy ===== *)
theory Deepseek_Tool_Laws
  imports Deepseek_Tools
begin

text \<open>
  Where the tools of a DeepSeek session may go: the path a tool acts on is inside the workspace by its names,
  and what a tool other than the shell changes is at such paths.
\<close>

section \<open>Paths\<close>

definition name_ok :: "string \<Rightarrow> bool" where
  "name_ok x \<longleftrightarrow> x \<noteq> [] \<and> x \<noteq> ''.'' \<and> x \<noteq> ''..'' \<and> slash \<notin> set x"

lemma clean_parts_ok:
  "\<forall>x\<in>set stack. name_ok x \<Longrightarrow> \<forall>x\<in>set ps. slash \<notin> set x \<Longrightarrow> \<forall>x\<in>set (clean_parts True stack ps). name_ok x"
proof (induction ps arbitrary: stack)
  case (Cons x xs)
  have xs: "\<forall>x\<in>set xs. slash \<notin> set x" using Cons.prems(2) by simp
  have tl: "\<forall>y\<in>set (tl stack). name_ok y" using Cons.prems(1) by (cases stack) simp_all
  consider "x = [] \<or> x = ''.''" | "x = ''..''" | "name_ok x" using Cons.prems(2) by (auto simp: name_ok_def)
  then show ?case
  proof cases
    case 1
    with Cons.IH [OF Cons.prems(1) xs] show ?thesis by (simp only: clean_parts.simps if_True)
  next
    case 2
    with Cons.IH [OF Cons.prems(1) xs] Cons.IH [OF tl xs] show ?thesis by simp
  next
    case 3
    then have "\<forall>y\<in>set (x # stack). name_ok y" using Cons.prems(1) by simp
    from Cons.IH [OF this xs] 3 show ?thesis by (simp add: name_ok_def)
  qed
qed simp

lemma split_join: "xs \<noteq> [] \<Longrightarrow> \<forall>x\<in>set xs. c \<notin> set x \<Longrightarrow> split_on c (str_join [c] xs) = xs"
proof (induction xs)
  case (Cons x xs)
  then show ?case by (cases "xs = []") (simp_all add: str_join_Cons split_on_append split_on_fresh)
qed simp

definition clean_names :: "string \<Rightarrow> string list" where
  "clean_names p = clean_parts True [] (split_on slash p)"

lemma clean_names_ok: "\<forall>x\<in>set (clean_names p). name_ok x"
  unfolding clean_names_def using split_on_parts by (intro clean_parts_ok) auto

lemma abs_parts: "\<forall>x\<in>set xs. name_ok x \<Longrightarrow> path_parts (slash # str_join [slash] xs) = xs"
proof (cases "xs = []")
  case False
  assume ok: "\<forall>x\<in>set xs. name_ok x"
  then have "split_on slash (slash # str_join [slash] xs) = [] # xs" using False by (simp add: split_join name_ok_def)
  moreover have "filter (\<lambda>x. x \<noteq> [] \<and> x \<noteq> ''.'') xs = xs" using ok by (simp add: name_ok_def)
  ultimately show ?thesis by (simp only: path_parts_def filter.simps) simp
qed (simp add: path_parts_def)

lemma clean_abs:
  assumes "is_abs p"
  shows "clean_path p = slash # str_join [slash] (clean_names p)" "is_abs (clean_path p)" "path_parts (clean_path p) = clean_names p"
proof -
  show eq: "clean_path p = slash # str_join [slash] (clean_names p)" using assms by (simp add: clean_path_def clean_names_def)
  show "is_abs (clean_path p)" by (simp add: eq is_abs_def)
  show "path_parts (clean_path p) = clean_names p" unfolding eq by (rule abs_parts [OF clean_names_ok])
qed

lemma clean_parts_same: "\<forall>x\<in>set xs. name_ok x \<Longrightarrow> clean_parts True stack xs = rev stack @ xs"
  by (induction xs arbitrary: stack) (simp_all add: name_ok_def)

lemma clean_abs_again:
  assumes "is_abs p" shows "clean_path (clean_path p) = clean_path p"
proof -
  have "clean_names (clean_path p) = clean_names p"
  proof (cases "clean_names p = []")
    case True
    then show ?thesis by (simp add: clean_abs(1) [OF assms]) (simp add: clean_names_def)
  next
    case False
    have "split_on slash (clean_path p) = [] # clean_names p"
      using clean_names_ok [of p] False by (simp add: clean_abs(1) [OF assms] split_join name_ok_def)
    then have "clean_names (clean_path p) = clean_parts True [] (clean_names p)" by (simp add: clean_names_def)
    then show ?thesis using clean_parts_same [OF clean_names_ok] by simp
  qed
  then show ?thesis using clean_abs(1) [OF assms] clean_abs(1) [OF clean_abs(2) [OF assms]] by simp
qed

lemma drop_common_prefix: "prefix xs ys \<longleftrightarrow> fst (drop_common xs ys) = []"
  by (induction xs ys rule: drop_common.induct) auto

lemma drop_common_in: "x \<in> set (fst (drop_common xs ys)) \<Longrightarrow> x \<in> set xs" "x \<in> set (snd (drop_common xs ys)) \<Longrightarrow> x \<in> set ys"
  by (induction xs ys rule: drop_common.induct) (auto split: if_splits)

definition in_root :: "string \<Rightarrow> string \<Rightarrow> bool" where
  "in_root root p \<longleftrightarrow> is_abs p \<and> ''..'' \<notin> set (path_parts p) \<and> prefix (path_parts (clean_path root)) (path_parts p)"

definition aimed_path :: "toolbox \<Rightarrow> string \<Rightarrow> string" where
  "aimed_path t p = (if is_abs (trim p) then clean_path (trim p) else clean_path (tb_root t @ [slash] @ (if trim p = [] then ''.'' else trim p)))"

lemma leaves_root:
  assumes "\<forall>x\<in>set bs. name_ok x" "\<forall>x\<in>set ts. name_ok x" "rel = str_join [slash] (replicate (length bs) ''..'' @ ts)"
  shows "(rel = ''..'' \<or> prefix ''../'' rel) = (bs \<noteq> [])"
proof (cases bs)
  case (Cons b bs')
  then show ?thesis
    using assms(3) by (cases "replicate (length bs') ''..'' @ ts") (auto simp: slash_def)
next
  case Nil
  have "\<not> (rel = ''..'' \<or> prefix ''../'' rel)"
  proof (cases "ts = []")
    case False
    have "split_on slash rel = ts" using assms(2,3) False by (simp add: Nil split_join name_ok_def)
    moreover have "''..'' \<notin> set ts" using assms(2) by (auto simp: name_ok_def)
    moreover have "split_on slash (''../'' @ z) = ''..'' # split_on slash z" for z by (simp add: slash_def)
    moreover have "split_on slash ''..'' = [''..'']" by (simp add: slash_def)
    ultimately show ?thesis by (metis list.set_intros(1) prefix_def)
  qed (use assms(3) Nil in simp)
  with Nil show ?thesis by simp
qed

lemma rel_of_root:
  assumes "is_abs root" "is_abs p"
  shows "\<exists>rel. path_rel root (clean_path p) = Some rel \<and> (\<not> (rel = ''..'' \<or> prefix ''../'' rel)) = in_root root (clean_path p)"
proof -
  note root = clean_abs [OF assms(1)] and p = clean_abs [OF assms(2)]
  have dots: "''..'' \<notin> set (clean_names q)" for q using clean_names_ok [of q] by (auto simp: name_ok_def)
  obtain bs ts where dc: "drop_common (clean_names root) (clean_names p) = (bs, ts)" by fastforce
  have inr: "in_root root (clean_path p) = (bs = [])"
    using root p dots dc drop_common_prefix [of "clean_names root" "clean_names p"] by (simp add: in_root_def)
  have "\<forall>x\<in>set bs. name_ok x" "\<forall>x\<in>set ts. name_ok x"
    using clean_names_ok drop_common_in [of _ "clean_names root" "clean_names p"] by (auto simp: dc)
  note leaves = leaves_root [OF this refl]
  show ?thesis
  proof (cases "clean_path root = clean_path p")
    case True
    then have "in_root root (clean_path p)" using p dots by (simp add: in_root_def)
    with True show ?thesis by (simp add: path_rel_def clean_abs_again [OF assms(2)])
  next
    case False
    have "\<not> (bs \<noteq> [] \<and> hd bs = ''..'')" using \<open>\<forall>x\<in>set bs. name_ok x\<close> by (cases bs) (auto simp: name_ok_def)
    with False have "path_rel root (clean_path p) = Some (str_join [slash] (replicate (length bs) ''..'' @ ts))"
      unfolding path_rel_def Let_def clean_abs_again [OF assms(2)] root(3) p(3) dc if_not_P [OF False] using root(2) p(2) by simp
    with leaves inr show ?thesis by blast
  qed
qed

lemma aimed_abs:
  assumes "is_abs (tb_root t)"
  shows "\<exists>p'. is_abs p' \<and> aimed_path t p = clean_path p'"
proof (cases "is_abs (trim p)")
  case False
  have "is_abs (tb_root t @ x)" for x using assms by (simp add: is_abs_def prefix_def) (metis append_Cons)
  with False show ?thesis unfolding aimed_path_def by (metis (full_types))
qed (auto simp: aimed_path_def)

lemma resolve_in_root:
  assumes "is_abs (tb_root t)"
  shows "resolve_path t p =
    (if in_root (tb_root t) (aimed_path t p) then Inr (aimed_path t p)
     else Inl (OutsideWorkspace (if trim p = [] then ''.'' else trim p) (tb_root t)))"
proof -
  obtain q where q: "is_abs q" "aimed_path t p = clean_path q" using aimed_abs [OF assms] by blast
  have "tb_root t \<noteq> []" using assms by (auto simp: is_abs_def)
  moreover have "\<not> is_abs ''.''" by (simp add: is_abs_def slash_def)
  ultimately have "clean_path (if is_abs (if trim p = [] then ''.'' else trim p) then (if trim p = [] then ''.'' else trim p)
       else path_join (tb_root t) (if trim p = [] then ''.'' else trim p)) = aimed_path t p"
    using q clean_abs_again [OF q(1)] by (auto simp: aimed_path_def path_join_def is_abs_def)
  moreover obtain rel where "path_rel (tb_root t) (aimed_path t p) = Some rel"
    "(\<not> (rel = ''..'' \<or> prefix ''../'' rel)) = in_root (tb_root t) (aimed_path t p)"
    using rel_of_root [OF assms q(1)] q(2) by auto
  ultimately show ?thesis by (auto simp: resolve_path_def Let_def)
qed

section \<open>What a tool changes\<close>

text \<open>
  C37: A file tool changes the workspace only.  Any property of the files that writing a file inside the
  workspace and making the directory of one keep is kept by every tool but the shell, whatever path the model
  names and whatever fails; a path is inside when it is absolute, its names extend those of the cleaned root
  and none of them is the parent.
\<close>
theorem tools_change_the_workspace_only:
  assumes root: "is_abs (tb_root t)" and call: "run_tool o' words t name arguments f = (f', content, failed)" "name \<noteq> ''run_shell''"
    and keeps: "\<And>p c m g. in_root (tb_root t) p \<Longrightarrow> Q g \<Longrightarrow> Q (fst (os_write o' p c m g))"
      "\<And>p g. in_root (tb_root t) p \<Longrightarrow> Q g \<Longrightarrow> Q (fst (os_mkdir o' (path_dir p) g))"
    and start: "Q f"
  shows "Q f'"
proof -
  have inside: "in_root (tb_root t) full" if "resolve_path t p = Inr full" for p full
    using that by (auto simp: resolve_in_root [OF root] split: if_splits)
  have written: "Q (fst (write_file o' t args f))" for args
  proof (cases "resolve_path t (tool_str args ''path'')")
    case (Inr full)
    obtain f1 x where 1: "os_mkdir o' (path_dir full) f = (f1, x)" by fastforce
    have f1: "Q f1" using keeps(2) [OF inside [OF Inr] start] 1 by simp
    have f2: "Q (fst (os_write o' full c file_perm f1))" for c by (rule keeps(1) [OF inside [OF Inr] f1])
    show ?thesis
    proof (cases "\<exists>c. map_of args ''content'' = Some (JStr c)")
      case True
      then obtain c where "map_of args ''content'' = Some (JStr c)" by blast
      with f1 f2 [of c] show ?thesis
        by (cases "os_write o' full c file_perm f1") (simp add: write_file_def Inr 1 split: option.split)
    next
      case False
      then have "fst (write_file o' t args f) = f" by (auto simp: write_file_def Inr split: option.split json.split)
      with start show ?thesis by simp
    qed
  qed (simp add: write_file_def start)
  have edited: "Q (fst (edit_file o' t args f))" for args
  proof (cases "resolve_path t (tool_str args ''path'')")
    case (Inr full)
    have "Q (fst (os_write o' full c m f))" for c m using keeps(1) [OF inside [OF Inr] start] .
    then have changed: "Q f1" if "os_write o' full c m f = (f1, x)" for c m f1 x using that by (metis fst_conv)
    show ?thesis
      by (auto simp: edit_file_def Let_def Inr start split: sum.split option.split prod.split dest: changed)
  qed (simp add: edit_file_def start)
  have "Q (fst (file_tool o' t name args f))" for args using written edited start by (simp add: file_tool_def)
  then have "Q f1" if "file_tool o' t name args f = (f1, x)" for args f1 x using that by (metis fst_conv)
  with start call show ?thesis by (auto simp: run_tool_def split: option.splits if_splits prod.splits sum.splits)
qed

definition plain_os :: "(string \<times> string) list os" where
  "plain_os = \<lparr>os_read = (\<lambda>p f. case map_of f p of None \<Rightarrow> Inl ''no such file'' | Some s \<Rightarrow> Inr s),
     os_write = (\<lambda>p s m f. (AList.update p s f, None)), os_mkdir = (\<lambda>p f. (f, None)), os_stat = (\<lambda>p f. Inr file_perm),
     os_tree = (\<lambda>p f. None), os_shell = (\<lambda>d c t f. (f, [], ShellOk)), os_glob = (\<lambda>g n. g = n), os_regexp = (\<lambda>r. None),
     os_duration = show_int\<rparr>"

definition plain_box :: toolbox where "plain_box = \<lparr>tb_root = ''/w'', tb_mode = ''agent''\<rparr>"

definition a_write where
  "a_write = run_tool plain_os (\<lambda>e. ''refused'') plain_box ''write_file'' ''{\"path\":\"a/../b\",\"content\":\"x\"}'' [(''/etc/hosts'', ''h'')]"

lemma a_write_lands: "a_write = ([(''/etc/hosts'', ''h''), (''/w/b'', ''x'')], ''wrote b (1 bytes)'', False)"
proof -
  have "tool_args ''{\"path\":\"a/../b\",\"content\":\"x\"}'' = Some [(''content'', JStr ''x''), (''path'', JStr ''a/../b'')]"
    "resolve_path plain_box ''a/../b'' = Inr ''/w/b''" "display_path plain_box ''/w/b'' = ''b''" "show_nat (Suc 0) = ''1''"
    "''write_file'' \<in> set (tool_names (tb_mode plain_box))"
    by code_simp+
  then show ?thesis
    by (simp add: a_write_def run_tool_def file_tool_def write_file_def tool_str_def plain_os_def truncate_output_def max_tool_output_def)
qed

lemma outside_refused:
  "resolve_path plain_box ''../etc/hosts'' = Inl (OutsideWorkspace ''../etc/hosts'' ''/w'')"
  "resolve_path plain_box ''/etc/hosts'' = Inl (OutsideWorkspace ''/etc/hosts'' ''/w'')"
  by code_simp+

theorem tools_change_the_workspace_only_witness:
  "\<exists>f' content. a_write = (f', content, False) \<and> map_of f' ''/w/b'' = Some ''x'' \<and> map_of f' ''/etc/hosts'' = Some ''h''"
proof -
  have out: "\<not> in_root ''/w'' ''/etc/hosts''" by code_simp
  obtain f' content where 1: "a_write = (f', content, False)" "map_of f' ''/w/b'' = Some ''x''" using a_write_lands by simp
  have root: "tb_root plain_box = ''/w''" "is_abs ''/w''" by (simp_all add: plain_box_def is_abs_def slash_def)
  have "map_of f' ''/etc/hosts'' = Some ''h''"
    by (rule tools_change_the_workspace_only [OF _ 1(1) [unfolded a_write_def], where Q = "\<lambda>g. map_of g ''/etc/hosts'' = Some ''h''"])
       (use out in \<open>auto simp: root plain_os_def update_conv'\<close>)
  with 1 show ?thesis by blast
qed

text \<open>A timeout of 9223372037 seconds wraps, and the cap lets the negative one through.\<close>

lemma long_timeout_is_none: "shell_timeout [(''timeout_seconds'', JNum ''9223372037'')] = - 9223372036709551616"
proof -
  have "trunc_number ''9223372037'' = 9223372037" by (simp add: trunc_number_def Let_def json_digit_def digit_value_def atoi_def)
  then show ?thesis by (simp add: shell_timeout_def tool_num_def wrap64_def second_def max_shell_timeout_def)
qed

end
