(* ===== verification/Deepseek_Stream_Laws.thy ===== *)
theory Deepseek_Stream_Laws
  imports Deepseek_Client
begin

text \<open>
  What a stream reports is what it adds up to: the texts of the events a completion emits, joined, are the
  message it is put together as.
\<close>

section \<open>What the events say\<close>

definition streamed :: "string \<Rightarrow> payload list \<Rightarrow> string" where
  "streamed typ evs = concat (map (\<lambda>n. payload_string n ''text'') (filter (\<lambda>n. payload_string n ''type'' = typ) evs))"

definition of_call :: "nat \<Rightarrow> payload \<Rightarrow> bool" where
  "of_call i n \<longleftrightarrow> payload_string n ''type'' = ''tool_call_delta'' \<and> map_of n ''index'' = Some (JNum (show_int (int i)))"

definition streamed_args :: "nat \<Rightarrow> payload list \<Rightarrow> string" where
  "streamed_args i evs = concat (map (\<lambda>n. payload_string n ''arguments'') (filter (of_call i) evs))"

definition args_at :: "nat \<Rightarrow> tool_call list \<Rightarrow> string" where
  "args_at i calls = (if i < length calls then tl_args (calls ! i) else [])"

lemma streamed_append [simp]: "streamed typ (xs @ ys) = streamed typ xs @ streamed typ ys"
  by (simp add: streamed_def)

lemma args_append [simp]: "streamed_args i (xs @ ys) = streamed_args i xs @ streamed_args i ys"
  by (simp add: streamed_args_def)

lemma streamed_none [simp]: "streamed typ [] = []" "streamed_args i [] = []"
  by (simp_all add: streamed_def streamed_args_def)

lemma show_int_inj: "show_int (int i) = show_int (int j) \<longleftrightarrow> i = j"
proof -
  have "show_int (int k) = show_nat k" for k by (simp add: show_int_def)
  then show ?thesis by (metis digits_value_show option.inject)
qed

section \<open>The calls\<close>

lemma delta_args:
  assumes "add_call_delta d calls = Some (calls', ev)"
  shows "args_at i calls' = args_at i calls @ streamed_args i [ev]" "streamed ''content_delta'' [ev] = []" "streamed ''reasoning_delta'' [ev] = []"
proof -
  let ?j = "nat (cd_index d)" and ?g = "calls @ replicate (Suc (nat (cd_index d)) - length calls) empty_call"
  have j: "0 \<le> cd_index d" and
    c: "calls' = ?g[?j := \<lparr>tl_id = first_set (tl_id (?g ! ?j)) (cd_id d), tl_name = tl_name (?g ! ?j) @ cd_name d, tl_args = tl_args (?g ! ?j) @ cd_args d\<rparr>]"
    and ev: "map_of ev ''type'' = Some (JStr ''tool_call_delta'')" "map_of ev ''index'' = Some (JNum (show_int (int ?j)))"
      "map_of ev ''arguments'' = Some (JStr (cd_args d))"
    using assms by (auto simp: add_call_delta_def Let_def native_def split: if_splits)
  have "of_call i ev \<longleftrightarrow> i = ?j" using ev show_int_inj [of "?j" i] by (auto simp: of_call_def payload_string_def)
  moreover have "args_at k ?g = args_at k calls" for k by (auto simp: args_at_def nth_append empty_call_def)
  moreover have "args_at i calls' = args_at i ?g @ (if i = ?j then cd_args d else [])" by (auto simp: c args_at_def nth_list_update)
  ultimately show "args_at i calls' = args_at i calls @ streamed_args i [ev]" using ev by (simp add: streamed_args_def payload_string_def)
  show "streamed ''content_delta'' [ev] = []" "streamed ''reasoning_delta'' [ev] = []" using ev by (simp_all add: streamed_def payload_string_def)
qed

lemma deltas_args:
  "add_call_deltas ds calls = (calls', evs, ok) \<Longrightarrow>
    args_at i calls' = args_at i calls @ streamed_args i evs \<and> streamed ''content_delta'' evs = [] \<and> streamed ''reasoning_delta'' evs = []"
proof (induction ds arbitrary: calls calls' evs ok)
  case (Cons d ds)
  show ?case
  proof (cases "add_call_delta d calls")
    case None
    with Cons.prems show ?thesis by simp
  next
    case (Some y)
    obtain c1 ev where 1: "add_call_delta d calls = Some (c1, ev)" using Some by (cases y) simp
    obtain c2 evs' ok' where 2: "add_call_deltas ds c1 = (c2, evs', ok')" using prod_cases3 by blast
    have "calls' = c2" "evs = [ev] @ evs'" using Cons.prems 1 2 by simp_all
    with delta_args [OF 1] Cons.IH [OF 2] show ?thesis by (simp del: append.simps)
  qed
qed simp

section \<open>The message\<close>

definition tells :: "completion \<Rightarrow> completion \<Rightarrow> payload list \<Rightarrow> bool" where
  "tells out out' evs \<longleftrightarrow>
    dm_content (cp_message out') = dm_content (cp_message out) @ streamed ''content_delta'' evs \<and>
    dm_reasoning (cp_message out') = dm_reasoning (cp_message out) @ streamed ''reasoning_delta'' evs \<and>
    (\<forall>i. args_at i (dm_calls (cp_message out')) = args_at i (dm_calls (cp_message out)) @ streamed_args i evs)"

lemma tells_refl [simp]: "tells out out []"
  by (simp add: tells_def)

lemma tells_trans: "tells a b xs \<Longrightarrow> tells b c ys \<Longrightarrow> tells a c (xs @ ys)"
  by (simp add: tells_def)

lemma choice_tells: "add_choice c out = (out', evs, ok) \<Longrightarrow> tells out out' evs"
proof -
  assume step: "add_choice c out = (out', evs, ok)"
  define e where "e = (if cc_reasoning c = [] then [] else [native ''reasoning_delta'' [(''text'', JStr (cc_reasoning c))]])
              @ (if cc_content c = [] then [] else [native ''content_delta'' [(''text'', JStr (cc_content c))]])"
  obtain calls evs2 ok2 where 1: "add_call_deltas (cc_calls c) (dm_calls (cp_message out)) = (calls, evs2, ok2)" using prod_cases3 by blast
  define fin where "fin = (case cc_finish c of Some w \<Rightarrow> if ok2 \<and> w \<noteq> [] then [native ''finish'' [(''finish_reason'', JStr w)]] else [] | None \<Rightarrow> [])"
  have msg: "cp_message out' = (cp_message out)\<lparr>dm_reasoning := dm_reasoning (cp_message out) @ cc_reasoning c,
      dm_content := dm_content (cp_message out) @ cc_content c, dm_calls := calls\<rparr>" and evs: "evs = e @ evs2 @ fin"
    using step by (auto simp: add_choice_def Let_def 1 fin_def e_def split: if_splits option.splits)
  have e: "streamed ''content_delta'' e = cc_content c" "streamed ''reasoning_delta'' e = cc_reasoning c" "streamed_args i e = []" for i
    by (simp_all add: e_def streamed_def streamed_args_def of_call_def native_def payload_string_def)
  have "fin = [] \<or> (\<exists>w. fin = [native ''finish'' [(''finish_reason'', JStr w)]])" by (auto simp: fin_def split: option.split)
  then consider "fin = []" | w where "fin = [native ''finish'' [(''finish_reason'', JStr w)]]" by blast
  then have f: "streamed ''content_delta'' fin = []" "streamed ''reasoning_delta'' fin = []" "streamed_args i fin = []" for i
    by (cases, simp_all add: streamed_def streamed_args_def of_call_def native_def payload_string_def)+
  show ?thesis using deltas_args [OF 1] unfolding tells_def evs msg streamed_append args_append e f by simp
qed

lemma choices_tell: "add_choices cs out = (out', evs, ok) \<Longrightarrow> tells out out' evs"
proof (induction cs arbitrary: out out' evs ok)
  case (Cons c cs)
  obtain o1 evs1 b where 1: "add_choice c out = (o1, evs1, b)" using prod_cases3 by blast
  obtain o2 evs2 b2 where 2: "add_choices cs o1 = (o2, evs2, b2)" using prod_cases3 by blast
  show ?case using Cons.prems tells_trans [OF choice_tells [OF 1] Cons.IH [OF 2]] choice_tells [OF 1] by (cases b) (auto simp: 1 2)
qed simp

lemma chunk_tells: "add_chunk ck out = (out', evs, ok) \<Longrightarrow> tells out out' evs"
proof -
  assume step: "add_chunk ck out = (out', evs, ok)"
  let ?o = "out\<lparr>cp_id := first_set (cp_id out) (ck_id ck), cp_model := first_set (cp_model out) (ck_model ck)\<rparr>"
  obtain o1 evs1 b where 1: "add_choices (ck_choices ck) ?o = (o1, evs1, b)" using prod_cases3 by blast
  have t: "tells out o1 evs1" using choices_tell [OF 1] by (simp add: tells_def)
  have u: "tells o1 (o1\<lparr>cp_usage := u\<rparr>) [native ''usage'' [(''usage'', JObj u)]]" for u
    by (simp add: tells_def streamed_def streamed_args_def of_call_def native_def payload_string_def)
  show ?thesis using step t tells_trans [OF t u] by (auto simp: add_chunk_def 1 split: if_splits)
qed

lemma stream_tells: "read_stream ls out = (out', evs, r) \<Longrightarrow> tells out out' evs"
proof (induction ls arbitrary: out evs)
  case (Cons l ls)
  have next_line: "tells out out' evs" if d: "line_data l = Some d" "d \<noteq> ''[DONE]''" "decode_chunk d = Some ck" for d ck
  proof -
    obtain o1 evs1 b where 1: "add_chunk ck out = (o1, evs1, b)" using prod_cases3 by blast
    obtain o2 evs2 q where 2: "read_stream ls o1 = (o2, evs2, q)" using prod_cases3 by blast
    have "if b then out' = o2 \<and> evs = evs1 @ evs2 \<and> r = q else out' = o1 \<and> evs = evs1" using Cons.prems d by (auto simp: 1 2)
    with chunk_tells [OF 1] Cons.IH [of o1] 2 tells_trans show ?thesis by (cases b) auto
  qed
  show ?case using Cons.prems Cons.IH
    by (cases "line_data l") (auto split: if_splits option.splits intro: next_line)
qed simp

lemma named_args: "args_at i (name_calls cs) = args_at i cs"
  by (simp add: name_calls_def args_at_def nth_enumerate_eq split: prod.split)

text \<open>
  C38: The events of a completed stream add up to the answer that is kept: its content and its reasoning are
  the texts of their events joined in order, and the arguments of its i-th call are the parts of the events of
  index i joined in order, however the chunks cut them and whatever comments and usage come in between.
\<close>
theorem stream_adds_up:
  assumes "stream_completion cancelled answer = (evs, Inr done)"
  shows "dm_content (cp_message done) = streamed ''content_delta'' evs \<and> dm_reasoning (cp_message done) = streamed ''reasoning_delta'' evs \<and>
    (\<forall>i. args_at i (dm_calls (cp_message done)) = streamed_args i evs) \<and> (\<forall>c\<in>set (dm_calls (cp_message done)). tl_id c \<noteq> [])"
proof -
  obtain ls ended where 1: "answer = Inr (ls, ended)" using assms by (auto simp: stream_completion_def split: sum.splits)
  obtain out evs' r where 2: "read_stream ls start_completion = (out, evs', r)" using prod_cases3 by blast
  have "done = finished_completion out" "evs = evs'"
    using assms by (auto simp: stream_completion_def 1 2 split: sum.splits stream_end.splits if_splits)
  moreover have "tells start_completion out evs'" by (rule stream_tells [OF 2])
  moreover have "tl_id c \<noteq> []" if "c \<in> set (name_calls cs)" for c cs using that by (auto simp: name_calls_def in_set_enumerate_eq split: if_splits)
  ultimately show ?thesis by (simp add: tells_def finished_completion_def named_args start_completion_def ds_text_def) (simp add: args_at_def)
qed

definition cut_stream :: "string list" where
  "cut_stream = ['': keep-alive'',
     ''data: {\"choices\":[{\"delta\":{\"reasoning_content\":\"so\",\"content\":\"do\"}}]}'',
     ''data: {\"choices\":[{\"delta\":{\"content\":\"ne\",\"tool_calls\":[{\"index\":1,\"function\":{\"name\":\"list_files\",\"arguments\":\"{\"}}]}}]}'',
     ''data: {\"choices\":[{\"delta\":{\"tool_calls\":[{\"index\":1,\"function\":{\"arguments\":\"}\"}}]}}],\"usage\":{\"total_tokens\":3}}'',
     ''data: [DONE]'']"

lemma cut_stream_ends:
  "case stream_completion False (Inr (cut_stream, StreamEof)) of
     (evs, Inr c) \<Rightarrow> dm_content (cp_message c) = ''done'' \<and> map tl_args (dm_calls (cp_message c)) = [[], ''{}''] | _ \<Rightarrow> False"
  by code_simp

theorem stream_adds_up_witness:
  "\<exists>evs c. stream_completion False (Inr (cut_stream, StreamEof)) = (evs, Inr c) \<and> streamed ''content_delta'' evs = ''done'' \<and> streamed_args 1 evs = ''{}''"
proof -
  obtain evs x where 0: "stream_completion False (Inr (cut_stream, StreamEof)) = (evs, x)" by fastforce
  then obtain c where 1: "stream_completion False (Inr (cut_stream, StreamEof)) = (evs, Inr c)"
    "dm_content (cp_message c) = ''done''" "map tl_args (dm_calls (cp_message c)) = [[], ''{}'']"
    using cut_stream_ends by (cases x) auto
  note sums = stream_adds_up [OF 1(1)]
  have "args_at 1 (dm_calls (cp_message c)) = ''{}''"
    using 1(3) by (auto simp: args_at_def)
  with sums 1 show ?thesis by metis
qed

text \<open>A negative index of a call is a panic.\<close>

lemma negative_index_panics:
  "snd (stream_completion False (Inr ([''data: {\"choices\":[{\"delta\":{\"tool_calls\":[{\"index\":-1}]}}]}''], StreamEof))) = Inl IndexPanic"
  by code_simp

end
